(* ===== verification/Prelude.thy ===== *)
theory Prelude
  imports Main
begin

text \<open>
  The part of the library every component uses.

  \<^item> Programs: a request handler of the code reads and writes the database, writes to
    stderr, sends notifications and may raise. It is modelled as a function from the
    world to a result (\<open>Inl\<close> the exception, \<open>Inr\<close> the value) and the world it leaves, so
    that what a handler did before it raised is still there.
  \<^item> A weakest-precondition transformer over such programs and its equations
    (collection \<open>wp_simps\<close>), and invariants of programs (collection \<open>keeps_intros\<close>).
  \<^item> Tables: lists of rows, with the SQL statements the code issues on them.
  \<^item> The interface \<open>table\<close> (a table of the database seen through its two accessors) and
    the interface \<open>system\<close> (operations that keep an invariant, run one after another).
\<close>

named_theorems wp_simps
named_theorems keeps_intros
named_theorems table_simps

section \<open>Programs\<close>

type_synonym ('e, 'a, 'w) prog = "'w \<Rightarrow> ('e + 'a) \<times> 'w"

definition ret :: "'a \<Rightarrow> ('e, 'a, 'w) prog" where
  "ret x w = (Inr x, w)"

definition throw :: "'e \<Rightarrow> ('e, 'a, 'w) prog" where
  "throw e w = (Inl e, w)"

definition andthen :: "('e, 'a, 'w) prog \<Rightarrow> ('a \<Rightarrow> ('e, 'b, 'w) prog) \<Rightarrow> ('e, 'b, 'w) prog" where
  "andthen m f w = (case m w of (Inl e, w') \<Rightarrow> (Inl e, w') | (Inr x, w') \<Rightarrow> f x w')"

definition seqp :: "('e, 'a, 'w) prog \<Rightarrow> ('e, 'b, 'w) prog \<Rightarrow> ('e, 'b, 'w) prog" where
  "seqp m n = andthen m (\<lambda>_. n)"

definition gets :: "('w \<Rightarrow> 'a) \<Rightarrow> ('e, 'a, 'w) prog" where
  "gets f w = (Inr (f w), w)"

definition modify :: "('w \<Rightarrow> 'w) \<Rightarrow> ('e, unit, 'w) prog" where
  "modify f w = (Inr (), f w)"

definition guard :: "bool \<Rightarrow> 'e \<Rightarrow> ('e, unit, 'w) prog" where
  "guard ok e = (if ok then ret () else throw e)"

definition whenp :: "bool \<Rightarrow> ('e, unit, 'w) prog \<Rightarrow> ('e, unit, 'w) prog" where
  "whenp c m = (if c then m else ret ())"

text \<open>\<open>row[0]\<close> on a missing row and its kin: the value, or the exception.\<close>

definition the_or :: "'e \<Rightarrow> 'a option \<Rightarrow> ('e, 'a, 'w) prog" where
  "the_or e x = (case x of None \<Rightarrow> throw e | Some y \<Rightarrow> ret y)"

text \<open>\<open>try: m except ...: h\<close>; \<open>h\<close> gets every exception and re-raises those it does not name.\<close>

definition catch :: "('e, 'a, 'w) prog \<Rightarrow> ('e \<Rightarrow> ('e, 'a, 'w) prog) \<Rightarrow> ('e, 'a, 'w) prog" where
  "catch m h w = (case m w of (Inl e, w') \<Rightarrow> h e w' | (Inr x, w') \<Rightarrow> (Inr x, w'))"

primrec for_each :: "'x list \<Rightarrow> ('x \<Rightarrow> ('e, unit, 'w) prog) \<Rightarrow> ('e, unit, 'w) prog" where
  "for_each [] f = ret ()"
| "for_each (x # xs) f = seqp (f x) (for_each xs f)"

text \<open>A loop that collects the values its body returns.\<close>

primrec collect :: "'x list \<Rightarrow> ('x \<Rightarrow> ('e, 'y, 'w) prog) \<Rightarrow> ('e, 'y list, 'w) prog" where
  "collect [] f = ret []"
| "collect (x # xs) f = andthen (f x) (\<lambda>y. andthen (collect xs f) (\<lambda>ys. ret (y # ys)))"

section \<open>Weakest preconditions\<close>

definition wp :: "('e, 'a, 'w) prog \<Rightarrow> ('a \<Rightarrow> 'w \<Rightarrow> bool) \<Rightarrow> ('e \<Rightarrow> 'w \<Rightarrow> bool) \<Rightarrow> 'w \<Rightarrow> bool" where
  "wp m Q E w = (case m w of (Inl e, w') \<Rightarrow> E e w' | (Inr x, w') \<Rightarrow> Q x w')"

lemma wp_ret [wp_simps]: "wp (ret x) Q E w = Q x w"
  by (simp add: wp_def ret_def)

lemma wp_ret_fun: "wp (ret x) Q E = Q x"
  by (simp add: fun_eq_iff wp_ret)

lemma wp_throw [wp_simps]: "wp (throw e) Q E w = E e w"
  by (simp add: wp_def throw_def)

lemma wp_andthen [wp_simps]: "wp (andthen m f) Q E w = wp m (\<lambda>x. wp (f x) Q E) E w"
  by (auto simp: wp_def andthen_def split: prod.splits sum.splits)

lemma wp_seqp [wp_simps]: "wp (seqp m n) Q E w = wp m (\<lambda>_. wp n Q E) E w"
  by (simp add: seqp_def wp_andthen)

lemma wp_gets [wp_simps]: "wp (gets f) Q E w = Q (f w) w"
  by (simp add: wp_def gets_def)

lemma wp_modify [wp_simps]: "wp (modify f) Q E w = Q () (f w)"
  by (simp add: wp_def modify_def)

lemma wp_guard [wp_simps]: "wp (guard c e) Q E w = (if c then Q () w else E e w)"
  by (simp add: guard_def wp_simps)

lemma wp_whenp [wp_simps]: "wp (whenp c m) Q E w = (if c then wp m Q E w else Q () w)"
  by (simp add: whenp_def wp_simps)

lemma wp_the_or [wp_simps]:
  "wp (the_or e x) Q E w = (case x of None \<Rightarrow> E e w | Some y \<Rightarrow> Q y w)"
  by (cases x) (simp_all add: the_or_def wp_simps)

lemma wp_catch [wp_simps]: "wp (catch m h) Q E w = wp m Q (\<lambda>e. wp (h e) Q E) w"
  by (auto simp: wp_def catch_def split: prod.splits sum.splits)

lemma wp_if [wp_simps]: "wp (if c then m else n) Q E w = (if c then wp m Q E w else wp n Q E w)"
  by simp

lemma wp_case_option [wp_simps]:
  "wp (case x of None \<Rightarrow> m | Some y \<Rightarrow> f y) Q E w
   = (case x of None \<Rightarrow> wp m Q E w | Some y \<Rightarrow> wp (f y) Q E w)"
  by (cases x) simp_all

lemma wp_for_each_Nil [wp_simps]: "wp (for_each [] f) Q E w = Q () w"
  by (simp add: wp_simps)

lemma wp_for_each_Cons [wp_simps]:
  "wp (for_each (x # xs) f) Q E w = wp (f x) (\<lambda>_. wp (for_each xs f) Q E) E w"
  by (simp add: wp_simps)

text \<open>What a run of the program returns and leaves, read off its weakest precondition.\<close>

lemma run_wp: "P (m w) \<longleftrightarrow> wp m (\<lambda>x w'. P (Inr x, w')) (\<lambda>e w'. P (Inl e, w')) w"
  by (auto simp: wp_def split: prod.splits sum.splits)

lemma snd_wp: "P (snd (m w)) \<longleftrightarrow> wp m (\<lambda>_. P) (\<lambda>_. P) w"
  by (auto simp: wp_def split: prod.splits sum.splits)

lemma run_eqI:
  "wp m (\<lambda>x w'. Inr x = r \<and> w' = w1) (\<lambda>e w'. Inl e = r \<and> w' = w1) w \<Longrightarrow> m w = (r, w1)"
  by (auto simp: wp_def split: prod.splits sum.splits)

lemma wpI_Inr: "wp m Q E w \<Longrightarrow> m w = (Inr x, w') \<Longrightarrow> Q x w'"
  by (simp add: wp_def)

lemma wpI_Inl: "wp m Q E w \<Longrightarrow> m w = (Inl e, w') \<Longrightarrow> E e w'"
  by (simp add: wp_def)

lemma wp_of_Inl: "m w = (Inl e, w') \<Longrightarrow> wp m Q E w = E e w'"
  by (simp add: wp_def)

lemma wp_of_Inr: "m w = (Inr x, w') \<Longrightarrow> wp m Q E w = Q x w'"
  by (simp add: wp_def)

lemma wp_mono:
  assumes "wp m Q E w" and "\<And>x w'. Q x w' \<Longrightarrow> Q' x w'" and "\<And>e w'. E e w' \<Longrightarrow> E' e w'"
  shows "wp m Q' E' w"
  using assms by (auto simp: wp_def split: prod.splits sum.splits)

lemma wp_conj:
  "wp m (\<lambda>x w'. Q x w' \<and> Q' x w') (\<lambda>e w'. E e w' \<and> E' e w') w \<longleftrightarrow> wp m Q E w \<and> wp m Q' E' w"
  by (auto simp: wp_def split: prod.splits sum.splits)

text \<open>A loop keeps what its body keeps.\<close>

lemma wp_for_each_inv:
  assumes "\<And>x w. x \<in> set xs \<Longrightarrow> I w \<Longrightarrow> wp (f x) (\<lambda>_. I) E w" and "I w"
  shows "wp (for_each xs f) (\<lambda>_. I) E w"
  using assms
proof (induction xs arbitrary: w)
  case Nil
  then show ?case by (simp add: wp_simps)
next
  case (Cons x xs)
  have "wp (f x) (\<lambda>_. I) E w"
    using Cons.prems by simp
  then have "wp (f x) (\<lambda>_. wp (for_each xs f) (\<lambda>_. I) E) E w"
    by (rule wp_mono) (use Cons in auto)
  then show ?case by (simp add: wp_simps)
qed

section \<open>Invariants of programs\<close>

definition keeps :: "('w \<Rightarrow> bool) \<Rightarrow> ('e, 'a, 'w) prog \<Rightarrow> bool" where
  "keeps P m \<longleftrightarrow> (\<forall>w. P w \<longrightarrow> P (snd (m w)))"

lemma keepsD: "keeps P m \<Longrightarrow> P w \<Longrightarrow> P (snd (m w))"
  by (simp add: keeps_def)

lemma keepsI: "(\<And>w. P w \<Longrightarrow> wp m (\<lambda>_. P) (\<lambda>_. P) w) \<Longrightarrow> keeps P m"
  by (auto simp: keeps_def snd_wp [symmetric])

lemma keeps_wp: "keeps P m \<Longrightarrow> P w \<Longrightarrow> wp m (\<lambda>_. P) (\<lambda>_. P) w"
  by (simp add: keeps_def snd_wp [symmetric])

lemma keeps_ret [keeps_intros]: "keeps P (ret x)"
  by (simp add: keeps_def ret_def)

lemma keeps_throw [keeps_intros]: "keeps P (throw e)"
  by (simp add: keeps_def throw_def)

lemma keeps_gets [keeps_intros]: "keeps P (gets f)"
  by (simp add: keeps_def gets_def)

lemma keeps_guard [keeps_intros]: "keeps P (guard c e)"
  by (simp add: guard_def keeps_intros)

lemma keeps_the_or [keeps_intros]: "keeps P (the_or e x)"
  by (cases x) (simp_all add: the_or_def keeps_intros)

lemma keeps_andthen [keeps_intros]:
  "keeps P m \<Longrightarrow> (\<And>x. keeps P (f x)) \<Longrightarrow> keeps P (andthen m f)"
  by (fastforce simp: keeps_def andthen_def split: prod.splits sum.splits)

lemma keeps_seqp [keeps_intros]: "keeps P m \<Longrightarrow> keeps P n \<Longrightarrow> keeps P (seqp m n)"
  by (simp add: seqp_def keeps_andthen)

lemma keeps_whenp [keeps_intros]: "(c \<Longrightarrow> keeps P m) \<Longrightarrow> keeps P (whenp c m)"
  by (simp add: whenp_def keeps_ret)

lemma keeps_if [keeps_intros]:
  "(c \<Longrightarrow> keeps P m) \<Longrightarrow> (\<not> c \<Longrightarrow> keeps P n) \<Longrightarrow> keeps P (if c then m else n)"
  by simp

lemma keeps_case_option [keeps_intros]:
  "keeps P m \<Longrightarrow> (\<And>y. keeps P (f y)) \<Longrightarrow> keeps P (case x of None \<Rightarrow> m | Some y \<Rightarrow> f y)"
  by (cases x) simp_all

lemma keeps_modify [keeps_intros]: "(\<And>w. P w \<Longrightarrow> P (f w)) \<Longrightarrow> keeps P (modify f)"
  by (simp add: keeps_def modify_def)

lemma keeps_catch [keeps_intros]:
  "keeps P m \<Longrightarrow> (\<And>e. keeps P (h e)) \<Longrightarrow> keeps P (catch m h)"
  by (fastforce simp: keeps_def catch_def split: prod.splits sum.splits)

lemma keeps_for_each [keeps_intros]: "(\<And>x. keeps P (f x)) \<Longrightarrow> keeps P (for_each xs f)"
  by (induction xs) (simp_all add: keeps_intros)

lemma keeps_collect [keeps_intros]: "(\<And>x. keeps P (f x)) \<Longrightarrow> keeps P (collect xs f)"
  by (induction xs) (simp_all add: keeps_intros)

text \<open>From one invariant to another: a run from \<open>P\<close> ends in \<open>Q\<close>, whether it succeeds or raises.\<close>

definition leads :: "('w \<Rightarrow> bool) \<Rightarrow> ('w \<Rightarrow> bool) \<Rightarrow> ('e, 'a, 'w) prog \<Rightarrow> bool" where
  "leads P Q m \<longleftrightarrow> (\<forall>w. P w \<longrightarrow> Q (snd (m w)))"

lemma leads_keeps: "keeps P m \<Longrightarrow> (\<And>w. P w \<Longrightarrow> Q w) \<Longrightarrow> leads P Q m"
  by (simp add: leads_def keeps_def)

lemma keeps_leads: "keeps P m \<longleftrightarrow> leads P P m"
  by (simp add: leads_def keeps_def)

lemma leads_wp: "leads P Q m \<longleftrightarrow> (\<forall>w. P w \<longrightarrow> wp m (\<lambda>_. Q) (\<lambda>_. Q) w)"
  by (simp add: leads_def snd_wp [symmetric])

lemma leads_before:
  "keeps P m \<Longrightarrow> (\<And>x. leads P Q (f x)) \<Longrightarrow> (\<And>w. P w \<Longrightarrow> Q w) \<Longrightarrow> leads P Q (andthen m f)"
  by (fastforce simp: leads_def keeps_def andthen_def split: prod.splits sum.splits)

lemma leads_after:
  "leads P Q m \<Longrightarrow> (\<And>x. keeps Q (f x)) \<Longrightarrow> leads P Q (andthen m f)"
  by (fastforce simp: leads_def keeps_def andthen_def split: prod.splits sum.splits)

text \<open>
  The interface of a running system: commands \<open>exec\<close> that keep \<open>inv\<close>. A client that
  issues any sequence of commands, successful or not, stays within the invariant.
\<close>

locale system =
  fixes exec :: "'c \<Rightarrow> 'w \<Rightarrow> 'r \<times> 'w"
    and inv :: "'w \<Rightarrow> bool"
  assumes exec_inv: "inv w \<Longrightarrow> inv (snd (exec c w))"
begin

lemma run_inv: "inv w \<Longrightarrow> inv (fold (\<lambda>c w. snd (exec c w)) cs w)"
  by (induction cs arbitrary: w) (simp_all add: exec_inv)

lemma run_prefix_inv:
  "inv w \<Longrightarrow> inv (fold (\<lambda>c w. snd (exec c w)) (take n cs) w)"
  by (rule run_inv)

end

section \<open>Lists\<close>

lemma list_all2_in1: "list_all2 R xs ys \<Longrightarrow> x \<in> set xs \<Longrightarrow> \<exists>y \<in> set ys. R x y"
  by (induction rule: list_all2_induct) auto

lemma list_all2_in2: "list_all2 R xs ys \<Longrightarrow> y \<in> set ys \<Longrightarrow> \<exists>x \<in> set xs. R x y"
  by (induction rule: list_all2_induct) auto

lemma list_all2_choice: "(\<And>x. x \<in> set xs \<Longrightarrow> \<exists>y. R x y) \<Longrightarrow> \<exists>ys. list_all2 R xs ys"
proof (induction xs)
  case Nil
  then show ?case by (intro exI [of _ "[]"]) simp
next
  case (Cons x xs)
  then obtain y ys where "R x y" "list_all2 R xs ys" by (metis list.set_intros)
  then show ?case by (intro exI [of _ "y # ys"]) simp
qed

section \<open>Tables\<close>

text \<open>
  A table is the list of its rows, oldest first. \<open>fetchone\<close> of a SELECT with condition
  \<open>p\<close> is \<open>List.find p\<close>; \<open>SELECT COUNT(*)\<close> is \<open>count_where\<close>.
\<close>

definition count_where :: "('r \<Rightarrow> bool) \<Rightarrow> 'r list \<Rightarrow> nat" where
  "count_where p rs = length (filter p rs)"

definition update_where :: "('r \<Rightarrow> bool) \<Rightarrow> ('r \<Rightarrow> 'r) \<Rightarrow> 'r list \<Rightarrow> 'r list" where
  "update_where p f rs = map (\<lambda>r. if p r then f r else r) rs"

definition delete_where :: "('r \<Rightarrow> bool) \<Rightarrow> 'r list \<Rightarrow> 'r list" where
  "delete_where p rs = filter (\<lambda>r. \<not> p r) rs"

definition next_id :: "nat list \<Rightarrow> nat" where
  "next_id ks = Suc (fold max ks 0)"

lemma fold_max_ge: "n \<le> fold max ks n \<and> (\<forall>k \<in> set ks. k \<le> fold max ks (n::nat))"
proof (induction ks arbitrary: n)
  case Nil
  then show ?case by simp
next
  case (Cons k ks)
  from Cons.IH [of "max k n"] show ?case by auto
qed

lemma next_id_fresh [simp]: "next_id ks \<notin> set ks"
  using fold_max_ge [of 0 ks] by (auto simp: next_id_def)

lemma next_id_pos [simp]: "0 < next_id ks"
  by (simp add: next_id_def)

lemma next_id_nth: "k \<in> set ks \<Longrightarrow> k \<noteq> next_id ks"
  by auto

lemma count_where_Nil [table_simps]: "count_where p [] = 0"
  by (simp add: count_where_def)

lemma count_where_append [table_simps]:
  "count_where p (rs @ ss) = count_where p rs + count_where p ss"
  by (simp add: count_where_def)

lemma count_where_Cons [table_simps]:
  "count_where p (r # rs) = (if p r then 1 else 0) + count_where p rs"
  by (simp add: count_where_def)

lemma count_where_0: "count_where p rs = 0 \<longleftrightarrow> (\<forall>r \<in> set rs. \<not> p r)"
  by (simp add: count_where_def filter_empty_conv)

lemma count_where_pos: "0 < count_where p rs \<longleftrightarrow> (\<exists>r \<in> set rs. p r)"
  using count_where_0 [of p rs] by auto

lemma count_where_cong:
  "(\<And>r. r \<in> set rs \<Longrightarrow> p r = q r) \<Longrightarrow> count_where p rs = count_where q rs"
  unfolding count_where_def by (metis filter_cong)

lemma count_where_delete [table_simps]:
  "count_where p (delete_where q rs) = count_where (\<lambda>r. p r \<and> \<not> q r) rs"
  by (simp add: count_where_def delete_where_def conj_commute)

lemma set_delete_where [table_simps]: "set (delete_where p rs) = {r \<in> set rs. \<not> p r}"
  by (simp add: delete_where_def)

lemma set_update_where [table_simps]:
  "set (update_where p f rs) = (\<lambda>r. if p r then f r else r) ` set rs"
  by (simp add: update_where_def)

lemma ball_update_where:
  "(\<forall>r \<in> set (update_where p f rs). P r) \<longleftrightarrow> (\<forall>r \<in> set rs. P (if p r then f r else r))"
  unfolding set_update_where by (rule ball_simps(9))

lemma bex_update_where:
  "(\<exists>r \<in> set (update_where p f rs). P r) \<longleftrightarrow> (\<exists>r \<in> set rs. P (if p r then f r else r))"
  unfolding set_update_where by (rule bex_simps(7))

lemma length_update_where [simp]: "length (update_where p f rs) = length rs"
  by (simp add: update_where_def)

lemma map_update_where_same:
  "(\<And>r. p r \<Longrightarrow> k (f r) = k r) \<Longrightarrow> map k (update_where p f rs) = map k rs"
  by (auto simp: update_where_def)

lemma update_where_none: "(\<And>r. r \<in> set rs \<Longrightarrow> \<not> p r) \<Longrightarrow> update_where p f rs = rs"
  by (simp add: update_where_def map_idI)

lemma delete_where_none: "(\<And>r. r \<in> set rs \<Longrightarrow> \<not> p r) \<Longrightarrow> delete_where p rs = rs"
  by (simp add: delete_where_def)

lemma distinct_map_delete_where [intro]:
  "distinct (map k rs) \<Longrightarrow> distinct (map k (delete_where p rs))"
  by (simp add: delete_where_def distinct_map_filter)

lemma distinct_map_filter_key:
  "distinct (map k rs) \<Longrightarrow> length (filter (\<lambda>r. k r = a) rs) \<le> 1"
  by (induction rs) (auto simp: filter_empty_conv image_iff)

lemma count_key_le_1: "distinct (map k rs) \<Longrightarrow> count_where (\<lambda>r. k r = a) rs \<le> 1"
  unfolding count_where_def by (rule distinct_map_filter_key)

lemma find_Some_iff_ex: "(\<exists>r. List.find p rs = Some r) \<longleftrightarrow> (\<exists>r \<in> set rs. p r)"
  by (induction rs) auto

lemma find_SomeD: "List.find p rs = Some r \<Longrightarrow> r \<in> set rs \<and> p r"
  by (induction rs) (auto split: if_splits)

lemma find_NoneD: "List.find p rs = None \<Longrightarrow> r \<in> set rs \<Longrightarrow> \<not> p r"
  by (simp add: find_None_iff)

lemma find_key:
  "distinct (map k rs) \<Longrightarrow> r \<in> set rs \<Longrightarrow> List.find (\<lambda>s. k s = k r) rs = Some r"
  by (induction rs) (auto simp: image_iff)

lemma distinct_map_inj: "distinct (map k rs) \<Longrightarrow> r \<in> set rs \<Longrightarrow> s \<in> set rs \<Longrightarrow> k r = k s \<Longrightarrow> r = s"
  by (induction rs) (auto simp: image_iff)

text \<open>
  The interface of a table of the database: \<open>rows\<close> reads it, \<open>put\<close> replaces it, \<open>key\<close> is
  its primary key. The laws say the two accessors reach one table and nothing else of it;
  what the statements do to a lookup by key follows once for every table.
\<close>

locale table =
  fixes rows :: "'d \<Rightarrow> 'r list"
    and put :: "'r list \<Rightarrow> 'd \<Rightarrow> 'd"
    and key :: "'r \<Rightarrow> 'k"
  assumes rows_put [simp]: "rows (put rs d) = rs"
    and put_rows [simp]: "put (rows d) d = d"
    and put_put [simp]: "put rs (put ss d) = put rs d"
begin

lemma lookup_insert:
  assumes "key r \<notin> key ` set (rows d)"
  shows "List.find (\<lambda>s. key s = k) (rows (put (rows d @ [r]) d))
    = (if k = key r then Some r else List.find (\<lambda>s. key s = k) (rows d))"
proof -
  have "key r \<notin> key ` set rs \<Longrightarrow> List.find (\<lambda>s. key s = k) (rs @ [r])
    = (if k = key r then Some r else List.find (\<lambda>s. key s = k) rs)" for rs
    by (induction rs) (auto simp: find_None_iff)
  with assms show ?thesis by simp
qed

lemma lookup_update:
  assumes "\<And>s. key (f s) = key s"
  shows "List.find (\<lambda>s. key s = k) (rows (put (update_where (\<lambda>s. key s = a) f (rows d)) d))
    = (if k = a then map_option f (List.find (\<lambda>s. key s = k) (rows d))
       else List.find (\<lambda>s. key s = k) (rows d))"
proof -
  have "List.find (\<lambda>s. key s = k) (update_where (\<lambda>s. key s = a) f rs)
    = (if k = a then map_option f (List.find (\<lambda>s. key s = k) rs)
       else List.find (\<lambda>s. key s = k) rs)" for rs
    by (induction rs) (auto simp: update_where_def assms)
  then show ?thesis by simp
qed

lemma lookup_delete:
  "List.find (\<lambda>s. key s = k) (rows (put (delete_where (\<lambda>s. key s = a) (rows d)) d))
    = (if k = a then None else List.find (\<lambda>s. key s = k) (rows d))"
proof -
  have "List.find (\<lambda>s. key s = k) (delete_where (\<lambda>s. key s = a) rs)
    = (if k = a then None else List.find (\<lambda>s. key s = k) rs)" for rs
    by (induction rs) (auto simp: delete_where_def)
  then show ?thesis by simp
qed

lemma distinct_insert:
  "distinct (map key (rows d)) \<Longrightarrow> key r \<notin> key ` set (rows d)
    \<Longrightarrow> distinct (map key (rows (put (rows d @ [r]) d)))"
  by auto

lemma distinct_update:
  "distinct (map key (rows d)) \<Longrightarrow> (\<And>s. p s \<Longrightarrow> key (f s) = key s)
    \<Longrightarrow> distinct (map key (rows (put (update_where p f (rows d)) d)))"
  by (simp add: map_update_where_same)

lemma distinct_delete:
  "distinct (map key (rows d)) \<Longrightarrow> distinct (map key (rows (put (delete_where p (rows d)) d)))"
  by (simp add: distinct_map_delete_where)

end

end
