(* ===== verification/Py_Strings.thy ===== *)
theory Py_Strings
  imports Prelude "HOL-Library.List_Lexorder" "HOL-Library.Char_ord"
begin

text \<open>
  The parts of Python's \<open>str\<close> methods, of \<open>str(int)\<close> and of the standard modules \<open>shlex\<close> and
  \<open>re\<close> that the modelled code calls. A \<open>str\<close> is a HOL \<open>string\<close>, one \<open>char\<close> per code point
  below 256; every comparison of database text is by these characters (the binary collation
  of the sqlite backend).
\<close>

section \<open>Numbers as text\<close>

definition digit_char :: "nat \<Rightarrow> char" where
  "digit_char n = char_of (48 + n mod 10)"

fun str_nat :: "nat \<Rightarrow> string" where
  "str_nat n = (if n < 10 then [digit_char n] else str_nat (n div 10) @ [digit_char n])"

declare str_nat.simps [simp del]

definition str_int :: "int \<Rightarrow> string" where
  "str_int i = (if i < 0 then CHR ''-'' # str_nat (nat (- i)) else str_nat (nat i))"

definition is_digit :: "char \<Rightarrow> bool" where
  "is_digit c \<longleftrightarrow> 48 \<le> (of_char c :: nat) \<and> (of_char c :: nat) \<le> 57"

definition digit_val :: "char \<Rightarrow> nat" where
  "digit_val c = of_char c - 48"

text \<open>\<open>int(s)\<close> on an optional sign and decimal digits; anything else is a \<open>ValueError\<close> (None).\<close>

definition nat_of_digits :: "string \<Rightarrow> nat" where
  "nat_of_digits s = foldl (\<lambda>n c. 10 * n + digit_val c) 0 s"

lemma of_char_digit: "(of_char (digit_char n) :: nat) = 48 + n mod 10"
proof -
  have "48 + n mod 10 < (256::nat)"
    using mod_less_divisor [of 10 n] by linarith
  then show ?thesis
    unfolding digit_char_def by (simp only: of_char_of mod_less)
qed

lemma is_digit_char [simp]: "is_digit (digit_char n)"
proof -
  have "n mod 10 < 10" by simp
  then show ?thesis unfolding is_digit_def of_char_digit by linarith
qed

lemma digit_val_char [simp]: "digit_val (digit_char n) = n mod 10"
  by (simp add: digit_val_def of_char_digit)

lemma nat_of_digits_snoc: "nat_of_digits (s @ [c]) = 10 * nat_of_digits s + digit_val c"
  by (simp add: nat_of_digits_def)

lemma nat_of_digits_str_nat [simp]: "nat_of_digits (str_nat n) = n"
proof (induction n rule: str_nat.induct)
  case (1 n)
  show ?case
  proof (cases "n < 10")
    case True
    then show ?thesis
      by (simp add: str_nat.simps [of n] nat_of_digits_def)
  next
    case False
    then have "nat_of_digits (str_nat n) = 10 * (n div 10) + n mod 10"
      using "1.IH" by (simp add: str_nat.simps [of n] nat_of_digits_snoc)
    then show ?thesis by simp
  qed
qed

lemma str_nat_inject [simp]: "str_nat m = str_nat n \<longleftrightarrow> m = n"
  by (metis nat_of_digits_str_nat)

lemma str_nat_digits: "\<forall>c \<in> set (str_nat n). is_digit c"
proof (induction n rule: str_nat.induct)
  case (1 n)
  then show ?case by (cases "n < 10") (auto simp: str_nat.simps [of n])
qed

section \<open>String methods\<close>

definition nl :: char where "nl = CHR 0x0A"

definition is_space :: "char \<Rightarrow> bool" where
  "is_space c \<longleftrightarrow> c \<in> {CHR '' '', CHR 0x09, CHR 0x0A, CHR 0x0B, CHR 0x0C, CHR 0x0D,
     CHR 0x1C, CHR 0x1D, CHR 0x1E, CHR 0x1F, CHR 0x85, CHR 0xA0}"

definition startswith :: "string \<Rightarrow> string \<Rightarrow> bool" where
  "startswith s p \<longleftrightarrow> take (length p) s = p"

definition endswith :: "string \<Rightarrow> string \<Rightarrow> bool" where
  "endswith s p \<longleftrightarrow> length p \<le> length s \<and> drop (length s - length p) s = p"

definition rstrip_char :: "char \<Rightarrow> string \<Rightarrow> string" where
  "rstrip_char c s = rev (dropWhile (\<lambda>x. x = c) (rev s))"

definition strip :: "string \<Rightarrow> string" where
  "strip s = rev (dropWhile is_space (rev (dropWhile is_space s)))"

fun split_by :: "(char \<Rightarrow> bool) \<Rightarrow> string \<Rightarrow> string list" where
  "split_by p [] = [[]]"
| "split_by p (c # cs) =
     (if p c then [] # split_by p cs
      else (case split_by p cs of [] \<Rightarrow> [[c]] | w # ws \<Rightarrow> (c # w) # ws))"

text \<open>\<open>s.split(c)\<close> and \<open>s.split()\<close>.\<close>

definition split_on :: "char \<Rightarrow> string \<Rightarrow> string list" where
  "split_on c s = split_by (\<lambda>x. x = c) s"

definition split_ws :: "string \<Rightarrow> string list" where
  "split_ws s = filter (\<lambda>w. w \<noteq> []) (split_by is_space s)"

fun join :: "string \<Rightarrow> string list \<Rightarrow> string" where
  "join sep [] = []"
| "join sep [w] = w"
| "join sep (w # v # ws) = w @ sep @ join sep (v # ws)"

definition ljust :: "nat \<Rightarrow> string \<Rightarrow> string" where
  "ljust n s = s @ replicate (n - length s) (CHR '' '')"

definition lower_char :: "char \<Rightarrow> char" where
  "lower_char c = (if CHR ''A'' \<le> c \<and> c \<le> CHR ''Z'' then char_of ((of_char c :: nat) + 32) else c)"

definition lower :: "string \<Rightarrow> string" where
  "lower s = map lower_char s"

definition is_alnum :: "char \<Rightarrow> bool" where
  "is_alnum c \<longleftrightarrow> is_digit c \<or> (CHR ''a'' \<le> c \<and> c \<le> CHR ''z'') \<or> (CHR ''A'' \<le> c \<and> c \<le> CHR ''Z'')"

definition is_lower_alnum :: "char \<Rightarrow> bool" where
  "is_lower_alnum c \<longleftrightarrow> is_digit c \<or> (CHR ''a'' \<le> c \<and> c \<le> CHR ''z'')"

definition replace_char :: "char \<Rightarrow> string \<Rightarrow> string \<Rightarrow> string" where
  "replace_char c by s = concat (map (\<lambda>x. if x = c then by else [x]) s)"

text \<open>\<open>t in s\<close>.\<close>

fun contains :: "string \<Rightarrow> string \<Rightarrow> bool" where
  "contains t [] = (t = [])"
| "contains t (c # cs) = (startswith (c # cs) t \<or> contains t cs)"

text \<open>
  \<open>$\<close> in a Python regular expression also matches before a trailing newline, so
  \<open>re.match(r"...$", s)\<close> accepts \<open>s\<close> and \<open>s + newline\<close> alike.
\<close>

definition re_dollar :: "(string \<Rightarrow> bool) \<Rightarrow> string \<Rightarrow> bool" where
  "re_dollar m s \<longleftrightarrow> m s \<or> (s \<noteq> [] \<and> last s = nl \<and> m (butlast s))"

text \<open>\<open>[a-z0-9][a-z0-9.+_-]*$\<close>, the shipped \<open>repo-regex\<close> and the pattern of package names.\<close>

definition is_pkgname_char :: "char \<Rightarrow> bool" where
  "is_pkgname_char c \<longleftrightarrow> is_lower_alnum c \<or> c \<in> {CHR ''.'', CHR ''+'', CHR ''_'', CHR ''-''}"

definition pkgname_regex :: "string \<Rightarrow> bool" where
  "pkgname_regex = re_dollar (\<lambda>s. case s of [] \<Rightarrow> False
     | c # cs \<Rightarrow> is_lower_alnum c \<and> list_all is_pkgname_char cs)"

lemma startswith_append [simp]: "startswith (p @ s) p"
  by (simp add: startswith_def)

lemma endswith_append [simp]: "endswith (s @ p) p"
  by (simp add: endswith_def)

lemma endswithD: "endswith s p \<Longrightarrow> take (length s - length p) s @ p = s"
  unfolding endswith_def by (metis append_take_drop_id)

lemma startswithD: "startswith s p \<Longrightarrow> p @ drop (length p) s = s"
  unfolding startswith_def by (metis append_take_drop_id)

lemma rstrip_char_last: "rstrip_char c s \<noteq> [] \<Longrightarrow> last (rstrip_char c s) \<noteq> c"
  unfolding rstrip_char_def
  by (metis (mono_tags) hd_dropWhile last_rev rev_is_Nil_conv)

lemma split_by_not_Nil [simp]: "split_by p s \<noteq> []"
  by (induction s) (auto split: list.splits)

lemma join_split_on: "join [c] (split_on c s) = s"
proof -
  have "join [c] (split_by (\<lambda>x. x = c) s) = s"
  proof (induction s)
    case Nil
    then show ?case by simp
  next
    case (Cons x xs)
    obtain w ws where s: "split_by (\<lambda>x. x = c) xs = w # ws"
      by (meson neq_Nil_conv split_by_not_Nil)
    with Cons show ?case by (cases ws) auto
  qed
  then show ?thesis by (simp add: split_on_def)
qed

lemma split_ws_nonempty: "w \<in> set (split_ws s) \<Longrightarrow> w \<noteq> []"
  by (simp add: split_ws_def)

section \<open>The module shlex\<close>

text \<open>\<open>shlex.split\<close> in POSIX mode, as its state machine; \<open>None\<close> is a \<open>ValueError\<close>.\<close>

datatype shlex_state = Space | Word | SQuote | DQuote | Esc_Word | Esc_DQuote

definition shlex_space :: "char \<Rightarrow> bool" where
  "shlex_space c \<longleftrightarrow> c = CHR '' '' \<or> c = CHR 0x09 \<or> c = CHR 0x0A \<or> c = CHR 0x0D"

definition emit :: "string \<Rightarrow> bool \<Rightarrow> string list" where
  "emit tok quoted = (if quoted \<or> tok \<noteq> [] then [tok] else [])"

fun shlex_go :: "shlex_state \<Rightarrow> string \<Rightarrow> bool \<Rightarrow> string \<Rightarrow> string list option" where
  "shlex_go Space tok q [] = Some []"
| "shlex_go Word tok q [] = Some (emit tok q)"
| "shlex_go SQuote tok q [] = None"
| "shlex_go DQuote tok q [] = None"
| "shlex_go Esc_Word tok q [] = None"
| "shlex_go Esc_DQuote tok q [] = None"
| "shlex_go Space tok q (c # cs) =
     (if shlex_space c then shlex_go Space [] False cs
      else if c = CHR 0x5C then shlex_go Esc_Word [] False cs
      else if c = CHR 0x27 then shlex_go SQuote [] False cs
      else if c = CHR 0x22 then shlex_go DQuote [] False cs
      else shlex_go Word [c] False cs)"
| "shlex_go Word tok q (c # cs) =
     (if shlex_space c then map_option (\<lambda>ws. emit tok q @ ws) (shlex_go Space [] False cs)
      else if c = CHR 0x27 then shlex_go SQuote tok q cs
      else if c = CHR 0x22 then shlex_go DQuote tok q cs
      else if c = CHR 0x5C then shlex_go Esc_Word tok q cs
      else shlex_go Word (tok @ [c]) q cs)"
| "shlex_go SQuote tok q (c # cs) =
     (if c = CHR 0x27 then shlex_go Word tok True cs else shlex_go SQuote (tok @ [c]) True cs)"
| "shlex_go DQuote tok q (c # cs) =
     (if c = CHR 0x22 then shlex_go Word tok True cs
      else if c = CHR 0x5C then shlex_go Esc_DQuote tok True cs
      else shlex_go DQuote (tok @ [c]) True cs)"
| "shlex_go Esc_Word tok q (c # cs) = shlex_go Word (tok @ [c]) q cs"
| "shlex_go Esc_DQuote tok q (c # cs) =
     (if c \<noteq> CHR 0x5C \<and> c \<noteq> CHR 0x22 then shlex_go DQuote (tok @ [CHR 0x5C, c]) q cs
      else shlex_go DQuote (tok @ [c]) q cs)"

definition shlex_split :: "string \<Rightarrow> string list option" where
  "shlex_split s = shlex_go Space [] False s"

definition shlex_safe :: "char \<Rightarrow> bool" where
  "shlex_safe c \<longleftrightarrow> is_alnum c \<or> c \<in> set ''@%+=:,./-_''"

definition shlex_quote :: "string \<Rightarrow> string" where
  "shlex_quote s =
     (if s = [] then [CHR 0x27, CHR 0x27]
      else if list_all shlex_safe s then s
      else [CHR 0x27]
           @ replace_char (CHR 0x27) [CHR 0x27, CHR 0x22, CHR 0x27, CHR 0x22, CHR 0x27] s
           @ [CHR 0x27])"

lemma shlex_unsafe:
  "\<not> shlex_safe (CHR '' '')" "\<not> shlex_safe (CHR 0x09)" "\<not> shlex_safe (CHR 0x0A)"
  "\<not> shlex_safe (CHR 0x0D)" "\<not> shlex_safe (CHR 0x5C)" "\<not> shlex_safe (CHR 0x27)"
  "\<not> shlex_safe (CHR 0x22)"
  by code_simp+

lemma shlex_safe_plain: "shlex_safe c \<Longrightarrow> \<not> shlex_space c \<and> c \<noteq> CHR 0x5C \<and> c \<noteq> CHR 0x27 \<and> c \<noteq> CHR 0x22"
  using shlex_unsafe by (auto simp: shlex_space_def)

lemma shlex_word_safe:
  "list_all shlex_safe s \<Longrightarrow> shlex_go Word tok q (s @ r) = shlex_go Word (tok @ s) q r"
  by (induction s arbitrary: tok) (auto dest: shlex_safe_plain)

lemma shlex_squote_body:
  "shlex_go SQuote tok q
     (replace_char (CHR 0x27) [CHR 0x27, CHR 0x22, CHR 0x27, CHR 0x22, CHR 0x27] s @ [CHR 0x27] @ r)
   = shlex_go Word (tok @ s) True r"
  by (induction s arbitrary: tok q) (simp_all add: replace_char_def shlex_space_def)

lemma shlex_quote_word: "shlex_go Space [] False (shlex_quote s @ r)
    = (if list_all shlex_safe s \<and> s \<noteq> [] then shlex_go Word s False r else shlex_go Word s True r)"
proof (cases s)
  case Nil
  then show ?thesis by (simp add: shlex_quote_def shlex_space_def)
next
  case (Cons c cs)
  show ?thesis
  proof (cases "list_all shlex_safe s")
    case True
    with Cons have c: "\<not> shlex_space c \<and> c \<noteq> CHR 0x5C \<and> c \<noteq> CHR 0x27 \<and> c \<noteq> CHR 0x22"
      and cs: "list_all shlex_safe cs"
      by (simp_all add: shlex_safe_plain)
    have "shlex_go Space [] False (c # cs @ r) = shlex_go Word [c] False (cs @ r)"
      using c by simp
    also have "\<dots> = shlex_go Word (c # cs) False r"
      using cs by (simp add: shlex_word_safe)
    finally show ?thesis using True Cons by (simp add: shlex_quote_def)
  next
    case False
    then have q: "shlex_quote s @ r = CHR 0x27 # (replace_char (CHR 0x27)
        [CHR 0x27, CHR 0x22, CHR 0x27, CHR 0x22, CHR 0x27] s @ [CHR 0x27] @ r)"
      unfolding shlex_quote_def using False by auto
    have "shlex_go Space [] False (shlex_quote s @ r) = shlex_go Word s True r"
      unfolding q using shlex_squote_body [of "[]" False s r] by (simp add: shlex_space_def)
    with False show ?thesis by simp
  qed
qed

text \<open>
  The interface of a quoting discipline: \<open>quote\<close> writes one argument, \<open>split\<close> reads a
  command line; \<open>sep\<close> separates arguments. A client that joins quoted arguments gets back
  exactly the arguments, whatever characters they hold.
\<close>

locale quoting =
  fixes quote :: "string \<Rightarrow> string"
    and split :: "string \<Rightarrow> string list option"
    and sep :: char
  assumes split_empty: "split [] = Some []"
    and split_last: "split (quote a) = Some [a]"
    and split_more: "split (quote a @ sep # r) = map_option (\<lambda>ws. a # ws) (split r)"
begin

lemma split_join_quote: "split (join [sep] (map quote args)) = Some args"
proof (induction args)
  case Nil
  then show ?case by (simp add: split_empty)
next
  case (Cons a args)
  then show ?case by (cases args) (simp_all add: split_last split_more)
qed

lemma quote_inject: "quote a = quote b \<Longrightarrow> a = b"
  by (metis list.inject option.inject split_last)

end

lemma append_single: "(@) [a] = (#) a"
  by (rule ext) simp

interpretation shlex_quoting: quoting shlex_quote shlex_split "CHR '' ''"
proof
  show "shlex_split [] = Some []"
    by (simp add: shlex_split_def)
  show "shlex_split (shlex_quote a) = Some [a]" for a
    using shlex_quote_word [of a "[]"] by (auto simp: shlex_split_def emit_def)
  show "shlex_split (shlex_quote a @ CHR '' '' # r) = map_option (\<lambda>ws. a # ws) (shlex_split r)" for a r
    using shlex_quote_word [of a "CHR '' '' # r"]
    by (cases "list_all shlex_safe a \<and> a \<noteq> []")
      (simp_all add: shlex_split_def emit_def shlex_space_def append_single)
qed

end
