(* ===== verification/Schema.thy ===== *)
theory Schema
  imports Complex_Main Py_Strings
begin

text \<open>
  The database: one record per table of \<open>aurweb/schema.py\<close>, with the table's columns under
  the prefix of the table, and the record \<open>db\<close> of all tables. Nullable columns are options;
  IDs and unsigned counters are \<open>nat\<close>; timestamps (seconds) are \<open>int\<close>; \<open>TINYINT\<close> flags are
  \<open>bool\<close>. A new row gets the ID after the largest in use, which is all the code relies on
  about AUTO_INCREMENT (the ID is positive and unused).

  \<open>wf_db\<close> collects the constraints of the schema (primary keys, unique indexes and foreign
  keys); the inserts check the unique indexes and the deletes follow the ON DELETE clauses.
\<close>

named_theorems wf_intros
named_theorems ok_intros

section \<open>Tables\<close>

record users_row =
  u_ID :: nat
  u_AccountTypeID :: nat
  u_Suspended :: bool
  u_EmailVerified :: bool
  u_EmailVerificationToken :: "string option"
  u_EmailVerificationExpiry :: "int option"
  u_Username :: string
  u_Email :: string
  u_BackupEmail :: "string option"
  u_HideEmail :: bool
  u_Passwd :: string
  u_Salt :: string
  u_ResetKey :: string
  u_RealName :: string
  u_LangPreference :: string
  u_Timezone :: string
  u_Homepage :: "string option"
  u_IRCNick :: string
  u_PGPKey :: "string option"
  u_LastLogin :: int
  u_LastLoginIPAddress :: "string option"
  u_LastSSHLogin :: int
  u_LastSSHLoginIPAddress :: "string option"
  u_InactivityTS :: int
  u_RegistrationTS :: int
  u_CommentNotify :: bool
  u_UpdateNotify :: bool
  u_OwnershipNotify :: bool
  u_SSOAccountID :: "string option"
  u_HideDeletedComments :: bool
  u_NormalizedEmail :: "string option"

text \<open>
  The columns' server defaults, for a row of which only the named columns are given. That of \<open>RegistrationTS\<close> is
  the current time, which the insertions set.
\<close>

definition users_default :: users_row where
  "users_default = \<lparr>u_ID = 0, u_AccountTypeID = 1, u_Suspended = False, u_EmailVerified = False,
     u_EmailVerificationToken = None, u_EmailVerificationExpiry = None, u_Username = [],
     u_Email = [], u_BackupEmail = None, u_HideEmail = False, u_Passwd = [], u_Salt = [],
     u_ResetKey = [], u_RealName = [], u_LangPreference = ''en'', u_Timezone = ''UTC'',
     u_Homepage = None, u_IRCNick = [], u_PGPKey = None, u_LastLogin = 0,
     u_LastLoginIPAddress = None, u_LastSSHLogin = 0, u_LastSSHLoginIPAddress = None,
     u_InactivityTS = 0, u_RegistrationTS = 0, u_CommentNotify = True, u_UpdateNotify = False,
     u_OwnershipNotify = True, u_SSOAccountID = None, u_HideDeletedComments = False,
     u_NormalizedEmail = None\<rparr>"

record sshpubkeys_row =
  sk_UserID :: nat
  sk_Fingerprint :: string
  sk_PubKey :: string

record sessions_row =
  ss_UsersID :: nat
  ss_SessionID :: string
  ss_LastUpdateTS :: int

record packagebases_row =
  pb_ID :: nat
  pb_Name :: string
  pb_NumVotes :: nat
  pb_Popularity :: real
  pb_PopularityUpdated :: int
  pb_OutOfDateTS :: "int option"
  pb_FlaggerComment :: string
  pb_SubmittedTS :: int
  pb_ModifiedTS :: int
  pb_FlaggerUID :: "nat option"
  pb_SubmitterUID :: "nat option"
  pb_MaintainerUID :: "nat option"
  pb_PackagerUID :: "nat option"

definition packagebases_default :: packagebases_row where
  "packagebases_default = \<lparr>pb_ID = 0, pb_Name = [], pb_NumVotes = 0, pb_Popularity = 0,
     pb_PopularityUpdated = 1, pb_OutOfDateTS = None, pb_FlaggerComment = [], pb_SubmittedTS = 0,
     pb_ModifiedTS = 0, pb_FlaggerUID = None, pb_SubmitterUID = None, pb_MaintainerUID = None,
     pb_PackagerUID = None\<rparr>"

record packagekeywords_row =
  kw_PackageBaseID :: nat
  kw_Keyword :: string

record packages_row =
  pk_ID :: nat
  pk_PackageBaseID :: nat
  pk_Name :: string
  pk_Version :: string
  pk_Description :: "string option"
  pk_URL :: "string option"

record licenses_row =
  li_ID :: nat
  li_Name :: string

record packagelicenses_row =
  pl_PackageID :: nat
  pl_LicenseID :: nat

record groups_row =
  gr_ID :: nat
  gr_Name :: string

record packagegroups_row =
  pg_PackageID :: nat
  pg_GroupID :: nat

record dependencytypes_row =
  dt_ID :: nat
  dt_Name :: string

record packagedepends_row =
  pd_PackageID :: nat
  pd_DepTypeID :: nat
  pd_DepName :: string
  pd_DepDesc :: "string option"
  pd_DepCondition :: "string option"
  pd_DepArch :: "string option"

record relationtypes_row =
  rt_ID :: nat
  rt_Name :: string

record packagerelations_row =
  rl_PackageID :: nat
  rl_RelTypeID :: nat
  rl_RelName :: string
  rl_RelCondition :: "string option"
  rl_RelArch :: "string option"

record packagesources_row =
  sr_PackageID :: nat
  sr_Source :: string
  sr_SourceArch :: "string option"

record packagevotes_row =
  pv_UsersID :: nat
  pv_PackageBaseID :: nat
  pv_VoteTS :: int

record packagecomments_row =
  pc_ID :: nat
  pc_PackageBaseID :: nat
  pc_UsersID :: "nat option"
  pc_Comments :: string
  pc_RenderedComment :: string
  pc_CommentTS :: int
  pc_EditedTS :: "int option"
  pc_EditedUsersID :: "nat option"
  pc_DelTS :: "int option"
  pc_DelUsersID :: "nat option"
  pc_PinnedTS :: int

record packagecomaintainers_row =
  cm_UsersID :: nat
  cm_PackageBaseID :: nat
  cm_Priority :: nat

record packagenotifications_row =
  pn_PackageBaseID :: nat
  pn_UserID :: nat

record officialproviders_row =
  op_ID :: nat
  op_Name :: string
  op_Repo :: string
  op_Provides :: string

record requesttypes_row =
  qt_ID :: nat
  qt_Name :: string

record packagerequests_row =
  pr_ID :: nat
  pr_ReqTypeID :: nat
  pr_PackageBaseID :: "nat option"
  pr_PackageBaseName :: string
  pr_MergeBaseName :: "string option"
  pr_UsersID :: "nat option"
  pr_Comments :: string
  pr_ClosureComment :: string
  pr_RequestTS :: int
  pr_ClosedTS :: "int option"
  pr_ClosedUID :: "nat option"
  pr_Status :: nat

record voteinfo_row =
  vi_ID :: nat
  vi_Agenda :: string
  vi_User :: string
  vi_Submitted :: int
  vi_End :: int
  vi_Quorum :: rat
  vi_SubmitterID :: nat
  vi_Yes :: nat
  vi_No :: nat
  vi_Abstain :: nat
  vi_ActiveUsers :: nat

record votes_row =
  vt_VoteID :: nat
  vt_UserID :: nat

record apiratelimit_row =
  al_IP :: string
  al_Requests :: int
  al_WindowStart :: int

record terms_row =
  tm_ID :: nat
  tm_Description :: string
  tm_URL :: string
  tm_Revision :: nat

record acceptedterms_row =
  at_UsersID :: nat
  at_TermsID :: nat
  at_Revision :: nat

record db =
  Users :: "users_row list"
  SSHPubKeys :: "sshpubkeys_row list"
  Sessions :: "sessions_row list"
  PackageBases :: "packagebases_row list"
  PackageKeywords :: "packagekeywords_row list"
  Packages :: "packages_row list"
  Licenses :: "licenses_row list"
  PackageLicenses :: "packagelicenses_row list"
  Groups :: "groups_row list"
  PackageGroups :: "packagegroups_row list"
  DependencyTypes :: "dependencytypes_row list"
  PackageDepends :: "packagedepends_row list"
  RelationTypes :: "relationtypes_row list"
  PackageRelations :: "packagerelations_row list"
  PackageSources :: "packagesources_row list"
  PackageVotes :: "packagevotes_row list"
  PackageComments :: "packagecomments_row list"
  PackageComaintainers :: "packagecomaintainers_row list"
  PackageNotifications :: "packagenotifications_row list"
  PackageBlacklist :: "string list"
  OfficialProviders :: "officialproviders_row list"
  RequestTypes :: "requesttypes_row list"
  PackageRequests :: "packagerequests_row list"
  VoteInfo :: "voteinfo_row list"
  Votes :: "votes_row list"
  Bans :: "string list"
  Terms :: "terms_row list"
  AcceptedTerms :: "acceptedterms_row list"
  ApiRateLimit :: "apiratelimit_row list"

definition empty_db :: db where
  "empty_db = \<lparr>Users = [], SSHPubKeys = [], Sessions = [], PackageBases = [],
     PackageKeywords = [], Packages = [], Licenses = [], PackageLicenses = [], Groups = [],
     PackageGroups = [], DependencyTypes = [], PackageDepends = [], RelationTypes = [],
     PackageRelations = [], PackageSources = [], PackageVotes = [], PackageComments = [],
     PackageComaintainers = [], PackageNotifications = [], PackageBlacklist = [],
     OfficialProviders = [], RequestTypes = [], PackageRequests = [], VoteInfo = [],
     Votes = [], Bans = [], Terms = [], AcceptedTerms = [], ApiRateLimit = []\<rparr>"

interpretation users_table: table Users "\<lambda>rs. Users_update (\<lambda>_. rs)" u_ID
  by unfold_locales simp_all

interpretation bases_table: table PackageBases "\<lambda>rs. PackageBases_update (\<lambda>_. rs)" pb_ID
  by unfold_locales simp_all

interpretation packages_table: table Packages "\<lambda>rs. Packages_update (\<lambda>_. rs)" pk_ID
  by unfold_locales simp_all

interpretation requests_table: table PackageRequests "\<lambda>rs. PackageRequests_update (\<lambda>_. rs)" pr_ID
  by unfold_locales simp_all

interpretation votes_table: table PackageVotes "\<lambda>rs. PackageVotes_update (\<lambda>_. rs)"
    "\<lambda>v. (pv_UsersID v, pv_PackageBaseID v)"
  by unfold_locales simp_all

section \<open>Constraints\<close>

text \<open>\<open>NULL\<close> is no value of a unique index or a foreign key: a NULL entry breaks neither.\<close>

definition refers :: "nat option \<Rightarrow> nat set \<Rightarrow> bool" where
  "refers x ids \<longleftrightarrow> (case x of None \<Rightarrow> True | Some i \<Rightarrow> i \<in> ids)"

definition user_ids :: "db \<Rightarrow> nat set" where
  "user_ids d = u_ID ` set (Users d)"

definition base_ids :: "db \<Rightarrow> nat set" where
  "base_ids d = pb_ID ` set (PackageBases d)"

definition package_ids :: "db \<Rightarrow> nat set" where
  "package_ids d = pk_ID ` set (Packages d)"

definition unique_ok :: "db \<Rightarrow> bool" where
  "unique_ok d \<longleftrightarrow>
     distinct (map u_ID (Users d)) \<and> distinct (map u_Username (Users d))
   \<and> distinct (map pb_ID (PackageBases d)) \<and> distinct (map pb_Name (PackageBases d))
   \<and> distinct (map pk_ID (Packages d)) \<and> distinct (map pk_Name (Packages d))
   \<and> distinct (map (\<lambda>k. (kw_PackageBaseID k, kw_Keyword k)) (PackageKeywords d))
   \<and> distinct (map (\<lambda>v. (pv_UsersID v, pv_PackageBaseID v)) (PackageVotes d))
   \<and> distinct (map (\<lambda>n. (pn_UserID n, pn_PackageBaseID n)) (PackageNotifications d))
   \<and> distinct (map pc_ID (PackageComments d))
   \<and> distinct (map pr_ID (PackageRequests d))
   \<and> distinct (map ss_UsersID (Sessions d)) \<and> distinct (map ss_SessionID (Sessions d))
   \<and> distinct (map vi_ID (VoteInfo d))"

definition refs_ok :: "db \<Rightarrow> bool" where
  "refs_ok d \<longleftrightarrow>
     (\<forall>b \<in> set (PackageBases d). refers (pb_MaintainerUID b) (user_ids d)
        \<and> refers (pb_FlaggerUID b) (user_ids d) \<and> refers (pb_SubmitterUID b) (user_ids d)
        \<and> refers (pb_PackagerUID b) (user_ids d))
   \<and> (\<forall>k \<in> set (PackageKeywords d). kw_PackageBaseID k \<in> base_ids d)
   \<and> (\<forall>p \<in> set (Packages d). pk_PackageBaseID p \<in> base_ids d)
   \<and> (\<forall>v \<in> set (PackageVotes d). pv_UsersID v \<in> user_ids d \<and> pv_PackageBaseID v \<in> base_ids d)
   \<and> (\<forall>c \<in> set (PackageComaintainers d).
        cm_UsersID c \<in> user_ids d \<and> cm_PackageBaseID c \<in> base_ids d)
   \<and> (\<forall>n \<in> set (PackageNotifications d).
        pn_UserID n \<in> user_ids d \<and> pn_PackageBaseID n \<in> base_ids d)
   \<and> (\<forall>c \<in> set (PackageComments d). pc_PackageBaseID c \<in> base_ids d
        \<and> refers (pc_UsersID c) (user_ids d) \<and> refers (pc_DelUsersID c) (user_ids d)
        \<and> refers (pc_EditedUsersID c) (user_ids d))
   \<and> (\<forall>r \<in> set (PackageRequests d). refers (pr_PackageBaseID r) (base_ids d)
        \<and> refers (pr_UsersID r) (user_ids d) \<and> refers (pr_ClosedUID r) (user_ids d))
   \<and> (\<forall>s \<in> set (Sessions d). ss_UsersID s \<in> user_ids d)
   \<and> (\<forall>k \<in> set (SSHPubKeys d). sk_UserID k \<in> user_ids d)
   \<and> (\<forall>v \<in> set (VoteInfo d). vi_SubmitterID v \<in> user_ids d)
   \<and> (\<forall>v \<in> set (Votes d). vt_UserID v \<in> user_ids d \<and> vt_VoteID v \<in> vi_ID ` set (VoteInfo d))
   \<and> (\<forall>a \<in> set (AcceptedTerms d). at_UsersID a \<in> user_ids d)"

definition wf_db :: "db \<Rightarrow> bool" where
  "wf_db d \<longleftrightarrow> unique_ok d \<and> refs_ok d"

section \<open>Deletes and their ON DELETE clauses\<close>

definition null_if :: "nat set \<Rightarrow> nat option \<Rightarrow> nat option" where
  "null_if ids x = (case x of None \<Rightarrow> None | Some i \<Rightarrow> if i \<in> ids then None else Some i)"

text \<open>Deleting packages takes their dependencies, relations, sources, licenses and groups along.\<close>

definition delete_packages :: "(packages_row \<Rightarrow> bool) \<Rightarrow> db \<Rightarrow> db" where
  "delete_packages p d = (let gone = pk_ID ` {r \<in> set (Packages d). p r} in
     d\<lparr>Packages := delete_where p (Packages d),
       PackageLicenses := delete_where (\<lambda>r. pl_PackageID r \<in> gone) (PackageLicenses d),
       PackageGroups := delete_where (\<lambda>r. pg_PackageID r \<in> gone) (PackageGroups d),
       PackageDepends := delete_where (\<lambda>r. pd_PackageID r \<in> gone) (PackageDepends d),
       PackageRelations := delete_where (\<lambda>r. rl_PackageID r \<in> gone) (PackageRelations d),
       PackageSources := delete_where (\<lambda>r. sr_PackageID r \<in> gone) (PackageSources d)\<rparr>)"

text \<open>
  Deleting package bases: packages, keywords, votes, comments, co-maintainers and
  notifications go (CASCADE); requests stay with \<open>PackageBaseID\<close> NULL (SET NULL).
\<close>

definition delete_pkgbases :: "(packagebases_row \<Rightarrow> bool) \<Rightarrow> db \<Rightarrow> db" where
  "delete_pkgbases p d = (let gone = pb_ID ` {r \<in> set (PackageBases d). p r};
       d' = delete_packages (\<lambda>r. pk_PackageBaseID r \<in> gone) d in
     d'\<lparr>PackageBases := delete_where p (PackageBases d'),
       PackageKeywords := delete_where (\<lambda>r. kw_PackageBaseID r \<in> gone) (PackageKeywords d'),
       PackageVotes := delete_where (\<lambda>r. pv_PackageBaseID r \<in> gone) (PackageVotes d'),
       PackageComments := delete_where (\<lambda>r. pc_PackageBaseID r \<in> gone) (PackageComments d'),
       PackageComaintainers :=
         delete_where (\<lambda>r. cm_PackageBaseID r \<in> gone) (PackageComaintainers d'),
       PackageNotifications :=
         delete_where (\<lambda>r. pn_PackageBaseID r \<in> gone) (PackageNotifications d'),
       PackageRequests := map (\<lambda>r. r\<lparr>pr_PackageBaseID := null_if gone (pr_PackageBaseID r)\<rparr>)
         (PackageRequests d')\<rparr>)"

text \<open>
  Deleting users: keys, sessions, votes, co-maintainerships, notifications, accepted terms,
  proposal votes and submitted proposals (with the votes on them) go, and so do comments the
  user deleted (\<open>DelUsersID\<close> cascades); elsewhere the reference becomes NULL.
\<close>

definition delete_users :: "(users_row \<Rightarrow> bool) \<Rightarrow> db \<Rightarrow> db" where
  "delete_users p d = (let gone = u_ID ` {r \<in> set (Users d). p r};
       props = vi_ID ` {v \<in> set (VoteInfo d). vi_SubmitterID v \<in> gone} in
     d\<lparr>Users := delete_where p (Users d),
       SSHPubKeys := delete_where (\<lambda>r. sk_UserID r \<in> gone) (SSHPubKeys d),
       Sessions := delete_where (\<lambda>r. ss_UsersID r \<in> gone) (Sessions d),
       PackageBases := map (\<lambda>r. r\<lparr>pb_FlaggerUID := null_if gone (pb_FlaggerUID r),
          pb_SubmitterUID := null_if gone (pb_SubmitterUID r),
          pb_MaintainerUID := null_if gone (pb_MaintainerUID r),
          pb_PackagerUID := null_if gone (pb_PackagerUID r)\<rparr>) (PackageBases d),
       PackageVotes := delete_where (\<lambda>r. pv_UsersID r \<in> gone) (PackageVotes d),
       PackageComments := map (\<lambda>r. r\<lparr>pc_UsersID := null_if gone (pc_UsersID r),
          pc_EditedUsersID := null_if gone (pc_EditedUsersID r)\<rparr>)
         (delete_where (\<lambda>r. case pc_DelUsersID r of None \<Rightarrow> False | Some i \<Rightarrow> i \<in> gone)
           (PackageComments d)),
       PackageComaintainers := delete_where (\<lambda>r. cm_UsersID r \<in> gone) (PackageComaintainers d),
       PackageNotifications := delete_where (\<lambda>r. pn_UserID r \<in> gone) (PackageNotifications d),
       PackageRequests := map (\<lambda>r. r\<lparr>pr_UsersID := null_if gone (pr_UsersID r),
          pr_ClosedUID := null_if gone (pr_ClosedUID r)\<rparr>) (PackageRequests d),
       VoteInfo := delete_where (\<lambda>r. vi_SubmitterID r \<in> gone) (VoteInfo d),
       Votes := delete_where (\<lambda>r. vt_UserID r \<in> gone \<or> vt_VoteID r \<in> props) (Votes d),
       AcceptedTerms := delete_where (\<lambda>r. at_UsersID r \<in> gone) (AcceptedTerms d)\<rparr>)"

lemma refers_null_if: "refers x ids \<Longrightarrow> refers (null_if gone x) (ids - gone)"
  by (auto simp: refers_def null_if_def split: option.splits)

lemma refers_not_gone:
  "refers x ids \<Longrightarrow> \<not> (case x of None \<Rightarrow> False | Some i \<Rightarrow> i \<in> gone) \<Longrightarrow> refers x (ids - gone)"
  by (auto simp: refers_def split: option.splits)

lemma image_rest: "x \<in> f ` A \<Longrightarrow> x \<notin> f ` {a \<in> A. P a} \<Longrightarrow> x \<in> f ` {a \<in> A. \<not> P a}"
  by auto

lemma user_ids_delete_users [simp]:
  assumes "distinct (map u_ID (Users d))"
  shows "user_ids (delete_users p d) = user_ids d - u_ID ` {r \<in> set (Users d). p r}"
  using assms
  by (auto simp: user_ids_def delete_users_def Let_def table_simps dest: distinct_map_inj)

lemma base_ids_delete_pkgbases [simp]:
  assumes "distinct (map pb_ID (PackageBases d))"
  shows "base_ids (delete_pkgbases p d) = base_ids d - pb_ID ` {r \<in> set (PackageBases d). p r}"
  using assms
  by (auto simp: base_ids_def delete_pkgbases_def delete_packages_def Let_def table_simps
      dest: distinct_map_inj)

lemma delete_packages_wf: "wf_db d \<Longrightarrow> wf_db (delete_packages p d)"
  unfolding wf_db_def unique_ok_def refs_ok_def delete_packages_def Let_def user_ids_def base_ids_def
  by (simp add: table_simps distinct_map_delete_where)

lemma delete_pkgbases_wf:
  assumes "wf_db d"
  shows "wf_db (delete_pkgbases p d)"
proof -
  have u: "unique_ok d" and r: "refs_ok d"
    using assms by (auto simp: wf_db_def)
  have ids: "base_ids (delete_pkgbases p d)
      = base_ids d - pb_ID ` {r \<in> set (PackageBases d). p r}"
    using u by (simp add: unique_ok_def)
  have "unique_ok (delete_pkgbases p d)"
    using u unfolding unique_ok_def delete_pkgbases_def delete_packages_def Let_def
    by (simp add: distinct_map_delete_where comp_def)
  moreover have "refs_ok (delete_pkgbases p d)"
    using r unfolding refs_ok_def ids
    by (auto simp: delete_pkgbases_def delete_packages_def Let_def table_simps user_ids_def
        intro: refers_null_if)
  ultimately show ?thesis by (simp add: wf_db_def)
qed

lemma delete_users_wf:
  assumes "wf_db d"
  shows "wf_db (delete_users p d)"
proof -
  have u: "unique_ok d" and r: "refs_ok d"
    using assms by (auto simp: wf_db_def)
  have ids: "user_ids (delete_users p d) = user_ids d - u_ID ` {r \<in> set (Users d). p r}"
    using u by (simp add: unique_ok_def)
  have "unique_ok (delete_users p d)"
    using u unfolding unique_ok_def delete_users_def Let_def
    by (simp add: distinct_map_delete_where comp_def)
  moreover have "refs_ok (delete_users p d)"
    using r unfolding refs_ok_def ids
    by (simp add: delete_users_def Let_def table_simps base_ids_def image_image
        refers_null_if refers_not_gone ball_conj_distrib)
      (auto intro: image_rest)
  ultimately show ?thesis by (simp add: wf_db_def)
qed

section \<open>What single statements keep\<close>

text \<open>
  One rule per table and statement, in the collection \<open>wf_intros\<close>: an UPDATE that leaves the
  keys alone, an INSERT of a row that the constraints admit and any DELETE of a table that
  nothing refers to keep the constraints.
\<close>

lemma update_where_keys:
  "(\<And>r. p r \<Longrightarrow> k (f r) = k r) \<Longrightarrow> k ` set (update_where p f rs) = k ` set rs"
  by (metis map_update_where_same set_map)

lemma wf_Users_update [wf_intros]:
  assumes "wf_db d" and "\<And>u. p u \<Longrightarrow> u_ID (f u) = u_ID u"
    and "\<And>u. p u \<Longrightarrow> u_Username (f u) = u_Username u"
  shows "wf_db (d\<lparr>Users := update_where p f (Users d)\<rparr>)"
  using assms by (simp add: wf_db_def unique_ok_def refs_ok_def user_ids_def base_ids_def
      map_update_where_same update_where_keys)

lemma wf_PackageBases_update [wf_intros]:
  assumes "wf_db d" and "\<And>b. p b \<Longrightarrow> pb_ID (f b) = pb_ID b"
    and "\<And>b. p b \<Longrightarrow> pb_Name (f b) = pb_Name b"
    and "\<And>b. b \<in> set (PackageBases d) \<Longrightarrow> p b \<Longrightarrow> refers (pb_MaintainerUID (f b)) (user_ids d)
      \<and> refers (pb_FlaggerUID (f b)) (user_ids d) \<and> refers (pb_SubmitterUID (f b)) (user_ids d)
      \<and> refers (pb_PackagerUID (f b)) (user_ids d)"
  shows "wf_db (d\<lparr>PackageBases := update_where p f (PackageBases d)\<rparr>)"
  using assms by (auto simp: wf_db_def unique_ok_def refs_ok_def user_ids_def base_ids_def
      map_update_where_same update_where_keys ball_update_where)

lemma wf_PackageRequests_update [wf_intros]:
  assumes "wf_db d" and "\<And>r. p r \<Longrightarrow> pr_ID (f r) = pr_ID r"
    and "\<And>r. r \<in> set (PackageRequests d) \<Longrightarrow> p r \<Longrightarrow> refers (pr_PackageBaseID (f r)) (base_ids d)
      \<and> refers (pr_UsersID (f r)) (user_ids d) \<and> refers (pr_ClosedUID (f r)) (user_ids d)"
  shows "wf_db (d\<lparr>PackageRequests := update_where p f (PackageRequests d)\<rparr>)"
  using assms by (auto simp: wf_db_def unique_ok_def refs_ok_def user_ids_def base_ids_def
      map_update_where_same update_where_keys ball_update_where)

lemma wf_PackageRequests_insert [wf_intros]:
  assumes "wf_db d" and "pr_ID r \<notin> pr_ID ` set (PackageRequests d)"
    and "refers (pr_PackageBaseID r) (base_ids d)" and "refers (pr_UsersID r) (user_ids d)"
    and "refers (pr_ClosedUID r) (user_ids d)"
  shows "wf_db (d\<lparr>PackageRequests := PackageRequests d @ [r]\<rparr>)"
  using assms by (simp add: wf_db_def unique_ok_def refs_ok_def user_ids_def base_ids_def)

lemma wf_PackageVotes_insert [wf_intros]:
  assumes "wf_db d" and "pv_UsersID v \<in> user_ids d" and "pv_PackageBaseID v \<in> base_ids d"
    and "\<And>x. x \<in> set (PackageVotes d) \<Longrightarrow>
      \<not> (pv_UsersID x = pv_UsersID v \<and> pv_PackageBaseID x = pv_PackageBaseID v)"
  shows "wf_db (d\<lparr>PackageVotes := PackageVotes d @ [v]\<rparr>)"
  using assms by (auto simp: wf_db_def unique_ok_def refs_ok_def user_ids_def base_ids_def)

lemma wf_PackageVotes_delete [wf_intros]:
  "wf_db d \<Longrightarrow> wf_db (d\<lparr>PackageVotes := delete_where p (PackageVotes d)\<rparr>)"
  by (simp add: wf_db_def unique_ok_def refs_ok_def user_ids_def base_ids_def
      distinct_map_delete_where table_simps)

lemma wf_PackageKeywords_insert [wf_intros]:
  assumes "wf_db d" and "kw_PackageBaseID k \<in> base_ids d"
    and "(kw_PackageBaseID k, kw_Keyword k)
      \<notin> (\<lambda>k. (kw_PackageBaseID k, kw_Keyword k)) ` set (PackageKeywords d)"
  shows "wf_db (d\<lparr>PackageKeywords := PackageKeywords d @ [k]\<rparr>)"
  using assms by (simp add: wf_db_def unique_ok_def refs_ok_def user_ids_def base_ids_def)

lemma wf_PackageKeywords_delete [wf_intros]:
  "wf_db d \<Longrightarrow> wf_db (d\<lparr>PackageKeywords := delete_where p (PackageKeywords d)\<rparr>)"
  by (simp add: wf_db_def unique_ok_def refs_ok_def user_ids_def base_ids_def
      distinct_map_delete_where table_simps)

lemma wf_PackageComaintainers_insert [wf_intros]:
  assumes "wf_db d" and "cm_UsersID c \<in> user_ids d" and "cm_PackageBaseID c \<in> base_ids d"
  shows "wf_db (d\<lparr>PackageComaintainers := PackageComaintainers d @ [c]\<rparr>)"
  using assms by (simp add: wf_db_def unique_ok_def refs_ok_def user_ids_def base_ids_def)

lemma wf_PackageComaintainers_update [wf_intros]:
  assumes "wf_db d" and "\<And>c. p c \<Longrightarrow> cm_UsersID (f c) = cm_UsersID c"
    and "\<And>c. p c \<Longrightarrow> cm_PackageBaseID (f c) = cm_PackageBaseID c"
  shows "wf_db (d\<lparr>PackageComaintainers := update_where p f (PackageComaintainers d)\<rparr>)"
  using assms by (simp add: wf_db_def unique_ok_def refs_ok_def user_ids_def base_ids_def
      ball_update_where)

lemma wf_PackageComaintainers_delete [wf_intros]:
  "wf_db d \<Longrightarrow> wf_db (d\<lparr>PackageComaintainers := delete_where p (PackageComaintainers d)\<rparr>)"
  by (simp add: wf_db_def unique_ok_def refs_ok_def user_ids_def base_ids_def table_simps)

lemma wf_PackageNotifications_insert [wf_intros]:
  assumes "wf_db d" and "pn_UserID n \<in> user_ids d" and "pn_PackageBaseID n \<in> base_ids d"
    and "\<And>x. x \<in> set (PackageNotifications d) \<Longrightarrow>
      \<not> (pn_UserID x = pn_UserID n \<and> pn_PackageBaseID x = pn_PackageBaseID n)"
  shows "wf_db (d\<lparr>PackageNotifications := PackageNotifications d @ [n]\<rparr>)"
  using assms by (auto simp: wf_db_def unique_ok_def refs_ok_def user_ids_def base_ids_def)

lemma wf_PackageNotifications_delete [wf_intros]:
  "wf_db d \<Longrightarrow> wf_db (d\<lparr>PackageNotifications := delete_where p (PackageNotifications d)\<rparr>)"
  by (simp add: wf_db_def unique_ok_def refs_ok_def user_ids_def base_ids_def
      distinct_map_delete_where table_simps)

text \<open>
  The counter of votes: \<open>NumVotes\<close> is a copy of what the table of votes says. The SSH
  interface counts it up and down, the web interface recomputes it.
\<close>

definition votes_of :: "nat \<Rightarrow> db \<Rightarrow> nat" where
  "votes_of i d = count_where (\<lambda>v. pv_PackageBaseID v = i) (PackageVotes d)"

definition votes_ok :: "db \<Rightarrow> bool" where
  "votes_ok d \<longleftrightarrow> (\<forall>b \<in> set (PackageBases d). pb_NumVotes b = votes_of (pb_ID b) d)"

lemma votes_ok_cong:
  assumes "votes_ok d" and "PackageVotes d' = PackageVotes d"
    and "map (\<lambda>b. (pb_ID b, pb_NumVotes b)) (PackageBases d')
      = map (\<lambda>b. (pb_ID b, pb_NumVotes b)) (PackageBases d)"
  shows "votes_ok d'"
proof -
  have same: "(\<lambda>b. (pb_ID b, pb_NumVotes b)) ` set (PackageBases d')
      = (\<lambda>b. (pb_ID b, pb_NumVotes b)) ` set (PackageBases d)"
    using assms(3) by (metis set_map)
  have votes: "votes_of i d' = votes_of i d" for i
    using assms(2) by (simp add: votes_of_def)
  have "\<exists>c \<in> set (PackageBases d). pb_ID c = pb_ID b \<and> pb_NumVotes c = pb_NumVotes b"
    if "b \<in> set (PackageBases d')" for b
    using image_eqI [OF refl that, of "\<lambda>b. (pb_ID b, pb_NumVotes b)"] unfolding same by auto
  with assms(1) show ?thesis
    unfolding votes_ok_def votes by metis
qed

text \<open>The constraints and the counter together, the invariant of both interfaces.\<close>

definition db_ok :: "db \<Rightarrow> bool" where
  "db_ok d \<longleftrightarrow> wf_db d \<and> votes_ok d"

lemma db_okI: "wf_db d \<Longrightarrow> votes_ok d \<Longrightarrow> db_ok d"
  by (simp add: db_ok_def)

lemma base_id_unique:
  "wf_db d \<Longrightarrow> b \<in> set (PackageBases d) \<Longrightarrow> c \<in> set (PackageBases d) \<Longrightarrow> pb_ID b = pb_ID c \<Longrightarrow> b = c"
  by (meson distinct_map_inj unique_ok_def wf_db_def)

lemma base_name_unique:
  "wf_db d \<Longrightarrow> b \<in> set (PackageBases d) \<Longrightarrow> c \<in> set (PackageBases d) \<Longrightarrow> pb_Name b = pb_Name c \<Longrightarrow> b = c"
  by (meson distinct_map_inj unique_ok_def wf_db_def)

lemma user_id_unique:
  "wf_db d \<Longrightarrow> u \<in> set (Users d) \<Longrightarrow> v \<in> set (Users d) \<Longrightarrow> u_ID u = u_ID v \<Longrightarrow> u = v"
  by (meson distinct_map_inj unique_ok_def wf_db_def)

lemma user_name_unique:
  "wf_db d \<Longrightarrow> u \<in> set (Users d) \<Longrightarrow> v \<in> set (Users d) \<Longrightarrow> u_Username u = u_Username v \<Longrightarrow> u = v"
  by (meson distinct_map_inj unique_ok_def wf_db_def)

text \<open>Adding a vote and counting it, and taking one away and counting it, keep the counter.\<close>

lemma votes_ok_add:
  assumes "votes_ok d" and "i = pv_PackageBaseID v"
  shows "votes_ok (d\<lparr>PackageVotes := PackageVotes d @ [v],
    PackageBases := update_where (\<lambda>b. pb_ID b = i)
      (\<lambda>b. b\<lparr>pb_NumVotes := pb_NumVotes b + 1\<rparr>) (PackageBases d)\<rparr>)"
  using assms by (auto simp: votes_ok_def votes_of_def table_simps)

lemma votes_ok_remove:
  assumes "votes_ok d" and "wf_db d" and "0 < count_where (\<lambda>v. pv_UsersID v = u \<and> pv_PackageBaseID v = i) (PackageVotes d)"
  shows "votes_ok (d\<lparr>PackageVotes := delete_where (\<lambda>v. pv_UsersID v = u \<and> pv_PackageBaseID v = i) (PackageVotes d),
    PackageBases := update_where (\<lambda>b. pb_ID b = i)
      (\<lambda>b. b\<lparr>pb_NumVotes := pb_NumVotes b - 1\<rparr>) (PackageBases d)\<rparr>)"
proof -
  let ?p = "\<lambda>v. pv_UsersID v = u \<and> pv_PackageBaseID v = i"
  have "distinct (map (\<lambda>v. (pv_UsersID v, pv_PackageBaseID v)) (PackageVotes d))"
    using assms(2) by (simp add: wf_db_def unique_ok_def)
  from count_key_le_1 [OF this, of "(u, i)"] have one: "count_where ?p (PackageVotes d) = 1"
    using assms(3) by simp
  have part: "count_where q rs = count_where (\<lambda>v. q v \<and> \<not> ?p v) rs + count_where (\<lambda>v. q v \<and> ?p v) rs"
    for q rs by (induction rs) (auto simp: table_simps)
  have same: "votes_of i d = count_where (\<lambda>v. pv_PackageBaseID v = i \<and> \<not> ?p v) (PackageVotes d) + 1"
  proof -
    have "count_where (\<lambda>v. pv_PackageBaseID v = i \<and> ?p v) (PackageVotes d) = 1"
      unfolding one [symmetric] by (rule count_where_cong) auto
    then show ?thesis
      unfolding votes_of_def by (subst part) simp
  qed
  have other: "count_where (\<lambda>v. pv_PackageBaseID v = j \<and> \<not> ?p v) (PackageVotes d) = votes_of j d"
    if "j \<noteq> i" for j
    unfolding votes_of_def by (rule count_where_cong) (use that in auto)
  show ?thesis
    using assms(1) same other
    by (auto simp: votes_ok_def votes_of_def table_simps)
qed

text \<open>
  \<open>db_ok\<close> with the sets of users and of package bases fixed: what every handler keeps that
  neither creates nor deletes an account or a package base. One rule per statement, in the
  collection \<open>ok_intros\<close>.
\<close>

definition db_ok_on :: "nat set \<Rightarrow> nat set \<Rightarrow> db \<Rightarrow> bool" where
  "db_ok_on U B d \<longleftrightarrow> db_ok d \<and> user_ids d = U \<and> base_ids d = B"

lemma db_ok_onD: "db_ok_on U B d \<Longrightarrow> db_ok d"
  by (simp add: db_ok_on_def)

lemma db_ok_on_wf: "db_ok_on U B d \<Longrightarrow> wf_db d"
  by (simp add: db_ok_on_def db_ok_def)

lemma db_ok_on_self: "db_ok d \<Longrightarrow> db_ok_on (user_ids d) (base_ids d) d"
  by (simp add: db_ok_on_def)

lemma db_ok_onI:
  assumes "db_ok_on U B d"
    and "wf_db d \<Longrightarrow> user_ids d = U \<Longrightarrow> base_ids d = B \<Longrightarrow> wf_db d'"
    and "PackageVotes d' = PackageVotes d"
    and "map (\<lambda>b. (pb_ID b, pb_NumVotes b)) (PackageBases d')
      = map (\<lambda>b. (pb_ID b, pb_NumVotes b)) (PackageBases d)"
    and "map u_ID (Users d') = map u_ID (Users d)"
  shows "db_ok_on U B d'"
proof -
  have "base_ids d' = base_ids d"
    using arg_cong [OF assms(4), of "map fst"] by (simp add: base_ids_def comp_def) (metis set_map)
  moreover have "user_ids d' = user_ids d"
    using assms(5) unfolding user_ids_def by (metis set_map)
  ultimately show ?thesis
    using assms(1,2) votes_ok_cong [OF _ assms(3,4)] by (simp add: db_ok_on_def db_ok_def)
qed

lemma ok_Users_update [ok_intros]:
  assumes "db_ok_on U B d" and "\<And>u. p u \<Longrightarrow> u_ID (f u) = u_ID u"
    and "\<And>u. p u \<Longrightarrow> u_Username (f u) = u_Username u"
  shows "db_ok_on U B (d\<lparr>Users := update_where p f (Users d)\<rparr>)"
  by (rule db_ok_onI [OF assms(1)])
    (simp_all add: assms(2,3) wf_Users_update map_update_where_same)

lemma ok_PackageBases_update [ok_intros]:
  assumes "db_ok_on U B d" and "\<And>b. p b \<Longrightarrow> pb_ID (f b) = pb_ID b"
    and "\<And>b. p b \<Longrightarrow> pb_Name (f b) = pb_Name b"
    and "\<And>b. p b \<Longrightarrow> pb_NumVotes (f b) = pb_NumVotes b"
    and "\<And>b. b \<in> set (PackageBases d) \<Longrightarrow> p b \<Longrightarrow>
      (pb_MaintainerUID (f b) = pb_MaintainerUID b \<or> refers (pb_MaintainerUID (f b)) U)
      \<and> (pb_FlaggerUID (f b) = pb_FlaggerUID b \<or> refers (pb_FlaggerUID (f b)) U)
      \<and> (pb_SubmitterUID (f b) = pb_SubmitterUID b \<or> refers (pb_SubmitterUID (f b)) U)
      \<and> (pb_PackagerUID (f b) = pb_PackagerUID b \<or> refers (pb_PackagerUID (f b)) U)"
  shows "db_ok_on U B (d\<lparr>PackageBases := update_where p f (PackageBases d)\<rparr>)"
proof (rule db_ok_onI [OF assms(1)])
  have U: "user_ids d = U"
    using assms(1) by (simp add: db_ok_on_def)
  have old: "b \<in> set (PackageBases d) \<Longrightarrow> refers (pb_MaintainerUID b) U
      \<and> refers (pb_FlaggerUID b) U \<and> refers (pb_SubmitterUID b) U \<and> refers (pb_PackagerUID b) U" for b
    using db_ok_on_wf [OF assms(1)] by (simp add: wf_db_def refs_ok_def U)
  show "wf_db (d\<lparr>PackageBases := update_where p f (PackageBases d)\<rparr>)"
    by (rule wf_PackageBases_update [OF db_ok_on_wf [OF assms(1)] assms(2,3)])
      (use assms(5) old U in metis)+
qed (simp_all add: assms map_update_where_same)

lemma ok_PackageRequests_update [ok_intros]:
  assumes "db_ok_on U B d" and "\<And>r. p r \<Longrightarrow> pr_ID (f r) = pr_ID r"
    and "\<And>r. p r \<Longrightarrow> pr_PackageBaseID (f r) = pr_PackageBaseID r"
    and "\<And>r. p r \<Longrightarrow> pr_UsersID (f r) = pr_UsersID r"
    and "\<And>r. p r \<Longrightarrow> pr_ClosedUID (f r) = pr_ClosedUID r \<or> refers (pr_ClosedUID (f r)) U"
  shows "db_ok_on U B (d\<lparr>PackageRequests := update_where p f (PackageRequests d)\<rparr>)"
proof (rule db_ok_onI [OF assms(1)])
  have U: "user_ids d = U"
    using assms(1) by (simp add: db_ok_on_def)
  have old: "r \<in> set (PackageRequests d) \<Longrightarrow> refers (pr_PackageBaseID r) (base_ids d)
      \<and> refers (pr_UsersID r) U \<and> refers (pr_ClosedUID r) U" for r
    using db_ok_on_wf [OF assms(1)] by (simp add: wf_db_def refs_ok_def U)
  show "wf_db (d\<lparr>PackageRequests := update_where p f (PackageRequests d)\<rparr>)"
    by (rule wf_PackageRequests_update [OF db_ok_on_wf [OF assms(1)] assms(2)])
      (use assms(3-5) old U in metis)+
qed simp_all

lemma ok_PackageRequests_insert [ok_intros]:
  assumes "db_ok_on U B d" and "pr_ID r = next_id (map pr_ID (PackageRequests d))"
    and "refers (pr_PackageBaseID r) B" and "refers (pr_UsersID r) U" and "refers (pr_ClosedUID r) U"
  shows "db_ok_on U B (d\<lparr>PackageRequests := PackageRequests d @ [r]\<rparr>)"
proof (rule db_ok_onI [OF assms(1)])
  have "pr_ID r \<notin> pr_ID ` set (PackageRequests d)"
    unfolding assms(2) using next_id_fresh [of "map pr_ID (PackageRequests d)"] by simp
  then show "wf_db (d\<lparr>PackageRequests := PackageRequests d @ [r]\<rparr>)"
    by (rule wf_PackageRequests_insert [OF db_ok_on_wf [OF assms(1)]])
      (use assms in \<open>simp_all add: db_ok_on_def\<close>)
qed simp_all

lemma ok_PackageComaintainers_insert [ok_intros]:
  "db_ok_on U B d \<Longrightarrow> cm_UsersID c \<in> U \<Longrightarrow> cm_PackageBaseID c \<in> B
    \<Longrightarrow> db_ok_on U B (d\<lparr>PackageComaintainers := PackageComaintainers d @ [c]\<rparr>)"
  by (erule db_ok_onI) (auto intro!: wf_intros)

lemma ok_PackageComaintainers_update [ok_intros]:
  "db_ok_on U B d \<Longrightarrow> (\<And>c. p c \<Longrightarrow> cm_UsersID (f c) = cm_UsersID c)
    \<Longrightarrow> (\<And>c. p c \<Longrightarrow> cm_PackageBaseID (f c) = cm_PackageBaseID c)
    \<Longrightarrow> db_ok_on U B (d\<lparr>PackageComaintainers := update_where p f (PackageComaintainers d)\<rparr>)"
  by (erule db_ok_onI) (auto intro!: wf_intros)

lemma ok_PackageComaintainers_delete [ok_intros]:
  "db_ok_on U B d
    \<Longrightarrow> db_ok_on U B (d\<lparr>PackageComaintainers := delete_where p (PackageComaintainers d)\<rparr>)"
  by (erule db_ok_onI) (auto intro!: wf_intros)

lemma ok_PackageKeywords_insert [ok_intros]:
  "db_ok_on U B d \<Longrightarrow> kw_PackageBaseID k \<in> B
    \<Longrightarrow> (kw_PackageBaseID k, kw_Keyword k)
      \<notin> (\<lambda>k. (kw_PackageBaseID k, kw_Keyword k)) ` set (PackageKeywords d)
    \<Longrightarrow> db_ok_on U B (d\<lparr>PackageKeywords := PackageKeywords d @ [k]\<rparr>)"
  by (erule db_ok_onI) (simp_all add: wf_PackageKeywords_insert)

lemma ok_PackageKeywords_delete [ok_intros]:
  "db_ok_on U B d \<Longrightarrow> db_ok_on U B (d\<lparr>PackageKeywords := delete_where p (PackageKeywords d)\<rparr>)"
  by (erule db_ok_onI) (auto intro!: wf_intros)

lemma ok_PackageNotifications_insert [ok_intros]:
  "db_ok_on U B d \<Longrightarrow> pn_UserID n \<in> U \<Longrightarrow> pn_PackageBaseID n \<in> B
    \<Longrightarrow> (\<And>x. x \<in> set (PackageNotifications d) \<Longrightarrow>
      \<not> (pn_UserID x = pn_UserID n \<and> pn_PackageBaseID x = pn_PackageBaseID n))
    \<Longrightarrow> db_ok_on U B (d\<lparr>PackageNotifications := PackageNotifications d @ [n]\<rparr>)"
  by (erule db_ok_onI) (simp_all add: wf_PackageNotifications_insert)

lemma ok_PackageNotifications_delete [ok_intros]:
  "db_ok_on U B d
    \<Longrightarrow> db_ok_on U B (d\<lparr>PackageNotifications := delete_where p (PackageNotifications d)\<rparr>)"
  by (erule db_ok_onI) (auto intro!: wf_intros)

text \<open>The two statements of a vote, and of taking a vote back.\<close>

lemma ok_vote:
  assumes "db_ok_on U B d" and "pv_UsersID v \<in> U" and "i \<in> B" and "pv_PackageBaseID v = i"
    and "count_where (\<lambda>x. pv_UsersID x = pv_UsersID v \<and> pv_PackageBaseID x = i) (PackageVotes d) = 0"
  shows "db_ok_on U B (d\<lparr>PackageVotes := PackageVotes d @ [v],
    PackageBases := update_where (\<lambda>b. pb_ID b = i)
      (\<lambda>b. b\<lparr>pb_NumVotes := pb_NumVotes b + 1\<rparr>) (PackageBases d)\<rparr>)"
proof -
  let ?d = "d\<lparr>PackageVotes := PackageVotes d @ [v]\<rparr>"
  have ids: "user_ids d = U" "base_ids d = B" "wf_db d" "votes_ok d"
    using assms(1) by (simp_all add: db_ok_on_def db_ok_def)
  have "wf_db ?d"
    by (rule wf_PackageVotes_insert) (use assms ids in \<open>auto simp: count_where_0\<close>)
  then have "wf_db (?d\<lparr>PackageBases := update_where (\<lambda>b. pb_ID b = i)
      (\<lambda>b. b\<lparr>pb_NumVotes := pb_NumVotes b + 1\<rparr>) (PackageBases ?d)\<rparr>)"
    by (rule wf_PackageBases_update) (use ids in \<open>simp_all add: wf_db_def refs_ok_def user_ids_def\<close>)
  with votes_ok_add [OF ids(4), of i v] assms(4) ids(1,2) show ?thesis
    by (simp add: db_ok_on_def db_ok_def user_ids_def base_ids_def update_where_keys)
qed

lemma ok_unvote:
  assumes "db_ok_on U B d"
    and "0 < count_where (\<lambda>x. pv_UsersID x = u \<and> pv_PackageBaseID x = i) (PackageVotes d)"
  shows "db_ok_on U B (d\<lparr>PackageVotes :=
      delete_where (\<lambda>x. pv_UsersID x = u \<and> pv_PackageBaseID x = i) (PackageVotes d),
    PackageBases := update_where (\<lambda>b. pb_ID b = i)
      (\<lambda>b. b\<lparr>pb_NumVotes := pb_NumVotes b - 1\<rparr>) (PackageBases d)\<rparr>)"
proof -
  let ?d = "d\<lparr>PackageVotes :=
      delete_where (\<lambda>x. pv_UsersID x = u \<and> pv_PackageBaseID x = i) (PackageVotes d)\<rparr>"
  have ids: "user_ids d = U" "base_ids d = B" "wf_db d" "votes_ok d"
    using assms(1) by (simp_all add: db_ok_on_def db_ok_def)
  have "wf_db ?d"
    by (rule wf_PackageVotes_delete [OF ids(3)])
  then have "wf_db (?d\<lparr>PackageBases := update_where (\<lambda>b. pb_ID b = i)
      (\<lambda>b. b\<lparr>pb_NumVotes := pb_NumVotes b - 1\<rparr>) (PackageBases ?d)\<rparr>)"
    by (rule wf_PackageBases_update) (use ids in \<open>simp_all add: wf_db_def refs_ok_def user_ids_def\<close>)
  with votes_ok_remove [OF ids(4,3) assms(2)] ids(1,2) show ?thesis
    by (simp add: db_ok_on_def db_ok_def user_ids_def base_ids_def update_where_keys)
qed

section \<open>Who maintains what\<close>

definition maintainers :: "db \<Rightarrow> (nat \<times> string \<times> nat option) list" where
  "maintainers d = map (\<lambda>b. (pb_ID b, pb_Name b, pb_MaintainerUID b)) (PackageBases d)"

definition maintainers_but :: "nat set \<Rightarrow> db \<Rightarrow> (nat \<times> string \<times> nat option) list" where
  "maintainers_but X d = filter (\<lambda>(i, name, m). i \<notin> X) (maintainers d)"

lemma maintainers_but_none [simp]: "maintainers_but {} d = maintainers d"
  by (simp add: maintainers_but_def)

lemma maintainers_update [simp]:
  "(\<And>b. p b \<Longrightarrow> pb_ID (f b) = pb_ID b) \<Longrightarrow> (\<And>b. p b \<Longrightarrow> pb_Name (f b) = pb_Name b)
    \<Longrightarrow> (\<And>b. p b \<Longrightarrow> pb_MaintainerUID (f b) = pb_MaintainerUID b)
    \<Longrightarrow> maintainers (d\<lparr>PackageBases := update_where p f (PackageBases d)\<rparr>) = maintainers d"
  by (simp add: maintainers_def map_update_where_same)

lemma maintainers_same [simp]:
  "maintainers (d\<lparr>Users := us\<rparr>) = maintainers d"
  "maintainers (d\<lparr>Sessions := ss\<rparr>) = maintainers d"
  "maintainers (d\<lparr>PackageRequests := rs\<rparr>) = maintainers d"
  "maintainers (d\<lparr>PackageVotes := vs\<rparr>) = maintainers d"
  "maintainers (d\<lparr>PackageKeywords := ks\<rparr>) = maintainers d"
  "maintainers (d\<lparr>PackageComments := xs\<rparr>) = maintainers d"
  "maintainers (d\<lparr>PackageNotifications := ns\<rparr>) = maintainers d"
  "maintainers (d\<lparr>PackageComaintainers := cs\<rparr>) = maintainers d"
  by (simp_all add: maintainers_def)

lemma maintainers_but_same:
  "maintainers d = maintainers d' \<Longrightarrow> maintainers_but X d = maintainers_but X d'"
  by (simp add: maintainers_but_def)

lemma maintainers_but_update:
  assumes "i \<in> X" and "\<And>b. pb_ID (f b) = pb_ID b"
  shows "maintainers_but X (d\<lparr>PackageBases := update_where (\<lambda>b. pb_ID b = i) f (PackageBases d)\<rparr>) = maintainers_but X d"
proof -
  have "filter (\<lambda>(i, name, m). i \<notin> X) (map (\<lambda>b. (pb_ID b, pb_Name b, pb_MaintainerUID b))
      (update_where (\<lambda>b. pb_ID b = i) f bs))
    = filter (\<lambda>(i, name, m). i \<notin> X) (map (\<lambda>b. (pb_ID b, pb_Name b, pb_MaintainerUID b)) bs)" for bs
    using assms by (induction bs) (simp_all add: update_where_def)
  then show ?thesis
    by (simp add: maintainers_but_def maintainers_def)
qed

end
