(* ===== verification/World.thy ===== *)
theory World
  imports Schema
begin

text \<open>
  What a handler of aurweb sees and changes: the database, the clock, the notifications it
  has sent and what it has printed; the exceptions it may raise; the configuration it reads;
  and the primitives of \<open>aurweb/db.py\<close> (transactions, retry on deadlock). The clock does not
  move inside one handler.
\<close>

section \<open>Exceptions\<close>

text \<open>
  The classes of \<open>aurweb/exceptions.py\<close> with the arguments they are built from, and the
  exceptions of Python, of SQLAlchemy, of FastAPI and of \<open>exit\<close> the code raises or runs into.
\<close>

datatype aurweb_exception =
    MaintenanceException
  | BannedException
  | EmailNotVerifiedException
  | PermissionDeniedException string
  | OrphanPackageBaseException string string
  | BrokenUpdateHookException string
  | InvalidUserException string
  | InvalidPackageBaseException string
  | InvalidRepositoryNameException string
  | PackageBaseExistsException string
  | InvalidReasonException string
  | InvalidCommentException string
  | AlreadyVotedException string
  | NotVotedException string
  | InvalidArgumentsException string
  | RPCError string
  | ValidationError "string list"
  | InvariantError string

fun exception_msg :: "aurweb_exception \<Rightarrow> string" where
  "exception_msg MaintenanceException = []"
| "exception_msg BannedException = []"
| "exception_msg EmailNotVerifiedException = []"
| "exception_msg (PermissionDeniedException user) = ''permission denied: '' @ user"
| "exception_msg (OrphanPackageBaseException pkgbase cmdline) =
     pkgbase @ '' is orphaned. Run `'' @ cmdline @ '' adopt '' @ pkgbase @ ''` to ''
     @ ''request adoption; a Package Maintainer must grant it before you can push.''"
| "exception_msg (BrokenUpdateHookException cmd) = ''broken update hook: '' @ cmd"
| "exception_msg (InvalidUserException user) = ''unknown user: '' @ user"
| "exception_msg (InvalidPackageBaseException pkgbase) = ''package base not found: '' @ pkgbase"
| "exception_msg (InvalidRepositoryNameException pkgbase) =
     ''invalid repository name: '' @ pkgbase"
| "exception_msg (PackageBaseExistsException pkgbase) = ''package base already exists: '' @ pkgbase"
| "exception_msg (InvalidReasonException reason) = ''invalid reason: '' @ reason"
| "exception_msg (InvalidCommentException comment) = ''comment is too short: '' @ comment"
| "exception_msg (AlreadyVotedException pkgbase) = ''already voted for package base: '' @ pkgbase"
| "exception_msg (NotVotedException pkgbase) = ''missing vote for package base: '' @ pkgbase"
| "exception_msg (InvalidArgumentsException msg) = msg"
| "exception_msg (RPCError msg) = msg"
| "exception_msg (ValidationError data) = []"
| "exception_msg (InvariantError msg) = msg"

datatype exn =
    Aurweb aurweb_exception
  | Py_TypeError
  | Py_ValueError
  | Py_IndexError
  | Py_AttributeError
  | Py_NotImplementedError
  | IntegrityError
  | UniqueViolation string
  | StaleDataError
  | Py_KeyError
  | Py_Exception
  | OperationalError string
  | SystemExit nat
  | HTTPException nat string
  | Divergence

text \<open>
  \<open>UniqueViolation\<close> is an \<open>IntegrityError\<close> whose message names a unique index the code asks for,
  \<open>StaleDataError\<close> what the ORM raises when an UPDATE of one object reaches several rows.
  \<open>Divergence\<close> is no exception: it is the outcome of a run that does not end.
\<close>

section \<open>The world\<close>

text \<open>
  The notifications of \<open>aurweb/scripts/notify.py\<close>, by class with the arguments of their
  constructors. \<open>subprocess.run((notify_cmd, action, ...))\<close> builds and sends the class that
  the script's \<open>action_map\<close> gives the action.
\<close>

datatype notification =
    ResetKeyNotification nat
  | WelcomeNotification nat
  | VerificationNotification nat
  | VerificationReminderNotification nat int
  | CommentNotification nat nat nat
  | UpdateNotification nat nat
  | FlagNotification nat nat
  | AdoptNotification nat nat
  | DisownNotification nat nat
  | ComaintainerAddNotification nat nat
  | ComaintainerRemoveNotification nat nat
  | DeleteNotification nat nat
  | RequestOpenNotification nat nat string nat "string option"
  | RequestCloseNotification nat nat string
  | VoteReminderNotification nat
  | NoopComaintainerNotification

record world =
  the_db :: db
  now :: int
  sent :: "notification list"
  stdout :: "string list"
  stderr :: "string list"
  draws :: nat
  committed :: db
  references :: "(string \<times> string) list"
  redis :: "string \<Rightarrow> (int \<times> int option) option"

text \<open>
  \<open>draws\<close> counts the random strings drawn so far; \<open>random_string\<close> below gives the next. \<open>committed\<close> is
  what a connection that commits by hand has committed, \<open>references\<close> are those of the Git repository, and
  \<open>redis\<close> gives the counters of the key-value store with the time until which they are kept.
\<close>

type_synonym 'a aur = "(exn, 'a, world) prog"

definition query :: "(db \<Rightarrow> 'a) \<Rightarrow> 'a aur" where
  "query f = gets (\<lambda>w. f (the_db w))"

definition execute :: "(db \<Rightarrow> db) \<Rightarrow> unit aur" where
  "execute f = modify (\<lambda>w. w\<lparr>the_db := f (the_db w)\<rparr>)"

definition utcnow :: "int aur" where
  "utcnow = gets now"

definition print :: "string \<Rightarrow> unit aur" where
  "print s = modify (\<lambda>w. w\<lparr>stdout := stdout w @ [s]\<rparr>)"

definition write_err :: "string \<Rightarrow> unit aur" where
  "write_err s = modify (\<lambda>w. w\<lparr>stderr := stderr w @ [s]\<rparr>)"

text \<open>The no-op notification of an addition that did nothing sends nothing.\<close>

definition send :: "notification \<Rightarrow> unit aur" where
  "send n = (if n = NoopComaintainerNotification then ret ()
             else modify (\<lambda>w. w\<lparr>sent := sent w @ [n]\<rparr>))"

definition raise :: "aurweb_exception \<Rightarrow> 'a aur" where
  "raise e = throw (Aurweb e)"

text \<open>
  \<open>with db.begin(): m\<close>, and a connection whose statements are committed at the end of \<open>m\<close>:
  an exception rolls the database back, and nothing else.
\<close>

definition transaction :: "'a aur \<Rightarrow> 'a aur" where
  "transaction m w = (case m w of (Inl e, w') \<Rightarrow> (Inl e, w'\<lparr>the_db := the_db w\<rparr>)
                       | (Inr x, w') \<Rightarrow> (Inr x, w'))"

text \<open>An INSERT that a unique index may refuse.\<close>

definition insert_unless :: "(db \<Rightarrow> bool) \<Rightarrow> (db \<Rightarrow> db) \<Rightarrow> unit aur" where
  "insert_unless clash f = andthen (query clash) (\<lambda>c. if c then throw IntegrityError else execute f)"

text \<open>
  \<open>retry_deadlock\<close>: run the body again while it raises an \<open>OperationalError\<close> that says
  ``Deadlock found'', at most ten times more.
\<close>

fun retry_deadlock_from :: "nat \<Rightarrow> 'a aur \<Rightarrow> 'a aur" where
  "retry_deadlock_from 0 m = m"
| "retry_deadlock_from (Suc n) m = catch m (\<lambda>e. case e of
       OperationalError msg \<Rightarrow>
         if contains ''Deadlock found'' msg then retry_deadlock_from n m else throw e
     | _ \<Rightarrow> throw e)"

definition retry_deadlock :: "'a aur \<Rightarrow> 'a aur" where
  "retry_deadlock m = retry_deadlock_from 10 m"

lemma wp_query [wp_simps]: "wp (query f) Q E w = Q (f (the_db w)) w"
  by (simp add: query_def wp_simps)

lemma wp_execute [wp_simps]: "wp (execute f) Q E w = Q () (w\<lparr>the_db := f (the_db w)\<rparr>)"
  by (simp add: execute_def wp_simps)

lemma wp_utcnow [wp_simps]: "wp utcnow Q E w = Q (now w) w"
  by (simp add: utcnow_def wp_simps)

lemma wp_print [wp_simps]: "wp (print s) Q E w = Q () (w\<lparr>stdout := stdout w @ [s]\<rparr>)"
  by (simp add: print_def wp_simps)

lemma wp_write_err [wp_simps]: "wp (write_err s) Q E w = Q () (w\<lparr>stderr := stderr w @ [s]\<rparr>)"
  by (simp add: write_err_def wp_simps)

lemma wp_send [wp_simps]:
  "wp (send n) Q E w = (if n = NoopComaintainerNotification then Q () w
     else Q () (w\<lparr>sent := sent w @ [n]\<rparr>))"
  by (simp add: send_def wp_simps)

lemma wp_raise [wp_simps]: "wp (raise e) Q E w = E (Aurweb e) w"
  by (simp add: raise_def wp_simps)

lemma wp_transaction [wp_simps]:
  "wp (transaction m) Q E w = wp m Q (\<lambda>e w'. E e (w'\<lparr>the_db := the_db w\<rparr>)) w"
  by (auto simp: wp_def transaction_def split: prod.splits sum.splits)

lemma wp_insert_unless [wp_simps]:
  "wp (insert_unless clash f) Q E w = (if clash (the_db w) then E IntegrityError w
     else Q () (w\<lparr>the_db := f (the_db w)\<rparr>))"
  by (simp add: insert_unless_def wp_simps)

text \<open>
  Invariants of the database: a property \<open>P\<close> of \<open>db\<close> is kept when every statement keeps it;
  printing, sending and raising cannot break it, and a rolled back transaction restores it.
\<close>

definition db_inv :: "(db \<Rightarrow> bool) \<Rightarrow> world \<Rightarrow> bool" where
  "db_inv P w \<longleftrightarrow> P (the_db w)"

lemma db_inv_execute [keeps_intros]: "(\<And>d. P d \<Longrightarrow> P (f d)) \<Longrightarrow> keeps (db_inv P) (execute f)"
  by (simp add: keeps_def execute_def modify_def db_inv_def)

lemma db_inv_query [keeps_intros]: "keeps I (query f)"
  by (simp add: query_def keeps_intros)

lemma keeps_utcnow [keeps_intros]: "keeps I utcnow"
  by (simp add: utcnow_def keeps_intros)

lemma db_inv_print [keeps_intros]: "keeps (db_inv P) (print s)"
  by (simp add: keeps_def print_def modify_def db_inv_def)

lemma db_inv_write_err [keeps_intros]: "keeps (db_inv P) (write_err s)"
  by (simp add: keeps_def write_err_def modify_def db_inv_def)

lemma db_inv_send [keeps_intros]: "keeps (db_inv P) (send n)"
  by (simp add: keeps_def send_def ret_def modify_def db_inv_def)

lemma keeps_raise [keeps_intros]: "keeps I (raise e)"
  by (simp add: raise_def keeps_intros)

lemma db_inv_insert_unless [keeps_intros]:
  "(\<And>d. P d \<Longrightarrow> \<not> clash d \<Longrightarrow> P (f d)) \<Longrightarrow> keeps (db_inv P) (insert_unless clash f)"
  by (rule keepsI) (simp add: wp_simps db_inv_def)

lemma db_inv_transaction [keeps_intros]: "keeps (db_inv P) m \<Longrightarrow> keeps (db_inv P) (transaction m)"
  by (fastforce simp: keeps_def transaction_def db_inv_def split: prod.splits sum.splits)

lemma keeps_retry_deadlock_from: "keeps I m \<Longrightarrow> keeps I (retry_deadlock_from n m)"
  by (induction n) (auto intro!: keeps_intros split: exn.splits simp del: One_nat_def)

lemma keeps_retry_deadlock [keeps_intros]: "keeps I m \<Longrightarrow> keeps I (retry_deadlock m)"
  by (simp add: retry_deadlock_def keeps_retry_deadlock_from)

text \<open>The constraints, for a handler that leaves the sets of users and package bases alone.\<close>

abbreviation keeps_ok :: "nat set \<Rightarrow> nat set \<Rightarrow> 'a aur \<Rightarrow> bool" where
  "keeps_ok U B m \<equiv> keeps (db_inv (db_ok_on U B)) m"

abbreviation keeps_maintainers :: "(nat \<times> string \<times> nat option) list \<Rightarrow> 'a aur \<Rightarrow> bool" where
  "keeps_maintainers M m \<equiv> keeps (db_inv (\<lambda>d. maintainers d = M)) m"

abbreviation keeps_maintainers_but ::
    "nat set \<Rightarrow> (nat \<times> string \<times> nat option) list \<Rightarrow> 'a aur \<Rightarrow> bool" where
  "keeps_maintainers_but X M m \<equiv> keeps (db_inv (\<lambda>d. maintainers_but X d = M)) m"

lemma db_inv_ids: "db_inv (db_ok_on U B) w \<Longrightarrow> user_ids (the_db w) = U \<and> base_ids (the_db w) = B"
  by (simp add: db_inv_def db_ok_on_def)

lemma refers_simps [simp]: "refers None ids" "refers (Some i) ids \<longleftrightarrow> i \<in> ids"
  by (simp_all add: refers_def)

text \<open>A body that does not deadlock runs once: retrying then changes nothing.\<close>

lemma wp_retry_deadlock_from:
  assumes "wp m Q (\<lambda>e w. E e w \<and> (\<forall>msg. e \<noteq> OperationalError msg)) w"
  shows "wp (retry_deadlock_from n m) Q E w"
proof (cases n)
  case 0
  with assms show ?thesis by (auto elim: wp_mono)
next
  case (Suc k)
  have "wp m Q (\<lambda>e. wp (case e of
       OperationalError msg \<Rightarrow>
         if contains ''Deadlock found'' msg then retry_deadlock_from k m else throw e
     | _ \<Rightarrow> throw e) Q E) w"
    by (rule wp_mono [OF assms]) (auto simp: wp_simps split: exn.splits)
  then show ?thesis by (simp add: Suc wp_catch)
qed

lemma wp_retry_deadlock:
  "wp m Q (\<lambda>e w. E e w \<and> (\<forall>msg. e \<noteq> OperationalError msg)) w \<Longrightarrow> wp (retry_deadlock m) Q E w"
  by (simp add: retry_deadlock_def wp_retry_deadlock_from)

lemma retry_deadlock_result:
  assumes "m w = (r, w')" and "\<And>msg. r \<noteq> Inl (OperationalError msg)"
  shows "retry_deadlock m w = (r, w')"
proof -
  have "retry_deadlock_from n m w = (r, w')" for n
    using assms by (cases n) (auto simp: catch_def throw_def split: sum.splits exn.splits)
  then show ?thesis by (simp add: retry_deadlock_def)
qed

lemma wp_retry_deadlock_ret:
  assumes "\<And>Q E. wp m Q E w = Q x w1"
  shows "wp (retry_deadlock m) Q E w = Q x w1"
proof -
  have "m w = (Inr x, w1)"
    by (rule run_eqI) (simp add: assms)
  then have "retry_deadlock m w = (Inr x, w1)"
    by (rule retry_deadlock_result) simp
  then show ?thesis
    by (simp add: wp_def)
qed

lemma wp_retry_deadlock_eq:
  assumes "wp m (\<lambda>_ _. True) (\<lambda>e _. \<forall>msg. e \<noteq> OperationalError msg) w"
  shows "wp (retry_deadlock m) Q E w = wp m Q E w"
proof -
  obtain r w1 where m: "m w = (r, w1)"
    by (cases "m w")
  with assms have "retry_deadlock m w = (r, w1)"
    by (intro retry_deadlock_result) (auto simp: wp_def)
  with m show ?thesis
    by (simp add: wp_def)
qed

section \<open>Configuration\<close>

text \<open>
  The options the modelled code reads from \<open>aurweb.config\<close>, and the environment it runs in:
  whether the update hook is executable; the order in which a Python set of integers is
  iterated, which the language leaves open; the weight that the database computes for a
  vote of a given age, \<open>POW(0.98, age / 86400)\<close>, whose arithmetic depends on the database; the
  password hash of the bcrypt library (\<open>checkpw\<close> is None where it raises a \<open>ValueError\<close>), the MD5
  digest, the random strings the operating system gives and the HTML that the Markdown library
  renders for a comment; the parser of the email-validator library (\<open>validate_email\<close>: the local part and
  the ASCII domain, None where it raises), its list of disposable domains, the check of an address in
  brackets in \<open>urllib.parse\<close>, the time zones of the system and \<open>ssh-keygen -l\<close> (the fingerprint of a key,
  None where it fails).
\<close>

text \<open>The options of accounts, and the limits of the other parts of the site.\<close>

record account_options =
  validate_email :: "string \<Rightarrow> (string \<times> string) option"
  disposable_email_check :: bool
  disposable_domain :: "string \<Rightarrow> bool"
  netloc_ok :: "string \<Rightarrow> bool"
  supported_timezone :: "string \<Rightarrow> bool"
  valid_keytypes :: "string list"
  ssh_keygen :: "string \<Rightarrow> string option"
  default_lang :: string
  default_timezone :: string
  email_verification_ttl :: int
  email_verification_cooldown :: int

record limit_options =
  unverified_account_lifetime :: int
  unverified_account_warning :: int
  request_archive_time :: int
  request_limit :: int
  window_length :: int
  max_rpc_results :: int
  max_search_results :: int
  max_depends :: int
  max_blob_size :: int

record config =
  repo_regex :: "string \<Rightarrow> bool"
  repo_path :: string
  git_shell_cmd :: string
  git_update_cmd :: string
  git_update_ok :: bool
  ssh_cmdline :: string
  enable_maintenance :: bool
  maintenance_exc :: "string list"
  max_chars_comment :: nat
  request_idle_time :: int
  auto_orphan_age :: int
  auto_delete_age :: int
  set_iter :: "nat list \<Rightarrow> nat list"
  set_iter_str :: "string list \<Rightarrow> string list"
  vote_weight :: "int \<Rightarrow> real"
  popularity_interval :: int
  login_timeout :: int
  persistent_cookie_timeout :: int
  aur_location :: string
  passwd_min_len :: nat
  username_min_len :: nat
  username_max_len :: nat
  hashpw :: "string \<Rightarrow> string"
  checkpw :: "string \<Rightarrow> string \<Rightarrow> bool option"
  md5_hex :: "string \<Rightarrow> string"
  random_string :: "nat \<Rightarrow> nat \<Rightarrow> string"
  render_comment :: "packagecomments_row \<Rightarrow> string"
  accounts :: account_options
  limits :: limit_options

text \<open>An address with one at sign between two parts, as a stand-in for the parser of addresses.\<close>

definition plain_email :: "string \<Rightarrow> (string \<times> string) option" where
  "plain_email s = (case split_on (CHR ''@'') s of
     [l, d] \<Rightarrow> if l \<noteq> [] \<and> d \<noteq> [] then Some (l, lower d) else None
   | _ \<Rightarrow> None)"

definition one_disposable :: "string \<Rightarrow> bool" where
  "one_disposable d \<longleftrightarrow> d = ''mailinator.com''"

definition any_netloc :: "string \<Rightarrow> bool" where
  "any_netloc n \<longleftrightarrow> True"

definition two_timezones :: "string \<Rightarrow> bool" where
  "two_timezones tz \<longleftrightarrow> tz = ''UTC'' \<or> tz = ''Europe/Berlin''"

definition any_key :: "string \<Rightarrow> string option" where
  "any_key k = Some k"

definition default_accounts :: account_options where
  "default_accounts = \<lparr>validate_email = plain_email, disposable_email_check = True,
     disposable_domain = one_disposable, netloc_ok = any_netloc, supported_timezone = two_timezones,
     valid_keytypes = [''ssh-rsa'', ''ssh-dss'', ''ecdsa-sha2-nistp256'', ''ecdsa-sha2-nistp384'',
       ''ecdsa-sha2-nistp521'', ''ssh-ed25519'', ''sk-ecdsa-sha2-nistp256@openssh.com'',
       ''sk-ecdsa-sha2-nistp256-cert-v01@openssh.com'', ''sk-ssh-ed25519@openssh.com'',
       ''sk-ssh-ed25519-cert-v01@openssh.com''], ssh_keygen = any_key,
     default_lang = ''en'', default_timezone = ''UTC'', email_verification_ttl = 86400,
     email_verification_cooldown = 600\<rparr>"

definition default_limits :: limit_options where
  "default_limits = \<lparr>unverified_account_lifetime = 1209600, unverified_account_warning = 604800,
     request_archive_time = 15552000, request_limit = 4000, window_length = 86400,
     max_rpc_results = 5000, max_search_results = 2500, max_depends = 1000, max_blob_size = 256000\<rparr>"

text \<open>The values of \<open>conf/config.defaults\<close>, with sets of integers iterated oldest element first.\<close>

definition default_config :: config where
  "default_config = \<lparr>repo_regex = pkgname_regex, repo_path = ''/srv/http/aurweb/aur.git/'',
     git_shell_cmd = ''/usr/bin/git-shell'', git_update_cmd = ''/usr/bin/aurweb-git-update'',
     git_update_ok = True, ssh_cmdline = ''ssh aur@aur.archlinux.org'',
     enable_maintenance = True, maintenance_exc = [''127.0.0.1''], max_chars_comment = 5000,
     request_idle_time = 1209600, auto_orphan_age = 15552000, auto_delete_age = 86400,
     set_iter = remdups, set_iter_str = remdups,
     vote_weight = (\<lambda>age. (98 / 100) ^ nat (age div 86400)), popularity_interval = 604800,
     login_timeout = 14400, persistent_cookie_timeout = 2592000,
     aur_location = ''https://aur.archlinux.org'', passwd_min_len = 8, username_min_len = 3,
     username_max_len = 16, hashpw = (\<lambda>p. ''$2b$12$'' @ p),
     checkpw = (\<lambda>p h. if startswith h ''$2b$'' then Some (h = ''$2b$12$'' @ p) else None),
     md5_hex = (\<lambda>s. ''md5'' @ s), random_string = (\<lambda>k n. replicate (n - length (str_nat k)) (CHR ''0'') @ str_nat k),
     render_comment = pc_Comments, accounts = default_accounts,
     limits = default_limits\<rparr>"

text \<open>
  The interface of set iteration: every element once, in some order. Clients may rely on
  nothing else about the order.
\<close>

locale set_iteration =
  fixes iter :: "'a list \<Rightarrow> 'a list"
  assumes set_iter [simp]: "set (iter xs) = set xs"
    and distinct_iter [simp]: "distinct (iter xs)"
begin

lemma length_iter: "length (iter xs) = card (set xs)"
  using distinct_card [OF distinct_iter, of xs] by simp

lemma iter_nth_ex: "x \<in> set xs \<Longrightarrow> \<exists>i < length (iter xs). iter xs ! i = x"
  by (metis in_set_conv_nth set_iter)

end

interpretation default_iteration: set_iteration "set_iter default_config"
  by unfold_locales (simp_all add: default_config_def)

interpretation default_iteration_str: set_iteration "set_iter_str default_config"
  by unfold_locales (simp_all add: default_config_def)

text \<open>
  The interface of the password hash: a hash belongs to its password and is well-formed.
\<close>

locale password_hash =
  fixes hash :: "string \<Rightarrow> string"
    and check :: "string \<Rightarrow> string \<Rightarrow> bool option"
  assumes check_hash [simp]: "check p (hash p) = Some True"
    and check_other: "p \<noteq> q \<Longrightarrow> check p (hash q) = Some False"
begin

lemma check_iff: "check p (hash q) = Some True \<longleftrightarrow> p = q"
  using check_other by (cases "p = q") auto

end

interpretation default_hash: password_hash "hashpw default_config" "checkpw default_config"
  by unfold_locales (simp_all add: default_config_def startswith_def)

section \<open>A small site\<close>

text \<open>
  A world on which the theorems are applied: a package maintainer, two users and a user
  whose e-mail address is not verified; a package base with a maintainer, two co-maintainers
  and a vote, and an orphan.
\<close>

definition demo_user :: "nat \<Rightarrow> string \<Rightarrow> nat \<Rightarrow> users_row" where
  "demo_user i name t = users_default\<lparr>u_ID := i, u_Username := name, u_Email := name @ ''@example.org'',
     u_AccountTypeID := t, u_EmailVerified := (i \<noteq> 4), u_Passwd := ''$2b$12$'' @ name\<rparr>"

definition demo_db :: db where
  "demo_db = empty_db\<lparr>
     Users := [demo_user 1 ''alice'' 2, demo_user 2 ''bob'' 1, demo_user 3 ''carol'' 1,
       demo_user 4 ''mallory'' 1],
     Sessions := [\<lparr>ss_UsersID = 2, ss_SessionID = ''cookie'', ss_LastUpdateTS = 900\<rparr>],
     PackageBases := [
       packagebases_default\<lparr>pb_ID := 10, pb_Name := ''foo'', pb_NumVotes := 1,
         pb_SubmitterUID := Some 2, pb_MaintainerUID := Some 2, pb_PackagerUID := Some 2\<rparr>,
       packagebases_default\<lparr>pb_ID := 11, pb_Name := ''bar'', pb_SubmitterUID := Some 3\<rparr>],
     PackageKeywords := [\<lparr>kw_PackageBaseID = 10, kw_Keyword = ''old''\<rparr>],
     Packages := [\<lparr>pk_ID = 20, pk_PackageBaseID = 10, pk_Name = ''foo'', pk_Version = ''1-1'',
       pk_Description = None, pk_URL = None\<rparr>],
     PackageVotes := [\<lparr>pv_UsersID = 3, pv_PackageBaseID = 10, pv_VoteTS = 50\<rparr>],
     PackageComaintainers := [
       \<lparr>cm_UsersID = 3, cm_PackageBaseID = 10, cm_Priority = 2\<rparr>,
       \<lparr>cm_UsersID = 1, cm_PackageBaseID = 10, cm_Priority = 1\<rparr>],
     PackageNotifications := [\<lparr>pn_PackageBaseID = 10, pn_UserID = 2\<rparr>],
     RequestTypes := [\<lparr>qt_ID = 1, qt_Name = ''deletion''\<rparr>, \<lparr>qt_ID = 2, qt_Name = ''orphan''\<rparr>,
       \<lparr>qt_ID = 3, qt_Name = ''merge''\<rparr>, \<lparr>qt_ID = 4, qt_Name = ''adoption''\<rparr>],
     Bans := [''10.0.0.9'']\<rparr>"

definition demo_alice :: users_row where
  "demo_alice = hd (Users demo_db)"

definition demo_bob :: users_row where
  "demo_bob = Users demo_db ! 1"

definition demo_base :: packagebases_row where
  "demo_base = hd (PackageBases demo_db)"

definition demo_bar :: packagebases_row where
  "demo_bar = PackageBases demo_db ! 1"

definition demo_world :: world where
  "demo_world = \<lparr>the_db = demo_db, now = 1000, sent = [], stdout = [], stderr = [], draws = 0,
     committed = demo_db, references = [], redis = Map.empty\<rparr>"

lemma demo_the_db [simp]: "the_db demo_world = demo_db" "now demo_world = 1000"
  by (simp_all add: demo_world_def)

lemma demo_db_ok: "db_ok demo_db"
  by code_simp

lemma demo_wf: "wf_db demo_db"
  using demo_db_ok by (simp add: db_ok_def)

end
