(* ===== verification/Creds.thy ===== *)
theory Creds
  imports World
begin

text \<open>
  Account types (\<open>aurweb/models/account_type.py\<close>), credentials and who holds them
  (\<open>aurweb/auth/creds.py\<close>), the user a request comes from (\<open>aurweb/auth/__init__.py\<close>) and the
  permission methods of \<open>aurweb/models/user.py\<close>. The interface \<open>credential_policy\<close> states what
  the rest of the site relies on; it is interpreted on the table of the code.
\<close>

section \<open>Account types\<close>

definition USER_ID :: nat where "USER_ID = 1"
definition PACKAGE_MAINTAINER_ID :: nat where "PACKAGE_MAINTAINER_ID = 2"
definition DEVELOPER_ID :: nat where "DEVELOPER_ID = 3"
definition PACKAGE_MAINTAINER_AND_DEV_ID :: nat where "PACKAGE_MAINTAINER_AND_DEV_ID = 4"

lemmas account_type_ids = USER_ID_def PACKAGE_MAINTAINER_ID_def DEVELOPER_ID_def
  PACKAGE_MAINTAINER_AND_DEV_ID_def

definition ACCOUNT_TYPE_ID :: "(string \<times> nat) list" where
  "ACCOUNT_TYPE_ID = [(''User'', USER_ID), (''Package Maintainer'', PACKAGE_MAINTAINER_ID),
     (''Developer'', DEVELOPER_ID),
     (''Package Maintainer & Developer'', PACKAGE_MAINTAINER_AND_DEV_ID)]"

definition ACCOUNT_TYPE_NAME :: "nat \<Rightarrow> string option" where
  "ACCOUNT_TYPE_NAME = map_of (map (\<lambda>(k, v). (v, k)) ACCOUNT_TYPE_ID)"

section \<open>Credentials\<close>

datatype credential =
    ACCOUNT_CHANGE_TYPE | ACCOUNT_EDIT | ACCOUNT_EDIT_DEV | ACCOUNT_LAST_LOGIN | ACCOUNT_SEARCH
  | ACCOUNT_LIST_COMMENTS | COMMENT_DELETE | COMMENT_UNDELETE | COMMENT_VIEW_DELETED
  | COMMENT_EDIT | COMMENT_PIN | PKGBASE_ADOPT | PKGBASE_SET_KEYWORDS | PKGBASE_DELETE
  | PKGBASE_DISOWN | PKGBASE_EDIT_COMAINTAINERS | PKGBASE_FLAG | PKGBASE_LIST_VOTERS
  | PKGBASE_NOTIFY | PKGBASE_UNFLAG | PKGBASE_VOTE | PKGREQ_FILE | PKGREQ_CLOSE | PKGREQ_LIST
  | PM_ADD_VOTE | PM_LIST_VOTES | PM_VOTE | PKGBASE_MERGE

definition user_developer_or_package_maintainer :: "nat list" where
  "user_developer_or_package_maintainer =
     [USER_ID, PACKAGE_MAINTAINER_ID, DEVELOPER_ID, PACKAGE_MAINTAINER_AND_DEV_ID]"

definition package_maintainer_or_dev :: "nat list" where
  "package_maintainer_or_dev = [PACKAGE_MAINTAINER_ID, DEVELOPER_ID, PACKAGE_MAINTAINER_AND_DEV_ID]"

definition developer :: "nat list" where
  "developer = [DEVELOPER_ID, PACKAGE_MAINTAINER_AND_DEV_ID]"

definition package_maintainer :: "nat list" where
  "package_maintainer = [PACKAGE_MAINTAINER_ID, PACKAGE_MAINTAINER_AND_DEV_ID]"

fun cred_filters :: "credential \<Rightarrow> nat list" where
  "cred_filters PKGBASE_FLAG = user_developer_or_package_maintainer"
| "cred_filters PKGBASE_NOTIFY = user_developer_or_package_maintainer"
| "cred_filters PKGBASE_VOTE = user_developer_or_package_maintainer"
| "cred_filters PKGREQ_FILE = user_developer_or_package_maintainer"
| "cred_filters ACCOUNT_CHANGE_TYPE = package_maintainer_or_dev"
| "cred_filters ACCOUNT_EDIT = package_maintainer_or_dev"
| "cred_filters ACCOUNT_LAST_LOGIN = package_maintainer_or_dev"
| "cred_filters ACCOUNT_LIST_COMMENTS = package_maintainer_or_dev"
| "cred_filters ACCOUNT_SEARCH = package_maintainer_or_dev"
| "cred_filters COMMENT_DELETE = package_maintainer_or_dev"
| "cred_filters COMMENT_UNDELETE = package_maintainer_or_dev"
| "cred_filters COMMENT_VIEW_DELETED = package_maintainer_or_dev"
| "cred_filters COMMENT_EDIT = package_maintainer_or_dev"
| "cred_filters COMMENT_PIN = package_maintainer_or_dev"
| "cred_filters PKGBASE_ADOPT = package_maintainer_or_dev"
| "cred_filters PKGBASE_SET_KEYWORDS = package_maintainer_or_dev"
| "cred_filters PKGBASE_DELETE = package_maintainer_or_dev"
| "cred_filters PKGBASE_EDIT_COMAINTAINERS = package_maintainer_or_dev"
| "cred_filters PKGBASE_DISOWN = package_maintainer_or_dev"
| "cred_filters PKGBASE_LIST_VOTERS = package_maintainer_or_dev"
| "cred_filters PKGBASE_UNFLAG = package_maintainer_or_dev"
| "cred_filters PKGREQ_CLOSE = package_maintainer_or_dev"
| "cred_filters PKGREQ_LIST = package_maintainer_or_dev"
| "cred_filters PM_ADD_VOTE = package_maintainer"
| "cred_filters PM_LIST_VOTES = package_maintainer_or_dev"
| "cred_filters PM_VOTE = package_maintainer"
| "cred_filters ACCOUNT_EDIT_DEV = developer"
| "cred_filters PKGBASE_MERGE = package_maintainer_or_dev"

section \<open>The user of a request\<close>

text \<open>
  \<open>request.user\<close>: an authenticated user's row, or the \<open>AnonymousUser\<close> stub, whose ID and
  account type are 0 and which never holds a credential. A list of approved users holds
  users or None (a package base without a maintainer); users are compared by ID.
\<close>

datatype requester = AnonymousUser | LoggedIn users_row

fun ru_ID :: "requester \<Rightarrow> nat" where
  "ru_ID AnonymousUser = 0"
| "ru_ID (LoggedIn u) = u_ID u"

fun ru_AccountTypeID :: "requester \<Rightarrow> nat" where
  "ru_AccountTypeID AnonymousUser = 0"
| "ru_AccountTypeID (LoggedIn u) = u_AccountTypeID u"

fun is_authenticated :: "requester \<Rightarrow> bool" where
  "is_authenticated AnonymousUser = False"
| "is_authenticated (LoggedIn u) = True"

text \<open>\<open>request.user == x\<close> for a user or None \<open>x\<close>, and \<open>request.user in approved\<close>.\<close>

fun is_user :: "requester \<Rightarrow> nat option \<Rightarrow> bool" where
  "is_user AnonymousUser x = False"
| "is_user (LoggedIn u) x = (x = Some (u_ID u))"

definition user_in :: "requester \<Rightarrow> nat option list \<Rightarrow> bool" where
  "user_in r approved = list_ex (is_user r) approved"

text \<open>\<open>creds.has_credential\<close>, and the method \<open>has_credential\<close> of the two classes of users.\<close>

definition creds_has_credential :: "requester \<Rightarrow> credential \<Rightarrow> nat option list \<Rightarrow> bool" where
  "creds_has_credential r c approved =
     (if user_in r approved then True else ru_AccountTypeID r \<in> set (cred_filters c))"

fun has_credential :: "requester \<Rightarrow> credential \<Rightarrow> nat option list \<Rightarrow> bool" where
  "has_credential AnonymousUser c approved = False"
| "has_credential (LoggedIn u) c approved = creds_has_credential (LoggedIn u) c approved"

definition is_package_maintainer :: "requester \<Rightarrow> bool" where
  "is_package_maintainer r =
     (ru_AccountTypeID r \<in> {PACKAGE_MAINTAINER_ID, PACKAGE_MAINTAINER_AND_DEV_ID})"

definition is_developer :: "requester \<Rightarrow> bool" where
  "is_developer r = (ru_AccountTypeID r \<in> {DEVELOPER_ID, PACKAGE_MAINTAINER_AND_DEV_ID})"

definition is_elevated :: "requester \<Rightarrow> bool" where
  "is_elevated r = (ru_AccountTypeID r \<in>
     {PACKAGE_MAINTAINER_ID, DEVELOPER_ID, PACKAGE_MAINTAINER_AND_DEV_ID})"

definition can_edit_user :: "users_row \<Rightarrow> users_row \<Rightarrow> bool" where
  "can_edit_user self target =
     (has_credential (LoggedIn self) ACCOUNT_EDIT [Some (u_ID target)]
      \<and> u_AccountTypeID target \<le> u_AccountTypeID self)"

section \<open>The interface of a credential policy\<close>

text \<open>
  What every client relies on: a credential of plain users is a credential of everyone with
  an account, package maintainers who are also developers hold every credential, and nobody
  outside the four account types holds any.
\<close>

locale credential_policy =
  fixes holders :: "credential \<Rightarrow> nat list"
  assumes user_all: "USER_ID \<in> set (holders c) \<Longrightarrow> t \<in> {1..4} \<Longrightarrow> t \<in> set (holders c)"
    and both_all: "PACKAGE_MAINTAINER_AND_DEV_ID \<in> set (holders c)"
    and only_types: "t \<in> set (holders c) \<Longrightarrow> t \<in> {1..4}"
begin

lemma anonymous_none: "0 \<notin> set (holders c)"
  using only_types [of 0 c] by auto

lemma both_holds: "t \<in> set (holders c) \<Longrightarrow> PACKAGE_MAINTAINER_AND_DEV_ID \<in> set (holders c)"
  by (rule both_all)

lemma restricted_excludes_user:
  "t \<in> {1..4} \<Longrightarrow> t \<notin> set (holders c) \<Longrightarrow> USER_ID \<notin> set (holders c)"
  using user_all by blast

end

interpretation aurweb_policy: credential_policy cred_filters
proof
  show "USER_ID \<in> set (cred_filters c) \<Longrightarrow> t \<in> {1..4} \<Longrightarrow> t \<in> set (cred_filters c)" for c t
    by (cases c)
      (auto simp: account_type_ids user_developer_or_package_maintainer_def developer_def
        package_maintainer_or_dev_def package_maintainer_def)
  show "PACKAGE_MAINTAINER_AND_DEV_ID \<in> set (cred_filters c)" for c
    by (cases c)
      (simp_all add: user_developer_or_package_maintainer_def developer_def
        package_maintainer_or_dev_def package_maintainer_def)
  show "t \<in> set (cred_filters c) \<Longrightarrow> t \<in> {1..4}" for c t
    by (cases c)
      (auto simp: account_type_ids user_developer_or_package_maintainer_def developer_def
        package_maintainer_or_dev_def package_maintainer_def)
qed

lemma has_credential_authenticated: "has_credential r c approved \<Longrightarrow> is_authenticated r"
  by (cases r) simp_all

lemma has_credential_approved: "has_credential (LoggedIn u) c approved \<longleftrightarrow>
    Some (u_ID u) \<in> set approved \<or> u_AccountTypeID u \<in> set (cred_filters c)"
  by (auto simp: creds_has_credential_def user_in_def list_ex_iff)

lemma anonymous_creds [simp]: "creds_has_credential AnonymousUser c approved = False"
  using aurweb_policy.anonymous_none [of c] by (simp add: creds_has_credential_def user_in_def list_ex_iff)

text \<open>
  For the credentials that the code keeps from plain users, holding one without being
  approved is being elevated.
\<close>

lemma elevated_iff_credential:
  assumes "cred_filters c = package_maintainer_or_dev"
  shows "has_credential r c [] \<longleftrightarrow> is_elevated r"
  by (cases r) (auto simp: creds_has_credential_def user_in_def is_elevated_def assms
      package_maintainer_or_dev_def account_type_ids)

lemma elevated_has_credential:
  assumes "is_elevated r" and "set package_maintainer_or_dev \<subseteq> set (cred_filters c)"
  shows "has_credential r c approved"
  using assms by (cases r) (auto simp: creds_has_credential_def is_elevated_def
      package_maintainer_or_dev_def account_type_ids)

text \<open>
  No user edits an account above their own: a user may edit another account only if they
  are elevated, and never one of a higher account type; plain users edit only themselves.
\<close>

theorem can_edit_user_never_upwards:
  assumes "can_edit_user self target" and "u_AccountTypeID self \<in> {1..4}"
  shows "u_AccountTypeID target \<le> u_AccountTypeID self
    \<and> (u_ID target = u_ID self \<or> is_elevated (LoggedIn self))"
  using assms unfolding can_edit_user_def has_credential_approved
  by (auto simp: is_elevated_def package_maintainer_or_dev_def account_type_ids)

theorem can_edit_user_never_upwards_witness:
  "u_AccountTypeID (users_default\<lparr>u_ID := 7\<rparr>) \<le> (2::nat)
    \<and> (u_ID (users_default\<lparr>u_ID := 7\<rparr>) = (5::nat)
       \<or> is_elevated (LoggedIn (users_default\<lparr>u_ID := 5, u_AccountTypeID := 2\<rparr>)))"
proof -
  have "can_edit_user (users_default\<lparr>u_ID := 5, u_AccountTypeID := 2\<rparr>) (users_default\<lparr>u_ID := 7\<rparr>)"
    by (simp add: can_edit_user_def creds_has_credential_def user_in_def users_default_def
        package_maintainer_or_dev_def account_type_ids)
  from can_edit_user_never_upwards [OF this] show ?thesis
    by simp
qed

end
