(* ===== verification/Web.thy ===== *)
theory Web
  imports Creds
begin

text \<open>
  Requests and responses of the web site, and who a request comes from: the session cookie
  (\<open>aurweb/auth/__init__.py\<close>), signing in and out (\<open>aurweb/models/user.py\<close>,
  \<open>aurweb/models/session.py\<close>, \<open>aurweb/routers/auth.py\<close>) and the unique random values of
  \<open>aurweb/db.py\<close>. A response is what the handler decides: the status, the template and the
  errors it shows, or where it redirects to; the HTML is not modelled.
\<close>

section \<open>Requests and responses\<close>

record request =
  rq_user :: requester
  rq_get :: bool
  rq_path :: string
  rq_referer :: "string option"
  rq_ip :: string

datatype response =
    Page nat string "string list"
  | Redirect string
  | SignedIn string string bool
  | SignedOut string
  | Plain nat string
  | Json nat

text \<open>\<open>urllib.parse.quote_plus\<close>, for characters up to 0xFF (two bytes in UTF-8 from 0x80 on).\<close>

definition hex_digit :: "nat \<Rightarrow> char" where
  "hex_digit n = (if n < 10 then char_of (48 + n) else char_of (55 + n))"

definition utf8_bytes :: "char \<Rightarrow> nat list" where
  "utf8_bytes c = (let n = of_char c in if n < 128 then [n] else [192 + n div 64, 128 + n mod 64])"

definition quote_plus :: "string \<Rightarrow> string" where
  "quote_plus s = concat (map (\<lambda>c. if is_alnum c \<or> c \<in> set ''_.-~'' then [c]
     else if c = CHR '' '' then ''+''
     else concat (map (\<lambda>b. [CHR ''%'', hex_digit (b div 16), hex_digit (b mod 16)]) (utf8_bytes c))) s)"

definition login_url :: "string \<Rightarrow> string" where
  "login_url next = ''/login?next='' @ quote_plus next"

text \<open>\<open>requires_auth\<close> and \<open>requires_guest\<close>.\<close>

definition requires_auth :: "config \<Rightarrow> request \<Rightarrow> (users_row \<Rightarrow> response aur) \<Rightarrow> response aur" where
  "requires_auth cfg rq f = (case rq_user rq of
     LoggedIn u \<Rightarrow> f u
   | AnonymousUser \<Rightarrow>
       if rq_get rq then ret (Redirect (login_url (rq_path rq)))
       else case rq_referer rq of
         None \<Rightarrow> ret (Redirect (login_url ''/''))
       | Some referer \<Rightarrow>
           if referer = [] then ret (Redirect (login_url ''/''))
           else let aur = aur_location cfg @ ''/'' in
             if startswith referer aur then ret (Redirect (login_url (drop (length aur - 1) referer)))
             else throw (HTTPException 400 ''Bad Referer header.''))"

definition requires_guest :: "request \<Rightarrow> response aur \<Rightarrow> response aur" where
  "requires_guest rq m = (if is_authenticated (rq_user rq) then ret (Redirect ''/'') else m)"

text \<open>\<open>account_type_required\<close>, below \<open>requires_auth\<close>.\<close>

definition account_type_required :: "string list \<Rightarrow> users_row \<Rightarrow> response aur \<Rightarrow> response aur" where
  "account_type_required one_of u m =
     (if Some (u_AccountTypeID u) \<notin> map_of ACCOUNT_TYPE_ID ` set one_of then ret (Redirect ''/'') else m)"

section \<open>Random values\<close>

text \<open>
  The loop of \<open>db.make_random_value\<close> draws until a string is not taken. It ends when one of the
  strings to come is free; otherwise its value is None and the program diverges.
\<close>

partial_function (option) first_free :: "(nat \<Rightarrow> string) \<Rightarrow> (string \<Rightarrow> bool) \<Rightarrow> nat \<Rightarrow> (string \<times> nat) option" where
  "first_free r taken k = (if taken (r k) then first_free r taken (Suc k) else Some (r k, Suc k))"

definition make_random_value :: "config \<Rightarrow> (db \<Rightarrow> string set) \<Rightarrow> nat \<Rightarrow> string aur" where
  "make_random_value cfg used len w =
     (case first_free (\<lambda>k. random_string cfg k len) (\<lambda>s. s \<in> used (the_db w)) (draws w) of
        None \<Rightarrow> (Inl Divergence, w)
      | Some (s, k) \<Rightarrow> (Inr s, w\<lparr>draws := k\<rparr>))"

definition make_random_string :: "config \<Rightarrow> nat \<Rightarrow> string aur" where
  "make_random_string cfg len w = (Inr (random_string cfg (draws w) len), w\<lparr>draws := Suc (draws w)\<rparr>)"

text \<open>The interface of the source of randomness: it does not stay within a finite set of strings.\<close>

locale random_source =
  fixes r :: "nat \<Rightarrow> string"
  assumes leaves: "finite F \<Longrightarrow> \<exists>m \<ge> k. r m \<notin> F"
    and nonempty: "r m \<noteq> []"
begin

lemma first_free_ends:
  assumes "finite F"
  shows "\<exists>s k'. first_free r (\<lambda>s. s \<in> F) k = Some (s, k') \<and> s \<notin> F \<and> s \<noteq> []"
proof -
  obtain m where m: "k \<le> m" "r m \<notin> F"
    using leaves [OF assms] by blast
  then show ?thesis
  proof (induction k rule: inc_induct)
    case base
    then show ?case by (subst first_free.simps) (simp add: nonempty)
  next
    case (step n)
    then show ?case by (subst (1) first_free.simps) (auto simp: nonempty)
  qed
qed

end

lemma nat_of_digits_zeros: "nat_of_digits (replicate m (CHR ''0'') @ s) = nat_of_digits s"
  by (induction m) (simp_all add: nat_of_digits_def digit_val_def)

lemma default_random_string:
  "random_string default_config k n = replicate (n - length (str_nat k)) (CHR ''0'') @ str_nat k"
  by (simp add: default_config_def)

interpretation default_random: random_source "\<lambda>k. random_string default_config k 32"
proof
  fix F :: "string set" and k
  assume F: "finite F"
  let ?r = "\<lambda>k. random_string default_config k 32"
  have "inj ?r"
    by (rule injI) (metis (no_types, lifting) default_random_string nat_of_digits_str_nat nat_of_digits_zeros)
  then have "infinite (?r ` {k..})"
    using finite_imageD [of ?r "{k..}"] infinite_Ici [of k] inj_on_subset by blast
  then have "\<not> ?r ` {k..} \<subseteq> F"
    using F finite_subset by blast
  then show "\<exists>m \<ge> k. ?r m \<notin> F"
    by auto
next
  have "str_nat m \<noteq> []" for m
    by (subst str_nat.simps) simp
  then show "random_string default_config m 32 \<noteq> []" for m
    by (simp add: default_random_string)
qed


lemma make_random_value_run:
  assumes "random_source (\<lambda>k. random_string cfg k len)" and "finite (used (the_db w))"
  shows "\<exists>s k. make_random_value cfg used len w = (Inr s, w\<lparr>draws := k\<rparr>) \<and> s \<notin> used (the_db w) \<and> s \<noteq> []"
  using random_source.first_free_ends [OF assms(1,2), of "draws w"]
  by (auto simp: make_random_value_def)

lemma first_free_at:
  assumes "n \<le> k" and "\<not> taken (r k)" and "\<And>j. n \<le> j \<Longrightarrow> j < k \<Longrightarrow> taken (r j)"
  shows "first_free r taken n = Some (r k, Suc k)"
  using assms(1,3)
proof (induction n rule: inc_induct)
  case base
  then show ?case using assms(2) by (subst first_free.simps) simp
next
  case (step n)
  then show ?case by (subst first_free.simps) simp
qed



section \<open>Sessions\<close>

definition sids :: "db \<Rightarrow> string set" where
  "sids d = ss_SessionID ` set (Sessions d)"

definition generate_unique_sid :: "config \<Rightarrow> string aur" where
  "generate_unique_sid cfg = make_random_value cfg sids 32"

definition session_of :: "nat \<Rightarrow> db \<Rightarrow> sessions_row option" where
  "session_of uid d = List.find (\<lambda>s. ss_UsersID s = uid) (Sessions d)"

text \<open>\<open>BasicAuthBackend.authenticate\<close>, given the cookies AURSID and AURREMEMBER.\<close>

definition authenticate :: "config \<Rightarrow> string option \<Rightarrow> string option \<Rightarrow> requester aur" where
  "authenticate cfg sid remember = retry_deadlock (case sid of
     None \<Rightarrow> ret AnonymousUser
   | Some s \<Rightarrow> if s = [] then ret AnonymousUser else
       let timeout = (if remember = Some ''True'' then persistent_cookie_timeout cfg else login_timeout cfg) in
       andthen utcnow (\<lambda>now_ts.
       andthen (query (\<lambda>d. List.find (\<lambda>x. ss_SessionID x = s) (Sessions d))) (\<lambda>record. case record of
         None \<Rightarrow> ret AnonymousUser
       | Some x \<Rightarrow>
           if ss_LastUpdateTS x < now_ts - timeout then
             seqp (transaction (execute (\<lambda>d. d\<lparr>Sessions :=
               delete_where (\<lambda>y. ss_UsersID y = ss_UsersID x) (Sessions d)\<rparr>)))
             (ret AnonymousUser)
           else andthen (query (\<lambda>d. List.find (\<lambda>u. u_ID u = ss_UsersID x) (Users d))) (\<lambda>user.
             andthen (the_or Py_AttributeError user) (\<lambda>u. ret (LoggedIn u))))))"

text \<open>
  \<open>valid_password\<close>: whether the password is right, and the hash that the user then has. A password
  of the legacy scheme is rehashed when it is used.
\<close>

definition valid_password :: "config \<Rightarrow> users_row \<Rightarrow> string option \<Rightarrow> bool \<times> string" where
  "valid_password cfg u password = (case password of
     None \<Rightarrow> (False, u_Passwd u)
   | Some p \<Rightarrow>
       if checkpw cfg p (u_Passwd u) = Some True then (True, u_Passwd u)
       else if u_Salt u \<noteq> [] \<and> md5_hex cfg (u_Salt u @ p) = u_Passwd u then (True, hashpw cfg p)
       else (False, u_Passwd u))"

definition is_banned :: "string \<Rightarrow> db \<Rightarrow> bool" where
  "is_banned ip d = list_ex (\<lambda>b. b = ip) (Bans d)"

text \<open>
  One round of the loop of \<open>User.login\<close>: the transaction that stamps the user and makes or renews
  the session. A rehashed password is written by the first round only: a rollback forgets it.
\<close>

definition renew_session :: "config \<Rightarrow> nat \<Rightarrow> int \<Rightarrow> string aur" where
  "renew_session cfg uid now_ts = andthen (query (session_of uid)) (\<lambda>current. case current of
     None \<Rightarrow> andthen (generate_unique_sid cfg) (\<lambda>sid.
       seqp (insert_unless (\<lambda>d. uid \<notin> user_ids d \<or> sid \<in> sids d) (\<lambda>d. d\<lparr>Sessions := Sessions d @
         [\<lparr>ss_UsersID = uid, ss_SessionID = sid, ss_LastUpdateTS = now_ts\<rparr>]\<rparr>))
       (ret sid))
   | Some s \<Rightarrow>
       andthen (if ss_LastUpdateTS s \<noteq> 0 \<and> ss_LastUpdateTS s < now_ts
                then generate_unique_sid cfg else ret (ss_SessionID s)) (\<lambda>sid.
       seqp (insert_unless (\<lambda>d. sid \<noteq> ss_SessionID s \<and> sid \<in> sids d) (\<lambda>d. d\<lparr>Sessions :=
         update_where (\<lambda>x. ss_UsersID x = uid)
           (\<lambda>x. x\<lparr>ss_SessionID := sid, ss_LastUpdateTS := now_ts\<rparr>) (Sessions d)\<rparr>))
       (ret sid)))"

definition login_round :: "config \<Rightarrow> string \<Rightarrow> nat \<Rightarrow> string option \<Rightarrow> string aur" where
  "login_round cfg ip uid rehash = andthen utcnow (\<lambda>now_ts. transaction (
     seqp (execute (\<lambda>d. d\<lparr>Users := update_where (\<lambda>u. u_ID u = uid)
       (\<lambda>u. u\<lparr>u_LastLogin := now_ts, u_LastLoginIPAddress := Some ip, u_InactivityTS := 0,
              u_Passwd := (case rehash of None \<Rightarrow> u_Passwd u | Some h \<Rightarrow> h)\<rparr>) (Users d)\<rparr>))
     (renew_session cfg uid now_ts)))"

fun login_rounds :: "nat \<Rightarrow> config \<Rightarrow> string \<Rightarrow> nat \<Rightarrow> string option \<Rightarrow> string aur" where
  "login_rounds 0 cfg ip uid rehash = throw IntegrityError"
| "login_rounds (Suc n) cfg ip uid rehash = catch (login_round cfg ip uid rehash)
     (\<lambda>e. if e = IntegrityError then login_rounds n cfg ip uid None else throw e)"

definition user_login :: "config \<Rightarrow> string \<Rightarrow> users_row \<Rightarrow> string \<Rightarrow> string option aur" where
  "user_login cfg ip user password =
     andthen (query (is_banned ip)) (\<lambda>banned.
     if banned \<or> u_Suspended user then ret None
     else let (valid, hash) = valid_password cfg user (Some password) in
       if \<not> valid then ret None
       else andthen (login_rounds 36 cfg ip (u_ID user) (if hash = u_Passwd user then None else Some hash))
         (\<lambda>sid. ret (Some sid)))"

definition user_logout :: "users_row \<Rightarrow> unit aur" where
  "user_logout user = andthen (query (session_of (u_ID user))) (\<lambda>s. whenp (s \<noteq> None)
     (transaction (execute (\<lambda>d. d\<lparr>Sessions := delete_where (\<lambda>x. ss_UsersID x = u_ID user) (Sessions d)\<rparr>))))"

section \<open>The routes of \<open>routers/auth.py\<close>\<close>

definition login_get :: "response aur" where
  "login_get = ret (Page 200 ''login.html'' [])"

definition login_post :: "config \<Rightarrow> request \<Rightarrow> string \<Rightarrow> string \<Rightarrow> string \<Rightarrow> bool \<Rightarrow> response aur" where
  "login_post cfg rq next user passwd remember_me = requires_guest rq (
     let login_path = aur_location cfg @ ''/login'' in
     seqp (guard (case rq_referer rq of None \<Rightarrow> False | Some r \<Rightarrow> r \<noteq> [] \<and> startswith r login_path)
       (HTTPException 400 ''Bad Referer header.''))
     (andthen (query (\<lambda>d. List.find (\<lambda>u. u_Username u = user \<or> u_Email u = user) (Users d))) (\<lambda>found.
      case found of
        None \<Rightarrow> ret (Page 200 ''login.html'' [''Bad username or password.''])
      | Some u \<Rightarrow>
          if u_Suspended u then ret (Page 200 ''login.html'' [''Account Suspended''])
          else andthen (retry_deadlock (user_login cfg (rq_ip rq) u passwd)) (\<lambda>sid. case sid of
            None \<Rightarrow> ret (Page 200 ''login.html'' [''Bad username or password.''])
          | Some s \<Rightarrow> if s = [] then ret (Page 200 ''login.html'' [''Bad username or password.''])
              else ret (SignedIn next s remember_me)))))"

definition logout :: "config \<Rightarrow> request \<Rightarrow> string \<Rightarrow> response aur" where
  "logout cfg rq next = requires_auth cfg rq (\<lambda>u.
     seqp (retry_deadlock (user_logout u)) (ret (SignedOut next)))"

section \<open>Signing in\<close>

text \<open>A property of the site's configuration: its source of session IDs is random.\<close>

definition random_sids :: "config \<Rightarrow> bool" where
  "random_sids cfg \<longleftrightarrow> random_source (\<lambda>k. random_string cfg k 32)"

lemma default_random_sids: "random_sids default_config"
  unfolding random_sids_def by (rule default_random.random_source_axioms)

lemma wp_generate_unique_sid:
  assumes "random_sids cfg" and "\<And>s k. s \<notin> sids (the_db w) \<Longrightarrow> s \<noteq> [] \<Longrightarrow> Q s (w\<lparr>draws := k\<rparr>)"
  shows "wp (generate_unique_sid cfg) Q E w"
  using make_random_value_run [of cfg 32 sids w] assms
  by (auto simp: generate_unique_sid_def random_sids_def sids_def wp_def)

lemma valid_password_iff: "fst (valid_password cfg u p) \<longleftrightarrow> (\<exists>q. p = Some q \<and>
    (checkpw cfg q (u_Passwd u) = Some True \<or> u_Salt u \<noteq> [] \<and> md5_hex cfg (u_Salt u @ q) = u_Passwd u))"
  by (auto simp: valid_password_def split: option.splits)

definition stamped :: "nat \<Rightarrow> string \<Rightarrow> string option \<Rightarrow> int \<Rightarrow> db \<Rightarrow> db" where
  "stamped uid ip rehash ts d = d\<lparr>Users := update_where (\<lambda>u. u_ID u = uid)
     (\<lambda>u. u\<lparr>u_LastLogin := ts, u_LastLoginIPAddress := Some ip, u_InactivityTS := 0,
            u_Passwd := (case rehash of None \<Rightarrow> u_Passwd u | Some h \<Rightarrow> h)\<rparr>) (Users d)\<rparr>"

text \<open>What a successful sign-in leaves: the user's one session, and the other sessions as they were.\<close>

definition signed_in :: "nat \<Rightarrow> string \<Rightarrow> int \<Rightarrow> db \<Rightarrow> db \<Rightarrow> bool" where
  "signed_in uid sid ts d d' \<longleftrightarrow> filter (\<lambda>s. ss_UsersID s = uid) (Sessions d')
       = [\<lparr>ss_UsersID = uid, ss_SessionID = sid, ss_LastUpdateTS = ts\<rparr>]
     \<and> filter (\<lambda>s. ss_UsersID s \<noteq> uid) (Sessions d') = filter (\<lambda>s. ss_UsersID s \<noteq> uid) (Sessions d)
     \<and> (\<forall>s \<in> set (Sessions d). ss_UsersID s \<noteq> uid \<longrightarrow> ss_SessionID s \<noteq> sid) \<and> sid \<noteq> []
     \<and> (\<exists>ip rehash. d' = (stamped uid ip rehash ts d)\<lparr>Sessions := Sessions d'\<rparr>)"

lemma filter_one:
  assumes "distinct (map k rs)" and "r \<in> set rs"
  shows "filter (\<lambda>x. k x = k r) rs = [r]"
  using assms
proof (induction rs)
  case (Cons x xs)
  show ?case
  proof (cases "x = r")
    case True
    with Cons.prems have "filter (\<lambda>x. k x = k r) xs = []"
      by (auto simp: filter_empty_conv image_iff)
    with True show ?thesis by simp
  next
    case False
    with Cons show ?thesis by (auto simp: image_iff)
  qed
qed simp

lemma signed_in_new:
  assumes "session_of uid d = None" and "sid \<notin> sids d" and "sid \<noteq> []"
  shows "signed_in uid sid ts d ((stamped uid ip rehash ts d)\<lparr>Sessions := Sessions d @
     [\<lparr>ss_UsersID = uid, ss_SessionID = sid, ss_LastUpdateTS = ts\<rparr>]\<rparr>)"
  using assms by (auto simp: signed_in_def session_of_def find_None_iff sids_def filter_empty_conv image_iff)

lemma signed_in_renewed:
  assumes "distinct (map ss_UsersID (Sessions d))" and "distinct (map ss_SessionID (Sessions d))"
    and "session_of uid d = Some s"
    and "sid = ss_SessionID s \<or> sid \<notin> sids d" and "sid \<noteq> []"
  shows "signed_in uid sid ts d ((stamped uid ip rehash ts d)\<lparr>Sessions :=
     update_where (\<lambda>x. ss_UsersID x = uid) (\<lambda>x. x\<lparr>ss_SessionID := sid, ss_LastUpdateTS := ts\<rparr>) (Sessions d)\<rparr>)"
proof -
  have s: "s \<in> set (Sessions d)" "ss_UsersID s = uid"
    using assms(3) by (auto simp: session_of_def dest: find_SomeD)
  have upd: "filter (\<lambda>x. ss_UsersID x = uid) (update_where (\<lambda>x. ss_UsersID x = uid) f rs)
      = map f (filter (\<lambda>x. ss_UsersID x = uid) rs)"
    "filter (\<lambda>x. ss_UsersID x \<noteq> uid) (update_where (\<lambda>x. ss_UsersID x = uid) f rs)
      = filter (\<lambda>x. ss_UsersID x \<noteq> uid) rs" if "\<And>x. ss_UsersID (f x) = ss_UsersID x" for f rs
    using that by (induction rs) (auto simp: update_where_def)
  have "filter (\<lambda>x. ss_UsersID x = uid) (Sessions d) = [s]"
    using filter_one [OF assms(1) s(1)] s(2) by simp
  moreover have "ss_SessionID x \<noteq> sid" if "x \<in> set (Sessions d)" "ss_UsersID x \<noteq> uid" for x
    using assms(4) that s distinct_map_inj [OF assms(2) that(1) s(1)] by (auto simp: sids_def)
  ultimately show ?thesis
    using assms(5) s by (auto simp: signed_in_def upd)
qed

lemma wp_login_round:
  assumes "wf_db (the_db w)" and "uid \<in> user_ids (the_db w)" and "random_sids cfg" and "[] \<notin> sids (the_db w)"
    and "\<And>sid k d'. signed_in uid sid (now w) (the_db w) d' \<Longrightarrow> Q sid (w\<lparr>draws := k, the_db := d'\<rparr>)"
  shows "wp (login_round cfg ip uid rehash) Q E w"
proof -
  let ?d = "stamped uid ip rehash (now w) (the_db w)"
  have u: "distinct (map ss_UsersID (Sessions (the_db w)))" "distinct (map ss_SessionID (Sessions (the_db w)))"
    using assms(1) by (simp_all add: wf_db_def unique_ok_def)
  have same: "Sessions ?d = Sessions (the_db w)" "sids ?d = sids (the_db w)" "user_ids ?d = user_ids (the_db w)"
    "session_of uid ?d = session_of uid (the_db w)"
    by (simp_all add: stamped_def sids_def session_of_def user_ids_def update_where_keys)
  let ?w = "w\<lparr>the_db := ?d\<rparr>"
  show ?thesis
  proof (cases "session_of uid (the_db w)")
    case None
    have "wp (generate_unique_sid cfg) (\<lambda>sid. wp (seqp (insert_unless (\<lambda>d. uid \<notin> user_ids d \<or> sid \<in> sids d)
        (\<lambda>d. d\<lparr>Sessions := Sessions d @ [\<lparr>ss_UsersID = uid, ss_SessionID = sid, ss_LastUpdateTS = now w\<rparr>]\<rparr>))
        (ret sid)) Q E') E' ?w" for E'
    proof (rule wp_generate_unique_sid [OF assms(3)])
      fix s k
      assume "s \<notin> sids (the_db ?w)" "s \<noteq> []"
      with None assms(2,5) signed_in_new [of uid "the_db w" s "now w" ip rehash]
      show "wp (seqp (insert_unless (\<lambda>d. uid \<notin> user_ids d \<or> s \<in> sids d)
        (\<lambda>d. d\<lparr>Sessions := Sessions d @ [\<lparr>ss_UsersID = uid, ss_SessionID = s, ss_LastUpdateTS = now w\<rparr>]\<rparr>))
        (ret s)) Q E' (?w\<lparr>draws := k\<rparr>)"
        by (simp add: wp_simps same)
    qed
    with None show ?thesis
      by (simp add: login_round_def renew_session_def wp_simps stamped_def [symmetric] same)
  next
    case (Some s)
    have "ss_SessionID s \<in> sids (the_db w)"
      using Some by (auto simp: session_of_def sids_def dest: find_SomeD)
    with assms(4) have sne: "ss_SessionID s \<noteq> []"
      by auto
    let ?up = "\<lambda>sid. seqp (insert_unless (\<lambda>d. sid \<noteq> ss_SessionID s \<and> sid \<in> sids d) (\<lambda>d. d\<lparr>Sessions :=
            update_where (\<lambda>x. ss_UsersID x = uid)
              (\<lambda>x. x\<lparr>ss_SessionID := sid, ss_LastUpdateTS := now w\<rparr>) (Sessions d)\<rparr>)) (ret sid)"
    have up: "wp (?up sid) Q E' (?w\<lparr>draws := k\<rparr>)"
      if "sid = ss_SessionID s \<or> sid \<notin> sids (the_db w)" "sid \<noteq> []" for sid k E'
      using that assms(5) [OF signed_in_renewed [OF u Some that, of "now w" ip rehash], of k]
      by (auto simp: wp_simps same)
    have old: "wp (?up (ss_SessionID s)) Q E' ?w" for E'
      using up [of "ss_SessionID s" E' "draws w"] sne by simp
    have new: "wp (generate_unique_sid cfg) (\<lambda>sid. wp (?up sid) Q E') E' ?w" for E'
      by (rule wp_generate_unique_sid [OF assms(3)]) (use up same in simp)
    show ?thesis
      using Some old new by (simp add: login_round_def renew_session_def wp_simps stamped_def [symmetric] same)
  qed
qed

lemma wp_login_rounds: "wp (login_round cfg ip uid rehash) Q
    (\<lambda>e w'. if e = IntegrityError then wp (login_rounds n cfg ip uid None) Q E w' else E e w') w
  \<Longrightarrow> wp (login_rounds (Suc n) cfg ip uid rehash) Q E w"
  unfolding login_rounds.simps wp_catch by (erule wp_mono) (simp_all add: wp_if wp_throw del: login_rounds.simps)

lemma wp_user_login:
  assumes "wf_db (the_db w)" and "user \<in> set (Users (the_db w))" and "random_sids cfg" and "[] \<notin> sids (the_db w)"
    and "\<not> is_banned ip (the_db w)" and "\<not> u_Suspended user" and "fst (valid_password cfg user (Some p))"
    and "\<And>sid k d'. signed_in (u_ID user) sid (now w) (the_db w) d' \<Longrightarrow> Q (Some sid) (w\<lparr>draws := k, the_db := d'\<rparr>)"
  shows "wp (user_login cfg ip user p) Q E w"
proof -
  have uid: "u_ID user \<in> user_ids (the_db w)"
    using assms(2) by (simp add: user_ids_def)
  have "wp (login_rounds (Suc 35) cfg ip (u_ID user) rehash) (\<lambda>sid. Q (Some sid)) E w" for rehash
    by (rule wp_login_rounds, rule wp_login_round [OF assms(1) uid assms(3,4)], rule assms(8))
  then have "wp (login_rounds 36 cfg ip (u_ID user) rehash) (\<lambda>sid. Q (Some sid)) E w" for rehash
    unfolding eval_nat_numeral BitM.simps by blast
  with assms(5-7) show ?thesis
    by (simp add: user_login_def wp_simps Let_def split_beta wp_ret_fun)
qed

lemma user_login_refused:
  assumes "is_banned ip (the_db w) \<or> u_Suspended user \<or> \<not> fst (valid_password cfg user (Some p))"
  shows "user_login cfg ip user p w = (Inr None, w)"
  by (rule run_eqI) (use assms in \<open>auto simp: user_login_def wp_simps Let_def split_beta\<close>)

text \<open>Finding a session by its ID, and what the cookie then says.\<close>

lemma find_session:
  assumes "signed_in uid sid ts d d'"
  shows "List.find (\<lambda>x. ss_SessionID x = sid) (Sessions d')
    = Some \<lparr>ss_UsersID = uid, ss_SessionID = sid, ss_LastUpdateTS = ts\<rparr>"
proof -
  let ?s = "\<lparr>ss_UsersID = uid, ss_SessionID = sid, ss_LastUpdateTS = ts\<rparr>"
  have mine: "x \<in> set (Sessions d') \<and> ss_UsersID x = uid \<longleftrightarrow> x = ?s" for x
  proof -
    have "set (filter (\<lambda>s. ss_UsersID s = uid) (Sessions d')) = {?s}"
      using assms by (simp only: signed_in_def list.set)
    then show ?thesis
      unfolding set_filter by blast
  qed
  have other: "ss_SessionID x \<noteq> sid" if "x \<in> set (Sessions d')" "ss_UsersID x \<noteq> uid" for x
  proof -
    have "set (filter (\<lambda>s. ss_UsersID s \<noteq> uid) (Sessions d')) = set (filter (\<lambda>s. ss_UsersID s \<noteq> uid) (Sessions d))"
      using assms by (simp only: signed_in_def)
    then have "x \<in> set (Sessions d)"
      unfolding set_filter using that by blast
    with assms that(2) show ?thesis
      unfolding signed_in_def by blast
  qed
  have "x \<in> set (Sessions d') \<and> ss_SessionID x = sid \<longleftrightarrow> x = ?s" for x
    using mine [of x] mine [of ?s] other [of x] by auto
  then have uniq: "\<And>x. x \<in> set (Sessions d') \<Longrightarrow> ss_SessionID x = sid \<Longrightarrow> x = ?s"
    and ex: "\<exists>x \<in> set (Sessions d'). ss_SessionID x = sid"
    by blast+
  obtain y where y: "List.find (\<lambda>x. ss_SessionID x = sid) (Sessions d') = Some y"
    using ex unfolding find_Some_iff_ex [symmetric] by blast
  with uniq [of y] show ?thesis
    by (auto dest: find_SomeD)
qed

lemma wp_authenticate:
  assumes "s \<noteq> []"
  shows "wp (authenticate cfg (Some s) rem) Q E w = (
    let timeout = (if rem = Some ''True'' then persistent_cookie_timeout cfg else login_timeout cfg) in
    case List.find (\<lambda>x. ss_SessionID x = s) (Sessions (the_db w)) of
      None \<Rightarrow> Q AnonymousUser w
    | Some x \<Rightarrow> if ss_LastUpdateTS x < now w - timeout
        then Q AnonymousUser (w\<lparr>the_db := (the_db w)\<lparr>Sessions :=
          delete_where (\<lambda>y. ss_UsersID y = ss_UsersID x) (Sessions (the_db w))\<rparr>\<rparr>)
        else case List.find (\<lambda>u. u_ID u = ss_UsersID x) (Users (the_db w)) of
          None \<Rightarrow> E Py_AttributeError w | Some u \<Rightarrow> Q (LoggedIn u) w)"
  unfolding authenticate_def
  by (subst wp_retry_deadlock_eq) (auto simp: wp_simps assms Let_def split: option.splits)

definition session_timeout :: "config \<Rightarrow> string option \<Rightarrow> int" where
  "session_timeout cfg rem = (if rem = Some ''True'' then persistent_cookie_timeout cfg else login_timeout cfg)"

lemma stamped_users: "u \<in> set (Users d) \<Longrightarrow> distinct (map u_ID (Users d)) \<Longrightarrow>
    \<exists>v. List.find (\<lambda>x. u_ID x = u_ID u) (Users (stamped uid ip rehash ts d)) = Some v \<and> u_ID v = u_ID u"
proof -
  assume u: "u \<in> set (Users d)"
  have "\<exists>v \<in> set (Users (stamped uid ip rehash ts d)). u_ID v = u_ID u"
    using u by (auto simp: stamped_def bex_update_where intro!: bexI [of _ u])
  then have "\<exists>v. List.find (\<lambda>x. u_ID x = u_ID u) (Users (stamped uid ip rehash ts d)) = Some v"
    by (simp only: find_Some_iff_ex)
  then show ?thesis
    by (auto dest: find_SomeD)
qed

lemma signed_in_authenticates:
  assumes "signed_in (u_ID u) sid ts d d'" and "u \<in> set (Users d)" and "distinct (map u_ID (Users d))"
    and "the_db w = d'"
  shows "\<exists>v. u_ID v = u_ID u \<and> fst (authenticate cfg (Some sid) rem w)
    = Inr (if ts < now w - session_timeout cfg rem then AnonymousUser else LoggedIn v)"
proof -
  have sid: "sid \<noteq> []"
    using assms(1) by (simp add: signed_in_def)
  obtain ip rehash where d': "d' = (stamped (u_ID u) ip rehash ts d)\<lparr>Sessions := Sessions d'\<rparr>"
    using assms(1) by (auto simp: signed_in_def)
  have users: "Users d' = Users (stamped (u_ID u) ip rehash ts d)"
    using arg_cong [OF d', of Users] by simp
  obtain v where v: "List.find (\<lambda>x. u_ID x = u_ID u) (Users d') = Some v" "u_ID v = u_ID u"
    unfolding users using stamped_users [OF assms(2,3)] by blast
  have "wp (authenticate cfg (Some sid) rem)
      (\<lambda>r _. r = (if ts < now w - session_timeout cfg rem then AnonymousUser else LoggedIn v)) (\<lambda>_ _. False) w"
    by (simp add: wp_authenticate [OF sid] assms(4) find_session [OF assms(1)] v session_timeout_def Let_def)
  with v(2) show ?thesis
    by (auto simp: wp_def split: prod.splits sum.splits)
qed



lemma cookie_sound:
  assumes "fst (authenticate cfg sid rem w) = Inr (LoggedIn u)"
  shows "u \<in> set (Users (the_db w)) \<and> (\<exists>x \<in> set (Sessions (the_db w)). sid = Some (ss_SessionID x)
    \<and> ss_UsersID x = u_ID u \<and> now w - session_timeout cfg rem \<le> ss_LastUpdateTS x)"
proof -
  obtain s where s: "sid = Some s" "s \<noteq> []"
    using assms by (cases sid)
      (auto simp: authenticate_def retry_deadlock_result [OF ret_def] ret_def split: if_splits)
  have "wp (authenticate cfg sid rem) (\<lambda>r _. r = LoggedIn u \<longrightarrow> u \<in> set (Users (the_db w))
    \<and> (\<exists>x \<in> set (Sessions (the_db w)). sid = Some (ss_SessionID x)
    \<and> ss_UsersID x = u_ID u \<and> now w - session_timeout cfg rem \<le> ss_LastUpdateTS x)) (\<lambda>_ _. True) w"
    by (auto simp: s(1) wp_authenticate [OF s(2)] session_timeout_def Let_def not_less dest!: find_SomeD
        split: option.splits)
  with assms show ?thesis
    by (auto simp: wp_def split: prod.splits sum.splits)
qed

text \<open>
  A cookie authenticates only the user the session belongs to, and only while the session is
  not older than its timeout.
\<close>

theorem cookie_is_the_users:
  "fst (authenticate cfg sid rem w) = Inr (LoggedIn u) \<Longrightarrow> u \<in> set (Users (the_db w))
    \<and> (\<exists>x \<in> set (Sessions (the_db w)). sid = Some (ss_SessionID x)
    \<and> ss_UsersID x = u_ID u \<and> now w - session_timeout cfg rem \<le> ss_LastUpdateTS x)"
  by (rule cookie_sound)

theorem cookie_is_the_users_witness:
  "demo_bob \<in> set (Users demo_db) \<and> (\<exists>x \<in> set (Sessions demo_db). Some ''cookie'' = Some (ss_SessionID x)
    \<and> ss_UsersID x = u_ID demo_bob \<and> 1000 - session_timeout default_config None \<le> ss_LastUpdateTS x)"
proof -
  have "fst (authenticate default_config (Some ''cookie'') None demo_world) = Inr (LoggedIn demo_bob)"
    by code_simp
  from cookie_is_the_users [OF this] show ?thesis
    unfolding demo_the_db .
qed

text \<open>
  Signing out ends the session: it always succeeds, and afterwards no cookie at all
  authenticates as the user.
\<close>

theorem sign_out:
  assumes "u_ID v = u_ID user"
  shows "fst (user_logout user w) = Inr ()
    \<and> fst (authenticate cfg sid rem (snd (user_logout user w))) \<noteq> Inr (LoggedIn v)"
proof -
  have "wp (user_logout user) (\<lambda>_ w'. \<forall>x \<in> set (Sessions (the_db w')). ss_UsersID x \<noteq> u_ID user) (\<lambda>_ _. False) w"
    by (auto simp: user_logout_def wp_simps session_of_def find_None_iff table_simps)
  then have "fst (user_logout user w) = Inr ()"
    and "\<forall>x \<in> set (Sessions (the_db (snd (user_logout user w)))). ss_UsersID x \<noteq> u_ID user"
    by (auto simp: wp_def split: prod.splits sum.splits)
  with cookie_sound [of cfg sid rem "snd (user_logout user w)" v] assms show ?thesis
    by auto
qed

theorem sign_out_witness:
  "fst (authenticate default_config (Some ''cookie'') None (snd (user_logout demo_bob demo_world)))
    \<noteq> Inr (LoggedIn demo_bob)"
  using sign_out [OF refl, of demo_bob demo_world default_config "Some ''cookie''" None] by blast

text \<open>
  A handler behind \<open>requires_auth\<close> never runs for a request without a session: the answer
  does not depend on the handler and nothing changes; the visitor is sent to the login page, with
  a local path to return to, or gets status 400.
\<close>

theorem anonymous_goes_to_login:
  assumes "rq_user rq = AnonymousUser"
  shows "snd (requires_auth cfg rq f w) = w \<and> requires_auth cfg rq f w = requires_auth cfg rq g w
    \<and> (fst (requires_auth cfg rq f w) = Inl (HTTPException 400 ''Bad Referer header.'')
       \<or> (\<exists>t. fst (requires_auth cfg rq f w) = Inr (Redirect (login_url t))
            \<and> (t = rq_path rq \<or> take 1 t = ''/'')))"
proof -
  have "take 1 (drop (length (aur_location cfg)) r) = ''/''" if "startswith r (aur_location cfg @ ''/'')" for r
  proof -
    have "r = (aur_location cfg @ ''/'') @ drop (length (aur_location cfg @ ''/'')) r"
      using that by (simp add: startswith_def) (metis append.assoc append_take_drop_id append_Cons append_Nil)
    then show ?thesis
      by (metis append.assoc append_Cons append_Nil append_eq_conv_conj take0 take_Suc_Cons One_nat_def)
  qed
  with assms show ?thesis
    by (cases "rq_referer rq") (auto simp: requires_auth_def ret_def throw_def Let_def)
qed

definition demo_visitor :: request where
  "demo_visitor = \<lparr>rq_user = AnonymousUser, rq_get = True, rq_path = ''/requests'', rq_referer = None,
     rq_ip = ''1.2.3.4''\<rparr>"

theorem anonymous_goes_to_login_witness:
  "snd (requires_auth default_config demo_visitor (\<lambda>_. login_get) demo_world) = demo_world"
proof -
  have "rq_user demo_visitor = AnonymousUser"
    by code_simp
  from anonymous_goes_to_login [OF this] show ?thesis
    by blast
qed

definition demo_form :: "users_row \<Rightarrow> request" where
  "demo_form u = \<lparr>rq_user = LoggedIn u, rq_get = False, rq_path = ''/'', rq_referer = None, rq_ip = ''1.2.3.4''\<rparr>"

section \<open>The constraints\<close>

lemma wf_Sessions:
  assumes "wf_db d" and "distinct (map ss_UsersID ss)" and "distinct (map ss_SessionID ss)"
    and "ss_UsersID ` set ss \<subseteq> user_ids d"
  shows "wf_db (d\<lparr>Sessions := ss\<rparr>)"
  using assms by (auto simp: wf_db_def unique_ok_def refs_ok_def user_ids_def base_ids_def)

lemma wf_SessionsD:
  "wf_db d \<Longrightarrow> distinct (map ss_UsersID (Sessions d)) \<and> distinct (map ss_SessionID (Sessions d))
    \<and> ss_UsersID ` set (Sessions d) \<subseteq> user_ids d"
  by (auto simp: wf_db_def unique_ok_def refs_ok_def)

lemma ok_Sessions_delete [ok_intros]:
  "db_ok_on U B d \<Longrightarrow> db_ok_on U B (d\<lparr>Sessions := delete_where p (Sessions d)\<rparr>)"
  by (erule db_ok_onI, rule wf_Sessions)
    (auto simp: distinct_map_delete_where table_simps dest: wf_SessionsD)

lemma ok_Sessions_insert:
  assumes "db_ok_on U B d" and "uid \<in> user_ids d" and "sid \<notin> sids d" and "session_of uid d = None"
  shows "db_ok_on U B (d\<lparr>Sessions := Sessions d @ [\<lparr>ss_UsersID = uid, ss_SessionID = sid, ss_LastUpdateTS = ts\<rparr>]\<rparr>)"
proof (rule db_ok_onI [OF assms(1)])
  assume wf: "wf_db d"
  show "wf_db (d\<lparr>Sessions := Sessions d @ [\<lparr>ss_UsersID = uid, ss_SessionID = sid, ss_LastUpdateTS = ts\<rparr>]\<rparr>)"
    by (rule wf_Sessions [OF wf])
      (use wf_SessionsD [OF wf] assms(2-4) in \<open>auto simp: sids_def session_of_def find_None_iff\<close>)
qed simp_all

lemma distinct_update_one:
  assumes "distinct (map k rs)" and "distinct (map g rs)" and "x \<notin> g ` set rs"
    and "\<And>r. g (f r) = x"
  shows "distinct (map g (update_where (\<lambda>r. k r = a) f rs))"
  using assms(1-3)
proof (induction rs)
  case (Cons r rs)
  have other: "g (if k s = a then f s else s) \<noteq> g s'" if "s' \<in> set (r # rs)" "k s = a" for s s'
    using Cons.prems(3) that assms(4) by auto
  have "update_where (\<lambda>r. k r = a) f rs = rs" if "k r = a"
    by (rule update_where_none) (use Cons.prems(1) that in \<open>auto intro: rev_image_eqI\<close>)
  with Cons other show ?case
    by (auto simp: update_where_def assms(4) image_iff)
qed (simp add: update_where_def)

lemma ok_Sessions_update:
  assumes "db_ok_on U B d" and "sid = ss_SessionID s \<and> session_of uid d = Some s \<or> sid \<notin> sids d"
  shows "db_ok_on U B (d\<lparr>Sessions := update_where (\<lambda>x. ss_UsersID x = uid)
     (\<lambda>x. x\<lparr>ss_SessionID := sid, ss_LastUpdateTS := ts\<rparr>) (Sessions d)\<rparr>)"
proof (rule db_ok_onI [OF assms(1)])
  let ?f = "\<lambda>x. x\<lparr>ss_SessionID := sid, ss_LastUpdateTS := ts\<rparr>"
  let ?ss = "update_where (\<lambda>x. ss_UsersID x = uid) ?f (Sessions d)"
  assume wf: "wf_db d"
  then have u: "distinct (map ss_UsersID (Sessions d))" "distinct (map ss_SessionID (Sessions d))"
    by (simp_all add: wf_db_def unique_ok_def)
  have "distinct (map ss_SessionID ?ss)"
  proof (cases "sid \<in> sids d")
    case True
    with assms(2) have s: "session_of uid d = Some s" "sid = ss_SessionID s" by auto
    then have "s \<in> set (Sessions d)" "ss_UsersID s = uid"
      by (auto simp: session_of_def dest: find_SomeD)
    then have "map ss_SessionID ?ss = map ss_SessionID (Sessions d)"
      using s(2) u(1) by (auto simp: update_where_def dest: distinct_map_inj)
    with u(2) show ?thesis by simp
  next
    case False
    then show ?thesis
      by (intro distinct_update_one [OF u]) (simp_all add: sids_def)
  qed
  with wf u wf_SessionsD [OF wf] show "wf_db (d\<lparr>Sessions := ?ss\<rparr>)"
    by (intro wf_Sessions) (simp_all add: map_update_where_same update_where_keys)
qed simp_all

lemma ok_stamped: "db_ok_on U B d \<Longrightarrow> db_ok_on U B (stamped uid ip rehash ts d)"
  unfolding stamped_def by (rule ok_Users_update) simp_all

lemma wp_any_sid:
  assumes "\<And>s k. Q s (w\<lparr>draws := k\<rparr>)" and "E Divergence w"
  shows "wp (generate_unique_sid cfg) Q E w"
  using assms by (auto simp: generate_unique_sid_def make_random_value_def wp_def split: option.splits)

lemma ok_renew_session: "keeps_ok U B (renew_session cfg uid ts)"
proof (rule keepsI)
  fix w assume w: "db_inv (db_ok_on U B) w"
  let ?I = "db_inv (db_ok_on U B)"
  have d: "db_ok_on U B (the_db w)"
    using w by (simp add: db_inv_def)
  show "wp (renew_session cfg uid ts) (\<lambda>_. ?I) (\<lambda>_. ?I) w"
  proof (cases "session_of uid (the_db w)")
    case None
    then show ?thesis
      by (auto simp: renew_session_def wp_andthen wp_query wp_seqp wp_insert_unless wp_ret db_inv_def
          intro!: wp_any_sid ok_Sessions_insert d)
  next
    case (Some s)
    have new: "db_ok_on U B ((the_db w)\<lparr>Sessions := update_where (\<lambda>x. ss_UsersID x = uid)
       (\<lambda>x. x\<lparr>ss_SessionID := sid, ss_LastUpdateTS := ts\<rparr>) (Sessions (the_db w))\<rparr>)"
      if "sid = ss_SessionID s \<or> sid \<notin> sids (the_db w)" for sid
      by (rule ok_Sessions_update [OF d]) (use that Some in auto)
    show ?thesis
      using Some new d
      by (auto simp: renew_session_def wp_andthen wp_query wp_seqp wp_insert_unless wp_ret wp_if db_inv_def
          intro!: wp_any_sid)
  qed
qed

lemma ok_login_round: "keeps_ok U B (login_round cfg ip uid rehash)"
  unfolding login_round_def stamped_def [symmetric] by (intro keeps_intros ok_renew_session ok_stamped)

lemma ok_login_rounds: "keeps_ok U B (login_rounds n cfg ip uid rehash)"
  by (induction n arbitrary: rehash) (auto intro!: keeps_intros ok_login_round)

lemma ok_user_login: "keeps_ok U B (user_login cfg ip user p)"
  unfolding user_login_def Let_def split_beta by (intro keeps_intros ok_login_rounds)

lemma ok_user_logout: "keeps_ok U B (user_logout user)"
  unfolding user_logout_def by (intro keeps_intros ok_intros)

lemma ok_authenticate: "keeps_ok U B (authenticate cfg sid rem)"
  unfolding authenticate_def Let_def by (intro keeps_intros keeps_if ok_intros)

text \<open>A request comes from a user of the site, or from nobody.\<close>

definition known :: "nat set \<Rightarrow> request \<Rightarrow> bool" where
  "known U rq \<longleftrightarrow> (\<forall>u. rq_user rq = LoggedIn u \<longrightarrow> u_ID u \<in> U)"

lemma keeps_requires_auth [keeps_intros]: "(\<And>u. rq_user rq = LoggedIn u \<Longrightarrow> keeps P (f u)) \<Longrightarrow> keeps P (requires_auth cfg rq f)"
  by (auto simp: requires_auth_def Let_def intro!: keeps_ret keeps_throw split: requester.splits option.splits)

lemma keeps_requires_guest [keeps_intros]: "keeps P m \<Longrightarrow> keeps P (requires_guest rq m)"
  by (simp add: requires_guest_def keeps_ret)

lemma ok_login_post: "keeps_ok U B (login_post cfg rq next user passwd remember)"
  unfolding login_post_def Let_def by (intro keeps_intros keeps_if ok_user_login)

lemma ok_logout: "keeps_ok U B (logout cfg rq next)"
  unfolding logout_def by (intro keeps_intros ok_user_logout)

end
