(* ===== verification/Requests.thy ===== *)
theory Requests
  imports Creds
begin

text \<open>
  Package requests: the closing of requests by an action on a package base,
  \<open>aurweb/packages/requests.py\<close>, and the constants of \<open>aurweb/models/package_request.py\<close> and
  \<open>aurweb/models/request_type.py\<close>. A package base or a request of the ORM is its row. The
  session does not flush before a query, so the queries below see what was committed before
  the transaction they run in.
\<close>

definition PENDING_ID :: nat where "PENDING_ID = 0"
definition CLOSED_ID :: nat where "CLOSED_ID = 1"
definition ACCEPTED_ID :: nat where "ACCEPTED_ID = 2"
definition REJECTED_ID :: nat where "REJECTED_ID = 3"

definition DELETION_ID :: nat where "DELETION_ID = 1"
definition ORPHAN_ID :: nat where "ORPHAN_ID = 2"
definition MERGE_ID :: nat where "MERGE_ID = 3"
definition ADOPTION_ID :: nat where "ADOPTION_ID = 4"

lemmas request_ids = PENDING_ID_def CLOSED_ID_def ACCEPTED_ID_def REJECTED_ID_def
  DELETION_ID_def ORPHAN_ID_def MERGE_ID_def ADOPTION_ID_def

definition status_display :: "nat \<Rightarrow> string option" where
  "status_display = map_of [(PENDING_ID, ''Pending''), (CLOSED_ID, ''Closed''),
     (ACCEPTED_ID, ''Accepted''), (REJECTED_ID, ''Rejected'')]"

definition REQTYPE_NAMES :: "nat \<Rightarrow> string option" where
  "REQTYPE_NAMES = map_of [(DELETION_ID, ''deletion''), (MERGE_ID, ''merge''),
     (ORPHAN_ID, ''orphan''), (ADOPTION_ID, ''adoption'')]"

section \<open>Closure comments\<close>

text \<open>
  \<open>getattr(self, f''{partial}_{reqtype}_closure'')\<close>: the handlers that exist, each a function
  of the name of the package base and of the target. A handler that reads the name of a
  missing target raises an \<open>AttributeError\<close>.
\<close>

definition closure_handlers :: "(string \<times> (string \<Rightarrow> string option \<Rightarrow> string aur)) list" where
  "closure_handlers =
    [(''_deletion_closure'', \<lambda>pkgbase target.
        ret (''[Autogenerated] Accepted deletion for '' @ pkgbase @ ''.'')),
     (''_merge_closure'', \<lambda>pkgbase target. andthen (the_or Py_AttributeError target) (\<lambda>t.
        ret (''[Autogenerated] Accepted merge for '' @ pkgbase @ '' into '' @ t @ ''.''))),
     (''_orphan_closure'', \<lambda>pkgbase target.
        ret (''[Autogenerated] Accepted orphan for '' @ pkgbase @ ''.'')),
     (''_adoption_closure'', \<lambda>pkgbase target.
        ret (''[Autogenerated] Accepted adoption for '' @ pkgbase @ ''.'')),
     (''_rejected_adoption_closure'', \<lambda>pkgbase target.
        ret (''[Autogenerated] Rejected adoption for '' @ pkgbase @ ''.'')),
     (''_rejected_merge_closure'', \<lambda>pkgbase target. andthen (the_or Py_AttributeError target) (\<lambda>t.
        ret (''[Autogenerated] Another request to merge '' @ pkgbase @ '' into '' @ t
          @ '' has rendered this request invalid.'')))]"

definition get_closure :: "nat \<Rightarrow> string \<Rightarrow> string option \<Rightarrow> nat \<Rightarrow> string aur" where
  "get_closure reqtype_id pkgbase target status =
     (let reqtype = (case REQTYPE_NAMES reqtype_id of None \<Rightarrow> ''None'' | Some n \<Rightarrow> n);
          partial = (if status = REJECTED_ID then ''_rejected'' else [])
      in case map_of closure_handlers (partial @ ''_'' @ reqtype @ ''_closure'') of
           None \<Rightarrow> throw Py_NotImplementedError
         | Some handler \<Rightarrow> handler pkgbase target)"

section \<open>Closing requests\<close>

definition request_of :: "packagebases_row \<Rightarrow> packagerequests_row \<Rightarrow> bool" where
  "request_of b r \<longleftrightarrow> pr_PackageBaseID r = Some (pb_ID b)"

definition update_closure_comment ::
  "packagebases_row \<Rightarrow> nat \<Rightarrow> string \<Rightarrow> packagebases_row option \<Rightarrow> unit aur" where
  "update_closure_comment pkgbase reqtype_id comments target =
     (if comments = [] then ret ()
      else if reqtype_id = MERGE_ID \<and> target = None then throw Py_AttributeError
      else execute (\<lambda>d. d\<lparr>PackageRequests := update_where
        (\<lambda>r. request_of pkgbase r \<and> pr_ReqTypeID r = reqtype_id \<and> pr_Status r = PENDING_ID
           \<and> (reqtype_id = MERGE_ID \<longrightarrow> pr_MergeBaseName r = map_option pb_Name target))
        (\<lambda>r. r\<lparr>pr_ClosureComment := comments\<rparr>) (PackageRequests d)\<rparr>))"

definition verify_orphan_request :: "config \<Rightarrow> packagebases_row \<Rightarrow> bool aur" where
  "verify_orphan_request cfg pkgbase = andthen utcnow (\<lambda>ts. query (\<lambda>d.
     list_ex (\<lambda>r. request_of pkgbase r \<and> pr_ReqTypeID r = ORPHAN_ID
       \<and> pr_Status r = PENDING_ID \<and> request_idle_time cfg < ts - pr_RequestTS r)
     (PackageRequests d)))"

definition close_pkgreq ::
  "packagerequests_row \<Rightarrow> nat \<Rightarrow> packagebases_row \<Rightarrow> packagebases_row option \<Rightarrow> nat \<Rightarrow> unit aur" where
  "close_pkgreq pkgreq closer pkgbase target status = andthen utcnow (\<lambda>ts.
     andthen (if pr_ClosureComment pkgreq \<noteq> [] then ret (pr_ClosureComment pkgreq)
              else get_closure (pr_ReqTypeID pkgreq) (pb_Name pkgbase) (map_option pb_Name target) status)
       (\<lambda>closure. execute (\<lambda>d. d\<lparr>PackageRequests := update_where (\<lambda>r. pr_ID r = pr_ID pkgreq)
         (\<lambda>r. r\<lparr>pr_Status := status, pr_ClosedUID := Some closer, pr_ClosureComment := closure,
                pr_ClosedTS := Some ts\<rparr>) (PackageRequests d)\<rparr>)))"

text \<open>The request that is made for an action nobody asked for.\<close>

definition autogenerated_request ::
  "nat \<Rightarrow> nat \<Rightarrow> nat \<Rightarrow> packagebases_row \<Rightarrow> packagebases_row option \<Rightarrow> string \<Rightarrow> int \<Rightarrow> packagerequests_row" where
  "autogenerated_request i reqtype_id uid pkgbase target comments ts =
     \<lparr>pr_ID = i, pr_ReqTypeID = reqtype_id, pr_PackageBaseID = Some (pb_ID pkgbase),
       pr_PackageBaseName = pb_Name pkgbase,
       pr_MergeBaseName = (if reqtype_id = MERGE_ID then map_option pb_Name target else None),
       pr_UsersID = Some uid, pr_Comments = ''Autogenerated by aurweb.'',
       pr_ClosureComment = comments, pr_RequestTS = ts, pr_ClosedTS = None, pr_ClosedUID = None,
       pr_Status = PENDING_ID\<rparr>"

definition create_request :: "(nat \<Rightarrow> packagerequests_row) \<Rightarrow> packagerequests_row aur" where
  "create_request mk = andthen (query (\<lambda>d. mk (next_id (map pr_ID (PackageRequests d))))) (\<lambda>r.
     seqp (guard (pr_PackageBaseName r \<noteq> []) IntegrityError)
     (seqp (execute (\<lambda>d. d\<lparr>PackageRequests := PackageRequests d @ [r]\<rparr>)) (ret r)))"

text \<open>The pending requests that \<open>handle_request\<close> closes, and those among them it accepts.\<close>

definition matching :: "nat \<Rightarrow> packagebases_row \<Rightarrow> packagerequests_row \<Rightarrow> bool" where
  "matching reqtype_id pkgbase r \<longleftrightarrow> request_of pkgbase r \<and> pr_ReqTypeID r = reqtype_id
     \<and> pr_Status r = PENDING_ID \<and> pr_PackageBaseName r = pb_Name pkgbase"

definition acceptable ::
  "packagebases_row option \<Rightarrow> nat list option \<Rightarrow> packagerequests_row \<Rightarrow> bool" where
  "acceptable target accept_ids r = (case target of
       Some t \<Rightarrow> pr_MergeBaseName r = Some (pb_Name t)
     | None \<Rightarrow> (case accept_ids of None \<Rightarrow> True | Some ids \<Rightarrow> pr_ID r \<in> set ids))"

definition retry_closures :: "packagerequests_row list \<Rightarrow> packagerequests_row list \<Rightarrow> nat
    \<Rightarrow> packagebases_row \<Rightarrow> packagebases_row option \<Rightarrow> unit aur" where
  "retry_closures to_accept to_reject uid pkgbase target = retry_deadlock (transaction (
     seqp (for_each to_accept (\<lambda>p. close_pkgreq p uid pkgbase target ACCEPTED_ID))
          (for_each to_reject (\<lambda>p. close_pkgreq p uid pkgbase target REJECTED_ID))))"

definition handle_request :: "config \<Rightarrow> users_row \<Rightarrow> nat \<Rightarrow> packagebases_row
    \<Rightarrow> packagebases_row option \<Rightarrow> string \<Rightarrow> nat list option \<Rightarrow> notification list aur" where
  "handle_request cfg user reqtype_id pkgbase target comments accept_ids = retry_deadlock (
     andthen (verify_orphan_request cfg pkgbase) (\<lambda>due.
     seqp (guard (reqtype_id = ORPHAN_ID \<longrightarrow> due) (Aurweb (InvariantError
       (''No due existing orphan requests to accept for '' @ pb_Name pkgbase @ ''.''))))
     (andthen (query (\<lambda>d. filter (matching reqtype_id pkgbase) (PackageRequests d))) (\<lambda>pending.
      let to_accept = filter (acceptable target accept_ids) pending;
          to_reject = filter (\<lambda>r. pr_ID r \<notin> pr_ID ` set to_accept) pending in
      andthen (if to_accept \<noteq> [] then ret to_accept
        else andthen utcnow (\<lambda>ts. andthen (transaction (
          seqp (guard (reqtype_id = MERGE_ID \<longrightarrow> target \<noteq> None) Py_AttributeError)
          (create_request (\<lambda>i.
             autogenerated_request i reqtype_id (u_ID user) pkgbase target comments ts))))
          (\<lambda>r. ret [r])))
      (\<lambda>to_accept.
      seqp (retry_closures to_accept to_reject (u_ID user) pkgbase target)
      (ret (map (\<lambda>r. RequestCloseNotification (u_ID user) (pr_ID r) ''Accepted'') to_accept
            @ map (\<lambda>r. RequestCloseNotification (u_ID user) (pr_ID r) ''Rejected'') to_reject)))))))"

section \<open>What closing does\<close>

text \<open>The types of requests for which a closure comment exists.\<close>

definition closable :: "nat \<Rightarrow> packagebases_row option \<Rightarrow> nat \<Rightarrow> bool" where
  "closable reqtype_id target status \<longleftrightarrow> reqtype_id \<in> {DELETION_ID, ORPHAN_ID, MERGE_ID, ADOPTION_ID}
     \<and> (reqtype_id = MERGE_ID \<longrightarrow> target \<noteq> None)
     \<and> (status = REJECTED_ID \<longrightarrow> reqtype_id \<in> {MERGE_ID, ADOPTION_ID})"

lemma get_closure_ok:
  assumes "closable t target status"
  shows "\<exists>c. c \<noteq> [] \<and> get_closure t name (map_option pb_Name target) status = ret c"
proof -
  have r: "andthen (the_or e (Some x)) f = f x" for e :: exn and x :: string and f :: "string \<Rightarrow> string aur"
    by (simp add: fun_eq_iff the_or_def andthen_def ret_def)
  from assms consider "t = DELETION_ID" "status \<noteq> REJECTED_ID" | "t = ORPHAN_ID" "status \<noteq> REJECTED_ID"
    | "t = ADOPTION_ID" | "t = MERGE_ID" "target \<noteq> None"
    by (auto simp: closable_def request_ids)
  then show ?thesis
    by cases (auto simp: get_closure_def REQTYPE_NAMES_def request_ids closure_handlers_def r)
qed

text \<open>A request \<open>r\<close> and the row \<open>r'\<close> that closing leaves of it.\<close>

definition closing :: "nat \<Rightarrow> nat \<Rightarrow> int \<Rightarrow> packagerequests_row \<Rightarrow> packagerequests_row \<Rightarrow> bool" where
  "closing status uid ts r r' \<longleftrightarrow> (\<exists>c. c \<noteq> [] \<and> (pr_ClosureComment r \<noteq> [] \<longrightarrow> c = pr_ClosureComment r)
     \<and> r' = r\<lparr>pr_Status := status, pr_ClosedUID := Some uid, pr_ClosureComment := c,
              pr_ClosedTS := Some ts\<rparr>)"

lemma closing_id: "closing status uid ts r r' \<Longrightarrow> pr_ID r' = pr_ID r \<and> pr_Status r' = status"
  by (auto simp: closing_def)

lemma wp_close_pkgreq:
  assumes "closable (pr_ReqTypeID p) target status"
    and "\<And>c. c \<noteq> [] \<Longrightarrow> (pr_ClosureComment p \<noteq> [] \<longrightarrow> c = pr_ClosureComment p) \<Longrightarrow>
      Q () (w\<lparr>the_db := (the_db w)\<lparr>PackageRequests := update_where (\<lambda>r. pr_ID r = pr_ID p)
         (\<lambda>r. r\<lparr>pr_Status := status, pr_ClosedUID := Some uid, pr_ClosureComment := c,
                pr_ClosedTS := Some (now w)\<rparr>) (PackageRequests (the_db w))\<rparr>\<rparr>)"
  shows "wp (close_pkgreq p uid b target status) Q E w"
proof -
  obtain c where "c \<noteq> []" "get_closure (pr_ReqTypeID p) (pb_Name b) (map_option pb_Name target) status = ret c"
    using get_closure_ok [OF assms(1)] by blast
  with assms(2) [of c] assms(2) [of "pr_ClosureComment p"] show ?thesis
    by (simp add: close_pkgreq_def wp_simps)
qed

text \<open>A loop closes the rows of its list and no others.\<close>

definition closes :: "nat \<Rightarrow> nat \<Rightarrow> int \<Rightarrow> nat set \<Rightarrow> packagerequests_row \<Rightarrow> packagerequests_row \<Rightarrow> bool" where
  "closes status uid ts ids r r' \<longleftrightarrow> (if pr_ID r \<in> ids then closing status uid ts r r' else r' = r)"

lemma wp_close_all:
  assumes "\<And>p. p \<in> set ps \<Longrightarrow> closable (pr_ReqTypeID p) target status"
    and "distinct (map pr_ID ps)"
    and "\<And>p r. p \<in> set ps \<Longrightarrow> r \<in> set (PackageRequests (the_db w)) \<Longrightarrow> pr_ID r = pr_ID p \<Longrightarrow> r = p"
    and "\<And>w' rs. w' = w\<lparr>the_db := (the_db w)\<lparr>PackageRequests := rs\<rparr>\<rparr> \<Longrightarrow>
      list_all2 (closes status uid (now w) (pr_ID ` set ps)) (PackageRequests (the_db w)) rs \<Longrightarrow> Q () w'"
  shows "wp (for_each ps (\<lambda>p. close_pkgreq p uid b target status)) Q E w"
  using assms
proof (induction ps arbitrary: w)
  case Nil
  show ?case
    unfolding wp_for_each_Nil
    by (rule Nil.prems(4) [of _ "PackageRequests (the_db w)"]) (simp_all add: closes_def list.rel_refl)
next
  case (Cons p ps)
  let ?f = "\<lambda>c r. r\<lparr>pr_Status := status, pr_ClosedUID := Some uid, pr_ClosureComment := c,
                pr_ClosedTS := Some (now w)\<rparr>"
  let ?w1 = "\<lambda>c. w\<lparr>the_db := (the_db w)\<lparr>PackageRequests := update_where (\<lambda>r. pr_ID r = pr_ID p)
         (?f c) (PackageRequests (the_db w))\<rparr>\<rparr>"
  show ?case
    unfolding wp_for_each_Cons
  proof (rule wp_close_pkgreq)
    fix c assume c: "c \<noteq> []" "pr_ClosureComment p \<noteq> [] \<longrightarrow> c = pr_ClosureComment p"
    show "wp (for_each ps (\<lambda>p. close_pkgreq p uid b target status)) Q E (?w1 c)"
    proof (rule Cons.IH)
      show "r = q" if "q \<in> set ps" "r \<in> set (PackageRequests (the_db (?w1 c)))" "pr_ID r = pr_ID q" for q r
        using that Cons.prems(2,3) by (auto simp: set_update_where split: if_splits)
      fix w' rs
      assume w': "w' = (?w1 c)\<lparr>the_db := (the_db (?w1 c))\<lparr>PackageRequests := rs\<rparr>\<rparr>"
        and rs: "list_all2 (closes status uid (now (?w1 c)) (pr_ID ` set ps))
          (PackageRequests (the_db (?w1 c))) rs"
      have "closes status uid (now w) (pr_ID ` set (p # ps)) r r'"
        if "r \<in> set (PackageRequests (the_db w))"
          and "closes status uid (now w) (pr_ID ` set ps) (if pr_ID r = pr_ID p then ?f c r else r) r'" for r r'
      proof (cases "pr_ID r = pr_ID p")
        case True
        then have "r = p" "pr_ID p \<notin> pr_ID ` set ps"
          using that(1) Cons.prems(2,3) by auto
        with that(2) have "r' = ?f c p"
          by (simp add: closes_def)
        with c \<open>r = p\<close> show ?thesis
          unfolding closes_def closing_def by (intro if_P [THEN iffD2] exI [of _ c]) auto
      next
        case False
        with that(2) show ?thesis
          by (simp add: closes_def)
      qed
      with rs have "list_all2 (closes status uid (now w) (pr_ID ` set (p # ps)))
          (PackageRequests (the_db w)) rs"
        by (auto simp: update_where_def list_all2_map1 elim!: list.rel_mono_strong)
      then show "Q () w'"
        by (intro Cons.prems(4)) (use w' in simp_all)
    qed (use Cons.prems in auto)
  qed (use Cons.prems in auto)
qed

lemma wp_retry_closures:
  assumes "\<And>p. p \<in> set as \<Longrightarrow> closable (pr_ReqTypeID p) target ACCEPTED_ID"
    and "\<And>p. p \<in> set bs \<Longrightarrow> closable (pr_ReqTypeID p) target REJECTED_ID"
    and "distinct (map pr_ID (PackageRequests (the_db w)))"
    and "set as \<subseteq> set (PackageRequests (the_db w))" "set bs \<subseteq> set (PackageRequests (the_db w))"
    and "distinct (map pr_ID as)" "distinct (map pr_ID bs)" "pr_ID ` set as \<inter> pr_ID ` set bs = {}"
    and "\<And>w' rs. w' = w\<lparr>the_db := (the_db w)\<lparr>PackageRequests := rs\<rparr>\<rparr> \<Longrightarrow>
      list_all2 (\<lambda>r r'. if pr_ID r \<in> pr_ID ` set as then closing ACCEPTED_ID uid (now w) r r'
        else closes REJECTED_ID uid (now w) (pr_ID ` set bs) r r') (PackageRequests (the_db w)) rs \<Longrightarrow> Q () w'"
  shows "wp (retry_closures as bs uid b target) Q E w"
  unfolding retry_closures_def
proof (rule wp_retry_deadlock, unfold wp_transaction wp_seqp, rule wp_close_all)
  show "p \<in> set as \<Longrightarrow> closable (pr_ReqTypeID p) target ACCEPTED_ID" for p
    by (rule assms(1))
  show "p \<in> set as \<Longrightarrow> r \<in> set (PackageRequests (the_db w)) \<Longrightarrow> pr_ID r = pr_ID p \<Longrightarrow> r = p" for p r
    using distinct_map_inj [OF assms(3)] assms(4) by blast
  fix w1 rs1
  assume w1: "w1 = w\<lparr>the_db := (the_db w)\<lparr>PackageRequests := rs1\<rparr>\<rparr>"
    and rs1: "list_all2 (closes ACCEPTED_ID uid (now w) (pr_ID ` set as)) (PackageRequests (the_db w)) rs1"
  show "wp (for_each bs (\<lambda>p. close_pkgreq p uid b target REJECTED_ID)) Q
     (\<lambda>e w'. E e (w'\<lparr>the_db := the_db w\<rparr>) \<and> (\<forall>msg. e \<noteq> OperationalError msg)) w1"
  proof (rule wp_close_all)
    show "p \<in> set bs \<Longrightarrow> closable (pr_ReqTypeID p) target REJECTED_ID" for p
      by (rule assms(2))
    show "r = p" if "p \<in> set bs" "r \<in> set (PackageRequests (the_db w1))" "pr_ID r = pr_ID p" for p r
    proof -
      from list_all2_in2 [OF rs1, of r] that(2) w1 obtain q where
        q: "q \<in> set (PackageRequests (the_db w))" "closes ACCEPTED_ID uid (now w) (pr_ID ` set as) q r"
        by auto
      then have "pr_ID q = pr_ID p"
        using that(3) by (auto simp: closes_def dest: closing_id split: if_splits)
      moreover have "pr_ID p \<notin> pr_ID ` set as"
        using assms(8) that(1) by auto
      with calculation q have "r = q"
        by (simp add: closes_def)
      ultimately show ?thesis
        using distinct_map_inj [OF assms(3) q(1)] assms(5) that(1) by blast
    qed
    fix w2 rs2
    assume w2: "w2 = w1\<lparr>the_db := (the_db w1)\<lparr>PackageRequests := rs2\<rparr>\<rparr>"
      and rs2: "list_all2 (closes REJECTED_ID uid (now w1) (pr_ID ` set bs)) (PackageRequests (the_db w1)) rs2"
    have "list_all2 (\<lambda>r r'. if pr_ID r \<in> pr_ID ` set as then closing ACCEPTED_ID uid (now w) r r'
        else closes REJECTED_ID uid (now w) (pr_ID ` set bs) r r') (PackageRequests (the_db w)) rs2"
    proof (rule list_all2_trans [OF _ rs1])
      show "list_all2 (closes REJECTED_ID uid (now w) (pr_ID ` set bs)) rs1 rs2"
        using rs2 w1 by simp
      show "if pr_ID x \<in> pr_ID ` set as then closing ACCEPTED_ID uid (now w) x z
          else closes REJECTED_ID uid (now w) (pr_ID ` set bs) x z"
        if "closes ACCEPTED_ID uid (now w) (pr_ID ` set as) x y"
          "closes REJECTED_ID uid (now w) (pr_ID ` set bs) y z" for x y z
      proof (cases "pr_ID x \<in> pr_ID ` set as")
        case True
        then have xy: "closing ACCEPTED_ID uid (now w) x y" "pr_ID x \<notin> pr_ID ` set bs"
          using that(1) assms(8) by (auto simp: closes_def)
        then have "z = y"
          using that(2) closing_id [OF xy(1)] by (simp add: closes_def)
        with True xy(1) show ?thesis by simp
      next
        case False
        with that show ?thesis by (simp add: closes_def)
      qed
    qed
    then show "Q () w2"
      by (intro assms(9)) (use w1 w2 in simp_all)
  qed (rule assms(7))
qed (rule assms(6))

text \<open>What \<open>handle_request\<close> leaves of a request, and the rows it may add.\<close>

definition settles :: "nat \<Rightarrow> int \<Rightarrow> nat \<Rightarrow> packagebases_row \<Rightarrow> packagebases_row option \<Rightarrow> nat list option
    \<Rightarrow> packagerequests_row \<Rightarrow> packagerequests_row \<Rightarrow> bool" where
  "settles uid ts t b target ids r r' \<longleftrightarrow>
     (if matching t b r
      then closing (if acceptable target ids r then ACCEPTED_ID else REJECTED_ID) uid ts r r'
      else r' = r)"

definition settled :: "nat \<Rightarrow> int \<Rightarrow> nat \<Rightarrow> packagebases_row \<Rightarrow> packagebases_row option \<Rightarrow> string
    \<Rightarrow> nat list option \<Rightarrow> packagerequests_row list \<Rightarrow> packagerequests_row list \<Rightarrow> bool" where
  "settled uid ts t b target comments ids old rs \<longleftrightarrow> (\<exists>rs0 new. rs = rs0 @ new
     \<and> list_all2 (settles uid ts t b target ids) old rs0
     \<and> (if \<exists>r \<in> set old. matching t b r \<and> acceptable target ids r then new = []
        else \<exists>r. new = [r] \<and> closing ACCEPTED_ID uid ts
          (autogenerated_request (next_id (map pr_ID old)) t uid b target comments ts) r))"

definition orphan_due :: "config \<Rightarrow> packagebases_row \<Rightarrow> int \<Rightarrow> db \<Rightarrow> bool" where
  "orphan_due cfg b ts d \<longleftrightarrow> (\<exists>r \<in> set (PackageRequests d). request_of b r \<and> pr_ReqTypeID r = ORPHAN_ID
     \<and> pr_Status r = PENDING_ID \<and> request_idle_time cfg < ts - pr_RequestTS r)"

lemma wp_verify_orphan_request [wp_simps]:
  "wp (verify_orphan_request cfg b) Q E w = Q (orphan_due cfg b (now w) (the_db w)) w"
  by (simp add: verify_orphan_request_def orphan_due_def wp_simps list_ex_iff)

definition can_handle :: "nat \<Rightarrow> packagebases_row option \<Rightarrow> nat list option \<Rightarrow> bool" where
  "can_handle t target ids \<longleftrightarrow> closable t target ACCEPTED_ID
     \<and> (t \<in> {DELETION_ID, ORPHAN_ID} \<longrightarrow> target = None \<and> ids = None)"

lemma can_handle_accept: "can_handle t target ids \<Longrightarrow> closable t target ACCEPTED_ID"
  by (simp add: can_handle_def)

lemma can_handle_reject:
  "can_handle t target ids \<Longrightarrow> \<not> acceptable target ids r \<Longrightarrow> closable t target REJECTED_ID"
  by (auto simp: can_handle_def closable_def acceptable_def request_ids split: option.splits)

lemma disjoint_image_filter: "f ` A \<inter> f ` {x \<in> B. f x \<notin> f ` A} = {}"
  by (auto intro: rev_image_eqI)

lemma wp_handle_request:
  assumes "distinct (map pr_ID (PackageRequests (the_db w)))" and "pb_Name b \<noteq> []"
    and "can_handle t target ids"
    and "t = ORPHAN_ID \<longrightarrow> orphan_due cfg b (now w) (the_db w)"
    and "\<And>w' rs ns. w' = w\<lparr>the_db := (the_db w)\<lparr>PackageRequests := rs\<rparr>\<rparr> \<Longrightarrow>
      settled (u_ID u) (now w) t b target comments ids (PackageRequests (the_db w)) rs \<Longrightarrow> Q ns w'"
  shows "wp (handle_request cfg u t b target comments ids) Q E w"
proof -
  let ?old = "PackageRequests (the_db w)"
  let ?pend = "filter (matching t b) ?old"
  let ?as = "filter (acceptable target ids) ?pend"
  let ?bs = "filter (\<lambda>r. pr_ID r \<notin> pr_ID ` set ?as) ?pend"
  have type: "p \<in> set ?pend \<Longrightarrow> pr_ReqTypeID p = t" for p
    by (simp add: matching_def)
  have inj: "r \<in> set ?old \<Longrightarrow> s \<in> set ?old \<Longrightarrow> pr_ID r = pr_ID s \<Longrightarrow> r = s" for r s
    using distinct_map_inj [OF assms(1)] by blast
  have bs: "set ?bs = {r \<in> set ?pend. \<not> acceptable target ids r}"
    using inj by auto
  have dist: "distinct (map pr_ID (filter q ?old))" for q
    using assms(1) by (simp add: distinct_map_filter)
  have settle: "settles (u_ID u) (now w) t b target ids r r'"
    if "r \<in> set ?old" "if pr_ID r \<in> pr_ID ` set ?as then closing ACCEPTED_ID (u_ID u) (now w) r r'
        else closes REJECTED_ID (u_ID u) (now w) (pr_ID ` set ?bs) r r'" for r r'
  proof -
    have "pr_ID r \<in> pr_ID ` set ?as \<longleftrightarrow> matching t b r \<and> acceptable target ids r"
      using that(1) inj by auto
    moreover have "pr_ID r \<in> pr_ID ` set ?bs \<longleftrightarrow> matching t b r \<and> \<not> acceptable target ids r"
      unfolding bs using that(1) inj by auto
    ultimately show ?thesis
      using that(2) by (auto simp: settles_def closes_def split: if_splits)
  qed
  let ?new = "autogenerated_request (next_id (map pr_ID ?old)) t (u_ID u) b target comments (now w)"
  let ?notifs = "\<lambda>as bs. map (\<lambda>r. RequestCloseNotification (u_ID u) (pr_ID r) ''Accepted'') as
            @ map (\<lambda>r. RequestCloseNotification (u_ID u) (pr_ID r) ''Rejected'') bs"
  let ?E = "\<lambda>e w'. E e w' \<and> (\<forall>msg. e \<noteq> OperationalError msg)"
  have old: "wp (retry_closures ?as ?bs (u_ID u) b target) (\<lambda>_. Q (?notifs ?as ?bs)) ?E w" if "?as \<noteq> []"
  proof (rule wp_retry_closures)
    fix w' rs
    assume w': "w' = w\<lparr>the_db := (the_db w)\<lparr>PackageRequests := rs\<rparr>\<rparr>"
      and rs: "list_all2 (\<lambda>r r'. if pr_ID r \<in> pr_ID ` set ?as then closing ACCEPTED_ID (u_ID u) (now w) r r'
        else closes REJECTED_ID (u_ID u) (now w) (pr_ID ` set ?bs) r r') ?old rs"
    have "list_all2 (settles (u_ID u) (now w) t b target ids) ?old rs"
      by (rule list.rel_mono_strong [OF rs]) (rule settle)
    moreover have "\<exists>r \<in> set ?old. matching t b r \<and> acceptable target ids r"
      using that by (auto simp: filter_empty_conv)
    ultimately have "settled (u_ID u) (now w) t b target comments ids ?old rs"
      unfolding settled_def by (intro exI [of _ rs] exI [of _ "[]"]) simp
    with w' show "Q (?notifs ?as ?bs) w'" by (rule assms(5))
  next
    show "p \<in> set ?as \<Longrightarrow> closable (pr_ReqTypeID p) target ACCEPTED_ID" for p
      using type can_handle_accept [OF assms(3)] by (metis filter_is_subset subsetD)
    show "p \<in> set ?bs \<Longrightarrow> closable (pr_ReqTypeID p) target REJECTED_ID" for p
      unfolding bs using type can_handle_reject [OF assms(3), of p] by auto
    have "set ?bs = {r \<in> set ?pend. pr_ID r \<notin> pr_ID ` set ?as}"
      by (rule set_filter)
    then show "pr_ID ` set ?as \<inter> pr_ID ` set ?bs = {}"
      by (simp only: disjoint_image_filter)
    show "distinct (map pr_ID ?as)" "distinct (map pr_ID ?bs)"
      by (intro distinct_map_filter assms(1))+
    show "set ?as \<subseteq> set ?old" "set ?bs \<subseteq> set ?old"
      by (intro subset_trans [OF filter_is_subset filter_is_subset]
          subset_trans [OF filter_is_subset subset_trans [OF filter_is_subset filter_is_subset]])+
  qed (rule assms(1))
  have fresh: "wp (retry_closures [?new] ?pend (u_ID u) b target) (\<lambda>_. Q (?notifs [?new] ?pend)) ?E
      (w\<lparr>the_db := (the_db w)\<lparr>PackageRequests := ?old @ [?new]\<rparr>\<rparr>)" if "?as = []"
  proof (rule wp_retry_closures)
    have id: "pr_ID ?new = next_id (map pr_ID ?old)" and nt: "pr_ReqTypeID ?new = t"
      by (simp_all add: autogenerated_request_def)
    have fr: "next_id (map pr_ID ?old) \<notin> pr_ID ` set ?old"
      using next_id_fresh [of "map pr_ID ?old"] by simp
    have none: "\<not> acceptable target ids r" if "r \<in> set ?pend" for r
      using that \<open>?as = []\<close> by (auto simp: filter_empty_conv)
    then have pend: "?bs = ?pend"
      using \<open>?as = []\<close> by simp
    fix w' rs
    let ?w1 = "w\<lparr>the_db := (the_db w)\<lparr>PackageRequests := ?old @ [?new]\<rparr>\<rparr>"
    assume w': "w' = ?w1\<lparr>the_db := (the_db ?w1)\<lparr>PackageRequests := rs\<rparr>\<rparr>"
      and rs: "list_all2 (\<lambda>r r'. if pr_ID r \<in> pr_ID ` set [?new] then closing ACCEPTED_ID (u_ID u) (now ?w1) r r'
        else closes REJECTED_ID (u_ID u) (now ?w1) (pr_ID ` set ?pend) r r') (PackageRequests (the_db ?w1)) rs"
    from rs obtain rs0 r where split: "rs = rs0 @ [r]"
      and rs0: "list_all2 (\<lambda>r r'. if pr_ID r \<in> pr_ID ` set [?new] then closing ACCEPTED_ID (u_ID u) (now w) r r'
        else closes REJECTED_ID (u_ID u) (now w) (pr_ID ` set ?pend) r r') ?old rs0"
      and r: "closing ACCEPTED_ID (u_ID u) (now w) ?new r"
      by (auto simp: list_all2_append1 list_all2_Cons1 cong: if_cong)
    have "list_all2 (settles (u_ID u) (now w) t b target ids) ?old rs0"
    proof (rule list.rel_mono_strong [OF rs0], rule settle)
      fix x y assume x: "x \<in> set ?old" and xy: "if pr_ID x \<in> pr_ID ` set [?new]
        then closing ACCEPTED_ID (u_ID u) (now w) x y
        else closes REJECTED_ID (u_ID u) (now w) (pr_ID ` set ?pend) x y"
      have "pr_ID x \<noteq> pr_ID ?new"
        using x fr unfolding id by (metis image_eqI)
      with xy show "if pr_ID x \<in> pr_ID ` set ?as then closing ACCEPTED_ID (u_ID u) (now w) x y
        else closes REJECTED_ID (u_ID u) (now w) (pr_ID ` set ?bs) x y"
        unfolding pend that by simp
    qed
    moreover have "\<not> (\<exists>r \<in> set ?old. matching t b r \<and> acceptable target ids r)"
      using none by auto
    ultimately have "settled (u_ID u) (now w) t b target comments ids ?old rs"
      unfolding settled_def using split r by (intro exI [of _ rs0] exI [of _ "[r]"]) simp
    with w' show "Q (?notifs [?new] ?pend) w'"
      by (intro assms(5)) simp_all
  next
    show "p \<in> set [?new] \<Longrightarrow> closable (pr_ReqTypeID p) target ACCEPTED_ID" for p
      using can_handle_accept [OF assms(3)] by (simp add: autogenerated_request_def)
    show "p \<in> set ?pend \<Longrightarrow> closable (pr_ReqTypeID p) target REJECTED_ID" for p
      using type can_handle_reject [OF assms(3), of p] that by (auto simp: filter_empty_conv)
    show "pr_ID ` set [?new] \<inter> pr_ID ` set ?pend = {}"
      using next_id_fresh [of "map pr_ID ?old"] by (auto simp: autogenerated_request_def)
    show "distinct (map pr_ID (PackageRequests (the_db (w\<lparr>the_db := (the_db w)\<lparr>PackageRequests := ?old @ [?new]\<rparr>\<rparr>))))"
      using assms(1) next_id_fresh [of "map pr_ID ?old"] by (simp add: autogenerated_request_def)
  qed (use dist in auto)
  have merge: "t = MERGE_ID \<longrightarrow> target \<noteq> None"
    using assms(3) by (simp add: can_handle_def closable_def)
  have create: "wp (transaction (seqp (guard (t = MERGE_ID \<longrightarrow> target \<noteq> None) Py_AttributeError)
          (create_request (\<lambda>i. autogenerated_request i t (u_ID u) b target comments (now w))))) Q' E' w
      = Q' ?new (w\<lparr>the_db := (the_db w)\<lparr>PackageRequests := ?old @ [?new]\<rparr>\<rparr>)" for Q' E'
    using merge assms(2)
    by (simp add: wp_simps create_request_def autogenerated_request_def)
  have guard: "(t = ORPHAN_ID \<longrightarrow> orphan_due cfg b (now w) (the_db w)) = True"
    using assms(4) by simp
  show ?thesis
    unfolding handle_request_def Let_def
  proof (rule wp_retry_deadlock, goal_cases)
    case 1
    show ?case
      unfolding wp_andthen wp_verify_orphan_request wp_seqp wp_guard guard if_True wp_query
    proof (cases "?as = []")
      case True
      then have pend: "?bs = ?pend" by simp
      show "wp (if ?as \<noteq> [] then ret ?as else andthen utcnow (\<lambda>ts. andthen (transaction (
          seqp (guard (t = MERGE_ID \<longrightarrow> target \<noteq> None) Py_AttributeError)
          (create_request (\<lambda>i. autogenerated_request i t (u_ID u) b target comments ts))))
          (\<lambda>r. ret [r])))
        (\<lambda>x. wp (retry_closures x ?bs (u_ID u) b target) (\<lambda>_. wp (ret (?notifs x ?bs)) Q ?E) ?E) ?E w"
        using fresh [OF True] unfolding pend
        by (simp only: True simp_thms if_False wp_andthen wp_utcnow create wp_ret wp_ret_fun)
    next
      case False
      then show "wp (if ?as \<noteq> [] then ret ?as else andthen utcnow (\<lambda>ts. andthen (transaction (
          seqp (guard (t = MERGE_ID \<longrightarrow> target \<noteq> None) Py_AttributeError)
          (create_request (\<lambda>i. autogenerated_request i t (u_ID u) b target comments ts))))
          (\<lambda>r. ret [r])))
        (\<lambda>x. wp (retry_closures x ?bs (u_ID u) b target) (\<lambda>_. wp (ret (?notifs x ?bs)) Q ?E) ?E) ?E w"
        using old [OF False] by (simp only: simp_thms if_True wp_ret wp_ret_fun)
    qed
  qed
qed

section \<open>The constraints\<close>

lemma ok_create_request:
  assumes "\<And>i. pr_ID (mk i) = i" and "\<And>i. refers (pr_PackageBaseID (mk i)) B"
    and "\<And>i. refers (pr_UsersID (mk i)) U" and "\<And>i. refers (pr_ClosedUID (mk i)) U"
  shows "keeps_ok U B (create_request mk)"
  by (rule keepsI)
    (use assms in \<open>auto simp: create_request_def wp_simps db_inv_def intro!: ok_PackageRequests_insert\<close>)

lemma keeps_get_closure: "keeps I (get_closure t name target status)"
proof -
  have "keeps I (h a b)" if "(k, h) \<in> set closure_handlers" for k h a b
    using that by (auto simp: closure_handlers_def intro!: keeps_intros)
  then show ?thesis
    unfolding get_closure_def Let_def
    by (auto intro!: keeps_throw split: option.split dest!: map_of_SomeD)
qed

lemma ok_close_pkgreq: "uid \<in> U \<Longrightarrow> keeps_ok U B (close_pkgreq p uid b target status)"
  unfolding close_pkgreq_def by (intro keeps_intros keeps_get_closure ok_intros) simp_all

lemma ok_update_closure_comment: "keeps_ok U B (update_closure_comment b t comments target)"
  unfolding update_closure_comment_def by (intro keeps_intros ok_intros) auto

lemma ok_handle_request:
  assumes "u_ID u \<in> U" and "pb_ID b \<in> B"
  shows "keeps_ok U B (handle_request cfg u t b target comments ids)"
  unfolding handle_request_def Let_def verify_orphan_request_def retry_closures_def
  by (intro keeps_retry_deadlock keeps_andthen keeps_seqp keeps_guard keeps_utcnow db_inv_query
      keeps_if keeps_ret db_inv_transaction ok_create_request keeps_for_each ok_close_pkgreq)
    (use assms in \<open>simp_all add: autogenerated_request_def\<close>)

text \<open>Nothing but the table of requests changes.\<close>

lemma requests_only:
  "keeps (db_inv (\<lambda>d. d\<lparr>PackageRequests := []\<rparr> = X)) (handle_request cfg u t b target comments ids)"
proof -
  have c: "keeps (db_inv (\<lambda>d. d\<lparr>PackageRequests := []\<rparr> = X)) (close_pkgreq p uid b target status)"
    for p uid b target status
    unfolding close_pkgreq_def by (intro keeps_intros keeps_get_closure) simp_all
  show ?thesis
    unfolding handle_request_def Let_def verify_orphan_request_def retry_closures_def create_request_def
    by (intro keeps_retry_deadlock keeps_andthen keeps_seqp keeps_guard keeps_utcnow db_inv_query
        keeps_if keeps_ret db_inv_transaction keeps_for_each c db_inv_execute) simp_all
qed

section \<open>Properties\<close>

lemma settles_not_matching: "settles uid ts t b target ids r r' \<Longrightarrow> \<not> matching t b r'"
  by (auto simp: settles_def closing_def matching_def request_ids split: if_splits)

lemma settled_none_pending:
  assumes "settled uid ts t b target comments ids old rs"
  shows "\<not> (\<exists>r \<in> set rs. matching t b r)"
proof -
  obtain rs0 new where rs: "rs = rs0 @ new"
    and rs0: "list_all2 (settles uid ts t b target ids) old rs0"
    and new: "if \<exists>r \<in> set old. matching t b r \<and> acceptable target ids r then new = []
        else \<exists>r. new = [r] \<and> closing ACCEPTED_ID uid ts
          (autogenerated_request (next_id (map pr_ID old)) t uid b target comments ts) r"
    using assms unfolding settled_def by blast
  have "\<not> matching t b r" if "r \<in> set new" for r
    using new that closing_id by (auto simp: matching_def request_ids split: if_splits)
  moreover have "\<not> matching t b r" if "r \<in> set rs0" for r
    using list_all2_in2 [OF rs0 that] settles_not_matching by blast
  ultimately show ?thesis
    using rs by auto
qed

text \<open>
  C3. An action on a package base settles every pending request of its type: for a merge those
  for the same target are accepted, for an adoption those that were granted, otherwise all of
  them; the rest is rejected, and when nothing is accepted a request is recorded and accepted
  in the user's name. A closed request keeps its closure comment or gets a generated one, and
  no other request changes. No supported action meets a missing closure comment.
\<close>

theorem handle_request_settles:
  assumes "wf_db (the_db w)" and "pb_Name b \<noteq> []" and "can_handle t target ids"
    and "t = ORPHAN_ID \<longrightarrow> orphan_due cfg b (now w) (the_db w)"
  shows "\<exists>rs ns. handle_request cfg u t b target comments ids w
      = (Inr ns, w\<lparr>the_db := (the_db w)\<lparr>PackageRequests := rs\<rparr>\<rparr>)
    \<and> settled (u_ID u) (now w) t b target comments ids (PackageRequests (the_db w)) rs
    \<and> \<not> (\<exists>r \<in> set rs. matching t b r)"
proof -
  have "distinct (map pr_ID (PackageRequests (the_db w)))"
    using assms(1) by (simp add: wf_db_def unique_ok_def)
  then have "wp (handle_request cfg u t b target comments ids) (\<lambda>ns w'. \<exists>rs.
      w' = w\<lparr>the_db := (the_db w)\<lparr>PackageRequests := rs\<rparr>\<rparr>
      \<and> settled (u_ID u) (now w) t b target comments ids (PackageRequests (the_db w)) rs) (\<lambda>_ _. False) w"
    by (rule wp_handle_request) (use assms in blast)+
  then show ?thesis
    using settled_none_pending by (auto simp: wp_def split: prod.splits sum.splits)
qed

definition demo_request :: "nat \<Rightarrow> nat \<Rightarrow> nat \<Rightarrow> string option \<Rightarrow> int \<Rightarrow> packagerequests_row" where
  "demo_request i t uid merge ts = \<lparr>pr_ID = i, pr_ReqTypeID = t, pr_PackageBaseID = Some 10,
     pr_PackageBaseName = ''foo'', pr_MergeBaseName = merge, pr_UsersID = Some uid,
     pr_Comments = ''please'', pr_ClosureComment = [], pr_RequestTS = ts, pr_ClosedTS = None,
     pr_ClosedUID = None, pr_Status = 0\<rparr>"

definition demo_requests :: world where
  "demo_requests = demo_world\<lparr>the_db := demo_db\<lparr>PackageRequests :=
     [demo_request 1 MERGE_ID 3 (Some ''bar'') 900, demo_request 2 MERGE_ID 4 (Some ''baz'') 950,
      demo_request 3 ORPHAN_ID 3 None 900]\<rparr>\<rparr>"

theorem handle_request_settles_witness:
  "\<exists>rs ns. handle_request default_config demo_alice MERGE_ID demo_base
      (Some (PackageBases demo_db ! 1)) ''merged'' None demo_requests
      = (Inr ns, demo_requests\<lparr>the_db := (the_db demo_requests)\<lparr>PackageRequests := rs\<rparr>\<rparr>)
    \<and> settled (u_ID demo_alice) (now demo_requests) MERGE_ID demo_base
        (Some (PackageBases demo_db ! 1)) ''merged'' None (PackageRequests (the_db demo_requests)) rs
    \<and> \<not> (\<exists>r \<in> set rs. matching MERGE_ID demo_base r)"
proof (rule handle_request_settles)
  show "wf_db (the_db demo_requests)" "pb_Name demo_base \<noteq> []"
    "can_handle MERGE_ID (Some (PackageBases demo_db ! 1)) None"
    by (code_simp+)
qed (simp add: request_ids)

lemma handle_orphan_not_due:
  assumes "\<not> orphan_due cfg b (now w) (the_db w)"
  shows "handle_request cfg u ORPHAN_ID b target comments ids w
    = (Inl (Aurweb (InvariantError
        (''No due existing orphan requests to accept for '' @ pb_Name b @ ''.''))), w)"
  unfolding handle_request_def
  by (rule run_eqI, rule wp_retry_deadlock)
    (simp only: wp_andthen wp_verify_orphan_request wp_seqp wp_guard assms simp_thms if_False
      exn.distinct not_False_eq_True)

text \<open>
  Orphaning by request waits: when no pending orphan request of the package base is older
  than the configured idle time, the action is refused and nothing at all changes.
\<close>

theorem orphan_request_not_due:
  assumes "\<not> orphan_due cfg b (now w) (the_db w)"
  shows "handle_request cfg u ORPHAN_ID b target comments ids w
    = (Inl (Aurweb (InvariantError
        (''No due existing orphan requests to accept for '' @ pb_Name b @ ''.''))), w)"
  by (rule handle_orphan_not_due [OF assms])

theorem orphan_request_not_due_witness:
  "handle_request default_config demo_alice ORPHAN_ID demo_base None [] None demo_requests
    = (Inl (Aurweb (InvariantError
        (''No due existing orphan requests to accept for '' @ pb_Name demo_base @ ''.''))), demo_requests)"
proof (rule orphan_request_not_due)
  show "\<not> orphan_due default_config demo_base (now demo_requests) (the_db demo_requests)"
    by code_simp
qed

end
