(* ===== verification/Pkgbase_Util.thy ===== *)
theory Pkgbase_Util
  imports Creds "HOL-Library.Multiset"
begin

text \<open>
  Helpers on package bases: the popularity update (\<open>aurweb/scripts/popupdate.py\<close> and
  \<open>aurweb/models/package_base.py\<close>), the co-maintainer list (\<open>aurweb/pkgbase/util.py\<close>) and the
  validation of comments (\<open>aurweb/pkgbase/validate.py\<close>). An ORM object of a package base is
  named by its ID, since its attributes are read from the database when they are used.
\<close>

section \<open>Popularity\<close>

definition votes_on :: "nat \<Rightarrow> db \<Rightarrow> packagevotes_row list" where
  "votes_on i d = filter (\<lambda>v. pv_PackageBaseID v = i) (PackageVotes d)"

text \<open>\<open>pkgbases\<close> is the list of the IDs of the given package bases; an empty list means all that are due.\<close>

definition run_variable :: "config \<Rightarrow> nat list \<Rightarrow> unit aur" where
  "run_variable cfg pkgbases = andthen utcnow (\<lambda>ts. transaction (execute (\<lambda>d.
     d\<lparr>PackageBases := update_where
        (\<lambda>b. if pkgbases \<noteq> [] then pb_ID b \<in> set pkgbases
             else pb_PopularityUpdated b \<le> ts - popularity_interval cfg)
        (\<lambda>b. b\<lparr>pb_NumVotes := length (votes_on (pb_ID b) d),
               pb_Popularity := sum_list (map (\<lambda>v. vote_weight cfg (ts - pv_VoteTS v)) (votes_on (pb_ID b) d)),
               pb_PopularityUpdated := ts\<rparr>)
        (PackageBases d)\<rparr>)))"

definition run_single :: "config \<Rightarrow> nat \<Rightarrow> unit aur" where
  "run_single cfg pkgbase = run_variable cfg [pkgbase]"

text \<open>Days since the last update, truncated, and the popularity as of now.\<close>

definition popularity_decay :: "packagebases_row \<Rightarrow> int \<Rightarrow> int" where
  "popularity_decay b ts = (let age = ts - pb_PopularityUpdated b in
     if 0 \<le> age then age div 86400 else - ((- age) div 86400))"

definition popularity :: "packagebases_row \<Rightarrow> int \<Rightarrow> real" where
  "popularity b ts = (let k = popularity_decay b ts in
     pb_Popularity b * (if 0 \<le> k then (98 / 100) ^ nat k else 1 / (98 / 100) ^ nat (- k)))"

section \<open>Co-maintainers\<close>

definition maintainer_of :: "nat \<Rightarrow> db \<Rightarrow> nat option" where
  "maintainer_of i d = (case List.find (\<lambda>b. pb_ID b = i) (PackageBases d) of
     None \<Rightarrow> None | Some b \<Rightarrow> pb_MaintainerUID b)"

definition comaintainers :: "nat \<Rightarrow> db \<Rightarrow> packagecomaintainers_row list" where
  "comaintainers i d = filter (\<lambda>c. cm_PackageBaseID c = i) (PackageComaintainers d)"

definition by_priority :: "nat \<Rightarrow> db \<Rightarrow> packagecomaintainers_row list" where
  "by_priority i d = sort_key cm_Priority (comaintainers i d)"

definition same_comaint :: "packagecomaintainers_row \<Rightarrow> packagecomaintainers_row \<Rightarrow> bool" where
  "same_comaint c x \<longleftrightarrow> cm_UsersID x = cm_UsersID c \<and> cm_PackageBaseID x = cm_PackageBaseID c"

definition rotate_comaintainers :: "nat \<Rightarrow> unit aur" where
  "rotate_comaintainers pkgbase = andthen (query (by_priority pkgbase)) (\<lambda>comaintainers.
     for_each (enumerate 0 comaintainers) (\<lambda>(i, comaint). execute (\<lambda>d. d\<lparr>PackageComaintainers :=
       update_where (same_comaint comaint) (\<lambda>c. c\<lparr>cm_Priority := i + 1\<rparr>) (PackageComaintainers d)\<rparr>)))"

text \<open>
  \<open>db.delete\<close> only marks the row: the query of \<open>rotate_comaintainers\<close> in the same transaction
  still finds it (the session does not flush before a query), and the row goes at the commit.
\<close>

definition delete_comaint :: "packagecomaintainers_row \<Rightarrow> unit aur" where
  "delete_comaint comaint = execute (\<lambda>d. d\<lparr>PackageComaintainers :=
     delete_where (same_comaint comaint) (PackageComaintainers d)\<rparr>)"

definition remove_comaintainer :: "packagecomaintainers_row \<Rightarrow> notification aur" where
  "remove_comaintainer comaint =
     seqp (rotate_comaintainers (cm_PackageBaseID comaint))
     (seqp (delete_comaint comaint)
     (ret (ComaintainerRemoveNotification (cm_UsersID comaint) (cm_PackageBaseID comaint))))"

definition named_comaintainers :: "nat \<Rightarrow> string list \<Rightarrow> db \<Rightarrow> packagecomaintainers_row list" where
  "named_comaintainers pkgbase usernames d =
     [c. c \<leftarrow> comaintainers pkgbase d, u \<leftarrow> Users d, u_ID u = cm_UsersID c \<and> u_Username u \<in> set usernames]"

definition remove_comaintainers :: "nat \<Rightarrow> string list \<Rightarrow> unit aur" where
  "remove_comaintainers pkgbase usernames = retry_deadlock (
     andthen (transaction (
       andthen (query (named_comaintainers pkgbase usernames)) (\<lambda>cs.
       seqp (for_each cs delete_comaint)
       (ret (map (\<lambda>c. ComaintainerRemoveNotification (cm_UsersID c) pkgbase) cs)))))
     (\<lambda>notifications.
      seqp (transaction (rotate_comaintainers pkgbase))
      (for_each notifications send)))"

definition latest_priority :: "nat \<Rightarrow> db \<Rightarrow> nat" where
  "latest_priority pkgbase d = fold max (map cm_Priority (comaintainers pkgbase d)) 0"

definition add_comaintainer :: "nat \<Rightarrow> nat \<Rightarrow> notification aur" where
  "add_comaintainer pkgbase uid = retry_deadlock (
     andthen (query (maintainer_of pkgbase)) (\<lambda>m.
     if m = Some uid then ret NoopComaintainerNotification
     else andthen (query (latest_priority pkgbase)) (\<lambda>prio.
       seqp (transaction (execute (\<lambda>d. d\<lparr>PackageComaintainers := PackageComaintainers d @
         [\<lparr>cm_UsersID = uid, cm_PackageBaseID = pkgbase, cm_Priority = prio + 1\<rparr>]\<rparr>)))
       (ret (ComaintainerAddNotification uid pkgbase)))))"

text \<open>The users of a list of names, or the first name without a user.\<close>

fun find_users :: "db \<Rightarrow> string list \<Rightarrow> string + nat list" where
  "find_users d [] = Inr []"
| "find_users d (n # ns) = (case List.find (\<lambda>u. u_Username u = n) (Users d) of
      None \<Rightarrow> Inl n
    | Some u \<Rightarrow> (case find_users d ns of Inl e \<Rightarrow> Inl e | Inr us \<Rightarrow> Inr (u_ID u # us)))"

definition add_comaintainers :: "nat \<Rightarrow> string list \<Rightarrow> string option aur" where
  "add_comaintainers pkgbase usernames = andthen (query (\<lambda>d. find_users d usernames)) (\<lambda>r. case r of
     Inl name \<Rightarrow> ret (Some (''Invalid user name: '' @ name))
   | Inr uids \<Rightarrow> andthen (collect uids (add_comaintainer pkgbase)) (\<lambda>notifications.
       seqp (for_each notifications send) (ret None)))"

section \<open>Validation of comments\<close>

definition validate_comment :: "config \<Rightarrow> string \<Rightarrow> unit aur" where
  "validate_comment cfg c =
     seqp (guard (c \<noteq> []) (Aurweb (ValidationError [''The comment field must not be empty.''])))
     (guard (length c \<le> max_chars_comment cfg)
       (Aurweb (ValidationError [''Maximum number of characters for comment exceeded.''])))"

definition comment_raise_http_ex :: "config \<Rightarrow> string \<Rightarrow> unit aur" where
  "comment_raise_http_ex cfg comments = catch (validate_comment cfg comments) (\<lambda>e. case e of
     Aurweb (ValidationError data) \<Rightarrow> throw (HTTPException 400 (data ! 0)) | _ \<Rightarrow> throw e)"

section \<open>The ranking of the co-maintainers\<close>

text \<open>
  What the priorities stand for: the list of the co-maintainers, next in line first. The
  interface \<open>ranked_list\<close> is the contract the rest of the site relies on: a new entry is last,
  a removal keeps the order of the others.
\<close>

locale ranked_list =
  fixes valid :: "'s \<Rightarrow> bool"
    and ranking :: "'s \<Rightarrow> 'u list"
    and append :: "'u \<Rightarrow> 's \<Rightarrow> 's"
    and drop_all :: "'u set \<Rightarrow> 's \<Rightarrow> 's"
  assumes valid_append: "valid s \<Longrightarrow> u \<notin> set (ranking s) \<Longrightarrow> valid (append u s)"
    and valid_drop: "valid s \<Longrightarrow> valid (drop_all us s)"
    and ranking_append: "valid s \<Longrightarrow> u \<notin> set (ranking s) \<Longrightarrow> ranking (append u s) = ranking s @ [u]"
    and ranking_drop: "valid s \<Longrightarrow> ranking (drop_all us s) = filter (\<lambda>u. u \<notin> us) (ranking s)"
begin

lemma append_keeps_next:
  "valid s \<Longrightarrow> ranking s \<noteq> [] \<Longrightarrow> u \<notin> set (ranking s) \<Longrightarrow> hd (ranking (append u s)) = hd (ranking s)"
  by (simp add: ranking_append)

lemma append_drop:
  "valid s \<Longrightarrow> u \<notin> set (ranking s) \<Longrightarrow> ranking (drop_all {u} (append u s)) = ranking s"
  by (simp add: ranking_append ranking_drop valid_append filter_id_conv) (metis filter_True)

lemma append_all:
  "valid s \<Longrightarrow> distinct us \<Longrightarrow> set us \<inter> set (ranking s) = {} \<Longrightarrow>
    valid (fold append us s) \<and> ranking (fold append us s) = ranking s @ us"
proof (induction us arbitrary: s)
  case (Cons u us)
  then have u: "u \<notin> set (ranking s)" "u \<notin> set us" "distinct us" by auto
  have "set us \<inter> set (ranking (append u s)) = {}"
    using Cons.prems(3) u by (auto simp: ranking_append [OF Cons.prems(1)])
  from Cons.IH [OF valid_append [OF Cons.prems(1) u(1)] u(3) this] show ?case
    by (simp add: ranking_append [OF Cons.prems(1) u(1)])
qed simp

end

definition ranking :: "nat \<Rightarrow> db \<Rightarrow> nat list" where
  "ranking i d = map cm_UsersID (by_priority i d)"

definition comaints_distinct :: "nat \<Rightarrow> db \<Rightarrow> bool" where
  "comaints_distinct i d \<longleftrightarrow> distinct (map cm_UsersID (comaintainers i d))"

definition append_comaint :: "nat \<Rightarrow> nat \<Rightarrow> db \<Rightarrow> db" where
  "append_comaint i u d = d\<lparr>PackageComaintainers := PackageComaintainers d @
     [\<lparr>cm_UsersID = u, cm_PackageBaseID = i, cm_Priority = latest_priority i d + 1\<rparr>]\<rparr>"

definition position :: "nat list \<Rightarrow> nat \<Rightarrow> nat" where
  "position us u = length (takeWhile (\<lambda>x. x \<noteq> u) us)"

definition renumber :: "nat \<Rightarrow> db \<Rightarrow> db" where
  "renumber i d = d\<lparr>PackageComaintainers := update_where (\<lambda>c. cm_PackageBaseID c = i)
     (\<lambda>c. c\<lparr>cm_Priority := position (ranking i d) (cm_UsersID c) + 1\<rparr>) (PackageComaintainers d)\<rparr>"

definition drop_comaints :: "nat \<Rightarrow> nat set \<Rightarrow> db \<Rightarrow> db" where
  "drop_comaints i us d = renumber i (d\<lparr>PackageComaintainers := delete_where
     (\<lambda>c. cm_PackageBaseID c = i \<and> cm_UsersID c \<in> us) (PackageComaintainers d)\<rparr>)"

text \<open>Sorting, with a new last element and with an element taken out.\<close>

lemma insort_key_last: "f y \<le> f x \<Longrightarrow> insort_key f y (zs @ [x]) = insort_key f y zs @ [x]"
  by (induction zs) auto

lemma sort_key_last:
  "(\<And>y. y \<in> set xs \<Longrightarrow> f y \<le> f x) \<Longrightarrow> sort_key f (xs @ [x]) = sort_key f xs @ [x]"
  by (induction xs) (auto simp: insort_key_last)

lemma latest_priority_ge: "c \<in> set (comaintainers i d) \<Longrightarrow> cm_Priority c \<le> latest_priority i d"
  unfolding latest_priority_def using fold_max_ge [of 0 "map cm_Priority (comaintainers i d)"] by auto

lemma comaintainers_append [simp]:
  "comaintainers i (append_comaint i u d) = comaintainers i d @
     [\<lparr>cm_UsersID = u, cm_PackageBaseID = i, cm_Priority = latest_priority i d + 1\<rparr>]"
  by (simp add: comaintainers_def append_comaint_def)

lemma ranking_append_comaint: "ranking i (append_comaint i u d) = ranking i d @ [u]"
  unfolding ranking_def by_priority_def comaintainers_append
  by (subst sort_key_last) (auto dest: latest_priority_ge)

lemma set_ranking: "set (ranking i d) = cm_UsersID ` set (comaintainers i d)"
  by (simp add: ranking_def by_priority_def)

lemma distinct_ranking: "comaints_distinct i d \<Longrightarrow> distinct (ranking i d)"
  unfolding comaints_distinct_def ranking_def by_priority_def
  by (metis distinct_map distinct_sort set_sort)

lemma position_nth: "distinct us \<Longrightarrow> k < length us \<Longrightarrow> position us (us ! k) = k"
proof (induction us arbitrary: k)
  case (Cons u us)
  then show ?case
    by (cases k) (auto simp: position_def)
qed simp

lemma comaintainers_renumber:
  "comaintainers i (renumber i d) = map (\<lambda>c. c\<lparr>cm_Priority := position (ranking i d) (cm_UsersID c) + 1\<rparr>)
     (comaintainers i d)"
proof -
  have "filter (\<lambda>c. cm_PackageBaseID c = i) (update_where (\<lambda>c. cm_PackageBaseID c = i)
      (\<lambda>c. c\<lparr>cm_Priority := g c\<rparr>) cs)
    = map (\<lambda>c. c\<lparr>cm_Priority := g c\<rparr>) (filter (\<lambda>c. cm_PackageBaseID c = i) cs)" for g cs
    by (induction cs) (auto simp: update_where_def)
  then show ?thesis
    by (simp add: comaintainers_def renumber_def)
qed

lemma by_priority_renumber:
  assumes "comaints_distinct i d"
  shows "by_priority i (renumber i d)
    = map (\<lambda>c. c\<lparr>cm_Priority := position (ranking i d) (cm_UsersID c) + 1\<rparr>) (by_priority i d)"
  unfolding by_priority_def [of i "renumber i d"] comaintainers_renumber
proof (rule sort_key_inj_key_eq)
  let ?f = "\<lambda>c. c\<lparr>cm_Priority := position (ranking i d) (cm_UsersID c) + 1\<rparr>"
  show "mset (map ?f (comaintainers i d)) = mset (map ?f (by_priority i d))"
    by (simp add: by_priority_def)
  have pos: "map (\<lambda>c. position (ranking i d) (cm_UsersID c)) (by_priority i d) = [0..<length (by_priority i d)]"
    by (rule nth_equalityI)
      (use position_nth [OF distinct_ranking [OF assms]] in \<open>auto simp: ranking_def\<close>)
  show "sorted (map cm_Priority (map ?f (by_priority i d)))"
  proof -
    have "map cm_Priority (map ?f (by_priority i d))
        = map Suc (map (\<lambda>c. position (ranking i d) (cm_UsersID c)) (by_priority i d))"
      by simp
    then show ?thesis
      unfolding pos by (simp only: map_Suc_upt sorted_upt)
  qed
  have "inj_on (\<lambda>c. position (ranking i d) (cm_UsersID c)) (set (by_priority i d))"
    using pos by (metis distinct_map distinct_upt)
  then show "inj_on cm_Priority (set (map ?f (comaintainers i d)))"
    by (auto simp: inj_on_def by_priority_def)
qed

lemma ranking_renumber: "comaints_distinct i d \<Longrightarrow> ranking i (renumber i d) = ranking i d"
  unfolding ranking_def [of i "renumber i d"] by (simp add: by_priority_renumber ranking_def comp_def)

lemma distinct_renumber: "comaints_distinct i d \<Longrightarrow> comaints_distinct i (renumber i d)"
  by (simp add: comaints_distinct_def comaintainers_renumber comp_def)

lemma comaintainers_delete: "comaintainers i (d\<lparr>PackageComaintainers := delete_where
     (\<lambda>c. cm_PackageBaseID c = i \<and> cm_UsersID c \<in> us) (PackageComaintainers d)\<rparr>)
   = filter (\<lambda>c. cm_UsersID c \<notin> us) (comaintainers i d)"
  by (auto simp: comaintainers_def delete_where_def conj_commute intro: filter_cong)

lemma ranking_delete: "ranking i (d\<lparr>PackageComaintainers := delete_where
     (\<lambda>c. cm_PackageBaseID c = i \<and> cm_UsersID c \<in> us) (PackageComaintainers d)\<rparr>)
   = filter (\<lambda>u. u \<notin> us) (ranking i d)"
  unfolding ranking_def by_priority_def comaintainers_delete
  by (simp add: filter_map comp_def filter_sort)

interpretation comaintainer_list: ranked_list "comaints_distinct i" "ranking i" "append_comaint i"
    "drop_comaints i"
proof
  fix d u us
  assume d: "comaints_distinct i d"
  let ?d = "d\<lparr>PackageComaintainers := delete_where
     (\<lambda>c. cm_PackageBaseID c = i \<and> cm_UsersID c \<in> us) (PackageComaintainers d)\<rparr>"
  have del: "comaints_distinct i ?d"
    using d unfolding comaints_distinct_def comaintainers_delete by (simp add: distinct_map_filter)
  show "comaints_distinct i (append_comaint i u d)" if "u \<notin> set (ranking i d)"
    using d that by (simp add: comaints_distinct_def set_ranking)
  show "comaints_distinct i (drop_comaints i us d)"
    unfolding drop_comaints_def by (rule distinct_renumber [OF del])
  show "ranking i (append_comaint i u d) = ranking i d @ [u]" if "u \<notin> set (ranking i d)"
    by (rule ranking_append_comaint)
  show "ranking i (drop_comaints i us d) = filter (\<lambda>u. u \<notin> us) (ranking i d)"
    unfolding drop_comaints_def ranking_renumber [OF del] by (rule ranking_delete)
qed

section \<open>The programs on the ranking\<close>

definition renumbered :: "nat \<Rightarrow> nat \<Rightarrow> nat list \<Rightarrow> packagecomaintainers_row \<Rightarrow> packagecomaintainers_row" where
  "renumbered i k us c = (if cm_PackageBaseID c = i \<and> cm_UsersID c \<in> set us
     then c\<lparr>cm_Priority := k + position us (cm_UsersID c) + 1\<rparr> else c)"

lemma renumbered_Cons:
  assumes "u \<notin> set us" and "cm_UsersID x = u" and "cm_PackageBaseID x = i"
  shows "renumbered i (Suc k) us (if same_comaint x c then c\<lparr>cm_Priority := k + 1\<rparr> else c)
    = renumbered i k (u # us) c"
  using assms by (auto simp: renumbered_def same_comaint_def position_def)

lemma wp_renumber_loop:
  assumes "distinct (map cm_UsersID cs)" and "\<And>c. c \<in> set cs \<Longrightarrow> cm_PackageBaseID c = i"
  shows "wp (for_each (enumerate k cs) (\<lambda>(n, comaint). execute (\<lambda>d. d\<lparr>PackageComaintainers :=
       update_where (same_comaint comaint) (\<lambda>c. c\<lparr>cm_Priority := n + 1\<rparr>) (PackageComaintainers d)\<rparr>))) Q E w
    = Q () (w\<lparr>the_db := (the_db w)\<lparr>PackageComaintainers :=
        map (renumbered i k (map cm_UsersID cs)) (PackageComaintainers (the_db w))\<rparr>\<rparr>)"
  using assms
proof (induction cs arbitrary: k w)
  case Nil
  then show ?case by (simp add: wp_simps renumbered_def)
next
  case (Cons c cs)
  have step: "map (renumbered i (Suc k) (map cm_UsersID cs))
      (update_where (same_comaint c) (\<lambda>c. c\<lparr>cm_Priority := k + 1\<rparr>) rows)
    = map (renumbered i k (map cm_UsersID (c # cs))) rows" for rows
    unfolding update_where_def map_map
    by (intro map_cong refl)
      (use renumbered_Cons [of "cm_UsersID c" "map cm_UsersID cs" c i k] Cons.prems in simp)
  show ?case
    unfolding enumerate_simps wp_for_each_Cons prod.case wp_execute
    by (subst Cons.IH) (use Cons.prems step in simp_all)
qed

lemma wp_rotate_comaintainers:
  assumes "comaints_distinct i (the_db w)"
  shows "wp (rotate_comaintainers i) Q E w = Q () (w\<lparr>the_db := renumber i (the_db w)\<rparr>)"
proof -
  have "map (renumbered i 0 (ranking i (the_db w))) (PackageComaintainers (the_db w))
      = PackageComaintainers (renumber i (the_db w))"
    by (auto simp: renumber_def update_where_def renumbered_def set_ranking comaintainers_def)
  moreover have "(the_db w)\<lparr>PackageComaintainers := PackageComaintainers (renumber i (the_db w))\<rparr>
      = renumber i (the_db w)"
    by (simp add: renumber_def)
  moreover have "c \<in> set (by_priority i (the_db w)) \<Longrightarrow> cm_PackageBaseID c = i" for c
    by (simp add: by_priority_def comaintainers_def)
  ultimately show ?thesis
    unfolding rotate_comaintainers_def wp_andthen wp_query
    by (subst wp_renumber_loop [of _ i])
      (use distinct_ranking [OF assms] in \<open>simp_all add: ranking_def [symmetric]\<close>)
qed

lemma wp_add_comaintainer:
  "wp (add_comaintainer i u) Q E w =
    (if maintainer_of i (the_db w) = Some u then Q NoopComaintainerNotification w
     else Q (ComaintainerAddNotification u i) (w\<lparr>the_db := append_comaint i u (the_db w)\<rparr>))"
proof -
  have run: "wp (andthen (query (maintainer_of i)) (\<lambda>m.
     if m = Some u then ret NoopComaintainerNotification
     else andthen (query (latest_priority i)) (\<lambda>prio.
       seqp (transaction (execute (\<lambda>d. d\<lparr>PackageComaintainers := PackageComaintainers d @
         [\<lparr>cm_UsersID = u, cm_PackageBaseID = i, cm_Priority = prio + 1\<rparr>]\<rparr>)))
       (ret (ComaintainerAddNotification u i))))) Q E w = (if maintainer_of i (the_db w) = Some u
       then Q NoopComaintainerNotification w
       else Q (ComaintainerAddNotification u i) (w\<lparr>the_db := append_comaint i u (the_db w)\<rparr>))" for Q E
    by (simp add: wp_simps append_comaint_def)
  show ?thesis
  proof (cases "maintainer_of i (the_db w) = Some u")
    case True
    show ?thesis
      unfolding add_comaintainer_def if_P [OF True]
      by (rule wp_retry_deadlock_ret) (simp only: run if_P [OF True])
  next
    case False
    show ?thesis
      unfolding add_comaintainer_def if_not_P [OF False]
      by (rule wp_retry_deadlock_ret) (simp only: run if_not_P [OF False])
  qed
qed

text \<open>The users the loop really adds: not the maintainer.\<close>

lemma maintainer_append [simp]: "maintainer_of i (append_comaint j u d) = maintainer_of i d"
  by (simp add: maintainer_of_def append_comaint_def)

lemma wp_add_all:
  "wp (collect us (add_comaintainer i)) Q E w =
    Q (map (\<lambda>u. if maintainer_of i (the_db w) = Some u then NoopComaintainerNotification
            else ComaintainerAddNotification u i) us)
      (w\<lparr>the_db := fold (append_comaint i) (filter (\<lambda>u. maintainer_of i (the_db w) \<noteq> Some u) us) (the_db w)\<rparr>)"
proof (induction us arbitrary: w Q)
  case Nil
  then show ?case by (simp add: wp_simps)
next
  case (Cons u us)
  show ?case
    unfolding collect.simps wp_andthen wp_add_comaintainer Cons.IH wp_ret by simp
qed

lemma wp_send_all:
  assumes "\<And>ns. Q () (w\<lparr>sent := ns\<rparr>)"
  shows "wp (for_each ns send) Q E w"
  using assms
proof (induction ns arbitrary: w)
  case Nil
  from Nil [of "sent w"] show ?case by (simp add: wp_simps)
next
  case (Cons n ns)
  from Cons.prems [of "sent w"] Cons.prems show ?case
    by (simp add: wp_simps) (auto intro!: Cons.IH)
qed

lemma find_users_iff: "find_users d ns = Inr us \<Longrightarrow> length us = length ns"
  by (induction ns arbitrary: us) (auto split: option.splits sum.splits)

lemma wp_add_comaintainers:
  assumes "comaints_distinct i (the_db w)"
    and "find_users (the_db w) names = Inr us" and "distinct us"
    and "set us \<inter> set (ranking i (the_db w)) = {}"
  shows "wp (add_comaintainers i names) (\<lambda>r w'. r = None
      \<and> ranking i (the_db w') = ranking i (the_db w) @ filter (\<lambda>u. maintainer_of i (the_db w) \<noteq> Some u) us
      \<and> comaints_distinct i (the_db w')) (\<lambda>_ _. False) w"
proof -
  let ?us = "filter (\<lambda>u. maintainer_of i (the_db w) \<noteq> Some u) us"
  have all: "comaints_distinct i (fold (append_comaint i) ?us (the_db w))
    \<and> ranking i (fold (append_comaint i) ?us (the_db w)) = ranking i (the_db w) @ ?us"
    by (rule comaintainer_list.append_all [OF assms(1)]) (use assms(3,4) in auto)
  show ?thesis
    unfolding add_comaintainers_def wp_andthen wp_query assms(2) sum.case wp_add_all wp_seqp wp_ret_fun
    by (rule wp_send_all) (use all in simp)
qed

text \<open>
  Adding co-maintainers appends them, in the order given, behind everyone who is already in
  line; the maintainer is skipped. An unknown name is reported and then nobody is added.
\<close>

theorem add_comaintainers_append:
  assumes "comaints_distinct i (the_db w)"
    and "find_users (the_db w) names = Inr us" and "distinct us"
    and "set us \<inter> set (ranking i (the_db w)) = {}"
  shows "fst (add_comaintainers i names w) = Inr None
    \<and> ranking i (the_db (snd (add_comaintainers i names w)))
      = ranking i (the_db w) @ filter (\<lambda>u. maintainer_of i (the_db w) \<noteq> Some u) us
    \<and> comaints_distinct i (the_db (snd (add_comaintainers i names w)))"
  using wp_add_comaintainers [OF assms] by (auto simp: wp_def split: prod.splits sum.splits)

theorem add_comaintainers_append_witness:
  "fst (add_comaintainers 11 [''bob'', ''alice''] demo_world) = Inr None
    \<and> ranking 11 (the_db (snd (add_comaintainers 11 [''bob'', ''alice''] demo_world)))
      = ranking 11 demo_db @ filter (\<lambda>u. maintainer_of 11 demo_db \<noteq> Some u) [2, 1]
    \<and> comaints_distinct 11 (the_db (snd (add_comaintainers 11 [''bob'', ''alice''] demo_world)))"
proof -
  have "comaints_distinct 11 demo_db" "find_users demo_db [''bob'', ''alice''] = Inr [2, 1]"
    "distinct [2, 1::nat]" "set [2, 1] \<inter> set (ranking 11 demo_db) = {}"
    by (code_simp+)
  from add_comaintainers_append [of 11 demo_world, unfolded demo_the_db, OF this] show ?thesis .
qed

lemma priorities_renumber:
  assumes "comaints_distinct i d"
  shows "map cm_Priority (by_priority i (renumber i d)) = [1..<Suc (length (ranking i d))]"
proof -
  have "map (position (ranking i d)) (ranking i d) = [0..<length (ranking i d)]"
    by (rule nth_equalityI) (use position_nth [OF distinct_ranking [OF assms]] in auto)
  moreover have "map cm_Priority (by_priority i (renumber i d))
      = map Suc (map (position (ranking i d)) (ranking i d))"
    by (simp add: by_priority_renumber [OF assms] ranking_def)
  ultimately show ?thesis
    by (simp add: map_Suc_upt)
qed

lemma wp_delete_comaints:
  assumes "\<And>c. c \<in> set cs \<Longrightarrow> cm_PackageBaseID c = i"
  shows "wp (for_each cs delete_comaint) Q E w = Q () (w\<lparr>the_db := (the_db w)\<lparr>PackageComaintainers :=
     delete_where (\<lambda>c. cm_PackageBaseID c = i \<and> cm_UsersID c \<in> cm_UsersID ` set cs)
       (PackageComaintainers (the_db w))\<rparr>\<rparr>)"
  using assms
proof (induction cs arbitrary: w)
  case Nil
  then show ?case by (simp add: wp_simps delete_where_def)
next
  case (Cons c cs)
  have "delete_where (\<lambda>c. cm_PackageBaseID c = i \<and> cm_UsersID c \<in> cm_UsersID ` set cs)
      (delete_where (same_comaint c) rows)
    = delete_where (\<lambda>x. cm_PackageBaseID x = i \<and> cm_UsersID x \<in> cm_UsersID ` set (c # cs)) rows" for rows
    using Cons.prems by (auto simp: delete_where_def same_comaint_def intro!: filter_cong)
  then show ?case
    unfolding wp_for_each_Cons delete_comaint_def wp_execute
    by (subst Cons.IH [unfolded delete_comaint_def]) (use Cons.prems in simp_all)
qed

lemma wp_remove_comaintainer:
  assumes "comaints_distinct (cm_PackageBaseID c) (the_db w)"
  shows "wp (remove_comaintainer c) Q E w =
    Q (ComaintainerRemoveNotification (cm_UsersID c) (cm_PackageBaseID c))
      (w\<lparr>the_db := (renumber (cm_PackageBaseID c) (the_db w))\<lparr>PackageComaintainers := delete_where
         (\<lambda>x. cm_PackageBaseID x = cm_PackageBaseID c \<and> cm_UsersID x \<in> {cm_UsersID c})
         (PackageComaintainers (renumber (cm_PackageBaseID c) (the_db w)))\<rparr>\<rparr>)"
proof -
  have "same_comaint c = (\<lambda>x. cm_PackageBaseID x = cm_PackageBaseID c \<and> cm_UsersID x \<in> {cm_UsersID c})"
    by (auto simp: same_comaint_def)
  then show ?thesis
    unfolding remove_comaintainer_def wp_seqp wp_rotate_comaintainers [OF assms]
      delete_comaint_def wp_execute wp_ret by simp
qed

lemma image_Int_witness: "f ` {c \<in> C. \<exists>x \<in> X. g x = f c \<and> P x} = f ` C \<inter> g ` {x \<in> X. P x}"
  by (auto intro: rev_image_eqI) (metis (mono_tags, lifting) image_eqI mem_Collect_eq)+

text \<open>What \<open>remove_comaintainers\<close> leaves.\<close>

definition removed_comaints :: "nat \<Rightarrow> string list \<Rightarrow> db \<Rightarrow> db" where
  "removed_comaints i names d = renumber i (d\<lparr>PackageComaintainers := delete_where
     (\<lambda>c. cm_PackageBaseID c = i \<and> cm_UsersID c \<in> cm_UsersID ` set (named_comaintainers i names d))
     (PackageComaintainers d)\<rparr>)"

lemma wp_remove_comaintainers:
  assumes "comaints_distinct i (the_db w)"
  shows "wp (remove_comaintainers i names) (\<lambda>_ w'. the_db w' = removed_comaints i names (the_db w)) (\<lambda>_ _. False) w"
proof -
  have base: "c \<in> set (named_comaintainers i names (the_db w)) \<Longrightarrow> cm_PackageBaseID c = i" for c
    by (auto simp: named_comaintainers_def comaintainers_def split: if_splits)
  have "comaints_distinct i ((the_db w)\<lparr>PackageComaintainers := delete_where
     (\<lambda>c. cm_PackageBaseID c = i \<and> cm_UsersID c \<in> cm_UsersID ` set (named_comaintainers i names (the_db w)))
     (PackageComaintainers (the_db w))\<rparr>)"
    using assms unfolding comaints_distinct_def comaintainers_delete by (simp add: distinct_map_filter)
  then show ?thesis
    unfolding remove_comaintainers_def
    by - (rule wp_retry_deadlock, unfold wp_andthen wp_transaction wp_query wp_seqp wp_ret_fun,
        subst wp_delete_comaints [OF base], assumption, subst wp_rotate_comaintainers,
        simp_all add: wp_send_all removed_comaints_def)
qed

lemma removed_comaints_facts:
  assumes "comaints_distinct i d"
  shows "comaints_distinct i (removed_comaints i names d)"
    and "ranking i (removed_comaints i names d)
      = filter (\<lambda>u. u \<notin> u_ID ` {x \<in> set (Users d). u_Username x \<in> set names}) (ranking i d)"
    and "map cm_Priority (by_priority i (removed_comaints i names d))
      = [1..<Suc (length (ranking i (removed_comaints i names d)))]"
    and "Users (removed_comaints i names d) = Users d"
    and "maintainer_of j (removed_comaints i names d) = maintainer_of j d"
proof -
  let ?us = "u_ID ` {x \<in> set (Users d). u_Username x \<in> set names}"
  let ?cs = "named_comaintainers i names d"
  let ?d1 = "d\<lparr>PackageComaintainers := delete_where
      (\<lambda>c. cm_PackageBaseID c = i \<and> cm_UsersID c \<in> cm_UsersID ` set ?cs) (PackageComaintainers d)\<rparr>"
  have mem: "c \<in> set ?cs \<longleftrightarrow> c \<in> set (comaintainers i d)
      \<and> (\<exists>u \<in> set (Users d). u_ID u = cm_UsersID c \<and> u_Username u \<in> set names)" for c
    by (auto simp: named_comaintainers_def split: if_splits)
  have "set ?cs = {c \<in> set (comaintainers i d).
      \<exists>u \<in> set (Users d). u_ID u = cm_UsersID c \<and> u_Username u \<in> set names}"
    using mem by blast
  then have users: "cm_UsersID ` set ?cs = cm_UsersID ` set (comaintainers i d) \<inter> ?us"
    by (simp only: image_Int_witness)
  have d1: "comaints_distinct i ?d1"
    using assms unfolding comaints_distinct_def comaintainers_delete by (simp add: distinct_map_filter)
  have rank: "ranking i ?d1 = filter (\<lambda>u. u \<notin> ?us) (ranking i d)"
    unfolding ranking_delete users by (rule filter_cong) (auto simp: set_ranking)
  show "comaints_distinct i (removed_comaints i names d)"
    unfolding removed_comaints_def by (rule distinct_renumber [OF d1])
  show rk: "ranking i (removed_comaints i names d) = filter (\<lambda>u. u \<notin> ?us) (ranking i d)"
    unfolding removed_comaints_def ranking_renumber [OF d1] by (rule rank)
  show "map cm_Priority (by_priority i (removed_comaints i names d))
      = [1..<Suc (length (ranking i (removed_comaints i names d)))]"
    unfolding rk unfolding removed_comaints_def priorities_renumber [OF d1] rank ..
  show "Users (removed_comaints i names d) = Users d"
    and "maintainer_of j (removed_comaints i names d) = maintainer_of j d"
    by (simp_all add: removed_comaints_def renumber_def maintainer_of_def)
qed

text \<open>
  Removing co-maintainers by name takes exactly the named ones out of the ranking, keeps the
  order of the others and numbers them 1, 2, ... without gaps.
\<close>

theorem remove_comaintainers_ranking:
  assumes "comaints_distinct i (the_db w)"
  shows "fst (remove_comaintainers i names w) = Inr ()
    \<and> ranking i (the_db (snd (remove_comaintainers i names w)))
      = filter (\<lambda>u. u \<notin> u_ID ` {x \<in> set (Users (the_db w)). u_Username x \<in> set names}) (ranking i (the_db w))
    \<and> map cm_Priority (by_priority i (the_db (snd (remove_comaintainers i names w))))
      = [1..<Suc (length (ranking i (the_db (snd (remove_comaintainers i names w)))))]"
proof -
  have "fst (remove_comaintainers i names w) = Inr ()
      \<and> the_db (snd (remove_comaintainers i names w)) = removed_comaints i names (the_db w)"
    using wp_remove_comaintainers [OF assms, of names] by (auto simp: wp_def split: prod.splits sum.splits)
  then show ?thesis
    using removed_comaints_facts [OF assms] by simp
qed

theorem remove_comaintainers_ranking_witness:
  "fst (remove_comaintainers 10 [''alice''] demo_world) = Inr ()
    \<and> ranking 10 (the_db (snd (remove_comaintainers 10 [''alice''] demo_world)))
      = filter (\<lambda>u. u \<notin> u_ID ` {x \<in> set (Users demo_db). u_Username x \<in> set [''alice'']}) (ranking 10 demo_db)
    \<and> map cm_Priority (by_priority 10 (the_db (snd (remove_comaintainers 10 [''alice''] demo_world))))
      = [1..<Suc (length (ranking 10 (the_db (snd (remove_comaintainers 10 [''alice''] demo_world)))))]"
proof -
  have "comaints_distinct 10 demo_db"
    by code_simp
  from remove_comaintainers_ranking [of _ demo_world, unfolded demo_the_db, OF this]
  show ?thesis .
qed

section \<open>The popularity update\<close>

definition votes_ok_but :: "nat set \<Rightarrow> db \<Rightarrow> bool" where
  "votes_ok_but is d \<longleftrightarrow> (\<forall>b \<in> set (PackageBases d). pb_ID b \<notin> is \<longrightarrow> pb_NumVotes b = votes_of (pb_ID b) d)"

lemma votes_ok_but_none: "votes_ok d \<longleftrightarrow> votes_ok_but {} d"
  by (simp add: votes_ok_def votes_ok_but_def)

lemma length_votes_on: "length (votes_on i d) = votes_of i d"
  by (simp add: votes_on_def votes_of_def count_where_def)

definition recounted :: "config \<Rightarrow> int \<Rightarrow> (packagebases_row \<Rightarrow> bool) \<Rightarrow> db \<Rightarrow> db" where
  "recounted cfg ts p d = d\<lparr>PackageBases := update_where p
     (\<lambda>b. b\<lparr>pb_NumVotes := votes_of (pb_ID b) d,
            pb_Popularity := sum_list (map (\<lambda>v. vote_weight cfg (ts - pv_VoteTS v)) (votes_on (pb_ID b) d)),
            pb_PopularityUpdated := ts\<rparr>) (PackageBases d)\<rparr>"

lemma wp_run_single: "wp (run_single cfg i) Q E w
    = Q () (w\<lparr>the_db := recounted cfg (now w) (\<lambda>b. pb_ID b = i) (the_db w)\<rparr>)"
  by (simp add: run_single_def run_variable_def recounted_def wp_simps length_votes_on)

lemma wp_run_variable: "wp (run_variable cfg is) Q E w
    = Q () (w\<lparr>the_db := recounted cfg (now w) (\<lambda>b. if is \<noteq> [] then pb_ID b \<in> set is
        else pb_PopularityUpdated b \<le> now w - popularity_interval cfg) (the_db w)\<rparr>)"
  by (simp add: run_variable_def recounted_def wp_simps length_votes_on)

lemma recounted_votes:
  assumes "votes_ok_but is d" and "\<And>b. pb_ID b \<in> is \<Longrightarrow> p b"
  shows "votes_ok (recounted cfg ts p d)"
  using assms by (auto simp: votes_ok_but_def votes_ok_def recounted_def votes_of_def table_simps)

lemma recounted_wf: "wf_db d \<Longrightarrow> wf_db (recounted cfg ts p d)"
  unfolding recounted_def by (rule wf_PackageBases_update) (simp_all add: wf_db_def refs_ok_def)

lemma recounted_ids: "user_ids (recounted cfg ts p d) = user_ids d"
  "base_ids (recounted cfg ts p d) = base_ids d"
  by (simp_all add: user_ids_def base_ids_def recounted_def update_where_keys)

text \<open>
  The popularity update repairs the counters: it sets the counter of every package base it
  covers to the number of its votes and the popularity to the sum of their weights, so that a
  full recount makes every counter right, whatever the counters were; nothing but the three
  columns changes, and running it again at the same time changes nothing.
\<close>

theorem popupdate_recounts:
  "run_variable cfg is w = (Inr (), w\<lparr>the_db := recounted cfg (now w)
      (\<lambda>b. if is \<noteq> [] then pb_ID b \<in> set is
           else pb_PopularityUpdated b \<le> now w - popularity_interval cfg) (the_db w)\<rparr>)
    \<and> ((base_ids (the_db w) \<subseteq> set is) \<longrightarrow> votes_ok (the_db (snd (run_variable cfg is w))))
    \<and> (is \<noteq> [] \<longrightarrow> run_variable cfg is (snd (run_variable cfg is w)) = run_variable cfg is w)"
proof -
  have run: "run_variable cfg is w = (Inr (), w\<lparr>the_db := recounted cfg (now w)
      (\<lambda>b. if is \<noteq> [] then pb_ID b \<in> set is
           else pb_PopularityUpdated b \<le> now w - popularity_interval cfg) (the_db w)\<rparr>)" for w
    by (rule run_eqI) (simp add: wp_run_variable)
  have votes: "votes_ok (recounted cfg ts p d)" if "\<And>b. b \<in> set (PackageBases d) \<Longrightarrow> p b" for ts p d
    using that by (auto simp: votes_ok_def recounted_def votes_of_def table_simps)
  have again: "recounted cfg ts p (recounted cfg ts p d) = recounted cfg ts p d"
    if "\<And>b. p b \<longleftrightarrow> pb_ID b \<in> set is" for ts p d
    using that by (auto simp: recounted_def update_where_def votes_of_def votes_on_def)
  have "votes_ok (the_db (snd (run_variable cfg is w)))" if sub: "base_ids (the_db w) \<subseteq> set is"
    unfolding run snd_conv using sub by (auto simp: base_ids_def intro!: votes)
  moreover have "run_variable cfg is (snd (run_variable cfg is w)) = run_variable cfg is w" if "is \<noteq> []"
    unfolding run using that again by simp
  ultimately show ?thesis
    using run by blast
qed

theorem popupdate_recounts_witness:
  "votes_ok (the_db (snd (run_variable default_config [10, 11] demo_world)))"
proof -
  have "base_ids demo_db \<subseteq> set [10, 11]"
    by code_simp
  with conjunct1 [OF conjunct2 [OF popupdate_recounts [of default_config "[10, 11]" demo_world]]]
  show ?thesis
    by (simp only: demo_the_db)
qed

end
