(* ===== verification/Pkgbase_Actions.thy ===== *)
theory Pkgbase_Actions
  imports Requests Pkgbase_Util
begin

text \<open>
  The actions of the web interface on a package base, \<open>aurweb/pkgbase/actions.py\<close>, and the
  validation of requests in \<open>aurweb/pkgbase/validate.py\<close>. \<open>user\<close> is the authenticated user of
  the request, \<open>pkgbase\<close> the row of the package base, whose ID and name never change; its
  maintainer and flagger are read from the database when they are used.
\<close>

definition flagger_of :: "nat \<Rightarrow> db \<Rightarrow> nat option" where
  "flagger_of i d = (case List.find (\<lambda>b. pb_ID b = i) (PackageBases d) of
     None \<Rightarrow> None | Some b \<Rightarrow> pb_FlaggerUID b)"

definition update_base :: "nat \<Rightarrow> (packagebases_row \<Rightarrow> packagebases_row) \<Rightarrow> unit aur" where
  "update_base i f = execute (\<lambda>d. d\<lparr>PackageBases := update_where (\<lambda>b. pb_ID b = i) f (PackageBases d)\<rparr>)"

section \<open>Notifications and flags\<close>

definition notification_of :: "nat \<Rightarrow> nat \<Rightarrow> packagenotifications_row \<Rightarrow> bool" where
  "notification_of uid i n \<longleftrightarrow> pn_UserID n = uid \<and> pn_PackageBaseID n = i"

definition retry_notify :: "users_row \<Rightarrow> packagebases_row \<Rightarrow> unit aur" where
  "retry_notify user pkgbase = retry_deadlock (transaction (insert_unless
     (\<lambda>d. list_ex (notification_of (u_ID user) (pb_ID pkgbase)) (PackageNotifications d))
     (\<lambda>d. d\<lparr>PackageNotifications := PackageNotifications d @
        [\<lparr>pn_PackageBaseID = pb_ID pkgbase, pn_UserID = u_ID user\<rparr>]\<rparr>)))"

definition pkgbase_notify_instance :: "users_row \<Rightarrow> packagebases_row \<Rightarrow> unit aur" where
  "pkgbase_notify_instance user pkgbase =
     andthen (query (\<lambda>d. list_ex (notification_of (u_ID user) (pb_ID pkgbase)) (PackageNotifications d)))
     (\<lambda>notif. whenp (has_credential (LoggedIn user) PKGBASE_NOTIFY [] \<and> \<not> notif)
       (retry_notify user pkgbase))"

definition retry_unnotify :: "packagenotifications_row \<Rightarrow> unit aur" where
  "retry_unnotify notif = retry_deadlock (transaction (execute (\<lambda>d. d\<lparr>PackageNotifications :=
     delete_where (notification_of (pn_UserID notif) (pn_PackageBaseID notif)) (PackageNotifications d)\<rparr>)))"

definition pkgbase_unnotify_instance :: "users_row \<Rightarrow> packagebases_row \<Rightarrow> unit aur" where
  "pkgbase_unnotify_instance user pkgbase =
     andthen (query (\<lambda>d. List.find (notification_of (u_ID user) (pb_ID pkgbase)) (PackageNotifications d)))
     (\<lambda>notif. case notif of
        None \<Rightarrow> ret ()
      | Some n \<Rightarrow> whenp (has_credential (LoggedIn user) PKGBASE_NOTIFY []) (retry_unnotify n))"

definition retry_unflag :: "packagebases_row \<Rightarrow> unit aur" where
  "retry_unflag pkgbase = retry_deadlock (transaction (update_base (pb_ID pkgbase)
     (\<lambda>b. b\<lparr>pb_OutOfDateTS := None, pb_FlaggerUID := None, pb_FlaggerComment := []\<rparr>)))"

definition unflaggers :: "nat \<Rightarrow> db \<Rightarrow> nat option list" where
  "unflaggers i d = [flagger_of i d, maintainer_of i d] @ map (Some \<circ> cm_UsersID) (comaintainers i d)"

definition pkgbase_unflag_instance :: "users_row \<Rightarrow> packagebases_row \<Rightarrow> unit aur" where
  "pkgbase_unflag_instance user pkgbase = andthen (query (unflaggers (pb_ID pkgbase))) (\<lambda>approved.
     whenp (has_credential (LoggedIn user) PKGBASE_UNFLAG approved) (retry_unflag pkgbase))"

section \<open>Disowning\<close>

definition delete_comaints :: "nat \<Rightarrow> unit aur" where
  "delete_comaints i = execute (\<lambda>d. d\<lparr>PackageComaintainers :=
     delete_where (\<lambda>c. cm_PackageBaseID c = i) (PackageComaintainers d)\<rparr>)"

text \<open>The three branches of \<open>_retry_disown\<close>, by who asks.\<close>

definition disown_as_maintainer :: "nat \<Rightarrow> notification list aur" where
  "disown_as_maintainer i = transaction (
     andthen (query (by_priority i)) (\<lambda>cs. case cs of
         [] \<Rightarrow> seqp (update_base i (\<lambda>b. b\<lparr>pb_MaintainerUID := None\<rparr>)) (ret [])
       | prio_comaint # _ \<Rightarrow>
           seqp (update_base i (\<lambda>b. b\<lparr>pb_MaintainerUID := Some (cm_UsersID prio_comaint)\<rparr>))
           (andthen (remove_comaintainer prio_comaint) (\<lambda>n. ret [n]))))"

definition disown_as_comaintainer :: "packagecomaintainers_row \<Rightarrow> notification list aur" where
  "disown_as_comaintainer comaint = transaction (andthen (remove_comaintainer comaint) (\<lambda>n. ret [n]))"

definition disown_as_privileged :: "config \<Rightarrow> users_row \<Rightarrow> packagebases_row \<Rightarrow> notification list aur" where
  "disown_as_privileged cfg user pkgbase =
     andthen (handle_request cfg user ORPHAN_ID pkgbase None [] None) (\<lambda>notifs.
     seqp (transaction (
       seqp (update_base (pb_ID pkgbase) (\<lambda>b. b\<lparr>pb_MaintainerUID := None\<rparr>))
            (delete_comaints (pb_ID pkgbase))))
     (ret notifs))"

definition retry_disown :: "config \<Rightarrow> users_row \<Rightarrow> packagebases_row \<Rightarrow> notification list aur" where
  "retry_disown cfg user pkgbase = retry_deadlock (
     andthen (query (maintainer_of (pb_ID pkgbase))) (\<lambda>maint.
     andthen (query (\<lambda>d. List.find (\<lambda>c. cm_UsersID c = u_ID user) (comaintainers (pb_ID pkgbase) d)))
       (\<lambda>comaint.
     if maint = Some (u_ID user) then disown_as_maintainer (pb_ID pkgbase)
     else case comaint of
         Some c \<Rightarrow> disown_as_comaintainer c
       | None \<Rightarrow>
           if has_credential (LoggedIn user) PKGBASE_DISOWN [] then disown_as_privileged cfg user pkgbase
           else ret [])))"

definition pkgbase_disown_instance :: "config \<Rightarrow> users_row \<Rightarrow> packagebases_row \<Rightarrow> unit aur" where
  "pkgbase_disown_instance cfg user pkgbase =
     andthen (retry_disown cfg user pkgbase) (\<lambda>notifs.
       for_each (DisownNotification (u_ID user) (pb_ID pkgbase) # notifs) send)"

section \<open>Adopting\<close>

definition retry_adopt :: "packagebases_row \<Rightarrow> nat \<Rightarrow> unit aur" where
  "retry_adopt pkgbase uid = retry_deadlock (transaction (update_base (pb_ID pkgbase)
     (\<lambda>b. b\<lparr>pb_MaintainerUID := Some uid\<rparr>)))"

definition retry_request_adoption :: "users_row \<Rightarrow> packagebases_row \<Rightarrow> packagerequests_row aur" where
  "retry_request_adoption user pkgbase = retry_deadlock (andthen utcnow (\<lambda>ts. transaction (
     create_request (\<lambda>i. autogenerated_request i ADOPTION_ID (u_ID user) pkgbase None [] ts))))"

definition pkgbase_adopt_instance ::
  "config \<Rightarrow> users_row \<Rightarrow> packagebases_row \<Rightarrow> packagerequests_row option \<Rightarrow> unit aur" where
  "pkgbase_adopt_instance cfg user pkgbase pkgreq =
     (if has_credential (LoggedIn user) PKGBASE_ADOPT [] then
        let (new_maintainer, accept_ids) = (case pkgreq of
              None \<Rightarrow> (u_ID user, [])
            | Some r \<Rightarrow> (case pr_UsersID r of None \<Rightarrow> (u_ID user, []) | Some uid \<Rightarrow> (uid, [pr_ID r]))) in
        seqp (retry_adopt pkgbase new_maintainer)
        (andthen (handle_request cfg user ADOPTION_ID pkgbase None [] (Some accept_ids)) (\<lambda>notifs.
          for_each (notifs @ [AdoptNotification new_maintainer (pb_ID pkgbase)]) send))
      else
        andthen (query (\<lambda>d. List.find (\<lambda>r. request_of pkgbase r \<and> pr_ReqTypeID r = ADOPTION_ID
          \<and> pr_Status r = PENDING_ID) (PackageRequests d))) (\<lambda>pending.
        if pending \<noteq> None then ret ()
        else andthen (retry_request_adoption user pkgbase) (\<lambda>pkgreq.
          send (RequestOpenNotification (u_ID user) (pr_ID pkgreq) ''adoption'' (pb_ID pkgbase) None))))"

section \<open>Deleting and merging\<close>

definition retry_delete :: "packagebases_row \<Rightarrow> string \<Rightarrow> unit aur" where
  "retry_delete pkgbase comments = retry_deadlock (transaction (
     seqp (update_closure_comment pkgbase DELETION_ID comments None)
     (execute (delete_pkgbases (\<lambda>b. pb_ID b = pb_ID pkgbase)))))"

definition pkgbase_delete_instance ::
  "config \<Rightarrow> users_row \<Rightarrow> packagebases_row \<Rightarrow> string \<Rightarrow> notification list aur" where
  "pkgbase_delete_instance cfg user pkgbase comments =
     andthen (handle_request cfg user DELETION_ID pkgbase None comments None) (\<lambda>notifs.
     seqp (retry_delete pkgbase comments)
     (ret (notifs @ [DeleteNotification (u_ID user) (pb_ID pkgbase)])))"

text \<open>The first half of a merge: what \<open>target\<close> takes over from \<open>pkgbase\<close>.\<close>

definition migrate :: "nat \<Rightarrow> nat \<Rightarrow> db \<Rightarrow> db" where
  "migrate i t d = (let target_votes = pv_UsersID ` set (votes_on t d);
       target_notifs = pn_UserID ` {n \<in> set (PackageNotifications d). pn_PackageBaseID n = t} in
     d\<lparr>PackageComments := update_where (\<lambda>c. pc_PackageBaseID c = i)
         (\<lambda>c. c\<lparr>pc_PackageBaseID := t\<rparr>) (PackageComments d),
       PackageNotifications := update_where (\<lambda>n. pn_PackageBaseID n = i \<and> pn_UserID n \<notin> target_notifs)
         (\<lambda>n. n\<lparr>pn_PackageBaseID := t\<rparr>) (PackageNotifications d),
       PackageVotes := update_where (\<lambda>v. pv_PackageBaseID v = i \<and> pv_UsersID v \<notin> target_votes)
         (\<lambda>v. v\<lparr>pv_PackageBaseID := t\<rparr>) (PackageVotes d)\<rparr>)"

definition retry_merge :: "config \<Rightarrow> packagebases_row \<Rightarrow> packagebases_row \<Rightarrow> unit aur" where
  "retry_merge cfg pkgbase target = retry_deadlock (
     seqp (transaction (execute (migrate (pb_ID pkgbase) (pb_ID target))))
     (seqp (run_single cfg (pb_ID target))
     (transaction (
       seqp (execute (delete_packages (\<lambda>p. pk_PackageBaseID p = pb_ID pkgbase)))
            (execute (delete_pkgbases (\<lambda>b. pb_ID b = pb_ID pkgbase)))))))"

definition pkgbase_merge_instance :: "config \<Rightarrow> users_row \<Rightarrow> packagebases_row \<Rightarrow> packagebases_row
    \<Rightarrow> string \<Rightarrow> unit aur" where
  "pkgbase_merge_instance cfg user pkgbase target comments =
     andthen (handle_request cfg user MERGE_ID pkgbase (Some target) comments None) (\<lambda>notifs.
     seqp (retry_merge cfg pkgbase target) (for_each notifs send))"

section \<open>Validation of requests\<close>

definition validate_request ::
  "config \<Rightarrow> packagebases_row \<Rightarrow> string \<Rightarrow> string \<Rightarrow> string \<Rightarrow> unit aur" where
  "validate_request cfg pkgbase type comments merge_into =
     seqp (validate_comment cfg comments)
     (if type = ''merge'' then
        seqp (guard (merge_into \<noteq> [])
          (Aurweb (ValidationError [''The \"Merge into\" field must not be empty.''])))
        (andthen (query (\<lambda>d. List.find (\<lambda>b. pb_Name b = merge_into) (PackageBases d))) (\<lambda>target.
         case target of
           None \<Rightarrow> raise (ValidationError
             [''The package base you want to merge into does not exist.''])
         | Some t \<Rightarrow> guard (pb_ID t \<noteq> pb_ID pkgbase) (Aurweb (ValidationError
             [''You cannot merge a package base into itself.'']))))
      else if type = ''adoption'' then
        andthen (query (maintainer_of (pb_ID pkgbase))) (\<lambda>m.
        seqp (guard (m = None) (Aurweb (ValidationError
          [''You cannot request adoption of a package base that already has a maintainer.''])))
        (andthen (query (\<lambda>d. List.find (\<lambda>r. request_of pkgbase r \<and> pr_ReqTypeID r = ADOPTION_ID
            \<and> pr_Status r = PENDING_ID) (PackageRequests d))) (\<lambda>pending.
         guard (pending = None) (Aurweb (ValidationError
          [''There is already a pending adoption request for this package base.''])))))
      else ret ())"

section \<open>The constraints\<close>

lemma ok_update_base:
  assumes "\<And>b. pb_ID (f b) = pb_ID b \<and> pb_Name (f b) = pb_Name b \<and> pb_NumVotes (f b) = pb_NumVotes b
      \<and> pb_SubmitterUID (f b) = pb_SubmitterUID b \<and> pb_PackagerUID (f b) = pb_PackagerUID b"
    and "\<And>b. pb_FlaggerUID (f b) = pb_FlaggerUID b \<or> refers (pb_FlaggerUID (f b)) U"
    and "\<And>b. pb_MaintainerUID (f b) = pb_MaintainerUID b \<or> refers (pb_MaintainerUID (f b)) U"
  shows "keeps_ok U B (update_base i f)"
  unfolding update_base_def
  by (intro db_inv_execute ok_PackageBases_update) (use assms in auto)

lemma ok_notify:
  assumes "u_ID user \<in> U" and "pb_ID b \<in> B"
  shows "keeps_ok U B (pkgbase_notify_instance user b)"
  unfolding pkgbase_notify_instance_def retry_notify_def
  by (intro keeps_intros ok_PackageNotifications_insert)
    (use assms in \<open>auto simp: list_ex_iff notification_of_def\<close>)

lemma ok_unnotify: "keeps_ok U B (pkgbase_unnotify_instance user b)"
  unfolding pkgbase_unnotify_instance_def retry_unnotify_def by (intro keeps_intros ok_intros)

lemma ok_unflag: "keeps_ok U B (pkgbase_unflag_instance user b)"
  unfolding pkgbase_unflag_instance_def retry_unflag_def
  by (intro keeps_intros ok_update_base) simp_all

lemma ok_delete_comaint: "keeps_ok U B (delete_comaint c)"
  unfolding delete_comaint_def by (intro keeps_intros ok_intros)

lemma ok_rotate: "keeps_ok U B (rotate_comaintainers i)"
  unfolding rotate_comaintainers_def split_beta by (intro keeps_intros ok_intros) simp_all

lemma ok_remove_comaintainer: "keeps_ok U B (remove_comaintainer c)"
  unfolding remove_comaintainer_def by (intro keeps_intros ok_rotate ok_delete_comaint)

lemma ok_remove_comaintainers: "keeps_ok U B (remove_comaintainers i names)"
  unfolding remove_comaintainers_def by (intro keeps_intros ok_rotate ok_delete_comaint)

lemma ok_add_comaintainer: "u \<in> U \<Longrightarrow> i \<in> B \<Longrightarrow> keeps_ok U B (add_comaintainer i u)"
  unfolding add_comaintainer_def by (intro keeps_intros ok_intros) simp_all

lemma find_users_in: "find_users d ns = Inr us \<Longrightarrow> set us \<subseteq> user_ids d"
  by (induction ns arbitrary: us)
    (auto simp: user_ids_def split: option.splits sum.splits dest!: find_SomeD)

lemma keeps_collect_in: "(\<And>x. x \<in> set xs \<Longrightarrow> keeps P (f x)) \<Longrightarrow> keeps P (collect xs f)"
  by (induction xs) (auto intro!: keeps_intros)

lemma ok_add_comaintainers:
  assumes "i \<in> B"
  shows "keeps_ok U B (add_comaintainers i names)"
proof (rule keepsI)
  fix w assume w: "db_inv (db_ok_on U B) w"
  have "keeps_ok U B (case find_users (the_db w) names of
     Inl name \<Rightarrow> ret (Some (''Invalid user name: '' @ name))
   | Inr uids \<Rightarrow> andthen (collect uids (add_comaintainer i)) (\<lambda>notifications.
       seqp (for_each notifications send) (ret None)))"
    using find_users_in [of "the_db w" names] db_inv_ids [OF w] assms
    by (auto split: sum.split intro!: keeps_intros keeps_collect_in ok_add_comaintainer)
  from keeps_wp [OF this w] show "wp (add_comaintainers i names) (\<lambda>_. db_inv (db_ok_on U B))
      (\<lambda>_. db_inv (db_ok_on U B)) w"
    by (simp add: add_comaintainers_def wp_simps)
qed

text \<open>The ranking refers to users, so the next in line is one.\<close>

lemma by_priority_user:
  assumes "wf_db d" and "by_priority i d = c # cs"
  shows "cm_UsersID c \<in> user_ids d"
proof -
  have "c \<in> set (by_priority i d)"
    using assms(2) by simp
  then show ?thesis
    using assms(1) by (simp add: by_priority_def comaintainers_def wf_db_def refs_ok_def)
qed

lemma ok_disown_as_maintainer: "keeps_ok U B (disown_as_maintainer i)"
proof (rule keepsI)
  fix w assume w: "db_inv (db_ok_on U B) w"
  have "wf_db (the_db w)" "user_ids (the_db w) = U"
    using w by (simp_all add: db_inv_def db_ok_on_wf) (simp add: db_ok_on_def)
  then have "keeps_ok U B (transaction (case by_priority i (the_db w) of
         [] \<Rightarrow> seqp (update_base i (\<lambda>b. b\<lparr>pb_MaintainerUID := None\<rparr>)) (ret [])
       | c # _ \<Rightarrow> seqp (update_base i (\<lambda>b. b\<lparr>pb_MaintainerUID := Some (cm_UsersID c)\<rparr>))
           (andthen (remove_comaintainer c) (\<lambda>n. ret [n]))))"
    using by_priority_user [of "the_db w" i]
    by (cases "by_priority i (the_db w)")
      (auto intro!: keeps_intros ok_update_base ok_remove_comaintainer)
  from keeps_wp [OF this w] show "wp (disown_as_maintainer i) (\<lambda>_. db_inv (db_ok_on U B))
      (\<lambda>_. db_inv (db_ok_on U B)) w"
    by (simp add: disown_as_maintainer_def wp_simps)
qed

lemma ok_disown_as_privileged:
  assumes "u_ID user \<in> U" and "pb_ID b \<in> B"
  shows "keeps_ok U B (disown_as_privileged cfg user b)"
  unfolding disown_as_privileged_def delete_comaints_def
  by (intro keeps_intros ok_intros ok_update_base ok_handle_request assms) simp_all

lemma ok_retry_disown:
  assumes "u_ID user \<in> U" and "pb_ID b \<in> B"
  shows "keeps_ok U B (retry_disown cfg user b)"
  unfolding retry_disown_def disown_as_comaintainer_def
  by (intro keeps_intros ok_disown_as_maintainer ok_disown_as_privileged ok_remove_comaintainer assms)

lemma ok_pkgbase_disown_instance:
  assumes "u_ID user \<in> U" and "pb_ID b \<in> B"
  shows "keeps_ok U B (pkgbase_disown_instance cfg user b)"
  unfolding pkgbase_disown_instance_def by (intro keeps_intros ok_retry_disown assms)

lemma ok_retry_adopt: "uid \<in> U \<Longrightarrow> keeps_ok U B (retry_adopt b uid)"
  unfolding retry_adopt_def by (intro keeps_intros ok_update_base) auto

lemma ok_pkgbase_adopt_instance:
  assumes "u_ID user \<in> U" and "pb_ID b \<in> B" and "\<And>r. pkgreq = Some r \<Longrightarrow> refers (pr_UsersID r) U"
  shows "keeps_ok U B (pkgbase_adopt_instance cfg user b pkgreq)"
  unfolding pkgbase_adopt_instance_def retry_request_adoption_def Let_def split_beta
  by (intro keeps_if keeps_intros ok_create_request)
    (use assms in \<open>auto simp: autogenerated_request_def split: option.splits
      intro!: ok_retry_adopt ok_handle_request\<close>)

section \<open>Who is left\<close>

definition with_base :: "nat \<Rightarrow> nat option \<Rightarrow> db \<Rightarrow> db" where
  "with_base i m d = d\<lparr>PackageBases := update_where (\<lambda>b. pb_ID b = i)
     (\<lambda>b. b\<lparr>pb_MaintainerUID := m\<rparr>) (PackageBases d)\<rparr>"

lemma maintainer_of_with_base:
  assumes "i \<in> base_ids d"
  shows "maintainer_of j (with_base i m d) = (if j = i then m else maintainer_of j d)"
proof -
  have "List.find (\<lambda>b. pb_ID b = j) (PackageBases (with_base i m d))
    = (if j = i then map_option (\<lambda>b. b\<lparr>pb_MaintainerUID := m\<rparr>) (List.find (\<lambda>b. pb_ID b = j) (PackageBases d))
       else List.find (\<lambda>b. pb_ID b = j) (PackageBases d))"
    using bases_table.lookup_update [of "\<lambda>b. b\<lparr>pb_MaintainerUID := m\<rparr>" j i d] by (simp add: with_base_def)
  moreover have "\<exists>b. List.find (\<lambda>b. pb_ID b = i) (PackageBases d) = Some b"
    using assms by (auto simp: find_Some_iff_ex base_ids_def)
  ultimately show ?thesis
    by (auto simp: maintainer_of_def)
qed

lemma with_base_comaints [simp]:
  "by_priority j (with_base i m d) = by_priority j d" "ranking j (with_base i m d) = ranking j d"
  "comaints_distinct j (with_base i m d) = comaints_distinct j d"
  "PackageComaintainers (with_base i m d) = PackageComaintainers d"
  by (simp_all add: with_base_def by_priority_def ranking_def comaintainers_def comaints_distinct_def)

text \<open>Taking one co-maintainer out, the way the code does: renumber, then delete.\<close>

definition without_comaint :: "nat \<Rightarrow> nat \<Rightarrow> db \<Rightarrow> db" where
  "without_comaint i u d = (renumber i d)\<lparr>PackageComaintainers := delete_where
     (\<lambda>x. cm_PackageBaseID x = i \<and> cm_UsersID x \<in> {u}) (PackageComaintainers (renumber i d))\<rparr>"

lemma ranking_without:
  "comaints_distinct i d \<Longrightarrow> ranking i (without_comaint i u d) = filter (\<lambda>x. x \<noteq> u) (ranking i d)"
  unfolding without_comaint_def ranking_delete by (simp add: ranking_renumber)

lemma maintainer_of_without [simp]: "maintainer_of j (without_comaint i u d) = maintainer_of j d"
  by (simp add: maintainer_of_def without_comaint_def renumber_def)

text \<open>
  The numbers after a single removal keep the gap: the query that renumbers still sees the row
  that goes.
\<close>

lemma priorities_without:
  assumes "comaints_distinct i d"
  shows "map cm_Priority (by_priority i (without_comaint i u d))
    = filter (\<lambda>p. p \<noteq> position (ranking i d) u + 1 \<or> u \<notin> set (ranking i d)) [1..<Suc (length (ranking i d))]"
proof -
  let ?rs = "by_priority i (renumber i d)"
  have after: "by_priority i (without_comaint i u d) = filter (\<lambda>c. cm_UsersID c \<noteq> u) ?rs"
    unfolding by_priority_def without_comaint_def comaintainers_delete by (simp add: filter_sort)
  have rs: "?rs = map (\<lambda>c. c\<lparr>cm_Priority := position (ranking i d) (cm_UsersID c) + 1\<rparr>) (by_priority i d)"
    by (rule by_priority_renumber [OF assms])
  have inj: "position (ranking i d) x = position (ranking i d) u \<longleftrightarrow> x = u"
    if "x \<in> set (ranking i d)" "u \<in> set (ranking i d)" for x
    using that position_nth [OF distinct_ranking [OF assms]] by (metis in_set_conv_nth)
  have eq: "cm_UsersID c \<noteq> u \<longleftrightarrow> cm_Priority c \<noteq> position (ranking i d) u + 1 \<or> u \<notin> set (ranking i d)"
    if "c \<in> set ?rs" for c
    using that inj unfolding rs by (auto simp: ranking_def)
  have "map cm_Priority (filter (\<lambda>c. cm_UsersID c \<noteq> u) ?rs)
      = map cm_Priority (filter (\<lambda>c. cm_Priority c \<noteq> position (ranking i d) u + 1 \<or> u \<notin> set (ranking i d)) ?rs)"
    by (intro arg_cong [of _ _ "map cm_Priority"] filter_cong refl eq)
  also have "\<dots> = filter (\<lambda>p. p \<noteq> position (ranking i d) u + 1 \<or> u \<notin> set (ranking i d)) (map cm_Priority ?rs)"
    by (simp add: filter_map comp_def)
  finally show ?thesis
    unfolding after priorities_renumber [OF assms] .
qed

lemma wp_remove_comaintainer_eq:
  assumes "comaints_distinct (cm_PackageBaseID c) (the_db w)"
  shows "wp (remove_comaintainer c) Q E w =
    Q (ComaintainerRemoveNotification (cm_UsersID c) (cm_PackageBaseID c))
      (w\<lparr>the_db := without_comaint (cm_PackageBaseID c) (cm_UsersID c) (the_db w)\<rparr>)"
  unfolding wp_remove_comaintainer [OF assms] without_comaint_def ..

lemma wp_update_maintainer: "wp (update_base i (\<lambda>b. b\<lparr>pb_MaintainerUID := m\<rparr>)) Q E w
    = Q () (w\<lparr>the_db := with_base i m (the_db w)\<rparr>)"
  by (simp add: update_base_def with_base_def wp_simps)

text \<open>The database after \<open>disown\<close>, for the users who need no request.\<close>

definition disowned_db :: "nat \<Rightarrow> nat \<Rightarrow> db \<Rightarrow> db" where
  "disowned_db u i d = (if maintainer_of i d = Some u then (case ranking i d of
       [] \<Rightarrow> with_base i None d
     | m # _ \<Rightarrow> without_comaint i m (with_base i (Some m) d))
     else without_comaint i u d)"

lemma by_priority_base:
  assumes "by_priority i d = c # cs"
  shows "cm_PackageBaseID c = i" and "ranking i d = cm_UsersID c # map cm_UsersID cs"
proof -
  have "c \<in> set (by_priority i d)"
    using assms by simp
  then show "cm_PackageBaseID c = i" "ranking i d = cm_UsersID c # map cm_UsersID cs"
    using assms by (simp_all add: by_priority_def comaintainers_def ranking_def)
qed

lemma wp_disown_as_maintainer:
  assumes "comaints_distinct i (the_db w)" and "maintainer_of i (the_db w) = Some u"
  shows "wp (disown_as_maintainer i) (\<lambda>_ w'. the_db w' = disowned_db u i (the_db w)) (\<lambda>_ _. False) w"
proof (cases "by_priority i (the_db w)")
  case Nil
  then show ?thesis
    using assms(2) by (simp add: disown_as_maintainer_def wp_simps wp_update_maintainer disowned_db_def
        ranking_def)
next
  case (Cons c cs)
  show ?thesis
    unfolding disown_as_maintainer_def wp_transaction wp_andthen wp_query Cons list.case wp_seqp
      wp_update_maintainer
    by (subst wp_remove_comaintainer_eq)
      (use assms by_priority_base [OF Cons] in \<open>simp_all add: wp_ret disowned_db_def\<close>)
qed

lemma find_comaintainer: "List.find (\<lambda>c. cm_UsersID c = u) (comaintainers i d) = Some c
    \<Longrightarrow> cm_UsersID c = u \<and> cm_PackageBaseID c = i"
  by (auto simp: comaintainers_def dest!: find_SomeD)

lemma find_comaintainer_iff:
  "(\<exists>c. List.find (\<lambda>c. cm_UsersID c = u) (comaintainers i d) = Some c) \<longleftrightarrow> u \<in> set (ranking i d)"
  unfolding find_Some_iff_ex set_ranking by auto

lemma wp_disown_own:
  assumes "comaints_distinct (pb_ID b) (the_db w)"
    and "maintainer_of (pb_ID b) (the_db w) = Some (u_ID user) \<or> u_ID user \<in> set (ranking (pb_ID b) (the_db w))"
  shows "wp (retry_disown cfg user b)
    (\<lambda>_ w'. the_db w' = disowned_db (u_ID user) (pb_ID b) (the_db w)) (\<lambda>_ _. False) w"
proof (cases "maintainer_of (pb_ID b) (the_db w) = Some (u_ID user)")
  case True
  show ?thesis
    unfolding retry_disown_def
    by (rule wp_retry_deadlock, unfold wp_andthen wp_query if_P [OF True])
      (rule wp_mono [OF wp_disown_as_maintainer [OF assms(1) True]]; simp)
next
  case False
  with assms(2) obtain c where
    c: "List.find (\<lambda>c. cm_UsersID c = u_ID user) (comaintainers (pb_ID b) (the_db w)) = Some c"
    using find_comaintainer_iff by blast
  from find_comaintainer [OF c] False assms(1) show ?thesis
    unfolding retry_disown_def
    by (intro wp_retry_deadlock)
      (simp add: wp_andthen wp_query c disown_as_comaintainer_def wp_transaction
        wp_remove_comaintainer_eq wp_ret disowned_db_def)
qed

lemma wp_disown_as_privileged:
  assumes "wf_db (the_db w)" and "pb_Name b \<noteq> []" and "pb_ID b \<in> base_ids (the_db w)"
  shows "wp (disown_as_privileged cfg user b)
    (\<lambda>_ w'. orphan_due cfg b (now w) (the_db w) \<and> maintainer_of (pb_ID b) (the_db w') = None
       \<and> ranking (pb_ID b) (the_db w') = [])
    (\<lambda>e w'. \<not> orphan_due cfg b (now w) (the_db w) \<and> w' = w \<and> (\<forall>msg. e \<noteq> OperationalError msg)) w"
proof (cases "orphan_due cfg b (now w) (the_db w)")
  case True
  have dist: "distinct (map pr_ID (PackageRequests (the_db w)))"
    using assms(1) by (simp add: wf_db_def unique_ok_def)
  have can: "can_handle ORPHAN_ID None None"
    by (simp add: can_handle_def closable_def request_ids)
  show ?thesis
    unfolding disown_as_privileged_def wp_andthen
  proof (rule wp_handle_request [OF dist assms(2) can])
    fix w' rs and ns :: "notification list"
    assume w': "w' = w\<lparr>the_db := (the_db w)\<lparr>PackageRequests := rs\<rparr>\<rparr>"
    have "pb_ID b \<in> base_ids ((the_db w)\<lparr>PackageRequests := rs\<rparr>)"
      using assms(3) by (simp add: base_ids_def)
    from maintainer_of_with_base [OF this, of "pb_ID b" None]
    have "maintainer_of (pb_ID b) (with_base (pb_ID b) None ((the_db w)\<lparr>PackageRequests := rs\<rparr>)) = None"
      by simp
    moreover have "maintainer_of i (d\<lparr>PackageComaintainers := cs\<rparr>) = maintainer_of i d" for i d cs
      by (simp add: maintainer_of_def)
    moreover have "ranking i (d\<lparr>PackageComaintainers := delete_where (\<lambda>c. cm_PackageBaseID c = i) cs\<rparr>) = []"
      for i d cs
      by (simp add: ranking_def by_priority_def comaintainers_def delete_where_def filter_empty_conv)
    ultimately show "wp (seqp (transaction (seqp (update_base (pb_ID b) (\<lambda>b. b\<lparr>pb_MaintainerUID := None\<rparr>))
          (delete_comaints (pb_ID b)))) (ret ns))
        (\<lambda>_ w'. orphan_due cfg b (now w) (the_db w) \<and> maintainer_of (pb_ID b) (the_db w') = None
          \<and> ranking (pb_ID b) (the_db w') = [])
        (\<lambda>e w'. \<not> orphan_due cfg b (now w) (the_db w) \<and> w' = w \<and> (\<forall>msg. e \<noteq> OperationalError msg)) w'"
      using True w' by (simp add: wp_simps wp_update_maintainer delete_comaints_def)
  qed (simp add: True)
next
  case False
  note refused = handle_orphan_not_due [OF False, of user None "[]" None]
  show ?thesis
    unfolding disown_as_privileged_def wp_andthen
    by (subst wp_of_Inl, rule refused) (simp add: False)
qed

lemma ranking_disowned:
  assumes "comaints_distinct i d"
  shows "ranking i (disowned_db u i d) = (if maintainer_of i d = Some u then tl (ranking i d)
     else filter (\<lambda>x. x \<noteq> u) (ranking i d))"
proof -
  have "filter (\<lambda>x. x \<noteq> m) ms = ms" if "ranking i d = m # ms" for m ms
    using distinct_ranking [OF assms] that by (auto simp: filter_id_conv)
  with assms show ?thesis
    by (auto simp: disowned_db_def ranking_without split: list.splits)
qed

lemma maintainer_disowned:
  assumes "i \<in> base_ids d"
  shows "maintainer_of i (disowned_db u i d) = (if maintainer_of i d = Some u then
     (case ranking i d of [] \<Rightarrow> None | m # _ \<Rightarrow> Some m) else maintainer_of i d)"
  by (auto simp: disowned_db_def maintainer_of_with_base [OF assms] split: list.splits)

text \<open>
  C5. Disowning on the web: the maintainer's package base goes to the first of the ranking, who
  leaves it, or becomes an orphan; a co-maintainer only leaves the ranking; a user with the
  credential orphans the package base and clears the ranking, but only when an orphan request
  is due; for everyone else nothing changes.
\<close>

theorem disown_outcome:
  assumes "wf_db (the_db w)" and "b \<in> set (PackageBases (the_db w))" and "pb_Name b \<noteq> []"
    and "comaints_distinct (pb_ID b) (the_db w)"
  shows "let d = the_db w; i = pb_ID b; u = u_ID user; r = pkgbase_disown_instance cfg user b w;
      d' = the_db (snd r) in
    if maintainer_of i d = Some u then fst r = Inr () \<and> ranking i d' = tl (ranking i d)
      \<and> maintainer_of i d' = (case ranking i d of [] \<Rightarrow> None | m # _ \<Rightarrow> Some m)
    else if u \<in> set (ranking i d) then fst r = Inr () \<and> maintainer_of i d' = maintainer_of i d
      \<and> ranking i d' = filter (\<lambda>x. x \<noteq> u) (ranking i d)
    else if has_credential (LoggedIn user) PKGBASE_DISOWN [] then
      if orphan_due cfg b (now w) d then fst r = Inr () \<and> maintainer_of i d' = None \<and> ranking i d' = []
      else (\<exists>e. fst r = Inl e) \<and> d' = d
    else fst r = Inr () \<and> d' = d"
proof -
  let ?d = "the_db w" and ?i = "pb_ID b"
  have base: "?i \<in> base_ids ?d"
    using assms(2) by (simp add: base_ids_def)
  have run: "wp (pkgbase_disown_instance cfg user b) (\<lambda>_ w'. P (the_db w')) E w"
    if "wp (retry_disown cfg user b) (\<lambda>_ w'. P (the_db w')) E w" for P E
    unfolding pkgbase_disown_instance_def wp_andthen
    by (rule wp_mono [OF that]; (rule wp_send_all)?; simp)
  show ?thesis
  proof (cases "maintainer_of ?i ?d = Some (u_ID user) \<or> u_ID user \<in> set (ranking ?i ?d)")
    case True
    from run [OF wp_disown_own [OF assms(4) True]] True show ?thesis
      by (auto simp: wp_def Let_def ranking_disowned [OF assms(4)] maintainer_disowned [OF base]
          split: prod.splits sum.splits)
  next
    case False
    then have none: "List.find (\<lambda>c. cm_UsersID c = u_ID user) (comaintainers ?i ?d) = None"
      using find_comaintainer_iff by (metis option.exhaust)
    show ?thesis
    proof (cases "has_credential (LoggedIn user) PKGBASE_DISOWN []")
      case True
      have "wp (retry_disown cfg user b) (\<lambda>_ w'. orphan_due cfg b (now w) ?d
            \<and> maintainer_of ?i (the_db w') = None \<and> ranking ?i (the_db w') = [])
          (\<lambda>e w'. \<not> orphan_due cfg b (now w) ?d \<and> w' = w) w"
        unfolding retry_disown_def
        by (rule wp_retry_deadlock, unfold wp_andthen wp_query none if_P [OF True] option.case)
          (use False wp_disown_as_privileged [OF assms(1,3) base, of cfg user] in \<open>simp add: conj_assoc\<close>)
      from run [OF this] False True show ?thesis
        by (auto simp: wp_def Let_def split: prod.splits sum.splits)
    next
      case no: False
      have "wp (retry_disown cfg user b) (\<lambda>_ w'. the_db w' = ?d) (\<lambda>_ _. False) w"
        unfolding retry_disown_def
        by (rule wp_retry_deadlock, unfold wp_andthen wp_query none if_not_P [OF no] option.case)
          (use False in \<open>simp add: wp_ret\<close>)
      from run [OF this] False no show ?thesis
        by (auto simp: wp_def Let_def split: prod.splits sum.splits)
    qed
  qed
qed

theorem disown_outcome_witness:
  "let r = pkgbase_disown_instance default_config demo_bob demo_base demo_world in
    fst r = Inr () \<and> ranking 10 (the_db (snd r)) = [3] \<and> maintainer_of 10 (the_db (snd r)) = Some 1"
proof -
  have d: "demo_base \<in> set (PackageBases demo_db)" "pb_Name demo_base \<noteq> []"
    "comaints_distinct (pb_ID demo_base) demo_db" "pb_ID demo_base = 10"
    "ranking 10 demo_db = [1, 3]" "maintainer_of 10 demo_db = Some 2" "u_ID demo_bob = 2"
    by (code_simp+)
  from disown_outcome [of demo_world demo_base demo_bob default_config,
      unfolded demo_the_db, OF demo_wf d(1-3)] show ?thesis
    by (simp add: Let_def d(4-7))
qed

text \<open>
  Leaving a ranking on the web keeps the order of the others but not the numbering 1, 2, ...
  that \<open>rotate_comaintainers\<close> promises: the number of the one who leaves stays unused, because
  the renumbering still counts the row that is about to go.
\<close>

theorem leaving_keeps_gap:
  assumes "comaints_distinct (cm_PackageBaseID c) (the_db w)"
    and "c \<in> set (comaintainers (cm_PackageBaseID c) (the_db w))"
  shows "map cm_Priority (by_priority (cm_PackageBaseID c) (the_db (snd (remove_comaintainer c w))))
    = filter (\<lambda>p. p \<noteq> position (ranking (cm_PackageBaseID c) (the_db w)) (cm_UsersID c) + 1)
        [1..<Suc (length (ranking (cm_PackageBaseID c) (the_db w)))]"
proof -
  have "the_db (snd (remove_comaintainer c w)) = without_comaint (cm_PackageBaseID c) (cm_UsersID c) (the_db w)"
    unfolding snd_wp [of "\<lambda>x. the_db x = _"] wp_remove_comaintainer_eq [OF assms(1)] by simp
  moreover have "cm_UsersID c \<in> set (ranking (cm_PackageBaseID c) (the_db w))"
    using assms(2) by (auto simp: set_ranking)
  ultimately show ?thesis
    by (simp add: priorities_without [OF assms(1)])
qed

theorem leaving_keeps_gap_witness:
  "map cm_Priority (by_priority 10 (the_db (snd (remove_comaintainer
      \<lparr>cm_UsersID = 1, cm_PackageBaseID = 10, cm_Priority = 1\<rparr> demo_world)))) = [2]"
proof -
  let ?c = "\<lparr>cm_UsersID = 1, cm_PackageBaseID = 10, cm_Priority = 1\<rparr>"
  have d: "comaints_distinct (cm_PackageBaseID ?c) demo_db" "?c \<in> set (comaintainers (cm_PackageBaseID ?c) demo_db)"
    "filter (\<lambda>p. p \<noteq> position (ranking 10 demo_db) 1 + 1) [1..<Suc (length (ranking 10 demo_db))] = [2]"
    by (code_simp+)
  from leaving_keeps_gap [of ?c demo_world, unfolded demo_the_db, OF d(1,2)] show ?thesis
    unfolding packagecomaintainers_row.select_convs d(3) .
qed

section \<open>Adoption on the web\<close>

text \<open>Who gets the package base, and which request that grants.\<close>

definition grant :: "users_row \<Rightarrow> packagerequests_row option \<Rightarrow> nat \<times> nat list" where
  "grant user pkgreq = (case pkgreq of None \<Rightarrow> (u_ID user, [])
     | Some r \<Rightarrow> (case pr_UsersID r of None \<Rightarrow> (u_ID user, []) | Some uid \<Rightarrow> (uid, [pr_ID r])))"

definition pending_adoption :: "packagebases_row \<Rightarrow> db \<Rightarrow> bool" where
  "pending_adoption b d \<longleftrightarrow> (\<exists>r \<in> set (PackageRequests d). request_of b r
     \<and> pr_ReqTypeID r = ADOPTION_ID \<and> pr_Status r = PENDING_ID)"

lemma wp_retry_adopt: "wp (retry_adopt b uid) Q E w = Q () (w\<lparr>the_db := with_base (pb_ID b) (Some uid) (the_db w)\<rparr>)"
  unfolding retry_adopt_def by (rule wp_retry_deadlock_ret) (simp add: wp_simps wp_update_maintainer)

lemma wp_retry_request_adoption:
  assumes "pb_Name b \<noteq> []"
  shows "wp (retry_request_adoption user b) Q E w = (let r = autogenerated_request
      (next_id (map pr_ID (PackageRequests (the_db w)))) ADOPTION_ID (u_ID user) b None [] (now w) in
    Q r (w\<lparr>the_db := (the_db w)\<lparr>PackageRequests := PackageRequests (the_db w) @ [r]\<rparr>\<rparr>))"
  unfolding retry_request_adoption_def Let_def
  by (rule wp_retry_deadlock_ret) (simp add: wp_simps create_request_def autogenerated_request_def assms)

text \<open>
  C4. Only a user with the credential makes someone a maintainer: the user themselves, or the
  author of the request that is granted; that request is accepted and every other pending
  adoption request of the package base is rejected. Anyone else only files a request, and none
  when one is pending already.
\<close>

theorem adopt_outcome:
  assumes "wf_db (the_db w)" and "pb_Name b \<noteq> []"
  shows "let d = the_db w; r = pkgbase_adopt_instance cfg user b pkgreq w; d' = the_db (snd r);
      (m, ids) = grant user pkgreq in
    fst r = Inr () \<and>
    (if has_credential (LoggedIn user) PKGBASE_ADOPT [] then
       \<exists>rs. d' = (with_base (pb_ID b) (Some m) d)\<lparr>PackageRequests := rs\<rparr>
         \<and> settled (u_ID user) (now w) ADOPTION_ID b None [] (Some ids) (PackageRequests d) rs
     else if pending_adoption b d then d' = d
     else d' = d\<lparr>PackageRequests := PackageRequests d @ [autogenerated_request
       (next_id (map pr_ID (PackageRequests d))) ADOPTION_ID (u_ID user) b None [] (now w)]\<rparr>)"
proof -
  let ?d = "the_db w"
  obtain m ids where g: "grant user pkgreq = (m, ids)"
    by (cases "grant user pkgreq") auto
  show ?thesis
  proof (cases "has_credential (LoggedIn user) PKGBASE_ADOPT []")
    case True
    have dist: "distinct (map pr_ID (PackageRequests (the_db (w\<lparr>the_db := with_base (pb_ID b) (Some m) ?d\<rparr>))))"
      using assms(1) by (simp add: wf_db_def unique_ok_def with_base_def)
    have can: "can_handle ADOPTION_ID None (Some ids)"
      by (simp add: can_handle_def closable_def request_ids)
    have "wp (seqp (retry_adopt b m) (andthen (handle_request cfg user ADOPTION_ID b None [] (Some ids))
        (\<lambda>notifs. for_each (notifs @ [AdoptNotification m (pb_ID b)]) send)))
      (\<lambda>_ w'. \<exists>rs. the_db w' = (with_base (pb_ID b) (Some m) ?d)\<lparr>PackageRequests := rs\<rparr>
         \<and> settled (u_ID user) (now w) ADOPTION_ID b None [] (Some ids) (PackageRequests ?d) rs) (\<lambda>_ _. False) w"
      unfolding wp_seqp wp_retry_adopt wp_andthen
      by (rule wp_handle_request [OF dist assms(2) can])
        (auto simp: request_ids with_base_def intro!: wp_send_all)
    with True g show ?thesis
      by (auto simp: Let_def pkgbase_adopt_instance_def grant_def [symmetric] wp_def
          split: prod.splits sum.splits)
  next
    case False
    have found: "(List.find (\<lambda>r. request_of b r \<and> pr_ReqTypeID r = ADOPTION_ID
          \<and> pr_Status r = PENDING_ID) (PackageRequests ?d) \<noteq> None) = pending_adoption b ?d"
      by (auto simp: pending_adoption_def find_None_iff)
    have "wp (pkgbase_adopt_instance cfg user b pkgreq)
      (\<lambda>_ w'. if pending_adoption b ?d then the_db w' = ?d
        else the_db w' = ?d\<lparr>PackageRequests := PackageRequests ?d @ [autogenerated_request
       (next_id (map pr_ID (PackageRequests ?d))) ADOPTION_ID (u_ID user) b None [] (now w)]\<rparr>) (\<lambda>_ _. False) w"
      unfolding pkgbase_adopt_instance_def if_not_P [OF False] wp_andthen wp_query found wp_if
      by (simp add: wp_ret wp_andthen wp_retry_request_adoption [OF assms(2)] wp_send)
    with False g show ?thesis
      by (auto simp: Let_def wp_def split: prod.splits sum.splits)
  qed
qed

theorem adopt_outcome_witness:
  "fst (pkgbase_adopt_instance default_config demo_bob demo_base None demo_world) = Inr ()
    \<and> the_db (snd (pkgbase_adopt_instance default_config demo_bob demo_base None demo_world))
      = demo_db\<lparr>PackageRequests := PackageRequests demo_db @ [autogenerated_request
          (next_id (map pr_ID (PackageRequests demo_db))) ADOPTION_ID 2 demo_base None [] 1000]\<rparr>"
proof -
  have d: "pb_Name demo_base \<noteq> []" "\<not> has_credential (LoggedIn demo_bob) PKGBASE_ADOPT []"
    "\<not> pending_adoption demo_base demo_db" "u_ID demo_bob = 2"
    by (code_simp+)
  from adopt_outcome [of demo_world demo_base default_config demo_bob None,
      unfolded demo_the_db, OF demo_wf d(1)] d(2-4) show ?thesis
    by (simp add: Let_def split_beta)
qed

end
