(* ===== verification/Pkgbase_Merge.thy ===== *)
theory Pkgbase_Merge
  imports Pkgbase_Actions
begin

text \<open>
  What deleting and merging a package base does to the database (\<open>pkgbase_delete_instance\<close> and
  \<open>pkgbase_merge_instance\<close> of \<open>aurweb/pkgbase/actions.py\<close>): the votes, watchers and comments a
  merge carries over, the rows a delete takes along, and the constraints both keep.
\<close>

section \<open>Deleting and merging, on the database\<close>

lemma distinct_map_map:
  assumes "distinct (map k rs)"
    and "\<And>r s. r \<in> set rs \<Longrightarrow> s \<in> set rs \<Longrightarrow> k (f r) = k (f s) \<Longrightarrow> k r = k s"
  shows "distinct (map k (map f rs))"
  using assms by (induction rs) (auto simp: image_iff)

text \<open>Moving rows to another package base keeps a unique index when the moved keys are free.\<close>

lemma distinct_move:
  fixes rs :: "'r list" and ku kb :: "'r \<Rightarrow> nat"
  assumes "distinct (map (\<lambda>r. (ku r, kb r)) rs)"
    and "\<And>r. p r \<Longrightarrow> kb r = i" and "\<And>r. p r \<Longrightarrow> ku r \<notin> ku ` {s \<in> set rs. kb s = t}"
    and "\<And>r. ku (f r) = ku r" and "\<And>r. kb (f r) = t"
  shows "distinct (map (\<lambda>r. (ku r, kb r)) (update_where p f rs))"
  unfolding update_where_def
proof (rule distinct_map_map [OF assms(1)])
  fix r s
  assume rs: "r \<in> set rs" "s \<in> set rs"
    and eq: "(ku (if p r then f r else r), kb (if p r then f r else r))
      = (ku (if p s then f s else s), kb (if p s then f s else s))"
  show "(ku r, kb r) = (ku s, kb s)"
  proof (cases "p r \<longleftrightarrow> p s")
    case True
    with eq assms(2,4) show ?thesis
      by (cases "p r") (simp_all add: assms(2))
  next
    case False
    have no: False if "p x" "\<not> p y" "ku x = ku y" "kb y = t" "y \<in> set rs" for x y
      using assms(3) [OF that(1)] that by (auto simp: image_iff)
    from False eq rs no [of r s] no [of s r] show ?thesis
      by (cases "p r") (simp_all add: assms(4,5))
  qed
qed

lemma migrate_wf:
  assumes "wf_db d" and "t \<in> base_ids d"
  shows "wf_db (migrate i t d)"
proof -
  have u: "unique_ok d" and r: "refs_ok d"
    using assms(1) by (simp_all add: wf_db_def)
  have "distinct (map (\<lambda>v. (pv_UsersID v, pv_PackageBaseID v)) (PackageVotes (migrate i t d)))"
    unfolding migrate_def Let_def
    using distinct_move [of pv_UsersID pv_PackageBaseID "PackageVotes d"
        "\<lambda>v. pv_PackageBaseID v = i \<and> pv_UsersID v \<notin> pv_UsersID ` set (votes_on t d)" i t
        "\<lambda>v. v\<lparr>pv_PackageBaseID := t\<rparr>"] u
    by (simp add: unique_ok_def votes_on_def)
  moreover have "distinct (map (\<lambda>n. (pn_UserID n, pn_PackageBaseID n)) (PackageNotifications (migrate i t d)))"
    unfolding migrate_def Let_def
    using distinct_move [of pn_UserID pn_PackageBaseID "PackageNotifications d"
        "\<lambda>n. pn_PackageBaseID n = i \<and> pn_UserID n \<notin> pn_UserID ` {n \<in> set (PackageNotifications d). pn_PackageBaseID n = t}" i t
        "\<lambda>n. n\<lparr>pn_PackageBaseID := t\<rparr>"] u
    by (simp add: unique_ok_def)
  ultimately have "unique_ok (migrate i t d)"
    using u by (simp add: unique_ok_def migrate_def Let_def map_update_where_same)
  moreover have "refs_ok (migrate i t d)"
    using r assms(2)
    by (auto simp: refs_ok_def migrate_def Let_def user_ids_def base_ids_def ball_update_where)
  ultimately show ?thesis by (simp add: wf_db_def)
qed

lemma migrate_same [simp]: "user_ids (migrate i t d) = user_ids d" "base_ids (migrate i t d) = base_ids d"
  "PackageBases (migrate i t d) = PackageBases d" "Users (migrate i t d) = Users d"
  by (simp_all add: migrate_def Let_def user_ids_def base_ids_def)

definition voters :: "nat \<Rightarrow> db \<Rightarrow> nat set" where
  "voters i d = pv_UsersID ` set (votes_on i d)"

definition watchers :: "nat \<Rightarrow> db \<Rightarrow> nat set" where
  "watchers i d = pn_UserID ` {n \<in> set (PackageNotifications d). pn_PackageBaseID n = i}"

definition comment_ids :: "nat \<Rightarrow> db \<Rightarrow> nat set" where
  "comment_ids i d = pc_ID ` {c \<in> set (PackageComments d). pc_PackageBaseID c = i}"

lemma moved_keys:
  fixes ku kb :: "'r \<Rightarrow> nat"
  assumes "\<And>r. kb (f r) = t" and "\<And>r. ku (f r) = ku r" and "i \<noteq> t"
    and "\<And>r. p r \<longleftrightarrow> kb r = i \<and> ku r \<notin> X" and "X \<subseteq> ku ` {r \<in> set rs. kb r = t}"
  shows "ku ` {r \<in> set (update_where p f rs). kb r = t}
    = ku ` {r \<in> set rs. kb r = t} \<union> ku ` {r \<in> set rs. kb r = i}"
proof -
  have mem: "u \<in> ku ` {r \<in> R. kb r = a} \<longleftrightarrow> (\<exists>r \<in> R. kb r = a \<and> ku r = u)" for u R a
    by blast
  show ?thesis
  proof (rule set_eqI)
    fix u
    have row: "(kb (if p r then f r else r) = t \<and> ku (if p r then f r else r) = u)
        \<longleftrightarrow> (kb r = t \<or> kb r = i \<and> ku r \<notin> X) \<and> ku r = u" for r
      by (auto simp: assms(1,2,4))
    have X: "u \<in> X \<Longrightarrow> \<exists>r \<in> set rs. kb r = t \<and> ku r = u"
      using assms(5) by blast
    show "u \<in> ku ` {r \<in> set (update_where p f rs). kb r = t} \<longleftrightarrow>
        u \<in> ku ` {r \<in> set rs. kb r = t} \<union> ku ` {r \<in> set rs. kb r = i}"
      unfolding Un_iff mem bex_update_where row using X by blast
  qed
qed

lemma migrate_votes:
  assumes "i \<noteq> t"
  shows "voters t (migrate i t d) = voters t d \<union> voters i d"
    and "j \<noteq> i \<Longrightarrow> j \<noteq> t \<Longrightarrow> votes_of j (migrate i t d) = votes_of j d"
proof -
  show "voters t (migrate i t d) = voters t d \<union> voters i d"
    unfolding voters_def votes_on_def migrate_def Let_def
    using moved_keys [where ku = pv_UsersID and kb = pv_PackageBaseID and rs = "PackageVotes d"
        and X = "pv_UsersID ` set (votes_on t d)" and f = "\<lambda>v. v\<lparr>pv_PackageBaseID := t\<rparr>", OF _ _ assms]
    by (simp add: votes_on_def)
  have count: "count_where (\<lambda>v. pv_PackageBaseID v = j) (update_where p (\<lambda>v. v\<lparr>pv_PackageBaseID := t\<rparr>) vs)
      = count_where (\<lambda>v. pv_PackageBaseID v = j) vs"
    if "j \<noteq> i" "j \<noteq> t" "\<forall>v. p v \<longrightarrow> pv_PackageBaseID v = i" for p vs
    using that by (induction vs) (auto simp: update_where_def count_where_def)
  show "votes_of j (migrate i t d) = votes_of j d" if "j \<noteq> i" "j \<noteq> t"
    using that by (simp add: votes_of_def migrate_def Let_def count)
qed

lemma migrate_watchers:
  assumes "i \<noteq> t"
  shows "watchers t (migrate i t d) = watchers t d \<union> watchers i d"
  unfolding watchers_def migrate_def Let_def
  using moved_keys [where ku = pn_UserID and kb = pn_PackageBaseID and rs = "PackageNotifications d"
      and X = "pn_UserID ` {n \<in> set (PackageNotifications d). pn_PackageBaseID n = t}"
      and f = "\<lambda>n. n\<lparr>pn_PackageBaseID := t\<rparr>", OF _ _ assms]
  by simp

lemma migrate_comments:
  assumes "i \<noteq> t"
  shows "comment_ids t (migrate i t d) = comment_ids t d \<union> comment_ids i d"
  unfolding comment_ids_def migrate_def Let_def
  using moved_keys [where ku = pc_ID and kb = pc_PackageBaseID and rs = "PackageComments d"
      and X = "{}" and f = "\<lambda>c. c\<lparr>pc_PackageBaseID := t\<rparr>", OF _ _ assms]
  by simp

text \<open>Deleting one package base.\<close>

definition without_base :: "nat \<Rightarrow> db \<Rightarrow> db" where
  "without_base i = delete_pkgbases (\<lambda>b. pb_ID b = i)"

lemma gone_ids: "pb_ID ` {r \<in> set (PackageBases d). pb_ID r = i} = base_ids d \<inter> {i}"
  by (auto simp: base_ids_def)

lemma gone_ids_const: "(\<lambda>_. i) ` {r \<in> set (PackageBases d). pb_ID r = i} = base_ids d \<inter> {i}"
  by (auto simp: base_ids_def)

lemma without_base_ids:
  assumes "wf_db d"
  shows "base_ids (without_base i d) = base_ids d - {i}" "user_ids (without_base i d) = user_ids d"
proof -
  have "distinct (map pb_ID (PackageBases d))"
    using assms by (simp add: wf_db_def unique_ok_def)
  then show "base_ids (without_base i d) = base_ids d - {i}"
    unfolding without_base_def by (subst base_ids_delete_pkgbases) (simp_all only: gone_ids Diff_Int_distrib2 Diff_Int Diff_cancel Un_empty_left)
qed (simp add: without_base_def user_ids_def delete_pkgbases_def delete_packages_def Let_def)

lemma without_base_wf: "wf_db d \<Longrightarrow> wf_db (without_base i d)"
  unfolding without_base_def by (rule delete_pkgbases_wf)

lemma without_base_tables:
  assumes "j \<noteq> i"
  shows "voters j (without_base i d) = voters j d" "watchers j (without_base i d) = watchers j d"
    "comment_ids j (without_base i d) = comment_ids j d" "votes_of j (without_base i d) = votes_of j d"
  using assms
  by (auto simp: voters_def votes_on_def watchers_def comment_ids_def votes_of_def without_base_def
      delete_pkgbases_def delete_packages_def Let_def gone_ids table_simps
      intro!: count_where_cong)

lemma without_base_rows: "set (PackageBases (without_base i d)) = {b \<in> set (PackageBases d). pb_ID b \<noteq> i}"
  by (auto simp: without_base_def delete_pkgbases_def delete_packages_def Let_def table_simps)

lemma without_base_votes:
  assumes "votes_ok_but {i} d"
  shows "votes_ok (without_base i d)"
  using assms without_base_tables(4)
  by (auto simp: votes_ok_def votes_ok_but_def without_base_rows)

lemma without_base_ok: "db_ok d \<Longrightarrow> db_ok (without_base i d)"
  using without_base_votes [of i d] by (simp add: db_ok_def without_base_wf votes_ok_but_def votes_ok_def)

section \<open>The programs\<close>

lemma wp_retry_merge:
  "wp (retry_merge cfg b t) Q E w = Q () (w\<lparr>the_db := without_base (pb_ID b)
     (delete_packages (\<lambda>p. pk_PackageBaseID p = pb_ID b)
       (recounted cfg (now w) (\<lambda>x. pb_ID x = pb_ID t) (migrate (pb_ID b) (pb_ID t) (the_db w))))\<rparr>)"
  unfolding retry_merge_def
  by (rule wp_retry_deadlock_ret) (simp add: wp_simps wp_run_single without_base_def)

text \<open>The first sweep of packages changes nothing: the cascade of the package base takes them anyway.\<close>

lemma sweep_tables [simp]:
  "voters j (delete_packages p d) = voters j d" "watchers j (delete_packages p d) = watchers j d"
  "comment_ids j (delete_packages p d) = comment_ids j d" "votes_of j (delete_packages p d) = votes_of j d"
  "base_ids (delete_packages p d) = base_ids d" "user_ids (delete_packages p d) = user_ids d"
  "PackageBases (delete_packages p d) = PackageBases d"
  by (simp_all add: delete_packages_def Let_def voters_def votes_on_def watchers_def comment_ids_def
      votes_of_def base_ids_def user_ids_def)

lemma recounted_tables [simp]:
  "voters j (recounted cfg ts p d) = voters j d" "watchers j (recounted cfg ts p d) = watchers j d"
  "comment_ids j (recounted cfg ts p d) = comment_ids j d" "votes_of j (recounted cfg ts p d) = votes_of j d"
  by (simp_all add: recounted_def voters_def votes_on_def watchers_def comment_ids_def votes_of_def)

lemma sweep_votes: "votes_ok_but X d \<Longrightarrow> votes_ok_but X (delete_packages p d)"
  by (simp add: votes_ok_but_def)

lemma recounted_votes_but:
  assumes "votes_ok_but {i, t} d"
  shows "votes_ok_but {i} (recounted cfg ts (\<lambda>x. pb_ID x = t) d)"
  using assms
  by (auto simp: votes_ok_but_def recounted_def votes_of_def table_simps)

lemma migrate_votes_but:
  assumes "i \<noteq> t" and "votes_ok d"
  shows "votes_ok_but {i, t} (migrate i t d)"
  using assms(2) migrate_votes(2) [OF assms(1)] by (simp add: votes_ok_but_def votes_ok_def)

definition merged :: "config \<Rightarrow> int \<Rightarrow> nat \<Rightarrow> nat \<Rightarrow> db \<Rightarrow> db" where
  "merged cfg ts i t d = without_base i (delete_packages (\<lambda>p. pk_PackageBaseID p = i)
     (recounted cfg ts (\<lambda>x. pb_ID x = t) (migrate i t d)))"

lemma merged_ok:
  assumes "db_ok d" and "i \<noteq> t" and "t \<in> base_ids d"
  shows "db_ok (merged cfg ts i t d)" and "base_ids (merged cfg ts i t d) = base_ids d - {i}"
    and "user_ids (merged cfg ts i t d) = user_ids d"
proof -
  let ?d = "delete_packages (\<lambda>p. pk_PackageBaseID p = i)
     (recounted cfg ts (\<lambda>x. pb_ID x = t) (migrate i t d))"
  have wf: "wf_db ?d"
    using assms(1,3) by (simp add: db_ok_def delete_packages_wf recounted_wf migrate_wf)
  have "votes_ok_but {i} ?d"
    using assms(1,2) by (simp add: db_ok_def sweep_votes recounted_votes_but migrate_votes_but)
  then show "db_ok (merged cfg ts i t d)"
    unfolding merged_def by (simp add: db_okI without_base_wf [OF wf] without_base_votes)
  show "base_ids (merged cfg ts i t d) = base_ids d - {i}" "user_ids (merged cfg ts i t d) = user_ids d"
    by (simp_all add: merged_def without_base_ids [OF wf] recounted_ids)
qed

lemma merged_tables:
  assumes "i \<noteq> t"
  shows "voters t (merged cfg ts i t d) = voters t d \<union> voters i d"
    and "watchers t (merged cfg ts i t d) = watchers t d \<union> watchers i d"
    and "comment_ids t (merged cfg ts i t d) = comment_ids t d \<union> comment_ids i d"
  using assms by (simp_all add: merged_def without_base_tables migrate_votes migrate_watchers migrate_comments)

lemma merged_requests: "PackageRequests (merged cfg ts i t d)
    = map (\<lambda>r. r\<lparr>pr_PackageBaseID := null_if (base_ids d \<inter> {i}) (pr_PackageBaseID r)\<rparr>) (PackageRequests d)"
proof -
  have "pb_ID ` {r \<in> set (PackageBases (recounted cfg ts p (migrate i t d))). pb_ID r = i} = base_ids d \<inter> {i}" for p
    unfolding gone_ids recounted_ids by simp
  then show ?thesis
    by (simp add: merged_def without_base_def delete_pkgbases_def delete_packages_def Let_def
        recounted_def migrate_def)
qed

text \<open>\<open>handle_request\<close> settles the requests and touches nothing else, the constraints included.\<close>

lemma wp_handled:
  assumes "db_ok (the_db w)" and "pb_Name b \<noteq> []" and "can_handle t target ids" and "t \<noteq> ORPHAN_ID"
    and "u_ID user \<in> user_ids (the_db w)" and "pb_ID b \<in> base_ids (the_db w)"
  shows "wp (handle_request cfg user t b target comments ids) (\<lambda>_ w'. \<exists>rs.
      w' = w\<lparr>the_db := (the_db w)\<lparr>PackageRequests := rs\<rparr>\<rparr>
      \<and> settled (u_ID user) (now w) t b target comments ids (PackageRequests (the_db w)) rs
      \<and> db_ok ((the_db w)\<lparr>PackageRequests := rs\<rparr>)) (\<lambda>_ _. False) w"
proof -
  let ?m = "handle_request cfg user t b target comments ids"
  have "distinct (map pr_ID (PackageRequests (the_db w)))"
    using assms(1) by (simp add: db_ok_def wf_db_def unique_ok_def)
  note handle = wp_handle_request [OF this assms(2,3)]
  have run: "wp ?m (\<lambda>_ w'. \<exists>rs. w' = w\<lparr>the_db := (the_db w)\<lparr>PackageRequests := rs\<rparr>\<rparr>
      \<and> settled (u_ID user) (now w) t b target comments ids (PackageRequests (the_db w)) rs) (\<lambda>_ _. False) w"
    by (rule handle) (use assms(4) in blast)+
  have "db_inv (db_ok_on (user_ids (the_db w)) (base_ids (the_db w))) w"
    using assms(1) by (simp add: db_inv_def db_ok_on_self)
  from keeps_wp [OF ok_handle_request [OF assms(5,6)] this, of cfg t target comments ids]
  have "wp ?m (\<lambda>_ w'. db_ok (the_db w')) (\<lambda>_ w'. db_ok (the_db w')) w"
    by (rule wp_mono) (simp_all add: db_inv_def db_ok_onD)
  with run have "wp ?m (\<lambda>_ w'. (\<exists>rs. w' = w\<lparr>the_db := (the_db w)\<lparr>PackageRequests := rs\<rparr>\<rparr>
      \<and> settled (u_ID user) (now w) t b target comments ids (PackageRequests (the_db w)) rs)
      \<and> db_ok (the_db w')) (\<lambda>_ w'. False \<and> db_ok (the_db w')) w"
    by (simp only: wp_conj)
  then show ?thesis
    by (rule wp_mono) auto
qed

text \<open>The tables of votes, watchers and comments do not depend on the requests.\<close>

lemma requests_apart [simp]:
  "voters i (d\<lparr>PackageRequests := rs\<rparr>) = voters i d" "watchers i (d\<lparr>PackageRequests := rs\<rparr>) = watchers i d"
  "comment_ids i (d\<lparr>PackageRequests := rs\<rparr>) = comment_ids i d"
  "base_ids (d\<lparr>PackageRequests := rs\<rparr>) = base_ids d" "user_ids (d\<lparr>PackageRequests := rs\<rparr>) = user_ids d"
  by (simp_all add: voters_def votes_on_def watchers_def comment_ids_def base_ids_def user_ids_def)

text \<open>
  C6. Merging a package base into another: the target ends up with the union of the votes, of the
  watchers and of the comments of both, each user counted once; the merged package base is gone and
  its requests stay behind without a package base, the pending merge requests settled; the
  constraints and the vote counters hold.
\<close>

theorem merge_outcome:
  assumes "db_ok (the_db w)" and "pb_Name b \<noteq> []" and "pb_ID b \<noteq> pb_ID t"
    and "pb_ID b \<in> base_ids (the_db w)" and "pb_ID t \<in> base_ids (the_db w)"
    and "u_ID user \<in> user_ids (the_db w)"
  shows "let d = the_db w; r = pkgbase_merge_instance cfg user b t comments w; d' = the_db (snd r) in
    fst r = Inr () \<and> db_ok d' \<and> voters (pb_ID t) d' = voters (pb_ID t) d \<union> voters (pb_ID b) d
    \<and> watchers (pb_ID t) d' = watchers (pb_ID t) d \<union> watchers (pb_ID b) d
    \<and> comment_ids (pb_ID t) d' = comment_ids (pb_ID t) d \<union> comment_ids (pb_ID b) d
    \<and> base_ids d' = base_ids d - {pb_ID b}
    \<and> (\<exists>rs. settled (u_ID user) (now w) MERGE_ID b (Some t) comments None (PackageRequests d) rs
        \<and> PackageRequests d' = map (\<lambda>r. r\<lparr>pr_PackageBaseID := null_if {pb_ID b} (pr_PackageBaseID r)\<rparr>) rs)"
proof -
  let ?d = "the_db w"
  let ?m = "merged cfg (now w) (pb_ID b) (pb_ID t)"
  have can: "can_handle MERGE_ID (Some t) None"
    by (simp add: can_handle_def closable_def request_ids)
  have type: "MERGE_ID \<noteq> ORPHAN_ID"
    by (simp add: request_ids)
  have "wp (pkgbase_merge_instance cfg user b t comments) (\<lambda>_ w'. \<exists>rs. the_db w' = ?m (?d\<lparr>PackageRequests := rs\<rparr>)
      \<and> settled (u_ID user) (now w) MERGE_ID b (Some t) comments None (PackageRequests ?d) rs
      \<and> db_ok (?d\<lparr>PackageRequests := rs\<rparr>)) (\<lambda>_ _. False) w"
    unfolding pkgbase_merge_instance_def wp_andthen wp_seqp wp_retry_merge
    by (rule wp_mono [OF wp_handled [OF assms(1,2) can type assms(6,4)]])
      (auto simp: merged_def intro!: wp_send_all)
  moreover have "base_ids ?d \<inter> {pb_ID b} = {pb_ID b}"
    using assms(4) by blast
  ultimately show ?thesis
    using assms(3,5) merged_ok [of _ "pb_ID b" "pb_ID t" cfg "now w"]
    by (auto simp: Let_def wp_def merged_tables merged_requests split: prod.splits sum.splits)
qed

theorem merge_outcome_witness:
  "voters 11 (the_db (snd (pkgbase_merge_instance default_config demo_alice demo_base demo_bar [] demo_world))) = {3}"
proof -
  have d: "pb_Name demo_base \<noteq> []" "pb_ID demo_base \<noteq> pb_ID demo_bar" "pb_ID demo_base \<in> base_ids demo_db"
    "pb_ID demo_bar \<in> base_ids demo_db" "u_ID demo_alice \<in> user_ids demo_db"
    "pb_ID demo_bar = 11" "voters 11 demo_db \<union> voters (pb_ID demo_base) demo_db = {3}"
    by (code_simp+)
  from merge_outcome [of demo_world demo_base demo_bar demo_alice default_config "[]",
      unfolded demo_the_db, OF demo_db_ok d(1-5)] show ?thesis
    by (simp add: Let_def d(6,7))
qed

text \<open>What a delete takes along.\<close>

lemma wp_retry_delete: "wp (retry_delete b comments) Q E w
    = Q () (w\<lparr>the_db := without_base (pb_ID b) (the_db (snd (update_closure_comment b DELETION_ID comments None w)))\<rparr>)"
  unfolding retry_delete_def
  by (rule wp_retry_deadlock_ret)
    (simp add: wp_simps update_closure_comment_def without_base_def request_ids execute_def modify_def ret_def)

lemma closure_comment_only:
  "\<exists>p. the_db (snd (update_closure_comment b DELETION_ID comments None w)) = (the_db w)\<lparr>PackageRequests :=
     update_where p (\<lambda>r. r\<lparr>pr_ClosureComment := comments\<rparr>) (PackageRequests (the_db w))\<rparr>"
proof (cases "comments = []")
  case True
  have "the_db w = (the_db w)\<lparr>PackageRequests := update_where (\<lambda>_. False) f (PackageRequests (the_db w))\<rparr>" for f
    by (simp add: update_where_def)
  with True show ?thesis
    by (auto simp: update_closure_comment_def ret_def)
next
  case False
  then show ?thesis
    by (auto simp: update_closure_comment_def execute_def modify_def request_ids)
qed

lemma without_base_requests: "PackageRequests (without_base i d)
    = map (\<lambda>r. r\<lparr>pr_PackageBaseID := null_if (base_ids d \<inter> {i}) (pr_PackageBaseID r)\<rparr>) (PackageRequests d)"
  by (simp add: without_base_def delete_pkgbases_def delete_packages_def Let_def gone_ids_const)

lemma without_base_packages: "wf_db d \<Longrightarrow> set (Packages (without_base i d)) = {p \<in> set (Packages d). pk_PackageBaseID p \<noteq> i}"
  by (auto simp: without_base_def delete_pkgbases_def delete_packages_def Let_def gone_ids_const table_simps
      wf_db_def refs_ok_def)



end
