(* ===== verification/Pkgbase_Routes.thy ===== *)
theory Pkgbase_Routes
  imports Web Pkgbase_Merge
begin

text \<open>
  The pages and forms of a package base, \<open>aurweb/routers/pkgbase.py\<close>: one definition per route,
  named like its function, with \<open>_get\<close> or \<open>_post\<close> where the name alone is taken. The retry
  decorator above a route has no effect on a request (the router has the function from before),
  so none of these is retried as a whole.
\<close>

section \<open>Looking up\<close>

definition get_pkg_or_base :: "string \<Rightarrow> packagebases_row aur" where
  "get_pkg_or_base name = andthen (query (\<lambda>d. List.find (\<lambda>b. pb_Name b = name) (PackageBases d)))
     (the_or (HTTPException 404 []))"

definition get_pkgbase_comment :: "packagebases_row \<Rightarrow> nat \<Rightarrow> packagecomments_row aur" where
  "get_pkgbase_comment pkgbase i = andthen (query (\<lambda>d. List.find
     (\<lambda>c. pc_PackageBaseID c = pb_ID pkgbase \<and> pc_ID c = i) (PackageComments d))) (the_or (HTTPException 404 []))"

definition pkgbase_url :: "string \<Rightarrow> string" where
  "pkgbase_url name = ''/pkgbase/'' @ name"

definition or_url :: "string option \<Rightarrow> string \<Rightarrow> string" where
  "or_url next url = (case next of None \<Rightarrow> url | Some n \<Rightarrow> if n = [] then url else n)"

definition comaint_users :: "nat \<Rightarrow> db \<Rightarrow> nat option list" where
  "comaint_users i d = map (\<lambda>c. Some (cm_UsersID c)) (comaintainers i d)"

definition maintainers_of :: "nat \<Rightarrow> db \<Rightarrow> nat option list" where
  "maintainers_of i d = maintainer_of i d # comaint_users i d"

section \<open>Viewing\<close>

definition pkgbase_get :: "string \<Rightarrow> response aur" where
  "pkgbase_get name = andthen (get_pkg_or_base name) (\<lambda>b.
     andthen (query (\<lambda>d. filter (\<lambda>p. pk_PackageBaseID p = pb_ID b) (Packages d))) (\<lambda>packages.
     case packages of
       [] \<Rightarrow> throw Py_IndexError
     | pkg # rest \<Rightarrow>
         if rest = [] \<and> pk_Name pkg = pb_Name b then ret (Redirect (''/packages/'' @ pk_Name pkg))
         else ret (Page 200 ''pkgbase/index.html'' [])))"

definition pkgbase_voters :: "request \<Rightarrow> string \<Rightarrow> response aur" where
  "pkgbase_voters rq name = andthen (get_pkg_or_base name) (\<lambda>b.
     if \<not> has_credential (rq_user rq) PKGBASE_LIST_VOTERS [] then ret (Redirect (pkgbase_url name))
     else ret (Page 200 ''pkgbase/voters.html'' []))"

definition pkgbase_flag_comment :: "string \<Rightarrow> response aur" where
  "pkgbase_flag_comment name = andthen (get_pkg_or_base name) (\<lambda>b.
     if pb_OutOfDateTS b = None then ret (Redirect (pkgbase_url name))
     else ret (Page 200 ''pkgbase/flag-comment.html'' []))"

section \<open>Keywords and flags\<close>

text \<open>
  The comparison of the column \<open>Keyword\<close>, whose collation ignores the case of letters. The words
  of the form are a set, in the order in which it is iterated.
\<close>

definition same_keyword :: "string \<Rightarrow> string \<Rightarrow> bool" where
  "same_keyword k l \<longleftrightarrow> lower k = lower l"

definition keywords_of :: "nat \<Rightarrow> db \<Rightarrow> string list" where
  "keywords_of i d = map kw_Keyword (filter (\<lambda>k. kw_PackageBaseID k = i) (PackageKeywords d))"

definition replace_keywords :: "config \<Rightarrow> nat \<Rightarrow> string list \<Rightarrow> unit aur" where
  "replace_keywords cfg i keywords = transaction (andthen (query (keywords_of i)) (\<lambda>current.
     let other = filter (\<lambda>k. \<not> list_ex (same_keyword k) keywords) current;
         existing = map lower (filter (\<lambda>k. \<not> list_ex (same_keyword k) (map lower other)) current);
         new_keywords = set_iter_str cfg (filter (\<lambda>k. k \<notin> set existing) keywords) in
     seqp (execute (\<lambda>d. d\<lparr>PackageKeywords := delete_where
       (\<lambda>k. kw_PackageBaseID k = i \<and> kw_Keyword k \<in> set other) (PackageKeywords d)\<rparr>))
     (for_each new_keywords (\<lambda>keyword. insert_unless
        (\<lambda>d. list_ex (\<lambda>k. kw_PackageBaseID k = i \<and> same_keyword (kw_Keyword k) keyword) (PackageKeywords d))
        (\<lambda>d. d\<lparr>PackageKeywords := PackageKeywords d @ [\<lparr>kw_PackageBaseID = i, kw_Keyword = keyword\<rparr>]\<rparr>)))))"

definition pkgbase_keywords :: "config \<Rightarrow> request \<Rightarrow> string \<Rightarrow> string \<Rightarrow> response aur" where
  "pkgbase_keywords cfg rq name keywords = andthen (get_pkg_or_base name) (\<lambda>b.
     andthen (query (maintainers_of (pb_ID b))) (\<lambda>approved.
     if \<not> creds_has_credential (rq_user rq) PKGBASE_SET_KEYWORDS approved then ret (Plain 401 [])
     else seqp (replace_keywords cfg (pb_ID b) (map lower (split_ws keywords)))
          (ret (Redirect (pkgbase_url name)))))"

definition pkgbase_flag_get :: "config \<Rightarrow> request \<Rightarrow> string \<Rightarrow> response aur" where
  "pkgbase_flag_get cfg rq name = requires_auth cfg rq (\<lambda>u. andthen (get_pkg_or_base name) (\<lambda>b.
     if \<not> has_credential (LoggedIn u) PKGBASE_FLAG [] \<or> pb_OutOfDateTS b \<noteq> None
     then ret (Redirect (pkgbase_url name))
     else ret (Page 200 ''pkgbase/flag.html'' [])))"

definition pkgbase_flag_post :: "config \<Rightarrow> request \<Rightarrow> string \<Rightarrow> string \<Rightarrow> response aur" where
  "pkgbase_flag_post cfg rq name comments = requires_auth cfg rq (\<lambda>u.
     andthen (get_pkg_or_base name) (\<lambda>b.
     if comments = [] then ret (Page 400 ''pkgbase/flag.html''
       [''The selected packages have not been flagged, please enter a comment.''])
     else seqp (comment_raise_http_ex cfg comments)
       (seqp (whenp (has_credential (LoggedIn u) PKGBASE_FLAG [] \<and> (pb_OutOfDateTS b = None \<or> pb_OutOfDateTS b = Some 0))
         (andthen utcnow (\<lambda>ts. seqp (transaction (update_base (pb_ID b)
            (\<lambda>x. x\<lparr>pb_OutOfDateTS := Some ts, pb_FlaggerUID := Some (u_ID u), pb_FlaggerComment := comments\<rparr>)))
          (send (FlagNotification (u_ID u) (pb_ID b))))))
       (ret (Redirect (pkgbase_url name))))))"

definition pkgbase_unflag_post :: "config \<Rightarrow> request \<Rightarrow> string \<Rightarrow> response aur" where
  "pkgbase_unflag_post cfg rq name = requires_auth cfg rq (\<lambda>u. andthen (get_pkg_or_base name) (\<lambda>b.
     seqp (pkgbase_unflag_instance u b) (ret (Redirect (pkgbase_url name)))))"

section \<open>Comments\<close>

definition update_comment :: "nat \<Rightarrow> (packagecomments_row \<Rightarrow> packagecomments_row) \<Rightarrow> unit aur" where
  "update_comment i f = transaction (execute (\<lambda>d. d\<lparr>PackageComments :=
     update_where (\<lambda>c. pc_ID c = i) f (PackageComments d)\<rparr>))"

definition update_comment_render :: "config \<Rightarrow> nat \<Rightarrow> unit aur" where
  "update_comment_render cfg i = update_comment i (\<lambda>c. c\<lparr>pc_RenderedComment := render_comment cfg c\<rparr>)"

definition notified :: "nat \<Rightarrow> nat \<Rightarrow> db \<Rightarrow> bool" where
  "notified uid i d = list_ex (\<lambda>n. pn_PackageBaseID n = i \<and> pn_UserID n = uid) (PackageNotifications d)"

definition add_notification :: "nat \<Rightarrow> nat \<Rightarrow> unit aur" where
  "add_notification uid i = execute (\<lambda>d. d\<lparr>PackageNotifications := PackageNotifications d @
     [\<lparr>pn_PackageBaseID = i, pn_UserID = uid\<rparr>]\<rparr>)"

definition notify_unless :: "bool \<Rightarrow> nat \<Rightarrow> nat \<Rightarrow> unit aur" where
  "notify_unless enable uid i = andthen (query (notified uid i))
     (\<lambda>n. whenp (enable \<and> \<not> n) (add_notification uid i))"

definition new_comment :: "nat \<Rightarrow> nat \<Rightarrow> nat \<Rightarrow> string \<Rightarrow> int \<Rightarrow> packagecomments_row" where
  "new_comment i base uid text ts = \<lparr>pc_ID = i, pc_PackageBaseID = base, pc_UsersID = Some uid,
     pc_Comments = text, pc_RenderedComment = [], pc_CommentTS = ts, pc_EditedTS = None,
     pc_EditedUsersID = None, pc_DelTS = None, pc_DelUsersID = None, pc_PinnedTS = 0\<rparr>"

definition insert_comment :: "nat \<Rightarrow> nat \<Rightarrow> string \<Rightarrow> int \<Rightarrow> nat aur" where
  "insert_comment base uid text ts = andthen (query (\<lambda>d. next_id (map pc_ID (PackageComments d)))) (\<lambda>cid.
     seqp (execute (\<lambda>d. d\<lparr>PackageComments := PackageComments d @ [new_comment cid base uid text ts]\<rparr>))
     (ret cid))"

definition pkgbase_comments_post :: "config \<Rightarrow> request \<Rightarrow> string \<Rightarrow> string \<Rightarrow> bool \<Rightarrow> response aur" where
  "pkgbase_comments_post cfg rq name text enable_notifications = requires_auth cfg rq (\<lambda>u.
     andthen (get_pkg_or_base name) (\<lambda>b.
     seqp (comment_raise_http_ex cfg text)
     (andthen utcnow (\<lambda>ts.
      andthen (transaction (andthen (insert_comment (pb_ID b) (u_ID u) text ts) (\<lambda>cid.
        seqp (notify_unless enable_notifications (u_ID u) (pb_ID b)) (ret cid))))
      (\<lambda>cid. seqp (update_comment_render cfg cid)
       (seqp (send (CommentNotification (u_ID u) (pb_ID b) cid))
       (ret (Redirect (pkgbase_url (pb_Name b) @ ''#comment-'' @ str_nat cid)))))))))"

definition pkgbase_comment_form :: "config \<Rightarrow> request \<Rightarrow> string \<Rightarrow> nat \<Rightarrow> response aur" where
  "pkgbase_comment_form cfg rq name i = requires_auth cfg rq (\<lambda>u. andthen (get_pkg_or_base name) (\<lambda>b.
     andthen (query (\<lambda>d. List.find (\<lambda>c. pc_PackageBaseID c = pb_ID b \<and> pc_ID c = i) (PackageComments d)))
     (\<lambda>found. case found of
        None \<Rightarrow> ret (Json 404)
      | Some c \<Rightarrow> if \<not> is_elevated (LoggedIn u) \<and> \<not> is_user (LoggedIn u) (pc_UsersID c)
                  then ret (Json 401) else ret (Json 200))))"

definition pkgbase_comment_edit :: "config \<Rightarrow> request \<Rightarrow> string \<Rightarrow> nat \<Rightarrow> response aur" where
  "pkgbase_comment_edit cfg rq name i = requires_auth cfg rq (\<lambda>u. andthen (get_pkg_or_base name) (\<lambda>b.
     andthen (get_pkgbase_comment b i) (\<lambda>c. ret (Page 200 ''pkgbase/comments/edit.html'' []))))"

definition pkgbase_comment_post :: "config \<Rightarrow> request \<Rightarrow> string \<Rightarrow> nat \<Rightarrow> string \<Rightarrow> bool \<Rightarrow> string option
    \<Rightarrow> bool \<Rightarrow> response aur" where
  "pkgbase_comment_post cfg rq name i text enable_notifications next cancel = requires_auth cfg rq (\<lambda>u.
     if cancel then ret (Redirect (pkgbase_url name @ ''#comment-'' @ str_nat i))
     else andthen (get_pkg_or_base name) (\<lambda>b. andthen (get_pkgbase_comment b i) (\<lambda>c.
       seqp (comment_raise_http_ex cfg text)
       (seqp (guard (pc_UsersID c = Some (u_ID u)) (HTTPException 401 []))
       (andthen utcnow (\<lambda>ts.
        seqp (whenp (pc_Comments c \<noteq> text) (update_comment i
          (\<lambda>x. x\<lparr>pc_Comments := text, pc_EditedUsersID := Some (u_ID u), pc_EditedTS := Some ts\<rparr>)))
        (seqp (whenp enable_notifications (transaction (notify_unless True (u_ID u) (pb_ID b))))
        (seqp (update_comment_render cfg i)
        (ret (Redirect (or_url next (pkgbase_url (pb_Name b)) @ ''#comment-'' @ str_nat i)))))))))))"

text \<open>Pinning, deleting and their reverses: a credential, then an update of the comment.\<close>

definition comment_action :: "config \<Rightarrow> request \<Rightarrow> string \<Rightarrow> nat \<Rightarrow> string option \<Rightarrow> credential
    \<Rightarrow> (packagebases_row \<Rightarrow> packagecomments_row \<Rightarrow> db \<Rightarrow> nat option list) \<Rightarrow> string
    \<Rightarrow> (users_row \<Rightarrow> int \<Rightarrow> packagecomments_row \<Rightarrow> packagecomments_row) \<Rightarrow> response aur" where
  "comment_action cfg rq name i next cred approved denied f = requires_auth cfg rq (\<lambda>u.
     andthen (get_pkg_or_base name) (\<lambda>b. andthen (get_pkgbase_comment b i) (\<lambda>c.
     andthen (query (approved b c)) (\<lambda>ok.
     seqp (guard (has_credential (LoggedIn u) cred ok) (HTTPException 401 denied))
     (andthen utcnow (\<lambda>ts. seqp (update_comment i (f u ts))
       (ret (Redirect (or_url next (pkgbase_url name))))))))))"

definition comment_maintainers :: "packagebases_row \<Rightarrow> packagecomments_row \<Rightarrow> db \<Rightarrow> nat option list" where
  "comment_maintainers b c d = filter (\<lambda>x. x \<noteq> None) (maintainers_of (pb_ID b) d)"

definition pkgbase_comment_pin :: "config \<Rightarrow> request \<Rightarrow> string \<Rightarrow> nat \<Rightarrow> string option \<Rightarrow> response aur" where
  "pkgbase_comment_pin cfg rq name i next = comment_action cfg rq name i next COMMENT_PIN comment_maintainers
     ''You are not allowed to pin this comment.'' (\<lambda>u ts c. c\<lparr>pc_PinnedTS := ts\<rparr>)"

definition pkgbase_comment_unpin :: "config \<Rightarrow> request \<Rightarrow> string \<Rightarrow> nat \<Rightarrow> string option \<Rightarrow> response aur" where
  "pkgbase_comment_unpin cfg rq name i next = comment_action cfg rq name i next COMMENT_PIN comment_maintainers
     ''You are not allowed to unpin this comment.'' (\<lambda>u ts c. c\<lparr>pc_PinnedTS := 0\<rparr>)"

definition pkgbase_comment_delete :: "config \<Rightarrow> request \<Rightarrow> string \<Rightarrow> nat \<Rightarrow> string option \<Rightarrow> response aur" where
  "pkgbase_comment_delete cfg rq name i next = comment_action cfg rq name i next COMMENT_DELETE
     (\<lambda>b c d. [pc_UsersID c]) ''You are not allowed to delete this comment.''
     (\<lambda>u ts c. c\<lparr>pc_DelUsersID := Some (u_ID u), pc_DelTS := Some ts\<rparr>)"

definition pkgbase_comment_undelete :: "config \<Rightarrow> request \<Rightarrow> string \<Rightarrow> nat \<Rightarrow> string option \<Rightarrow> response aur" where
  "pkgbase_comment_undelete cfg rq name i next = comment_action cfg rq name i next COMMENT_UNDELETE
     (\<lambda>b c d. [pc_UsersID c]) ''You are not allowed to undelete this comment.''
     (\<lambda>u ts c. c\<lparr>pc_DelUsersID := None, pc_DelTS := None\<rparr>)"

section \<open>Votes and notifications\<close>

definition vote_by :: "nat \<Rightarrow> nat \<Rightarrow> packagevotes_row \<Rightarrow> bool" where
  "vote_by uid i v \<longleftrightarrow> pv_UsersID v = uid \<and> pv_PackageBaseID v = i"

definition cast_vote :: "config \<Rightarrow> users_row \<Rightarrow> nat \<Rightarrow> unit aur" where
  "cast_vote cfg u i = andthen (query (\<lambda>d. List.find (vote_by (u_ID u) i) (PackageVotes d))) (\<lambda>vote.
     whenp (has_credential (LoggedIn u) PKGBASE_VOTE [] \<and> vote = None)
       (andthen utcnow (\<lambda>ts.
        seqp (transaction (execute (\<lambda>d. d\<lparr>PackageVotes := PackageVotes d @
          [\<lparr>pv_UsersID = u_ID u, pv_PackageBaseID = i, pv_VoteTS = ts\<rparr>]\<rparr>)))
        (run_single cfg i))))"

definition withdraw_vote :: "config \<Rightarrow> users_row \<Rightarrow> nat \<Rightarrow> unit aur" where
  "withdraw_vote cfg u i = andthen (query (\<lambda>d. List.find (vote_by (u_ID u) i) (PackageVotes d))) (\<lambda>vote.
     whenp (has_credential (LoggedIn u) PKGBASE_VOTE [] \<and> vote \<noteq> None)
       (seqp (transaction (execute (\<lambda>d. d\<lparr>PackageVotes :=
          delete_where (vote_by (u_ID u) i) (PackageVotes d)\<rparr>)))
        (run_single cfg i)))"

definition pkgbase_vote_post :: "config \<Rightarrow> request \<Rightarrow> string \<Rightarrow> response aur" where
  "pkgbase_vote_post cfg rq name = requires_auth cfg rq (\<lambda>u. andthen (get_pkg_or_base name) (\<lambda>b.
     seqp (cast_vote cfg u (pb_ID b)) (ret (Redirect (pkgbase_url name)))))"

definition pkgbase_unvote_post :: "config \<Rightarrow> request \<Rightarrow> string \<Rightarrow> response aur" where
  "pkgbase_unvote_post cfg rq name = requires_auth cfg rq (\<lambda>u. andthen (get_pkg_or_base name) (\<lambda>b.
     seqp (withdraw_vote cfg u (pb_ID b)) (ret (Redirect (pkgbase_url name)))))"

definition pkgbase_notify_post :: "config \<Rightarrow> request \<Rightarrow> string \<Rightarrow> response aur" where
  "pkgbase_notify_post cfg rq name = requires_auth cfg rq (\<lambda>u. andthen (get_pkg_or_base name) (\<lambda>b.
     seqp (pkgbase_notify_instance u b) (ret (Redirect (pkgbase_url name)))))"

definition pkgbase_unnotify_post :: "config \<Rightarrow> request \<Rightarrow> string \<Rightarrow> response aur" where
  "pkgbase_unnotify_post cfg rq name = requires_auth cfg rq (\<lambda>u. andthen (get_pkg_or_base name) (\<lambda>b.
     seqp (pkgbase_unnotify_instance u b) (ret (Redirect (pkgbase_url name)))))"

section \<open>Disowning and adopting\<close>

definition pkgbase_disown_get :: "config \<Rightarrow> request \<Rightarrow> string \<Rightarrow> response aur" where
  "pkgbase_disown_get cfg rq name = requires_auth cfg rq (\<lambda>u. andthen (get_pkg_or_base name) (\<lambda>b.
     andthen (query (maintainers_of (pb_ID b))) (\<lambda>approved.
     if \<not> has_credential (LoggedIn u) PKGBASE_DISOWN approved then ret (Redirect (pkgbase_url name))
     else ret (Page 200 ''pkgbase/disown.html'' []))))"

text \<open>The form of \<open>disown\<close> for a user with the comments checked; \<open>approved\<close> are the maintainers.\<close>

definition disown_form :: "config \<Rightarrow> users_row \<Rightarrow> packagebases_row \<Rightarrow> string \<Rightarrow> string \<Rightarrow> bool \<Rightarrow> string
    \<Rightarrow> nat option list \<Rightarrow> response aur" where
  "disown_form cfg u b name comments confirm next approved =
     (if \<not> has_credential (LoggedIn u) PKGBASE_DISOWN approved then ret (Redirect (pkgbase_url name))
      else if \<not> confirm then ret (Page 400 ''pkgbase/disown.html''
        [''The selected packages have not been disowned, check the confirmation checkbox.''])
      else seqp (whenp (\<not> user_in (LoggedIn u) approved)
          (transaction (update_closure_comment b ORPHAN_ID comments None)))
        (catch (seqp (pkgbase_disown_instance cfg u b)
            (ret (Redirect (or_url (Some next) (pkgbase_url name)))))
          (\<lambda>e. case e of Aurweb (InvariantError msg) \<Rightarrow> ret (Page 400 ''pkgbase/disown.html'' [msg])
                | _ \<Rightarrow> throw e)))"

definition pkgbase_disown_post ::
  "config \<Rightarrow> request \<Rightarrow> string \<Rightarrow> string \<Rightarrow> bool \<Rightarrow> string \<Rightarrow> response aur" where
  "pkgbase_disown_post cfg rq name comments confirm next = requires_auth cfg rq (\<lambda>u.
     andthen (get_pkg_or_base name) (\<lambda>b.
     seqp (whenp (comments \<noteq> []) (comment_raise_http_ex cfg comments))
     (andthen (query (maintainers_of (pb_ID b))) (disown_form cfg u b name comments confirm next))))"

definition pending_adoption_request :: "packagebases_row \<Rightarrow> nat \<Rightarrow> db \<Rightarrow> packagerequests_row option" where
  "pending_adoption_request pkgbase via d = (if via = 0 then None
     else List.find (\<lambda>r. request_of pkgbase r \<and> pr_ID r = via \<and> pr_ReqTypeID r = ADOPTION_ID
       \<and> pr_Status r = PENDING_ID) (PackageRequests d))"

definition pkgbase_adopt_get :: "config \<Rightarrow> request \<Rightarrow> string \<Rightarrow> response aur" where
  "pkgbase_adopt_get cfg rq name = requires_auth cfg rq (\<lambda>u. andthen (get_pkg_or_base name) (\<lambda>b.
     if \<not> has_credential (LoggedIn u) PKGBASE_ADOPT [] then ret (Redirect (pkgbase_url name))
     else ret (Page 200 ''pkgbase/adopt.html'' [])))"

definition pkgbase_adopt_post :: "config \<Rightarrow> request \<Rightarrow> string \<Rightarrow> string \<Rightarrow> nat \<Rightarrow> response aur" where
  "pkgbase_adopt_post cfg rq name next via = requires_auth cfg rq (\<lambda>u. andthen (get_pkg_or_base name) (\<lambda>b.
     let has_cred = has_credential (LoggedIn u) PKGBASE_ADOPT [] in
     seqp (whenp (has_cred \<or> pb_MaintainerUID b = None)
       (andthen (query (pending_adoption_request b via)) (\<lambda>found.
        pkgbase_adopt_instance cfg u b (if has_cred then found else None))))
     (ret (Redirect (or_url (Some next) (pkgbase_url name))))))"

section \<open>Co-maintainers\<close>

definition pkgbase_comaintainers_get :: "config \<Rightarrow> request \<Rightarrow> string \<Rightarrow> response aur" where
  "pkgbase_comaintainers_get cfg rq name = requires_auth cfg rq (\<lambda>u. andthen (get_pkg_or_base name) (\<lambda>b.
     if \<not> has_credential (LoggedIn u) PKGBASE_EDIT_COMAINTAINERS [pb_MaintainerUID b]
     then ret (Redirect (pkgbase_url name))
     else ret (Page 200 ''pkgbase/comaintainers.html'' [])))"

text \<open>The names in the form, one a line, and the names of the present co-maintainers.\<close>

definition form_users :: "string \<Rightarrow> string list" where
  "form_users users = filter (\<lambda>e. e \<noteq> []) (map strip (split_on nl users))"

definition comaint_names :: "nat \<Rightarrow> db \<Rightarrow> string list" where
  "comaint_names i d = [u_Username u. c \<leftarrow> comaintainers i d, u \<leftarrow> Users d, u_ID u = cm_UsersID c]"

definition pkgbase_comaintainers_post :: "config \<Rightarrow> request \<Rightarrow> string \<Rightarrow> string \<Rightarrow> response aur" where
  "pkgbase_comaintainers_post cfg rq name users = requires_auth cfg rq (\<lambda>u.
     andthen (get_pkg_or_base name) (\<lambda>b.
     if \<not> has_credential (LoggedIn u) PKGBASE_EDIT_COMAINTAINERS [pb_MaintainerUID b]
     then ret (Redirect (pkgbase_url name))
     else andthen (query (comaint_names (pb_ID b))) (\<lambda>records.
       seqp (remove_comaintainers (pb_ID b) (filter (\<lambda>n. n \<notin> set (form_users users)) records))
       (andthen (add_comaintainers (pb_ID b)
          (set_iter_str cfg (filter (\<lambda>n. n \<notin> set records) (form_users users)))) (\<lambda>err. case err of
          Some e \<Rightarrow> ret (Page 200 ''pkgbase/comaintainers.html'' [e])
        | None \<Rightarrow> ret (Redirect (pkgbase_url (pb_Name b))))))))"

section \<open>Requests\<close>

definition pkgbase_request_get :: "config \<Rightarrow> request \<Rightarrow> string \<Rightarrow> response aur" where
  "pkgbase_request_get cfg rq name = requires_auth cfg rq (\<lambda>u. andthen (get_pkg_or_base name) (\<lambda>b.
     ret (Page 200 ''pkgbase/request.html'' [])))"

definition request_types :: "string \<Rightarrow> nat option" where
  "request_types = map_of [(''deletion'', DELETION_ID), (''merge'', MERGE_ID), (''orphan'', ORPHAN_ID),
     (''adoption'', ADOPTION_ID)]"

definition filed_request :: "nat \<Rightarrow> nat \<Rightarrow> nat \<Rightarrow> packagebases_row \<Rightarrow> string option \<Rightarrow> string \<Rightarrow> int
    \<Rightarrow> packagerequests_row" where
  "filed_request i reqtype_id uid pkgbase merge_into comments ts =
     \<lparr>pr_ID = i, pr_ReqTypeID = reqtype_id, pr_PackageBaseID = Some (pb_ID pkgbase),
       pr_PackageBaseName = pb_Name pkgbase, pr_MergeBaseName = merge_into, pr_UsersID = Some uid,
       pr_Comments = comments, pr_ClosureComment = [], pr_RequestTS = ts, pr_ClosedTS = None,
       pr_ClosedUID = None, pr_Status = PENDING_ID\<rparr>"

text \<open>The requests that are granted at once: to orphan what was flagged long ago, to delete what is new.\<close>

definition auto_accept :: "config \<Rightarrow> users_row \<Rightarrow> packagebases_row \<Rightarrow> string \<Rightarrow> string
    \<Rightarrow> packagerequests_row \<Rightarrow> int \<Rightarrow> unit aur" where
  "auto_accept cfg u b type comments pkgreq ts =
     (if type = ''orphan'' \<and> (case pb_OutOfDateTS b of None \<Rightarrow> False
          | Some ood_ts \<Rightarrow> ood_ts \<noteq> 0 \<and> auto_orphan_age cfg \<le> ts - ood_ts) then
        seqp (transaction (seqp (update_base (pb_ID b) (\<lambda>x. x\<lparr>pb_MaintainerUID := None\<rparr>))
          (execute (\<lambda>d. d\<lparr>PackageRequests := update_where (\<lambda>r. pr_ID r = pr_ID pkgreq)
            (\<lambda>r. r\<lparr>pr_Status := ACCEPTED_ID\<rparr>) (PackageRequests d)\<rparr>))))
        (send (RequestCloseNotification (u_ID u) (pr_ID pkgreq) ''Accepted''))
      else if type = ''deletion'' \<and> is_user (LoggedIn u) (pb_MaintainerUID b)
          \<and> ts - pb_SubmittedTS b \<le> auto_delete_age cfg then
        andthen (pkgbase_delete_instance cfg u b comments) (\<lambda>notifs. for_each notifs send)
      else ret ())"

text \<open>The errors that the validation reports, and what is done with a valid request at the time \<open>ts\<close>.\<close>

definition request_errors :: "config \<Rightarrow> packagebases_row \<Rightarrow> string \<Rightarrow> string option \<Rightarrow> string
    \<Rightarrow> string list option aur" where
  "request_errors cfg b type merge_into comments =
     catch (seqp (validate_request cfg b type comments (or_url merge_into [])) (ret None))
       (\<lambda>e. case e of Aurweb (ValidationError data) \<Rightarrow> ret (Some data) | _ \<Rightarrow> throw e)"

definition file_request :: "config \<Rightarrow> users_row \<Rightarrow> packagebases_row \<Rightarrow> nat \<Rightarrow> string \<Rightarrow> string option \<Rightarrow> string
    \<Rightarrow> int \<Rightarrow> response aur" where
  "file_request cfg u b reqtype type merge_into comments ts =
     andthen (transaction (create_request (\<lambda>i. filed_request i reqtype (u_ID u) b merge_into comments ts))) (\<lambda>pkgreq.
     seqp (send (RequestOpenNotification (u_ID u) (pr_ID pkgreq) type (pb_ID b)
       (if or_url merge_into [] = [] then None else merge_into)))
     (seqp (auto_accept cfg u b type comments pkgreq ts)
     (ret (Redirect ''/packages''))))"

definition pkgbase_request_post :: "config \<Rightarrow> request \<Rightarrow> string \<Rightarrow> string \<Rightarrow> string option \<Rightarrow> string
    \<Rightarrow> response aur" where
  "pkgbase_request_post cfg rq name type merge_into comments = requires_auth cfg rq (\<lambda>u.
     andthen (get_pkg_or_base name) (\<lambda>b. case request_types type of
       None \<Rightarrow> ret (Page 400 ''pkgbase/request.html'' [])
     | Some reqtype \<Rightarrow>
         andthen (request_errors cfg b type merge_into comments) (\<lambda>errors. case errors of
           Some data \<Rightarrow> ret (Page 200 ''pkgbase/request.html'' data)
         | None \<Rightarrow> andthen utcnow (file_request cfg u b reqtype type merge_into comments))))"

section \<open>Deleting and merging\<close>

definition pkgbase_delete_get :: "config \<Rightarrow> request \<Rightarrow> string \<Rightarrow> response aur" where
  "pkgbase_delete_get cfg rq name = requires_auth cfg rq (\<lambda>u.
     if \<not> has_credential (LoggedIn u) PKGBASE_DELETE [] then ret (Redirect (pkgbase_url name))
     else andthen (get_pkg_or_base name) (\<lambda>b. ret (Page 200 ''pkgbase/delete.html'' [])))"

definition pkgbase_delete_post :: "config \<Rightarrow> request \<Rightarrow> string \<Rightarrow> bool \<Rightarrow> string \<Rightarrow> string \<Rightarrow> response aur" where
  "pkgbase_delete_post cfg rq name confirm comments next = requires_auth cfg rq (\<lambda>u.
     andthen (get_pkg_or_base name) (\<lambda>b.
     if \<not> has_credential (LoggedIn u) PKGBASE_DELETE [] then ret (Redirect (pkgbase_url name))
     else if \<not> confirm then ret (Page 400 ''pkgbase/delete.html''
       [''The selected packages have not been deleted, check the confirmation checkbox.''])
     else seqp (whenp (comments \<noteq> []) (seqp (comment_raise_http_ex cfg comments)
         (transaction (execute (\<lambda>d. d\<lparr>PackageRequests := update_where
           (\<lambda>r. request_of b r \<and> pr_Status r = PENDING_ID \<and> pr_ReqTypeID r = DELETION_ID)
           (\<lambda>r. r\<lparr>pr_ClosureComment := comments\<rparr>) (PackageRequests d)\<rparr>)))))
       (andthen (pkgbase_delete_instance cfg u b comments) (\<lambda>notifs.
        seqp (for_each notifs send) (ret (Redirect next))))))"

definition pkgbase_merge_get :: "config \<Rightarrow> request \<Rightarrow> string \<Rightarrow> response aur" where
  "pkgbase_merge_get cfg rq name = requires_auth cfg rq (\<lambda>u. andthen (get_pkg_or_base name) (\<lambda>b.
     if \<not> has_credential (LoggedIn u) PKGBASE_MERGE [] then ret (Page 401 ''pkgbase/merge.html''
       [''Only Package Maintainers and Developers can merge packages.''])
     else ret (Page 200 ''pkgbase/merge.html'' [])))"

definition pkgbase_merge_post :: "config \<Rightarrow> request \<Rightarrow> string \<Rightarrow> string \<Rightarrow> string \<Rightarrow> bool \<Rightarrow> string
    \<Rightarrow> response aur" where
  "pkgbase_merge_post cfg rq name into comments confirm next = requires_auth cfg rq (\<lambda>u.
     andthen (get_pkg_or_base name) (\<lambda>b.
     if \<not> has_credential (LoggedIn u) PKGBASE_MERGE [] then ret (Page 401 ''pkgbase/merge.html''
       [''Only Package Maintainers and Developers can merge packages.''])
     else if \<not> confirm then ret (Page 400 ''pkgbase/merge.html''
       [''The selected packages have not been deleted, check the confirmation checkbox.''])
     else andthen (query (\<lambda>d. List.find (\<lambda>b. pb_Name b = into) (PackageBases d))) (\<lambda>found. case found of
       None \<Rightarrow> ret (Page 400 ''pkgbase/merge.html''
         [''Cannot find package to merge votes and comments into.''])
     | Some target \<Rightarrow>
         if pb_ID b = pb_ID target then ret (Page 400 ''pkgbase/merge.html''
           [''Cannot merge a package base with itself.''])
         else seqp (whenp (comments \<noteq> []) (comment_raise_http_ex cfg comments))
           (seqp (transaction (update_closure_comment b MERGE_ID comments (Some target)))
           (seqp (pkgbase_merge_instance cfg u b target comments)
           (ret (Redirect (or_url (Some next) (pkgbase_url (pb_Name target))))))))))"

section \<open>The constraints\<close>

lemma wp_get_pkg_or_base: "wp (get_pkg_or_base name) Q E w =
    (case List.find (\<lambda>b. pb_Name b = name) (PackageBases (the_db w)) of
       None \<Rightarrow> E (HTTPException 404 []) w | Some b \<Rightarrow> Q b w)"
  by (simp add: get_pkg_or_base_def wp_simps)

lemma ok_get_pkg_or_base:
  assumes "\<And>b. pb_ID b \<in> B \<Longrightarrow> keeps_ok U B (f b)"
  shows "keeps_ok U B (andthen (get_pkg_or_base name) f)"
proof (rule keepsI)
  fix w assume w: "db_inv (db_ok_on U B) w"
  show "wp (andthen (get_pkg_or_base name) f) (\<lambda>_. db_inv (db_ok_on U B)) (\<lambda>_. db_inv (db_ok_on U B)) w"
  proof (cases "List.find (\<lambda>b. pb_Name b = name) (PackageBases (the_db w))")
    case None
    with w show ?thesis by (simp add: wp_andthen wp_get_pkg_or_base)
  next
    case (Some b)
    then have "pb_ID b \<in> base_ids (the_db w)"
      by (auto simp: base_ids_def dest: find_SomeD)
    with w have "pb_ID b \<in> B"
      by (simp add: db_inv_def db_ok_on_def)
    from keeps_wp [OF assms [OF this] w] Some show ?thesis
      by (simp add: wp_andthen wp_get_pkg_or_base)
  qed
qed

lemma wf_PackageComments:
  assumes "wf_db d" and "distinct (map pc_ID cs)"
    and "\<forall>c \<in> set cs. pc_PackageBaseID c \<in> base_ids d \<and> refers (pc_UsersID c) (user_ids d)
      \<and> refers (pc_DelUsersID c) (user_ids d) \<and> refers (pc_EditedUsersID c) (user_ids d)"
  shows "wf_db (d\<lparr>PackageComments := cs\<rparr>)"
  using assms by (simp add: wf_db_def unique_ok_def refs_ok_def user_ids_def base_ids_def)

lemma wf_PackageCommentsD:
  "wf_db d \<Longrightarrow> distinct (map pc_ID (PackageComments d))
    \<and> (\<forall>c \<in> set (PackageComments d). pc_PackageBaseID c \<in> base_ids d \<and> refers (pc_UsersID c) (user_ids d)
      \<and> refers (pc_DelUsersID c) (user_ids d) \<and> refers (pc_EditedUsersID c) (user_ids d))"
  by (simp add: wf_db_def unique_ok_def refs_ok_def)

lemma ok_PackageComments_insert:
  assumes "db_ok_on U B d" and "i = next_id (map pc_ID (PackageComments d))" and "b \<in> B" and "u \<in> U"
  shows "db_ok_on U B (d\<lparr>PackageComments := PackageComments d @ [new_comment i b u text ts]\<rparr>)"
proof (rule db_ok_onI [OF assms(1)])
  assume "wf_db d" "user_ids d = U" "base_ids d = B"
  with wf_PackageCommentsD [of d] assms(2-4) next_id_fresh [of "map pc_ID (PackageComments d)"]
  show "wf_db (d\<lparr>PackageComments := PackageComments d @ [new_comment i b u text ts]\<rparr>)"
    by (intro wf_PackageComments) (simp_all add: new_comment_def)
qed simp_all

lemma ok_PackageComments_update:
  assumes "db_ok_on U B d" and "\<And>c. pc_ID (f c) = pc_ID c \<and> pc_PackageBaseID (f c) = pc_PackageBaseID c
      \<and> pc_UsersID (f c) = pc_UsersID c"
    and "\<And>c. pc_DelUsersID (f c) = pc_DelUsersID c \<or> refers (pc_DelUsersID (f c)) U"
    and "\<And>c. pc_EditedUsersID (f c) = pc_EditedUsersID c \<or> refers (pc_EditedUsersID (f c)) U"
  shows "db_ok_on U B (d\<lparr>PackageComments := update_where p f (PackageComments d)\<rparr>)"
proof (rule db_ok_onI [OF assms(1)])
  assume wf: "wf_db d" and U: "user_ids d = U"
  show "wf_db (d\<lparr>PackageComments := update_where p f (PackageComments d)\<rparr>)"
  proof (rule wf_PackageComments [OF wf])
    show "distinct (map pc_ID (update_where p f (PackageComments d)))"
      using wf_PackageCommentsD [OF wf] assms(2) by (simp add: map_update_where_same)
    show "\<forall>c \<in> set (update_where p f (PackageComments d)). pc_PackageBaseID c \<in> base_ids d
        \<and> refers (pc_UsersID c) (user_ids d) \<and> refers (pc_DelUsersID c) (user_ids d)
        \<and> refers (pc_EditedUsersID c) (user_ids d)"
      unfolding ball_update_where using wf_PackageCommentsD [OF wf] assms(2-4) U by metis
  qed
qed simp_all

lemma ok_update_comment:
  assumes "\<And>c. pc_ID (f c) = pc_ID c \<and> pc_PackageBaseID (f c) = pc_PackageBaseID c
      \<and> pc_UsersID (f c) = pc_UsersID c"
    and "\<And>c. pc_DelUsersID (f c) = pc_DelUsersID c \<or> refers (pc_DelUsersID (f c)) U"
    and "\<And>c. pc_EditedUsersID (f c) = pc_EditedUsersID c \<or> refers (pc_EditedUsersID (f c)) U"
  shows "keeps_ok U B (update_comment i f)"
  unfolding update_comment_def
  by (intro keeps_intros ok_PackageComments_update) (use assms in auto)

lemma ok_update_comment_render: "keeps_ok U B (update_comment_render cfg i)"
  unfolding update_comment_render_def by (rule ok_update_comment) simp_all

lemma ok_comment_raise_http_ex: "keeps P (comment_raise_http_ex cfg c)"
  unfolding comment_raise_http_ex_def validate_comment_def
  by (intro keeps_intros) (simp_all add: keeps_throw split: exn.splits aurweb_exception.splits)

lemma ok_validate_request: "keeps P (validate_request cfg b type comments merge_into)"
  unfolding validate_request_def validate_comment_def by (intro keeps_intros keeps_if)

lemma ok_get_pkgbase_comment [keeps_intros]: "keeps P (get_pkgbase_comment b i)"
  unfolding get_pkgbase_comment_def by (intro keeps_intros)

text \<open>The routes that delete no package base keep the constraints and the set of package bases.\<close>

lemma ok_requires_auth:
  "known U rq \<Longrightarrow> (\<And>u. u_ID u \<in> U \<Longrightarrow> keeps_ok U B (f u)) \<Longrightarrow> keeps_ok U B (requires_auth cfg rq f)"
  by (rule keeps_requires_auth) (simp add: known_def)

lemmas ok_route = ok_requires_auth ok_get_pkg_or_base keeps_if

lemma ok_get_routes:
  assumes "known U rq"
  shows "keeps_ok U B (pkgbase_get name)" "keeps_ok U B (pkgbase_voters rq name)"
    "keeps_ok U B (pkgbase_flag_comment name)" "keeps_ok U B (pkgbase_flag_get cfg rq name)"
    "keeps_ok U B (pkgbase_comment_form cfg rq name i)" "keeps_ok U B (pkgbase_comment_edit cfg rq name i)"
    "keeps_ok U B (pkgbase_disown_get cfg rq name)" "keeps_ok U B (pkgbase_adopt_get cfg rq name)"
    "keeps_ok U B (pkgbase_comaintainers_get cfg rq name)" "keeps_ok U B (pkgbase_request_get cfg rq name)"
    "keeps_ok U B (pkgbase_delete_get cfg rq name)" "keeps_ok U B (pkgbase_merge_get cfg rq name)"
  unfolding pkgbase_get_def pkgbase_voters_def pkgbase_flag_comment_def pkgbase_flag_get_def
    pkgbase_comment_form_def pkgbase_comment_edit_def pkgbase_disown_get_def pkgbase_adopt_get_def
    pkgbase_comaintainers_get_def pkgbase_request_get_def pkgbase_delete_get_def pkgbase_merge_get_def
  by (auto intro!: ok_route keeps_intros assms split: list.splits)

lemma ok_replace_keywords: "i \<in> B \<Longrightarrow> keeps_ok U B (replace_keywords cfg i ks)"
  unfolding replace_keywords_def Let_def
  by (intro keeps_intros ok_intros)
    (auto simp: list_ex_iff same_keyword_def)

lemma ok_pkgbase_keywords: "keeps_ok U B (pkgbase_keywords cfg rq name keywords)"
  unfolding pkgbase_keywords_def by (intro ok_route keeps_intros ok_replace_keywords)

lemma ok_pkgbase_flag_post: "known U rq \<Longrightarrow> keeps_ok U B (pkgbase_flag_post cfg rq name comments)"
  unfolding pkgbase_flag_post_def
  by (intro ok_route keeps_intros ok_comment_raise_http_ex ok_update_base) simp_all

lemma ok_pkgbase_unflag_post: "known U rq \<Longrightarrow> keeps_ok U B (pkgbase_unflag_post cfg rq name)"
  unfolding pkgbase_unflag_post_def by (intro ok_route keeps_intros ok_unflag)

lemma ok_notify_unless:
  assumes "uid \<in> U" and "i \<in> B"
  shows "keeps_ok U B (notify_unless c uid i)"
proof (rule keepsI)
  fix w assume "db_inv (db_ok_on U B) w"
  then show "wp (notify_unless c uid i) (\<lambda>_. db_inv (db_ok_on U B)) (\<lambda>_. db_inv (db_ok_on U B)) w"
    using assms by (auto simp: wp_simps notify_unless_def add_notification_def notified_def list_ex_iff db_inv_def
        intro!: ok_PackageNotifications_insert)
qed

lemma ok_insert_comment:
  assumes "uid \<in> U" and "i \<in> B"
  shows "keeps_ok U B (insert_comment i uid text ts)"
proof (rule keepsI)
  fix w assume "db_inv (db_ok_on U B) w"
  with assms show "wp (insert_comment i uid text ts) (\<lambda>_. db_inv (db_ok_on U B)) (\<lambda>_. db_inv (db_ok_on U B)) w"
    by (simp add: insert_comment_def wp_simps db_inv_def ok_PackageComments_insert)
qed

lemma ok_pkgbase_comments_post: "known U rq \<Longrightarrow> keeps_ok U B (pkgbase_comments_post cfg rq name text n)"
  unfolding pkgbase_comments_post_def
  by (intro ok_route keeps_andthen keeps_seqp keeps_utcnow keeps_ret db_inv_send db_inv_transaction
      ok_comment_raise_http_ex ok_insert_comment ok_notify_unless ok_update_comment_render)

lemma ok_pkgbase_comment_post:
  "known U rq \<Longrightarrow> keeps_ok U B (pkgbase_comment_post cfg rq name i text n next cancel)"
  unfolding pkgbase_comment_post_def
  by (intro ok_route ok_notify_unless keeps_andthen keeps_seqp keeps_utcnow keeps_ret keeps_guard keeps_whenp db_inv_transaction
      ok_comment_raise_http_ex ok_update_comment ok_update_comment_render ok_get_pkgbase_comment) simp_all

lemma ok_comment_action:
  assumes "known U rq"
    and "\<And>u ts c. u_ID u \<in> U \<Longrightarrow> pc_ID (f u ts c) = pc_ID c \<and> pc_PackageBaseID (f u ts c) = pc_PackageBaseID c
      \<and> pc_UsersID (f u ts c) = pc_UsersID c"
    and "\<And>u ts c. u_ID u \<in> U \<Longrightarrow> pc_DelUsersID (f u ts c) = pc_DelUsersID c \<or> refers (pc_DelUsersID (f u ts c)) U"
    and "\<And>u ts c. u_ID u \<in> U \<Longrightarrow> pc_EditedUsersID (f u ts c) = pc_EditedUsersID c \<or> refers (pc_EditedUsersID (f u ts c)) U"
  shows "keeps_ok U B (comment_action cfg rq name i next cred approved denied f)"
  unfolding comment_action_def
  by (intro ok_route keeps_intros ok_update_comment) (use assms in auto)

lemma ok_comment_actions:
  assumes "known U rq"
  shows "keeps_ok U B (pkgbase_comment_pin cfg rq name i next)" "keeps_ok U B (pkgbase_comment_unpin cfg rq name i next)"
    "keeps_ok U B (pkgbase_comment_delete cfg rq name i next)" "keeps_ok U B (pkgbase_comment_undelete cfg rq name i next)"
  unfolding pkgbase_comment_pin_def pkgbase_comment_unpin_def pkgbase_comment_delete_def pkgbase_comment_undelete_def
  by (rule ok_comment_action [OF assms]; simp)+

lemma wp_run_single_eq: "run_single cfg i w = (Inr (), w\<lparr>the_db := recounted cfg (now w) (\<lambda>b. pb_ID b = i) (the_db w)\<rparr>)"
  by (rule run_eqI) (simp add: wp_run_single)

lemma ok_recount:
  assumes "wf_db d" and "votes_ok_but {i} d" and "user_ids d = U" and "base_ids d = B"
  shows "db_ok_on U B (recounted cfg ts (\<lambda>b. pb_ID b = i) d)"
  using recounted_wf [OF assms(1)] recounted_votes [OF assms(2), of "\<lambda>b. pb_ID b = i"] assms(3,4)
  by (simp add: db_ok_on_def db_ok_def recounted_ids)

lemma votes_ok_butI:
  assumes "votes_ok d" and "PackageBases d' = PackageBases d" and "\<And>j. j \<noteq> i \<Longrightarrow> votes_of j d' = votes_of j d"
  shows "votes_ok_but {i} d'"
  using assms by (simp add: votes_ok_def votes_ok_but_def)

lemma ok_web_vote:
  assumes "db_ok_on U B d" and "uid \<in> U" and "i \<in> B" and "List.find (vote_by uid i) (PackageVotes d) = None"
  shows "db_ok_on U B (recounted cfg ts (\<lambda>b. pb_ID b = i) (d\<lparr>PackageVotes := PackageVotes d @
     [\<lparr>pv_UsersID = uid, pv_PackageBaseID = i, pv_VoteTS = vts\<rparr>]\<rparr>))"
proof (rule ok_recount)
  let ?v = "\<lparr>pv_UsersID = uid, pv_PackageBaseID = i, pv_VoteTS = vts\<rparr>"
  have d: "wf_db d" "votes_ok d" "user_ids d = U" "base_ids d = B"
    using assms(1) by (simp_all add: db_ok_on_def db_ok_def)
  show "wf_db (d\<lparr>PackageVotes := PackageVotes d @ [?v]\<rparr>)"
    by (rule wf_PackageVotes_insert [OF d(1)]) (use assms(2-4) d in \<open>auto simp: find_None_iff vote_by_def\<close>)
  show "votes_ok_but {i} (d\<lparr>PackageVotes := PackageVotes d @ [?v]\<rparr>)"
    by (rule votes_ok_butI [OF d(2)]) (simp_all add: votes_of_def table_simps)
qed (use assms(1) in \<open>simp_all add: db_ok_on_def user_ids_def base_ids_def\<close>)

lemma ok_web_unvote:
  assumes "db_ok_on U B d"
  shows "db_ok_on U B (recounted cfg ts (\<lambda>b. pb_ID b = i) (d\<lparr>PackageVotes :=
     delete_where (vote_by uid i) (PackageVotes d)\<rparr>))"
proof (rule ok_recount)
  have d: "wf_db d" "votes_ok d"
    using assms(1) by (simp_all add: db_ok_on_def db_ok_def)
  show "wf_db (d\<lparr>PackageVotes := delete_where (vote_by uid i) (PackageVotes d)\<rparr>)"
    by (rule wf_PackageVotes_delete [OF d(1)])
  show "votes_ok_but {i} (d\<lparr>PackageVotes := delete_where (vote_by uid i) (PackageVotes d)\<rparr>)"
    by (rule votes_ok_butI [OF d(2)])
      (auto simp: votes_of_def table_simps vote_by_def intro!: count_where_cong)
qed (use assms(1) in \<open>simp_all add: db_ok_on_def user_ids_def base_ids_def\<close>)

lemma ok_cast_vote:
  assumes "u_ID u \<in> U" and "i \<in> B"
  shows "keeps_ok U B (cast_vote cfg u i)"
proof (rule keepsI)
  fix w assume "db_inv (db_ok_on U B) w"
  with assms show "wp (cast_vote cfg u i) (\<lambda>_. db_inv (db_ok_on U B)) (\<lambda>_. db_inv (db_ok_on U B)) w"
    by (simp add: cast_vote_def wp_simps wp_run_single db_inv_def ok_web_vote)
qed

lemma ok_withdraw_vote: "keeps_ok U B (withdraw_vote cfg u i)"
proof (rule keepsI)
  fix w assume "db_inv (db_ok_on U B) w"
  then show "wp (withdraw_vote cfg u i) (\<lambda>_. db_inv (db_ok_on U B)) (\<lambda>_. db_inv (db_ok_on U B)) w"
    by (simp add: withdraw_vote_def wp_simps wp_run_single db_inv_def ok_web_unvote)
qed

lemma ok_vote_routes:
  assumes "known U rq"
  shows "keeps_ok U B (pkgbase_vote_post cfg rq name)" "keeps_ok U B (pkgbase_unvote_post cfg rq name)"
    "keeps_ok U B (pkgbase_notify_post cfg rq name)" "keeps_ok U B (pkgbase_unnotify_post cfg rq name)"
  unfolding pkgbase_vote_post_def pkgbase_unvote_post_def pkgbase_notify_post_def pkgbase_unnotify_post_def
  by (intro ok_route keeps_intros ok_cast_vote ok_withdraw_vote ok_notify ok_unnotify assms; assumption)+

lemma ok_disown_form: "u_ID u \<in> U \<Longrightarrow> pb_ID b \<in> B \<Longrightarrow> keeps_ok U B (disown_form cfg u b name comments confirm next approved)"
  unfolding disown_form_def
  by (intro keeps_if keeps_seqp keeps_whenp keeps_ret keeps_catch db_inv_transaction
      ok_update_closure_comment ok_pkgbase_disown_instance)
    (auto simp: keeps_throw keeps_ret split: exn.splits aurweb_exception.splits)

lemma ok_pkgbase_disown_post: "known U rq \<Longrightarrow> keeps_ok U B (pkgbase_disown_post cfg rq name comments confirm next)"
  unfolding pkgbase_disown_post_def
  by (intro ok_route keeps_andthen keeps_seqp keeps_whenp db_inv_query ok_comment_raise_http_ex ok_disown_form)

text \<open>A request that is granted was filed by a user.\<close>

lemma ok_pkgbase_adopt_post:
  assumes "known U rq"
  shows "keeps_ok U B (pkgbase_adopt_post cfg rq name next via)"
  unfolding pkgbase_adopt_post_def Let_def
proof (intro ok_route keeps_seqp keeps_whenp keeps_ret assms, rule keepsI)
  fix u :: users_row and b :: packagebases_row and w
  assume *: "u_ID u \<in> U" "pb_ID b \<in> B" "db_inv (db_ok_on U B) w"
  have "refers (pr_UsersID r) U" if "pending_adoption_request b via (the_db w) = Some r" for r
  proof -
    have "r \<in> set (PackageRequests (the_db w))"
      using that by (auto simp: pending_adoption_request_def dest: find_SomeD split: if_splits)
    with *(3) show ?thesis
      by (auto simp: db_inv_def db_ok_on_def db_ok_def wf_db_def refs_ok_def)
  qed
  then have "keeps_ok U B (pkgbase_adopt_instance cfg u b
      (if has_credential (LoggedIn u) PKGBASE_ADOPT [] then pending_adoption_request b via (the_db w) else None))"
    by (intro ok_pkgbase_adopt_instance *) (simp split: if_splits)
  from keeps_wp [OF this *(3)]
  show "wp (andthen (query (pending_adoption_request b via)) (\<lambda>found. pkgbase_adopt_instance cfg u b
      (if has_credential (LoggedIn u) PKGBASE_ADOPT [] then found else None)))
      (\<lambda>_. db_inv (db_ok_on U B)) (\<lambda>_. db_inv (db_ok_on U B)) w"
    by (simp only: wp_andthen wp_query)
qed

lemma ok_pkgbase_comaintainers_post: "known U rq \<Longrightarrow> keeps_ok U B (pkgbase_comaintainers_post cfg rq name users)"
  unfolding pkgbase_comaintainers_post_def
  by (intro ok_route keeps_intros ok_remove_comaintainers ok_add_comaintainers)

text \<open>
  The routes that may delete a package base keep the constraints and the set of users. They look the
  package base up first; until it is deleted the sets stay as they were then.
\<close>

definition site_ok :: "nat set \<Rightarrow> db \<Rightarrow> bool" where
  "site_ok U d \<longleftrightarrow> db_ok d \<and> user_ids d = U"

lemma ok_site: "db_inv (db_ok_on U B) w \<Longrightarrow> db_inv (site_ok U) w"
  by (simp add: db_inv_def db_ok_on_def site_ok_def)

lemma site_ok_on: "db_inv (site_ok U) w \<Longrightarrow> db_inv (db_ok_on U (base_ids (the_db w))) w"
  by (simp add: db_inv_def db_ok_on_def site_ok_def)

abbreviation may_delete :: "nat set \<Rightarrow> nat set \<Rightarrow> 'a aur \<Rightarrow> bool" where
  "may_delete U B m \<equiv> leads (db_inv (db_ok_on U B)) (db_inv (site_ok U)) m"

lemma site_ok_keeps:
  assumes "\<And>B. may_delete U B m"
  shows "keeps (db_inv (site_ok U)) m"
  using assms site_ok_on unfolding leads_def keeps_def by blast

lemma may_delete_ok: "keeps_ok U B m \<Longrightarrow> may_delete U B m"
  by (rule leads_keeps) (simp_all add: ok_site)

lemma may_delete_before: "keeps_ok U B m \<Longrightarrow> (\<And>x. may_delete U B (f x)) \<Longrightarrow> may_delete U B (andthen m f)"
  by (rule leads_before) (simp_all add: ok_site)

lemma may_delete_seqp: "keeps_ok U B m \<Longrightarrow> may_delete U B n \<Longrightarrow> may_delete U B (seqp m n)"
  by (simp add: seqp_def may_delete_before)

lemma may_delete_after: "may_delete U B m \<Longrightarrow> (\<And>x. keeps (db_inv (site_ok U)) (f x)) \<Longrightarrow> may_delete U B (andthen m f)"
  by (rule leads_after)

lemma may_delete_seqp_after: "may_delete U B m \<Longrightarrow> keeps (db_inv (site_ok U)) n \<Longrightarrow> may_delete U B (seqp m n)"
  by (simp add: seqp_def may_delete_after)

lemma may_delete_if: "(c \<Longrightarrow> may_delete U B m) \<Longrightarrow> (\<not> c \<Longrightarrow> may_delete U B n) \<Longrightarrow> may_delete U B (if c then m else n)"
  by simp

lemma may_delete_requires_auth:
  "known U rq \<Longrightarrow> (\<And>u. u_ID u \<in> U \<Longrightarrow> may_delete U B (f u)) \<Longrightarrow> may_delete U B (requires_auth cfg rq f)"
  by (auto simp: requires_auth_def known_def Let_def intro!: may_delete_ok keeps_ret keeps_throw
      split: requester.splits option.splits)

lemma may_delete_get:
  assumes "\<And>b. pb_ID b \<in> B \<Longrightarrow> may_delete U B (f b)"
  shows "may_delete U B (andthen (get_pkg_or_base name) f)"
  unfolding leads_wp
proof (intro allI impI)
  fix w assume w: "db_inv (db_ok_on U B) w"
  show "wp (andthen (get_pkg_or_base name) f) (\<lambda>_. db_inv (site_ok U)) (\<lambda>_. db_inv (site_ok U)) w"
  proof (cases "List.find (\<lambda>b. pb_Name b = name) (PackageBases (the_db w))")
    case None
    with ok_site [OF w] show ?thesis by (simp add: wp_andthen wp_get_pkg_or_base)
  next
    case (Some b)
    then have "pb_ID b \<in> base_ids (the_db w)"
      by (auto simp: base_ids_def dest: find_SomeD)
    with w have "pb_ID b \<in> B"
      by (simp add: db_inv_def db_ok_on_def)
    with assms w Some show ?thesis
      unfolding leads_wp by (simp add: wp_andthen wp_get_pkg_or_base)
  qed
qed

lemma site_ok_without: "db_ok_on U B d \<Longrightarrow> site_ok U (without_base i d)"
  by (simp add: db_ok_on_def db_ok_def site_ok_def without_base_ok [unfolded db_ok_def] without_base_ids)

lemma may_delete_retry_delete: "may_delete U B (retry_delete b comments)"
  unfolding leads_wp
proof (intro allI impI)
  fix w assume w: "db_inv (db_ok_on U B) w"
  from keepsD [OF ok_update_closure_comment w, of b DELETION_ID comments None]
  show "wp (retry_delete b comments) (\<lambda>_. db_inv (site_ok U)) (\<lambda>_. db_inv (site_ok U)) w"
    by (simp add: wp_retry_delete db_inv_def site_ok_without)
qed

lemma may_delete_instance:
  "u_ID u \<in> U \<Longrightarrow> pb_ID b \<in> B \<Longrightarrow> may_delete U B (pkgbase_delete_instance cfg u b comments)"
  unfolding pkgbase_delete_instance_def
  by (intro may_delete_before may_delete_seqp_after ok_handle_request may_delete_retry_delete keeps_ret)

lemma may_delete_retry_merge:
  assumes "pb_ID b \<noteq> pb_ID t" and "pb_ID t \<in> B"
  shows "may_delete U B (retry_merge cfg b t)"
  unfolding leads_wp
  using assms merged_ok [of _ "pb_ID b" "pb_ID t" cfg]
  by (simp add: wp_retry_merge merged_def [symmetric] db_inv_def db_ok_on_def site_ok_def)

lemma may_delete_merge_instance:
  "u_ID u \<in> U \<Longrightarrow> pb_ID b \<in> B \<Longrightarrow> pb_ID b \<noteq> pb_ID t \<Longrightarrow> pb_ID t \<in> B
    \<Longrightarrow> may_delete U B (pkgbase_merge_instance cfg u b t comments)"
  unfolding pkgbase_merge_instance_def
  by (intro may_delete_before may_delete_seqp_after ok_handle_request may_delete_retry_merge keeps_for_each db_inv_send)

lemma ok_delete_post:
  assumes "known U rq"
  shows "may_delete U B (pkgbase_delete_post cfg rq name confirm comments next)"
  unfolding pkgbase_delete_post_def
  by (intro may_delete_requires_auth may_delete_get may_delete_if may_delete_seqp may_delete_after
      may_delete_instance keeps_seqp keeps_for_each db_inv_send keeps_ret keeps_whenp ok_comment_raise_http_ex
      db_inv_transaction db_inv_execute ok_PackageRequests_update may_delete_ok assms) simp_all

lemma may_delete_find:
  assumes "may_delete U B (f None)" and "\<And>b. pb_ID b \<in> B \<Longrightarrow> may_delete U B (f (Some b))"
  shows "may_delete U B (andthen (query (\<lambda>d. List.find p (PackageBases d))) f)"
  unfolding leads_wp
proof (intro allI impI)
  fix w assume w: "db_inv (db_ok_on U B) w"
  have "may_delete U B (f (List.find p (PackageBases (the_db w))))"
  proof (cases "List.find p (PackageBases (the_db w))")
    case (Some b)
    with w have "pb_ID b \<in> B"
      by (auto simp: db_inv_def db_ok_on_def base_ids_def dest: find_SomeD)
    with assms(2) Some show ?thesis by simp
  qed (simp add: assms(1))
  with w show "wp (andthen (query (\<lambda>d. List.find p (PackageBases d))) f)
      (\<lambda>_. db_inv (site_ok U)) (\<lambda>_. db_inv (site_ok U)) w"
    by (simp add: leads_wp wp_andthen wp_query)
qed

lemma ok_merge_post:
  assumes "known U rq"
  shows "may_delete U B (pkgbase_merge_post cfg rq name into comments confirm next)"
  unfolding pkgbase_merge_post_def
  by (intro may_delete_requires_auth may_delete_get may_delete_if may_delete_find may_delete_ok [OF keeps_ret] assms,
      simp_all only: option.case)
    (intro may_delete_ok [OF keeps_ret] may_delete_seqp may_delete_seqp_after may_delete_if keeps_ret keeps_whenp
      ok_comment_raise_http_ex db_inv_transaction ok_update_closure_comment may_delete_merge_instance; assumption)+

lemma may_delete_auto_accept:
  assumes "u_ID u \<in> U" and "pb_ID b \<in> B"
  shows "may_delete U B (auto_accept cfg u b type comments pkgreq ts)"
  unfolding auto_accept_def
  by (intro may_delete_if may_delete_after may_delete_seqp may_delete_instance keeps_for_each db_inv_send assms
      may_delete_ok [OF keeps_ret] may_delete_ok [OF db_inv_send] db_inv_transaction keeps_seqp
      ok_update_base db_inv_execute ok_PackageRequests_update) simp_all

lemma ok_request_errors: "keeps P (request_errors cfg b type merge_into comments)"
  unfolding request_errors_def
  by (intro keeps_catch keeps_seqp ok_validate_request keeps_ret)
    (auto simp: keeps_throw keeps_ret split: exn.splits aurweb_exception.splits)

lemma may_delete_case:
  "may_delete U B m \<Longrightarrow> (\<And>y. may_delete U B (f y)) \<Longrightarrow> may_delete U B (case x of None \<Rightarrow> m | Some y \<Rightarrow> f y)"
  by (cases x) simp_all

lemma may_delete_file_request:
  "u_ID u \<in> U \<Longrightarrow> pb_ID b \<in> B \<Longrightarrow> may_delete U B (file_request cfg u b reqtype type merge_into comments ts)"
  unfolding file_request_def
  by (intro may_delete_before may_delete_seqp may_delete_seqp_after may_delete_auto_accept db_inv_send keeps_ret
      db_inv_transaction ok_create_request)
    (simp_all add: filed_request_def)

lemma ok_request_post: "known U rq \<Longrightarrow> may_delete U B (pkgbase_request_post cfg rq name type merge_into comments)"
  unfolding pkgbase_request_post_def
  by (intro may_delete_requires_auth may_delete_get may_delete_case may_delete_before ok_request_errors
      may_delete_file_request keeps_utcnow may_delete_ok [OF keeps_ret])

end
