(* ===== verification/Pkgbase_Forms.thy ===== *)
theory Pkgbase_Forms
  imports Pkgbase_Routes
begin

text \<open>
  The forms of a package base together: \<open>pkgbase_form\<close> lists the POST routes of
  \<open>aurweb/routers/pkgbase.py\<close> with the fields of their forms, \<open>pkgbase_route\<close> runs one. What holds
  for all of them: the constraints, who may change the maintainer, who may change a comment.
\<close>

section \<open>The forms\<close>

datatype pkgbase_form =
    Set_keywords string
  | Flag string
  | Unflag
  | Add_comment string bool
  | Edit_comment nat string bool "string option" bool
  | Pin_comment nat "string option"
  | Unpin_comment nat "string option"
  | Delete_comment nat "string option"
  | Undelete_comment nat "string option"
  | Vote
  | Unvote
  | Notify
  | Unnotify
  | Disown string bool string
  | Adopt string nat
  | Set_comaintainers string
  | File_request string "string option" string
  | Delete bool string string
  | Merge string string bool string

fun pkgbase_route :: "config \<Rightarrow> request \<Rightarrow> string \<Rightarrow> pkgbase_form \<Rightarrow> response aur" where
  "pkgbase_route cfg rq name (Set_keywords keywords) = pkgbase_keywords cfg rq name keywords"
| "pkgbase_route cfg rq name (Flag comments) = pkgbase_flag_post cfg rq name comments"
| "pkgbase_route cfg rq name Unflag = pkgbase_unflag_post cfg rq name"
| "pkgbase_route cfg rq name (Add_comment comment enable) = pkgbase_comments_post cfg rq name comment enable"
| "pkgbase_route cfg rq name (Edit_comment i comment enable next cancel) =
     pkgbase_comment_post cfg rq name i comment enable next cancel"
| "pkgbase_route cfg rq name (Pin_comment i next) = pkgbase_comment_pin cfg rq name i next"
| "pkgbase_route cfg rq name (Unpin_comment i next) = pkgbase_comment_unpin cfg rq name i next"
| "pkgbase_route cfg rq name (Delete_comment i next) = pkgbase_comment_delete cfg rq name i next"
| "pkgbase_route cfg rq name (Undelete_comment i next) = pkgbase_comment_undelete cfg rq name i next"
| "pkgbase_route cfg rq name Vote = pkgbase_vote_post cfg rq name"
| "pkgbase_route cfg rq name Unvote = pkgbase_unvote_post cfg rq name"
| "pkgbase_route cfg rq name Notify = pkgbase_notify_post cfg rq name"
| "pkgbase_route cfg rq name Unnotify = pkgbase_unnotify_post cfg rq name"
| "pkgbase_route cfg rq name (Disown comments confirm next) = pkgbase_disown_post cfg rq name comments confirm next"
| "pkgbase_route cfg rq name (Adopt next via) = pkgbase_adopt_post cfg rq name next via"
| "pkgbase_route cfg rq name (Set_comaintainers users) = pkgbase_comaintainers_post cfg rq name users"
| "pkgbase_route cfg rq name (File_request type merge_into comments) =
     pkgbase_request_post cfg rq name type merge_into comments"
| "pkgbase_route cfg rq name (Delete confirm comments next) = pkgbase_delete_post cfg rq name confirm comments next"
| "pkgbase_route cfg rq name (Merge into comments confirm next) =
     pkgbase_merge_post cfg rq name into comments confirm next"

lemma ok_pkgbase_route: "known U rq \<Longrightarrow> keeps (db_inv (site_ok U)) (pkgbase_route cfg rq name form)"
  by (rule site_ok_keeps, cases form)
    (simp_all only: pkgbase_route.simps ok_delete_post ok_merge_post ok_request_post may_delete_ok
      ok_pkgbase_keywords ok_pkgbase_flag_post ok_pkgbase_unflag_post ok_pkgbase_comments_post
      ok_pkgbase_comment_post ok_comment_actions ok_vote_routes ok_pkgbase_disown_post
      ok_pkgbase_adopt_post ok_pkgbase_comaintainers_post)

section \<open>Who maintains what\<close>

text \<open>The parts of the routes that leave every maintainer alone.\<close>

lemma maintainers_update_comment: "keeps_maintainers M (update_comment i f)"
  unfolding update_comment_def by (intro keeps_intros) simp_all

lemma maintainers_notify_unless: "keeps_maintainers M (notify_unless c uid i)"
  unfolding notify_unless_def add_notification_def by (intro keeps_intros) simp_all

lemma maintainers_replace_keywords: "keeps_maintainers M (replace_keywords cfg i ks)"
  unfolding replace_keywords_def Let_def by (intro keeps_intros) simp_all

lemma maintainers_run_variable: "keeps_maintainers M (run_variable cfg is)"
  unfolding run_variable_def by (intro keeps_intros) simp_all

lemma maintainers_update_base:
  "(\<And>b. pb_ID (f b) = pb_ID b \<and> pb_Name (f b) = pb_Name b \<and> pb_MaintainerUID (f b) = pb_MaintainerUID b)
    \<Longrightarrow> keeps_maintainers M (update_base i f)"
  unfolding update_base_def by (intro keeps_intros) simp_all

lemma maintainers_add_comaintainers: "keeps_maintainers M (add_comaintainers i names)"
  unfolding add_comaintainers_def add_comaintainer_def
  by (intro keeps_andthen db_inv_query) (auto intro!: keeps_intros split: sum.splits)

lemma maintainers_rotate: "keeps_maintainers M (rotate_comaintainers i)"
  unfolding rotate_comaintainers_def by (auto intro!: keeps_intros)

lemma maintainers_remove_comaintainer: "keeps_maintainers M (remove_comaintainer c)"
  unfolding remove_comaintainer_def delete_comaint_def by (intro keeps_intros maintainers_rotate) simp_all

lemma maintainers_remove_comaintainers: "keeps_maintainers M (remove_comaintainers i names)"
  unfolding remove_comaintainers_def delete_comaint_def by (intro keeps_intros maintainers_rotate) simp_all

lemma maintainers_create_request: "keeps_maintainers M (create_request f)"
  unfolding create_request_def by (intro keeps_intros) simp_all

lemma maintainers_update_closure_comment: "keeps_maintainers M (update_closure_comment b t c target)"
  unfolding update_closure_comment_def by (intro keeps_intros keeps_if) simp_all

lemma maintainers_handle_request: "keeps_maintainers M (handle_request cfg u t b target comments ids)"
  unfolding handle_request_def Let_def retry_closures_def close_pkgreq_def verify_orphan_request_def
  by (intro keeps_intros keeps_if maintainers_create_request keeps_get_closure) simp_all

lemma maintainers_instances:
  "keeps_maintainers M (pkgbase_notify_instance u b)" "keeps_maintainers M (pkgbase_unnotify_instance u b)"
  "keeps_maintainers M (pkgbase_unflag_instance u b)"
  unfolding pkgbase_notify_instance_def retry_notify_def pkgbase_unnotify_instance_def retry_unnotify_def
    pkgbase_unflag_instance_def retry_unflag_def
  by (intro keeps_intros maintainers_update_base; simp)+

lemmas maintainers_parts = maintainers_update_comment maintainers_notify_unless maintainers_replace_keywords
  maintainers_run_variable maintainers_update_base maintainers_add_comaintainers maintainers_remove_comaintainers
  maintainers_create_request maintainers_update_closure_comment maintainers_handle_request maintainers_instances

lemma keeps_get_pkg_or_base [keeps_intros]: "keeps P (get_pkg_or_base name)"
  unfolding get_pkg_or_base_def by (intro keeps_intros)

lemma maintainers_comment_action: "keeps_maintainers M (comment_action cfg rq name i next cred approved denied f)"
  unfolding comment_action_def by (intro keeps_intros maintainers_update_comment)

lemma maintainers_insert_comment: "keeps_maintainers M (insert_comment b u c ts)"
  unfolding insert_comment_def by (intro keeps_intros) simp_all


fun may_move :: "pkgbase_form \<Rightarrow> bool" where
  "may_move (Disown comments confirm next) = True"
| "may_move (Adopt next via) = True"
| "may_move (File_request type merge_into comments) = True"
| "may_move (Delete confirm comments next) = True"
| "may_move (Merge into comments confirm next) = True"
| "may_move _ = False"

lemma maintainers_plain_forms: "\<not> may_move form \<Longrightarrow> keeps_maintainers M (pkgbase_route cfg rq name form)"
  by (cases form)
    (simp_all only: pkgbase_route.simps may_move.simps pkgbase_keywords_def pkgbase_flag_post_def
      pkgbase_unflag_post_def pkgbase_comments_post_def pkgbase_comment_post_def pkgbase_comment_pin_def
      pkgbase_comment_unpin_def pkgbase_comment_delete_def pkgbase_comment_undelete_def pkgbase_vote_post_def
      pkgbase_unvote_post_def cast_vote_def withdraw_vote_def run_single_def pkgbase_notify_post_def
      pkgbase_unnotify_post_def pkgbase_comaintainers_post_def update_comment_render_def not_True_eq_False False_implies_equals
      maintainers_comment_action;
    intro keeps_intros maintainers_parts maintainers_insert_comment ok_comment_raise_http_ex ok_get_pkgbase_comment; simp)+


text \<open>The five forms that may change a maintainer touch that of the one package base only.\<close>

lemma maintainers_but_keeps: "(\<And>M. keeps_maintainers M m) \<Longrightarrow> keeps_maintainers_but X N m"
  unfolding keeps_def db_inv_def by (metis maintainers_but_same)

lemma maintainers_but_update_base:
  "(\<And>b. pb_ID (f b) = pb_ID b) \<Longrightarrow> keeps_maintainers_but {i} M (update_base i f)"
  unfolding update_base_def by (intro keeps_intros) (simp add: maintainers_but_update)

lemma maintainers_without_base: "maintainers_but {i} (without_base i d) = maintainers_but {i} d"
proof -
  have "filter (\<lambda>(j, name, m). j \<notin> {i}) (map (\<lambda>b. (pb_ID b, pb_Name b, pb_MaintainerUID b)) (delete_where (\<lambda>b. pb_ID b = i) bs))
    = filter (\<lambda>(j, name, m). j \<notin> {i}) (map (\<lambda>b. (pb_ID b, pb_Name b, pb_MaintainerUID b)) bs)" for bs
    by (induction bs) (simp_all add: delete_where_def)
  then show ?thesis
    by (simp add: maintainers_but_def maintainers_def without_base_def delete_pkgbases_def delete_packages_def Let_def)
qed

lemma maintainers_but_delete: "keeps_maintainers_but {pb_ID b} M (retry_delete b comments)"
  unfolding retry_delete_def without_base_def [symmetric]
  by (intro keeps_intros maintainers_but_keeps [OF maintainers_update_closure_comment])
    (simp add: maintainers_without_base)

lemma maintainers_sweep [simp]: "maintainers (delete_packages p d) = maintainers d"
  "maintainers (recounted cfg ts q d) = maintainers d" "maintainers (migrate i t d) = maintainers d"
  by (simp_all add: maintainers_def delete_packages_def recounted_def migrate_def Let_def map_update_where_same)

lemma maintainers_but_sweep [simp]: "maintainers_but X (delete_packages p d) = maintainers_but X d"
  "maintainers_but X (recounted cfg ts q d) = maintainers_but X d" "maintainers_but X (migrate i t d) = maintainers_but X d"
  by (simp_all add: maintainers_but_def)

lemma maintainers_but_merge: "keeps_maintainers_but {pb_ID b} M (retry_merge cfg b t)"
  by (rule keepsI) (simp add: wp_retry_merge db_inv_def maintainers_without_base)

lemma maintainers_but_disown: "keeps_maintainers_but {pb_ID b} M (pkgbase_disown_instance cfg u b)"
proof -
  have as_maintainer: "keeps_maintainers_but {i} M (disown_as_maintainer i)" for i
    unfolding disown_as_maintainer_def
    by (intro db_inv_transaction keeps_andthen db_inv_query)
      (auto intro!: keeps_seqp keeps_andthen keeps_ret maintainers_but_update_base
        maintainers_but_keeps [OF maintainers_remove_comaintainer] split: list.splits)
  show ?thesis
    unfolding pkgbase_disown_instance_def retry_disown_def disown_as_comaintainer_def disown_as_privileged_def
      delete_comaints_def
    by (intro keeps_intros as_maintainer maintainers_but_update_base
        maintainers_but_keeps [OF maintainers_remove_comaintainer] maintainers_but_keeps [OF maintainers_handle_request])
      (simp_all add: maintainers_but_def)
qed

lemma maintainers_but_adopt: "keeps_maintainers_but {pb_ID b} M (pkgbase_adopt_instance cfg u b r)"
  unfolding pkgbase_adopt_instance_def Let_def split_beta retry_adopt_def retry_request_adoption_def
  by (intro keeps_intros maintainers_but_update_base maintainers_but_keeps [OF maintainers_handle_request]
      maintainers_but_keeps [OF maintainers_create_request]) simp_all

lemma maintainers_but_instances:
  "keeps_maintainers_but {pb_ID b} M (pkgbase_delete_instance cfg u b comments)"
  "keeps_maintainers_but {pb_ID b} M (pkgbase_merge_instance cfg u b t comments)"
  "keeps_maintainers_but {pb_ID b} M (auto_accept cfg u b type comments pkgreq ts)"
  unfolding pkgbase_delete_instance_def pkgbase_merge_instance_def auto_accept_def
  by (intro keeps_intros maintainers_but_delete maintainers_but_merge maintainers_but_update_base
      maintainers_but_keeps [OF maintainers_handle_request]; simp add: maintainers_but_def)+


text \<open>Who may change the maintainer of the package base \<open>b\<close> with which form, at the time \<open>t\<close>.\<close>

fun may_move_by :: "config \<Rightarrow> users_row \<Rightarrow> packagebases_row \<Rightarrow> int \<Rightarrow> db \<Rightarrow> pkgbase_form \<Rightarrow> bool" where
  "may_move_by cfg u b t d (Disown comments confirm next) \<longleftrightarrow>
     confirm \<and> has_credential (LoggedIn u) PKGBASE_DISOWN (maintainers_of (pb_ID b) d)"
| "may_move_by cfg u b t d (Adopt next via) \<longleftrightarrow> has_credential (LoggedIn u) PKGBASE_ADOPT []"
| "may_move_by cfg u b t d (File_request type merge_into comments) \<longleftrightarrow>
     type = ''orphan'' \<and> (\<exists>ts. pb_OutOfDateTS b = Some ts \<and> ts \<noteq> 0 \<and> auto_orphan_age cfg \<le> t - ts)
     \<or> type = ''deletion'' \<and> pb_MaintainerUID b = Some (u_ID u) \<and> t - pb_SubmittedTS b \<le> auto_delete_age cfg"
| "may_move_by cfg u b t d (Delete confirm comments next) \<longleftrightarrow>
     confirm \<and> has_credential (LoggedIn u) PKGBASE_DELETE []"
| "may_move_by cfg u b t d (Merge into comments confirm next) \<longleftrightarrow>
     confirm \<and> has_credential (LoggedIn u) PKGBASE_MERGE []"
| "may_move_by cfg u b t d _ \<longleftrightarrow> False"

text \<open>A run of a route: without a user or a package base of the name nothing changes.\<close>

lemma route_cases:
  assumes "\<And>u b. rq_user rq = LoggedIn u \<Longrightarrow> List.find (\<lambda>b. pb_Name b = name) (PackageBases (the_db w)) = Some b
      \<Longrightarrow> R (the_db (snd (f u b w)))"
    and "R (the_db w)"
  shows "R (the_db (snd (requires_auth cfg rq (\<lambda>u. andthen (get_pkg_or_base name) (f u)) w)))"
proof (cases "rq_user rq")
  case AnonymousUser
  then have "keeps ((=) w) (requires_auth cfg rq (\<lambda>u. andthen (get_pkg_or_base name) (f u)))"
    by (intro keeps_requires_auth) simp
  from keepsD [OF this] assms(2) show ?thesis by simp
next
  case (LoggedIn u)
  have "wp (get_pkg_or_base name) (\<lambda>b w'. R (the_db (snd (f u b w')))) (\<lambda>_ w'. R (the_db w')) w"
    using assms LoggedIn by (auto simp: wp_get_pkg_or_base split: option.splits)
  then have "R (the_db (snd (andthen (get_pkg_or_base name) (f u) w)))"
    by (auto simp: wp_def andthen_def split: prod.splits sum.splits)
  with LoggedIn show ?thesis
    by (simp add: requires_auth_def)
qed

definition moved_rightly :: "config \<Rightarrow> request \<Rightarrow> string \<Rightarrow> pkgbase_form \<Rightarrow> int \<Rightarrow> db \<Rightarrow> db \<Rightarrow> bool" where
  "moved_rightly cfg rq name form t d d' \<longleftrightarrow> maintainers d' = maintainers d
     \<or> (\<exists>u b. rq_user rq = LoggedIn u \<and> b \<in> set (PackageBases d) \<and> pb_Name b = name
         \<and> may_move_by cfg u b t d form \<and> maintainers_but {pb_ID b} d' = maintainers_but {pb_ID b} d)"

text \<open>It is enough to look at the body of a route, with the right and without.\<close>

lemma moved_rightlyI:
  assumes "\<And>u b. rq_user rq = LoggedIn u \<Longrightarrow> \<not> may_move_by cfg u b (now w) (the_db w) form \<Longrightarrow>
      maintainers (the_db (snd (f u b w))) = maintainers (the_db w)"
    and "\<And>u b M. keeps_maintainers_but {pb_ID b} M (f u b)"
  shows "moved_rightly cfg rq name form (now w) (the_db w)
    (the_db (snd (requires_auth cfg rq (\<lambda>u. andthen (get_pkg_or_base name) (f u)) w)))"
proof (rule route_cases)
  fix u b
  assume u: "rq_user rq = LoggedIn u" and b: "List.find (\<lambda>b. pb_Name b = name) (PackageBases (the_db w)) = Some b"
  have "maintainers_but {pb_ID b} (the_db (snd (f u b w))) = maintainers_but {pb_ID b} (the_db w)"
    using keepsD [OF assms(2) [of b "maintainers_but {pb_ID b} (the_db w)" u], of w] by (simp add: db_inv_def)
  with u find_SomeD [OF b] assms(1) [OF u, of b]
  show "moved_rightly cfg rq name form (now w) (the_db w) (the_db (snd (f u b w)))"
    unfolding moved_rightly_def by blast
qed (simp add: moved_rightly_def)

lemma kept_maintainers: "(\<And>M. keeps_maintainers M m) \<Longrightarrow> maintainers (the_db (snd (m w))) = maintainers (the_db w)"
  unfolding keeps_def db_inv_def by simp

text \<open>A check before the body leaves no trace.\<close>

lemma after_check_value:
  assumes "\<And>P. keeps P m" and "P (the_db w)" and "\<And>x. P (the_db (snd (n x w)))"
  shows "P (the_db (snd (andthen m n w)))"
proof -
  have "wp m (\<lambda>_. (=) w) (\<lambda>_. (=) w) w"
    by (intro keeps_wp assms(1) refl)
  then have "wp (andthen m n) (\<lambda>_ w'. P (the_db w')) (\<lambda>_ w'. P (the_db w')) w"
    unfolding wp_andthen by (rule wp_mono) (use assms snd_wp [of "\<lambda>w. P (the_db w)" "n x" w for x] in auto)
  then show ?thesis
    using snd_wp [of "\<lambda>w. P (the_db w)" "andthen m n" w] by simp
qed

lemma after_check:
  "(\<And>P. keeps P m) \<Longrightarrow> P (the_db w) \<Longrightarrow> P (the_db (snd (n w))) \<Longrightarrow> P (the_db (snd (seqp m n w)))"
  unfolding seqp_def by (rule after_check_value)

lemma snd_utcnow: "snd (andthen utcnow g w) = snd (g (now w) w)"
  by (simp add: andthen_def utcnow_def gets_def)

lemma snd_query: "snd (andthen (query f) g w) = snd (g (f (the_db w)) w)"
  by (simp add: andthen_def query_def gets_def)

lemma moved_disown: "moved_rightly cfg rq name (Disown comments confirm next) (now w) (the_db w)
    (the_db (snd (pkgbase_disown_post cfg rq name comments confirm next w)))"
  unfolding pkgbase_disown_post_def
proof (rule moved_rightlyI)
  fix u and b :: packagebases_row
  assume no: "\<not> may_move_by cfg u b (now w) (the_db w) (Disown comments confirm next)"
  show "maintainers (the_db (snd (seqp (whenp (comments \<noteq> []) (comment_raise_http_ex cfg comments))
      (andthen (query (maintainers_of (pb_ID b))) (disown_form cfg u b name comments confirm next)) w)))
    = maintainers (the_db w)"
    by (rule after_check [OF keeps_whenp [OF ok_comment_raise_http_ex]])
      (use no in \<open>auto simp: snd_query disown_form_def ret_def\<close>)
next
  fix u and b :: packagebases_row and M
  have "keeps_maintainers_but {pb_ID b} M (disown_form cfg u b name comments confirm next approved)" for approved
    unfolding disown_form_def
    by (intro keeps_seqp keeps_if keeps_whenp keeps_ret keeps_catch db_inv_transaction maintainers_but_disown
        maintainers_but_keeps [OF maintainers_update_closure_comment])
      (auto simp: keeps_throw keeps_ret split: exn.splits aurweb_exception.splits)
  then show "keeps_maintainers_but {pb_ID b} M (seqp (whenp (comments \<noteq> []) (comment_raise_http_ex cfg comments))
      (andthen (query (maintainers_of (pb_ID b))) (disown_form cfg u b name comments confirm next)))"
    by (intro keeps_andthen keeps_seqp keeps_whenp db_inv_query ok_comment_raise_http_ex)
qed

lemma moved_adopt: "moved_rightly cfg rq name (Adopt next via) (now w) (the_db w)
    (the_db (snd (pkgbase_adopt_post cfg rq name next via w)))"
  unfolding pkgbase_adopt_post_def
proof (rule moved_rightlyI, unfold Let_def)
  fix u and b :: packagebases_row
  assume "\<not> may_move_by cfg u b (now w) (the_db w) (Adopt next via)"
  then show "maintainers (the_db (snd (seqp (whenp (has_credential (LoggedIn u) PKGBASE_ADOPT [] \<or> pb_MaintainerUID b = None)
       (andthen (query (pending_adoption_request b via)) (\<lambda>found.
        pkgbase_adopt_instance cfg u b (if has_credential (LoggedIn u) PKGBASE_ADOPT [] then found else None))))
     (ret (Redirect (or_url (Some next) (pkgbase_url name)))) w))) = maintainers (the_db w)"
    by (intro kept_maintainers, unfold pkgbase_adopt_instance_def retry_request_adoption_def)
      (intro keeps_intros maintainers_create_request, simp_all)
qed (intro keeps_intros maintainers_but_adopt)

lemma maintainers_but_requests [simp]: "maintainers_but X (d\<lparr>PackageRequests := rs\<rparr>) = maintainers_but X d"
  by (simp add: maintainers_but_def)

lemma moved_delete: "moved_rightly cfg rq name (Delete confirm comments next) (now w) (the_db w)
    (the_db (snd (pkgbase_delete_post cfg rq name confirm comments next w)))"
  unfolding pkgbase_delete_post_def
  by (rule moved_rightlyI)
    (auto simp: ret_def intro!: keeps_intros keeps_if maintainers_but_instances ok_comment_raise_http_ex)

lemma moved_merge: "moved_rightly cfg rq name (Merge into comments confirm next) (now w) (the_db w)
    (the_db (snd (pkgbase_merge_post cfg rq name into comments confirm next w)))"
  unfolding pkgbase_merge_post_def
  by (rule moved_rightlyI)
    (auto simp: ret_def intro!: keeps_intros keeps_if maintainers_but_instances ok_comment_raise_http_ex
      maintainers_but_keeps [OF maintainers_update_closure_comment] split: option.splits)


lemma moved_request: "moved_rightly cfg rq name (File_request type merge_into comments) (now w) (the_db w)
    (the_db (snd (pkgbase_request_post cfg rq name type merge_into comments w)))"
  unfolding pkgbase_request_post_def
proof (rule moved_rightlyI, goal_cases)
  case (1 u b)
  then have accept: "auto_accept cfg u b type comments r (now w) = ret ()" for r
    by (auto simp: auto_accept_def split: option.splits)
  have "keeps_maintainers M (file_request cfg u b t type merge_into comments (now w))" for M t
    unfolding file_request_def accept by (intro keeps_intros maintainers_create_request)
  then have "maintainers (the_db (snd (file_request cfg u b t type merge_into comments (now w) w))) = maintainers (the_db w)" for t
    by (rule kept_maintainers)
  then show ?case
    by (cases "request_types type")
      (auto intro!: after_check_value [OF ok_request_errors, where P = "\<lambda>d. maintainers d = maintainers (the_db w)"]
        simp: ret_def snd_utcnow split: option.splits)
next
  case (2 u b M)
  then show ?case
    by (cases "request_types type")
      (auto intro!: keeps_intros ok_request_errors maintainers_but_keeps [OF maintainers_create_request]
        maintainers_but_instances simp: file_request_def split: option.splits)
qed

lemma forms_move_rightly: "moved_rightly cfg rq name form (now w) (the_db w)
    (the_db (snd (pkgbase_route cfg rq name form w)))"
proof (cases "may_move form")
  case True
  then show ?thesis
    by (cases form) (simp_all only: pkgbase_route.simps may_move.simps moved_disown moved_adopt moved_request
        moved_delete moved_merge simp_thms)
next
  case False
  then show ?thesis
    unfolding moved_rightly_def by (intro disjI1 kept_maintainers maintainers_plain_forms)
qed

text \<open>
  C9. No form changes who maintains a package base, or removes a package base, but for these: to
  disown, by a maintainer, a co-maintainer or a user with the credential, who confirms; to adopt, with
  the credential; to delete or to merge, with the credential, and confirmed; and a request that is
  accepted at once: to orphan what was flagged out of date long enough ago, or to delete what the
  maintainer submitted a short while ago. In each case it is the package base of the form, and every
  other one keeps its maintainer.
\<close>

theorem forms_change_maintainer:
  assumes "maintainers (the_db (snd (pkgbase_route cfg rq name form w))) \<noteq> maintainers (the_db w)"
  shows "\<exists>u b. rq_user rq = LoggedIn u \<and> b \<in> set (PackageBases (the_db w)) \<and> pb_Name b = name
    \<and> may_move_by cfg u b (now w) (the_db w) form
    \<and> maintainers_but {pb_ID b} (the_db (snd (pkgbase_route cfg rq name form w))) = maintainers_but {pb_ID b} (the_db w)"
  using forms_move_rightly assms unfolding moved_rightly_def by blast

theorem forms_change_maintainer_witness:
  "\<exists>u b. rq_user (demo_form demo_bob) = LoggedIn u \<and> b \<in> set (PackageBases demo_db) \<and> pb_Name b = ''foo''
    \<and> may_move_by default_config u b 1000 demo_db (Disown [] True [])
    \<and> maintainers_but {pb_ID b} (the_db (snd (pkgbase_route default_config (demo_form demo_bob) ''foo''
        (Disown [] True []) demo_world))) = maintainers_but {pb_ID b} demo_db"
proof -
  have "maintainers (the_db (snd (pkgbase_route default_config (demo_form demo_bob) ''foo'' (Disown [] True [])
      demo_world))) \<noteq> maintainers demo_db"
    by code_simp
  from forms_change_maintainer [of default_config "demo_form demo_bob" "''foo''" "Disown [] True []" demo_world,
      unfolded demo_the_db, OF this]
  show ?thesis .
qed


section \<open>Who may change a comment\<close>

text \<open>
  What the user \<open>u\<close> may do to a comment on a package base with the maintainers \<open>ms\<close>: the text is the
  author's, deleting is the author's and elevated users', pinning is the maintainers' and elevated users'.
\<close>

definition changed_rightly :: "users_row \<Rightarrow> nat option list \<Rightarrow> packagecomments_row \<Rightarrow> packagecomments_row \<Rightarrow> bool" where
  "changed_rightly u ms c c' \<longleftrightarrow> pc_ID c' = pc_ID c \<and> pc_PackageBaseID c' = pc_PackageBaseID c
     \<and> pc_UsersID c' = pc_UsersID c \<and> pc_CommentTS c' = pc_CommentTS c
     \<and> (pc_Comments c' \<noteq> pc_Comments c \<longrightarrow> pc_UsersID c = Some (u_ID u) \<and> pc_EditedUsersID c' = Some (u_ID u))
     \<and> ((pc_DelTS c', pc_DelUsersID c') \<noteq> (pc_DelTS c, pc_DelUsersID c)
          \<longrightarrow> pc_UsersID c = Some (u_ID u) \<or> is_elevated (LoggedIn u))
     \<and> (pc_PinnedTS c' \<noteq> pc_PinnedTS c \<longrightarrow> Some (u_ID u) \<in> set ms \<or> is_elevated (LoggedIn u))"

definition comments_rightly :: "request \<Rightarrow> db \<Rightarrow> db \<Rightarrow> bool" where
  "comments_rightly rq d d' \<longleftrightarrow> PackageComments d' = PackageComments d
     \<or> (\<exists>u. rq_user rq = LoggedIn u \<and>
        ((\<exists>f. PackageComments d' = map f (PackageComments d)
            \<and> (\<forall>c \<in> set (PackageComments d). changed_rightly u (maintainers_of (pc_PackageBaseID c) d) c (f c)))
         \<or> (\<exists>c. PackageComments d' = PackageComments d @ [c] \<and> pc_UsersID c = Some (u_ID u))))"

fun removes_comments :: "pkgbase_form \<Rightarrow> bool" where
  "removes_comments (File_request type merge_into comments) = True"
| "removes_comments (Delete confirm comments next) = True"
| "removes_comments (Merge into comments confirm next) = True"
| "removes_comments _ = False"

abbreviation keeps_comments :: "packagecomments_row list \<Rightarrow> 'a aur \<Rightarrow> bool" where
  "keeps_comments C m \<equiv> keeps (db_inv (\<lambda>d. PackageComments d = C)) m"

lemma comments_parts:
  "keeps_comments C (notify_unless c uid i)" "keeps_comments C (replace_keywords cfg i ks)"
  "keeps_comments C (run_variable cfg is)" "keeps_comments C (update_base i g)"
  "keeps_comments C (create_request r)" "keeps_comments C (update_closure_comment b t cc target)"
  unfolding notify_unless_def add_notification_def replace_keywords_def Let_def run_variable_def update_base_def
    create_request_def update_closure_comment_def
  by (intro keeps_intros keeps_if; simp)+

lemma comments_comaintainers:
  "keeps_comments C (remove_comaintainer c)" "keeps_comments C (remove_comaintainers i names)"
  "keeps_comments C (add_comaintainers i names)"
proof -
  have rotate: "keeps_comments C (rotate_comaintainers i)" for i
    unfolding rotate_comaintainers_def by (auto intro!: keeps_intros)
  show "keeps_comments C (remove_comaintainer c)" "keeps_comments C (remove_comaintainers i names)"
    unfolding remove_comaintainer_def remove_comaintainers_def delete_comaint_def
    by (intro keeps_intros rotate; simp)+
  show "keeps_comments C (add_comaintainers i names)"
    unfolding add_comaintainers_def add_comaintainer_def
    by (intro keeps_andthen db_inv_query) (auto intro!: keeps_intros split: sum.splits)
qed

lemma comments_handle_request: "keeps_comments C (handle_request cfg u t b target comments ids)"
  unfolding handle_request_def Let_def retry_closures_def close_pkgreq_def verify_orphan_request_def
  by (intro keeps_intros keeps_if comments_parts keeps_get_closure) simp_all

lemma comments_instances:
  "keeps_comments C (pkgbase_notify_instance u b)" "keeps_comments C (pkgbase_unnotify_instance u b)"
  "keeps_comments C (pkgbase_unflag_instance u b)" "keeps_comments C (pkgbase_adopt_instance cfg u b r)"
  unfolding pkgbase_notify_instance_def retry_notify_def pkgbase_unnotify_instance_def retry_unnotify_def
    pkgbase_unflag_instance_def retry_unflag_def pkgbase_adopt_instance_def retry_adopt_def Let_def split_beta
    retry_request_adoption_def
  by (intro keeps_intros keeps_if comments_parts comments_handle_request; simp)+

lemma comments_disown: "keeps_comments C (disown_form cfg u b name comments confirm next approved)"
proof -
  have as_maintainer: "keeps_comments C (disown_as_maintainer i)" for i
    unfolding disown_as_maintainer_def
    by (intro db_inv_transaction keeps_andthen db_inv_query)
      (auto intro!: keeps_seqp keeps_andthen keeps_ret comments_parts comments_comaintainers split: list.splits)
  have "keeps_comments C (pkgbase_disown_instance cfg u b)"
    unfolding pkgbase_disown_instance_def retry_disown_def disown_as_comaintainer_def disown_as_privileged_def
      delete_comaints_def
    by (intro keeps_intros as_maintainer comments_parts comments_comaintainers comments_handle_request) simp_all
  then show ?thesis
    unfolding disown_form_def
    by (intro keeps_if keeps_seqp keeps_whenp keeps_ret keeps_catch db_inv_transaction comments_parts)
      (auto simp: keeps_throw keeps_ret split: exn.splits aurweb_exception.splits)
qed

fun is_comment_form :: "pkgbase_form \<Rightarrow> bool" where
  "is_comment_form (Add_comment comment enable) = True"
| "is_comment_form (Edit_comment i comment enable next cancel) = True"
| "is_comment_form (Pin_comment i next) = True"
| "is_comment_form (Unpin_comment i next) = True"
| "is_comment_form (Delete_comment i next) = True"
| "is_comment_form (Undelete_comment i next) = True"
| "is_comment_form _ = False"

lemma comments_other_forms:
  "\<not> is_comment_form form \<Longrightarrow> \<not> removes_comments form \<Longrightarrow> keeps_comments C (pkgbase_route cfg rq name form)"
  by (cases form)
    (simp_all only: pkgbase_route.simps is_comment_form.simps removes_comments.simps pkgbase_keywords_def pkgbase_flag_post_def
      pkgbase_unflag_post_def pkgbase_vote_post_def
      pkgbase_unvote_post_def cast_vote_def withdraw_vote_def run_single_def pkgbase_notify_post_def
      pkgbase_unnotify_post_def pkgbase_comaintainers_post_def pkgbase_disown_post_def pkgbase_adopt_post_def Let_def
      not_True_eq_False False_implies_equals;
    intro keeps_intros comments_parts comments_comaintainers comments_instances comments_disown
      ok_comment_raise_http_ex; simp)+


text \<open>The comment forms: one comment changes, or one is added.\<close>

lemma wp_update_comment: "wp (update_comment i f) Q E w = Q () (w\<lparr>the_db := (the_db w)\<lparr>PackageComments :=
    update_where (\<lambda>c. pc_ID c = i) f (PackageComments (the_db w))\<rparr>\<rparr>)"
  by (simp add: update_comment_def wp_simps)

lemma changed_rightly_refl: "changed_rightly u ms c c"
  by (simp add: changed_rightly_def)

lemma elevated_credential: "u_AccountTypeID u \<in> set package_maintainer_or_dev \<Longrightarrow> is_elevated (LoggedIn u)"
  by (auto simp: is_elevated_def package_maintainer_or_dev_def)

lemma get_comment_run:
  assumes "List.find (\<lambda>c. pc_PackageBaseID c = pb_ID b \<and> pc_ID c = i) (PackageComments (the_db w)) = Some c"
  shows "snd (andthen (get_pkgbase_comment b i) f w) = snd (f c w)"
  using assms by (simp add: get_pkgbase_comment_def andthen_def query_def gets_def the_or_def ret_def)

lemma get_comment_cases:
  assumes "\<And>c. c \<in> set (PackageComments (the_db w)) \<Longrightarrow> pc_PackageBaseID c = pb_ID b \<Longrightarrow> pc_ID c = i \<Longrightarrow> R (the_db (snd (f c w)))"
    and "R (the_db w)"
  shows "R (the_db (snd (andthen (get_pkgbase_comment b i) f w)))"
proof (cases "List.find (\<lambda>c. pc_PackageBaseID c = pb_ID b \<and> pc_ID c = i) (PackageComments (the_db w))")
  case None
  then show ?thesis
    using assms(2) by (simp add: get_pkgbase_comment_def andthen_def query_def gets_def the_or_def throw_def)
next
  case (Some c)
  with assms(1) [of c] find_SomeD [OF Some] show ?thesis
    by (simp add: get_comment_run)
qed

text \<open>An update of the comment \<open>c\<close> alone, whose ID is unique.\<close>

lemma comments_rightlyI:
  assumes "wf_db d" and "rq_user rq = LoggedIn u" and "c \<in> set (PackageComments d)"
    and "changed_rightly u (maintainers_of (pc_PackageBaseID c) d) c (f c)"
    and "PackageComments d' = update_where (\<lambda>x. pc_ID x = pc_ID c) f (PackageComments d)"
  shows "comments_rightly rq d d'"
proof -
  have "x = c" if "x \<in> set (PackageComments d)" "pc_ID x = pc_ID c" for x
    using wf_PackageCommentsD [OF assms(1)] that assms(3) by (auto dest: distinct_map_inj)
  then have "\<forall>x \<in> set (PackageComments d). changed_rightly u (maintainers_of (pc_PackageBaseID x) d) x
      (if pc_ID x = pc_ID c then f x else x)"
    using assms(4) by (auto simp: changed_rightly_refl)
  with assms(2,5) show ?thesis
    unfolding comments_rightly_def update_where_def by blast
qed

lemma comments_rightly_refl: "comments_rightly rq d d"
  by (simp add: comments_rightly_def)

lemma action_rightly:
  assumes "wf_db (the_db w)"
    and "\<And>u b c ts. has_credential (LoggedIn u) cred (approved b c (the_db w)) \<Longrightarrow> pc_PackageBaseID c = pb_ID b \<Longrightarrow>
      changed_rightly u (maintainers_of (pc_PackageBaseID c) (the_db w)) c (f u ts c)"
  shows "comments_rightly rq (the_db w)
    (the_db (snd (comment_action cfg rq name i next cred approved denied f w)))"
  unfolding comment_action_def
proof (rule route_cases)
  fix u and b :: packagebases_row
  assume u: "rq_user rq = LoggedIn u"
  show "comments_rightly rq (the_db w) (the_db (snd (andthen (get_pkgbase_comment b i) (\<lambda>c.
     andthen (query (approved b c)) (\<lambda>ok.
     seqp (guard (has_credential (LoggedIn u) cred ok) (HTTPException 401 denied))
     (andthen utcnow (\<lambda>ts. seqp (update_comment i (f u ts))
       (ret (Redirect (or_url next (pkgbase_url name)))))))) w)))"
  proof (rule get_comment_cases)
    fix c assume c: "c \<in> set (PackageComments (the_db w))" "pc_PackageBaseID c = pb_ID b" "pc_ID c = i"
    have "comments_rightly rq (the_db w) ((the_db w)\<lparr>PackageComments :=
        update_where (\<lambda>x. pc_ID x = pc_ID c) (f u (now w)) (PackageComments (the_db w))\<rparr>)"
      if "has_credential (LoggedIn u) cred (approved b c (the_db w))"
      by (rule comments_rightlyI [where u = u and f = "f u (now w)", OF assms(1) u c(1) assms(2) [OF that c(2)]]) simp
    then have "wp (andthen (query (approved b c)) (\<lambda>ok.
       seqp (guard (has_credential (LoggedIn u) cred ok) (HTTPException 401 denied))
       (andthen utcnow (\<lambda>ts. seqp (update_comment i (f u ts)) (ret (Redirect (or_url next (pkgbase_url name))))))))
       (\<lambda>_ w'. comments_rightly rq (the_db w) (the_db w')) (\<lambda>_ w'. comments_rightly rq (the_db w) (the_db w')) w"
      by (simp add: wp_andthen wp_query wp_seqp wp_guard wp_utcnow wp_update_comment wp_ret comments_rightly_refl c(3))
    then show "comments_rightly rq (the_db w) (the_db (snd (andthen (query (approved b c)) (\<lambda>ok.
       seqp (guard (has_credential (LoggedIn u) cred ok) (HTTPException 401 denied))
       (andthen utcnow (\<lambda>ts. seqp (update_comment i (f u ts)) (ret (Redirect (or_url next (pkgbase_url name))))))) w)))"
      unfolding snd_wp [where P = "\<lambda>w'. comments_rightly rq (the_db w) (the_db w')"] .
  qed (rule comments_rightly_refl)
qed (rule comments_rightly_refl)


lemma update_where_twice:
  "(\<And>x. k (f x) = k x) \<Longrightarrow>
    update_where (\<lambda>x. k x = i) g (update_where (\<lambda>x. k x = i) f rs) = update_where (\<lambda>x. k x = i) (\<lambda>x. g (f x)) rs"
  by (simp add: update_where_def comp_def)

lemma edit_rightly:
  assumes "wf_db (the_db w)"
  shows "comments_rightly rq (the_db w)
    (the_db (snd (pkgbase_comment_post cfg rq name i text enable next cancel w)))"
proof (cases cancel)
  case True
  then have "keeps ((=) w) (pkgbase_comment_post cfg rq name i text enable next cancel)"
    by (simp add: pkgbase_comment_post_def) (intro keeps_intros)
  from keepsD [OF this refl] show ?thesis
    by (simp add: comments_rightly_def)
next
  case False
  let ?body = "\<lambda>u b c. seqp (comment_raise_http_ex cfg text)
       (seqp (guard (pc_UsersID c = Some (u_ID u)) (HTTPException 401 []))
       (andthen utcnow (\<lambda>ts.
        seqp (whenp (pc_Comments c \<noteq> text) (update_comment i
          (\<lambda>x. x\<lparr>pc_Comments := text, pc_EditedUsersID := Some (u_ID u), pc_EditedTS := Some ts\<rparr>)))
        (seqp (whenp enable (transaction (notify_unless True (u_ID u) (pb_ID b))))
        (seqp (update_comment_render cfg i)
        (ret (Redirect (or_url next (pkgbase_url (pb_Name b)) @ ''#comment-'' @ str_nat i))))))))"
  have body: "comments_rightly rq (the_db w) (the_db (snd (?body u b c w)))"
    if u: "rq_user rq = LoggedIn u" and c: "c \<in> set (PackageComments (the_db w))" "pc_ID c = i" for u b c
  proof (rule after_check [OF ok_comment_raise_http_ex])
    let ?f = "\<lambda>x. x\<lparr>pc_Comments := text, pc_EditedUsersID := Some (u_ID u), pc_EditedTS := Some (now w)\<rparr>"
    let ?g = "\<lambda>x. x\<lparr>pc_RenderedComment := render_comment cfg x\<rparr>"
    have upd: "comments_rightly rq (the_db w) d'"
      if "PackageComments d' = update_where (\<lambda>x. pc_ID x = i) (\<lambda>x. ?g (if pc_Comments c = text then x else ?f x)) (PackageComments (the_db w))"
        "pc_UsersID c = Some (u_ID u)" for d'
      by (rule comments_rightlyI [OF assms u c(1), where f = "\<lambda>x. ?g (if pc_Comments c = text then x else ?f x)"])
        (use that c(2) in \<open>auto simp: changed_rightly_def\<close>)
    let ?tail = "seqp (guard (pc_UsersID c = Some (u_ID u)) (HTTPException 401 []))
       (andthen utcnow (\<lambda>ts.
        seqp (whenp (pc_Comments c \<noteq> text) (update_comment i
          (\<lambda>x. x\<lparr>pc_Comments := text, pc_EditedUsersID := Some (u_ID u), pc_EditedTS := Some ts\<rparr>)))
        (seqp (whenp enable (transaction (notify_unless True (u_ID u) (pb_ID b))))
        (seqp (update_comment_render cfg i)
        (ret (Redirect (or_url next (pkgbase_url (pb_Name b)) @ ''#comment-'' @ str_nat i)))))))"
    have "wp ?tail (\<lambda>_ w'. comments_rightly rq (the_db w) (the_db w')) (\<lambda>_ w'. comments_rightly rq (the_db w) (the_db w')) w"
      by (simp add: wp_andthen wp_seqp wp_guard wp_utcnow wp_whenp wp_transaction notify_unless_def add_notification_def
          wp_query wp_execute update_comment_render_def wp_update_comment wp_ret comments_rightly_refl)
        (intro impI conjI upd; simp add: update_where_twice)
    then show "comments_rightly rq (the_db w) (the_db (snd (?tail w)))"
      unfolding snd_wp [where P = "\<lambda>w'. comments_rightly rq (the_db w) (the_db w')"] .
  qed (rule comments_rightly_refl)
  have "pkgbase_comment_post cfg rq name i text enable next cancel = requires_auth cfg rq (\<lambda>u.
      andthen (get_pkg_or_base name) (\<lambda>b. andthen (get_pkgbase_comment b i) (?body u b)))"
    using False by (simp add: pkgbase_comment_post_def)
  then show ?thesis
    by (simp only:) (rule route_cases, rule get_comment_cases, rule body, assumption+, rule comments_rightly_refl,
      rule comments_rightly_refl)
qed

lemma add_rightly:
  assumes "wf_db (the_db w)"
  shows "comments_rightly rq (the_db w) (the_db (snd (pkgbase_comments_post cfg rq name text enable w)))"
  unfolding pkgbase_comments_post_def
proof (rule route_cases, rule after_check [OF ok_comment_raise_http_ex])
  fix u and b :: packagebases_row
  assume u: "rq_user rq = LoggedIn u"
  let ?i = "next_id (map pc_ID (PackageComments (the_db w)))"
  have fresh: "update_where (\<lambda>c. pc_ID c = ?i) f (PackageComments (the_db w)) = PackageComments (the_db w)" for f
    by (rule update_where_none) (use next_id_nth [of _ "map pc_ID (PackageComments (the_db w))"] in auto)
  have new: "comments_rightly rq (the_db w) d'"
    if "PackageComments d' = PackageComments (the_db w) @ [c]" "pc_UsersID c = Some (u_ID u)" for d' c
    using u that by (auto simp: comments_rightly_def)
  let ?tail = "andthen utcnow (\<lambda>ts.
      andthen (transaction (andthen (insert_comment (pb_ID b) (u_ID u) text ts) (\<lambda>cid.
        seqp (notify_unless enable (u_ID u) (pb_ID b)) (ret cid))))
      (\<lambda>cid. seqp (update_comment_render cfg cid)
       (seqp (send (CommentNotification (u_ID u) (pb_ID b) cid))
       (ret (Redirect (pkgbase_url (pb_Name b) @ ''#comment-'' @ str_nat cid))))))"
  have render: "update_where (\<lambda>c. pc_ID c = ?i) f (PackageComments (the_db w) @ [c])
      = PackageComments (the_db w) @ [f c]" if "pc_ID c = ?i" for f c
    using that fresh by (simp add: update_where_def)
  have "wp ?tail (\<lambda>_ w'. comments_rightly rq (the_db w) (the_db w')) (\<lambda>_ w'. comments_rightly rq (the_db w) (the_db w')) w"
    by (simp add: wp_andthen wp_seqp wp_utcnow wp_whenp wp_transaction notify_unless_def add_notification_def wp_send
        insert_comment_def wp_query wp_execute update_comment_render_def wp_update_comment wp_ret)
      (intro impI conjI; (rule new [OF trans [OF _ render]], simp add: new_comment_def, simp_all))
  then show "comments_rightly rq (the_db w) (the_db (snd (?tail w)))"
    unfolding snd_wp [where P = "\<lambda>w'. comments_rightly rq (the_db w) (the_db w')"] .
qed (rule comments_rightly_refl)+




end
