(* ===== verification/Git_Serve.thy ===== *)
theory Git_Serve
  imports Creds
begin

text \<open>
  The SSH interface, \<open>aurweb/git/serve.py\<close>: one definition per function, under its name. Each
  function opens its own connection, so what it commits stays when a later one raises.
\<close>

section \<open>Look-ups\<close>

definition pkgbase_from_name :: "string \<Rightarrow> nat option aur" where
  "pkgbase_from_name pkgbase =
     query (\<lambda>d. map_option pb_ID (List.find (\<lambda>b. pb_Name b = pkgbase) (PackageBases d)))"

definition pkgbase_exists :: "string \<Rightarrow> bool aur" where
  "pkgbase_exists pkgbase = andthen (pkgbase_from_name pkgbase) (\<lambda>i. ret (i \<noteq> None))"

text \<open>\<open>if not pkgbase_id: raise ...\<close>: neither a missing row nor an ID of 0 is a package base.\<close>

definition require_pkgbase :: "string \<Rightarrow> nat aur" where
  "require_pkgbase pkgbase = andthen (pkgbase_from_name pkgbase)
     (\<lambda>i. if i = None \<or> i = Some 0 then raise (InvalidPackageBaseException pkgbase)
          else ret (the i))"

text \<open>
  \<open>cur.fetchone()[0]\<close> of a user's ID raises a \<open>TypeError\<close> when there is no such user; the
  check for ID 0 follows it.
\<close>

definition fetch_userid :: "string \<Rightarrow> nat aur" where
  "fetch_userid user = andthen
     (query (\<lambda>d. map_option u_ID (List.find (\<lambda>u. u_Username u = user) (Users d))))
     (the_or Py_TypeError)"

definition fetch_valid_userid :: "string \<Rightarrow> string \<Rightarrow> nat aur" where
  "fetch_valid_userid name user = andthen (fetch_userid name)
     (\<lambda>userid. seqp (guard (userid \<noteq> 0) (Aurweb (InvalidUserException user))) (ret userid))"

definition user_email_verified :: "string \<Rightarrow> bool aur" where
  "user_email_verified user = query (\<lambda>d.
     case List.find (\<lambda>u. u_Username u = user) (Users d) of
       None \<Rightarrow> False | Some u \<Rightarrow> u_EmailVerified u)"

definition die :: "string \<Rightarrow> 'a aur" where
  "die msg = seqp (write_err (msg @ [nl])) (throw (SystemExit 1))"

definition die_with_help :: "config \<Rightarrow> string \<Rightarrow> 'a aur" where
  "die_with_help cfg msg =
     die (msg @ [nl] @ ''Try `'' @ ssh_cmdline cfg @ '' help` for a list of commands.'')"

definition warn :: "string \<Rightarrow> unit aur" where
  "warn msg = write_err (''warning: '' @ msg @ [nl])"

definition list_repos :: "string \<Rightarrow> unit aur" where
  "list_repos user = andthen (fetch_valid_userid user user) (\<lambda>userid.
     andthen (query (\<lambda>d. filter (\<lambda>b. pb_MaintainerUID b = Some userid) (PackageBases d))) (\<lambda>rows.
     for_each rows (\<lambda>row.
       print ((if pb_PackagerUID row \<noteq> None \<and> pb_PackagerUID row \<noteq> Some 0 then '' '' else ''*'')
              @ pb_Name row))))"

definition validate_pkgbase :: "config \<Rightarrow> string \<Rightarrow> string \<Rightarrow> unit aur" where
  "validate_pkgbase cfg pkgbase user =
     seqp (guard (repo_regex cfg pkgbase) (Aurweb (InvalidRepositoryNameException pkgbase)))
     (andthen (pkgbase_exists pkgbase) (\<lambda>ex.
      seqp (guard (\<not> ex) (Aurweb (PackageBaseExistsException pkgbase)))
      (seqp (fetch_valid_userid user user) (ret ()))))"

section \<open>Requests\<close>

text \<open>The pending requests of a type for a package base, joined with the request types.\<close>

definition pkgreq_by_pkgbase :: "nat \<Rightarrow> string \<Rightarrow> nat list aur" where
  "pkgreq_by_pkgbase pkgbase_id reqtype = query (\<lambda>d.
     [pr_ID r. r \<leftarrow> PackageRequests d, t \<leftarrow> RequestTypes d,
       qt_ID t = pr_ReqTypeID r \<and> pr_Status r = 0 \<and> pr_PackageBaseID r = Some pkgbase_id
       \<and> qt_Name t = reqtype])"

definition pkgreq_open_adoption :: "nat \<Rightarrow> string \<Rightarrow> nat \<Rightarrow> nat aur" where
  "pkgreq_open_adoption pkgbase_id pkgbase userid =
     andthen (query (\<lambda>d. List.find (\<lambda>t. qt_Name t = ''adoption'') (RequestTypes d))) (\<lambda>row.
     case row of
       None \<Rightarrow> die ''The adoption request type is missing; contact the AUR maintainers.''
     | Some t \<Rightarrow>
         andthen utcnow (\<lambda>ts.
         andthen (query (\<lambda>d. next_id (map pr_ID (PackageRequests d)))) (\<lambda>reqid.
         seqp (execute (\<lambda>d. d\<lparr>PackageRequests := PackageRequests d @
           [\<lparr>pr_ID = reqid, pr_ReqTypeID = qt_ID t, pr_PackageBaseID = Some pkgbase_id,
             pr_PackageBaseName = pkgbase, pr_MergeBaseName = None, pr_UsersID = Some userid,
             pr_Comments = ''Autogenerated by aurweb (SSH).'', pr_ClosureComment = [],
             pr_RequestTS = ts, pr_ClosedTS = None, pr_ClosedUID = None, pr_Status = 0\<rparr>]\<rparr>))
         (seqp (send (RequestOpenNotification userid reqid ''adoption'' pkgbase_id None))
         (ret reqid)))))"

definition pkgreq_close :: "nat \<Rightarrow> string \<Rightarrow> string \<Rightarrow> string \<Rightarrow> bool \<Rightarrow> unit aur" where
  "pkgreq_close reqid user reason comments autoclose =
     (case map_of [(''accepted'', 2), (''rejected'', 3)] reason of
       None \<Rightarrow> raise (InvalidReasonException reason)
     | Some status \<Rightarrow>
         andthen (if autoclose then ret None
                  else andthen (fetch_valid_userid user user) (\<lambda>userid. ret (Some userid)))
         (\<lambda>userid. andthen utcnow (\<lambda>ts.
         seqp (execute (\<lambda>d. d\<lparr>PackageRequests := update_where (\<lambda>r. pr_ID r = reqid)
             (\<lambda>r. r\<lparr>pr_Status := status, pr_ClosedTS := Some ts, pr_ClosedUID := userid,
                    pr_ClosureComment := comments\<rparr>) (PackageRequests d)\<rparr>))
         (send (RequestCloseNotification (case userid of None \<Rightarrow> 0 | Some i \<Rightarrow> i) reqid reason)))))"

section \<open>Access\<close>

definition pkgbase_has_write_access :: "string \<Rightarrow> string \<Rightarrow> bool aur" where
  "pkgbase_has_write_access pkgbase user = query (\<lambda>d.
     \<exists>b \<in> set (PackageBases d). pb_Name b = pkgbase \<and>
       (\<exists>u \<in> set (Users d). u_Username u = user \<and>
         (pb_MaintainerUID b = Some (u_ID u) \<or>
          (\<exists>c \<in> set (PackageComaintainers d).
             cm_PackageBaseID c = pb_ID b \<and> cm_UsersID c = u_ID u))))"

definition pkgbase_is_orphan :: "string \<Rightarrow> bool aur" where
  "pkgbase_is_orphan pkgbase = query (\<lambda>d.
     0 < count_where (\<lambda>b. pb_Name b = pkgbase \<and> pb_MaintainerUID b = None) (PackageBases d))"

definition pkgbase_has_full_access :: "string \<Rightarrow> string \<Rightarrow> bool aur" where
  "pkgbase_has_full_access pkgbase user = query (\<lambda>d.
     \<exists>b \<in> set (PackageBases d). pb_Name b = pkgbase \<and>
       (\<exists>u \<in> set (Users d). u_Username u = user \<and> pb_MaintainerUID b = Some (u_ID u)))"

definition log_ssh_login :: "string \<Rightarrow> string option \<Rightarrow> unit aur" where
  "log_ssh_login user remote_addr = andthen utcnow (\<lambda>ts.
     execute (\<lambda>d. d\<lparr>Users := update_where (\<lambda>u. u_Username u = user)
       (\<lambda>u. u\<lparr>u_LastSSHLogin := ts, u_LastSSHLoginIPAddress := remote_addr\<rparr>) (Users d)\<rparr>))"

definition bans_match :: "string option \<Rightarrow> bool aur" where
  "bans_match remote_addr = query (\<lambda>d. case remote_addr of None \<Rightarrow> False
     | Some ip \<Rightarrow> 0 < count_where (\<lambda>b. b = ip) (Bans d))"

section \<open>Maintainership\<close>

definition pkgbase_adopt :: "string \<Rightarrow> string \<Rightarrow> unit aur" where
  "pkgbase_adopt pkgbase user = andthen (require_pkgbase pkgbase) (\<lambda>pkgbase_id.
     andthen (query (\<lambda>d. \<exists>b \<in> set (PackageBases d).
       pb_ID b = pkgbase_id \<and> pb_MaintainerUID b = None)) (\<lambda>orphan.
     andthen (fetch_valid_userid user user) (\<lambda>userid.
     seqp (guard orphan (Aurweb (PermissionDeniedException user)))
     (andthen (pkgreq_by_pkgbase pkgbase_id ''adoption'') (\<lambda>pending.
     if pending \<noteq> [] then die (''There is already a pending adoption request for '' @ pkgbase @ ''.'')
     else seqp (pkgreq_open_adoption pkgbase_id pkgbase userid)
       (warn (''An adoption request for '' @ pkgbase @ '' has been filed. A Package ''
         @ ''Maintainer must grant it before you become the maintainer.'')))))))"

definition comaintainers_of :: "string \<Rightarrow> db \<Rightarrow> string list" where
  "comaintainers_of pkgbase d =
     [u_Username u. c \<leftarrow> sort_key cm_Priority (PackageComaintainers d), u \<leftarrow> Users d,
        u_ID u = cm_UsersID c, b \<leftarrow> PackageBases d,
        pb_ID b = cm_PackageBaseID c \<and> pb_Name b = pkgbase]"

definition pkgbase_get_comaintainers :: "string \<Rightarrow> string list aur" where
  "pkgbase_get_comaintainers pkgbase = query (comaintainers_of pkgbase)"

text \<open>The loop over the new co-maintainers, counting priorities up from \<open>i\<close>.\<close>

fun set_priorities :: "nat \<Rightarrow> nat list \<Rightarrow> nat \<Rightarrow> nat list \<Rightarrow> unit aur" where
  "set_priorities pkgbase_id uids_add i [] = ret ()"
| "set_priorities pkgbase_id uids_add i (userid # uids) =
     seqp (if userid \<in> set uids_add
           then seqp (execute (\<lambda>d. d\<lparr>PackageComaintainers := PackageComaintainers d @
                  [\<lparr>cm_UsersID = userid, cm_PackageBaseID = pkgbase_id, cm_Priority = i\<rparr>]\<rparr>))
                (send (ComaintainerAddNotification userid pkgbase_id))
           else execute (\<lambda>d. d\<lparr>PackageComaintainers := update_where
                  (\<lambda>c. cm_PackageBaseID c = pkgbase_id \<and> cm_UsersID c = userid)
                  (\<lambda>c. c\<lparr>cm_Priority := i\<rparr>) (PackageComaintainers d)\<rparr>))
     (set_priorities pkgbase_id uids_add (Suc i) uids)"

definition pkgbase_set_comaintainers ::
  "config \<Rightarrow> string \<Rightarrow> string list \<Rightarrow> string \<Rightarrow> bool \<Rightarrow> unit aur" where
  "pkgbase_set_comaintainers cfg pkgbase userlist user privileged =
     andthen (require_pkgbase pkgbase) (\<lambda>pkgbase_id.
     andthen (pkgbase_has_full_access pkgbase user) (\<lambda>full.
     seqp (guard (privileged \<or> full) (Aurweb (PermissionDeniedException user)))
     (transaction (
       andthen (pkgbase_get_comaintainers pkgbase) (\<lambda>old.
       andthen (collect (remdups old) (\<lambda>olduser. fetch_valid_userid olduser user)) (\<lambda>uids_old.
       andthen (collect userlist (\<lambda>newuser. fetch_valid_userid newuser user)) (\<lambda>uids_new.
       let uids_add = filter (\<lambda>i. i \<notin> set uids_old) uids_new;
           uids_rem = filter (\<lambda>i. i \<notin> set uids_new) uids_old in
       seqp (set_priorities pkgbase_id uids_add 1 (set_iter cfg uids_new))
       (for_each (set_iter cfg uids_rem) (\<lambda>userid.
         seqp (execute (\<lambda>d. d\<lparr>PackageComaintainers := delete_where
                 (\<lambda>c. cm_PackageBaseID c = pkgbase_id \<and> cm_UsersID c = userid)
                 (PackageComaintainers d)\<rparr>))
         (send (ComaintainerRemoveNotification userid pkgbase_id)))))))))))"

definition pkgbase_disown :: "config \<Rightarrow> string \<Rightarrow> string \<Rightarrow> bool \<Rightarrow> unit aur" where
  "pkgbase_disown cfg pkgbase user privileged =
     andthen (require_pkgbase pkgbase) (\<lambda>pkgbase_id.
     andthen (pkgbase_has_full_access pkgbase user) (\<lambda>initialized_by_owner.
     seqp (guard (privileged \<or> initialized_by_owner) (Aurweb (PermissionDeniedException user)))
     (andthen (pkgreq_by_pkgbase pkgbase_id ''orphan'') (\<lambda>reqids.
     seqp (for_each reqids (\<lambda>reqid. pkgreq_close reqid user ''accepted''
             (''The user '' @ user @ '' disowned the package.'') True))
     (andthen (if initialized_by_owner then pkgbase_get_comaintainers pkgbase else ret []) (\<lambda>comaints.
     andthen (case comaints of [] \<Rightarrow> ret None
                | new_maintainer # _ \<Rightarrow> andthen (fetch_userid new_maintainer) (\<lambda>i. ret (Some i)))
       (\<lambda>new_maintainer_userid.
     seqp (pkgbase_set_comaintainers cfg pkgbase
             (case comaints of [] \<Rightarrow> [] | m # ms \<Rightarrow> remove1 m (m # ms)) user privileged)
     (seqp (execute (\<lambda>d. d\<lparr>PackageBases := update_where (\<lambda>b. pb_ID b = pkgbase_id)
             (\<lambda>b. b\<lparr>pb_MaintainerUID := new_maintainer_userid\<rparr>) (PackageBases d)\<rparr>))
     (andthen (fetch_valid_userid user user) (\<lambda>userid.
       send (DisownNotification userid pkgbase_id)))))))))))"

section \<open>Flags, votes and keywords\<close>

definition pkgbase_flag :: "string \<Rightarrow> string \<Rightarrow> string \<Rightarrow> unit aur" where
  "pkgbase_flag pkgbase user comment = andthen (require_pkgbase pkgbase) (\<lambda>pkgbase_id.
     seqp (guard (3 \<le> length comment) (Aurweb (InvalidCommentException comment)))
     (andthen (fetch_valid_userid user user) (\<lambda>userid. andthen utcnow (\<lambda>ts.
     seqp (execute (\<lambda>d. d\<lparr>PackageBases := update_where
             (\<lambda>b. pb_ID b = pkgbase_id \<and> pb_OutOfDateTS b = None)
             (\<lambda>b. b\<lparr>pb_OutOfDateTS := Some ts, pb_FlaggerUID := Some userid,
                    pb_FlaggerComment := comment\<rparr>) (PackageBases d)\<rparr>))
     (send (FlagNotification userid pkgbase_id))))))"

definition pkgbase_unflag :: "string \<Rightarrow> string \<Rightarrow> unit aur" where
  "pkgbase_unflag pkgbase user = andthen (require_pkgbase pkgbase) (\<lambda>pkgbase_id.
     andthen (fetch_valid_userid user user) (\<lambda>userid.
     andthen (pkgbase_get_comaintainers pkgbase) (\<lambda>comaints.
     if user \<in> set comaints
     then execute (\<lambda>d. d\<lparr>PackageBases := update_where (\<lambda>b. pb_ID b = pkgbase_id)
            (\<lambda>b. b\<lparr>pb_OutOfDateTS := None\<rparr>) (PackageBases d)\<rparr>)
     else execute (\<lambda>d. d\<lparr>PackageBases := update_where (\<lambda>b. pb_ID b = pkgbase_id
              \<and> (pb_MaintainerUID b = Some userid \<or> pb_FlaggerUID b = Some userid))
            (\<lambda>b. b\<lparr>pb_OutOfDateTS := None\<rparr>) (PackageBases d)\<rparr>))))"

definition vote_of :: "nat \<Rightarrow> nat \<Rightarrow> packagevotes_row \<Rightarrow> bool" where
  "vote_of userid pkgbase_id v \<longleftrightarrow> pv_UsersID v = userid \<and> pv_PackageBaseID v = pkgbase_id"

definition pkgbase_vote :: "string \<Rightarrow> string \<Rightarrow> unit aur" where
  "pkgbase_vote pkgbase user = andthen (require_pkgbase pkgbase) (\<lambda>pkgbase_id.
     andthen (fetch_valid_userid user user) (\<lambda>userid.
     andthen (query (\<lambda>d. count_where (vote_of userid pkgbase_id) (PackageVotes d))) (\<lambda>n.
     seqp (guard (n = 0) (Aurweb (AlreadyVotedException pkgbase)))
     (andthen utcnow (\<lambda>ts.
     seqp (execute (\<lambda>d. d\<lparr>PackageVotes := PackageVotes d @
             [\<lparr>pv_UsersID = userid, pv_PackageBaseID = pkgbase_id, pv_VoteTS = ts\<rparr>]\<rparr>))
     (execute (\<lambda>d. d\<lparr>PackageBases := update_where (\<lambda>b. pb_ID b = pkgbase_id)
             (\<lambda>b. b\<lparr>pb_NumVotes := pb_NumVotes b + 1\<rparr>) (PackageBases d)\<rparr>)))))))"

definition pkgbase_unvote :: "string \<Rightarrow> string \<Rightarrow> unit aur" where
  "pkgbase_unvote pkgbase user = andthen (require_pkgbase pkgbase) (\<lambda>pkgbase_id.
     andthen (fetch_valid_userid user user) (\<lambda>userid.
     andthen (query (\<lambda>d. count_where (vote_of userid pkgbase_id) (PackageVotes d))) (\<lambda>n.
     seqp (guard (n \<noteq> 0) (Aurweb (NotVotedException pkgbase)))
     (seqp (execute (\<lambda>d. d\<lparr>PackageVotes := delete_where (vote_of userid pkgbase_id)
             (PackageVotes d)\<rparr>))
     (execute (\<lambda>d. d\<lparr>PackageBases := update_where (\<lambda>b. pb_ID b = pkgbase_id)
             (\<lambda>b. b\<lparr>pb_NumVotes := pb_NumVotes b - 1\<rparr>) (PackageBases d)\<rparr>))))))"

definition insert_keyword :: "nat \<Rightarrow> string \<Rightarrow> unit aur" where
  "insert_keyword pkgbase_id keyword = insert_unless
     (\<lambda>d. (pkgbase_id, keyword) \<in> (\<lambda>k. (kw_PackageBaseID k, kw_Keyword k)) ` set (PackageKeywords d))
     (\<lambda>d. d\<lparr>PackageKeywords := PackageKeywords d @
        [\<lparr>kw_PackageBaseID = pkgbase_id, kw_Keyword = keyword\<rparr>]\<rparr>)"

definition pkgbase_set_keywords :: "string \<Rightarrow> string list \<Rightarrow> unit aur" where
  "pkgbase_set_keywords pkgbase keywords = andthen (require_pkgbase pkgbase) (\<lambda>pkgbase_id.
     transaction (
       seqp (execute (\<lambda>d. d\<lparr>PackageKeywords := delete_where
               (\<lambda>k. kw_PackageBaseID k = pkgbase_id) (PackageKeywords d)\<rparr>))
       (for_each keywords (insert_keyword pkgbase_id))))"

section \<open>The command line\<close>

definition checkarg_atleast :: "string list \<Rightarrow> string list \<Rightarrow> unit aur" where
  "checkarg_atleast cmdargv argdesc =
     (if length cmdargv - 1 < length argdesc
      then raise (InvalidArgumentsException (''missing '' @ argdesc ! (length cmdargv - 1)))
      else ret ())"

definition checkarg_atmost :: "string list \<Rightarrow> string list \<Rightarrow> unit aur" where
  "checkarg_atmost cmdargv argdesc =
     (if length argdesc < length cmdargv - 1
      then raise (InvalidArgumentsException ''too many arguments'') else ret ())"

definition checkarg :: "string list \<Rightarrow> string list \<Rightarrow> unit aur" where
  "checkarg cmdargv argdesc =
     seqp (checkarg_atleast cmdargv argdesc) (checkarg_atmost cmdargv argdesc)"

definition usage :: "(string \<times> string) list \<Rightarrow> 'a aur" where
  "usage cmds = (let colwidth = fold max (map (length \<circ> fst) cmds) 0 + 4 in
     seqp (write_err (''Commands:'' @ [nl]))
     (seqp (for_each (sort_key fst cmds) (\<lambda>(key, text).
        write_err (''  '' @ ljust colwidth key @ text @ [nl])))
     (throw (SystemExit 0))))"

definition help_cmds :: "(string \<times> string) list" where
  "help_cmds =
    [(''adopt <name>'', ''Request adoption of an orphan package base.''),
     (''disown <name>'', ''Disown a package base.''),
     (''flag <name> <comment>'', ''Flag a package base out-of-date.''),
     (''help'', ''Show this help message and exit.''),
     (''list-repos'', ''List all your repositories.''),
     (''restore <name>'', ''Restore a deleted package base.''),
     (''set-comaintainers <name> [...]'', ''Set package base co-maintainers.''),
     (''set-keywords <name> [...]'', ''Change package base keywords.''),
     (''unflag <name>'', ''Remove out-of-date flag from a package base.''),
     (''unvote <name>'', ''Remove vote from a package base.''),
     (''vote <name>'', ''Vote for a package base.''),
     (''git-receive-pack'', ''Internal command used with Git.''),
     (''git-upload-pack'', ''Internal command used with Git.'')]"

text \<open>
  A command ends by returning, or the process is replaced (\<open>os.execl\<close>) by a program with
  arguments, in an environment extended by the given variables.
\<close>

datatype outcome = Done | Exec string "string list" "(string \<times> string) list"

definition is_readonly :: "string \<Rightarrow> string list \<Rightarrow> bool" where
  "is_readonly action cmdargv \<longleftrightarrow>
     action \<in> {''git-upload-pack'', ''list-repos'', ''help''}
     \<or> (action = ''git'' \<and> 1 < length cmdargv \<and> cmdargv ! 1 = ''upload-pack'')"

text \<open>The path of a repository as the Git client sends it, and the name in it.\<close>

definition repo_name :: "string \<Rightarrow> string" where
  "repo_name arg =
     (let path = rstrip_char (CHR ''/'') arg;
          path = (if startswith path ''/'' then path else ''/'' @ path);
          path = (if endswith path ''.git'' then path else path @ ''.git'')
      in drop 1 (take (length path - 4) path))"

definition serve_git :: "config \<Rightarrow> string \<Rightarrow> string list \<Rightarrow> string \<Rightarrow> bool \<Rightarrow> outcome aur" where
  "serve_git cfg action cmdargv user privileged =
     seqp (checkarg cmdargv [''path''])
     (let pkgbase = repo_name (cmdargv ! 1) in
      seqp (guard (repo_regex cfg pkgbase) (Aurweb (InvalidRepositoryNameException pkgbase)))
      (andthen (pkgbase_exists pkgbase) (\<lambda>ex.
       andthen (pkgbase_has_write_access pkgbase user) (\<lambda>access.
       seqp (whenp (action = ''git-receive-pack'' \<and> ex \<and> \<not> privileged \<and> \<not> access)
         (andthen (pkgbase_is_orphan pkgbase) (\<lambda>orphan.
            if orphan then raise (OrphanPackageBaseException pkgbase (ssh_cmdline cfg))
            else raise (PermissionDeniedException user))))
       (seqp (guard (git_update_ok cfg) (Aurweb (BrokenUpdateHookException (git_update_cmd cfg))))
       (ret (Exec (git_shell_cmd cfg)
          [git_shell_cmd cfg, ''-c'', action @ '' '' @ [CHR 0x27] @ repo_path cfg @ [CHR 0x27]]
          [(''AUR_USER'', user), (''AUR_PKGBASE'', pkgbase), (''GIT_NAMESPACE'', pkgbase)])))))))"

definition finish :: "unit aur \<Rightarrow> outcome aur" where
  "finish m = seqp m (ret Done)"

definition serve_dispatch ::
  "config \<Rightarrow> string \<Rightarrow> string list \<Rightarrow> string \<Rightarrow> bool \<Rightarrow> outcome aur" where
  "serve_dispatch cfg action cmdargv user privileged =
    (if action = ''git-upload-pack'' \<or> action = ''git-receive-pack''
     then serve_git cfg action cmdargv user privileged
     else if action = ''set-keywords'' then
       seqp (checkarg_atleast cmdargv [''repository name''])
       (finish (pkgbase_set_keywords (cmdargv ! 1) (drop 2 cmdargv)))
     else if action = ''list-repos'' then
       seqp (checkarg cmdargv []) (finish (list_repos user))
     else if action = ''restore'' then
       seqp (checkarg cmdargv [''repository name''])
       (seqp (validate_pkgbase cfg (cmdargv ! 1) user)
       (ret (Exec (git_update_cmd cfg) [git_update_cmd cfg, ''restore'']
          [(''AUR_USER'', user), (''AUR_PKGBASE'', cmdargv ! 1)])))
     else if action = ''adopt'' then
       seqp (checkarg cmdargv [''repository name'']) (finish (pkgbase_adopt (cmdargv ! 1) user))
     else if action = ''disown'' then
       seqp (checkarg cmdargv [''repository name''])
       (finish (pkgbase_disown cfg (cmdargv ! 1) user privileged))
     else if action = ''flag'' then
       seqp (checkarg cmdargv [''repository name'', ''comment''])
       (finish (pkgbase_flag (cmdargv ! 1) user (cmdargv ! 2)))
     else if action = ''unflag'' then
       seqp (checkarg cmdargv [''repository name'']) (finish (pkgbase_unflag (cmdargv ! 1) user))
     else if action = ''vote'' then
       seqp (checkarg cmdargv [''repository name'']) (finish (pkgbase_vote (cmdargv ! 1) user))
     else if action = ''unvote'' then
       seqp (checkarg cmdargv [''repository name'']) (finish (pkgbase_unvote (cmdargv ! 1) user))
     else if action = ''set-comaintainers'' then
       seqp (checkarg_atleast cmdargv [''repository name''])
       (finish (pkgbase_set_comaintainers cfg (cmdargv ! 1) (drop 2 cmdargv) user privileged))
     else if action = ''help'' then usage help_cmds
     else raise (InvalidArgumentsException (''invalid command: '' @ action)))"

definition serve ::
  "config \<Rightarrow> string \<Rightarrow> string list \<Rightarrow> string \<Rightarrow> bool \<Rightarrow> string option \<Rightarrow> outcome aur" where
  "serve cfg action cmdargv user privileged remote_addr =
     seqp (guard (\<not> enable_maintenance cfg
             \<or> (case remote_addr of None \<Rightarrow> False | Some ip \<Rightarrow> ip \<in> set (maintenance_exc cfg)))
           (Aurweb MaintenanceException))
     (andthen (bans_match remote_addr) (\<lambda>banned.
     seqp (guard (\<not> banned) (Aurweb BannedException))
     (seqp (log_ssh_login user remote_addr)
     (andthen (user_email_verified user) (\<lambda>verified.
     seqp (guard (is_readonly action cmdargv \<or> verified) (Aurweb EmailNotVerifiedException))
     (if action = ''git'' then
        (if length cmdargv \<le> 1 then throw Py_IndexError
         else if cmdargv ! 1 \<in> {''upload-pack'', ''receive-pack''}
         then serve_dispatch cfg (action @ ''-'' @ cmdargv ! 1)
                (take 1 cmdargv @ drop 2 cmdargv) user privileged
         else serve_dispatch cfg action cmdargv user privileged)
      else serve_dispatch cfg action cmdargv user privileged))))))"

text \<open>
  \<open>main\<close>: the environment variables are arguments. A line that \<open>shlex\<close> cannot split raises
  a \<open>ValueError\<close> and a line of white space an \<open>IndexError\<close>; neither is caught.
\<close>

definition serve_errors :: "config \<Rightarrow> string \<Rightarrow> exn \<Rightarrow> outcome aur" where
  "serve_errors cfg action e = (case e of
       Aurweb MaintenanceException \<Rightarrow> die ''The AUR is down due to maintenance. We will be back soon.''
     | Aurweb BannedException \<Rightarrow> die ''The SSH interface is disabled for your IP address.''
     | Aurweb EmailNotVerifiedException \<Rightarrow>
         die (''Your account email is not verified. Verify it from your ''
              @ ''profile on the AUR website before pushing.'')
     | Aurweb (InvalidArgumentsException msg) \<Rightarrow> die_with_help cfg (action @ '': '' @ msg)
     | Aurweb ex \<Rightarrow> die (action @ '': '' @ exception_msg ex)
     | _ \<Rightarrow> throw e)"

definition serve_main ::
  "config \<Rightarrow> string \<Rightarrow> bool \<Rightarrow> string option \<Rightarrow> string option \<Rightarrow> outcome aur" where
  "serve_main cfg user privileged ssh_cmd ssh_client =
     (case ssh_cmd of
       None \<Rightarrow> die_with_help cfg (''Welcome to AUR, '' @ user @ ''! Interactive shell is disabled.'')
     | Some line \<Rightarrow>
         if line = [] then
           die_with_help cfg (''Welcome to AUR, '' @ user @ ''! Interactive shell is disabled.'')
         else (case shlex_split line of
             None \<Rightarrow> throw Py_ValueError
           | Some [] \<Rightarrow> throw Py_IndexError
           | Some (action # args) \<Rightarrow>
               catch (serve cfg action (action # args) user privileged
                 (case ssh_client of None \<Rightarrow> None
                  | Some c \<Rightarrow> if c = [] then None else Some (hd (split_on (CHR '' '') c))))
               (serve_errors cfg action)))"

section \<open>Look-ups, as rules\<close>

definition base_named :: "db \<Rightarrow> string \<Rightarrow> nat \<Rightarrow> bool" where
  "base_named d name i \<longleftrightarrow> (\<exists>b \<in> set (PackageBases d). pb_Name b = name \<and> pb_ID b = i)"

definition user_named :: "db \<Rightarrow> string \<Rightarrow> nat \<Rightarrow> bool" where
  "user_named d name i \<longleftrightarrow> (\<exists>u \<in> set (Users d). u_Username u = name \<and> u_ID u = i)"

lemma base_named_in: "base_named d name i \<Longrightarrow> i \<in> base_ids d"
  by (auto simp: base_named_def base_ids_def)

lemma user_named_in: "user_named d name i \<Longrightarrow> i \<in> user_ids d"
  by (auto simp: user_named_def user_ids_def)

lemma base_named_unique: "wf_db d \<Longrightarrow> base_named d n i \<Longrightarrow> base_named d n j \<Longrightarrow> i = j"
  by (metis base_named_def base_name_unique)

lemma base_named_inj: "wf_db d \<Longrightarrow> base_named d n i \<Longrightarrow> base_named d m i \<Longrightarrow> n = m"
  by (metis base_named_def base_id_unique)

lemma user_named_unique: "wf_db d \<Longrightarrow> user_named d n i \<Longrightarrow> user_named d n j \<Longrightarrow> i = j"
  by (metis user_named_def user_name_unique)

lemma user_named_inj: "wf_db d \<Longrightarrow> user_named d n i \<Longrightarrow> user_named d m i \<Longrightarrow> n = m"
  by (metis user_named_def user_id_unique)

text \<open>What a look-up gives, for the two conclusions of a weakest precondition.\<close>

lemma wp_require_pkgbase:
  assumes "\<And>i. base_named (the_db w) name i \<Longrightarrow> i \<noteq> 0 \<Longrightarrow> Q i w"
    and "E (Aurweb (InvalidPackageBaseException name)) w"
  shows "wp (require_pkgbase name) Q E w"
  using assms
  by (cases "List.find (\<lambda>b. pb_Name b = name) (PackageBases (the_db w))")
    (auto simp: require_pkgbase_def pkgbase_from_name_def wp_simps base_named_def
      dest!: find_SomeD)

lemma wp_fetch_userid:
  assumes "\<And>i. user_named (the_db w) name i \<Longrightarrow> Q i w" and "E Py_TypeError w"
  shows "wp (fetch_userid name) Q E w"
  using assms
  by (auto simp: fetch_userid_def wp_simps user_named_def dest!: find_SomeD split: option.splits)

lemma wp_fetch_valid_userid:
  assumes "\<And>i. user_named (the_db w) name i \<Longrightarrow> i \<noteq> 0 \<Longrightarrow> Q i w" and "\<And>e. E e w"
  shows "wp (fetch_valid_userid name user) Q E w"
  unfolding fetch_valid_userid_def wp_andthen
  by (rule wp_fetch_userid) (simp_all add: wp_simps assms)

lemma find_base_named:
  assumes "wf_db d" and "base_named d name i"
  shows "map_option pb_ID (List.find (\<lambda>b. pb_Name b = name) (PackageBases d)) = Some i"
proof -
  from assms(2) obtain b where b: "b \<in> set (PackageBases d)" "pb_Name b = name" "pb_ID b = i"
    by (auto simp: base_named_def)
  have "distinct (map pb_Name (PackageBases d))"
    using assms(1) by (simp add: wf_db_def unique_ok_def)
  from find_key [OF this b(1)] b show ?thesis by simp
qed

lemma find_user_named:
  assumes "wf_db d" and "user_named d name i"
  shows "map_option u_ID (List.find (\<lambda>u. u_Username u = name) (Users d)) = Some i"
proof -
  from assms(2) obtain u where u: "u \<in> set (Users d)" "u_Username u = name" "u_ID u = i"
    by (auto simp: user_named_def)
  have "distinct (map u_Username (Users d))"
    using assms(1) by (simp add: wf_db_def unique_ok_def)
  from find_key [OF this u(1)] u show ?thesis by simp
qed

lemma wp_require_pkgbase_eq:
  assumes "wf_db (the_db w)" and "base_named (the_db w) name i" and "i \<noteq> 0"
  shows "wp (require_pkgbase name) Q E w = Q i w"
  using find_base_named [OF assms(1,2)] assms(3)
  by (auto simp: require_pkgbase_def pkgbase_from_name_def wp_simps)

lemma wp_fetch_valid_userid_eq:
  assumes "wf_db (the_db w)" and "user_named (the_db w) name i" and "i \<noteq> 0"
  shows "wp (fetch_valid_userid name user) Q E w = Q i w"
  using find_user_named [OF assms(1,2)] assms(3)
  by (auto simp: fetch_valid_userid_def fetch_userid_def wp_simps)

text \<open>The look-ups of a list of names.\<close>

lemma wp_collect_userids:
  assumes "\<And>ids. list_all2 (\<lambda>n i. user_named (the_db w) n i \<and> i \<noteq> 0) ns ids \<Longrightarrow> Q ids w"
    and "\<And>e. E e w"
  shows "wp (collect ns (\<lambda>n. fetch_valid_userid n user)) Q E w"
  using assms
proof (induction ns arbitrary: Q)
  case Nil
  then show ?case by (simp add: wp_simps)
next
  case (Cons n ns)
  show ?case
    unfolding collect.simps wp_andthen wp_ret
  proof (rule wp_fetch_valid_userid)
    fix i assume i: "user_named (the_db w) n i" "i \<noteq> 0"
    show "wp (collect ns (\<lambda>n. fetch_valid_userid n user)) (\<lambda>x. Q (i # x)) E w"
      by (rule Cons.IH) (use Cons.prems i in auto)
  qed (use Cons.prems in auto)
qed

lemma wp_collect_userids_eq:
  assumes "wf_db (the_db w)" and "list_all2 (\<lambda>n i. user_named (the_db w) n i \<and> i \<noteq> 0) ns ids"
  shows "wp (collect ns (\<lambda>n. fetch_valid_userid n user)) Q E w = Q ids w"
  using assms(2)
proof (induction ns ids arbitrary: Q rule: list_all2_induct)
  case Nil
  then show ?case by (simp add: wp_simps)
next
  case (Cons n ns i ids)
  have first: "wp (fetch_valid_userid n user) Q' E w = Q' i w" for Q'
    by (rule wp_fetch_valid_userid_eq) (use assms(1) Cons.hyps in auto)
  show ?case
    unfolding collect.simps wp_andthen first Cons.IH by (simp add: wp_simps)
qed

section \<open>The constraints of the database\<close>

text \<open>
  Every command keeps the constraints and the vote counter, and leaves the sets of users and
  of package bases as they are.
\<close>

text \<open>The continuation of a look-up may use what the look-up found.\<close>

lemma keeps_require_then:
  assumes "\<And>i. i \<in> B \<Longrightarrow> i \<noteq> 0 \<Longrightarrow> keeps_ok U B (f i)"
  shows "keeps_ok U B (andthen (require_pkgbase name) f)"
proof (rule keepsI)
  fix w assume w: "db_inv (db_ok_on U B) w"
  show "wp (andthen (require_pkgbase name) f)
      (\<lambda>_. db_inv (db_ok_on U B)) (\<lambda>_. db_inv (db_ok_on U B)) w"
    unfolding wp_andthen
  proof (rule wp_require_pkgbase)
    show "wp (f i) (\<lambda>_. db_inv (db_ok_on U B)) (\<lambda>_. db_inv (db_ok_on U B)) w"
      if "base_named (the_db w) name i" "i \<noteq> 0" for i
      by (rule keeps_wp [OF assms w])
        (use that base_named_in [OF that(1)] db_inv_ids [OF w] in simp_all)
  qed (rule w)
qed

lemma keeps_userid_then:
  assumes "\<And>i. i \<in> U \<Longrightarrow> keeps_ok U B (f i)"
  shows "keeps_ok U B (andthen (fetch_valid_userid name user) f)"
proof (rule keepsI)
  fix w assume w: "db_inv (db_ok_on U B) w"
  show "wp (andthen (fetch_valid_userid name user) f)
      (\<lambda>_. db_inv (db_ok_on U B)) (\<lambda>_. db_inv (db_ok_on U B)) w"
    unfolding wp_andthen
  proof (rule wp_fetch_valid_userid)
    show "wp (f i) (\<lambda>_. db_inv (db_ok_on U B)) (\<lambda>_. db_inv (db_ok_on U B)) w"
      if "user_named (the_db w) name i" "i \<noteq> 0" for i
      by (rule keeps_wp [OF assms w])
        (use that user_named_in [OF that(1)] db_inv_ids [OF w] in simp_all)
  qed (rule w)
qed

lemma keeps_userid_raw_then:
  assumes "\<And>i. i \<in> U \<Longrightarrow> keeps_ok U B (f i)"
  shows "keeps_ok U B (andthen (fetch_userid name) f)"
proof (rule keepsI)
  fix w assume w: "db_inv (db_ok_on U B) w"
  show "wp (andthen (fetch_userid name) f)
      (\<lambda>_. db_inv (db_ok_on U B)) (\<lambda>_. db_inv (db_ok_on U B)) w"
    unfolding wp_andthen
  proof (rule wp_fetch_userid)
    show "wp (f i) (\<lambda>_. db_inv (db_ok_on U B)) (\<lambda>_. db_inv (db_ok_on U B)) w"
      if "user_named (the_db w) name i" for i
      by (rule keeps_wp [OF assms w])
        (use that user_named_in [OF that(1)] db_inv_ids [OF w] in simp_all)
  qed (rule w)
qed

lemma keeps_userids_then:
  assumes "\<And>is. set is \<subseteq> U \<Longrightarrow> keeps_ok U B (f is)"
  shows "keeps_ok U B (andthen (collect ns (\<lambda>n. fetch_valid_userid n user)) f)"
proof (rule keepsI)
  fix w assume w: "db_inv (db_ok_on U B) w"
  have "set is \<subseteq> U" if "list_all2 (\<lambda>n i. user_named (the_db w) n i \<and> i \<noteq> 0) ns is" for "is"
    using that conjunct1 [OF db_inv_ids [OF w]]
    by (auto simp: list_all2_conv_all_nth in_set_conv_nth) (metis user_named_in)
  then show "wp (andthen (collect ns (\<lambda>n. fetch_valid_userid n user)) f)
      (\<lambda>_. db_inv (db_ok_on U B)) (\<lambda>_. db_inv (db_ok_on U B)) w"
    unfolding wp_andthen
    by (intro wp_collect_userids keeps_wp [OF assms] w) auto
qed

lemmas keeps_lookups = keeps_require_then keeps_userid_then keeps_userids_then keeps_userid_raw_then

lemma keeps_die [keeps_intros]: "keeps (db_inv P) (die msg)"
  by (simp add: die_def keeps_intros)

lemma keeps_warn [keeps_intros]: "keeps (db_inv P) (warn msg)"
  by (simp add: warn_def keeps_intros)

lemma keeps_require_pkgbase [keeps_intros]: "keeps I (require_pkgbase name)"
  by (auto simp: require_pkgbase_def pkgbase_from_name_def intro!: keeps_intros)

lemma keeps_fetch_userid [keeps_intros]: "keeps I (fetch_userid name)"
  by (auto simp: fetch_userid_def intro!: keeps_intros)

lemma keeps_fetch_valid_userid [keeps_intros]: "keeps I (fetch_valid_userid name user)"
  by (auto simp: fetch_valid_userid_def intro!: keeps_intros)

lemma keeps_pkgreq_by_pkgbase [keeps_intros]: "keeps I (pkgreq_by_pkgbase i t)"
  by (simp add: pkgreq_by_pkgbase_def keeps_intros)

lemma keeps_get_comaintainers [keeps_intros]: "keeps I (pkgbase_get_comaintainers name)"
  by (simp add: pkgbase_get_comaintainers_def keeps_intros)

lemma keeps_pkgbase_queries [keeps_intros]:
  "keeps I (pkgbase_has_full_access name user)" "keeps I (pkgbase_has_write_access name user)"
  "keeps I (pkgbase_is_orphan name)" "keeps I (pkgbase_exists name)" "keeps I (bans_match addr)"
  "keeps I (user_email_verified user)"
  by (auto simp: pkgbase_has_full_access_def pkgbase_has_write_access_def pkgbase_is_orphan_def
      pkgbase_exists_def pkgbase_from_name_def bans_match_def user_email_verified_def
      intro!: keeps_intros)

text \<open>An INSERT with the next ID takes the ID from the same database it inserts into.\<close>

lemma ok_pkgreq_open_adoption:
  assumes "i \<in> B" and "uid \<in> U"
  shows "keeps_ok U B (pkgreq_open_adoption i name uid)"
  by (rule keepsI)
    (use assms in \<open>auto simp: pkgreq_open_adoption_def die_def wp_simps db_inv_def
      split: option.splits intro!: ok_intros\<close>)

lemma ok_pkgreq_close: "keeps_ok U B (pkgreq_close reqid user reason comments autoclose)"
proof (rule keepsI)
  fix w assume w: "db_inv (db_ok_on U B) w"
  have close: "db_inv (db_ok_on U B) (w\<lparr>the_db := (the_db w)\<lparr>PackageRequests :=
      update_where (\<lambda>r. pr_ID r = reqid) (\<lambda>r. r\<lparr>pr_Status := status, pr_ClosedTS := ts,
        pr_ClosedUID := uid, pr_ClosureComment := c\<rparr>) (PackageRequests (the_db w))\<rparr>, sent := ns\<rparr>)"
    if "refers uid (user_ids (the_db w))" for uid status ts c ns
    using w that by (auto simp: db_inv_def db_ok_on_def [of U B "the_db w"] intro!: ok_intros
        db_ok_on_self)
  show "wp (pkgreq_close reqid user reason comments autoclose)
      (\<lambda>_. db_inv (db_ok_on U B)) (\<lambda>_. db_inv (db_ok_on U B)) w"
    using w close user_named_in
    by (auto simp: pkgreq_close_def wp_simps split: option.splits intro!: wp_fetch_valid_userid)
qed

lemma ok_pkgbase_adopt: "keeps_ok U B (pkgbase_adopt pkgbase user)"
  unfolding pkgbase_adopt_def
  by (intro keeps_require_then keeps_andthen db_inv_query keeps_userid_then keeps_intros
      ok_pkgreq_open_adoption) auto

lemma ok_set_priorities:
  assumes "set uids \<subseteq> U" and "i \<in> B"
  shows "keeps_ok U B (set_priorities i add n uids)"
  using assms by (induction uids arbitrary: n) (auto intro!: keeps_intros ok_intros)

lemma ok_pkgbase_set_comaintainers:
  assumes "set_iteration (set_iter cfg)"
  shows "keeps_ok U B (pkgbase_set_comaintainers cfg pkgbase users user privileged)"
  unfolding pkgbase_set_comaintainers_def Let_def
  by (intro keeps_require_then keeps_andthen keeps_pkgbase_queries keeps_seqp keeps_guard
      db_inv_transaction keeps_get_comaintainers keeps_userids_then ok_set_priorities
      keeps_for_each db_inv_execute db_inv_send ok_intros)
    (simp_all add: set_iteration.set_iter [OF assms])

lemma ok_pkgbase_disown:
  assumes "set_iteration (set_iter cfg)"
  shows "keeps_ok U B (pkgbase_disown cfg pkgbase user privileged)"
proof -
  have rest: "keeps_ok U B (seqp (pkgbase_set_comaintainers cfg pkgbase ms user privileged)
     (seqp (execute (\<lambda>d. d\<lparr>PackageBases := update_where (\<lambda>b. pb_ID b = i)
             (\<lambda>b. b\<lparr>pb_MaintainerUID := new\<rparr>) (PackageBases d)\<rparr>))
     (andthen (fetch_valid_userid user user) (\<lambda>userid. send (DisownNotification userid i)))))"
    if "refers new U" for ms i new
    by (intro keeps_intros ok_pkgbase_set_comaintainers [OF assms] ok_intros) (use that in auto)
  have assoc: "andthen (andthen m (\<lambda>i. ret (Some i))) f = andthen m (\<lambda>i. f (Some i))"
    "andthen (ret None) f = f None" for m :: "nat aur" and f :: "nat option \<Rightarrow> unit aur"
    by (auto simp: fun_eq_iff andthen_def ret_def split: prod.splits sum.splits)
  have choose: "keeps_ok U B (andthen (case ms of [] \<Rightarrow> ret None
      | m # _ \<Rightarrow> andthen (fetch_userid m) (\<lambda>i. ret (Some i))) f)"
    if "\<And>new. refers new U \<Longrightarrow> keeps_ok U B (f new)" for ms and f :: "nat option \<Rightarrow> unit aur"
    using that by (cases ms) (auto simp: assoc intro!: keeps_userid_raw_then)
  show ?thesis
    unfolding pkgbase_disown_def
    by (intro keeps_require_then choose rest keeps_andthen keeps_pkgbase_queries keeps_guard
        keeps_seqp [OF keeps_guard] keeps_seqp [OF keeps_for_each] keeps_pkgreq_by_pkgbase
        ok_pkgreq_close keeps_if keeps_get_comaintainers keeps_ret)
qed

lemma ok_pkgbase_flag: "keeps_ok U B (pkgbase_flag pkgbase user comment)"
  unfolding pkgbase_flag_def
  by (intro keeps_require_then keeps_seqp keeps_guard keeps_userid_then keeps_andthen keeps_utcnow
      db_inv_execute db_inv_send ok_intros) auto

lemma ok_pkgbase_unflag: "keeps_ok U B (pkgbase_unflag pkgbase user)"
  unfolding pkgbase_unflag_def
  by (intro keeps_require_then keeps_userid_then keeps_andthen keeps_get_comaintainers keeps_if
      db_inv_execute ok_intros) auto

lemma ok_pkgbase_vote: "keeps_ok U B (pkgbase_vote pkgbase user)"
proof (rule keepsI)
  fix w assume w: "db_inv (db_ok_on U B) w"
  show "wp (pkgbase_vote pkgbase user) (\<lambda>_. db_inv (db_ok_on U B)) (\<lambda>_. db_inv (db_ok_on U B)) w"
    unfolding pkgbase_vote_def wp_andthen
  proof (intro wp_require_pkgbase wp_fetch_valid_userid)
    fix i u assume i: "base_named (the_db w) pkgbase i" and u: "user_named (the_db w) user u"
    have ids: "u \<in> U" "i \<in> B"
      using base_named_in [OF i] user_named_in [OF u] db_inv_ids [OF w] by simp_all
    have ok: "db_ok_on U B (the_db w)"
      using w by (simp add: db_inv_def)
    note vote = ok_vote [OF ok, of "\<lparr>pv_UsersID = u, pv_PackageBaseID = i, pv_VoteTS = now w\<rparr>" i]
    from ids vote w show "wp (query (\<lambda>d. count_where (vote_of u i) (PackageVotes d)))
         (\<lambda>n. wp (seqp (guard (n = 0) (Aurweb (AlreadyVotedException pkgbase)))
             (andthen utcnow (\<lambda>ts.
              seqp (execute (\<lambda>d. d\<lparr>PackageVotes := PackageVotes d @
                     [\<lparr>pv_UsersID = u, pv_PackageBaseID = i, pv_VoteTS = ts\<rparr>]\<rparr>))
              (execute (\<lambda>d. d\<lparr>PackageBases := update_where (\<lambda>b. pb_ID b = i)
                     (\<lambda>b. b\<lparr>pb_NumVotes := pb_NumVotes b + 1\<rparr>) (PackageBases d)\<rparr>)))))
           (\<lambda>_. db_inv (db_ok_on U B)) (\<lambda>_. db_inv (db_ok_on U B))) (\<lambda>_. db_inv (db_ok_on U B)) w"
      by (simp add: wp_simps db_inv_def vote_of_def [abs_def])
  qed (use w in auto)
qed

lemma ok_pkgbase_unvote: "keeps_ok U B (pkgbase_unvote pkgbase user)"
proof (rule keepsI)
  fix w assume w: "db_inv (db_ok_on U B) w"
  note unvote = ok_unvote [of U B "the_db w"]
  show "wp (pkgbase_unvote pkgbase user) (\<lambda>_. db_inv (db_ok_on U B)) (\<lambda>_. db_inv (db_ok_on U B)) w"
    unfolding pkgbase_unvote_def wp_andthen
    by (intro wp_require_pkgbase wp_fetch_valid_userid)
      (use w unvote in \<open>simp_all add: wp_simps db_inv_def vote_of_def [abs_def]\<close>)
qed

lemma ok_pkgbase_set_keywords: "keeps_ok U B (pkgbase_set_keywords pkgbase keywords)"
  unfolding pkgbase_set_keywords_def insert_keyword_def
  by (intro keeps_require_then db_inv_transaction keeps_seqp keeps_for_each db_inv_execute
      db_inv_insert_unless ok_intros) auto

lemma ok_list_repos: "keeps_ok U B (list_repos user)"
  unfolding list_repos_def by (intro keeps_intros)

lemma keeps_checkarg [keeps_intros]:
  "keeps I (checkarg_atleast argv desc)" "keeps I (checkarg_atmost argv desc)"
  "keeps I (checkarg argv desc)"
  by (auto simp: checkarg_def checkarg_atleast_def checkarg_atmost_def intro!: keeps_intros)

lemma keeps_usage [keeps_intros]: "keeps (db_inv P) (usage cmds)"
  unfolding usage_def Let_def split_beta by (intro keeps_intros)

lemma keeps_finish [keeps_intros]: "keeps I m \<Longrightarrow> keeps I (finish m)"
  by (simp add: finish_def keeps_intros)

lemma keeps_serve_git [keeps_intros]: "keeps I (serve_git cfg action argv user privileged)"
  unfolding serve_git_def Let_def by (intro keeps_intros)

lemma keeps_validate_pkgbase [keeps_intros]: "keeps I (validate_pkgbase cfg pkgbase user)"
  unfolding validate_pkgbase_def by (intro keeps_intros)

lemmas ok_commands = ok_pkgbase_adopt ok_pkgbase_set_comaintainers ok_pkgbase_disown
  ok_pkgbase_flag ok_pkgbase_unflag ok_pkgbase_vote ok_pkgbase_unvote ok_pkgbase_set_keywords
  ok_list_repos

lemma ok_serve_dispatch:
  assumes "set_iteration (set_iter cfg)"
  shows "keeps_ok U B (serve_dispatch cfg action argv user privileged)"
  unfolding serve_dispatch_def
  by (intro keeps_if keeps_serve_git keeps_seqp keeps_checkarg keeps_finish ok_commands assms
      keeps_usage keeps_raise keeps_validate_pkgbase keeps_ret)

lemma ok_log_ssh_login: "keeps_ok U B (log_ssh_login user addr)"
  unfolding log_ssh_login_def by (intro keeps_intros ok_intros) auto

lemma ok_serve:
  assumes "set_iteration (set_iter cfg)"
  shows "keeps_ok U B (serve cfg action argv user privileged addr)"
  unfolding serve_def
  by (intro keeps_seqp keeps_guard keeps_andthen keeps_pkgbase_queries ok_log_ssh_login keeps_if
      keeps_throw ok_serve_dispatch assms)

lemma keeps_serve_errors: "keeps (db_inv P) (serve_errors cfg action e)"
  unfolding serve_errors_def die_with_help_def
  by (auto intro!: keeps_intros split: exn.split aurweb_exception.split)

lemma ok_serve_main:
  assumes "set_iteration (set_iter cfg)"
  shows "keeps_ok U B (serve_main cfg user privileged cmd client)"
  unfolding serve_main_def die_with_help_def
  by (auto intro!: keeps_intros ok_serve assms keeps_serve_errors split: option.split list.split)

section \<open>Sessions\<close>

text \<open>One SSH connection: who, from where, with which command line, and when.\<close>

record ssh_connection =
  ssh_user :: string
  ssh_privileged :: bool
  ssh_original_command :: "string option"
  ssh_client :: "string option"
  ssh_time :: int

definition ssh_session :: "config \<Rightarrow> ssh_connection \<Rightarrow> world \<Rightarrow> (exn + outcome) \<times> world" where
  "ssh_session cfg c w = serve_main cfg (ssh_user c) (ssh_privileged c) (ssh_original_command c)
     (ssh_client c) (w\<lparr>now := ssh_time c\<rparr>)"

lemma ssh_system:
  assumes "set_iteration (set_iter cfg)"
  shows "system (ssh_session cfg) (db_inv (db_ok_on U B))"
  by unfold_locales
    (simp add: ssh_session_def db_inv_def keepsD [OF ok_serve_main [OF assms], unfolded db_inv_def])

interpretation default_ssh: system "ssh_session default_config" "db_inv (db_ok_on U B)"
  by (rule ssh_system) (rule default_iteration.set_iteration_axioms)


definition demo_connection :: "nat \<Rightarrow> string \<Rightarrow> ssh_connection" where
  "demo_connection t cmd = \<lparr>ssh_user = ''bob'', ssh_privileged = False,
     ssh_original_command = Some cmd, ssh_client = Some ''127.0.0.1 2222 22'', ssh_time = int t\<rparr>"


section \<open>The gate\<close>

definition under_maintenance :: "config \<Rightarrow> string option \<Rightarrow> bool" where
  "under_maintenance cfg addr \<longleftrightarrow> enable_maintenance cfg
     \<and> (\<forall>ip \<in> set (maintenance_exc cfg). addr \<noteq> Some ip)"

definition email_verified :: "db \<Rightarrow> string \<Rightarrow> bool" where
  "email_verified d user \<longleftrightarrow> (\<exists>u \<in> set (Users d). u_Username u = user \<and> u_EmailVerified u)"

lemma user_email_verified_eq:
  assumes "wf_db (the_db w)"
  shows "user_email_verified user w = (Inr (email_verified (the_db w) user), w)"
proof -
  have d: "distinct (map u_Username (Users (the_db w)))"
    using assms by (simp add: wf_db_def unique_ok_def)
  show ?thesis
  proof (cases "List.find (\<lambda>u. u_Username u = user) (Users (the_db w))")
    case None
    then show ?thesis
      by (auto simp: user_email_verified_def query_def gets_def email_verified_def
          dest: find_NoneD)
  next
    case (Some u)
    with find_SomeD [OF Some] show ?thesis
      by (auto simp: user_email_verified_def query_def gets_def email_verified_def
          dest: distinct_map_inj [OF d])
  qed
qed

definition logged_in :: "string \<Rightarrow> string option \<Rightarrow> world \<Rightarrow> world" where
  "logged_in user addr w = w\<lparr>the_db := (the_db w)\<lparr>Users := update_where (\<lambda>u. u_Username u = user)
     (\<lambda>u. u\<lparr>u_LastSSHLogin := now w, u_LastSSHLoginIPAddress := addr\<rparr>) (Users (the_db w))\<rparr>\<rparr>"

lemma email_verified_logged_in [simp]:
  "email_verified (the_db (logged_in user addr w)) u = email_verified (the_db w) u"
  by (simp add: email_verified_def logged_in_def bex_update_where if_distrib if_bool_eq_disj
      cong: if_cong)

lemma wf_logged_in: "wf_db (the_db w) \<Longrightarrow> wf_db (the_db (logged_in user addr w))"
  by (simp add: logged_in_def wf_Users_update)

text \<open>\<open>git upload-pack\<close> and \<open>git receive-pack\<close> are rewritten to one word.\<close>

definition joined :: "string \<Rightarrow> string list \<Rightarrow> string \<times> string list" where
  "joined action argv = (if action = ''git'' \<and> argv ! 1 \<in> {''upload-pack'', ''receive-pack''}
     then (action @ ''-'' @ argv ! 1, take 1 argv @ drop 2 argv) else (action, argv))"

text \<open>The whole of \<open>serve\<close> on a consistent database, as one case distinction.\<close>

lemma serve_eq:
  assumes "wf_db (the_db w)"
  shows "serve cfg action argv user privileged addr w =
   (if under_maintenance cfg addr then (Inl (Aurweb MaintenanceException), w)
    else if \<exists>ip \<in> set (Bans (the_db w)). addr = Some ip then (Inl (Aurweb BannedException), w)
    else if \<not> is_readonly action argv \<and> \<not> email_verified (the_db w) user
      then (Inl (Aurweb EmailNotVerifiedException), logged_in user addr w)
    else if action = ''git'' \<and> length argv \<le> 1 then (Inl Py_IndexError, logged_in user addr w)
    else serve_dispatch cfg (fst (joined action argv)) (snd (joined action argv)) user privileged
      (logged_in user addr w))"
proof -
  have log: "log_ssh_login user addr w = (Inr (), logged_in user addr w)"
    by (simp add: log_ssh_login_def andthen_def utcnow_def gets_def execute_def modify_def
        logged_in_def)
  have ban: "bans_match addr w = (Inr (\<exists>ip \<in> set (Bans (the_db w)). addr = Some ip), w)"
    by (auto simp: bans_match_def query_def gets_def count_where_pos split: option.splits)
  have maint: "(\<not> enable_maintenance cfg
      \<or> (case addr of None \<Rightarrow> False | Some ip \<Rightarrow> ip \<in> set (maintenance_exc cfg)))
      = (\<not> under_maintenance cfg addr)"
    by (auto simp: under_maintenance_def split: option.splits)
  show ?thesis
    unfolding serve_def seqp_def andthen_def guard_def maint
    by (simp add: ret_def throw_def log ban user_email_verified_eq [OF wf_logged_in [OF assms]]
        joined_def)
qed

text \<open>
  Maintenance, bans and unverified accounts stop a command before it does anything: under
  maintenance and for a banned address nothing changes at all; an account whose e-mail address
  is not verified can only read, and its refused command leaves no trace but the login.
\<close>

theorem serve_gate:
  assumes "wf_db (the_db w)"
    and "under_maintenance cfg addr \<or> (\<exists>ip \<in> set (Bans (the_db w)). addr = Some ip)
      \<or> (\<not> is_readonly action argv \<and> \<not> email_verified (the_db w) user)"
  shows "\<exists>e. e \<in> {MaintenanceException, BannedException, EmailNotVerifiedException}
    \<and> fst (serve cfg action argv user privileged addr w) = Inl (Aurweb e)
    \<and> snd (serve cfg action argv user privileged addr w)
      = (if e = EmailNotVerifiedException then logged_in user addr w else w)"
  using assms(2) by (auto simp: serve_eq [OF assms(1)])

theorem serve_gate_witness:
  "\<exists>e. e \<in> {MaintenanceException, BannedException, EmailNotVerifiedException}
    \<and> fst (serve (default_config\<lparr>enable_maintenance := False\<rparr>) ''vote'' [''vote'', ''foo''] ''mallory''
        False (Some ''10.0.0.1'') demo_world) = Inl (Aurweb e)
    \<and> snd (serve (default_config\<lparr>enable_maintenance := False\<rparr>) ''vote'' [''vote'', ''foo''] ''mallory''
        False (Some ''10.0.0.1'') demo_world)
      = (if e = EmailNotVerifiedException then logged_in ''mallory'' (Some ''10.0.0.1'') demo_world
         else demo_world)"
proof -
  have "\<not> is_readonly ''vote'' [''vote'', ''foo''] \<and> \<not> email_verified demo_db ''mallory''"
    by code_simp
  then show ?thesis
    by (intro serve_gate) (simp_all add: demo_wf)
qed

section \<open>Maintainers\<close>

text \<open>All commands but \<open>disown\<close> leave every maintainer alone.\<close>

lemma maintainers_pkgreq_open_adoption: "keeps_maintainers M (pkgreq_open_adoption i name uid)"
  unfolding pkgreq_open_adoption_def by (intro keeps_intros) simp_all

lemma maintainers_set_priorities: "keeps_maintainers M (set_priorities i add n uids)"
  by (induction uids arbitrary: n) (auto intro!: keeps_intros)

lemma maintainers_pkgbase_set_comaintainers:
  "keeps_maintainers M (pkgbase_set_comaintainers cfg pkgbase users user privileged)"
  unfolding pkgbase_set_comaintainers_def Let_def
  by (intro keeps_intros maintainers_set_priorities) simp_all

lemma maintainers_pkgbase_adopt: "keeps_maintainers M (pkgbase_adopt pkgbase user)"
  unfolding pkgbase_adopt_def by (intro keeps_intros maintainers_pkgreq_open_adoption)

lemma maintainers_votes_flags:
  "keeps_maintainers M (pkgbase_vote pkgbase user)"
  "keeps_maintainers M (pkgbase_unvote pkgbase user)"
  "keeps_maintainers M (pkgbase_flag pkgbase user comment)"
  "keeps_maintainers M (pkgbase_unflag pkgbase user)"
  "keeps_maintainers M (pkgbase_set_keywords pkgbase keywords)"
  "keeps_maintainers M (list_repos user)"
  unfolding pkgbase_vote_def pkgbase_unvote_def pkgbase_flag_def pkgbase_unflag_def
    pkgbase_set_keywords_def insert_keyword_def list_repos_def
  by (intro keeps_intros; simp)+

lemma maintainers_serve_dispatch:
  assumes "action \<noteq> ''disown''"
  shows "keeps_maintainers M (serve_dispatch cfg action argv user privileged)"
  unfolding serve_dispatch_def
  by (intro keeps_if keeps_serve_git keeps_seqp keeps_checkarg keeps_finish keeps_usage keeps_raise
      keeps_validate_pkgbase keeps_ret maintainers_votes_flags maintainers_pkgbase_adopt
      maintainers_pkgbase_set_comaintainers)
    (use assms in simp)

text \<open>The tables that say who maintains what, through the first half of \<open>disown\<close>.\<close>

abbreviation owners :: "db \<Rightarrow> packagebases_row list \<times> users_row list \<times> packagecomaintainers_row list" where
  "owners d \<equiv> (PackageBases d, Users d, PackageComaintainers d)"

lemma owners_pkgreq_close:
  "keeps (db_inv (\<lambda>d. owners d = X)) (pkgreq_close reqid user reason comments autoclose)"
  unfolding pkgreq_close_def by (intro keeps_intros) simp_all

lemma comaintainers_of_cong: "owners d = owners d' \<Longrightarrow> comaintainers_of name d = comaintainers_of name d'"
  unfolding comaintainers_of_def prod.inject by (elim conjE) (simp only:)

definition with_maintainer :: "nat \<Rightarrow> nat option \<Rightarrow> (nat \<times> string \<times> nat option) list
    \<Rightarrow> (nat \<times> string \<times> nat option) list" where
  "with_maintainer i new = map (\<lambda>(j, name, m). (j, name, if j = i then new else m))"

lemma maintainers_with:
  "maintainers (d\<lparr>PackageBases := update_where (\<lambda>b. pb_ID b = i)
     (\<lambda>b. b\<lparr>pb_MaintainerUID := new\<rparr>) (PackageBases d)\<rparr>) = with_maintainer i new (maintainers d)"
  by (simp add: maintainers_def with_maintainer_def update_where_def)

text \<open>The user that \<open>disown\<close> hands the package base to.\<close>

definition successor :: "db \<Rightarrow> string \<Rightarrow> nat option \<Rightarrow> bool" where
  "successor d name new \<longleftrightarrow> (case comaintainers_of name d of [] \<Rightarrow> new = None
     | m # _ \<Rightarrow> (\<exists>i. new = Some i \<and> user_named d m i))"

definition full_access :: "db \<Rightarrow> string \<Rightarrow> string \<Rightarrow> bool" where
  "full_access d pkgbase user \<longleftrightarrow> (\<exists>b \<in> set (PackageBases d). pb_Name b = pkgbase \<and>
     (\<exists>u \<in> set (Users d). u_Username u = user \<and> pb_MaintainerUID b = Some (u_ID u)))"

lemma wp_full_access [wp_simps]:
  "wp (pkgbase_has_full_access pkgbase user) Q E w = Q (full_access (the_db w) pkgbase user) w"
  by (simp add: pkgbase_has_full_access_def full_access_def wp_simps)

definition disowned :: "db \<Rightarrow> string \<Rightarrow> string \<Rightarrow> bool \<Rightarrow> db \<Rightarrow> bool" where
  "disowned d pkgbase user privileged d' \<longleftrightarrow> (\<exists>i new. base_named d pkgbase i
     \<and> (privileged \<or> full_access d pkgbase user)
     \<and> (if full_access d pkgbase user then successor d pkgbase new else new = None)
     \<and> maintainers d' = with_maintainer i new (maintainers d))"

lemma disown_maintainers:
  "wp (pkgbase_disown cfg pkgbase user privileged)
     (\<lambda>_ w'. disowned (the_db w) pkgbase user privileged (the_db w'))
     (\<lambda>_ w'. maintainers (the_db w') = maintainers (the_db w)
        \<or> disowned (the_db w) pkgbase user privileged (the_db w')) w"
  (is "wp _ ?Q ?E w")
proof -
  let ?d = "the_db w"
  have tail: "wp (seqp (pkgbase_set_comaintainers cfg pkgbase ms user privileged)
     (seqp (execute (\<lambda>d. d\<lparr>PackageBases := update_where (\<lambda>b. pb_ID b = i)
             (\<lambda>b. b\<lparr>pb_MaintainerUID := new\<rparr>) (PackageBases d)\<rparr>))
     (andthen (fetch_valid_userid user user) (\<lambda>userid. send (DisownNotification userid i))))) ?Q ?E w1"
    if "owners (the_db w1) = owners ?d" "base_named ?d pkgbase i"
      "privileged \<or> full_access ?d pkgbase user"
      "if full_access ?d pkgbase user then successor ?d pkgbase new else new = None" for ms i new w1
  proof -
    have "wp (pkgbase_set_comaintainers cfg pkgbase ms user privileged)
        (\<lambda>_. db_inv (\<lambda>d. maintainers d = maintainers ?d))
        (\<lambda>_. db_inv (\<lambda>d. maintainers d = maintainers ?d)) w1"
      by (rule keeps_wp [OF maintainers_pkgbase_set_comaintainers])
        (use that in \<open>simp add: db_inv_def maintainers_def\<close>)
    then show ?thesis
      unfolding wp_seqp
    proof (rule wp_mono)
      fix w2 assume w2: "db_inv (\<lambda>d. maintainers d = maintainers ?d) w2"
      have "disowned ?d pkgbase user privileged ((the_db w2)\<lparr>PackageBases :=
          update_where (\<lambda>b. pb_ID b = i) (\<lambda>b. b\<lparr>pb_MaintainerUID := new\<rparr>)
            (PackageBases (the_db w2))\<rparr>)"
        unfolding disowned_def maintainers_with
        using that(2-4) w2 by (intro exI [of _ i] exI [of _ new]) (simp add: db_inv_def)
      then show "wp (execute (\<lambda>d. d\<lparr>PackageBases := update_where (\<lambda>b. pb_ID b = i)
             (\<lambda>b. b\<lparr>pb_MaintainerUID := new\<rparr>) (PackageBases d)\<rparr>))
          (\<lambda>_. wp (andthen (fetch_valid_userid user user)
            (\<lambda>userid. send (DisownNotification userid i))) ?Q ?E) ?E w2"
        by (simp add: wp_simps) (auto intro!: wp_fetch_valid_userid simp: wp_simps)
    qed (simp add: db_inv_def)
  qed
  have choose: "wp (andthen (case ms of [] \<Rightarrow> ret None
        | m # _ \<Rightarrow> andthen (fetch_userid m) (\<lambda>i. ret (Some i))) f) ?Q ?E w1"
    if "owners (the_db w1) = owners ?d"
      "\<And>new. (case ms of [] \<Rightarrow> new = None | m # _ \<Rightarrow> \<exists>i. new = Some i \<and> user_named ?d m i)
        \<Longrightarrow> wp (f new) ?Q ?E w1" for ms f w1
    using that
    by (cases ms) (auto simp: wp_simps user_named_def maintainers_def intro!: wp_fetch_userid)
  show ?thesis
    unfolding pkgbase_disown_def wp_andthen wp_seqp wp_full_access wp_guard
  proof (rule wp_require_pkgbase, goal_cases)
    case (1 i)
    have loop: "wp (for_each reqids (\<lambda>r. pkgreq_close r user reason c True))
        (\<lambda>_. db_inv (\<lambda>d. owners d = owners ?d)) (\<lambda>_. db_inv (\<lambda>d. owners d = owners ?d)) w"
      for reqids reason c
      by (rule keeps_wp [OF keeps_for_each [OF owners_pkgreq_close]]) (simp add: db_inv_def)
    have after: "wp (if full_access ?d pkgbase user then pkgbase_get_comaintainers pkgbase else ret [])
          (\<lambda>ms. wp (andthen (case ms of [] \<Rightarrow> ret None
              | m # _ \<Rightarrow> andthen (fetch_userid m) (\<lambda>i. ret (Some i)))
            (\<lambda>new. seqp (pkgbase_set_comaintainers cfg pkgbase
                (case ms of [] \<Rightarrow> [] | m # ms \<Rightarrow> remove1 m (m # ms)) user privileged)
              (seqp (execute (\<lambda>d. d\<lparr>PackageBases := update_where (\<lambda>b. pb_ID b = i)
                (\<lambda>b. b\<lparr>pb_MaintainerUID := new\<rparr>) (PackageBases d)\<rparr>))
              (andthen (fetch_valid_userid user user)
                (\<lambda>userid. send (DisownNotification userid i)))))) ?Q ?E) ?E w1"
      if own: "owners (the_db w1) = owners ?d" and acc: "privileged \<or> full_access ?d pkgbase user" for w1
    proof (cases "full_access ?d pkgbase user")
      case True
      show ?thesis
        unfolding if_P [OF True] pkgbase_get_comaintainers_def wp_query
          comaintainers_of_cong [OF own, of pkgbase]
        by (rule choose [OF own], rule tail [OF own 1(1) acc]) (simp add: True successor_def)
    next
      case False
      show ?thesis
        unfolding if_not_P [OF False] wp_ret
        by (rule choose [OF own], rule tail [OF own 1(1) acc]) (simp add: False)
    qed
    show ?case
    proof (cases "privileged \<or> full_access ?d pkgbase user")
      case True
      show ?thesis
        unfolding if_P [OF True] pkgreq_by_pkgbase_def wp_query
      proof (rule wp_mono [OF loop], goal_cases)
        case (1 _ w1)
        show ?case
          by (rule after [unfolded wp_andthen wp_seqp]) (use 1 True in \<open>simp_all add: db_inv_def\<close>)
      qed (simp add: db_inv_def maintainers_def)
    next
      case False
      show ?thesis
        unfolding if_not_P [OF False] by simp
    qed
  qed simp
qed

lemma serve_dispatch_disown:
  assumes "maintainers (the_db (snd (serve_dispatch cfg action argv user privileged w)))
    \<noteq> maintainers (the_db w)"
  shows "action = ''disown'' \<and> disowned (the_db w) (argv ! 1) user privileged
    (the_db (snd (serve_dispatch cfg action argv user privileged w)))"
proof (cases "action = ''disown''")
  case False
  from keepsD [OF maintainers_serve_dispatch [OF False], of "maintainers (the_db w)" w]
  have False using assms by (simp add: db_inv_def)
  then show ?thesis ..
next
  case True
  have check: "wp (checkarg argv desc) (\<lambda>_ w'. w' = w) (\<lambda>_ w'. w' = w) w" for desc
    by (rule keeps_wp [OF keeps_checkarg(3)]) simp
  have "wp (seqp (checkarg argv [''repository name'']) (finish (pkgbase_disown cfg (argv ! 1) user privileged)))
     (\<lambda>_ w'. disowned (the_db w) (argv ! 1) user privileged (the_db w'))
     (\<lambda>_ w'. maintainers (the_db w') = maintainers (the_db w)
        \<or> disowned (the_db w) (argv ! 1) user privileged (the_db w')) w"
    unfolding wp_seqp
    by (rule wp_mono [OF check]) (auto simp: finish_def wp_simps intro: wp_mono [OF disown_maintainers])
  then have "wp (serve_dispatch cfg action argv user privileged)
     (\<lambda>_ w'. maintainers (the_db w') = maintainers (the_db w)
        \<or> disowned (the_db w) (argv ! 1) user privileged (the_db w'))
     (\<lambda>_ w'. maintainers (the_db w') = maintainers (the_db w)
        \<or> disowned (the_db w) (argv ! 1) user privileged (the_db w')) w"
    unfolding True by (simp add: serve_dispatch_def) (erule wp_mono; simp)
  with assms True show ?thesis
    unfolding snd_wp [symmetric] by blast
qed

lemma logged_in_same [simp]:
  "PackageBases (the_db (logged_in user addr w)) = PackageBases (the_db w)"
  "PackageComaintainers (the_db (logged_in user addr w)) = PackageComaintainers (the_db w)"
  "maintainers (the_db (logged_in user addr w)) = maintainers (the_db w)"
  by (simp_all add: logged_in_def maintainers_def)

lemma logged_in_lookups [simp]:
  "base_named (the_db (logged_in user addr w)) = base_named (the_db w)"
  "user_named (the_db (logged_in user addr w)) = user_named (the_db w)"
  "full_access (the_db (logged_in user addr w)) = full_access (the_db w)"
  by (auto simp: fun_eq_iff base_named_def user_named_def full_access_def logged_in_def
      bex_update_where if_distrib [of u_ID] if_distrib [of u_Username] cong: if_cong)

lemma comaintainers_of_logged_in [simp]:
  "comaintainers_of name (the_db (logged_in user addr w)) = comaintainers_of name (the_db w)"
proof -
  have "[u_Username u. u \<leftarrow> Users (the_db (logged_in user addr w)), u_ID u = i, b \<leftarrow> bs, q b]
      = [u_Username u. u \<leftarrow> Users (the_db w), u_ID u = i, b \<leftarrow> bs, q b]"
    for i and bs :: "packagebases_row list" and q
    unfolding logged_in_def update_where_def by (auto simp: comp_def intro!: arg_cong [of _ _ concat])
  then show ?thesis
    unfolding comaintainers_of_def by (simp cong: if_cong)
qed

lemma disowned_logged_in [simp]:
  "disowned (the_db (logged_in user addr w)) = disowned (the_db w)"
  by (simp add: fun_eq_iff disowned_def successor_def cong: list.case_cong)

text \<open>
  The only SSH command that changes who maintains a package base is \<open>disown\<close>, issued by
  its maintainer or with privileges. The maintainer's own \<open>disown\<close> hands the package base to
  the co-maintainer of the lowest priority number, and to nobody when there is none; a
  privileged user's \<open>disown\<close> orphans it. Every other package base keeps its maintainer.
\<close>

theorem serve_changes_maintainer:
  assumes "wf_db (the_db w)"
    and "maintainers (the_db (snd (serve cfg action argv user privileged addr w)))
      \<noteq> maintainers (the_db w)"
  shows "action = ''disown'' \<and> (\<exists>i new. base_named (the_db w) (argv ! 1) i
    \<and> (privileged \<or> full_access (the_db w) (argv ! 1) user)
    \<and> (if full_access (the_db w) (argv ! 1) user then successor (the_db w) (argv ! 1) new
       else new = None)
    \<and> maintainers (the_db (snd (serve cfg action argv user privileged addr w)))
      = with_maintainer i new (maintainers (the_db w)))"
proof -
  let ?a = "fst (joined action argv)" and ?v = "snd (joined action argv)"
  have s: "serve cfg action argv user privileged addr w
      = serve_dispatch cfg ?a ?v user privileged (logged_in user addr w)"
    using assms(2) unfolding serve_eq [OF assms(1)] by (auto split: if_splits)
  have "maintainers (the_db (snd (serve_dispatch cfg ?a ?v user privileged (logged_in user addr w))))
      \<noteq> maintainers (the_db (logged_in user addr w))"
    using assms(2) unfolding s by simp
  from serve_dispatch_disown [OF this]
  have "?a = ''disown'' \<and> disowned (the_db w) (?v ! 1) user privileged
      (the_db (snd (serve cfg action argv user privileged addr w)))"
    unfolding s disowned_logged_in .
  moreover have "?a = ''disown'' \<Longrightarrow> action = ''disown'' \<and> ?v = argv"
    by (auto simp: joined_def split: if_splits)
  ultimately show ?thesis
    unfolding disowned_def by (metis (no_types, lifting))
qed

theorem serve_changes_maintainer_witness:
  "\<exists>i new. base_named demo_db ''foo'' i
    \<and> (False \<or> full_access demo_db ''foo'' ''bob'')
    \<and> (if full_access demo_db ''foo'' ''bob'' then successor demo_db ''foo'' new else new = None)
    \<and> maintainers (the_db (snd (serve default_config ''disown'' [''disown'', ''foo''] ''bob'' False
        (Some ''127.0.0.1'') demo_world))) = with_maintainer i new (maintainers demo_db)"
proof -
  have "maintainers (the_db (snd (serve default_config ''disown'' [''disown'', ''foo''] ''bob'' False
      (Some ''127.0.0.1'') demo_world))) \<noteq> maintainers demo_db"
    by code_simp
  note run = serve_changes_maintainer [of demo_world, unfolded demo_the_db, OF demo_wf this]
  have arg: "[''disown'', ''foo''] ! 1 = ''foo''"
    by simp
  show ?thesis
    using conjunct2 [OF run] unfolding arg .
qed

section \<open>Votes\<close>

lemma unvote_undoes:
  assumes "wf_db d" and "count_where (vote_of u i) (PackageVotes d) = 0"
    and "pv_UsersID v = u" and "pv_PackageBaseID v = i"
  shows "delete_where (vote_of u i) (PackageVotes d @ [v]) = PackageVotes d"
    and "update_where (\<lambda>b. pb_ID b = i) (\<lambda>b. b\<lparr>pb_NumVotes := pb_NumVotes b - 1\<rparr>)
      (update_where (\<lambda>b. pb_ID b = i) (\<lambda>b. b\<lparr>pb_NumVotes := pb_NumVotes b + 1\<rparr>) (PackageBases d))
      = PackageBases d"
proof -
  have "filter (\<lambda>x. \<not> vote_of u i x) (PackageVotes d) = PackageVotes d"
    using assms(2) by (simp add: count_where_0)
  then show "delete_where (vote_of u i) (PackageVotes d @ [v]) = PackageVotes d"
    using assms(3,4) by (simp add: delete_where_def vote_of_def)
qed (simp add: update_where_def comp_def map_idI)

lemma wp_vote:
  assumes "wf_db (the_db w)" and "base_named (the_db w) pkgbase i" "i \<noteq> 0"
    and "user_named (the_db w) user u" "u \<noteq> 0"
  shows "wp (pkgbase_vote pkgbase user) Q E w =
    (if count_where (vote_of u i) (PackageVotes (the_db w)) = 0
     then Q () (w\<lparr>the_db := (the_db w)\<lparr>PackageVotes := PackageVotes (the_db w) @
         [\<lparr>pv_UsersID = u, pv_PackageBaseID = i, pv_VoteTS = now w\<rparr>],
       PackageBases := update_where (\<lambda>b. pb_ID b = i)
         (\<lambda>b. b\<lparr>pb_NumVotes := pb_NumVotes b + 1\<rparr>) (PackageBases (the_db w))\<rparr>\<rparr>)
     else E (Aurweb (AlreadyVotedException pkgbase)) w)"
  unfolding pkgbase_vote_def wp_andthen wp_require_pkgbase_eq [OF assms(1-3)]
    wp_fetch_valid_userid_eq [OF assms(1,4,5)]
  by (simp add: wp_simps)

lemma wp_unvote:
  assumes "wf_db (the_db w)" and "base_named (the_db w) pkgbase i" "i \<noteq> 0"
    and "user_named (the_db w) user u" "u \<noteq> 0"
  shows "wp (pkgbase_unvote pkgbase user) Q E w =
    (if count_where (vote_of u i) (PackageVotes (the_db w)) = 0
     then E (Aurweb (NotVotedException pkgbase)) w
     else Q () (w\<lparr>the_db := (the_db w)\<lparr>PackageVotes :=
         delete_where (vote_of u i) (PackageVotes (the_db w)),
       PackageBases := update_where (\<lambda>b. pb_ID b = i)
         (\<lambda>b. b\<lparr>pb_NumVotes := pb_NumVotes b - 1\<rparr>) (PackageBases (the_db w))\<rparr>\<rparr>))"
  unfolding pkgbase_unvote_def wp_andthen wp_require_pkgbase_eq [OF assms(1-3)]
    wp_fetch_valid_userid_eq [OF assms(1,4,5)]
  by (simp add: wp_simps)

lemma vote_succeeds:
  assumes "fst (pkgbase_vote pkgbase user w) = Inr ()"
  obtains u i where "base_named (the_db w) pkgbase i" "i \<noteq> 0" "user_named (the_db w) user u" "u \<noteq> 0"
proof -
  have "wp (pkgbase_vote pkgbase user)
     (\<lambda>_ _. \<exists>u i. base_named (the_db w) pkgbase i \<and> i \<noteq> 0 \<and> user_named (the_db w) user u \<and> u \<noteq> 0)
     (\<lambda>_ _. True) w"
    unfolding pkgbase_vote_def wp_andthen
    by (intro wp_require_pkgbase wp_fetch_valid_userid) (auto simp: wp_simps)
  with assms that show thesis
    by (auto simp: wp_def split: prod.splits)
qed

text \<open>
  A vote and its withdrawal cancel: after a successful \<open>vote\<close> a second one is refused and
  changes nothing, and \<open>unvote\<close> succeeds and restores the database exactly, counter included.
\<close>

theorem vote_then_unvote:
  assumes "db_ok (the_db w)" and "pkgbase_vote pkgbase user w = (Inr (), w')"
  shows "pkgbase_vote pkgbase user w' = (Inl (Aurweb (AlreadyVotedException pkgbase)), w')
    \<and> pkgbase_unvote pkgbase user w' = (Inr (), w)"
proof -
  have wf0: "wf_db (the_db w)"
    using assms(1) by (simp add: db_ok_def)
  have "fst (pkgbase_vote pkgbase user w) = Inr ()"
    using assms(2) by simp
  then obtain u i where ids: "base_named (the_db w) pkgbase i" "i \<noteq> 0"
      "user_named (the_db w) user u" "u \<noteq> 0"
    by (rule vote_succeeds)
  let ?v = "\<lparr>pv_UsersID = u, pv_PackageBaseID = i, pv_VoteTS = now w\<rparr>"
  let ?d = "(the_db w)\<lparr>PackageVotes := PackageVotes (the_db w) @ [?v],
       PackageBases := update_where (\<lambda>b. pb_ID b = i)
         (\<lambda>b. b\<lparr>pb_NumVotes := pb_NumVotes b + 1\<rparr>) (PackageBases (the_db w))\<rparr>"
  have vote: "count_where (vote_of u i) (PackageVotes (the_db w)) = 0 \<and> w' = w\<lparr>the_db := ?d\<rparr>"
    using assms(2) wp_vote [OF wf0 ids, of "\<lambda>_ x. x = w'" "\<lambda>_ _. False"]
      wp_vote [OF wf0 ids, of "\<lambda>_ _. True" "\<lambda>_ _. False"]
    by (auto simp: wp_def split: if_splits)
  have "db_inv (db_ok_on (user_ids (the_db w)) (base_ids (the_db w))) (snd (pkgbase_vote pkgbase user w))"
    by (rule keepsD [OF ok_pkgbase_vote]) (simp add: db_inv_def db_ok_on_self assms(1))
  then have wf: "wf_db (the_db w')"
    by (simp add: assms(2) db_inv_def db_ok_on_wf)
  have ids': "base_named (the_db w') pkgbase i" "user_named (the_db w') user u"
    using ids vote by (auto simp: base_named_def user_named_def bex_update_where if_distrib cong: if_cong)
  have once: "count_where (vote_of u i) (PackageVotes (the_db w')) = 1"
    using vote by (simp add: table_simps vote_of_def)
  have same: "w'\<lparr>the_db := (the_db w')\<lparr>PackageVotes := delete_where (vote_of u i) (PackageVotes (the_db w')),
       PackageBases := update_where (\<lambda>b. pb_ID b = i)
         (\<lambda>b. b\<lparr>pb_NumVotes := pb_NumVotes b - 1\<rparr>) (PackageBases (the_db w'))\<rparr>\<rparr> = w"
    using vote unvote_undoes [OF wf0, of u i ?v] by simp
  show ?thesis
    unfolding run_wp [of "\<lambda>r. r = _" "pkgbase_vote pkgbase user"]
      run_wp [of "\<lambda>r. r = _" "pkgbase_unvote pkgbase user"]
      wp_vote [OF wf ids'(1) ids(2) ids'(2) ids(4)] wp_unvote [OF wf ids'(1) ids(2) ids'(2) ids(4)]
    using once same by simp
qed

theorem vote_then_unvote_witness:
  "\<exists>w'. pkgbase_vote ''foo'' ''bob'' w' = (Inl (Aurweb (AlreadyVotedException ''foo'')), w')
    \<and> pkgbase_unvote ''foo'' ''bob'' w' = (Inr (), demo_world)"
proof -
  have "fst (pkgbase_vote ''foo'' ''bob'' demo_world) = Inr ()"
    by code_simp
  then have "pkgbase_vote ''foo'' ''bob'' demo_world
      = (Inr (), snd (pkgbase_vote ''foo'' ''bob'' demo_world))"
    by (metis prod.collapse)
  from vote_then_unvote [OF _ this] demo_db_ok show ?thesis
    by auto
qed

section \<open>Co-maintainers\<close>

text \<open>The rows of the co-maintainers \<open>us\<close> of package base \<open>i\<close>, numbered from \<open>n\<close>.\<close>

fun numbered :: "nat \<Rightarrow> nat \<Rightarrow> nat list \<Rightarrow> packagecomaintainers_row list" where
  "numbered i n [] = []"
| "numbered i n (u # us) =
     \<lparr>cm_UsersID = u, cm_PackageBaseID = i, cm_Priority = n\<rparr> # numbered i (Suc n) us"

definition comaint_of :: "nat \<Rightarrow> nat set \<Rightarrow> packagecomaintainers_row \<Rightarrow> bool" where
  "comaint_of i us c \<longleftrightarrow> cm_PackageBaseID c = i \<and> cm_UsersID c \<in> us"

lemma wp_set_priorities:
  assumes "distinct uids"
    and "\<And>u. u \<in> set uids \<Longrightarrow> u \<in> set add \<longleftrightarrow>
      \<not> (\<exists>c \<in> set (PackageComaintainers (the_db w)). comaint_of i {u} c)"
    and "\<And>w' cs. the_db w' = (the_db w)\<lparr>PackageComaintainers := cs\<rparr> \<Longrightarrow>
      set cs = {c \<in> set (PackageComaintainers (the_db w)). \<not> comaint_of i (set uids) c}
        \<union> set (numbered i n uids) \<Longrightarrow> Q () w'"
  shows "wp (set_priorities i add n uids) Q E w"
  using assms
proof (induction uids arbitrary: n w)
  case Nil
  then show ?case
    using Nil.prems(3) [of w "PackageComaintainers (the_db w)"]
    by (simp add: wp_simps comaint_of_def)
next
  case (Cons u uids)
  let ?cs = "PackageComaintainers (the_db w)"
  let ?row = "\<lparr>cm_UsersID = u, cm_PackageBaseID = i, cm_Priority = n\<rparr>"
  have u: "u \<notin> set uids" "distinct uids"
    using Cons.prems(1) by simp_all
  have step: "wp (set_priorities i add (Suc n) uids) Q E w1"
    if "the_db w1 = (the_db w)\<lparr>PackageComaintainers := cs1\<rparr>"
      and cs1: "set cs1 = {c \<in> set ?cs. \<not> comaint_of i {u} c} \<union> {?row}" for w1 cs1
  proof (rule Cons.IH [OF u(2)])
    show "x \<in> set add \<longleftrightarrow> \<not> (\<exists>c \<in> set (PackageComaintainers (the_db w1)). comaint_of i {x} c)"
      if "x \<in> set uids" for x
      using Cons.prems(2) [of x] that u(1) \<open>the_db w1 = _\<close> cs1 by (auto simp: comaint_of_def)
    show "Q () w'" if "the_db w' = (the_db w1)\<lparr>PackageComaintainers := cs\<rparr>"
      "set cs = {c \<in> set (PackageComaintainers (the_db w1)). \<not> comaint_of i (set uids) c}
        \<union> set (numbered i (Suc n) uids)" for w' cs
      by (rule Cons.prems(3) [of w' cs])
        (use that \<open>the_db w1 = _\<close> cs1 u(1) in \<open>auto simp: comaint_of_def\<close>)
  qed
  show ?case
  proof (cases "u \<in> set add")
    case True
    then have "\<not> comaint_of i {u} c" if "c \<in> set ?cs" for c
      using Cons.prems(2) [of u] that by auto
    then have "set (?cs @ [?row]) = {c \<in> set ?cs. \<not> comaint_of i {u} c} \<union> {?row}"
      by auto
    from step [OF _ this] True show ?thesis
      by (simp add: wp_simps)
  next
    case False
    then obtain c where c: "c \<in> set ?cs" "comaint_of i {u} c"
      using Cons.prems(2) [of u] by auto
    have row: "c\<lparr>cm_Priority := n\<rparr> = ?row" if "comaint_of i {u} c" for c
      using that by (simp add: comaint_of_def)
    have p: "(\<lambda>c. cm_PackageBaseID c = i \<and> cm_UsersID c = u) = comaint_of i {u}"
      by (auto simp: comaint_of_def)
    have "set (update_where (comaint_of i {u}) (\<lambda>c. c\<lparr>cm_Priority := n\<rparr>) ?cs)
        = {c \<in> set ?cs. \<not> comaint_of i {u} c} \<union> {?row}"
      using c row by (fastforce simp: set_update_where image_iff)
    from step [OF _ this] False show ?thesis
      by (simp add: wp_simps p)
  qed
qed

lemma wp_remove_old_comaintainers:
  assumes "\<And>w' cs. the_db w' = (the_db w)\<lparr>PackageComaintainers := cs\<rparr> \<Longrightarrow>
      set cs = {c \<in> set (PackageComaintainers (the_db w)). \<not> comaint_of i (set uids) c} \<Longrightarrow> Q () w'"
  shows "wp (for_each uids (\<lambda>userid.
      seqp (execute (\<lambda>d. d\<lparr>PackageComaintainers := delete_where
              (\<lambda>c. cm_PackageBaseID c = i \<and> cm_UsersID c = userid) (PackageComaintainers d)\<rparr>))
      (send (ComaintainerRemoveNotification userid i)))) Q E w"
  using assms
proof (induction uids arbitrary: w)
  case Nil
  then show ?case
    using Nil [of w "PackageComaintainers (the_db w)"] by (simp add: wp_simps comaint_of_def)
next
  case (Cons u uids)
  show ?case
    unfolding wp_for_each_Cons wp_seqp wp_execute wp_send
    by (simp, rule Cons.IH, rule Cons.prems) (auto simp: comaint_of_def table_simps)
qed

lemma set_comaintainers_of: "set (comaintainers_of name d) = {n. \<exists>c \<in> set (PackageComaintainers d).
    base_named d name (cm_PackageBaseID c) \<and> user_named d n (cm_UsersID c)}"
proof -
  have "n \<in> set (comaintainers_of name d) \<longleftrightarrow> (\<exists>c \<in> set (PackageComaintainers d). \<exists>u \<in> set (Users d).
      u_ID u = cm_UsersID c \<and> (\<exists>b \<in> set (PackageBases d).
        pb_ID b = cm_PackageBaseID c \<and> pb_Name b = name) \<and> n = u_Username u)" for n
    by (auto simp: comaintainers_of_def split: if_splits)
  then show ?thesis
    by (intro set_eqI) (simp only: mem_Collect_eq base_named_def user_named_def, blast)
qed

lemma wf_comaintainer: "wf_db d \<Longrightarrow> c \<in> set (PackageComaintainers d) \<Longrightarrow> cm_UsersID c \<in> user_ids d"
  by (simp add: wf_db_def refs_ok_def)

lemma user_ids_named: "i \<in> user_ids d \<longleftrightarrow> (\<exists>n. user_named d n i)"
  by (auto simp: user_ids_def user_named_def)

lemma comaintainer_ids:
  assumes "wf_db d" and "base_named d name i"
    and "list_all2 (\<lambda>n i. user_named d n i \<and> i \<noteq> 0) (remdups (comaintainers_of name d)) ids"
  shows "set ids = {cm_UsersID c | c. c \<in> set (PackageComaintainers d) \<and> cm_PackageBaseID c = i}"
proof -
  have base: "base_named d name j \<longleftrightarrow> j = i" for j
    using assms(1,2) base_named_unique by blast
  have named: "\<exists>n. user_named d n (cm_UsersID c)" if "c \<in> set (PackageComaintainers d)" for c
    using wf_comaintainer [OF assms(1) that] by (simp add: user_ids_named)
  have "j \<in> set ids \<longleftrightarrow> (\<exists>n \<in> set (remdups (comaintainers_of name d)). user_named d n j)" for j
    using list_all2_in1 [OF assms(3)] list_all2_in2 [OF assms(3)] user_named_unique [OF assms(1)]
    by metis
  then show ?thesis
    using named user_named_unique [OF assms(1)]
    by (auto simp: set_comaintainers_of base) blast+
qed

lemma wp_set_comaintainers:
  assumes "set_iteration (set_iter cfg)" and "wf_db (the_db w)" and "0 \<notin> user_ids (the_db w)"
    and "base_named (the_db w) pkgbase i" and "i \<noteq> 0"
    and "privileged \<or> full_access (the_db w) pkgbase user"
    and "list_all2 (user_named (the_db w)) names ids"
    and "\<And>w' cs. the_db w' = (the_db w)\<lparr>PackageComaintainers := cs\<rparr> \<Longrightarrow>
      set cs = {c \<in> set (PackageComaintainers (the_db w)). cm_PackageBaseID c \<noteq> i}
        \<union> set (numbered i 1 (set_iter cfg ids)) \<Longrightarrow> Q () w'"
  shows "wp (pkgbase_set_comaintainers cfg pkgbase names user privileged) Q E w"
proof -
  let ?d = "the_db w"
  let ?old = "remdups (comaintainers_of pkgbase ?d)"
  have iter [simp]: "set (set_iter cfg xs) = set xs" "distinct (set_iter cfg xs)" for xs
    using assms(1) by (simp_all add: set_iteration_def)
  have valid: "user_named ?d n i \<Longrightarrow> i \<noteq> 0" for n i
    using assms(3) user_named_in by metis
  have "\<exists>olds. list_all2 (\<lambda>n i. user_named ?d n i \<and> i \<noteq> 0) ?old olds"
    by (rule list_all2_choice) (use valid in \<open>auto simp: set_comaintainers_of\<close>)
  then obtain olds where olds: "list_all2 (\<lambda>n i. user_named ?d n i \<and> i \<noteq> 0) ?old olds" ..
  have news: "list_all2 (\<lambda>n i. user_named ?d n i \<and> i \<noteq> 0) names ids"
    using assms(7) valid by (auto simp: list_all2_conv_all_nth)
  note old_ids = comaintainer_ids [OF assms(2,4) olds]
  show ?thesis
    unfolding pkgbase_set_comaintainers_def wp_andthen wp_require_pkgbase_eq [OF assms(2,4,5)]
      wp_full_access wp_seqp wp_guard if_P [OF assms(6)] wp_transaction pkgbase_get_comaintainers_def
      wp_query wp_collect_userids_eq [OF assms(2) olds] wp_collect_userids_eq [OF assms(2) news]
      Let_def
  proof (rule wp_set_priorities, goal_cases)
    case (2 u)
    then show ?case
      using old_ids by (auto simp: comaint_of_def)
  next
    case (3 w1 cs1)
    show ?case
    proof (rule wp_remove_old_comaintainers, goal_cases)
      case (1 w2 cs2)
      have num: "c \<in> set (numbered i n us) \<Longrightarrow> cm_PackageBaseID c = i \<and> cm_UsersID c \<in> set us" for c n us
        by (induction us arbitrary: n) auto
      have "set cs2 = {c \<in> set (PackageComaintainers ?d). cm_PackageBaseID c \<noteq> i}
          \<union> set (numbered i 1 (set_iter cfg ids))"
        using 1(2) 3 old_ids num [of _ 1 "set_iter cfg ids"] by (auto simp: comaint_of_def)
      with 1(1) 3(1) show ?case
        by (intro assms(8)) simp_all
    qed
  qed simp
qed

text \<open>
  Setting the co-maintainers of a package base to users that exist gives exactly those
  users, each once, with the priorities 1, 2, ... in the order in which the set of their IDs is
  iterated (not the order in which they were named); other package bases keep theirs, and
  nothing else changes.
\<close>

theorem set_comaintainers_exactly:
  assumes "set_iteration (set_iter cfg)" and "wf_db (the_db w)" and "0 \<notin> user_ids (the_db w)"
    and "base_named (the_db w) pkgbase i" and "i \<noteq> 0"
    and "privileged \<or> full_access (the_db w) pkgbase user"
    and "list_all2 (user_named (the_db w)) names ids"
  shows "fst (pkgbase_set_comaintainers cfg pkgbase names user privileged w) = Inr ()
    \<and> (\<exists>cs. the_db (snd (pkgbase_set_comaintainers cfg pkgbase names user privileged w))
          = (the_db w)\<lparr>PackageComaintainers := cs\<rparr>
        \<and> set cs = {c \<in> set (PackageComaintainers (the_db w)). cm_PackageBaseID c \<noteq> i}
          \<union> set (numbered i 1 (set_iter cfg ids)))"
proof -
  have "wp (pkgbase_set_comaintainers cfg pkgbase names user privileged)
     (\<lambda>_ w'. \<exists>cs. the_db w' = (the_db w)\<lparr>PackageComaintainers := cs\<rparr>
        \<and> set cs = {c \<in> set (PackageComaintainers (the_db w)). cm_PackageBaseID c \<noteq> i}
          \<union> set (numbered i 1 (set_iter cfg ids))) (\<lambda>_ _. False) w"
    by (rule wp_set_comaintainers [OF assms]) blast
  then show ?thesis
    by (auto simp: wp_def split: prod.splits sum.splits)
qed

theorem set_comaintainers_exactly_witness:
  "fst (pkgbase_set_comaintainers default_config ''foo'' [''alice''] ''bob'' False demo_world) = Inr ()
    \<and> (\<exists>cs. the_db (snd (pkgbase_set_comaintainers default_config ''foo'' [''alice''] ''bob'' False
          demo_world)) = demo_db\<lparr>PackageComaintainers := cs\<rparr>
        \<and> set cs = {c \<in> set (PackageComaintainers demo_db). cm_PackageBaseID c \<noteq> 10}
          \<union> set (numbered 10 1 (set_iter default_config [1])))"
proof -
  have "0 \<notin> user_ids demo_db" "base_named demo_db ''foo'' 10" "full_access demo_db ''foo'' ''bob''"
    "user_named demo_db ''alice'' 1"
    by (code_simp+)
  then show ?thesis
    using set_comaintainers_exactly [of default_config demo_world "''foo''" 10 False "''bob''"
        "[''alice'']" "[1]",
        unfolded demo_the_db, OF default_iteration.set_iteration_axioms demo_wf]
    by simp
qed

section \<open>Adoption\<close>

definition pending :: "db \<Rightarrow> nat \<Rightarrow> string \<Rightarrow> nat list" where
  "pending d i reqtype = [pr_ID r. r \<leftarrow> PackageRequests d, t \<leftarrow> RequestTypes d,
     qt_ID t = pr_ReqTypeID r \<and> pr_Status r = 0 \<and> pr_PackageBaseID r = Some i
     \<and> qt_Name t = reqtype]"

lemma pkgreq_by_pkgbase_eq: "pkgreq_by_pkgbase i reqtype = query (\<lambda>d. pending d i reqtype)"
  by (simp add: pkgreq_by_pkgbase_def pending_def)

definition adoption_request :: "world \<Rightarrow> string \<Rightarrow> nat \<Rightarrow> nat \<Rightarrow> nat \<Rightarrow> packagerequests_row" where
  "adoption_request w pkgbase i u t =
     \<lparr>pr_ID = next_id (map pr_ID (PackageRequests (the_db w))), pr_ReqTypeID = t,
       pr_PackageBaseID = Some i, pr_PackageBaseName = pkgbase, pr_MergeBaseName = None,
       pr_UsersID = Some u, pr_Comments = ''Autogenerated by aurweb (SSH).'', pr_ClosureComment = [],
       pr_RequestTS = now w, pr_ClosedTS = None, pr_ClosedUID = None, pr_Status = 0\<rparr>"

lemma wp_adopt:
  assumes "wf_db (the_db w)" and "base_named (the_db w) pkgbase i" "i \<noteq> 0"
    and "user_named (the_db w) user u" "u \<noteq> 0"
  shows "wp (pkgbase_adopt pkgbase user) Q E w =
   (if \<exists>b \<in> set (PackageBases (the_db w)). pb_ID b = i \<and> pb_MaintainerUID b = None
    then if pending (the_db w) i ''adoption'' \<noteq> []
      then wp (die (''There is already a pending adoption request for '' @ pkgbase @ ''.'')) Q E w
      else wp (seqp (pkgreq_open_adoption i pkgbase u)
        (warn (''An adoption request for '' @ pkgbase @ '' has been filed. A Package ''
          @ ''Maintainer must grant it before you become the maintainer.''))) Q E w
    else E (Aurweb (PermissionDeniedException user)) w)"
  unfolding pkgbase_adopt_def wp_andthen wp_require_pkgbase_eq [OF assms(1-3)] wp_query
    wp_fetch_valid_userid_eq [OF assms(1,4,5)] pkgreq_by_pkgbase_eq
  by (simp only: wp_simps)

lemma pending_insert:
  assumes "distinct (map qt_ID (RequestTypes d))" and "t \<in> set (RequestTypes d)"
    and "pr_ReqTypeID r = qt_ID t" "pr_Status r = 0" "pr_PackageBaseID r = Some i"
  shows "pending (d\<lparr>PackageRequests := PackageRequests d @ [r]\<rparr>) i (qt_Name t)
    = pending d i (qt_Name t) @ [pr_ID r]"
proof -
  have "concat (map (\<lambda>s. if qt_ID s = qt_ID t \<and> qt_Name s = qt_Name t then [pr_ID r] else []) ts)
      = [pr_ID r]" if "distinct (map qt_ID ts)" "t \<in> set ts" for ts
    using that
  proof (induction ts)
    case (Cons s ts)
    have "t \<notin> set ts \<Longrightarrow> concat (map (\<lambda>s. if qt_ID s = qt_ID t \<and> qt_Name s = qt_Name t then [pr_ID r]
        else []) ts) = []" if "qt_ID t \<notin> qt_ID ` set ts"
      using that by (auto simp: image_iff)
    with Cons show ?case
      by (cases "s = t") (auto simp: image_iff)
  qed simp
  with assms show ?thesis
    by (simp add: pending_def)
qed

text \<open>
  Adopting over SSH never gives a package base to anyone: it only files a request, and
  only for an orphan that has no pending adoption request, so that afterwards exactly one is
  pending. When it is refused, the database stays as it was.
\<close>

theorem adopt_files_one_request:
  assumes "wf_db (the_db w)" and "base_named (the_db w) pkgbase i" "i \<noteq> 0"
    and "user_named (the_db w) user u" "u \<noteq> 0"
    and "distinct (map qt_ID (RequestTypes (the_db w)))"
    and "List.find (\<lambda>t. qt_Name t = ''adoption'') (RequestTypes (the_db w)) = Some t"
  shows "if (\<exists>b \<in> set (PackageBases (the_db w)). pb_ID b = i \<and> pb_MaintainerUID b = None)
      \<and> pending (the_db w) i ''adoption'' = []
    then fst (pkgbase_adopt pkgbase user w) = Inr ()
      \<and> the_db (snd (pkgbase_adopt pkgbase user w)) = (the_db w)\<lparr>PackageRequests :=
          PackageRequests (the_db w) @ [adoption_request w pkgbase i u (qt_ID t)]\<rparr>
      \<and> length (pending (the_db (snd (pkgbase_adopt pkgbase user w))) i ''adoption'') = 1
    else (\<exists>e. fst (pkgbase_adopt pkgbase user w) = Inl e)
      \<and> the_db (snd (pkgbase_adopt pkgbase user w)) = the_db w"
proof -
  have t: "t \<in> set (RequestTypes (the_db w))" "qt_Name t = ''adoption''"
    using find_SomeD [OF assms(7)] by auto
  have one: "pending ((the_db w)\<lparr>PackageRequests :=
      PackageRequests (the_db w) @ [adoption_request w pkgbase i u (qt_ID t)]\<rparr>) i ''adoption''
      = pending (the_db w) i ''adoption'' @ [pr_ID (adoption_request w pkgbase i u (qt_ID t))]"
    using pending_insert [OF assms(6) t(1), of "adoption_request w pkgbase i u (qt_ID t)" i]
    by (simp add: adoption_request_def t(2))
  show ?thesis
  proof (cases "(\<exists>b \<in> set (PackageBases (the_db w)). pb_ID b = i \<and> pb_MaintainerUID b = None)
      \<and> pending (the_db w) i ''adoption'' = []")
    case True
    have "wp (pkgbase_adopt pkgbase user) (\<lambda>_ w'. the_db w' = (the_db w)\<lparr>PackageRequests :=
          PackageRequests (the_db w) @ [adoption_request w pkgbase i u (qt_ID t)]\<rparr>) (\<lambda>_ _. False) w"
      unfolding wp_adopt [OF assms(1-5)] using True
      by (simp add: pkgreq_open_adoption_def wp_simps warn_def assms(7) adoption_request_def)
    with True one show ?thesis
      by (auto simp: wp_def split: prod.splits sum.splits)
  next
    case False
    have "wp (pkgbase_adopt pkgbase user) (\<lambda>_ _. False) (\<lambda>_ w'. the_db w' = the_db w) w"
      unfolding wp_adopt [OF assms(1-5)] using False by (auto simp: die_def wp_simps)
    with False show ?thesis
      by (auto simp: wp_def split: prod.splits sum.splits)
  qed
qed

theorem adopt_files_one_request_witness:
  "fst (pkgbase_adopt ''bar'' ''bob'' demo_world) = Inr ()
    \<and> the_db (snd (pkgbase_adopt ''bar'' ''bob'' demo_world)) = demo_db\<lparr>PackageRequests :=
        PackageRequests demo_db @ [adoption_request demo_world ''bar'' 11 2 4]\<rparr>
    \<and> length (pending (the_db (snd (pkgbase_adopt ''bar'' ''bob'' demo_world))) 11 ''adoption'') = 1"
proof -
  have d: "base_named demo_db ''bar'' 11" "user_named demo_db ''bob'' 2"
    "distinct (map qt_ID (RequestTypes demo_db))"
    "List.find (\<lambda>t. qt_Name t = ''adoption'') (RequestTypes demo_db)
      = Some \<lparr>qt_ID = 4, qt_Name = ''adoption''\<rparr>"
    by (code_simp+)
  have c: "(\<exists>b \<in> set (PackageBases demo_db). pb_ID b = 11 \<and> pb_MaintainerUID b = None)
      \<and> pending demo_db 11 ''adoption'' = []"
    by code_simp
  have nz: "(11::nat) \<noteq> 0" "(2::nat) \<noteq> 0"
    by simp_all
  show ?thesis
    using adopt_files_one_request [of demo_world "''bar''" 11 "''bob''" 2, unfolded demo_the_db,
        OF demo_wf d(1) nz(1) d(2) nz(2) d(3,4)]
    unfolding if_P [OF c] requesttypes_row.simps .
qed

section \<open>Keywords\<close>

definition keyword_row :: "nat \<Rightarrow> string \<Rightarrow> packagekeywords_row" where
  "keyword_row i k = \<lparr>kw_PackageBaseID = i, kw_Keyword = k\<rparr>"

lemma keyword_row_inject [simp]: "keyword_row i k = keyword_row j l \<longleftrightarrow> i = j \<and> k = l"
  by (simp add: keyword_row_def)

lemma keyword_row_in: "(i, k) \<in> (\<lambda>k. (kw_PackageBaseID k, kw_Keyword k)) ` set rs
    \<longleftrightarrow> keyword_row i k \<in> set rs"
proof
  assume "(i, k) \<in> (\<lambda>k. (kw_PackageBaseID k, kw_Keyword k)) ` set rs"
  then obtain x where x: "x \<in> set rs" and key: "kw_PackageBaseID x = i" "kw_Keyword x = k"
    by auto
  from key have "x = keyword_row i k"
    by (cases x) (simp add: keyword_row_def)
  with x show "keyword_row i k \<in> set rs" by simp
qed (auto intro: rev_image_eqI simp: keyword_row_def)

lemma wp_insert_keywords:
  "wp (for_each ks (insert_keyword i)) Q (\<lambda>e w'. E e (w'\<lparr>the_db := d\<rparr>)) w =
    (if distinct ks \<and> (\<forall>k \<in> set ks. keyword_row i k \<notin> set (PackageKeywords (the_db w)))
     then Q () (w\<lparr>the_db := (the_db w)\<lparr>PackageKeywords := PackageKeywords (the_db w)
       @ map (keyword_row i) ks\<rparr>\<rparr>) else E IntegrityError (w\<lparr>the_db := d\<rparr>))"
proof (induction ks arbitrary: w)
  case Nil
  then show ?case by (simp add: wp_simps)
next
  case (Cons k ks)
  show ?case
    unfolding wp_for_each_Cons Cons.IH
    by (auto simp: insert_keyword_def wp_insert_unless keyword_row_in keyword_row_def [symmetric])
qed

text \<open>
  \<open>set-keywords\<close> replaces the keywords of a package base by the ones given, provided they
  are distinct; a repeated keyword violates the unique index and the old keywords stay. The
  command asks for no permission: any user may do this to any package base.
\<close>

theorem set_keywords_by_anyone:
  assumes "wf_db (the_db w)" and "base_named (the_db w) pkgbase i" "i \<noteq> 0"
  shows "serve_dispatch cfg ''set-keywords'' (''set-keywords'' # pkgbase # ks) user privileged w =
    (if distinct ks then (Inr Done, w\<lparr>the_db := (the_db w)\<lparr>PackageKeywords :=
        delete_where (\<lambda>k. kw_PackageBaseID k = i) (PackageKeywords (the_db w))
          @ map (keyword_row i) ks\<rparr>\<rparr>)
     else (Inl IntegrityError, w))"
proof -
  have "keyword_row i k \<notin> set (delete_where (\<lambda>k. kw_PackageBaseID k = i) rs)" for k rs
    by (simp add: table_simps keyword_row_def)
  then have keys: "wp (pkgbase_set_keywords pkgbase ks) Q E w =
     (if distinct ks then Q () (w\<lparr>the_db := (the_db w)\<lparr>PackageKeywords :=
        delete_where (\<lambda>k. kw_PackageBaseID k = i) (PackageKeywords (the_db w))
          @ map (keyword_row i) ks\<rparr>\<rparr>) else E IntegrityError w)" for Q E
    unfolding pkgbase_set_keywords_def wp_andthen wp_require_pkgbase_eq [OF assms]
      wp_transaction wp_seqp wp_execute
    by (simp add: wp_insert_keywords)
  have "checkarg_atleast (''set-keywords'' # pkgbase # ks) [''repository name''] = ret ()"
    by (simp add: checkarg_atleast_def)
  then have "serve_dispatch cfg ''set-keywords'' (''set-keywords'' # pkgbase # ks) user privileged
      = seqp (ret ()) (finish (pkgbase_set_keywords pkgbase ks))"
    by (simp add: serve_dispatch_def)
  then show ?thesis
    by (subst run_wp [of "\<lambda>r. r = _"]) (simp add: wp_simps finish_def keys)
qed

theorem set_keywords_by_anyone_witness:
  "serve_dispatch default_config ''set-keywords'' [''set-keywords'', ''foo'', ''mine''] ''mallory'' False
     demo_world = (Inr Done, demo_world\<lparr>the_db := demo_db\<lparr>PackageKeywords :=
        delete_where (\<lambda>k. kw_PackageBaseID k = 10) (PackageKeywords demo_db)
          @ map (keyword_row 10) [''mine'']\<rparr>\<rparr>)"
proof -
  have "base_named demo_db ''foo'' 10"
    by code_simp
  then show ?thesis
    using set_keywords_by_anyone [of demo_world "''foo''" 10 default_config "[''mine'']" "''mallory''" False,
        unfolded demo_the_db, OF demo_wf]
    by simp
qed

section \<open>Pushing\<close>

definition write_access :: "db \<Rightarrow> string \<Rightarrow> string \<Rightarrow> bool" where
  "write_access d pkgbase user \<longleftrightarrow> (\<exists>b \<in> set (PackageBases d). pb_Name b = pkgbase \<and>
     (\<exists>u \<in> set (Users d). u_Username u = user \<and> (pb_MaintainerUID b = Some (u_ID u)
        \<or> (\<exists>c \<in> set (PackageComaintainers d). comaint_of (pb_ID b) {u_ID u} c))))"

lemma wp_write_access [wp_simps]:
  "wp (pkgbase_has_write_access pkgbase user) Q E w = Q (write_access (the_db w) pkgbase user) w"
  by (simp add: pkgbase_has_write_access_def write_access_def comaint_of_def wp_simps)

lemma wp_pkgbase_exists [wp_simps]:
  "wp (pkgbase_exists pkgbase) Q E w = Q (\<exists>i. base_named (the_db w) pkgbase i) w"
proof -
  have "(\<exists>i. base_named d pkgbase i) \<longleftrightarrow> (\<exists>b \<in> set (PackageBases d). pb_Name b = pkgbase)" for d
    by (auto simp: base_named_def)
  then show ?thesis
    by (simp add: pkgbase_exists_def pkgbase_from_name_def wp_simps find_Some_iff_ex)
qed

lemma write_access_logged_in [simp]:
  "write_access (the_db (logged_in user addr w)) = write_access (the_db w)"
  by (simp add: fun_eq_iff write_access_def logged_in_def bex_update_where if_distrib [of u_ID]
      if_distrib [of u_Username] cong: if_cong)

definition allowed_push :: "config \<Rightarrow> string \<Rightarrow> bool \<Rightarrow> db \<Rightarrow> outcome \<Rightarrow> bool" where
  "allowed_push cfg user privileged d r \<longleftrightarrow> (\<forall>prog args env. r = Exec prog args env \<longrightarrow>
    (\<exists>name. env = [(''AUR_USER'', user), (''AUR_PKGBASE'', name), (''GIT_NAMESPACE'', name)]
    \<and> prog = git_shell_cmd cfg \<and> repo_regex cfg name \<and> ((\<exists>i. base_named d name i) \<longrightarrow>
      privileged \<or> write_access d name user)))"

lemma allowed_pushI:
  assumes "repo_regex cfg name"
    and "(\<exists>i. base_named d name i) \<Longrightarrow> privileged \<or> write_access d name user"
  shows "allowed_push cfg user privileged d (Exec (git_shell_cmd cfg) args
    [(''AUR_USER'', user), (''AUR_PKGBASE'', name), (''GIT_NAMESPACE'', name)])"
  unfolding allowed_push_def
  by (intro allI impI exI [of _ name] conjI) (use assms in \<open>auto simp only: outcome.inject\<close>)

lemma push_access:
  assumes "fst (serve_git cfg ''git-receive-pack'' argv user privileged w) = Inr r"
  shows "allowed_push cfg user privileged (the_db w) r"
proof -
  have check: "wp (checkarg argv [''path'']) (\<lambda>_ w'. w' = w) (\<lambda>_ _. True) w"
    by (rule wp_mono [OF keeps_wp [OF keeps_checkarg(3), of "\<lambda>w'. w' = w"]]) simp_all
  have "wp (serve_git cfg ''git-receive-pack'' argv user privileged)
      (\<lambda>r _. allowed_push cfg user privileged (the_db w) r) (\<lambda>_ _. True) w"
    unfolding serve_git_def wp_seqp Let_def
  proof (rule wp_mono [OF check], goal_cases)
    case (1 _ w1)
    then show ?case
      unfolding pkgbase_is_orphan_def
      by (simp only: wp_simps if_cancel simp_thms)
        (intro if_bool_eq_conj [THEN iffD2] impI conjI allowed_pushI TrueI; blast)
  qed simp
  with assms show ?thesis
    by (auto simp: wp_def split: prod.splits sum.splits)
qed

text \<open>
  C2. A push (\<open>git receive-pack\<close>) reaches Git only for a user with a verified address, from an
  address that is not banned, outside maintenance, into the namespace of one well-formed name;
  and when a package base of that name exists, only for a privileged user, its maintainer or
  one of its co-maintainers. Nobody else pushes to an orphan.
\<close>

theorem push_needs_write_access:
  assumes "wf_db (the_db w)" and "fst (joined action argv) = ''git-receive-pack''"
    and "fst (serve cfg action argv user privileged addr w) = Inr (Exec prog args env)"
  shows "\<exists>name. env = [(''AUR_USER'', user), (''AUR_PKGBASE'', name), (''GIT_NAMESPACE'', name)]
    \<and> prog = git_shell_cmd cfg \<and> repo_regex cfg name \<and> \<not> under_maintenance cfg addr
    \<and> (\<forall>ip \<in> set (Bans (the_db w)). addr \<noteq> Some ip) \<and> email_verified (the_db w) user
    \<and> ((\<exists>i. base_named (the_db w) name i) \<longrightarrow> privileged \<or> write_access (the_db w) name user)"
proof -
  have r: "\<not> is_readonly action argv"
    using assms(2) by (auto simp: joined_def is_readonly_def split: if_splits)
  from assms(3) have gate: "\<not> under_maintenance cfg addr" "\<forall>ip \<in> set (Bans (the_db w)). addr \<noteq> Some ip"
    "email_verified (the_db w) user"
    and run: "fst (serve_dispatch cfg ''git-receive-pack'' (snd (joined action argv)) user privileged
      (logged_in user addr w)) = Inr (Exec prog args env)"
    unfolding serve_eq [OF assms(1)] assms(2) using r by (auto split: if_splits)
  have "fst (serve_git cfg ''git-receive-pack'' (snd (joined action argv)) user privileged
      (logged_in user addr w)) = Inr (Exec prog args env)"
    using run by (simp add: serve_dispatch_def)
  from push_access [OF this] gate show ?thesis
    unfolding allowed_push_def logged_in_lookups write_access_logged_in by metis
qed

theorem push_needs_write_access_witness:
  "\<exists>name. [(''AUR_USER'', ''carol''), (''AUR_PKGBASE'', ''foo''), (''GIT_NAMESPACE'', ''foo'')]
      = [(''AUR_USER'', ''carol''), (''AUR_PKGBASE'', name), (''GIT_NAMESPACE'', name)]
    \<and> git_shell_cmd default_config = git_shell_cmd default_config \<and> repo_regex default_config name
    \<and> \<not> under_maintenance default_config (Some ''127.0.0.1'')
    \<and> (\<forall>ip \<in> set (Bans demo_db). Some ''127.0.0.1'' \<noteq> Some ip) \<and> email_verified demo_db ''carol''
    \<and> ((\<exists>i. base_named demo_db name i) \<longrightarrow> False \<or> write_access demo_db name ''carol'')"
proof -
  have j: "fst (joined ''git'' [''git'', ''receive-pack'', ''/foo.git'']) = ''git-receive-pack''"
    by code_simp
  have "fst (serve default_config ''git'' [''git'', ''receive-pack'', ''/foo.git''] ''carol'' False
      (Some ''127.0.0.1'') demo_world) = Inr (Exec (git_shell_cmd default_config)
        [git_shell_cmd default_config, ''-c'', ''git-receive-pack '' @ [CHR 0x27]
          @ repo_path default_config @ [CHR 0x27]]
        [(''AUR_USER'', ''carol''), (''AUR_PKGBASE'', ''foo''), (''GIT_NAMESPACE'', ''foo'')])"
    by code_simp
  from push_needs_write_access [of demo_world, unfolded demo_the_db, OF demo_wf j this]
  show ?thesis .
qed

section \<open>The command line\<close>

text \<open>
  The command line that a shell would build from words is split into exactly these words:
  quoting each word and joining with spaces is undone by \<open>main\<close>, whatever the words contain.
\<close>

theorem serve_main_words:
  "serve_main cfg user privileged (Some (join '' '' (map shlex_quote (action # args)))) (Some client) =
    catch (serve cfg action (action # args) user privileged
        (if client = [] then None else Some (hd (split_on (CHR '' '') client))))
      (serve_errors cfg action)"
proof -
  have "shlex_quote action \<noteq> []"
    by (simp add: shlex_quote_def)
  then have "join '' '' (map shlex_quote (action # args)) \<noteq> []"
    by (cases args) simp_all
  with shlex_quoting.split_join_quote [of "action # args"] show ?thesis
    by (simp add: serve_main_def)
qed

end
