(* ===== verification/Pkgbase_Outcomes.thy ===== *)
theory Pkgbase_Outcomes
  imports Pkgbase_Forms Git_Serve
begin

text \<open>
  What the forms of a package base achieve: the co-maintainers and the keywords that the form names,
  a vote cast and withdrawn.
\<close>

section \<open>Co-maintainers\<close>

lemma set_comaint_names:
  "set (comaint_names i d) = {u_Username u | u. u \<in> set (Users d) \<and> u_ID u \<in> set (ranking i d)}"
  by (auto simp: comaint_names_def set_ranking split: if_splits)

text \<open>The users that the form names.\<close>

definition named_users :: "string list \<Rightarrow> db \<Rightarrow> nat set" where
  "named_users names d = {u_ID u | u. u \<in> set (Users d) \<and> u_Username u \<in> set names}"

lemma named_usersI: "u \<in> set (Users d) \<Longrightarrow> u_Username u \<in> set names \<Longrightarrow> u_ID u \<in> named_users names d"
  by (auto simp: named_users_def)

lemma find_users_set:
  assumes "wf_db d" and "find_users d names = Inr us"
  shows "set us = named_users names d \<and> (distinct names \<longrightarrow> distinct us)"
  using assms(2)
proof (induction names arbitrary: us)
  case (Cons n ns)
  then obtain u us' where u: "List.find (\<lambda>u. u_Username u = n) (Users d) = Some u" "find_users d ns = Inr us'"
    "us = u_ID u # us'"
    by (auto split: option.splits sum.splits)
  with Cons.IH have us': "set us' = named_users ns d" "distinct ns \<Longrightarrow> distinct us'"
    by auto
  have in_d: "u \<in> set (Users d)" "u_Username u = n"
    using find_SomeD [OF u(1)] by auto
  have "named_users (n # ns) d = insert (u_ID u) (named_users ns d)"
    using in_d by (auto simp: named_users_def dest: user_name_unique [OF assms(1) _ in_d(1)])
  moreover have "u_ID u \<notin> named_users ns d" if "n \<notin> set ns"
    using in_d that by (auto simp: named_users_def dest: user_id_unique [OF assms(1) _ in_d(1)])
  ultimately show ?case
    unfolding u(3) using us' by (simp only: list.set distinct.simps) blast
qed (simp add: named_users_def)

lemma find_users_total:
  "(\<And>n. n \<in> set names \<Longrightarrow> \<exists>u \<in> set (Users d). u_Username u = n) \<Longrightarrow> \<exists>us. find_users d names = Inr us"
proof (induction names)
  case (Cons n ns)
  then obtain us where "find_users d ns = Inr us"
    by auto
  moreover obtain u where "List.find (\<lambda>u. u_Username u = n) (Users d) = Some u"
    using Cons.prems [of n] find_Some_iff_ex [of "\<lambda>u. u_Username u = n" "Users d"] by auto
  ultimately show ?case by simp
qed simp

lemma find_users_partial:
  "n \<in> set names \<Longrightarrow> (\<And>u. u \<in> set (Users d) \<Longrightarrow> u_Username u \<noteq> n) \<Longrightarrow> \<exists>e. find_users d names = Inl e"
proof (induction names)
  case (Cons m ns)
  show ?case
  proof (cases "n = m")
    case True
    with Cons.prems(2) have "List.find (\<lambda>u. u_Username u = m) (Users d) = None"
      by (simp add: find_None_iff)
    then show ?thesis by simp
  next
    case False
    with Cons obtain e where "find_users d ns = Inl e" by auto
    then show ?thesis by (auto split: option.splits)
  qed
qed simp

lemma find_users_cong: "Users d' = Users d \<Longrightarrow> find_users d' names = find_users d names"
  by (induction names) (auto split: option.splits)

lemma run_route:
  assumes "rq_user rq = LoggedIn u" and "List.find (\<lambda>b. pb_Name b = name) (PackageBases (the_db w)) = Some b"
  shows "requires_auth cfg rq (\<lambda>u. andthen (get_pkg_or_base name) (f u)) w = f u b w"
  using assms by (simp add: requires_auth_def andthen_def get_pkg_or_base_def query_def gets_def the_or_def ret_def)

text \<open>Who stays and who is new, in terms of the names.\<close>

lemma ranked_users: "wf_db d \<Longrightarrow> x \<in> set (ranking i d) \<Longrightarrow> \<exists>u \<in> set (Users d). u_ID u = x"
proof -
  assume "wf_db d" "x \<in> set (ranking i d)"
  then have "x \<in> user_ids d"
    by (auto simp: set_ranking comaintainers_def wf_db_def refs_ok_def)
  then show ?thesis
    by (auto simp: user_ids_def)
qed

lemma name_ranked:
  assumes "wf_db d" and "u \<in> set (Users d)"
  shows "u_Username u \<in> set (comaint_names i d) \<longleftrightarrow> u_ID u \<in> set (ranking i d)"
  using assms(2) by (auto simp: set_comaint_names dest: user_name_unique [OF assms(1) _ assms(2)])

lemma picked_user:
  assumes "wf_db d" and "u \<in> set (Users d)"
  shows "u_ID u \<in> u_ID ` {v \<in> set (Users d). P v} \<longleftrightarrow> P u"
proof
  assume "u_ID u \<in> u_ID ` {v \<in> set (Users d). P v}"
  then obtain v where v: "v \<in> set (Users d)" "P v" "u_ID v = u_ID u" by auto
  from user_id_unique [OF assms(1) v(1) assms(2) v(3)] v(2) show "P u" by simp
qed (use assms(2) in auto)

lemma named_users_image: "named_users N d = u_ID ` {v \<in> set (Users d). u_Username v \<in> set N}"
  by (auto simp: named_users_def)

lemma staying:
  assumes "wf_db d"
  shows "filter (\<lambda>x. x \<notin> u_ID ` {x \<in> set (Users d). u_Username x \<in> set (filter (\<lambda>n. n \<notin> set N) (comaint_names i d))})
      (ranking i d) = filter (\<lambda>x. x \<in> named_users N d) (ranking i d)"
proof (rule filter_cong [OF refl])
  fix x assume x: "x \<in> set (ranking i d)"
  then obtain u where u: "u \<in> set (Users d)" "u_ID u = x"
    using ranked_users [OF assms] by blast
  have "u_Username u \<in> set (comaint_names i d)"
    using name_ranked [OF assms u(1)] x u(2) by simp
  then show "(x \<notin> u_ID ` {x \<in> set (Users d). u_Username x \<in> set (filter (\<lambda>n. n \<notin> set N) (comaint_names i d))})
      = (x \<in> named_users N d)"
    unfolding u(2) [symmetric] named_users_image picked_user [OF assms u(1)] by simp
qed

lemma arriving:
  assumes "wf_db d" and "set M = set N - set (comaint_names i d)"
  shows "named_users M d = {x \<in> named_users N d. x \<notin> set (ranking i d)}"
proof -
  have "u_Username u \<in> set M \<longleftrightarrow> u_Username u \<in> set N \<and> u_ID u \<notin> set (ranking i d)" if "u \<in> set (Users d)" for u
    using name_ranked [OF assms(1) that] by (simp add: assms(2))
  then have "{v \<in> set (Users d). u_Username v \<in> set M}
      = {v \<in> set (Users d). u_Username v \<in> set N \<and> u_ID v \<notin> set (ranking i d)}"
    by blast
  then show ?thesis
    unfolding named_users_image by auto
qed

text \<open>
  The form of the co-maintainers, sent by who may edit them: those it names stay, in their order,
  and behind them come the others it names, but the maintainer, each once. If it names somebody who
  does not exist, those it does not name are gone all the same and nobody is added.
\<close>

theorem comaintainers_form:
  assumes "rq_user rq = LoggedIn u" and "List.find (\<lambda>b. pb_Name b = name) (PackageBases (the_db w)) = Some b"
    and "has_credential (LoggedIn u) PKGBASE_EDIT_COMAINTAINERS [pb_MaintainerUID b]"
    and "wf_db (the_db w)" and "comaints_distinct (pb_ID b) (the_db w)" and "set_iteration (set_iter_str cfg)"
  shows "let d = the_db w; i = pb_ID b; N = form_users users;
      (r, w') = pkgbase_comaintainers_post cfg rq name users w; d' = the_db w';
      stay = filter (\<lambda>x. x \<in> named_users N d) (ranking i d) in
    if \<forall>n \<in> set N. \<exists>x \<in> set (Users d). u_Username x = n
    then r = Inr (Redirect (pkgbase_url (pb_Name b)))
      \<and> (\<exists>new. ranking i d' = stay @ new \<and> distinct (ranking i d')
          \<and> set new = {x \<in> named_users N d. x \<notin> set (ranking i d) \<and> maintainer_of i d \<noteq> Some x})
    else ranking i d' = stay \<and> (\<exists>e. r = Inr (Page 200 ''pkgbase/comaintainers.html'' [e]))"
proof -
  let ?d = "the_db w" and ?i = "pb_ID b" and ?N = "form_users users"
  let ?rm = "filter (\<lambda>n. n \<notin> set ?N) (comaint_names ?i ?d)"
  let ?add = "set_iter_str cfg (filter (\<lambda>n. n \<notin> set (comaint_names ?i ?d)) ?N)"
  let ?stay = "filter (\<lambda>x. x \<in> named_users ?N ?d) (ranking ?i ?d)"
  let ?d1 = "removed_comaints ?i ?rm ?d"
  have add: "set ?add = set ?N - set (comaint_names ?i ?d)" "distinct ?add"
    using set_iteration.set_iter [OF assms(6)] set_iteration.distinct_iter [OF assms(6)] by auto
  note facts = removed_comaints_facts [OF assms(5), where names = ?rm]
  have stay: "ranking ?i ?d1 = ?stay"
    unfolding facts(2) by (rule staying [OF assms(4)])
  have run: "pkgbase_comaintainers_post cfg rq name users w = seqp (remove_comaintainers ?i ?rm)
      (andthen (add_comaintainers ?i ?add) (\<lambda>err. case err of
          Some e \<Rightarrow> ret (Page 200 ''pkgbase/comaintainers.html'' [e])
        | None \<Rightarrow> ret (Redirect (pkgbase_url (pb_Name b))))) w"
    unfolding pkgbase_comaintainers_post_def run_route [OF assms(1,2)]
    using assms(3) by (simp add: andthen_def query_def gets_def del: has_credential.simps)
  have removed: "wp (remove_comaintainers ?i ?rm) (\<lambda>_ w'. the_db w' = ?d1) (\<lambda>_ _. False) w"
    by (rule wp_remove_comaintainers [OF assms(5)])
  show ?thesis
  proof (cases "\<forall>n \<in> set ?N. \<exists>x \<in> set (Users ?d). u_Username x = n")
    case True
    then obtain us where us: "find_users ?d1 ?add = Inr us"
      using find_users_total [of ?add ?d1] add(1) facts(4) by auto
    have find: "find_users ?d1 ?add = find_users ?d ?add"
      by (rule find_users_cong) (rule facts(4))
    note got = find_users_set [OF assms(4) us [unfolded find]]
    have named: "set us = {x \<in> named_users ?N ?d. x \<notin> set (ranking ?i ?d)}"
      using got arriving [OF assms(4) add(1)] by simp
    let ?new = "filter (\<lambda>x. maintainer_of ?i ?d \<noteq> Some x) us"
    have "wp (seqp (remove_comaintainers ?i ?rm) (andthen (add_comaintainers ?i ?add) (\<lambda>err. case err of
          Some e \<Rightarrow> ret (Page 200 ''pkgbase/comaintainers.html'' [e])
        | None \<Rightarrow> ret (Redirect (pkgbase_url (pb_Name b))))))
        (\<lambda>r w'. r = Redirect (pkgbase_url (pb_Name b)) \<and> ranking ?i (the_db w') = ?stay @ ?new
          \<and> comaints_distinct ?i (the_db w')) (\<lambda>_ _. False) w"
      unfolding wp_seqp wp_andthen
    proof (rule wp_mono [OF removed])
      fix w1 :: world assume w1: "the_db w1 = ?d1"
      have "wp (add_comaintainers ?i ?add) (\<lambda>r w'. r = None \<and> ranking ?i (the_db w') = ?stay @ ?new
          \<and> comaints_distinct ?i (the_db w')) (\<lambda>_ _. False) w1"
        using wp_add_comaintainers [of ?i w1 ?add us] us facts got add(2) named unfolding w1 stay by auto
      then show "wp (add_comaintainers ?i ?add) (\<lambda>x. wp (case x of
          Some e \<Rightarrow> ret (Page 200 ''pkgbase/comaintainers.html'' [e])
        | None \<Rightarrow> ret (Redirect (pkgbase_url (pb_Name b))))
        (\<lambda>r w'. r = Redirect (pkgbase_url (pb_Name b)) \<and> ranking ?i (the_db w') = ?stay @ ?new
          \<and> comaints_distinct ?i (the_db w')) (\<lambda>_ _. False)) (\<lambda>_ _. False) w1"
        by (rule wp_mono) (auto simp: wp_ret)
    qed simp
    then show ?thesis
      unfolding run Let_def using True distinct_ranking [OF assms(5)] got add(2) named
      by (auto simp: wp_def split: prod.splits sum.splits)
  next
    case False
    then obtain n where n: "n \<in> set ?N" "\<And>x. x \<in> set (Users ?d) \<Longrightarrow> u_Username x \<noteq> n" by blast
    then have "n \<in> set ?add"
      unfolding add(1) by (auto simp: set_comaint_names)
    with n(2) obtain e where e: "find_users ?d1 ?add = Inl e"
      using find_users_partial [of n ?add ?d1] facts(4) by auto
    have "wp (seqp (remove_comaintainers ?i ?rm) (andthen (add_comaintainers ?i ?add) (\<lambda>err. case err of
          Some e \<Rightarrow> ret (Page 200 ''pkgbase/comaintainers.html'' [e])
        | None \<Rightarrow> ret (Redirect (pkgbase_url (pb_Name b))))))
        (\<lambda>r w'. (\<exists>e. r = Page 200 ''pkgbase/comaintainers.html'' [e]) \<and> ranking ?i (the_db w') = ?stay) (\<lambda>_ _. False) w"
      unfolding wp_seqp wp_andthen add_comaintainers_def wp_query
      by (rule wp_mono [OF removed]) (simp_all add: e wp_ret stay)
    then show ?thesis
      unfolding run Let_def using False
      by (auto simp: wp_def split: prod.splits sum.splits)
  qed
qed


theorem comaintainers_form_witness:
  "\<exists>new. ranking 10 (the_db (snd (pkgbase_comaintainers_post default_config (demo_form demo_bob) ''foo''
      (''carol'' @ nl # ''mallory'') demo_world))) = [3] @ new \<and> set new = {4}"
proof -
  have d: "rq_user (demo_form demo_bob) = LoggedIn demo_bob"
    "List.find (\<lambda>b. pb_Name b = ''foo'') (PackageBases demo_db) = Some demo_base"
    "has_credential (LoggedIn demo_bob) PKGBASE_EDIT_COMAINTAINERS [pb_MaintainerUID demo_base]"
    "comaints_distinct (pb_ID demo_base) demo_db"
    by (code_simp+)
  have it: "set_iteration (set_iter_str default_config)"
    by (rule default_iteration_str.set_iteration_axioms)
  have v: "form_users (''carol'' @ nl # ''mallory'') = [''carol'', ''mallory'']" "pb_ID demo_base = 10"
    "ranking 10 demo_db = [1, 3]" "maintainer_of 10 demo_db = Some 2"
    "u_ID ` {v \<in> set (Users demo_db). u_Username v \<in> set [''carol'', ''mallory'']} = {3, 4}"
    "\<forall>n \<in> set [''carol'', ''mallory'']. \<exists>x \<in> set (Users demo_db). u_Username x = n"
    by (code_simp+)
  have "{x \<in> {3, 4::nat}. x \<notin> set [1, 3] \<and> Some (2::nat) \<noteq> Some x} = {4}"
    by auto
  then show ?thesis
    using comaintainers_form [of "demo_form demo_bob" demo_bob "''foo''" demo_world demo_base default_config
        "''carol'' @ nl # ''mallory''", unfolded demo_the_db, OF d(1-3) demo_wf d(4) it]
    unfolding Let_def split_beta v(1,2) named_users_image v(3-5) if_P [OF v(6)] by auto
qed


section \<open>Votes over both interfaces\<close>

definition vote_counts :: "db \<Rightarrow> packagevotes_row list \<times> (nat \<times> string \<times> nat) list" where
  "vote_counts d = (PackageVotes d, map (\<lambda>b. (pb_ID b, pb_Name b, pb_NumVotes b)) (PackageBases d))"

lemma counted_votes:
  assumes "votes_ok d" and "\<And>j. j \<noteq> i \<Longrightarrow> votes_of j d' = votes_of j d" and "votes_of i d' = g (votes_of i d)"
    and "PackageBases d' = PackageBases d"
  shows "map (\<lambda>b. (pb_ID b, pb_Name b, pb_NumVotes b)) (PackageBases (recounted cfg ts (\<lambda>b. pb_ID b = i) d'))
    = map (\<lambda>b. (pb_ID b, pb_Name b, pb_NumVotes b))
        (update_where (\<lambda>b. pb_ID b = i) (\<lambda>b. b\<lparr>pb_NumVotes := g (pb_NumVotes b)\<rparr>) (PackageBases d))"
  using assms by (auto simp: recounted_def update_where_def votes_ok_def)

lemma votes_of_insert:
  "votes_of j (d\<lparr>PackageVotes := PackageVotes d @ [v]\<rparr>) = votes_of j d + (if pv_PackageBaseID v = j then 1 else 0)"
  by (simp add: votes_of_def table_simps)

lemma votes_of_delete:
  assumes "wf_db d" and "count_where (vote_of u i) (PackageVotes d) \<noteq> 0"
  shows "votes_of j (d\<lparr>PackageVotes := delete_where (vote_of u i) (PackageVotes d)\<rparr>)
    = votes_of j d - (if j = i then 1 else 0)"
proof -
  have dist: "distinct (map (\<lambda>v. (pv_UsersID v, pv_PackageBaseID v)) (PackageVotes d))"
    using assms(1) by (simp add: wf_db_def unique_ok_def)
  have one: "count_where (vote_of u i) (PackageVotes d) = 1"
    using count_key_le_1 [OF dist, of "(u, i)"] assms(2) by (simp add: vote_of_def [abs_def])
  have part: "count_where q rs = count_where (\<lambda>v. q v \<and> \<not> vote_of u i v) rs + count_where (\<lambda>v. q v \<and> vote_of u i v) rs"
    for q rs by (induction rs) (auto simp: table_simps)
  have "count_where (\<lambda>v. pv_PackageBaseID v = j \<and> vote_of u i v) (PackageVotes d) = (if j = i then 1 else 0)"
  proof (cases "j = i")
    case True
    then have "count_where (\<lambda>v. pv_PackageBaseID v = j \<and> vote_of u i v) (PackageVotes d) = count_where (vote_of u i) (PackageVotes d)"
      by (intro count_where_cong) (auto simp: vote_of_def)
    with one True show ?thesis by simp
  qed (auto simp: count_where_0 vote_of_def)
  then show ?thesis
    using part [of "\<lambda>v. pv_PackageBaseID v = j" "PackageVotes d"] by (simp add: votes_of_def table_simps)
qed

text \<open>
  C11. A vote, and the withdrawal of one, leaves the same votes and the same counters whether it comes
  over SSH, which counts up and down, or over the web, which counts anew; where SSH refuses (a second
  vote, a vote to withdraw that is not there) the web does nothing.
\<close>

theorem ssh_and_web_votes_agree:
  assumes "db_ok (the_db w)" and "u \<in> set (Users (the_db w))" and "u_ID u \<noteq> 0" and "rq_user rq = LoggedIn u"
    and "b \<in> set (PackageBases (the_db w))" and "pb_ID b \<noteq> 0" and "has_credential (LoggedIn u) PKGBASE_VOTE []"
  shows "vote_counts (the_db (snd (pkgbase_vote (pb_Name b) (u_Username u) w)))
      = vote_counts (the_db (snd (pkgbase_route cfg rq (pb_Name b) Vote w)))
    \<and> vote_counts (the_db (snd (pkgbase_unvote (pb_Name b) (u_Username u) w)))
      = vote_counts (the_db (snd (pkgbase_route cfg rq (pb_Name b) Unvote w)))"
proof -
  let ?d = "the_db w" and ?i = "pb_ID b" and ?u = "u_ID u"
  have d: "wf_db ?d" "votes_ok ?d"
    using assms(1) by (simp_all add: db_ok_def)
  have named: "base_named ?d (pb_Name b) ?i" "user_named ?d (u_Username u) ?u"
    using assms(2,5) by (auto simp: base_named_def user_named_def)
  have "distinct (map pb_Name (PackageBases ?d))"
    using d(1) by (simp add: wf_db_def unique_ok_def)
  from find_key [OF this assms(5)] have find: "List.find (\<lambda>x. pb_Name x = pb_Name b) (PackageBases ?d) = Some b" .
  have vote_by: "List.find (vote_by ?u ?i) (PackageVotes ?d) = None \<longleftrightarrow> count_where (vote_of ?u ?i) (PackageVotes ?d) = 0"
    by (auto simp: count_where_0 find_None_iff vote_by_def vote_of_def)
  have same: "vote_by ?u ?i = vote_of ?u ?i"
    by (simp add: fun_eq_iff vote_by_def vote_of_def)
  let ?v = "\<lparr>pv_UsersID = ?u, pv_PackageBaseID = ?i, pv_VoteTS = now w\<rparr>"
  let ?in = "?d\<lparr>PackageVotes := PackageVotes ?d @ [?v]\<rparr>"
  let ?out = "?d\<lparr>PackageVotes := delete_where (vote_of ?u ?i) (PackageVotes ?d)\<rparr>"
  have web: "snd (pkgbase_route cfg rq (pb_Name b) Vote w) = snd (cast_vote cfg u ?i w)"
    "snd (pkgbase_route cfg rq (pb_Name b) Unvote w) = snd (withdraw_vote cfg u ?i w)"
    unfolding pkgbase_route.simps pkgbase_vote_post_def pkgbase_unvote_post_def run_route [OF assms(4) find]
    by (simp_all add: seqp_def andthen_def ret_def split: prod.splits sum.splits)
  have cast: "snd (cast_vote cfg u ?i w) = (if count_where (vote_of ?u ?i) (PackageVotes ?d) = 0
      then w\<lparr>the_db := recounted cfg (now w) (\<lambda>x. pb_ID x = ?i) ?in\<rparr> else w)"
  proof -
    have "wp (cast_vote cfg u ?i) (\<lambda>_ w'. w' = (if count_where (vote_of ?u ?i) (PackageVotes ?d) = 0
      then w\<lparr>the_db := recounted cfg (now w) (\<lambda>x. pb_ID x = ?i) ?in\<rparr> else w)) (\<lambda>_ _. False) w"
      using assms(7) vote_by
      by (simp add: cast_vote_def wp_simps wp_run_single)
    then show ?thesis
      by (auto simp: wp_def split: prod.splits sum.splits)
  qed
  have withdraw: "snd (withdraw_vote cfg u ?i w) = (if count_where (vote_of ?u ?i) (PackageVotes ?d) = 0
      then w else w\<lparr>the_db := recounted cfg (now w) (\<lambda>x. pb_ID x = ?i) ?out\<rparr>)"
  proof -
    have "wp (withdraw_vote cfg u ?i) (\<lambda>_ w'. w' = (if count_where (vote_of ?u ?i) (PackageVotes ?d) = 0
      then w else w\<lparr>the_db := recounted cfg (now w) (\<lambda>x. pb_ID x = ?i) ?out\<rparr>)) (\<lambda>_ _. False) w"
      using assms(7) vote_by
      by (auto simp: withdraw_vote_def wp_simps wp_run_single same)
    then show ?thesis
      by (auto simp: wp_def split: prod.splits sum.splits)
  qed
  have ssh: "snd (pkgbase_vote (pb_Name b) (u_Username u) w) = (if count_where (vote_of ?u ?i) (PackageVotes ?d) = 0
      then w\<lparr>the_db := ?in\<lparr>PackageBases := update_where (\<lambda>x. pb_ID x = ?i) (\<lambda>x. x\<lparr>pb_NumVotes := pb_NumVotes x + 1\<rparr>)
        (PackageBases ?d)\<rparr>\<rparr> else w)"
    "snd (pkgbase_unvote (pb_Name b) (u_Username u) w) = (if count_where (vote_of ?u ?i) (PackageVotes ?d) = 0
      then w else w\<lparr>the_db := ?out\<lparr>PackageBases := update_where (\<lambda>x. pb_ID x = ?i) (\<lambda>x. x\<lparr>pb_NumVotes := pb_NumVotes x - 1\<rparr>)
        (PackageBases ?d)\<rparr>\<rparr>)"
    using wp_vote [OF d(1) named(1) assms(6) named(2) assms(3)] wp_unvote [OF d(1) named(1) assms(6) named(2) assms(3)]
    by (intro snd_wp [where P = "\<lambda>w'. w' = x" for x, THEN iffD2], simp)+
  have counted: "map (\<lambda>b. (pb_ID b, pb_Name b, pb_NumVotes b)) (PackageBases (recounted cfg (now w) (\<lambda>x. pb_ID x = ?i) ?in))
    = map (\<lambda>b. (pb_ID b, pb_Name b, pb_NumVotes b)) (update_where (\<lambda>x. pb_ID x = ?i)
        (\<lambda>x. x\<lparr>pb_NumVotes := pb_NumVotes x + 1\<rparr>) (PackageBases ?d))"
    by (rule counted_votes [OF d(2)]) (simp_all add: votes_of_insert)
  have counted': "map (\<lambda>b. (pb_ID b, pb_Name b, pb_NumVotes b)) (PackageBases (recounted cfg (now w) (\<lambda>x. pb_ID x = ?i) ?out))
    = map (\<lambda>b. (pb_ID b, pb_Name b, pb_NumVotes b)) (update_where (\<lambda>x. pb_ID x = ?i)
        (\<lambda>x. x\<lparr>pb_NumVotes := pb_NumVotes x - 1\<rparr>) (PackageBases ?d))"
    if "count_where (vote_of ?u ?i) (PackageVotes ?d) \<noteq> 0"
    by (rule counted_votes [OF d(2)]) (simp_all add: votes_of_delete [OF d(1) that])
  have votes: "PackageVotes (recounted cfg ts p d) = PackageVotes d" for ts p d
    by (simp add: recounted_def)
  show ?thesis
    unfolding web cast withdraw ssh vote_counts_def using counted counted' by (simp add: votes)
qed

theorem ssh_and_web_votes_agree_witness:
  "vote_counts (the_db (snd (pkgbase_vote (pb_Name demo_base) (u_Username demo_bob) demo_world)))
      = vote_counts (the_db (snd (pkgbase_route default_config (demo_form demo_bob) (pb_Name demo_base) Vote demo_world)))
    \<and> vote_counts (the_db (snd (pkgbase_unvote (pb_Name demo_base) (u_Username demo_bob) demo_world)))
      = vote_counts (the_db (snd (pkgbase_route default_config (demo_form demo_bob) (pb_Name demo_base) Unvote demo_world)))"
proof -
  have d: "demo_bob \<in> set (Users demo_db)" "u_ID demo_bob \<noteq> 0" "rq_user (demo_form demo_bob) = LoggedIn demo_bob"
    "demo_base \<in> set (PackageBases demo_db)" "pb_ID demo_base \<noteq> 0" "has_credential (LoggedIn demo_bob) PKGBASE_VOTE []"
    by (code_simp+)
  show ?thesis
    by (rule ssh_and_web_votes_agree [of demo_world, unfolded demo_the_db, OF demo_db_ok d])
qed

end
