(* ===== verification/Voting.thy ===== *)
theory Voting
  imports Web
begin

text \<open>
  The proposals of the package maintainers: \<open>aurweb/models/voteinfo.py\<close>, \<open>aurweb/models/vote.py\<close> and
  \<open>aurweb/routers/package_maintainer.py\<close>. A proposal keeps the numbers of its votes, the table
  \<open>Votes\<close> only who has voted. Quorums and participations are rationals.
\<close>

section \<open>Proposals\<close>

datatype decision = Yes | No | Abstain

fun decision_of :: "string \<Rightarrow> decision option" where
  "decision_of s = (if s = ''Yes'' then Some Yes else if s = ''No'' then Some No
     else if s = ''Abstain'' then Some Abstain else None)"

definition is_running :: "voteinfo_row \<Rightarrow> int \<Rightarrow> bool" where
  "is_running v ts \<longleftrightarrow> vi_End v > ts"

definition total_votes :: "voteinfo_row \<Rightarrow> nat" where
  "total_votes v = vi_Yes v + vi_No v + vi_Abstain v"

fun count_decision :: "decision \<Rightarrow> voteinfo_row \<Rightarrow> voteinfo_row" where
  "count_decision Yes v = v\<lparr>vi_Yes := vi_Yes v + 1\<rparr>"
| "count_decision No v = v\<lparr>vi_No := vi_No v + 1\<rparr>"
| "count_decision Abstain v = v\<lparr>vi_Abstain := vi_Abstain v + 1\<rparr>"

definition ITEMS_PER_PAGE :: nat where
  "ITEMS_PER_PAGE = 10"

definition ADDVOTE_SPECIFICS :: "(string \<times> (int \<times> rat)) list" where
  "ADDVOTE_SPECIFICS = [(''add_pm'', (7 * 24 * 60 * 60, 66 / 100)), (''remove_pm'', (7 * 24 * 60 * 60, 75 / 100)),
     (''remove_inactive_pm'', (5 * 24 * 60 * 60, 66 / 100)), (''bylaws'', (7 * 24 * 60 * 60, 75 / 100))]"

text \<open>\<open>html.escape\<close>.\<close>

definition html_escape :: "string \<Rightarrow> string" where
  "html_escape s = concat (map (\<lambda>c. if c = CHR ''&'' then ''&amp;'' else if c = CHR ''<'' then ''&lt;''
     else if c = CHR ''>'' then ''&gt;'' else if c = CHR 0x22 then ''&quot;''
     else if c = CHR 0x27 then ''&#x27;'' else [c]) s)"

section \<open>The listing\<close>

definition package_maintainers :: "db \<Rightarrow> users_row list" where
  "package_maintainers d = filter (\<lambda>u. u_AccountTypeID u \<in> {PACKAGE_MAINTAINER_ID, PACKAGE_MAINTAINER_AND_DEV_ID}) (Users d)"

definition package_maintainer_counts :: "db \<Rightarrow> nat \<times> nat" where
  "package_maintainer_counts d = (length (package_maintainers d),
     count_where (\<lambda>u. u_InactivityTS u = 0) (package_maintainers d))"

text \<open>A page of ten proposals, the latest first unless \<open>by\<close> is \<open>asc\<close>, which turns the page round.\<close>

definition listing_order :: "string \<Rightarrow> string" where
  "listing_order by = (if by \<in> {''asc'', ''desc''} then by else ''desc'')"

definition votes_page :: "(voteinfo_row \<Rightarrow> bool) \<Rightarrow> string \<Rightarrow> nat \<Rightarrow> db \<Rightarrow> voteinfo_row list" where
  "votes_page p by off d =
     (let page = take ITEMS_PER_PAGE (drop off (sort_key (\<lambda>v. - vi_Submitted v) (filter p (VoteInfo d))))
      in if listing_order by = ''asc'' then rev page else page)"

text \<open>The last proposal each package maintainer has voted on, among those that have ended.\<close>

definition last_votes_by_pm :: "int \<Rightarrow> db \<Rightarrow> (nat \<times> nat \<times> string) list" where
  "last_votes_by_pm ts d =
     (let ended = map vi_ID (filter (\<lambda>v. vi_End v < ts) (VoteInfo d));
          votes = (\<lambda>u. filter (\<lambda>i. i \<in> set ended) (map vt_VoteID (filter (\<lambda>v. vt_UserID v = u_ID u) (Votes d))));
          rows = map (\<lambda>u. (u_ID u, fold max (votes u) 0, u_Username u))
            (filter (\<lambda>u. u_AccountTypeID u \<in> {2, 4} \<and> votes u \<noteq> []) (Users d))
      in sort_key (\<lambda>(uid, i, name). - int i) (sort_key (\<lambda>(uid, i, name). map (of_char :: char \<Rightarrow> nat) name) rows))"

record pm_listing =
  current_votes :: "voteinfo_row list"
  current_votes_count :: nat
  past_votes :: "voteinfo_row list"
  past_votes_count :: nat
  last_votes :: "(nat \<times> nat \<times> string) list"
  pm_counts :: "nat \<times> nat"

definition package_maintainer_context :: "nat \<Rightarrow> string \<Rightarrow> nat \<Rightarrow> string \<Rightarrow> int \<Rightarrow> db \<Rightarrow> pm_listing" where
  "package_maintainer_context coff cby poff pby ts d =
     \<lparr>current_votes = votes_page (\<lambda>v. vi_End v > ts) cby coff d,
      current_votes_count = count_where (\<lambda>v. vi_End v > ts) (VoteInfo d),
      past_votes = votes_page (\<lambda>v. vi_End v \<le> ts) pby poff d,
      past_votes_count = count_where (\<lambda>v. vi_End v \<le> ts) (VoteInfo d),
      last_votes = last_votes_by_pm ts d,
      pm_counts = package_maintainer_counts d\<rparr>"

definition package_maintainer_get :: "config \<Rightarrow> request \<Rightarrow> response aur" where
  "package_maintainer_get cfg rq = requires_auth cfg rq (\<lambda>u.
     if \<not> has_credential (LoggedIn u) PM_LIST_VOTES [] then ret (Redirect ''/'')
     else ret (Page 200 ''package-maintainer/index.html'' []))"

section \<open>One proposal\<close>

definition participation :: "voteinfo_row \<Rightarrow> rat" where
  "participation v = (if vi_ActiveUsers v = 0 then 0 else of_nat (total_votes v) / of_nat (vi_ActiveUsers v))"

definition accepted :: "voteinfo_row \<Rightarrow> bool" where
  "accepted v \<longleftrightarrow> of_nat (vi_Yes v) > (of_nat (vi_ActiveUsers v) / 2 :: rat)
     \<or> participation v > vi_Quorum v \<and> vi_Yes v > vi_No v"

definition has_voted :: "nat \<Rightarrow> nat \<Rightarrow> db \<Rightarrow> bool" where
  "has_voted uid i d = list_ex (\<lambda>v. vt_UserID v = uid \<and> vt_VoteID v = i) (Votes d)"

text \<open>The page of a proposal, with the error that is shown: a closed proposal overrides the others.\<close>

definition render_proposal :: "voteinfo_row \<Rightarrow> string list \<Rightarrow> nat \<Rightarrow> response aur" where
  "render_proposal v errors status_code = andthen utcnow (\<lambda>ts.
     ret (Page status_code ''package-maintainer/show.html''
       (if \<not> is_running v ts then [''Voting is closed for this proposal.''] else errors)))"

definition get_proposal :: "nat \<Rightarrow> voteinfo_row aur" where
  "get_proposal i = andthen (query (\<lambda>d. List.find (\<lambda>v. vi_ID v = i) (VoteInfo d))) (the_or (HTTPException 404 []))"

text \<open>
  The error of the page that is only viewed: the second test is not an \<open>elif\<close> of the first, so a
  later reason replaces an earlier one.
\<close>

definition viewing_error :: "users_row \<Rightarrow> voteinfo_row \<Rightarrow> bool \<Rightarrow> string list" where
  "viewing_error u v voted =
     (let error = (if \<not> has_credential (LoggedIn u) PM_VOTE [] then [''Only Package Maintainers are allowed to vote.''] else [])
      in if vi_User v = u_Username u then [''You cannot vote in an proposal about you.'']
         else if voted then [''You've already voted for this proposal.''] else error)"

definition package_maintainer_proposal :: "config \<Rightarrow> request \<Rightarrow> nat \<Rightarrow> response aur" where
  "package_maintainer_proposal cfg rq proposal = requires_auth cfg rq (\<lambda>u.
     if \<not> has_credential (LoggedIn u) PM_LIST_VOTES [] then ret (Redirect ''/package-maintainer'')
     else andthen (get_proposal proposal) (\<lambda>v.
       andthen (query (has_voted (u_ID u) (vi_ID v))) (\<lambda>voted.
       render_proposal v (viewing_error u v voted) 200)))"

text \<open>Voting: who may not, and the transaction that counts the decision and notes the voter.\<close>

definition voting_refused :: "users_row \<Rightarrow> voteinfo_row \<Rightarrow> bool \<Rightarrow> (string \<times> nat) option" where
  "voting_refused u v voted =
     (if \<not> has_credential (LoggedIn u) PM_VOTE [] then Some (''Only Package Maintainers are allowed to vote.'', 401)
      else if vi_User v = u_Username u then Some (''You cannot vote in an proposal about you.'', 400)
      else if voted then Some (''You've already voted for this proposal.'', 400)
      else None)"

definition count_vote :: "nat \<Rightarrow> nat \<Rightarrow> decision \<Rightarrow> unit aur" where
  "count_vote uid i c = transaction (seqp
     (execute (\<lambda>d. d\<lparr>VoteInfo := update_where (\<lambda>v. vi_ID v = i) (count_decision c) (VoteInfo d)\<rparr>))
     (execute (\<lambda>d. d\<lparr>Votes := Votes d @ [\<lparr>vt_VoteID = i, vt_UserID = uid\<rparr>]\<rparr>)))"

definition package_maintainer_proposal_post :: "config \<Rightarrow> request \<Rightarrow> nat \<Rightarrow> string \<Rightarrow> response aur" where
  "package_maintainer_proposal_post cfg rq proposal decision = requires_auth cfg rq (\<lambda>u.
     if \<not> has_credential (LoggedIn u) PM_LIST_VOTES [] then ret (Redirect ''/package-maintainer'')
     else andthen (get_proposal proposal) (\<lambda>v.
       andthen (query (has_voted (u_ID u) (vi_ID v))) (\<lambda>voted.
       case voting_refused u v voted of
         Some (error, status_code) \<Rightarrow> render_proposal v [error] status_code
       | None \<Rightarrow> (case decision_of decision of
           None \<Rightarrow> ret (Plain 400 ''Invalid 'decision' value.'')
         | Some c \<Rightarrow> seqp (count_vote (u_ID u) (vi_ID v) c)
             (render_proposal v [''You've already voted for this proposal.''] 200)))))"

section \<open>Adding a proposal\<close>

definition package_maintainer_addvote :: "config \<Rightarrow> request \<Rightarrow> string \<Rightarrow> response aur" where
  "package_maintainer_addvote cfg rq type = requires_auth cfg rq (\<lambda>u.
     if \<not> has_credential (LoggedIn u) PM_ADD_VOTE [] then ret (Redirect ''/package-maintainer'')
     else ret (Page 200 ''addvote.html''
       (if map_of ADDVOTE_SPECIFICS type = None then [''Invalid type.''] else [])))"

text \<open>
  The number of active users of a new proposal. \<open>InactivityTS\<close> is never NULL, so the filter
  \<open>InactivityTS.isnot(None)\<close> lets everyone pass.
\<close>

definition active_pms :: "db \<Rightarrow> nat" where
  "active_pms d = count_where (\<lambda>u. \<not> u_Suspended u
     \<and> u_AccountTypeID u \<in> {PACKAGE_MAINTAINER_ID, PACKAGE_MAINTAINER_AND_DEV_ID}) (Users d)"

definition new_proposal :: "nat \<Rightarrow> string \<Rightarrow> string \<Rightarrow> int \<Rightarrow> int \<Rightarrow> rat \<Rightarrow> nat \<Rightarrow> nat \<Rightarrow> voteinfo_row" where
  "new_proposal i user agenda timestamp duration quorum active submitter =
     \<lparr>vi_ID = i, vi_Agenda = html_escape agenda, vi_User = user, vi_Submitted = timestamp,
       vi_End = timestamp + duration, vi_Quorum = quorum, vi_SubmitterID = submitter,
       vi_Yes = 0, vi_No = 0, vi_Abstain = 0, vi_ActiveUsers = active\<rparr>"

definition add_proposal :: "nat \<Rightarrow> string \<Rightarrow> string \<Rightarrow> int \<Rightarrow> int \<Rightarrow> rat \<Rightarrow> nat aur" where
  "add_proposal submitter user agenda timestamp duration quorum = transaction (
     andthen (query active_pms) (\<lambda>active.
     andthen (query (\<lambda>d. next_id (map vi_ID (VoteInfo d)))) (\<lambda>i.
     seqp (execute (\<lambda>d. d\<lparr>VoteInfo := VoteInfo d @ [new_proposal i user agenda timestamp duration quorum active submitter]\<rparr>))
     (ret i))))"

text \<open>Why a proposal about a user is refused, before its other fields are looked at.\<close>

definition addvote_subject :: "string \<Rightarrow> int \<Rightarrow> db \<Rightarrow> (string \<times> nat) option" where
  "addvote_subject user ts d =
     (if \<not> list_ex (\<lambda>x. u_Username x = user) (Users d) then Some (''Username does not exist.'', 404)
      else if list_ex (\<lambda>v. vi_User v = user \<and> vi_End v > ts) (VoteInfo d)
      then Some (html_escape user @ '' already has proposal running for them.'', 400)
      else None)"

definition package_maintainer_addvote_post :: "config \<Rightarrow> request \<Rightarrow> string \<Rightarrow> string \<Rightarrow> string \<Rightarrow> response aur" where
  "package_maintainer_addvote_post cfg rq user type agenda = requires_auth cfg rq (\<lambda>u.
     if \<not> has_credential (LoggedIn u) PM_ADD_VOTE [] then ret (Redirect ''/package-maintainer'')
     else andthen utcnow (\<lambda>ts.
     andthen (query (\<lambda>d. if type \<noteq> ''bylaws'' then addvote_subject user ts d else None)) (\<lambda>refused.
     case refused of
       Some (error, status_code) \<Rightarrow> ret (Page status_code ''addvote.html'' [error])
     | None \<Rightarrow> (case map_of ADDVOTE_SPECIFICS type of
         None \<Rightarrow> ret (Page 400 ''addvote.html'' [''Invalid type.''])
       | Some (duration, quorum) \<Rightarrow>
           if agenda = [] then ret (Page 400 ''addvote.html'' [''Proposal cannot be empty.''])
           else andthen (add_proposal (u_ID u) user agenda ts duration quorum) (\<lambda>i.
             ret (Redirect (''/package-maintainer/'' @ str_nat i)))))))"


section \<open>The constraints\<close>

lemma ok_VoteInfo_update:
  assumes "db_ok_on U B d" and "\<And>v. vi_ID (f v) = vi_ID v \<and> vi_SubmitterID (f v) = vi_SubmitterID v"
  shows "db_ok_on U B (d\<lparr>VoteInfo := update_where p f (VoteInfo d)\<rparr>)"
proof (rule db_ok_onI [OF assms(1)])
  assume "wf_db d"
  then show "wf_db (d\<lparr>VoteInfo := update_where p f (VoteInfo d)\<rparr>)"
    using assms(2) by (simp add: wf_db_def unique_ok_def refs_ok_def user_ids_def base_ids_def
        map_update_where_same update_where_keys ball_update_where)
qed simp_all

lemma ok_VoteInfo_insert:
  assumes "db_ok_on U B d" and "vi_ID v = next_id (map vi_ID (VoteInfo d))" and "vi_SubmitterID v \<in> U"
  shows "db_ok_on U B (d\<lparr>VoteInfo := VoteInfo d @ [v]\<rparr>)"
proof (rule db_ok_onI [OF assms(1)])
  assume "wf_db d" "user_ids d = U"
  moreover have "vi_ID v \<notin> vi_ID ` set (VoteInfo d)"
    unfolding assms(2) using next_id_fresh [of "map vi_ID (VoteInfo d)"] by simp
  ultimately show "wf_db (d\<lparr>VoteInfo := VoteInfo d @ [v]\<rparr>)"
    using assms(3) by (auto simp: wf_db_def unique_ok_def refs_ok_def user_ids_def base_ids_def)
qed simp_all

lemma ok_Votes_insert:
  assumes "db_ok_on U B d" and "vt_UserID v \<in> U" and "vt_VoteID v \<in> vi_ID ` set (VoteInfo d)"
  shows "db_ok_on U B (d\<lparr>Votes := Votes d @ [v]\<rparr>)"
  by (rule db_ok_onI [OF assms(1)])
    (use assms(2,3) in \<open>simp_all add: wf_db_def unique_ok_def refs_ok_def user_ids_def base_ids_def\<close>)

lemma count_decision_same [simp]: "vi_ID (count_decision c v) = vi_ID v" "vi_SubmitterID (count_decision c v) = vi_SubmitterID v"
  "vi_User (count_decision c v) = vi_User v" "vi_ActiveUsers (count_decision c v) = vi_ActiveUsers v"
  "vi_Quorum (count_decision c v) = vi_Quorum v" "vi_End (count_decision c v) = vi_End v"
  by (cases c; simp)+

lemma wp_count_vote: "wp (count_vote uid i c) Q E w = Q () (w\<lparr>the_db := (the_db w)\<lparr>
    VoteInfo := update_where (\<lambda>v. vi_ID v = i) (count_decision c) (VoteInfo (the_db w)),
    Votes := Votes (the_db w) @ [\<lparr>vt_VoteID = i, vt_UserID = uid\<rparr>]\<rparr>\<rparr>)"
  by (simp add: count_vote_def wp_simps)

lemma ok_render_proposal [keeps_intros]: "keeps P (render_proposal v errors status)"
  unfolding render_proposal_def by (intro keeps_intros)

text \<open>The proposal of a vote is found before it is counted.\<close>

lemma ok_package_maintainer_proposal_post:
  assumes "known U rq"
  shows "keeps_ok U B (package_maintainer_proposal_post cfg rq i decision)"
  unfolding package_maintainer_proposal_post_def
proof (intro keeps_requires_auth keeps_if keeps_ret, rule keepsI)
  fix u w
  assume u: "rq_user rq = LoggedIn u" and w: "db_inv (db_ok_on U B) w"
  let ?I = "db_inv (db_ok_on U B)"
  have "?I (w\<lparr>the_db := (the_db w)\<lparr>VoteInfo := update_where (\<lambda>v. vi_ID v = i) (count_decision c) (VoteInfo (the_db w)),
      Votes := Votes (the_db w) @ [\<lparr>vt_VoteID = i, vt_UserID = u_ID u\<rparr>]\<rparr>\<rparr>)"
    if v: "v \<in> set (VoteInfo (the_db w))" "vi_ID v = i" for v c
  proof -
    let ?d = "(the_db w)\<lparr>VoteInfo := update_where (\<lambda>v. vi_ID v = i) (count_decision c) (VoteInfo (the_db w))\<rparr>"
    have "db_ok_on U B ?d"
      by (rule ok_VoteInfo_update) (use w in \<open>simp_all add: db_inv_def\<close>)
    then have "db_ok_on U B (?d\<lparr>Votes := Votes ?d @ [\<lparr>vt_VoteID = i, vt_UserID = u_ID u\<rparr>]\<rparr>)"
      by (rule ok_Votes_insert) (use u assms v in \<open>auto simp: known_def update_where_keys\<close>)
    then show ?thesis
      by (simp add: db_inv_def)
  qed
  with w show "wp (andthen (get_proposal i) (\<lambda>v. andthen (query (has_voted (u_ID u) (vi_ID v))) (\<lambda>voted.
       case voting_refused u v voted of
         Some (error, status_code) \<Rightarrow> render_proposal v [error] status_code
       | None \<Rightarrow> (case decision_of decision of
           None \<Rightarrow> ret (Plain 400 ''Invalid 'decision' value.'')
         | Some c \<Rightarrow> seqp (count_vote (u_ID u) (vi_ID v) c)
             (render_proposal v [''You've already voted for this proposal.''] 200)))))
      (\<lambda>_. ?I) (\<lambda>_. ?I) w"
    by (auto simp: get_proposal_def render_proposal_def wp_andthen wp_query wp_the_or wp_utcnow wp_ret wp_seqp
        wp_count_vote simp del: decision_of.simps split: option.splits dest!: find_SomeD)
qed

lemma ok_add_proposal: "uid \<in> U \<Longrightarrow> keeps_ok U B (add_proposal uid user agenda ts duration quorum)"
  unfolding add_proposal_def
  by (rule db_inv_transaction, rule keepsI)
    (simp add: wp_simps db_inv_def, rule ok_VoteInfo_insert, simp_all add: new_proposal_def)

lemma ok_package_maintainer_addvote_post:
  assumes "known U rq"
  shows "keeps_ok U B (package_maintainer_addvote_post cfg rq user type agenda)"
  unfolding package_maintainer_addvote_post_def
  by (auto intro!: keeps_requires_auth keeps_andthen keeps_utcnow db_inv_query ok_add_proposal keeps_ret
      split: option.splits) (use assms in \<open>auto simp: known_def\<close>)

lemma ok_voting_pages:
  "keeps P (package_maintainer_get cfg rq)" "keeps P (package_maintainer_proposal cfg rq i)"
  "keeps P (package_maintainer_addvote cfg rq type)"
  unfolding package_maintainer_get_def package_maintainer_proposal_def package_maintainer_addvote_def get_proposal_def
  by (intro keeps_intros)+


section \<open>What voting promises\<close>

text \<open>
  The interface of a ballot box: everyone casts one ballot, the first, and the tally of a choice is the
  number of ballots for it.
\<close>

locale ballot_box =
  fixes cast_in :: "'u \<Rightarrow> 'c \<Rightarrow> 'b \<Rightarrow> 'b"
    and voters_in :: "'b \<Rightarrow> 'u list"
    and tally_in :: "'b \<Rightarrow> 'c \<Rightarrow> nat"
  assumes voters_cast: "voters_in (cast_in u c b) = (if u \<in> set (voters_in b) then voters_in b else voters_in b @ [u])"
    and tally_cast: "tally_in (cast_in u c b) x
      = tally_in b x + (if u \<notin> set (voters_in b) \<and> x = c then 1 else 0)"
begin

lemma distinct_cast: "distinct (voters_in b) \<Longrightarrow> distinct (voters_in (cast_in u c b))"
  by (simp add: voters_cast)

lemma second_ballot: "tally_in (cast_in u c' (cast_in u c b)) x = tally_in (cast_in u c b) x"
  by (simp add: tally_cast voters_cast)

lemma tally_mono: "tally_in b x \<le> tally_in (cast_in u c b) x"
  by (simp add: tally_cast)

end

text \<open>The open ballots of a proposal, who voted what; the database keeps only their tally.\<close>

definition cast_ballot :: "nat \<Rightarrow> decision \<Rightarrow> (nat \<times> decision) list \<Rightarrow> (nat \<times> decision) list" where
  "cast_ballot uid c bb = (if uid \<in> set (map fst bb) then bb else bb @ [(uid, c)])"

definition tally :: "(nat \<times> decision) list \<Rightarrow> decision \<Rightarrow> nat" where
  "tally bb c = count_where (\<lambda>b. snd b = c) bb"

interpretation open_ballots: ballot_box cast_ballot "map fst" tally
  by unfold_locales (simp_all add: cast_ballot_def tally_def table_simps)

definition voters_of :: "nat \<Rightarrow> db \<Rightarrow> nat list" where
  "voters_of i d = map vt_UserID (filter (\<lambda>v. vt_VoteID v = i) (Votes d))"

definition holds_ballots :: "nat \<Rightarrow> (nat \<times> decision) list \<Rightarrow> db \<Rightarrow> bool" where
  "holds_ballots i bb d \<longleftrightarrow> voters_of i d = map fst bb \<and> distinct (map fst bb)
     \<and> (\<forall>v \<in> set (VoteInfo d). vi_ID v = i \<longrightarrow> vi_Yes v = tally bb Yes \<and> vi_No v = tally bb No
          \<and> vi_Abstain v = tally bb Abstain)"

lemma has_voted_iff: "has_voted uid i d \<longleftrightarrow> uid \<in> set (voters_of i d)"
  by (auto simp: has_voted_def voters_of_def list_ex_iff)

lemma counted_ballot:
  assumes "holds_ballots j bb d" and "\<not> has_voted uid i d"
  shows "holds_ballots j (if j = i then cast_ballot uid c bb else bb)
    (d\<lparr>VoteInfo := update_where (\<lambda>v. vi_ID v = i) (count_decision c) (VoteInfo d),
       Votes := Votes d @ [\<lparr>vt_VoteID = i, vt_UserID = uid\<rparr>]\<rparr>)"
proof -
  have new: "uid \<notin> set (map fst bb)" if "j = i"
    using assms that by (simp add: has_voted_iff holds_ballots_def)
  have voters: "voters_of j (d\<lparr>VoteInfo := vs, Votes := Votes d @ [\<lparr>vt_VoteID = i, vt_UserID = uid\<rparr>]\<rparr>)
      = voters_of j d @ (if j = i then [uid] else [])" for vs
    by (simp add: voters_of_def)
  have "vi_Yes (count_decision c v) = vi_Yes v + (if c = Yes then 1 else 0)
      \<and> vi_No (count_decision c v) = vi_No v + (if c = No then 1 else 0)
      \<and> vi_Abstain (count_decision c v) = vi_Abstain v + (if c = Abstain then 1 else 0)" for v
    by (cases c) simp_all
  with assms(1) new open_ballots.voters_cast [of uid c bb] show ?thesis
    unfolding holds_ballots_def voters
    by (auto simp: ball_update_where open_ballots.tally_cast)
qed

text \<open>Whether a form sent to a proposal is a vote that counts, and of whom.\<close>

definition counts :: "request \<Rightarrow> nat \<Rightarrow> string \<Rightarrow> db \<Rightarrow> (nat \<times> decision) option" where
  "counts rq i decision d = (case rq_user rq of
     AnonymousUser \<Rightarrow> None
   | LoggedIn u \<Rightarrow> (case List.find (\<lambda>v. vi_ID v = i) (VoteInfo d) of
       None \<Rightarrow> None
     | Some v \<Rightarrow> (case decision_of decision of
         None \<Rightarrow> None
       | Some c \<Rightarrow> if has_credential (LoggedIn u) PM_VOTE [] \<and> vi_User v \<noteq> u_Username u \<and> \<not> has_voted (u_ID u) i d
                   then Some (u_ID u, c) else None)))"

lemma voters_may_list: "has_credential (LoggedIn u) PM_VOTE [] \<Longrightarrow> has_credential (LoggedIn u) PM_LIST_VOTES []"
  by (auto simp: creds_has_credential_def user_in_def package_maintainer_def package_maintainer_or_dev_def)

lemma proposal_post_leaves:
  "the_db (snd (package_maintainer_proposal_post cfg rq i decision w)) = (case counts rq i decision (the_db w) of
     None \<Rightarrow> the_db w
   | Some (uid, c) \<Rightarrow> (the_db w)\<lparr>VoteInfo := update_where (\<lambda>v. vi_ID v = i) (count_decision c) (VoteInfo (the_db w)),
       Votes := Votes (the_db w) @ [\<lparr>vt_VoteID = i, vt_UserID = uid\<rparr>]\<rparr>)"
proof (cases "rq_user rq")
  case AnonymousUser
  then have "keeps ((=) w) (package_maintainer_proposal_post cfg rq i decision)"
    unfolding package_maintainer_proposal_post_def by (intro keeps_requires_auth) simp
  from keepsD [OF this refl] AnonymousUser show ?thesis
    by (simp add: counts_def)
next
  case (LoggedIn u)
  let ?d' = "case counts rq i decision (the_db w) of
     None \<Rightarrow> the_db w
   | Some (uid, c) \<Rightarrow> (the_db w)\<lparr>VoteInfo := update_where (\<lambda>v. vi_ID v = i) (count_decision c) (VoteInfo (the_db w)),
       Votes := Votes (the_db w) @ [\<lparr>vt_VoteID = i, vt_UserID = uid\<rparr>]\<rparr>"
  have "wp (package_maintainer_proposal_post cfg rq i decision) (\<lambda>_ w'. the_db w' = ?d') (\<lambda>_ w'. the_db w' = ?d') w"
    using voters_may_list [of u]
    by (auto simp: package_maintainer_proposal_post_def requires_auth_def LoggedIn counts_def get_proposal_def
        voting_refused_def render_proposal_def wp_andthen wp_query wp_the_or wp_utcnow wp_ret wp_seqp wp_count_vote wp_if
        simp del: decision_of.simps has_credential.simps split: option.splits dest!: find_SomeD)
  then show ?thesis
    unfolding snd_wp [where P = "\<lambda>w'. the_db w' = ?d'"] .
qed

text \<open>
  C12. Voting on a proposal implements open ballots: whatever ballots explain the numbers and the
  voters of a proposal before a form is sent, the same ballots with the one the form casts, if it casts
  one, explain them afterwards, and other proposals keep theirs. A form casts a ballot when its sender may
  vote, is not the subject and has not voted before, and its decision is one of the three; whether the
  proposal has ended is not asked.
\<close>

theorem voting_refines_ballots:
  assumes "holds_ballots j bb (the_db w)"
  shows "holds_ballots j (case counts rq i decision (the_db w) of
       Some (uid, c) \<Rightarrow> if j = i then cast_ballot uid c bb else bb
     | None \<Rightarrow> bb) (the_db (snd (package_maintainer_proposal_post cfg rq i decision w)))"
proof (cases "counts rq i decision (the_db w)")
  case (Some x)
  obtain uid c where x: "x = (uid, c)" by (cases x)
  have "\<not> has_voted uid i (the_db w)"
    using Some unfolding x counts_def by (auto split: requester.splits option.splits if_splits)
  from counted_ballot [OF assms this, of c] Some show ?thesis
    by (simp add: proposal_post_leaves x)
qed (use assms in \<open>simp add: proposal_post_leaves\<close>)

definition demo_proposal :: world where
  "demo_proposal = demo_world\<lparr>the_db := demo_db\<lparr>VoteInfo :=
     [new_proposal 5 ''bob'' ''Add bob'' 100 500 (66 / 100) 1 1]\<rparr>\<rparr>"

theorem voting_refines_ballots_witness:
  "holds_ballots 5 [(1, Yes)] (the_db (snd (package_maintainer_proposal_post default_config (demo_form demo_alice) 5
     ''Yes'' demo_proposal)))"
proof -
  have d: "holds_ballots 5 [] (the_db demo_proposal)"
    "counts (demo_form demo_alice) 5 ''Yes'' (the_db demo_proposal) = Some (1, Yes)"
    by (code_simp+)
  from voting_refines_ballots [OF d(1), where rq = "demo_form demo_alice" and i = 5 and decision = "''Yes''"
      and cfg = default_config] show ?thesis
    by (simp only: d(2) option.case prod.case cast_ballot_def list.map list.set if_True simp_thms append_Nil empty_iff if_False)
qed

text \<open>
  C13. A proposal with no more votes than active users is only accepted with more votes for it than
  against it, and an accepted proposal stays accepted when one more votes for it.
\<close>

theorem accepted_has_majority:
  assumes "accepted v" and "total_votes v \<le> vi_ActiveUsers v"
  shows "vi_No v < vi_Yes v \<and> participation v \<le> 1 \<and> accepted (count_decision Yes v)"
proof -
  have le: "of_nat (total_votes v) \<le> (of_nat (vi_ActiveUsers v) :: rat)"
    using assms(2) by (simp add: of_nat_le_iff)
  have "vi_No v < vi_Yes v" if "of_nat (vi_Yes v) > (of_nat (vi_ActiveUsers v) / 2 :: rat)"
  proof -
    have "of_nat (vi_ActiveUsers v) < (of_nat (2 * vi_Yes v) :: rat)"
      using that by simp
    then have "vi_ActiveUsers v < 2 * vi_Yes v"
      unfolding of_nat_less_iff .
    with assms(2) show ?thesis
      by (simp add: total_votes_def)
  qed
  moreover have "participation v \<le> 1"
    using le by (simp add: participation_def divide_le_eq)
  moreover have "participation v \<le> participation (count_decision Yes v)"
    by (auto simp: participation_def total_votes_def intro!: divide_right_mono)
  then have "accepted (count_decision Yes v)"
    using assms(1) by (auto simp: accepted_def)
  ultimately show ?thesis
    using assms(1) by (auto simp: accepted_def)
qed

theorem accepted_has_majority_witness:
  "vi_No (new_proposal 5 ''bob'' ''x'' 100 500 0 3 1) < vi_Yes (count_decision Yes (new_proposal 5 ''bob'' ''x'' 100 500 0 3 1))"
proof -
  let ?v = "count_decision Yes (new_proposal 5 ''bob'' ''x'' 100 500 0 3 1)"
  have "accepted ?v" "total_votes ?v \<le> vi_ActiveUsers ?v"
    by (simp_all add: accepted_def participation_def total_votes_def new_proposal_def)
  from accepted_has_majority [OF this] show ?thesis
    by (simp add: new_proposal_def)
qed

end
