(* ===== verification/Validators.thy ===== *)
theory Validators
  imports World
begin

text \<open>
  The predicates on the fields of an account of \<open>aurweb/util.py\<close> (user names, addresses, home pages,
  fingerprints, SSH keys, flags), the normal form of an address and the CAPTCHA of
  \<open>aurweb/captcha.py\<close>. The parser of addresses, the check of an address in brackets and \<open>ssh-keygen\<close> are
  in the configuration.
\<close>

section \<open>Numbers in strings\<close>

text \<open>\<open>int(s, base)\<close> for bases up to 16: white space around, a sign, \<open>0x\<close> and single underscores between digits.\<close>

definition digit_in_base :: "nat \<Rightarrow> char \<Rightarrow> nat option" where
  "digit_in_base base c = (let l = lower_char c;
       n = (if is_digit c then digit_val c
            else if CHR ''a'' \<le> l \<and> l \<le> CHR ''f'' then (of_char l :: nat) - 87 else base)
     in if n < base then Some n else None)"

definition digits_value :: "nat \<Rightarrow> string \<Rightarrow> nat option" where
  "digits_value base s = (let parts = split_on (CHR ''_'') s in
     if list_all (\<lambda>p. p \<noteq> []) parts \<and> list_all (\<lambda>c. digit_in_base base c \<noteq> None) (concat parts)
     then Some (fold (\<lambda>c n. base * n + the (digit_in_base base c)) (concat parts) 0) else None)"

definition drop_hex_prefix :: "string \<Rightarrow> string" where
  "drop_hex_prefix s = (case s of
     z # x # r \<Rightarrow> if z = CHR ''0'' \<and> lower_char x = CHR ''x''
       then (case r of u # r' \<Rightarrow> if u = CHR ''_'' then r' else r | [] \<Rightarrow> r) else s
   | _ \<Rightarrow> s)"

definition py_int :: "nat \<Rightarrow> string \<Rightarrow> int option" where
  "py_int base s =
     (let t = strip s;
          neg = (t \<noteq> [] \<and> hd t = CHR ''-'');
          u = (if t \<noteq> [] \<and> hd t \<in> {CHR ''-'', CHR ''+''} then tl t else t);
          v = (if base = 16 then drop_hex_prefix u else u)
      in map_option (\<lambda>n. if neg then - int n else int n) (digits_value base v))"

section \<open>User names, passwords and fingerprints\<close>

text \<open>\<open>[a-zA-Z0-9]+[.\-_]?[a-zA-Z0-9]+$\<close>\<close>

definition username_regex :: "string \<Rightarrow> bool" where
  "username_regex = re_dollar (\<lambda>s. let a = takeWhile is_alnum s; r = dropWhile is_alnum s in
     if r = [] then 2 \<le> length a
     else a \<noteq> [] \<and> hd r \<in> {CHR ''.'', CHR ''-'', CHR ''_''} \<and> tl r \<noteq> [] \<and> list_all is_alnum (tl r))"

definition valid_username :: "config \<Rightarrow> string \<Rightarrow> bool" where
  "valid_username cfg username \<longleftrightarrow> username_min_len cfg \<le> length username
     \<and> length username \<le> username_max_len cfg \<and> username_regex username"

definition util_valid_password :: "config \<Rightarrow> string \<Rightarrow> bool" where
  "util_valid_password cfg p \<longleftrightarrow> passwd_min_len cfg \<le> length p"

definition valid_pgp_fingerprint :: "string \<Rightarrow> bool" where
  "valid_pgp_fingerprint fp \<longleftrightarrow> py_int 16 fp \<noteq> None \<and> length fp = 40"

definition strtobool :: "string \<Rightarrow> bool" where
  "strtobool value \<longleftrightarrow> lower value \<in> {''y'', ''yes'', ''t'', ''true'', ''on'', ''1''}"

section \<open>Home pages\<close>

text \<open>Scheme and network location of \<open>urllib.parse.urlparse\<close>; None where it raises a \<open>ValueError\<close>.\<close>

definition scheme_char :: "char \<Rightarrow> bool" where
  "scheme_char c \<longleftrightarrow> is_alnum c \<or> c \<in> {CHR ''+'', CHR ''-'', CHR ''.''}"

definition split_scheme :: "string \<Rightarrow> string \<times> string" where
  "split_scheme url = (let s = takeWhile (\<lambda>c. c \<noteq> CHR '':'') url; r = dropWhile (\<lambda>c. c \<noteq> CHR '':'') url in
     if r \<noteq> [] \<and> s \<noteq> [] \<and> is_alnum (hd s) \<and> \<not> is_digit (hd s) \<and> list_all scheme_char s
     then (lower s, tl r) else ([], url))"

definition urlparse :: "config \<Rightarrow> string \<Rightarrow> (string \<times> string) option" where
  "urlparse cfg s =
     (let t = dropWhile (\<lambda>c. (of_char c :: nat) \<le> 32) s;
          url = filter (\<lambda>c. c \<notin> {CHR 0x09, CHR 0x0A, CHR 0x0D}) t;
          (scheme, rest) = split_scheme url;
          netloc = (if startswith rest ''//'' then takeWhile (\<lambda>c. c \<notin> set ''/?#'') (drop 2 rest) else [])
      in if (CHR 0x5B \<in> set netloc) \<noteq> (CHR 0x5D \<in> set netloc) \<or> \<not> netloc_ok (accounts cfg) netloc
         then None else Some (scheme, netloc))"

definition valid_homepage :: "config \<Rightarrow> string \<Rightarrow> bool" where
  "valid_homepage cfg homepage = (case urlparse cfg homepage of
     None \<Rightarrow> False
   | Some (scheme, netloc) \<Rightarrow> scheme \<in> {''http'', ''https''} \<and> netloc \<noteq> [])"

section \<open>Addresses\<close>

definition valid_email :: "config \<Rightarrow> string \<Rightarrow> bool" where
  "valid_email cfg email \<longleftrightarrow> validate_email (accounts cfg) email \<noteq> None"

text \<open>\<open>email.rsplit("@", 1)[-1].lower()\<close> in the list of disposable domains.\<close>

definition is_disposable_email :: "config \<Rightarrow> string \<Rightarrow> bool" where
  "is_disposable_email cfg email = disposable_domain (accounts cfg) (lower (last (split_on (CHR ''@'') email)))"

definition EMAIL_PROVIDER_RULES :: "(string \<times> (bool \<times> string option)) list" where
  "EMAIL_PROVIDER_RULES =
     [(''gmail.com'', True, Some ''gmail.com''), (''googlemail.com'', True, Some ''gmail.com''),
      (''icloud.com'', False, Some ''icloud.com''), (''me.com'', False, Some ''icloud.com''),
      (''mac.com'', False, Some ''icloud.com''), (''protonmail.com'', False, Some ''proton.me''),
      (''proton.me'', False, Some ''proton.me''), (''pm.me'', False, Some ''proton.me''),
      (''outlook.com'', False, None), (''hotmail.com'', False, None), (''live.com'', False, None),
      (''msn.com'', False, None), (''yandex.com'', False, None), (''yandex.ru'', False, None),
      (''ya.ru'', False, None), (''zoho.com'', False, None), (''zohomail.com'', False, None),
      (''fastmail.com'', False, None), (''fastmail.fm'', False, None)]"

text \<open>The canonical local part and domain, by the rule of the provider.\<close>

definition canonical_local :: "bool \<Rightarrow> string \<Rightarrow> string" where
  "canonical_local strip_dots local =
     (let base = takeWhile (\<lambda>c. c \<noteq> CHR ''+'') local; l = (if base = [] then local else base)
      in if strip_dots then filter (\<lambda>c. c \<noteq> CHR ''.'') l else l)"

definition canonical_parts :: "string \<Rightarrow> string \<Rightarrow> string \<times> string" where
  "canonical_parts local domain = (case map_of EMAIL_PROVIDER_RULES domain of
     None \<Rightarrow> (local, domain)
   | Some (strip_dots, canonical_domain) \<Rightarrow>
       (canonical_local strip_dots local, case canonical_domain of None \<Rightarrow> domain | Some d \<Rightarrow> d))"

definition normalize_email :: "config \<Rightarrow> string \<Rightarrow> string" where
  "normalize_email cfg email = (case validate_email (accounts cfg) email of
     None \<Rightarrow> lower email
   | Some (local, domain) \<Rightarrow> (let (l, d) = canonical_parts local domain in lower l @ ''@'' @ d))"

section \<open>SSH keys\<close>

text \<open>The two first words of a line, when the first is a key type and \<open>ssh-keygen\<close> takes them.\<close>

definition parse_ssh_key :: "config \<Rightarrow> string \<Rightarrow> string option" where
  "parse_ssh_key cfg line = (case split_ws line of
     prefix # key # _ \<Rightarrow>
       if prefix \<in> set (valid_keytypes (accounts cfg)) \<and> ssh_keygen (accounts cfg) (prefix @ '' '' @ key) \<noteq> None
       then Some (prefix @ '' '' @ key) else None
   | _ \<Rightarrow> None)"

definition is_line_break :: "char \<Rightarrow> bool" where
  "is_line_break c \<longleftrightarrow> c \<in> {CHR 0x0A, CHR 0x0B, CHR 0x0C, CHR 0x0D, CHR 0x1C, CHR 0x1D, CHR 0x1E, CHR 0x85}"

text \<open>A set of keys, in the order in which it is iterated; None where a key is invalid.\<close>

definition parse_ssh_keys :: "config \<Rightarrow> string \<Rightarrow> string list option" where
  "parse_ssh_keys cfg s =
     (let keys = map (parse_ssh_key cfg) (filter (\<lambda>l. strip l \<noteq> []) (split_by is_line_break (strip s)))
      in if None \<in> set keys then None else Some (set_iter_str cfg (map the keys)))"

definition get_fingerprint :: "config \<Rightarrow> string \<Rightarrow> string" where
  "get_fingerprint cfg key = (case ssh_keygen (accounts cfg) key of None \<Rightarrow> [] | Some fp \<Rightarrow> fp)"

section \<open>The CAPTCHA\<close>

definition get_captcha_salts :: "db \<Rightarrow> string list" where
  "get_captcha_salts d = map (\<lambda>i. ''aurweb-'' @ str_int (int (length (Users d)) - int i)) [0..<6]"

definition get_captcha_token :: "config \<Rightarrow> string \<Rightarrow> string" where
  "get_captcha_token cfg salt = take 3 (md5_hex cfg salt)"

definition captcha_text :: "string \<Rightarrow> string" where
  "captcha_text t = [nl] @ '' .--.                  Pacman v'' @ t @ ''.'' @ t @ ''.'' @ t @ '' - libalpm v'' @ t @ ''.'' @ t @ ''.'' @ t
     @ [nl] @ ''/ _.-' .-.  .-.  .-.   Copyright (C) '' @ t @ ''-'' @ t @ '' Pacman Development Team''
     @ [nl, CHR 0x5C] @ ''  '-. '-'  '-'  '-'   Copyright (C) '' @ t @ ''-'' @ t @ '' Judd Vinet''
     @ [nl] @ '' '--'' @ [CHR 0x27]
     @ [nl] @ ''                       This program may be freely redistributed under''
     @ [nl] @ ''                       the terms of the GNU General Public License.'' @ [nl]"

definition get_captcha_answer :: "config \<Rightarrow> string \<Rightarrow> string" where
  "get_captcha_answer cfg token = take 6 (md5_hex cfg (captcha_text token @ [nl]))"

section \<open>What the predicates accept\<close>

text \<open>The normal form of an address of a known provider, for every spelling the parser gives.\<close>

lemma normalize_known:
  assumes "validate_email (accounts cfg) email = Some (local, domain)"
    and "map_of EMAIL_PROVIDER_RULES domain = Some (strip_dots, canonical)"
  shows "normalize_email cfg email = lower (canonical_local strip_dots local) @ ''@''
    @ (case canonical of None \<Rightarrow> domain | Some d \<Rightarrow> d)"
  using assms by (simp add: normalize_email_def canonical_parts_def split_beta)

lemma username_regex_iff:
  "(let a = takeWhile is_alnum s; r = dropWhile is_alnum s in
     if r = [] then 2 \<le> length a
     else a \<noteq> [] \<and> hd r \<in> {CHR ''.'', CHR ''-'', CHR ''_''} \<and> tl r \<noteq> [] \<and> list_all is_alnum (tl r))
   \<longleftrightarrow> (\<exists>a m b. s = a @ m @ b \<and> a \<noteq> [] \<and> b \<noteq> [] \<and> list_all is_alnum a \<and> list_all is_alnum b
        \<and> m \<in> {[], ''.'', ''-'', ''_''})" (is "?L \<longleftrightarrow> ?R")
proof
  let ?a = "takeWhile is_alnum s" and ?r = "dropWhile is_alnum s"
  have a: "list_all is_alnum ?a"
    by (auto simp: list_all_iff dest: set_takeWhileD)
  have s: "s = ?a @ ?r"
    by simp
  assume L: ?L
  show ?R
  proof (cases "?r = []")
    case True
    with L have two: "2 \<le> length ?a"
      by (simp add: Let_def)
    then have "?a = take 1 ?a @ [] @ drop 1 ?a" "take 1 ?a \<noteq> []" "drop 1 ?a \<noteq> []"
      by auto
    moreover have "list_all is_alnum (take 1 ?a)" "list_all is_alnum (drop 1 ?a)"
      using a by (auto simp: list_all_iff dest: in_set_takeD in_set_dropD)
    moreover have "s = ?a"
      using s True by simp
    ultimately show ?thesis
      by (metis insertI1)
  next
    case False
    then obtain c r' where r: "?r = c # r'"
      by (cases ?r) auto
    have "s = ?a @ [c] @ r'"
      using s unfolding r by simp
    moreover have "?a \<noteq> []" "r' \<noteq> []" "list_all is_alnum r'" "[c] \<in> {[], ''.'', ''-'', ''_''}"
      using L r by (auto simp: Let_def)
    ultimately show ?thesis
      using a by blast
  qed
next
  assume ?R
  then obtain a m b where s: "s = a @ m @ b" "a \<noteq> []" "b \<noteq> []" "list_all is_alnum a" "list_all is_alnum b"
    "m \<in> {[], ''.'', ''-'', ''_''}"
    by blast
  have all: "\<forall>x \<in> set a. is_alnum x" "\<forall>x \<in> set b. is_alnum x"
    using s(4,5) by (auto simp: list_all_iff)
  show ?L
  proof (cases m)
    case Nil
    with s(1) all have "takeWhile is_alnum s = s" "dropWhile is_alnum s = []"
      by (auto simp: takeWhile_eq_all_conv)
    with s Nil show ?thesis
      by (cases a; cases b) (auto simp: Let_def)
  next
    case (Cons c m')
    with s(6) have m: "m = [c]" "c \<in> {CHR ''.'', CHR ''-'', CHR ''_''}"
      by auto
    have not: "\<not> is_alnum c"
      using m(2) by (elim insertE; simp add: is_alnum_def is_digit_def less_eq_char_def)
    have "takeWhile is_alnum s = a" "dropWhile is_alnum s = c # b"
      using s(1) m not all by (simp_all add: takeWhile_append2 dropWhile_append2)
    with s m show ?thesis
      by (simp add: Let_def)
  qed
qed

end
