(* ===== verification/Accounts.thy ===== *)
theory Accounts
  imports Web Validators
begin

text \<open>
  What an account form may say and what it does: the checks of \<open>aurweb/users/validate.py\<close>, the
  verification of addresses of \<open>aurweb/users/verify.py\<close> and the updates of \<open>aurweb/users/update.py\<close>. A
  form is the map of its fields; the fields are named as in the code (\<open>U\<close> the user name, \<open>E\<close> the
  address, \<open>P\<close> the new password, \<open>T\<close> the account type and so on).
\<close>

section \<open>Forms\<close>

type_synonym form = "string \<Rightarrow> string option"

text \<open>The value of a field whose default is the empty string.\<close>

definition field :: "form \<Rightarrow> string \<Rightarrow> string" where
  "field args k = (case args k of None \<Rightarrow> [] | Some s \<Rightarrow> s)"

text \<open>What the code reads from the account of the form, which is the stub of a visitor at registration.\<close>

fun ru_Email :: "requester \<Rightarrow> string" where
  "ru_Email AnonymousUser = ''N/A''"
| "ru_Email (LoggedIn u) = u_Email u"

fun ru_Suspended :: "requester \<Rightarrow> bool" where
  "ru_Suspended AnonymousUser = False"
| "ru_Suspended (LoggedIn u) = u_Suspended u"

section \<open>Verification of addresses\<close>

definition in_cooldown :: "config \<Rightarrow> int \<Rightarrow> users_row \<Rightarrow> bool" where
  "in_cooldown cfg ts u = (case u_EmailVerificationExpiry u of
     None \<Rightarrow> False
   | Some expiry \<Rightarrow> ts < expiry - email_verification_ttl (accounts cfg) + email_verification_cooldown (accounts cfg))"

definition is_expired :: "int \<Rightarrow> users_row \<Rightarrow> bool" where
  "is_expired ts u = (case u_EmailVerificationExpiry u of None \<Rightarrow> True | Some expiry \<Rightarrow> ts \<ge> expiry)"

text \<open>\<open>verify.issue\<close>, with the token that is drawn.\<close>

definition issue :: "config \<Rightarrow> string \<Rightarrow> int \<Rightarrow> users_row \<Rightarrow> users_row" where
  "issue cfg token ts u = u\<lparr>u_EmailVerificationToken := Some token,
     u_EmailVerificationExpiry := Some (ts + email_verification_ttl (accounts cfg))\<rparr>"

section \<open>The checks\<close>

definition reject :: "bool \<Rightarrow> string list \<Rightarrow> unit aur" where
  "reject c errors = guard (\<not> c) (Aurweb (ValidationError errors))"

type_synonym account_check = "config \<Rightarrow> request \<Rightarrow> requester \<Rightarrow> form \<Rightarrow> unit aur"

definition invalid_fields :: account_check where
  "invalid_fields cfg rq user args =
     reject (field args ''E'' = [] \<or> field args ''U'' = []) [''Missing a required field.'']"

definition invalid_suspend_permission :: account_check where
  "invalid_suspend_permission cfg rq user args =
     reject (\<not> is_elevated (rq_user rq) \<and> strtobool (field args ''S'') \<noteq> ru_Suspended user)
       [''You do not have permission to suspend accounts.'']"

definition invalid_username :: account_check where
  "invalid_username cfg rq user args = reject (\<not> valid_username cfg (field args ''U''))
     [''The username is invalid.'',
      ''It must be between '' @ str_nat (username_min_len cfg) @ '' and '' @ str_nat (username_max_len cfg) @ '' characters long'',
      ''Start and end with a letter or number'',
      ''Can contain only one period, underscore or hyphen.'']"

definition invalid_password :: account_check where
  "invalid_password cfg rq user args = (let P = field args ''P''; C = field args ''C'' in
     whenp (P \<noteq> []) (
       if \<not> util_valid_password cfg P
       then reject True [''Your password must be at least '' @ str_nat (passwd_min_len cfg) @ '' characters.'']
       else if C = [] then reject True [''Please confirm your new password.'']
       else reject (P \<noteq> C) [''Password fields do not match.'']))"

definition registration_banned :: account_check where
  "registration_banned cfg rq user args = andthen (query (is_banned (rq_ip rq))) (\<lambda>banned.
     reject banned [''Account registration has been disabled for your IP address, probably due to sustained spam attacks. Sorry for the inconvenience.''])"

definition invalid_user_password :: account_check where
  "invalid_user_password cfg rq user args = (case rq_user rq of
     AnonymousUser \<Rightarrow> ret ()
   | LoggedIn u \<Rightarrow> reject (\<not> fst (valid_password cfg u (Some (field args ''passwd'')))) [''Invalid password.''])"

definition disposable_checked :: "config \<Rightarrow> string \<Rightarrow> bool" where
  "disposable_checked cfg email \<longleftrightarrow> disposable_email_check (accounts cfg) \<and> is_disposable_email cfg email"

definition invalid_email :: account_check where
  "invalid_email cfg rq user args = (let E = field args ''E'' in
     seqp (reject (\<not> valid_email cfg E) [''The email address is invalid.''])
       (reject (disposable_checked cfg E) [''Disposable email addresses are not allowed.'']))"

definition email_in_cooldown :: account_check where
  "email_in_cooldown cfg rq user args = (case (rq_user rq, user) of
     (LoggedIn _, LoggedIn u) \<Rightarrow> andthen utcnow (\<lambda>ts.
       reject (field args ''E'' \<noteq> [] \<and> field args ''E'' \<noteq> u_Email u \<and> in_cooldown cfg ts u)
         [''A verification email was sent recently. You can change your email address again in a few minutes.''])
   | _ \<Rightarrow> ret ())"

definition invalid_backup_email :: account_check where
  "invalid_backup_email cfg rq user args = (let BE = field args ''BE'' in
     whenp (BE \<noteq> []) (seqp (reject (\<not> valid_email cfg BE) [''The backup email address is invalid.''])
       (reject (disposable_checked cfg BE) [''Disposable email addresses are not allowed.''])))"

definition invalid_homepage :: account_check where
  "invalid_homepage cfg rq user args =
     reject (field args ''HP'' \<noteq> [] \<and> \<not> valid_homepage cfg (field args ''HP''))
       [''The home page is invalid, please specify the full HTTP(s) URL.'']"

definition invalid_pgp_key :: account_check where
  "invalid_pgp_key cfg rq user args =
     reject (field args ''K'' \<noteq> [] \<and> \<not> valid_pgp_fingerprint (field args ''K''))
       [''The PGP key fingerprint is invalid. Only full fingerprints are accepted. Use `gpg --list-keys --fingerprint KEYID` to obtain a valid fingerprint.'']"

definition strong :: "string \<Rightarrow> string" where
  "strong s = ''<strong>'' @ s @ ''</strong>''"

definition invalid_ssh_pubkey :: account_check where
  "invalid_ssh_pubkey cfg rq user args = (let PK = field args ''PK'' in
     whenp (PK \<noteq> []) (case parse_ssh_keys cfg (strip PK) of
       None \<Rightarrow> reject True [''The SSH public key is invalid.'']
     | Some keys \<Rightarrow> for_each keys (\<lambda>key.
         andthen (query (\<lambda>d. list_ex (\<lambda>k. sk_UserID k \<noteq> ru_ID user \<and> sk_Fingerprint k = get_fingerprint cfg key) (SSHPubKeys d))) (\<lambda>in_use.
         reject in_use [''The SSH public key, '' @ strong (get_fingerprint cfg key) @ '', is already in use.'']))))"

definition SUPPORTED_LANGUAGES :: "string list" where
  "SUPPORTED_LANGUAGES = [''ar'', ''ast'', ''ca'', ''cs'', ''da'', ''de'', ''el'', ''en'', ''es'', ''es_419'',
    ''fi'', ''fr'', ''he'', ''hr'', ''hu'', ''it'', ''ja'', ''nb'', ''nl'', ''pl'', ''pt_BR'',
    ''pt_PT'', ''ro'', ''ru'', ''sk'', ''sr'', ''tr'', ''uk'', ''zh_CN'', ''zh_TW'']"

definition invalid_language :: account_check where
  "invalid_language cfg rq user args =
     reject (field args ''L'' \<noteq> [] \<and> field args ''L'' \<notin> set SUPPORTED_LANGUAGES) [''Language is not currently supported.'']"

definition invalid_timezone :: account_check where
  "invalid_timezone cfg rq user args =
     reject (field args ''TZ'' \<noteq> [] \<and> \<not> supported_timezone (accounts cfg) (field args ''TZ''))
       [''Timezone is not currently supported.'']"

definition username_in_use :: account_check where
  "username_in_use cfg rq user args =
     andthen (query (\<lambda>d. list_ex (\<lambda>u. u_ID u \<noteq> ru_ID user \<and> u_Username u = field args ''U'') (Users d))) (\<lambda>in_use.
     reject in_use [''The username, '' @ strong (field args ''U'') @ '', is already in use.''])"

definition email_taken_error :: "string \<Rightarrow> string" where
  "email_taken_error E = ''The address, '' @ strong E @ '', is already in use.''"

text \<open>An address is taken by its normal form; for accounts without one it is computed.\<close>

definition email_taken :: "config \<Rightarrow> nat \<Rightarrow> string \<Rightarrow> db \<Rightarrow> bool" where
  "email_taken cfg uid E d = list_ex (\<lambda>u. u_ID u \<noteq> uid \<and>
     (case u_NormalizedEmail u of Some n \<Rightarrow> n = normalize_email cfg E
      | None \<Rightarrow> normalize_email cfg (u_Email u) = normalize_email cfg E)) (Users d)"

definition email_in_use :: account_check where
  "email_in_use cfg rq user args = (let E = field args ''E'' in
     if E = ru_Email user then ret ()
     else andthen (query (email_taken cfg (ru_ID user) E)) (\<lambda>in_use.
       reject in_use [email_taken_error E]))"

definition account_type_name :: "int \<Rightarrow> string option" where
  "account_type_name t = (if t < 0 then None else ACCOUNT_TYPE_NAME (nat t))"

definition invalid_account_type :: account_check where
  "invalid_account_type cfg rq user args = (case args ''T'' of
     None \<Rightarrow> ret ()
   | Some s \<Rightarrow> andthen (the_or Py_ValueError (py_int 10 s)) (\<lambda>T.
       whenp (T \<noteq> int (ru_AccountTypeID user)) (
         case account_type_name T of
           None \<Rightarrow> reject True [''Invalid account type provided.'']
         | Some name \<Rightarrow>
             if \<not> has_credential (rq_user rq) ACCOUNT_CHANGE_TYPE []
             then reject True [''You do not have permission to change account types.'']
             else reject (T > int (ru_AccountTypeID (rq_user rq)))
               [''You do not have permission to change this user's account type to '' @ name @ ''.''])))"

definition invalid_captcha :: account_check where
  "invalid_captcha cfg rq user args = andthen (query get_captcha_salts) (\<lambda>salts.
     seqp (reject (field args ''captcha_salt'' \<noteq> [] \<and> field args ''captcha_salt'' \<notin> set salts)
       [''This CAPTCHA has expired. Please try again.''])
     (whenp (field args ''captcha'' \<noteq> []) (case args ''captcha_salt'' of
        None \<Rightarrow> throw Py_AttributeError
      | Some salt \<Rightarrow> reject (field args ''captcha'' \<noteq> get_captcha_answer cfg (get_captcha_token cfg salt))
          [''The entered CAPTCHA answer is invalid.''])))"

text \<open>
  \<open>process_account_form\<close> of \<open>routers/accounts.py\<close>: the checks in order, up to the first that fails. A
  form with a field named like an argument of the checks makes the call fail.
\<close>

definition checks :: "account_check list" where
  "checks = [registration_banned, invalid_user_password, invalid_fields, invalid_suspend_permission,
     invalid_captcha, invalid_username, invalid_password, invalid_email, email_in_cooldown,
     invalid_backup_email, invalid_homepage, invalid_pgp_key, invalid_ssh_pubkey, invalid_language,
     invalid_timezone, username_in_use, email_in_use, invalid_account_type]"

definition process_account_form :: "config \<Rightarrow> request \<Rightarrow> requester \<Rightarrow> form \<Rightarrow> (bool \<times> string list) aur" where
  "process_account_form cfg rq user args = catch
     (seqp (guard (args ''request'' = None \<and> args ''user'' = None \<and> args ''_'' = None) Py_TypeError)
     (seqp (for_each checks (\<lambda>check. check cfg rq user args))
     (ret (True, []))))
     (\<lambda>e. case e of Aurweb (ValidationError data) \<Rightarrow> ret (False, data) | _ \<Rightarrow> throw e)"

section \<open>The updates\<close>

text \<open>An assignment to the columns of a user, which the unique indexes on the table may refuse.\<close>

definition save_user :: "nat \<Rightarrow> (users_row \<Rightarrow> users_row) \<Rightarrow> unit aur" where
  "save_user uid f = andthen (query (\<lambda>d. (map f (filter (\<lambda>u. u_ID u = uid) (Users d)), filter (\<lambda>u. u_ID u \<noteq> uid) (Users d)))) (\<lambda>(new, others).
     if list_ex (\<lambda>u. u_Username u \<in> u_Username ` set new \<or> u_Email u \<in> u_Email ` set new) others then throw IntegrityError
     else if list_ex (\<lambda>u. u_NormalizedEmail u \<noteq> None \<and> u_NormalizedEmail u \<in> u_NormalizedEmail ` set new) others
     then throw (UniqueViolation ''UsersNormalizedEmail'')
     else execute (\<lambda>d. d\<lparr>Users := update_where (\<lambda>u. u_ID u = uid) f (Users d)\<rparr>))"

text \<open>The account of the form as the session now has it.\<close>

definition with_user :: "nat \<Rightarrow> (users_row \<Rightarrow> 'a aur) \<Rightarrow> 'a aur" where
  "with_user uid f = andthen (query (\<lambda>d. List.find (\<lambda>u. u_ID u = uid) (Users d))) (\<lambda>u.
     andthen (the_or Py_AttributeError u) f)"

definition set_email :: "config \<Rightarrow> string \<Rightarrow> users_row \<Rightarrow> users_row" where
  "set_email cfg value u = (if value \<noteq> u_Email u
     then u\<lparr>u_Email := value, u_NormalizedEmail := Some (if value = [] then [] else normalize_email cfg value)\<rparr> else u)"

definition email_changed :: "form \<Rightarrow> users_row \<Rightarrow> bool" where
  "email_changed args u \<longleftrightarrow> field args ''E'' \<noteq> [] \<and> field args ''E'' \<noteq> u_Email u"

definition simple_fields :: "config \<Rightarrow> form \<Rightarrow> int \<Rightarrow> string \<Rightarrow> users_row \<Rightarrow> users_row" where
  "simple_fields cfg args ts token u =
     (let named = u\<lparr>u_Username := (if field args ''U'' = [] then u_Username u else field args ''U'')\<rparr>;
          mailed = (if field args ''E'' = [] then named else set_email cfg (field args ''E'') named);
          issued = (if email_changed args u then issue cfg token ts (mailed\<lparr>u_EmailVerified := False\<rparr>) else mailed)
      in issued\<lparr>u_HideEmail := strtobool (field args ''H''), u_BackupEmail := Some (field args ''BE''),
           u_RealName := field args ''R'', u_Homepage := Some (field args ''HP''), u_IRCNick := field args ''I'',
           u_PGPKey := Some (field args ''K''), u_Suspended := strtobool (field args ''S''),
           u_InactivityTS := (if strtobool (field args ''J'') then ts else 0),
           u_CommentNotify := strtobool (field args ''CN''), u_UpdateNotify := strtobool (field args ''UN''),
           u_OwnershipNotify := strtobool (field args ''ON''), u_HideDeletedComments := strtobool (field args ''HDC'')\<rparr>)"

text \<open>
  \<open>update.simple\<close>. Its transaction also writes the new hash of a legacy password that the check of the
  editor's password has made (\<open>rehash\<close>: whose and which).
\<close>

definition write_rehash :: "(nat \<times> string) option \<Rightarrow> db \<Rightarrow> db" where
  "write_rehash rehash d = (case rehash of None \<Rightarrow> d
     | Some (uid, hash) \<Rightarrow> d\<lparr>Users := update_where (\<lambda>u. u_ID u = uid) (\<lambda>u. u\<lparr>u_Passwd := hash\<rparr>) (Users d)\<rparr>)"

definition update_simple :: "config \<Rightarrow> nat \<Rightarrow> (nat \<times> string) option \<Rightarrow> form \<Rightarrow> unit aur" where
  "update_simple cfg uid rehash args = retry_deadlock (andthen utcnow (\<lambda>ts. with_user uid (\<lambda>u.
     seqp (transaction (
       andthen (if email_changed args u then make_random_string cfg 32 else ret []) (\<lambda>token.
       seqp (execute (write_rehash rehash))
       (save_user uid (simple_fields cfg args ts token)))))
     (whenp (email_changed args u) (send (VerificationNotification uid))))))"

definition update_language :: "nat \<Rightarrow> form \<Rightarrow> unit aur" where
  "update_language uid args = retry_deadlock (with_user uid (\<lambda>u.
     whenp (field args ''L'' \<noteq> [] \<and> field args ''L'' \<noteq> u_LangPreference u)
       (transaction (save_user uid (\<lambda>u. u\<lparr>u_LangPreference := field args ''L''\<rparr>)))))"

definition update_timezone :: "nat \<Rightarrow> form \<Rightarrow> unit aur" where
  "update_timezone uid args = retry_deadlock (with_user uid (\<lambda>u.
     whenp (field args ''TZ'' \<noteq> [] \<and> field args ''TZ'' \<noteq> u_Timezone u)
       (transaction (save_user uid (\<lambda>u. u\<lparr>u_Timezone := field args ''TZ''\<rparr>)))))"

text \<open>The keys that are not named are deleted, and those the user does not have yet are added.\<close>

definition new_ssh_keys :: "config \<Rightarrow> nat \<Rightarrow> string list \<Rightarrow> db \<Rightarrow> sshpubkeys_row list" where
  "new_ssh_keys cfg uid keys d = map (\<lambda>k. \<lparr>sk_UserID = uid, sk_Fingerprint = get_fingerprint cfg k, sk_PubKey = k\<rparr>)
     (filter (\<lambda>k. \<not> list_ex (\<lambda>r. sk_UserID r = uid \<and> sk_Fingerprint r = get_fingerprint cfg k) (SSHPubKeys d)) keys)"

definition insert_ssh_keys :: "sshpubkeys_row list \<Rightarrow> unit aur" where
  "insert_ssh_keys rows = insert_unless
     (\<lambda>d. \<not> distinct (map sk_Fingerprint rows) \<or> list_ex (\<lambda>r. sk_Fingerprint r \<in> sk_Fingerprint ` set rows) (SSHPubKeys d))
     (\<lambda>d. d\<lparr>SSHPubKeys := SSHPubKeys d @ rows\<rparr>)"

definition update_ssh_pubkey :: "config \<Rightarrow> nat \<Rightarrow> form \<Rightarrow> unit aur" where
  "update_ssh_pubkey cfg uid args = retry_deadlock (
     if field args ''PK'' = [] then transaction (execute (\<lambda>d. d\<lparr>SSHPubKeys := delete_where (\<lambda>r. sk_UserID r = uid) (SSHPubKeys d)\<rparr>))
     else andthen (the_or Py_ValueError (parse_ssh_keys cfg (strip (field args ''PK'')))) (\<lambda>keys.
       transaction (andthen (query (new_ssh_keys cfg uid keys)) (\<lambda>rows.
         seqp (execute (\<lambda>d. d\<lparr>SSHPubKeys :=
           delete_where (\<lambda>r. sk_UserID r = uid \<and> sk_Fingerprint r \<notin> set (map (get_fingerprint cfg) keys)) (SSHPubKeys d)\<rparr>))
         (insert_ssh_keys rows)))))"

definition update_account_type :: "nat \<Rightarrow> form \<Rightarrow> unit aur" where
  "update_account_type uid args = retry_deadlock (case args ''T'' of
     None \<Rightarrow> ret ()
   | Some s \<Rightarrow> andthen (the_or Py_ValueError (py_int 10 s)) (\<lambda>T. with_user uid (\<lambda>u.
       whenp (T \<noteq> int (u_AccountTypeID u)) (transaction (save_user uid (\<lambda>u. u\<lparr>u_AccountTypeID := nat T\<rparr>))))))"

definition update_password :: "config \<Rightarrow> request \<Rightarrow> nat \<Rightarrow> form \<Rightarrow> unit aur" where
  "update_password cfg rq uid args = retry_deadlock (with_user uid (\<lambda>u. let P = field args ''P'' in
     whenp (P \<noteq> [] \<and> \<not> fst (valid_password cfg u (Some P)))
       (seqp (transaction (save_user uid (\<lambda>u. u\<lparr>u_Passwd := hashpw cfg P\<rparr>)))
       (whenp (is_user (rq_user rq) (Some uid))
         (with_user uid (\<lambda>u. seqp (user_login cfg (rq_ip rq) u P) (ret ())))))))"

text \<open>\<open>S\<close> is the string of the form here: any value of the field, \<open>False\<close> included, ends the session.\<close>

definition update_suspend :: "nat \<Rightarrow> form \<Rightarrow> unit aur" where
  "update_suspend uid args = retry_deadlock (andthen (query (session_of uid)) (\<lambda>session.
     whenp (field args ''S'' \<noteq> [] \<and> session \<noteq> None)
       (transaction (execute (\<lambda>d. d\<lparr>Sessions := delete_where (\<lambda>s. ss_UsersID s = uid) (Sessions d)\<rparr>)))))"

end
