(* ===== verification/Request_Routes.thy ===== *)
theory Request_Routes
  imports Web Requests "HOL-Library.Multiset"
begin

text \<open>
  The pages and the form of package requests: \<open>aurweb/routers/requests.py\<close> and
  \<open>aurweb/requests/util.py\<close>, with \<open>util.sanitize_params\<close>. The listing is a function of the
  parameters of the query string, the user and the database; the form closes a request.
\<close>

section \<open>Pages of a listing\<close>

text \<open>\<open>util.sanitize_params\<close>, of two integers (None is a string that is none).\<close>

definition default_O :: nat where "default_O = 0"
definition default_PP :: nat where "default_PP = 50"

definition sanitize_params :: "int option \<Rightarrow> int option \<Rightarrow> nat \<times> nat" where
  "sanitize_params offset_str per_page_str =
     (case offset_str of Some n \<Rightarrow> if n < 0 then default_O else nat n | None \<Rightarrow> default_O,
      case per_page_str of Some n \<Rightarrow> if n \<le> 0 then default_PP else nat n | None \<Rightarrow> default_PP)"

text \<open>The SQL operator \<open>LIKE\<close>, in which a backslash takes the next character as it is.\<close>

fun sql_like :: "string \<Rightarrow> string \<Rightarrow> bool" where
  "sql_like [] s = (s = [])"
| "sql_like (c # p) [] = (c = CHR ''%'' \<and> sql_like p [])"
| "sql_like (c # p) (x # s) =
     (if c = CHR ''%'' then sql_like p (x # s) \<or> sql_like (c # p) s
      else if c = CHR ''_'' then sql_like p s
      else if c = CHR 0x5C then (case p of [] \<Rightarrow> x = c \<and> s = [] | e # p' \<Rightarrow> x = e \<and> sql_like p' s)
      else x = c \<and> sql_like p s)"

lemma sql_like_any: "sql_like (CHR ''%'' # p) s \<longleftrightarrow> (\<exists>k \<le> length s. sql_like p (drop k s))"
proof (induction s)
  case Nil
  then show ?case by simp
next
  case (Cons x s)
  have "(\<exists>k \<le> length (x # s). sql_like p (drop k (x # s)))
      \<longleftrightarrow> sql_like p (x # s) \<or> (\<exists>k \<le> length s. sql_like p (drop k s))"
    by (metis Suc_le_mono Zero_not_Suc drop0 drop_Suc_Cons length_Cons nat.exhaust zero_le)
  with Cons show ?case by simp
qed

lemma sql_like_plain:
  "\<forall>c \<in> set p. c \<notin> {CHR ''%'', CHR ''_'', CHR 0x5C} \<Longrightarrow> sql_like (p @ q) s
     \<longleftrightarrow> (\<exists>t. s = p @ t \<and> sql_like q t)"
  by (induction p arbitrary: s) (case_tac [2] s, auto)

text \<open>A pattern of ordinary characters between two percent signs finds the names that contain it.\<close>

lemma sql_like_contains:
  assumes "\<forall>c \<in> set p. c \<notin> {CHR ''%'', CHR ''_'', CHR 0x5C}"
  shows "sql_like (CHR ''%'' # p @ ''%'') s \<longleftrightarrow> (\<exists>a b. s = a @ p @ b)"
proof -
  have "sql_like ''%'' t" for t
    by (induction t) simp_all
  then have "sql_like (p @ ''%'') t \<longleftrightarrow> (\<exists>b. t = p @ b)" for t
    using sql_like_plain [OF assms, of "''%''"] by simp
  then show ?thesis
    by (simp only: sql_like_any) (metis append_eq_conv_conj append_take_drop_id length_append le_add1)
qed

section \<open>The listing\<close>

text \<open>
  The parameters; a status filter is None where the query string does not name it.
\<close>

record requests_query =
  q_O :: int
  q_PP :: int
  filter_pending :: "bool option"
  filter_closed :: "bool option"
  filter_accepted :: "bool option"
  filter_rejected :: "bool option"
  filter_maintainer_requests :: bool
  filter_pkg_name :: string
  filter_req_type :: nat

definition default_filters :: "requests_query \<Rightarrow> requests_query" where
  "default_filters q =
     (if list_ex (\<lambda>f. f \<noteq> None) [filter_pending q, filter_closed q, filter_accepted q, filter_rejected q] then q
      else if filter_pkg_name q \<noteq> []
      then q\<lparr>filter_pending := Some True, filter_closed := Some True, filter_accepted := Some True, filter_rejected := Some True\<rparr>
      else q\<lparr>filter_pending := Some True\<rparr>)"

definition in_filters :: "requests_query \<Rightarrow> nat list" where
  "in_filters q = map snd (filter (\<lambda>(f, i). f = Some True)
     [(filter_pending q, PENDING_ID), (filter_closed q, CLOSED_ID),
      (filter_accepted q, ACCEPTED_ID), (filter_rejected q, REJECTED_ID)])"

text \<open>\<open>query.join(PackageBase)\<close> is an inner join: a request whose package base is gone is not listed.\<close>

definition base_of_request :: "db \<Rightarrow> packagerequests_row \<Rightarrow> packagebases_row option" where
  "base_of_request d r = List.find (\<lambda>b. pr_PackageBaseID r = Some (pb_ID b)) (PackageBases d)"

definition requests_filtered :: "requests_query \<Rightarrow> users_row \<Rightarrow> db \<Rightarrow> packagerequests_row list" where
  "requests_filtered q u d =
     (let req_type = (if filter_req_type q \<in> set (map qt_ID (RequestTypes d)) then filter_req_type q else 0)
      in filter (\<lambda>r. case base_of_request d r of None \<Rightarrow> False | Some b \<Rightarrow>
             pr_Status r \<in> set (in_filters (default_filters q))
           \<and> (filter_pkg_name q = [] \<or> sql_like (''%'' @ filter_pkg_name q @ ''%'') (pb_Name b))
           \<and> (req_type = 0 \<or> pr_ReqTypeID r = req_type)
           \<and> (filter_maintainer_requests q \<longrightarrow> pr_UsersID r \<noteq> None \<and> pr_UsersID r = pb_MaintainerUID b)
           \<and> (is_elevated (LoggedIn u) \<or> pr_UsersID r = Some (u_ID u))) (PackageRequests d))"

definition requests_order :: "packagerequests_row list \<Rightarrow> packagerequests_row list" where
  "requests_order rs = sort_key (\<lambda>r. if pr_Status r = PENDING_ID then 0 else 1 :: nat)
     (sort_key (\<lambda>r. - pr_RequestTS r) rs)"

definition requests_total :: "requests_query \<Rightarrow> users_row \<Rightarrow> db \<Rightarrow> nat" where
  "requests_total q u d = length (requests_filtered q u d)"

definition requests_results :: "requests_query \<Rightarrow> users_row \<Rightarrow> db \<Rightarrow> packagerequests_row list" where
  "requests_results q u d = (let (offset, per_page) = sanitize_params (Some (q_O q)) (Some (q_PP q))
     in take per_page (drop offset (requests_order (requests_filtered q u d))))"

definition requests_get :: "config \<Rightarrow> request \<Rightarrow> response aur" where
  "requests_get cfg rq = requires_auth cfg rq (\<lambda>u. ret (Page 200 ''requests.html'' []))"

section \<open>Closing a request\<close>

definition get_pkgreq_by_id :: "nat \<Rightarrow> packagerequests_row aur" where
  "get_pkgreq_by_id i = andthen (query (\<lambda>d. List.find (\<lambda>r. pr_ID r = i) (PackageRequests d)))
     (the_or (HTTPException 404 []))"

definition request_close :: "config \<Rightarrow> request \<Rightarrow> nat \<Rightarrow> response aur" where
  "request_close cfg rq i = requires_auth cfg rq (\<lambda>u.
     andthen (get_pkgreq_by_id i) (\<lambda>r.
     if \<not> is_elevated (LoggedIn u) \<and> \<not> is_user (LoggedIn u) (pr_UsersID r) then ret (Redirect ''/'')
     else ret (Page 200 ''requests/close.html'' [])))"

definition closed_by :: "nat \<Rightarrow> string \<Rightarrow> int \<Rightarrow> packagerequests_row \<Rightarrow> packagerequests_row" where
  "closed_by uid comments ts r = r\<lparr>pr_ClosedUID := Some uid, pr_ClosureComment := comments,
     pr_ClosedTS := Some ts, pr_Status := REJECTED_ID\<rparr>"

definition request_close_post :: "config \<Rightarrow> request \<Rightarrow> nat \<Rightarrow> string \<Rightarrow> response aur" where
  "request_close_post cfg rq i comments = requires_auth cfg rq (\<lambda>u.
     andthen (get_pkgreq_by_id i) (\<lambda>r.
     if \<not> has_credential (LoggedIn u) PKGREQ_CLOSE [pr_UsersID r] then ret (Redirect ''/'')
     else andthen utcnow (\<lambda>ts.
     seqp (transaction (execute (\<lambda>d. d\<lparr>PackageRequests :=
       update_where (\<lambda>x. pr_ID x = i) (closed_by (u_ID u) comments ts) (PackageRequests d)\<rparr>)))
     (seqp (send (RequestCloseNotification (u_ID u) i ''Rejected''))
     (ret (Redirect ''/requests''))))))"

section \<open>The constraints\<close>

lemma ok_request_close: "keeps P (request_close cfg rq i)"
  unfolding request_close_def get_pkgreq_by_id_def by (intro keeps_intros)

lemma ok_request_close_post:
  assumes "known U rq"
  shows "keeps_ok U B (request_close_post cfg rq i comments)"
  unfolding request_close_post_def get_pkgreq_by_id_def
  by (intro keeps_intros ok_PackageRequests_update; use assms in \<open>simp add: closed_by_def known_def\<close>)

lemma ok_requests_get: "keeps P (requests_get cfg rq)"
  unfolding requests_get_def by (intro keeps_intros)

section \<open>What the listing shows\<close>

text \<open>The order of the listing: pending requests first, and newer ones before older ones.\<close>

definition listed_before :: "packagerequests_row \<Rightarrow> packagerequests_row \<Rightarrow> bool" where
  "listed_before r s \<longleftrightarrow> (pr_Status r = PENDING_ID \<and> pr_Status s \<noteq> PENDING_ID)
     \<or> (pr_Status r = PENDING_ID \<longleftrightarrow> pr_Status s = PENDING_ID) \<and> pr_RequestTS s \<le> pr_RequestTS r"

text \<open>Sorting by a second key first and by the first key then gives the lexicographic order.\<close>

lemma sort_key_twice:
  "sorted_wrt (\<lambda>x y. f x < f y \<or> f x = f y \<and> g x \<le> g y) (sort_key f (sort_key g xs))"
proof -
  let ?R = "\<lambda>x y. f x < f y \<or> f x = f y \<and> g x \<le> g y"
  have "sorted_wrt ?R (insort_key f x ys)" if "sorted_wrt ?R ys" "\<forall>y \<in> set ys. g x \<le> g y" for x ys
    using that by (induction ys) (auto simp: set_insort_key)
  then have "sorted_wrt ?R (sort_key f ys)" if "sorted (map g ys)" for ys
    using that by (induction ys) (simp_all add: sort_key_simps)
  then show ?thesis
    by simp
qed

lemma requests_order_sorted: "sorted_wrt listed_before (requests_order rs)"
  unfolding requests_order_def
  by (rule sorted_wrt_mono_rel [OF _ sort_key_twice]) (auto simp: listed_before_def split: if_splits)

lemma concat_pages: "concat (map (\<lambda>k. take n (drop (k * n) xs)) [0..<m]) = take (m * n) xs"
  by (induction m) (simp_all add: take_add [symmetric] add.commute)

lemma filtered_any_page: "requests_filtered (q\<lparr>q_O := a, q_PP := b\<rparr>) u d = requests_filtered q u d"
proof -
  have "in_filters (default_filters (q\<lparr>q_O := a, q_PP := b\<rparr>)) = in_filters (default_filters q)"
    by (cases q) (simp add: in_filters_def default_filters_def del: not_None_eq)
  then show ?thesis
    by (simp add: requests_filtered_def cong: option.case_cong)
qed


definition all_requests :: requests_query where
  "all_requests = \<lparr>q_O = 0, q_PP = 50, filter_pending = None, filter_closed = None, filter_accepted = None,
     filter_rejected = None, filter_maintainer_requests = False, filter_pkg_name = ''fo'', filter_req_type = 0\<rparr>"

text \<open>Two requests for one package base, one of them settled.\<close>

definition two_requests :: db where
  "two_requests = demo_db\<lparr>PackageRequests :=
     [\<lparr>pr_ID = 7, pr_ReqTypeID = 2, pr_PackageBaseID = Some 10, pr_PackageBaseName = ''foo'', pr_MergeBaseName = None,
       pr_UsersID = Some 3, pr_Comments = ''gone'', pr_ClosureComment = [], pr_RequestTS = 400, pr_ClosedTS = Some 500,
       pr_ClosedUID = Some 1, pr_Status = 2\<rparr>,
      \<lparr>pr_ID = 8, pr_ReqTypeID = 1, pr_PackageBaseID = Some 10, pr_PackageBaseName = ''foo'', pr_MergeBaseName = None,
       pr_UsersID = Some 3, pr_Comments = ''old'', pr_ClosureComment = [], pr_RequestTS = 300, pr_ClosedTS = None,
       pr_ClosedUID = None, pr_Status = 0\<rparr>]\<rparr>"


section \<open>Who closes a request\<close>

lemma closes_requests: "has_credential (LoggedIn u) PKGREQ_CLOSE [x] \<longleftrightarrow> is_elevated (LoggedIn u) \<or> x = Some (u_ID u)"
  by (auto simp: creds_has_credential_def user_in_def is_elevated_def package_maintainer_or_dev_def)

text \<open>
  The form that closes a request changes nothing but that request, and only for its requester or an
  elevated user: it ends as rejected, with the comment, the closer and the time, and one notification.
  It does so whatever the status of the request was; everyone else changes nothing.
\<close>

theorem request_close_outcome:
  assumes "wf_db (the_db w)" and "rq_user rq = LoggedIn u" and "r \<in> set (PackageRequests (the_db w))"
  shows "request_close_post cfg rq (pr_ID r) comments w =
    (if is_elevated (LoggedIn u) \<or> pr_UsersID r = Some (u_ID u)
     then (Inr (Redirect ''/requests''), w\<lparr>the_db := (the_db w)\<lparr>PackageRequests :=
         map (\<lambda>x. if x = r then closed_by (u_ID u) comments (now w) r else x) (PackageRequests (the_db w))\<rparr>,
       sent := sent w @ [RequestCloseNotification (u_ID u) (pr_ID r) ''Rejected'']\<rparr>)
     else (Inr (Redirect ''/''), w))"
proof -
  have d: "distinct (map pr_ID (PackageRequests (the_db w)))"
    using assms(1) by (simp add: wf_db_def unique_ok_def)
  then have found: "List.find (\<lambda>x. pr_ID x = pr_ID r) (PackageRequests (the_db w)) = Some r"
    using assms(3) by (rule find_key)
  have updated: "update_where (\<lambda>x. pr_ID x = pr_ID r) f (PackageRequests (the_db w))
      = map (\<lambda>x. if x = r then f r else x) (PackageRequests (the_db w))" for f
    unfolding update_where_def by (rule map_cong [OF refl]) (use d assms(3) in \<open>auto dest: distinct_map_inj\<close>)
  show ?thesis
    unfolding request_close_post_def get_pkgreq_by_id_def requires_auth_def assms(2) requester.case closes_requests
    by (cases "is_elevated (LoggedIn u) \<or> pr_UsersID r = Some (u_ID u)"; simp only: if_True if_False;
        rule run_eqI; simp add: wp_simps found updated)
qed

theorem request_close_outcome_witness:
  "fst (request_close_post default_config (demo_form demo_bob) 8 ''no'' (demo_world\<lparr>the_db := two_requests\<rparr>))
     = Inr (Redirect ''/'')
   \<and> map pr_Status (PackageRequests (the_db (snd (request_close_post default_config (demo_form demo_alice) 7 ''no''
       (demo_world\<lparr>the_db := two_requests\<rparr>))))) = [REJECTED_ID, PENDING_ID]"
proof -
  let ?w = "demo_world\<lparr>the_db := two_requests\<rparr>"
  have d: "wf_db (the_db ?w)"
    by code_simp
  have r: "two_requests = demo_db\<lparr>PackageRequests := PackageRequests two_requests\<rparr>"
    by (simp add: two_requests_def)
  have a: "rq_user (demo_form demo_bob) = LoggedIn demo_bob" "PackageRequests two_requests ! 1 \<in> set (PackageRequests (the_db ?w))"
    "pr_ID (PackageRequests two_requests ! 1) = 8"
    "\<not> (is_elevated (LoggedIn demo_bob) \<or> pr_UsersID (PackageRequests two_requests ! 1) = Some (u_ID demo_bob))"
    by (code_simp+)
  have b: "rq_user (demo_form demo_alice) = LoggedIn demo_alice" "PackageRequests two_requests ! 0 \<in> set (PackageRequests (the_db ?w))"
    "pr_ID (PackageRequests two_requests ! 0) = 7" "is_elevated (LoggedIn demo_alice)"
    "map pr_Status (map (\<lambda>x. if x = PackageRequests two_requests ! 0 then closed_by 1 ''no'' 1000 (PackageRequests two_requests ! 0) else x)
       (PackageRequests two_requests)) = [REJECTED_ID, PENDING_ID]" "u_ID demo_alice = 1"
    by (code_simp+)
  from request_close_outcome [OF d a(1,2), of default_config "''no''", unfolded a(3)]
    request_close_outcome [OF d b(1,2), of default_config "''no''", unfolded b(3)] a(4) b(4,5,6)
  show ?thesis
    by (simp cong: if_cong)
qed

end
