(* ===== verification/Account_Routes.thy ===== *)
theory Account_Routes
  imports Accounts Request_Routes
begin

text \<open>
  The routes of \<open>aurweb/routers/accounts.py\<close>: password reset, registration, verification of the
  address, editing, deleting and searching accounts (the terms of service are in \<open>Terms\<close>).
\<close>

section \<open>Password reset\<close>

definition passreset :: "request \<Rightarrow> response aur" where
  "passreset rq = requires_guest rq (ret (Page 200 ''passreset.html'' []))"

text \<open>Why the form with a reset key is refused.\<close>

definition reset_refused :: "config \<Rightarrow> users_row \<Rightarrow> string \<Rightarrow> string \<Rightarrow> string option \<Rightarrow> string option \<Rightarrow> (string \<times> nat) option" where
  "reset_refused cfg u user resetkey password confirm =
     (if u_ResetKey u = [] \<or> resetkey \<noteq> u_ResetKey u then Some (''Invalid e-mail.'', 404)
      else if user = [] \<or> password = None \<or> password = Some [] then Some (''Missing a required field.'', 400)
      else if password \<noteq> confirm then Some (''Password fields do not match.'', 400)
      else if length (the password) < passwd_min_len cfg
      then Some (''Your password must be at least '' @ str_nat (passwd_min_len cfg) @ '' characters.'', 400)
      else None)"

definition set_new_password :: "config \<Rightarrow> nat \<Rightarrow> string \<Rightarrow> unit aur" where
  "set_new_password cfg uid password = transaction (
     seqp (execute (\<lambda>d. d\<lparr>Sessions := delete_where (\<lambda>s. ss_UsersID s = uid) (Sessions d)\<rparr>))
     (execute (\<lambda>d. d\<lparr>Users := update_where (\<lambda>u. u_ID u = uid)
        (\<lambda>u. u\<lparr>u_ResetKey := [], u_Passwd := hashpw cfg password\<rparr>) (Users d)\<rparr>)))"

definition issue_resetkey :: "config \<Rightarrow> nat \<Rightarrow> unit aur" where
  "issue_resetkey cfg uid = andthen (make_random_string cfg 32) (\<lambda>resetkey.
     seqp (transaction (execute (\<lambda>d. d\<lparr>Users := update_where (\<lambda>u. u_ID u = uid)
        (\<lambda>u. u\<lparr>u_ResetKey := resetkey\<rparr>) (Users d)\<rparr>)))
     (send (ResetKeyNotification uid)))"

definition passreset_post :: "config \<Rightarrow> request \<Rightarrow> string \<Rightarrow> string option \<Rightarrow> string option \<Rightarrow> string option \<Rightarrow> response aur" where
  "passreset_post cfg rq user resetkey password confirm = requires_guest rq (
     andthen (query (\<lambda>d. List.find (\<lambda>u. (u_Username u = user \<or> u_Email u = user) \<and> \<not> u_Suspended u) (Users d))) (\<lambda>db_user.
     case db_user of
       None \<Rightarrow> ret (Page 404 ''passreset.html'' [''Invalid e-mail.''])
     | Some u \<Rightarrow>
         if resetkey \<noteq> None \<and> resetkey \<noteq> Some [] then
           (case reset_refused cfg u user (the resetkey) password confirm of
              Some (error, status_code) \<Rightarrow> ret (Page status_code ''passreset.html'' [error])
            | None \<Rightarrow> seqp (set_new_password cfg (u_ID u) (the password)) (ret (Redirect ''/passreset?step=complete'')))
         else seqp (issue_resetkey cfg (u_ID u)) (ret (Redirect ''/passreset?step=confirm''))))"

section \<open>Registration\<close>

text \<open>A form parameter that FastAPI reads as None or its default when it is missing or empty.\<close>

definition form_opt :: "form \<Rightarrow> string \<Rightarrow> string option" where
  "form_opt args k = (case args k of None \<Rightarrow> None | Some s \<Rightarrow> if s = [] then None else Some s)"

definition form_or :: "form \<Rightarrow> string \<Rightarrow> string \<Rightarrow> string" where
  "form_or args k d = (case form_opt args k of None \<Rightarrow> d | Some s \<Rightarrow> s)"

text \<open>\<open>args["K"] = args.get("K", "").replace(" ", "")\<close>\<close>

definition without_spaces :: "form \<Rightarrow> form" where
  "without_spaces args = args(''K'' := Some (replace_char (CHR '' '') [] (field args ''K'')))"

definition account_register :: "request \<Rightarrow> response aur" where
  "account_register rq = requires_guest rq (ret (Page 200 ''register.html'' []))"

text \<open>A column that is given None takes its default.\<close>

definition new_user :: "config \<Rightarrow> form \<Rightarrow> nat \<Rightarrow> string \<Rightarrow> users_row" where
  "new_user cfg args i resetkey = set_email cfg (field args ''E'') (users_default\<lparr>u_ID := i,
     u_AccountTypeID := USER_ID, u_Username := field args ''U'',
     u_HideEmail := (field args ''H'' = ''on''), u_BackupEmail := form_opt args ''BE'',
     u_RealName := field args ''R'', u_Homepage := form_opt args ''HP'', u_IRCNick := field args ''I'',
     u_PGPKey := Some (field args ''K''), u_LangPreference := form_or args ''L'' (default_lang (accounts cfg)),
     u_Timezone := form_or args ''TZ'' (default_timezone (accounts cfg)),
     u_CommentNotify := strtobool (field args ''CN''), u_UpdateNotify := strtobool (field args ''UN''),
     u_OwnershipNotify := strtobool (field args ''ON''), u_HideDeletedComments := strtobool (field args ''HDC''),
     u_ResetKey := resetkey\<rparr>)"

text \<open>\<open>insert_user\<close> fails like \<open>save_user\<close> on the unique indexes.\<close>

definition insert_user :: "users_row \<Rightarrow> unit aur" where
  "insert_user u = andthen (query Users) (\<lambda>others.
     if list_ex (\<lambda>v. u_Username v = u_Username u \<or> u_Email v = u_Email u) others then throw IntegrityError
     else if list_ex (\<lambda>v. u_NormalizedEmail v \<noteq> None \<and> u_NormalizedEmail v = u_NormalizedEmail u) others
     then throw (UniqueViolation ''UsersNormalizedEmail'')
     else execute (\<lambda>d. d\<lparr>Users := Users d @ [u]\<rparr>))"

definition create_account :: "config \<Rightarrow> form \<Rightarrow> string \<Rightarrow> nat aur" where
  "create_account cfg args resetkey = andthen utcnow (\<lambda>ts. transaction (
     andthen (if field args ''PK'' = [] then ret []
              else the_or Py_ValueError (parse_ssh_keys cfg (strip (field args ''PK'')))) (\<lambda>keys.
     andthen (make_random_string cfg 32) (\<lambda>token.
     andthen (query (\<lambda>d. next_id (map u_ID (Users d)))) (\<lambda>i.
     seqp (insert_user (issue cfg token ts (new_user cfg args i resetkey\<lparr>u_RegistrationTS := ts\<rparr>)))
     (seqp (insert_ssh_keys (map (\<lambda>k. \<lparr>sk_UserID = i, sk_Fingerprint = get_fingerprint cfg k, sk_PubKey = k\<rparr>) keys))
     (ret i)))))))"

text \<open>The only index whose refusal the routes turn into an error of the form.\<close>

definition email_race :: "string \<Rightarrow> 'a aur \<Rightarrow> ('a \<Rightarrow> response aur) \<Rightarrow> string \<Rightarrow> response aur" where
  "email_race E m k page = andthen
     (catch (andthen m (\<lambda>x. ret (Some x)))
       (\<lambda>e. if e = UniqueViolation ''UsersNormalizedEmail'' then ret None else throw e))
     (\<lambda>r. case r of None \<Rightarrow> ret (Page 400 page [email_taken_error E]) | Some x \<Rightarrow> k x)"

definition account_register_post :: "config \<Rightarrow> request \<Rightarrow> form \<Rightarrow> response aur" where
  "account_register_post cfg rq form = requires_guest rq (
     let args = without_spaces form in
     andthen (process_account_form cfg rq (rq_user rq) args) (\<lambda>(ok, errors).
     if \<not> ok then ret (Page 400 ''register.html'' errors)
     else if field args ''captcha'' = [] then ret (Page 400 ''register.html'' [''The CAPTCHA is missing.''])
     else andthen (make_random_string cfg 32) (\<lambda>resetkey.
       email_race (field args ''E'') (create_account cfg args resetkey) (\<lambda>uid.
         seqp (send (WelcomeNotification uid))
         (seqp (send (VerificationNotification uid))
         (ret (Page 200 ''register.html'' [])))) ''register.html'')))"

section \<open>Verification of the address\<close>

definition cannot_edit :: "requester \<Rightarrow> users_row option \<Rightarrow> response option aur" where
  "cannot_edit self user = (case (self, user) of
     (_, None) \<Rightarrow> throw (HTTPException 404 [])
   | (AnonymousUser, Some u) \<Rightarrow> throw Py_AttributeError
   | (LoggedIn s, Some u) \<Rightarrow>
       ret (if \<not> can_edit_user s u then Some (Redirect (''/account/'' @ u_Username u)) else None))"

text \<open>The account of the name in the path, for an editor who may edit it.\<close>

definition with_account :: "config \<Rightarrow> request \<Rightarrow> string \<Rightarrow> (users_row \<Rightarrow> users_row \<Rightarrow> response aur) \<Rightarrow> response aur" where
  "with_account cfg rq username f = requires_auth cfg rq (\<lambda>self.
     andthen (query (\<lambda>d. List.find (\<lambda>u. u_Username u = username) (Users d))) (\<lambda>user.
     andthen (cannot_edit (LoggedIn self) user) (\<lambda>response. case response of
       Some r \<Rightarrow> ret r
     | None \<Rightarrow> f self (the user))))"

definition account_verify_status :: "response aur" where
  "account_verify_status = ret (Page 200 ''account/verify.html'' [])"

definition verify_redirect :: "string \<Rightarrow> response aur" where
  "verify_redirect step = ret (Redirect (''/account/verify?step='' @ step))"

definition account_verify :: "string \<Rightarrow> response aur" where
  "account_verify token = andthen (query (\<lambda>d. List.find (\<lambda>u. u_EmailVerificationToken u = Some token) (Users d))) (\<lambda>user.
     andthen utcnow (\<lambda>ts. case user of
       None \<Rightarrow> verify_redirect ''invalid''
     | Some u \<Rightarrow>
         if u_EmailVerified u then verify_redirect ''already''
         else if is_expired ts u then verify_redirect ''invalid''
         else seqp (transaction (execute (\<lambda>d. d\<lparr>Users := update_where (\<lambda>x. u_ID x = u_ID u)
              (\<lambda>x. x\<lparr>u_EmailVerified := True, u_EmailVerificationToken := None, u_EmailVerificationExpiry := None\<rparr>) (Users d)\<rparr>)))
            (verify_redirect ''complete'')))"

definition account_verify_resend :: "config \<Rightarrow> request \<Rightarrow> string \<Rightarrow> response aur" where
  "account_verify_resend cfg rq username = with_account cfg rq username (\<lambda>self u.
     andthen utcnow (\<lambda>ts.
       if u_EmailVerified u then verify_redirect ''already''
       else if in_cooldown cfg ts u then verify_redirect ''cooldown''
       else seqp (transaction (andthen (make_random_string cfg 32) (\<lambda>token. execute (\<lambda>d. d\<lparr>Users :=
              update_where (\<lambda>x. u_ID x = u_ID u) (issue cfg token ts) (Users d)\<rparr>))))
            (seqp (send (VerificationNotification (u_ID u)))
            (verify_redirect ''confirm''))))"

section \<open>Editing\<close>

definition account_edit :: "config \<Rightarrow> request \<Rightarrow> string \<Rightarrow> response aur" where
  "account_edit cfg rq username = with_account cfg rq username (\<lambda>self u. ret (Page 200 ''account/edit.html'' []))"

text \<open>The account types that the form offers.\<close>

definition offered_account_types :: "requester \<Rightarrow> nat list" where
  "offered_account_types self = filter (\<lambda>t. ru_AccountTypeID self \<ge> t)
     [USER_ID, PACKAGE_MAINTAINER_ID, DEVELOPER_ID, PACKAGE_MAINTAINER_AND_DEV_ID]"

definition legacy_rehash :: "config \<Rightarrow> users_row \<Rightarrow> string \<Rightarrow> (nat \<times> string) option" where
  "legacy_rehash cfg self passwd = (let (valid, hash) = valid_password cfg self (Some passwd) in
     if valid \<and> hash \<noteq> u_Passwd self then Some (u_ID self, hash) else None)"

definition updates :: "config \<Rightarrow> request \<Rightarrow> nat \<Rightarrow> (nat \<times> string) option \<Rightarrow> form \<Rightarrow> unit aur list" where
  "updates cfg rq uid rehash args =
     [update_simple cfg uid rehash args, update_language uid args, update_timezone uid args,
      update_ssh_pubkey cfg uid args, update_account_type uid args, update_password cfg rq uid args,
      update_suspend uid args]"

definition account_edit_post :: "config \<Rightarrow> request \<Rightarrow> string \<Rightarrow> form \<Rightarrow> response aur" where
  "account_edit_post cfg rq username form = with_account cfg rq username (\<lambda>self u.
     let args = without_spaces form in
     andthen (process_account_form cfg rq (LoggedIn u) args) (\<lambda>(ok, errors).
     if field args ''passwd'' = [] then ret (Page 400 ''account/edit.html'' [''Invalid password.''])
     else if \<not> ok then ret (Page 400 ''account/edit.html'' errors)
     else email_race (field args ''E'')
       (seqp (guard (args ''context'' = None) Py_TypeError)
         (for_each (updates cfg rq (u_ID u) (legacy_rehash cfg self (field args ''passwd'')) args) (\<lambda>f. f)))
       (\<lambda>_. ret (Page 200 ''account/edit.html'' [])) ''account/edit.html''))"

section \<open>Showing, searching and deleting accounts\<close>

definition get_user_by_name :: "string \<Rightarrow> users_row aur" where
  "get_user_by_name username = andthen (query (\<lambda>d. List.find (\<lambda>u. u_Username u = username) (Users d)))
     (the_or (HTTPException 404 []))"

definition account_show :: "request \<Rightarrow> string \<Rightarrow> response aur" where
  "account_show rq username =
     (if \<not> is_authenticated (rq_user rq) then ret (Page 401 ''account/show.html'' [])
      else andthen (get_user_by_name username) (\<lambda>u. ret (Page 200 ''account/show.html'' [])))"

definition account_comments :: "config \<Rightarrow> request \<Rightarrow> string \<Rightarrow> response aur" where
  "account_comments cfg rq username = requires_auth cfg rq (\<lambda>self.
     andthen (get_user_by_name username) (\<lambda>u. ret (Page 200 ''account/comments.html'' [])))"

definition staff_types :: "string list" where
  "staff_types = [''Package Maintainer'', ''Developer'', ''Package Maintainer & Developer'']"

definition accounts_get :: "config \<Rightarrow> request \<Rightarrow> response aur" where
  "accounts_get cfg rq = requires_auth cfg rq (\<lambda>self. account_type_required staff_types self
     (ret (Page 200 ''account/search.html'' [])))"

text \<open>The search: its criteria, its order and its pages of 50.\<close>

record account_search =
  s_O :: int
  s_SB :: string
  s_U :: string
  s_T :: string
  s_S :: bool
  s_E :: string
  s_R :: string
  s_I :: string
  s_K :: string

definition like :: "string \<Rightarrow> string \<Rightarrow> bool" where
  "like part value \<longleftrightarrow> part = [] \<or> sql_like (''%'' @ part @ ''%'') value"

definition accounts_found :: "account_search \<Rightarrow> db \<Rightarrow> users_row list" where
  "accounts_found s d =
     (let account_type_id = map_of [(''u'', USER_ID), (''t'', PACKAGE_MAINTAINER_ID), (''d'', DEVELOPER_ID),
            (''td'', PACKAGE_MAINTAINER_AND_DEV_ID)] (s_T s)
      in filter (\<lambda>u. (account_type_id = None \<or> account_type_id = Some (u_AccountTypeID u))
           \<and> like (s_U s) (u_Username u) \<and> (s_S s \<longrightarrow> u_Suspended u) \<and> like (s_E s) (u_Email u)
           \<and> like (s_R s) (u_RealName u) \<and> like (s_I s) (u_IRCNick u)
           \<and> (s_K s = [] \<or> (case u_PGPKey u of None \<Rightarrow> False | Some k \<Rightarrow> like (s_K s) k))) (Users d))"

definition char_codes :: "string \<Rightarrow> nat list" where
  "char_codes s = map of_char s"

definition accounts_order :: "string \<Rightarrow> users_row list \<Rightarrow> users_row list" where
  "accounts_order sb us =
     (if sb = ''t'' then sort_key u_AccountTypeID (sort_key (\<lambda>u. char_codes (u_Username u)) us)
      else let by_type = sort_key u_AccountTypeID us in
        if sb = ''r'' then sort_key (\<lambda>u. char_codes (u_RealName u)) by_type
        else if sb = ''i'' then sort_key (\<lambda>u. char_codes (u_IRCNick u)) by_type
        else sort_key (\<lambda>u. char_codes (u_Username u)) by_type)"

definition accounts_results :: "account_search \<Rightarrow> db \<Rightarrow> nat \<times> users_row list" where
  "accounts_results s d = (length (accounts_found s d),
     take 50 (drop (nat (max (s_O s) 0)) (accounts_order (s_SB s) (accounts_found s d))))"

definition accounts_post :: "config \<Rightarrow> request \<Rightarrow> response aur" where
  "accounts_post cfg rq = requires_auth cfg rq (\<lambda>self. account_type_required staff_types self
     (ret (Page 200 ''account/index.html'' [])))"

text \<open>Deleting: the credential alone decides, the account types are not compared.\<close>

definition deletable :: "users_row \<Rightarrow> string \<Rightarrow> users_row aur" where
  "deletable self name = andthen (get_user_by_name name) (\<lambda>u.
     seqp (guard (has_credential (LoggedIn self) ACCOUNT_EDIT [Some (u_ID u)])
       (HTTPException 401 ''You do not have permission to edit this account.''))
     (ret u))"

definition account_delete :: "config \<Rightarrow> request \<Rightarrow> string \<Rightarrow> response aur" where
  "account_delete cfg rq name = requires_auth cfg rq (\<lambda>self.
     andthen (deletable self name) (\<lambda>u. ret (Page 200 ''account/delete.html'' [])))"

text \<open>
  \<open>db.delete(user)\<close>: the ORM deletes the rows of the relationships that cascade and sets the foreign keys
  of the others to NULL, before the database applies its ON DELETE clauses. A key that may not be NULL
  (proposals, votes on proposals, accepted terms) makes the delete fail; comments the user has deleted
  stay, without a deleter.
\<close>

definition orm_delete_user :: "nat \<Rightarrow> unit aur" where
  "orm_delete_user uid = insert_unless
     (\<lambda>d. list_ex (\<lambda>a. at_UsersID a = uid) (AcceptedTerms d) \<or> list_ex (\<lambda>v. vi_SubmitterID v = uid) (VoteInfo d)
       \<or> list_ex (\<lambda>v. vt_UserID v = uid) (Votes d))
     (\<lambda>d. delete_users (\<lambda>u. u_ID u = uid) (d\<lparr>PackageComments :=
       update_where (\<lambda>c. pc_DelUsersID c = Some uid) (\<lambda>c. c\<lparr>pc_DelUsersID := None\<rparr>) (PackageComments d)\<rparr>))"

definition account_delete_post :: "config \<Rightarrow> request \<Rightarrow> string \<Rightarrow> string \<Rightarrow> bool \<Rightarrow> response aur" where
  "account_delete_post cfg rq name passwd confirm = requires_auth cfg rq (\<lambda>self.
     andthen (deletable self name) (\<lambda>u.
     if \<not> confirm then ret (Page 400 ''account/delete.html''
       [''The account has not been deleted, check the confirmation checkbox.''])
     else if \<not> fst (valid_password cfg self (Some passwd)) then ret (Page 400 ''account/delete.html'' [''Invalid password.''])
     else seqp (transaction (seqp (execute (write_rehash (legacy_rehash cfg self passwd))) (orm_delete_user (u_ID u))))
       (ret (Redirect ''/''))))"

section \<open>All of them\<close>

datatype account_form =
    Passreset string "string option" "string option" "string option"
  | Register form
  | Verify string
  | Verify_Resend string
  | Edit string form
  | Delete_Account string string bool

primrec account_route :: "config \<Rightarrow> request \<Rightarrow> account_form \<Rightarrow> response aur" where
  "account_route cfg rq (Passreset user resetkey password confirm) = passreset_post cfg rq user resetkey password confirm"
| "account_route cfg rq (Register form) = account_register_post cfg rq form"
| "account_route cfg rq (Verify token) = account_verify token"
| "account_route cfg rq (Verify_Resend username) = account_verify_resend cfg rq username"
| "account_route cfg rq (Edit username form) = account_edit_post cfg rq username form"
| "account_route cfg rq (Delete_Account name passwd confirm) = account_delete_post cfg rq name passwd confirm"

end
