(* ===== verification/Account_Props.thy ===== *)
theory Account_Props
  imports Account_Routes
begin

text \<open>
  What the account forms keep: account types, addresses, their verification, and passwords. The checks
  only read, so a form that passes them all has passed each in the state it is carried out in.
\<close>

section \<open>The checks\<close>

lemma keeps_reject [keeps_intros]: "keeps P (reject c errors)"
  by (simp add: reject_def keeps_intros)

lemma keeps_checks:
  assumes "check \<in> set checks"
  shows "keeps P (check cfg rq user args)"
proof -
  have "keeps P (registration_banned cfg rq user args)" "keeps P (invalid_user_password cfg rq user args)"
    "keeps P (invalid_fields cfg rq user args)" "keeps P (invalid_suspend_permission cfg rq user args)"
    "keeps P (invalid_captcha cfg rq user args)" "keeps P (invalid_username cfg rq user args)"
    "keeps P (invalid_password cfg rq user args)" "keeps P (invalid_email cfg rq user args)"
    unfolding registration_banned_def invalid_user_password_def invalid_fields_def invalid_suspend_permission_def
      invalid_captcha_def invalid_username_def invalid_password_def invalid_email_def Let_def
    by (auto intro!: keeps_intros split: requester.splits)
  moreover have "keeps P (email_in_cooldown cfg rq user args)" "keeps P (invalid_backup_email cfg rq user args)"
    "keeps P (invalid_homepage cfg rq user args)" "keeps P (invalid_pgp_key cfg rq user args)"
    "keeps P (invalid_ssh_pubkey cfg rq user args)" "keeps P (invalid_language cfg rq user args)"
    "keeps P (invalid_timezone cfg rq user args)" "keeps P (username_in_use cfg rq user args)"
    "keeps P (email_in_use cfg rq user args)" "keeps P (invalid_account_type cfg rq user args)"
    unfolding email_in_cooldown_def invalid_backup_email_def invalid_homepage_def invalid_pgp_key_def
      invalid_ssh_pubkey_def invalid_language_def invalid_timezone_def username_in_use_def email_in_use_def
      invalid_account_type_def Let_def
    by (auto intro!: keeps_intros split: requester.splits)
  ultimately show ?thesis
    using assms unfolding checks_def by auto
qed

lemma for_each_reads:
  assumes "\<And>x P. x \<in> set xs \<Longrightarrow> keeps P (f x)"
  shows "snd (for_each xs f w) = w \<and> (fst (for_each xs f w) = Inr () \<longrightarrow> (\<forall>x \<in> set xs. f x w = (Inr (), w)))"
  using assms
proof (induction xs)
  case Nil
  then show ?case by (simp add: ret_def)
next
  case (Cons x xs)
  have x: "snd (f x w) = w"
    using keepsD [OF Cons.prems [of x "(=) w"]] by simp
  have xs: "snd (for_each xs f w) = w \<and> (fst (for_each xs f w) = Inr () \<longrightarrow> (\<forall>x \<in> set xs. f x w = (Inr (), w)))"
    by (rule Cons.IH) (use Cons.prems in simp)
  show ?case
  proof (cases "f x w")
    case (Pair r w')
    then have "w' = w"
      using x by simp
    with Pair xs show ?thesis
      by (cases r) (auto simp: seqp_def andthen_def)
  qed
qed

abbreviation passed :: "config \<Rightarrow> request \<Rightarrow> requester \<Rightarrow> form \<Rightarrow> world \<Rightarrow> bool" where
  "passed cfg rq user args w \<equiv> \<forall>check \<in> set checks. check cfg rq user args w = (Inr (), w)"

lemma wp_process_account_form:
  assumes "passed cfg rq user args w \<Longrightarrow> Q (True, []) w" and "\<And>errors. Q (False, errors) w" and "\<And>e. E e w"
  shows "wp (process_account_form cfg rq user args) Q E w"
proof -
  let ?m = "for_each checks (\<lambda>check. check cfg rq user args)"
  have m: "snd (?m w) = w \<and> (fst (?m w) = Inr () \<longrightarrow> passed cfg rq user args w)"
    by (rule for_each_reads) (rule keeps_checks)
  obtain r where r: "?m w = (r, w)"
    using m by (cases "?m w") simp
  show ?thesis
  proof (cases r)
    case (Inl e)
    from wp_of_Inl [where m = ?m and w = w and w' = w, OF r [unfolded Inl]] assms(2,3) show ?thesis
      by (auto simp: process_account_form_def wp_simps split: exn.splits aurweb_exception.splits)
  next
    case (Inr x)
    from wp_of_Inr [where m = ?m and w = w and w' = w, OF r [unfolded Inr]] m r assms(1,3) show ?thesis
      by (auto simp: process_account_form_def wp_simps Inr)
  qed
qed

lemma passed_check: "passed cfg rq user args w \<Longrightarrow> check \<in> set checks \<Longrightarrow> check cfg rq user args w = (Inr (), w)"
  by blast

text \<open>What the checks on the account type and on the address say.\<close>

lemma passed_account_type:
  assumes "passed cfg rq user args w" and "args ''T'' = Some s"
  shows "\<exists>T. py_int 10 s = Some T \<and> (T = int (ru_AccountTypeID user)
    \<or> account_type_name T \<noteq> None \<and> has_credential (rq_user rq) ACCOUNT_CHANGE_TYPE []
      \<and> T \<le> int (ru_AccountTypeID (rq_user rq)))"
proof -
  have c: "invalid_account_type cfg rq user args w = (Inr (), w)"
    by (rule passed_check [OF assms(1)]) (simp add: checks_def)
  have "wp (invalid_account_type cfg rq user args) (\<lambda>_ _. \<exists>T. py_int 10 s = Some T \<and> (T = int (ru_AccountTypeID user)
    \<or> account_type_name T \<noteq> None \<and> has_credential (rq_user rq) ACCOUNT_CHANGE_TYPE []
      \<and> T \<le> int (ru_AccountTypeID (rq_user rq)))) (\<lambda>_ _. True) w"
    by (auto simp: invalid_account_type_def assms(2) reject_def wp_simps simp del: has_credential.simps split: option.splits)
  from wpI_Inr [OF this c] show ?thesis .
qed

lemma passed_email:
  assumes "passed cfg rq user args w"
  shows "field args ''E'' \<noteq> [] \<and> field args ''U'' \<noteq> []
    \<and> (field args ''E'' = ru_Email user \<or> \<not> email_taken cfg (ru_ID user) (field args ''E'') (the_db w))"
proof -
  have c: "invalid_fields cfg rq user args w = (Inr (), w)" "email_in_use cfg rq user args w = (Inr (), w)"
    by (rule passed_check [OF assms], simp add: checks_def)+
  have "wp (invalid_fields cfg rq user args) (\<lambda>_ _. field args ''E'' \<noteq> [] \<and> field args ''U'' \<noteq> []) (\<lambda>_ _. True) w"
    "wp (email_in_use cfg rq user args) (\<lambda>_ _. field args ''E'' = ru_Email user
      \<or> \<not> email_taken cfg (ru_ID user) (field args ''E'') (the_db w)) (\<lambda>_ _. True) w"
    by (simp_all add: invalid_fields_def email_in_use_def reject_def wp_simps Let_def)
  from wpI_Inr [OF this(1) c(1)] wpI_Inr [OF this(2) c(2)] show ?thesis
    by blast
qed

section \<open>What the updates change\<close>

text \<open>Who the accounts are: the columns that decide about rights and addresses.\<close>

definition who :: "users_row \<Rightarrow> nat \<times> nat \<times> string \<times> string option \<times> bool" where
  "who u = (u_ID u, u_AccountTypeID u, u_Email u, u_NormalizedEmail u, u_EmailVerified u)"

definition whos :: "db \<Rightarrow> (nat \<times> nat \<times> string \<times> string option \<times> bool) list" where
  "whos d = map who (Users d)"

abbreviation keeps_who :: "((nat \<times> nat \<times> string \<times> string option \<times> bool) list \<Rightarrow> bool) \<Rightarrow> 'a aur \<Rightarrow> bool" where
  "keeps_who P m \<equiv> keeps (db_inv (\<lambda>d. P (whos d))) m"

lemma whos_update: "(\<And>u. u_ID u = uid \<Longrightarrow> who (f u) = g (who u)) \<Longrightarrow>
    whos (d\<lparr>Users := update_where (\<lambda>u. u_ID u = uid) f (Users d)\<rparr>) = map (\<lambda>x. if fst x = uid then g x else x) (whos d)"
  by (simp add: whos_def update_where_def who_def)

lemma whos_same: "(\<And>u. who (f u) = who u) \<Longrightarrow> whos (d\<lparr>Users := update_where p f (Users d)\<rparr>) = whos d"
  by (simp add: whos_def update_where_def)

lemma whos_others [simp]:
  "whos (d\<lparr>Sessions := ss\<rparr>) = whos d" "whos (d\<lparr>SSHPubKeys := ks\<rparr>) = whos d" "whos (d\<lparr>PackageComments := cs\<rparr>) = whos d"
  by (simp_all add: whos_def)

lemma whos_rehash [simp]: "whos (write_rehash rehash d) = whos d"
  by (auto simp: write_rehash_def whos_same who_def split: option.split)

lemma ids_rehash [simp]: "map u_ID (Users (write_rehash rehash d)) = map u_ID (Users d)"
  by (auto simp: write_rehash_def map_update_where_same split: option.split)

lemma wp_random_string [wp_simps]:
  "wp (make_random_string cfg n) Q E w = Q (random_string cfg (draws w) n) (w\<lparr>draws := Suc (draws w)\<rparr>)"
  by (simp add: make_random_string_def wp_def)

lemma keeps_random_string [keeps_intros]: "keeps (db_inv P) (make_random_string cfg n)"
  by (rule keepsI) (simp add: wp_random_string db_inv_def)

lemma keeps_random_sid: "keeps (db_inv P) (generate_unique_sid cfg)"
  by (rule keepsI, rule wp_any_sid) (simp_all add: db_inv_def)

lemma keeps_user_login:
  assumes "\<And>d ss. P d \<Longrightarrow> P (d\<lparr>Sessions := ss\<rparr>)" and "\<And>d ip uid rehash ts. P d \<Longrightarrow> P (stamped uid ip rehash ts d)"
  shows "keeps (db_inv P) (user_login cfg ip user p)"
proof -
  have "keeps (db_inv P) (renew_session cfg uid ts)" for uid ts
    unfolding renew_session_def by (intro keeps_intros keeps_random_sid assms(1))
  then have "keeps (db_inv P) (login_round cfg ip uid rehash)" for uid rehash
    unfolding login_round_def stamped_def [symmetric] by (intro keeps_intros assms(2))
  then have "keeps (db_inv P) (login_rounds n cfg ip uid rehash)" for n uid rehash
    by (induction n arbitrary: rehash) (auto intro!: keeps_intros)
  then show ?thesis
    unfolding user_login_def Let_def split_beta by (intro keeps_intros)
qed

lemma keeps_save_user: "(\<And>d. P d \<Longrightarrow> P (d\<lparr>Users := update_where (\<lambda>u. u_ID u = uid) f (Users d)\<rparr>)) \<Longrightarrow>
    keeps (db_inv P) (save_user uid f)"
  unfolding save_user_def split_beta by (intro keeps_intros)

lemma wp_save_userI:
  "Q () (w\<lparr>the_db := (the_db w)\<lparr>Users := update_where (\<lambda>u. u_ID u = uid) f (Users (the_db w))\<rparr>\<rparr>) \<Longrightarrow>
    (\<And>e. e \<in> {IntegrityError, UniqueViolation ''UsersNormalizedEmail''} \<Longrightarrow> E e w) \<Longrightarrow> wp (save_user uid f) Q E w"
  by (simp add: save_user_def wp_simps split_beta)

lemma keeps_with_user [keeps_intros]: "(\<And>u. keeps P (f u)) \<Longrightarrow> keeps P (with_user uid f)"
  unfolding with_user_def by (intro keeps_intros)

lemma keeps_insert_ssh_keys: "(\<And>d. P d \<Longrightarrow> P (d\<lparr>SSHPubKeys := SSHPubKeys d @ rows\<rparr>)) \<Longrightarrow>
    keeps (db_inv P) (insert_ssh_keys rows)"
  unfolding insert_ssh_keys_def by (intro keeps_intros)

lemma stamped_who [simp]: "whos (stamped uid ip rehash ts d) = whos d"
  by (simp add: stamped_def whos_same who_def)

text \<open>The updates that leave them alone.\<close>

lemma keeps_who_updates:
  "keeps_who P (update_language uid args)" "keeps_who P (update_timezone uid args)"
  "keeps_who P (update_ssh_pubkey cfg uid args)" "keeps_who P (update_password cfg rq uid args)"
  "keeps_who P (update_suspend uid args)"
  unfolding update_language_def update_timezone_def update_ssh_pubkey_def update_password_def update_suspend_def Let_def
  by (intro keeps_intros keeps_save_user keeps_insert_ssh_keys keeps_user_login; simp add: whos_same who_def)+

text \<open>What \<open>update.simple\<close> makes of an account, and \<open>update.account_type\<close>.\<close>

fun new_address :: "config \<Rightarrow> string \<Rightarrow> nat \<times> nat \<times> string \<times> string option \<times> bool
    \<Rightarrow> nat \<times> nat \<times> string \<times> string option \<times> bool" where
  "new_address cfg E (i, t, e, n, v) = (if E = [] \<or> E = e then (i, t, e, n, v) else (i, t, E, Some (normalize_email cfg E), False))"

definition readdress :: "config \<Rightarrow> nat \<Rightarrow> string \<Rightarrow> (nat \<times> nat \<times> string \<times> string option \<times> bool) list
    \<Rightarrow> (nat \<times> nat \<times> string \<times> string option \<times> bool) list" where
  "readdress cfg uid E ws = map (\<lambda>x. if fst x = uid then new_address cfg E x else x) ws"

definition retype :: "nat \<Rightarrow> nat \<Rightarrow> (nat \<times> nat \<times> string \<times> string option \<times> bool) list
    \<Rightarrow> (nat \<times> nat \<times> string \<times> string option \<times> bool) list" where
  "retype uid t ws = map (\<lambda>x. if fst x = uid then (fst x, t, snd (snd x)) else x) ws"

lemma retype_twice [simp]: "retype uid t (retype uid t ws) = retype uid t ws"
  by (simp add: retype_def)

lemma who_simple_fields: "who (simple_fields cfg args ts token u) = new_address cfg (field args ''E'') (who u)"
  by (simp add: simple_fields_def set_email_def email_changed_def issue_def who_def Let_def)

lemma wp_update_simple:
  assumes "whos (the_db w) = W"
  shows "wp (update_simple cfg uid rehash args) (\<lambda>_ w'. whos (the_db w') = readdress cfg uid (field args ''E'') W)
    (\<lambda>_ w'. whos (the_db w') = W) w"
proof -
  have "whos (d\<lparr>Users := update_where (\<lambda>u. u_ID u = uid) (simple_fields cfg args ts token) (Users d)\<rparr>)
      = readdress cfg uid (field args ''E'') (whos d)" for d ts token
    unfolding readdress_def by (rule whos_update) (rule who_simple_fields)
  with assms show ?thesis
    unfolding update_simple_def
    by (intro wp_retry_deadlock) (auto simp: wp_simps with_user_def intro!: wp_save_userI split: option.split)
qed

lemma keeps_bind_the_or: "(\<And>y. x = Some y \<Longrightarrow> keeps P (f y)) \<Longrightarrow> keeps P (andthen (the_or e x) f)"
  by (cases x) (simp_all add: keeps_def the_or_def andthen_def ret_def throw_def)

lemma keeps_update_account_type:
  assumes "\<And>s T ws. args ''T'' = Some s \<Longrightarrow> py_int 10 s = Some T \<Longrightarrow> P ws \<Longrightarrow> P (retype uid (nat T) ws)"
  shows "keeps_who P (update_account_type uid args)"
proof (cases "args ''T''")
  case (Some s)
  have "keeps_who P (with_user uid (\<lambda>u. whenp (T \<noteq> int (u_AccountTypeID u))
      (transaction (save_user uid (\<lambda>u. u\<lparr>u_AccountTypeID := nat T\<rparr>)))))" if "py_int 10 s = Some T" for T
  proof (intro keeps_intros keeps_save_user)
    fix d
    assume "P (whos d)"
    then have "P (retype uid (nat T) (whos d))"
      by (rule assms [OF Some that])
    then show "P (whos (d\<lparr>Users := update_where (\<lambda>u. u_ID u = uid) (u_AccountTypeID_update (\<lambda>_. nat T)) (Users d)\<rparr>))"
      unfolding retype_def by (subst whos_update) (simp_all add: who_def)
  qed
  then show ?thesis
    unfolding update_account_type_def Some option.case by (intro keeps_retry_deadlock keeps_bind_the_or)
qed (simp add: update_account_type_def keeps_intros)

section \<open>What a form changes\<close>

text \<open>The accounts after an edit of \<open>uid\<close> that got as far as the first update.\<close>

definition edited :: "config \<Rightarrow> nat \<Rightarrow> form \<Rightarrow> (nat \<times> nat \<times> string \<times> string option \<times> bool) list
    \<Rightarrow> (nat \<times> nat \<times> string \<times> string option \<times> bool) list \<Rightarrow> bool" where
  "edited cfg uid args W ws \<longleftrightarrow> ws = readdress cfg uid (field args ''E'') W
     \<or> (\<exists>s T. args ''T'' = Some s \<and> py_int 10 s = Some T
         \<and> ws = retype uid (nat T) (readdress cfg uid (field args ''E'') W))"

lemma wp_updates:
  assumes "whos (the_db w) = W"
  shows "wp (for_each (updates cfg rq uid rehash args) (\<lambda>f. f))
    (\<lambda>_ w'. whos (the_db w') = W \<or> edited cfg uid args W (whos (the_db w')))
    (\<lambda>_ w'. whos (the_db w') = W \<or> edited cfg uid args W (whos (the_db w'))) w"
proof -
  let ?rest = "for_each [update_language uid args, update_timezone uid args, update_ssh_pubkey cfg uid args,
    update_account_type uid args, update_password cfg rq uid args, update_suspend uid args] (\<lambda>f. f)"
  have "keeps_who (edited cfg uid args W) (update_account_type uid args)"
  proof (rule keeps_update_account_type)
    fix s T ws
    assume "args ''T'' = Some s" "py_int 10 s = Some T" "edited cfg uid args W ws"
    then show "edited cfg uid args W (retype uid (nat T) ws)"
      by (auto simp: edited_def)
  qed
  then have rest: "keeps_who (edited cfg uid args W) ?rest"
    by (simp only: for_each.simps) (intro keeps_seqp keeps_ret keeps_who_updates)
  show ?thesis
    unfolding updates_def for_each.simps(2) [of "update_simple cfg uid rehash args"] wp_seqp
  proof (rule wp_mono [OF wp_update_simple [OF assms]])
    fix w' :: world
    assume "whos (the_db w') = readdress cfg uid (field args ''E'') W"
    then have "db_inv (\<lambda>d. edited cfg uid args W (whos d)) w'"
      by (simp add: db_inv_def edited_def)
    from keeps_wp [OF rest this] show "wp ?rest (\<lambda>_ w'. whos (the_db w') = W \<or> edited cfg uid args W (whos (the_db w')))
       (\<lambda>_ w'. whos (the_db w') = W \<or> edited cfg uid args W (whos (the_db w'))) w'"
      by (rule wp_mono) (simp_all add: db_inv_def)
  qed simp
qed

lemma wp_email_race:
  assumes "wp m (\<lambda>x. wp (k x) Q E) (\<lambda>e w. E e w \<and> Q (Page 400 page [email_taken_error A]) w) w"
  shows "wp (email_race A m k page) Q E w"
  unfolding email_race_def wp_simps option.case
  by (rule wp_mono [OF assms]) (simp_all add: wp_simps)

lemma wp_with_account:
  assumes "rq_user rq = LoggedIn self"
    and "\<And>u. u \<in> set (Users (the_db w)) \<Longrightarrow> u_Username u = username \<Longrightarrow> can_edit_user self u \<Longrightarrow> wp (f self u) Q E w"
    and "\<And>r. Q r w" and "\<And>e. E e w"
  shows "wp (with_account cfg rq username f) Q E w"
  using assms by (auto simp: with_account_def requires_auth_def cannot_edit_def wp_simps split: option.split dest!: find_SomeD)

lemma wp_visitor: "rq_user rq = AnonymousUser \<Longrightarrow> (\<And>r. Q r w) \<Longrightarrow> (\<And>e. E e w) \<Longrightarrow> wp (requires_auth cfg rq f) Q E w"
  by (simp add: requires_auth_def wp_simps Let_def split: option.split)

lemma edit_whos:
  assumes "rq_user rq = LoggedIn self"
  shows "let args = without_spaces form; W = whos (the_db w);
      W' = whos (the_db (snd (account_edit_post cfg rq username form w))) in
    W' = W \<or> (\<exists>u \<in> set (Users (the_db w)). u_Username u = username \<and> can_edit_user self u
      \<and> passed cfg rq (LoggedIn u) args w \<and> edited cfg (u_ID u) args W W')"
proof -
  let ?args = "without_spaces form" and ?W = "whos (the_db w)"
  let ?R = "\<lambda>w'. whos (the_db w') = ?W \<or> (\<exists>u \<in> set (Users (the_db w)). u_Username u = username \<and> can_edit_user self u
      \<and> passed cfg rq (LoggedIn u) ?args w \<and> edited cfg (u_ID u) ?args ?W (whos (the_db w')))"
  have "wp (account_edit_post cfg rq username form) (\<lambda>_. ?R) (\<lambda>_. ?R) w"
    unfolding account_edit_post_def
  proof (rule wp_with_account [OF assms])
    fix u
    assume u: "u \<in> set (Users (the_db w))" "u_Username u = username" "can_edit_user self u"
    show "wp (let args = ?args in andthen (process_account_form cfg rq (LoggedIn u) args) (\<lambda>(ok, errors).
       if field args ''passwd'' = [] then ret (Page 400 ''account/edit.html'' [''Invalid password.''])
       else if \<not> ok then ret (Page 400 ''account/edit.html'' errors)
       else email_race (field args ''E'')
         (seqp (guard (args ''context'' = None) Py_TypeError)
           (for_each (updates cfg rq (u_ID u) (legacy_rehash cfg self (field args ''passwd'')) args) (\<lambda>f. f)))
         (\<lambda>_. ret (Page 200 ''account/edit.html'' [])) ''account/edit.html'')) (\<lambda>_. ?R) (\<lambda>_. ?R) w"
      unfolding Let_def wp_andthen
    proof (rule wp_process_account_form)
      assume passed: "passed cfg rq (LoggedIn u) ?args w"
      have "wp (for_each (updates cfg rq (u_ID u) (legacy_rehash cfg self (field ?args ''passwd'')) ?args) (\<lambda>f. f))
          (\<lambda>_. ?R) (\<lambda>_. ?R) w"
        by (rule wp_mono [OF wp_updates [OF refl]]) (use u passed in auto)
      then show "wp (case (True, []) of (ok, errors) \<Rightarrow>
          if field ?args ''passwd'' = [] then ret (Page 400 ''account/edit.html'' [''Invalid password.''])
          else if \<not> ok then ret (Page 400 ''account/edit.html'' errors)
          else email_race (field ?args ''E'')
           (seqp (guard (?args ''context'' = None) Py_TypeError)
             (for_each (updates cfg rq (u_ID u) (legacy_rehash cfg self (field ?args ''passwd'')) ?args) (\<lambda>f. f)))
           (\<lambda>_. ret (Page 200 ''account/edit.html'' [])) ''account/edit.html'') (\<lambda>_. ?R) (\<lambda>_. ?R) w"
        by (simp add: wp_if wp_ret) (auto intro!: wp_email_race simp: wp_seqp wp_guard wp_ret_fun)
    qed (simp_all add: wp_if wp_ret)
  qed simp_all
  then show ?thesis
    unfolding Let_def snd_wp [where P = ?R] .
qed

text \<open>The other forms.\<close>

lemma keeps_who_passreset: "keeps_who P (passreset_post cfg rq user resetkey password confirm)"
  unfolding passreset_post_def set_new_password_def issue_resetkey_def
  by (intro keeps_intros) (auto simp: whos_same who_def intro!: keeps_intros split: option.split)

lemma keeps_cannot_edit [keeps_intros]: "keeps P (cannot_edit self user)"
  by (auto simp: cannot_edit_def intro!: keeps_intros split: requester.split option.split)

lemma keeps_with_account [keeps_intros]: "(\<And>self u. keeps P (f self u)) \<Longrightarrow> keeps P (with_account cfg rq username f)"
  unfolding with_account_def by (intro keeps_intros)

lemma keeps_verify_redirect [keeps_intros]: "keeps P (verify_redirect step)"
  by (simp add: verify_redirect_def keeps_ret)

lemma keeps_who_resend: "keeps_who P (account_verify_resend cfg rq username)"
  unfolding account_verify_resend_def by (intro keeps_intros) (simp add: whos_same who_def issue_def)

definition mark_verified :: "nat \<Rightarrow> (nat \<times> nat \<times> string \<times> string option \<times> bool) list
    \<Rightarrow> (nat \<times> nat \<times> string \<times> string option \<times> bool) list" where
  "mark_verified uid ws = map (\<lambda>x. if fst x = uid then (case x of (i, t, e, n, v) \<Rightarrow> (i, t, e, n, True)) else x) ws"

lemma verify_whos:
  "let W' = whos (the_db (snd (account_verify token w))) in W' = whos (the_db w)
    \<or> (\<exists>u \<in> set (Users (the_db w)). u_EmailVerificationToken u = Some token \<and> \<not> is_expired (now w) u
        \<and> W' = mark_verified (u_ID u) (whos (the_db w)))"
proof -
  have "whos (d\<lparr>Users := update_where (\<lambda>x. u_ID x = uid) (\<lambda>x. x\<lparr>u_EmailVerified := True,
      u_EmailVerificationToken := None, u_EmailVerificationExpiry := None\<rparr>) (Users d)\<rparr>) = mark_verified uid (whos d)" for d uid
    unfolding mark_verified_def by (rule whos_update) (simp add: who_def)
  then show ?thesis
    unfolding Let_def snd_wp [where P = "\<lambda>w'. whos (the_db w') = whos (the_db w)
      \<or> (\<exists>u \<in> set (Users (the_db w)). u_EmailVerificationToken u = Some token \<and> \<not> is_expired (now w) u
        \<and> whos (the_db w') = mark_verified (u_ID u) (whos (the_db w)))"]
    by (auto simp: account_verify_def verify_redirect_def wp_simps split: option.split dest!: find_SomeD)
qed

lemma wp_insert_userI:
  "Q () (w\<lparr>the_db := (the_db w)\<lparr>Users := Users (the_db w) @ [u]\<rparr>\<rparr>) \<Longrightarrow>
    (\<And>e. E e w) \<Longrightarrow> wp (insert_user u) Q E w"
  by (simp add: insert_user_def wp_simps)

definition registered :: "config \<Rightarrow> form \<Rightarrow> nat \<Rightarrow> nat \<times> nat \<times> string \<times> string option \<times> bool" where
  "registered cfg args i = (i, USER_ID, field args ''E'', Some (normalize_email cfg (field args ''E'')), False)"

lemma who_new_user: "field args ''E'' \<noteq> [] \<Longrightarrow> who (issue cfg token ts (new_user cfg args i resetkey\<lparr>u_RegistrationTS := t\<rparr>)) = registered cfg args i"
  by (simp add: who_def issue_def new_user_def set_email_def users_default_def registered_def)

lemma wp_create_account:
  assumes "whos (the_db w) = W" and "field args ''E'' \<noteq> []"
  shows "wp (create_account cfg args resetkey)
    (\<lambda>_ w'. whos (the_db w') = W @ [registered cfg args (next_id (map fst W))]) (\<lambda>_ w'. whos (the_db w') = W) w"
proof -
  have "map fst W = map u_ID (Users (the_db w))"
    using assms(1) by (auto simp: whos_def who_def)
  moreover have "whos (d\<lparr>Users := Users d @ [u]\<rparr>) = whos d @ [who u]" for d u
    by (simp add: whos_def)
  ultimately show ?thesis
    using assms unfolding create_account_def
    by (auto simp: wp_simps insert_ssh_keys_def who_new_user intro!: wp_insert_userI split: option.split)
qed

lemma register_whos:
  "let args = without_spaces form; W = whos (the_db w); W' = whos (the_db (snd (account_register_post cfg rq form w))) in
    W' = W \<or> (passed cfg rq AnonymousUser args w \<and> W' = W @ [registered cfg args (next_id (map fst W))])"
proof -
  let ?args = "without_spaces form" and ?W = "whos (the_db w)"
  let ?R = "\<lambda>w'. whos (the_db w') = ?W
    \<or> (passed cfg rq AnonymousUser ?args w \<and> whos (the_db w') = ?W @ [registered cfg ?args (next_id (map fst ?W))])"
  have "wp (account_register_post cfg rq form) (\<lambda>_. ?R) (\<lambda>_. ?R) w"
  proof (cases "rq_user rq")
    case AnonymousUser
    show ?thesis
      unfolding account_register_post_def requires_guest_def AnonymousUser is_authenticated.simps if_False Let_def wp_andthen
    proof (rule wp_process_account_form)
      assume passed: "passed cfg rq AnonymousUser ?args w"
      have E: "field ?args ''E'' \<noteq> []"
        using passed_email [OF passed] by simp
      have c: "wp (create_account cfg ?args resetkey) (\<lambda>_. ?R) (\<lambda>_. ?R) (w\<lparr>draws := n\<rparr>)" for resetkey n
        by (rule wp_mono [OF wp_create_account [OF _ E]]) (use passed in auto)
      show "wp (case (True, []) of (ok, errors) \<Rightarrow>
          if \<not> ok then ret (Page 400 ''register.html'' errors)
          else if field ?args ''captcha'' = [] then ret (Page 400 ''register.html'' [''The CAPTCHA is missing.''])
          else andthen (make_random_string cfg 32) (\<lambda>resetkey.
            email_race (field ?args ''E'') (create_account cfg ?args resetkey) (\<lambda>uid.
              seqp (send (WelcomeNotification uid)) (seqp (send (VerificationNotification uid))
              (ret (Page 200 ''register.html'' [])))) ''register.html'')) (\<lambda>_. ?R) (\<lambda>_. ?R) w"
        by (simp add: wp_if wp_ret wp_andthen wp_random_string)
          (intro impI wp_email_race wp_mono [OF c]; simp add: wp_seqp wp_send wp_ret)
    qed (simp_all add: wp_if wp_ret)
  next
    case (LoggedIn u)
    then show ?thesis
      by (simp add: account_register_post_def requires_guest_def wp_ret)
  qed
  then show ?thesis
    unfolding Let_def snd_wp [where P = ?R] .
qed

lemma delete_whos:
  "let W' = whos (the_db (snd (account_delete_post cfg rq name passwd confirm w))) in
    W' = whos (the_db w) \<or> (\<exists>uid. W' = filter (\<lambda>x. fst x \<noteq> uid) (whos (the_db w)))"
proof -
  have gone: "whos (delete_users (\<lambda>u. u_ID u = uid) (d\<lparr>PackageComments := cs\<rparr>)) = filter (\<lambda>x. fst x \<noteq> uid) (whos d)" for uid d cs
    by (simp add: whos_def delete_users_def Let_def delete_where_def filter_map o_def who_def)
  show ?thesis
    unfolding Let_def snd_wp [where P = "\<lambda>w'. whos (the_db w') = whos (the_db w)
      \<or> (\<exists>uid. whos (the_db w') = filter (\<lambda>x. fst x \<noteq> uid) (whos (the_db w)))"]
    by (auto simp: account_delete_post_def requires_auth_def deletable_def get_user_by_name_def orm_delete_user_def
        wp_simps gone Let_def simp del: has_credential.simps split: requester.split option.split)
qed

text \<open>One step of the accounts, whatever form is sent and whatever becomes of it.\<close>

definition account_step :: "config \<Rightarrow> request \<Rightarrow> account_form \<Rightarrow> world \<Rightarrow> (nat \<times> nat \<times> string \<times> string option \<times> bool) list \<Rightarrow> bool" where
  "account_step cfg rq a w ws \<longleftrightarrow> ws = whos (the_db w) \<or> (case a of
     Register form \<Rightarrow> passed cfg rq AnonymousUser (without_spaces form) w
       \<and> ws = whos (the_db w) @ [registered cfg (without_spaces form) (next_id (map fst (whos (the_db w))))]
   | Verify token \<Rightarrow> \<exists>u \<in> set (Users (the_db w)). u_EmailVerificationToken u = Some token \<and> \<not> is_expired (now w) u
       \<and> ws = mark_verified (u_ID u) (whos (the_db w))
   | Edit username form \<Rightarrow> \<exists>self u. rq_user rq = LoggedIn self \<and> u \<in> set (Users (the_db w)) \<and> u_Username u = username
       \<and> can_edit_user self u \<and> passed cfg rq (LoggedIn u) (without_spaces form) w
       \<and> edited cfg (u_ID u) (without_spaces form) (whos (the_db w)) ws
   | Delete_Account name passwd confirm \<Rightarrow> \<exists>uid. ws = filter (\<lambda>x. fst x \<noteq> uid) (whos (the_db w))
   | _ \<Rightarrow> False)"

lemma account_route_step: "account_step cfg rq a w (whos (the_db (snd (account_route cfg rq a w))))"
proof (cases a)
  case (Passreset user resetkey password confirm)
  then show ?thesis
    using keepsD [OF keeps_who_passreset [where P = "\<lambda>ws. ws = whos (the_db w)"], of w]
    by (simp add: account_step_def db_inv_def)
next
  case (Verify_Resend username)
  then show ?thesis
    using keepsD [OF keeps_who_resend [where P = "\<lambda>ws. ws = whos (the_db w)"], of w]
    by (simp add: account_step_def db_inv_def)
next
  case (Edit username form)
  show ?thesis
  proof (cases "rq_user rq")
    case AnonymousUser
    have "keeps ((=) w) (account_edit_post cfg rq username form)"
      by (rule keepsI) (auto simp: account_edit_post_def with_account_def AnonymousUser intro!: wp_visitor)
    from keepsD [OF this refl] Edit show ?thesis
      by (simp add: account_step_def)
  next
    case (LoggedIn self)
    with Edit edit_whos [OF LoggedIn, of form w cfg username] show ?thesis
      by (auto simp: account_step_def Let_def)
  qed
qed (use register_whos verify_whos delete_whos in \<open>auto simp: account_step_def Let_def\<close>)

end
