(* ===== verification/Account_Safety.thy ===== *)
theory Account_Safety
  imports Account_Props
begin

text \<open>
  What holds of the accounts whatever account form is sent: who may raise an account type, that no
  two accounts have one address, that only the link of the mail verifies an address, and that only
  the key of the mail resets a password.
\<close>

section \<open>From rows to accounts\<close>

lemma who_in: "u \<in> set (Users d) \<Longrightarrow> who u \<in> set (whos d)"
  by (simp add: whos_def)

lemma whoE:
  assumes "x \<in> set (whos d)"
  obtains u where "u \<in> set (Users d)" "x = who u"
  using assms by (auto simp: whos_def)

text \<open>Who may change account types, and to what.\<close>

lemma passed_type:
  assumes "passed cfg rq (LoggedIn u) args w" and "rq_user rq = LoggedIn self"
    and "args ''T'' = Some s" and "py_int 10 s = Some T"
  shows "nat T = u_AccountTypeID u \<or> (is_elevated (LoggedIn self) \<and> nat T \<in> {1..4} \<and> nat T \<le> u_AccountTypeID self)"
proof -
  have "has_credential (LoggedIn self) ACCOUNT_CHANGE_TYPE [] \<longleftrightarrow> is_elevated (LoggedIn self)"
    by (auto simp: creds_has_credential_def user_in_def is_elevated_def package_maintainer_or_dev_def)
  moreover have "nat T \<in> {1..4}" if "account_type_name T \<noteq> None"
    using that by (auto simp: account_type_name_def ACCOUNT_TYPE_NAME_def ACCOUNT_TYPE_ID_def account_type_ids split: if_splits)
  ultimately show ?thesis
    using passed_account_type [OF assms(1,3)] assms(2,4) by (auto simp: nat_le_iff)
qed

text \<open>
  C15. Account types after any account form: an account keeps its type, or is new and an ordinary
  user's, or was edited by an elevated user who may edit it, and then has one of the four types and none
  above the editor's.
\<close>

theorem account_types_bounded:
  assumes "distinct (map u_ID (Users (the_db w)))"
    and "u' \<in> set (Users (the_db (snd (account_route cfg rq a w))))"
  shows "(\<exists>u \<in> set (Users (the_db w)). u_ID u = u_ID u' \<and> u_AccountTypeID u' = u_AccountTypeID u)
    \<or> (\<exists>form. a = Register form) \<and> u_ID u' \<notin> user_ids (the_db w) \<and> u_AccountTypeID u' = USER_ID
    \<or> (\<exists>self u username form. a = Edit username form \<and> rq_user rq = LoggedIn self \<and> is_elevated (LoggedIn self)
        \<and> u \<in> set (Users (the_db w)) \<and> u_ID u = u_ID u' \<and> can_edit_user self u
        \<and> u_AccountTypeID u' \<in> {1..4} \<and> u_AccountTypeID u' \<le> u_AccountTypeID self)"
proof -
  let ?W = "whos (the_db w)" and ?W' = "whos (the_db (snd (account_route cfg rq a w)))"
  have old: "(\<exists>u \<in> set (Users (the_db w)). u_ID u = u_ID u' \<and> u_AccountTypeID u' = u_AccountTypeID u)"
    if "x \<in> set ?W" "fst x = u_ID u'" "fst (snd x) = u_AccountTypeID u'" for x
    using that by (elim whoE) (auto simp: who_def)
  have u': "who u' \<in> set ?W'"
    using assms(2) by (rule who_in)
  have moved: "\<exists>u \<in> set (Users (the_db w)). u_ID u = u_ID u' \<and> u_AccountTypeID u' = u_AccountTypeID u"
    if r: "(u_ID u', u_AccountTypeID u', r) \<in> set (readdress cfg uid E ?W)" for r uid E
  proof -
    obtain x where "x \<in> set ?W" "(u_ID u', u_AccountTypeID u', r) = (if fst x = uid then new_address cfg E x else x)"
      using r unfolding readdress_def set_map by (elim imageE)
    then show ?thesis
      by (intro old [of x]) (cases x; auto split: if_splits)+
  qed
  note step = account_route_step [of cfg rq a w, unfolded account_step_def]
  from step show ?thesis
  proof
    assume "?W' = ?W"
    with u' old [of "who u'"] show ?thesis
      by (simp add: who_def)
  next
    assume s: "case a of
       Register form \<Rightarrow> passed cfg rq AnonymousUser (without_spaces form) w
         \<and> ?W' = ?W @ [registered cfg (without_spaces form) (next_id (map fst ?W))]
     | Verify token \<Rightarrow> \<exists>u \<in> set (Users (the_db w)). u_EmailVerificationToken u = Some token \<and> \<not> is_expired (now w) u
         \<and> ?W' = mark_verified (u_ID u) ?W
     | Edit username form \<Rightarrow> \<exists>self u. rq_user rq = LoggedIn self \<and> u \<in> set (Users (the_db w)) \<and> u_Username u = username
         \<and> can_edit_user self u \<and> passed cfg rq (LoggedIn u) (without_spaces form) w
         \<and> edited cfg (u_ID u) (without_spaces form) ?W ?W'
     | Delete_Account name passwd confirm \<Rightarrow> \<exists>uid. ?W' = filter (\<lambda>x. fst x \<noteq> uid) ?W
     | _ \<Rightarrow> False"
    show ?thesis
    proof (cases a)
      case (Register form)
      have "map fst ?W = map u_ID (Users (the_db w))"
        by (simp add: whos_def who_def)
      with s u' Register old [of "who u'"] show ?thesis
        using next_id_fresh [of "map fst ?W"] by (simp add: who_def registered_def user_ids_def) (elim disjE; force)
    next
      case (Verify token)
      with s u' old show ?thesis
        by (fastforce simp: mark_verified_def who_def split: if_splits)
    next
      case (Edit username form)
      then obtain self u where e: "rq_user rq = LoggedIn self" "u \<in> set (Users (the_db w))" "can_edit_user self u"
        "passed cfg rq (LoggedIn u) (without_spaces form) w" "edited cfg (u_ID u) (without_spaces form) ?W ?W'"
        using s by auto
      from e(5) show ?thesis
        unfolding edited_def
      proof (elim disjE exE conjE)
        assume "?W' = readdress cfg (u_ID u) (field (without_spaces form) ''E'') ?W"
        with u' show ?thesis
          by (intro disjI1 moved) (simp add: who_def)
      next
        fix s T
        assume t: "without_spaces form ''T'' = Some s" "py_int 10 s = Some T"
          "?W' = retype (u_ID u) (nat T) (readdress cfg (u_ID u) (field (without_spaces form) ''E'') ?W)"
        show ?thesis
        proof (cases "u_ID u' = u_ID u")
          case False
          with u' t(3) have "who u' \<in> set (readdress cfg (u_ID u) (field (without_spaces form) ''E'') ?W)"
            by (auto simp: retype_def who_def split: if_splits)
          then show ?thesis
            by (intro disjI1 moved) (simp add: who_def)
        next
          case True
          with u' t(3) have "u_AccountTypeID u' = nat T"
            by (auto simp: retype_def who_def split: if_splits)
          with passed_type [OF e(4,1) t(1,2)] True e Edit show ?thesis
            by auto
        qed
      qed
    qed (use s u' old in \<open>auto simp: who_def\<close>)
  qed
qed

text \<open>An edit: alice makes bob a package maintainer.\<close>

definition demo_edit :: form where
  "demo_edit = [''U'' \<mapsto> ''bob'', ''E'' \<mapsto> ''bob@example.org'', ''T'' \<mapsto> ''2'', ''passwd'' \<mapsto> ''alice'']"

definition demo_edited :: world where
  "demo_edited = snd (account_route default_config (demo_form demo_alice) (Edit ''bob'' demo_edit) demo_world)"

lemma demo_ids: "distinct (map u_ID (Users demo_db))" "0 \<notin> user_ids demo_db"
  by (code_simp+)

theorem account_types_bounded_witness:
  "let u' = Users (the_db demo_edited) ! 1 in u_AccountTypeID u' = 2
    \<and> ((\<exists>u \<in> set (Users demo_db). u_ID u = u_ID u' \<and> u_AccountTypeID u' = u_AccountTypeID u)
    \<or> (\<exists>form. Edit ''bob'' demo_edit = Register form) \<and> u_ID u' \<notin> user_ids demo_db \<and> u_AccountTypeID u' = USER_ID
    \<or> (\<exists>self u username form. Edit ''bob'' demo_edit = Edit username form \<and> rq_user (demo_form demo_alice) = LoggedIn self
        \<and> is_elevated (LoggedIn self) \<and> u \<in> set (Users demo_db) \<and> u_ID u = u_ID u' \<and> can_edit_user self u
        \<and> u_AccountTypeID u' \<in> {1..4} \<and> u_AccountTypeID u' \<le> u_AccountTypeID self))"
proof -
  have l: "length (Users (the_db demo_edited)) = 4" "u_AccountTypeID (Users (the_db demo_edited) ! 1) = 2"
    by (code_simp+)
  then have "Users (the_db demo_edited) ! 1 \<in> set (Users (the_db demo_edited))"
    by (intro nth_mem) simp
  from account_types_bounded [of demo_world, unfolded demo_the_db, OF demo_ids(1) this [unfolded demo_edited_def]] l(2)
  show ?thesis
    unfolding Let_def demo_edited_def by blast
qed

text \<open>
  Addresses: the stored normal form is that of the address, and an account that has one shares its
  normal form with no other account.
\<close>

definition mails_ok :: "config \<Rightarrow> db \<Rightarrow> bool" where
  "mails_ok cfg d \<longleftrightarrow>
     (\<forall>u \<in> set (Users d). u_NormalizedEmail u = None \<or> u_NormalizedEmail u = Some (normalize_email cfg (u_Email u)))
   \<and> (\<forall>u \<in> set (Users d). \<forall>v \<in> set (Users d). u_ID u \<noteq> u_ID v \<longrightarrow> u_NormalizedEmail u \<noteq> None
        \<longrightarrow> normalize_email cfg (u_Email u) \<noteq> normalize_email cfg (u_Email v))"

definition mail_of :: "nat \<times> nat \<times> string \<times> string option \<times> bool \<Rightarrow> string" where
  "mail_of x = fst (snd (snd x))"

definition normal_of :: "nat \<times> nat \<times> string \<times> string option \<times> bool \<Rightarrow> string option" where
  "normal_of x = fst (snd (snd (snd x)))"

lemma mail_simps [simp]: "mail_of (i, t, e, n, v) = e" "normal_of (i, t, e, n, v) = n"
  by (simp_all add: mail_of_def normal_of_def)

definition whos_mails_ok :: "config \<Rightarrow> (nat \<times> nat \<times> string \<times> string option \<times> bool) list \<Rightarrow> bool" where
  "whos_mails_ok cfg ws \<longleftrightarrow>
     (\<forall>x \<in> set ws. normal_of x = None \<or> normal_of x = Some (normalize_email cfg (mail_of x)))
   \<and> (\<forall>x \<in> set ws. \<forall>y \<in> set ws. fst x \<noteq> fst y \<longrightarrow> normal_of x \<noteq> None
        \<longrightarrow> normalize_email cfg (mail_of x) \<noteq> normalize_email cfg (mail_of y))"

lemma mails_ok_whos: "mails_ok cfg d \<longleftrightarrow> whos_mails_ok cfg (whos d)"
  by (simp add: mails_ok_def whos_mails_ok_def whos_def who_def)

lemma whos_mails_okD:
  "whos_mails_ok cfg ws \<Longrightarrow> x \<in> set ws \<Longrightarrow> normal_of x = None \<or> normal_of x = Some (normalize_email cfg (mail_of x))"
  "whos_mails_ok cfg ws \<Longrightarrow> x \<in> set ws \<Longrightarrow> y \<in> set ws \<Longrightarrow> fst x \<noteq> fst y \<Longrightarrow> normal_of x \<noteq> None \<Longrightarrow>
     normalize_email cfg (mail_of x) \<noteq> normalize_email cfg (mail_of y)"
  unfolding whos_mails_ok_def by blast+

lemma mails_subset: "whos_mails_ok cfg ws \<Longrightarrow> set vs \<subseteq> set ws \<Longrightarrow> whos_mails_ok cfg vs"
  unfolding whos_mails_ok_def by blast

lemma mails_same:
  assumes "whos_mails_ok cfg ws" and "map (\<lambda>x. (fst x, mail_of x, normal_of x)) vs = map (\<lambda>x. (fst x, mail_of x, normal_of x)) ws"
  shows "whos_mails_ok cfg vs"
proof -
  have "\<exists>y \<in> set ws. fst y = fst x \<and> mail_of y = mail_of x \<and> normal_of y = normal_of x" if "x \<in> set vs" for x
  proof -
    have "(fst x, mail_of x, normal_of x) \<in> set (map (\<lambda>x. (fst x, mail_of x, normal_of x)) ws)"
      using that assms(2) [symmetric] by simp
    then obtain y where "y \<in> set ws" "(fst x, mail_of x, normal_of x) = (fst y, mail_of y, normal_of y)"
      unfolding set_map by (elim imageE)
    then show ?thesis by auto
  qed
  with assms(1) show ?thesis
    unfolding whos_mails_ok_def by metis
qed

text \<open>An address that is not taken can be given to one account.\<close>

definition untaken :: "config \<Rightarrow> nat \<Rightarrow> string \<Rightarrow> (nat \<times> nat \<times> string \<times> string option \<times> bool) list \<Rightarrow> bool" where
  "untaken cfg uid E ws \<longleftrightarrow> (\<forall>x \<in> set ws. fst x \<noteq> uid \<longrightarrow> normalize_email cfg (mail_of x) \<noteq> normalize_email cfg E)"

lemma not_taken:
  assumes "mails_ok cfg d" and "\<not> email_taken cfg uid E d"
  shows "untaken cfg uid E (whos d)"
  using assms by (fastforce simp: untaken_def email_taken_def list_ex_iff mails_ok_def whos_def who_def split: option.splits)

lemma mails_append:
  assumes "whos_mails_ok cfg ws" and "untaken cfg uid E ws" and "uid \<notin> fst ` set ws"
  shows "whos_mails_ok cfg (ws @ [(uid, t, E, Some (normalize_email cfg E), v)])"
  using assms unfolding whos_mails_ok_def untaken_def by fastforce

lemma mails_readdress:
  assumes "whos_mails_ok cfg ws" and "untaken cfg uid E ws \<or> (\<forall>x \<in> set ws. fst x = uid \<longrightarrow> mail_of x = E)"
  shows "whos_mails_ok cfg (readdress cfg uid E ws)"
proof -
  have f: "fst (new_address cfg E x) = fst x" for x
    by (cases x) simp
  have new: "normal_of (new_address cfg E x) = None \<or> normal_of (new_address cfg E x) = Some (normalize_email cfg (mail_of (new_address cfg E x)))"
    if "x \<in> set ws" for x
    using assms(1) that by (cases x) (auto simp: whos_mails_ok_def)
  have same: "new_address cfg E x = x \<or> mail_of (new_address cfg E x) = E \<and> untaken cfg uid E ws"
    if "x \<in> set ws" "fst x = uid" for x
    using assms(2) that by (cases x) auto
  let ?g = "\<lambda>x. if fst x = uid then new_address cfg E x else x"
  have "normalize_email cfg (mail_of (?g x)) \<noteq> normalize_email cfg (mail_of (?g y))"
    if xy: "x \<in> set ws" "y \<in> set ws" "fst x \<noteq> fst y" "normal_of (?g x) \<noteq> None" for x y
  proof -
    consider "?g x = x" "?g y = y" | "fst x = uid" "fst y \<noteq> uid" "mail_of (?g x) = E" "untaken cfg uid E ws"
      | "fst y = uid" "fst x \<noteq> uid" "mail_of (?g y) = E" "untaken cfg uid E ws"
      using same [OF xy(1)] same [OF xy(2)] xy(3) by (cases "fst x = uid"; cases "fst y = uid") auto
    then show ?thesis
      using whos_mails_okD(2) [OF assms(1) xy(1-3)] xy by cases (auto simp: untaken_def)
  qed
  moreover have fst: "fst (?g x) = fst x" for x
    by (simp add: f)
  moreover have "normal_of (?g x) = None \<or> normal_of (?g x) = Some (normalize_email cfg (mail_of (?g x)))" if "x \<in> set ws" for x
    using new [OF that] whos_mails_okD(1) [OF assms(1) that] by simp
  ultimately show ?thesis
    unfolding whos_mails_ok_def readdress_def set_map ball_simps(9) fst by (intro conjI ballI impI)
qed

lemma passed_valid_email:
  assumes "passed cfg rq user args w"
  shows "valid_email cfg (field args ''E'')"
proof -
  have "invalid_email cfg rq user args w = (Inr (), w)"
    by (rule passed_check [OF assms]) (simp add: checks_def)
  moreover have "wp (invalid_email cfg rq user args) (\<lambda>_ _. valid_email cfg (field args ''E'')) (\<lambda>_ _. True) w"
    by (simp add: invalid_email_def reject_def wp_simps Let_def)
  ultimately show ?thesis
    by (auto dest: wpI_Inr)
qed

text \<open>
  C16. No account form gives two accounts one address: addresses are compared by their normal form
  (aliases of one mailbox are one address), and accounts of old without a stored normal form are
  compared by the one their address has.
\<close>

theorem addresses_stay_unique:
  assumes "distinct (map u_ID (Users (the_db w)))" and "mails_ok cfg (the_db w)" and "\<not> valid_email cfg ''N/A''"
    and "0 \<notin> user_ids (the_db w)"
  shows "mails_ok cfg (the_db (snd (account_route cfg rq a w)))"
proof -
  let ?W = "whos (the_db w)" and ?W' = "whos (the_db (snd (account_route cfg rq a w)))"
  have W: "whos_mails_ok cfg ?W"
    using assms(2) by (simp add: mails_ok_whos)
  note step = account_route_step [of cfg rq a w, unfolded account_step_def]
  have "whos_mails_ok cfg ?W'"
  proof (cases "?W' = ?W")
    case False
    show ?thesis
    proof (cases a)
      case (Register form)
      let ?args = "without_spaces form"
      have p: "passed cfg rq AnonymousUser ?args w" and W': "?W' = ?W @ [registered cfg ?args (next_id (map fst ?W))]"
        using step False Register by auto
      have "\<not> email_taken cfg 0 (field ?args ''E'') (the_db w)"
        using passed_email [OF p] passed_valid_email [OF p] assms(3) by auto
      then have "\<not> email_taken cfg (next_id (map fst ?W)) (field ?args ''E'') (the_db w)"
        using assms(4) by (auto simp: email_taken_def list_ex_iff user_ids_def intro: rev_image_eqI)
      from mails_append [OF W not_taken [OF assms(2) this]] W' next_id_fresh [of "map fst ?W"] show ?thesis
        by (simp add: registered_def)
    next
      case (Verify token)
      show ?thesis
        by (rule mails_same [OF W]) (use step False Verify in \<open>auto simp: mark_verified_def split: prod.split\<close>)
    next
      case (Edit username form)
      let ?args = "without_spaces form"
      from step False Edit obtain u where u: "u \<in> set (Users (the_db w))" "passed cfg rq (LoggedIn u) ?args w"
        "edited cfg (u_ID u) ?args ?W ?W'"
        by auto
      have "\<forall>x \<in> set ?W. fst x = u_ID u \<longrightarrow> mail_of x = u_Email u"
        using u(1) assms(1) by (auto elim!: whoE simp: who_def dest: distinct_map_inj)
      then have "whos_mails_ok cfg (readdress cfg (u_ID u) (field ?args ''E'') ?W)"
        using passed_email [OF u(2)] by (intro mails_readdress [OF W]) (auto intro: not_taken [OF assms(2)])
      with u(3) show ?thesis
        by (auto simp: edited_def retype_def mail_of_def normal_of_def intro: mails_same)
    qed (use W step False in \<open>auto intro: mails_subset\<close>)
  qed (use W in simp)
  then show ?thesis
    by (simp add: mails_ok_whos)
qed

theorem addresses_stay_unique_witness: "mails_ok default_config (the_db demo_edited)"
proof -
  have "mails_ok default_config demo_db" "\<not> valid_email default_config ''N/A''"
    by (code_simp+)
  from addresses_stay_unique [of demo_world, unfolded demo_the_db, OF demo_ids(1) this demo_ids(2)] show ?thesis
    unfolding demo_edited_def .
qed

text \<open>
  C17. A verified address was verified: after any account form an account whose address counts as verified
  had that address before, and it was verified then, or the form is the link with the token that was
  mailed to it and that has not expired.
\<close>

theorem verified_by_link:
  assumes "distinct (map u_ID (Users (the_db w)))"
    and "u' \<in> set (Users (the_db (snd (account_route cfg rq a w))))" and "u_EmailVerified u'"
  shows "\<exists>u \<in> set (Users (the_db w)). u_ID u = u_ID u' \<and> u_Email u = u_Email u'
    \<and> (u_EmailVerified u \<or> (\<exists>token. a = Verify token \<and> u_EmailVerificationToken u = Some token \<and> \<not> is_expired (now w) u))"
proof -
  let ?W = "whos (the_db w)" and ?W' = "whos (the_db (snd (account_route cfg rq a w)))"
  have old: ?thesis if "x \<in> set ?W" "fst x = u_ID u'" "mail_of x = u_Email u'" "snd (snd (snd (snd x)))" for x
    using that by (elim whoE) (auto simp: who_def)
  have u': "who u' \<in> set ?W'" "snd (snd (snd (snd (who u'))))"
    using who_in [OF assms(2)] assms(3) by (simp_all add: who_def)
  have moved: ?thesis
    if r: "(u_ID u', t, u_Email u', n, True) \<in> set (readdress cfg uid E ?W)" for t n uid E
  proof -
    obtain x where "x \<in> set ?W" "(u_ID u', t, u_Email u', n, True) = (if fst x = uid then new_address cfg E x else x)"
      using r unfolding readdress_def set_map by (elim imageE)
    then show ?thesis
      by (intro old [of x]) (cases x; auto split: if_splits)+
  qed
  note step = account_route_step [of cfg rq a w, unfolded account_step_def]
  show ?thesis
  proof (cases "?W' = ?W")
    case True
    with u' old [of "who u'"] show ?thesis
      by (simp add: who_def)
  next
    case False
    show ?thesis
    proof (cases a)
      case (Register form)
      with step False have "?W' = ?W @ [registered cfg (without_spaces form) (next_id (map fst ?W))]"
        by simp
      with u' old [of "who u'"] show ?thesis
        by (auto simp: registered_def who_def)
    next
      case (Verify token)
      with step False obtain v where v: "v \<in> set (Users (the_db w))" "u_EmailVerificationToken v = Some token"
        "\<not> is_expired (now w) v" "?W' = mark_verified (u_ID v) ?W"
        by auto
      then obtain u where u: "u \<in> set (Users (the_db w))"
        "who u' = (if u_ID u = u_ID v then (u_ID u, u_AccountTypeID u, u_Email u, u_NormalizedEmail u, True) else who u)"
        using u'(1) unfolding mark_verified_def whos_def by (auto simp: who_def)
      show ?thesis
      proof (cases "u_ID u = u_ID v")
        case True
        with u(1) v(1) assms(1) have "u = v"
          by (auto dest: distinct_map_inj)
        with u v Verify show ?thesis
          by (auto simp: who_def)
      next
        case False
        with u u'(2) show ?thesis
          by (auto simp: who_def)
      qed
    next
      case (Edit username form)
      then obtain uid where "edited cfg uid (without_spaces form) ?W ?W'"
        using step False by auto
      then have "\<exists>t. (u_ID u', t, u_Email u', u_NormalizedEmail u', True) \<in> set (readdress cfg uid (field (without_spaces form) ''E'') ?W)"
        using u'(1) assms(3) by (auto simp: edited_def retype_def who_def split: if_splits; blast)
      with moved show ?thesis
        by blast
    qed (use step False u' old in \<open>auto simp: who_def\<close>)
  qed
qed

definition demo_token :: world where
  "demo_token = demo_world\<lparr>the_db := demo_db\<lparr>Users := [(demo_user 4 ''mallory'' 1)\<lparr>
     u_EmailVerificationToken := Some ''t0ken'', u_EmailVerificationExpiry := Some 2000\<rparr>]\<rparr>\<rparr>"

definition demo_verified :: world where
  "demo_verified = snd (account_route default_config demo_visitor (Verify ''t0ken'') demo_token)"

theorem verified_by_link_witness:
  "\<exists>u \<in> set (Users (the_db demo_token)). u_ID u = 4 \<and> u_Email u = u_Email (hd (Users (the_db demo_verified)))
    \<and> (u_EmailVerified u \<or> (\<exists>token. Verify ''t0ken'' = Verify token \<and> u_EmailVerificationToken u = Some token
        \<and> \<not> is_expired (now demo_token) u))"
proof -
  have v: "hd (Users (the_db demo_verified)) \<in> set (Users (the_db demo_verified))"
    "u_EmailVerified (hd (Users (the_db demo_verified)))" "u_ID (hd (Users (the_db demo_verified))) = 4"
    "distinct (map u_ID (Users (the_db demo_token)))"
    by (code_simp+)
  from verified_by_link [OF v(4) v(1)[unfolded demo_verified_def] v(2) [unfolded demo_verified_def]] v(3)
  show ?thesis
    unfolding demo_verified_def by simp
qed

section \<open>Resetting a password\<close>

lemma passreset_leaves:
  "let d = the_db w; d' = the_db (snd (passreset_post cfg rq user resetkey password confirm w)) in
    map (\<lambda>u. (u_ID u, u_Passwd u)) (Users d') = map (\<lambda>u. (u_ID u, u_Passwd u)) (Users d)
    \<or> (\<exists>u p. u \<in> set (Users d) \<and> (u_Username u = user \<or> u_Email u = user) \<and> \<not> u_Suspended u
        \<and> resetkey = Some (u_ResetKey u) \<and> u_ResetKey u \<noteq> [] \<and> password = Some p \<and> confirm = Some p
        \<and> passwd_min_len cfg \<le> length p
        \<and> d' = d\<lparr>Sessions := delete_where (\<lambda>s. ss_UsersID s = u_ID u) (Sessions d),
             Users := update_where (\<lambda>x. u_ID x = u_ID u) (\<lambda>x. x\<lparr>u_ResetKey := [], u_Passwd := hashpw cfg p\<rparr>) (Users d)\<rparr>)"
  unfolding Let_def
  by (subst snd_wp [where P = "\<lambda>w'. map (\<lambda>u. (u_ID u, u_Passwd u)) (Users (the_db w')) = map (\<lambda>u. (u_ID u, u_Passwd u)) (Users (the_db w))
    \<or> (\<exists>u p. u \<in> set (Users (the_db w)) \<and> (u_Username u = user \<or> u_Email u = user) \<and> \<not> u_Suspended u
        \<and> resetkey = Some (u_ResetKey u) \<and> u_ResetKey u \<noteq> [] \<and> password = Some p \<and> confirm = Some p
        \<and> passwd_min_len cfg \<le> length p
        \<and> the_db w' = (the_db w)\<lparr>Sessions := delete_where (\<lambda>s. ss_UsersID s = u_ID u) (Sessions (the_db w)),
             Users := update_where (\<lambda>x. u_ID x = u_ID u) (\<lambda>x. x\<lparr>u_ResetKey := [], u_Passwd := hashpw cfg p\<rparr>) (Users (the_db w))\<rparr>)"])
    (auto simp: passreset_post_def requires_guest_def set_new_password_def issue_resetkey_def reset_refused_def wp_simps
      map_update_where_same split: option.splits if_splits dest!: find_SomeD)

text \<open>
  C18. The password reset form changes the password of one account only, which is not suspended, and only
  for whoever has the reset key that was mailed to it and repeats a long enough password. The key is then
  spent, the sessions of the account are ended, and the new password is the one that signs in.
\<close>

theorem password_reset:
  assumes "distinct (map u_ID (Users (the_db w)))" and "u \<in> set (Users (the_db w))"
    and "u' \<in> set (Users (the_db (snd (passreset_post cfg rq user resetkey password confirm w))))"
    and "u_ID u' = u_ID u" and "u_Passwd u' \<noteq> u_Passwd u" and "\<And>p. checkpw cfg p (hashpw cfg p) = Some True"
  shows "\<exists>p. (u_Username u = user \<or> u_Email u = user) \<and> \<not> u_Suspended u
    \<and> resetkey = Some (u_ResetKey u) \<and> u_ResetKey u \<noteq> [] \<and> password = Some p \<and> confirm = Some p
    \<and> passwd_min_len cfg \<le> length p \<and> u_ResetKey u' = [] \<and> fst (valid_password cfg u' (Some p))
    \<and> session_of (u_ID u) (the_db (snd (passreset_post cfg rq user resetkey password confirm w))) = None"
proof (rule disjE [OF passreset_leaves [of w cfg rq user resetkey password confirm, unfolded Let_def]])
  let ?d' = "the_db (snd (passreset_post cfg rq user resetkey password confirm w))"
  assume "map (\<lambda>u. (u_ID u, u_Passwd u)) (Users ?d') = map (\<lambda>u. (u_ID u, u_Passwd u)) (Users (the_db w))"
  moreover have "(u_ID u', u_Passwd u') \<in> set (map (\<lambda>u. (u_ID u, u_Passwd u)) (Users ?d'))"
    using assms(3) by simp
  ultimately have "(u_ID u', u_Passwd u') \<in> set (map (\<lambda>u. (u_ID u, u_Passwd u)) (Users (the_db w)))"
    by (simp only:)
  then obtain v where "v \<in> set (Users (the_db w))" "u_ID v = u_ID u'" "u_Passwd v = u_Passwd u'"
    by auto
  with distinct_map_inj [OF assms(1), of v u] assms(2,4,5) show ?thesis
    by simp
next
  let ?d' = "the_db (snd (passreset_post cfg rq user resetkey password confirm w))"
  assume "\<exists>u p. u \<in> set (Users (the_db w)) \<and> (u_Username u = user \<or> u_Email u = user) \<and> \<not> u_Suspended u
    \<and> resetkey = Some (u_ResetKey u) \<and> u_ResetKey u \<noteq> [] \<and> password = Some p \<and> confirm = Some p
    \<and> passwd_min_len cfg \<le> length p \<and> ?d' = (the_db w)\<lparr>Sessions := delete_where (\<lambda>s. ss_UsersID s = u_ID u) (Sessions (the_db w)),
       Users := update_where (\<lambda>x. u_ID x = u_ID u) (\<lambda>x. x\<lparr>u_ResetKey := [], u_Passwd := hashpw cfg p\<rparr>) (Users (the_db w))\<rparr>"
  then obtain v p where v: "v \<in> set (Users (the_db w))" "u_Username v = user \<or> u_Email v = user" "\<not> u_Suspended v"
    "resetkey = Some (u_ResetKey v)" "u_ResetKey v \<noteq> []" "password = Some p" "confirm = Some p" "passwd_min_len cfg \<le> length p"
    "?d' = (the_db w)\<lparr>Sessions := delete_where (\<lambda>s. ss_UsersID s = u_ID v) (Sessions (the_db w)),
       Users := update_where (\<lambda>x. u_ID x = u_ID v) (\<lambda>x. x\<lparr>u_ResetKey := [], u_Passwd := hashpw cfg p\<rparr>) (Users (the_db w))\<rparr>"
    by blast
  obtain x where x: "x \<in> set (Users (the_db w))"
    "u' = (if u_ID x = u_ID v then x\<lparr>u_ResetKey := [], u_Passwd := hashpw cfg p\<rparr> else x)"
    using assms(3) unfolding v(9) by (auto simp: set_update_where)
  then have "u_ID x = u_ID u"
    using assms(4) by (simp split: if_splits)
  with assms(1) x(1) assms(2) have "x = u"
    by (rule distinct_map_inj)
  with assms(5) x(2) have "u_ID u = u_ID v"
    by (auto split: if_splits)
  with assms(1,2) v(1) have "u = v"
    by (rule distinct_map_inj)
  with v x \<open>x = u\<close> assms(6) show ?thesis
    by (simp add: valid_password_def session_of_def find_None_iff table_simps)
qed

text \<open>Bob asks for a key and uses it.\<close>

definition demo_mailed :: world where
  "demo_mailed = snd (passreset_post default_config demo_visitor ''bob'' None None None demo_world)"

definition demo_key :: string where
  "demo_key = replicate 32 (CHR ''0'')"

theorem password_reset_witness:
  "\<exists>p. Some ''longenough'' = Some p \<and> Some demo_key = Some (u_ResetKey (Users (the_db demo_mailed) ! 1))
    \<and> session_of 2 (the_db (snd (passreset_post default_config demo_visitor ''bob'' (Some demo_key)
       (Some ''longenough'') (Some ''longenough'') demo_mailed))) = None"
proof -
  let ?u = "Users (the_db demo_mailed) ! 1"
  let ?u' = "Users (the_db (snd (passreset_post default_config demo_visitor ''bob'' (Some demo_key)
       (Some ''longenough'') (Some ''longenough'') demo_mailed))) ! 1"
  have c: "distinct (map u_ID (Users (the_db demo_mailed)))" "?u \<in> set (Users (the_db demo_mailed))"
    "?u' \<in> set (Users (the_db (snd (passreset_post default_config demo_visitor ''bob'' (Some demo_key)
       (Some ''longenough'') (Some ''longenough'') demo_mailed))))"
    "u_ID ?u' = u_ID ?u" "u_Passwd ?u' \<noteq> u_Passwd ?u" "u_ID ?u = 2"
    by (code_simp+)
  have "checkpw default_config p (hashpw default_config p) = Some True" for p
    by (simp add: default_config_def startswith_def)
  from password_reset [OF c(1-5) this] show ?thesis
    unfolding c(6) by blast
qed

end
