(* ===== verification/Service_Terms.thy ===== *)
theory Service_Terms
  imports Web
begin

text \<open>
  The terms of service: the middleware \<open>check_terms_of_service\<close> of \<open>aurweb/asgi.py\<close> and the routes
  \<open>/tos\<close> of \<open>aurweb/routers/accounts.py\<close>.
\<close>

section \<open>Outstanding terms\<close>

text \<open>The middleware counts, for the user, the accepted terms in their current revision.\<close>

definition accepted_count :: "nat \<Rightarrow> db \<Rightarrow> nat" where
  "accepted_count uid d = length (concat (map (\<lambda>t. filter (\<lambda>a. at_UsersID a = uid \<and> at_TermsID a = tm_ID t
     \<and> tm_Revision t \<le> at_Revision a) (AcceptedTerms d)) (Terms d)))"

definition terms_outstanding :: "nat \<Rightarrow> db \<Rightarrow> bool" where
  "terms_outstanding uid d \<longleftrightarrow> accepted_count uid d < length (Terms d)"

text \<open>The middleware wraps any answer: \<open>answer\<close> turns its redirect into one.\<close>

definition terms_middleware :: "(response \<Rightarrow> 'r) \<Rightarrow> request \<Rightarrow> 'r aur \<Rightarrow> 'r aur" where
  "terms_middleware answer rq call_next = (case rq_user rq of
     AnonymousUser \<Rightarrow> call_next
   | LoggedIn u \<Rightarrow> if rq_path rq = ''/tos'' then call_next
       else andthen (query (terms_outstanding (u_ID u))) (\<lambda>outstanding.
         if outstanding then ret (answer (Redirect ''/tos'')) else call_next))"

definition check_terms_of_service :: "request \<Rightarrow> response aur \<Rightarrow> response aur" where
  "check_terms_of_service = terms_middleware (\<lambda>r. r)"

text \<open>The routes ask about the acceptance of anybody: the queries do not name the user.\<close>

definition diffs :: "db \<Rightarrow> terms_row list" where
  "diffs d = filter (\<lambda>t. list_ex (\<lambda>a. at_TermsID a = tm_ID t \<and> at_Revision a < tm_Revision t) (AcceptedTerms d)) (Terms d)"

definition unaccepted :: "db \<Rightarrow> terms_row list" where
  "unaccepted d = filter (\<lambda>t. \<not> list_ex (\<lambda>a. at_TermsID a = tm_ID t) (AcceptedTerms d)) (Terms d)"

text \<open>\<open>sorted\<close> of objects that have no order fails as soon as it compares two.\<close>

definition sorted_terms :: "terms_row list \<Rightarrow> terms_row list aur" where
  "sorted_terms ts = (if length ts < 2 then ret ts else throw Py_TypeError)"

definition render_terms_of_service :: "terms_row list \<Rightarrow> response aur" where
  "render_terms_of_service terms = ret (if terms = [] then Redirect ''/'' else Page 200 ''tos/index.html'' [])"

definition terms_of_service :: "config \<Rightarrow> request \<Rightarrow> response aur" where
  "terms_of_service cfg rq = requires_auth cfg rq (\<lambda>u.
     andthen (query (\<lambda>d. unaccepted d @ diffs d)) (\<lambda>terms.
     andthen (sorted_terms terms) render_terms_of_service))"

text \<open>
  The key of \<open>AcceptedTerm\<close> in the ORM is the ID of the terms alone, so an UPDATE of the acceptance of
  one user reaches those of all users, and the ORM refuses it when there are several.
\<close>

definition accept_revision :: "nat \<Rightarrow> terms_row \<Rightarrow> unit aur" where
  "accept_revision uid t = andthen
     (query (\<lambda>d. List.find (\<lambda>a. at_UsersID a = uid \<and> at_TermsID a = tm_ID t) (AcceptedTerms d))) (\<lambda>accepted_term.
     andthen (the_or Py_AttributeError accepted_term) (\<lambda>a.
     andthen (query (\<lambda>d. count_where (\<lambda>x. at_TermsID x = tm_ID t) (AcceptedTerms d))) (\<lambda>n.
     whenp (at_Revision a \<noteq> tm_Revision t) (seqp (guard (n = 1) StaleDataError)
     (execute (\<lambda>d. d\<lparr>AcceptedTerms := update_where (\<lambda>x. at_TermsID x = tm_ID t)
       (\<lambda>x. x\<lparr>at_Revision := tm_Revision t\<rparr>) (AcceptedTerms d)\<rparr>))))))"

definition accept_terms :: "nat \<Rightarrow> terms_row list \<Rightarrow> terms_row list \<Rightarrow> unit aur" where
  "accept_terms uid bumped new = transaction (
     seqp (for_each bumped (accept_revision uid))
     (execute (\<lambda>d. d\<lparr>AcceptedTerms := AcceptedTerms d @
       map (\<lambda>t. \<lparr>at_UsersID = uid, at_TermsID = tm_ID t, at_Revision = tm_Revision t\<rparr>) new\<rparr>)))"

definition terms_of_service_post :: "config \<Rightarrow> request \<Rightarrow> bool \<Rightarrow> response aur" where
  "terms_of_service_post cfg rq accept = requires_auth cfg rq (\<lambda>u.
     andthen (query diffs) (\<lambda>bumped. andthen (query unaccepted) (\<lambda>new.
     if \<not> accept then andthen (sorted_terms (new @ bumped)) render_terms_of_service
     else seqp (accept_terms (u_ID u) bumped new) (ret (Redirect ''/'')))))"

section \<open>The constraints\<close>

lemma keeps_check_terms [keeps_intros]: "keeps P m \<Longrightarrow> keeps P (check_terms_of_service rq m)"
  by (auto simp: check_terms_of_service_def terms_middleware_def intro!: keeps_intros split: requester.split)

lemma ok_AcceptedTerms_insert:
  assumes "db_ok_on U B d" and "\<And>a. a \<in> set rows \<Longrightarrow> at_UsersID a \<in> U"
  shows "db_ok_on U B (d\<lparr>AcceptedTerms := AcceptedTerms d @ rows\<rparr>)"
  by (rule db_ok_onI [OF assms(1)])
    (use assms(2) in \<open>auto simp: wf_db_def unique_ok_def refs_ok_def user_ids_def base_ids_def\<close>)

lemma ok_AcceptedTerms_update:
  assumes "db_ok_on U B d" and "\<And>a. at_UsersID (f a) = at_UsersID a"
  shows "db_ok_on U B (d\<lparr>AcceptedTerms := update_where p f (AcceptedTerms d)\<rparr>)"
  by (rule db_ok_onI [OF assms(1)])
    (use assms(2) in \<open>simp_all add: wf_db_def unique_ok_def refs_ok_def user_ids_def base_ids_def ball_update_where\<close>)

lemma ok_terms_of_service: "keeps P (terms_of_service cfg rq)"
  unfolding terms_of_service_def sorted_terms_def render_terms_of_service_def by (intro keeps_intros)

lemma ok_terms_of_service_post:
  assumes "known U rq"
  shows "keeps_ok U B (terms_of_service_post cfg rq accept)"
proof -
  have "keeps_ok U B (accept_revision uid t)" for uid t
    unfolding accept_revision_def by (intro keeps_intros ok_AcceptedTerms_update) simp_all
  then have "keeps_ok U B (accept_terms uid bumped new)" if "uid \<in> U" for uid bumped new
    unfolding accept_terms_def using that by (intro keeps_intros ok_AcceptedTerms_insert) auto
  then show ?thesis
    unfolding terms_of_service_post_def sorted_terms_def render_terms_of_service_def
    using assms by (intro keeps_intros) (auto simp: known_def)
qed

section \<open>Accepting the terms\<close>

lemma accepted_count_append:
  "accepted_count uid (d\<lparr>AcceptedTerms := AcceptedTerms d @ rows\<rparr>)
     = accepted_count uid d + accepted_count uid (d\<lparr>AcceptedTerms := rows\<rparr>)"
proof -
  have "length (concat (map (\<lambda>t. filter (P t) (xs @ ys)) ts))
      = length (concat (map (\<lambda>t. filter (P t) xs) ts)) + length (concat (map (\<lambda>t. filter (P t) ys) ts))"
    for P :: "terms_row \<Rightarrow> acceptedterms_row \<Rightarrow> bool" and xs ys ts
    by (induction ts) simp_all
  then show ?thesis
    by (simp add: accepted_count_def)
qed

lemma accepted_count_new:
  assumes "distinct (map tm_ID (Terms d))" and "set ts \<subseteq> set (Terms d)" and "distinct ts"
  shows "accepted_count uid (d\<lparr>AcceptedTerms := map (\<lambda>t. \<lparr>at_UsersID = uid, at_TermsID = tm_ID t, at_Revision = tm_Revision t\<rparr>) ts\<rparr>)
    = length ts"
proof -
  let ?row = "\<lambda>t. \<lparr>at_UsersID = uid, at_TermsID = tm_ID t, at_Revision = tm_Revision t\<rparr>"
  let ?p = "\<lambda>t a. at_UsersID a = uid \<and> at_TermsID a = tm_ID t \<and> tm_Revision t \<le> at_Revision a"
  define rows where "rows = map ?row ts"
  have one: "length (filter (?p t) rows) = (if t \<in> set ts then 1 else 0)" if "t \<in> set (Terms d)" for t
  proof -
    have "filter (?p t \<circ> ?row) ts = filter (\<lambda>s. s = t) ts"
      by (rule filter_cong [OF refl]) (use assms(1,2) that in \<open>auto dest: distinct_map_inj\<close>)
    moreover have "length (filter (\<lambda>s. s = t) ts) = (if t \<in> set ts then 1 else 0)"
      using assms(3) by (induction ts) (auto simp: filter_empty_conv)
    ultimately show ?thesis
      by (simp add: filter_map rows_def)
  qed
  have dist: "distinct (Terms d)"
    using assms(1) by (simp add: distinct_map)
  have "length (concat (map (\<lambda>t. filter (?p t) rows) us)) = length (filter (\<lambda>t. t \<in> set ts) us)"
    if "set us \<subseteq> set (Terms d)" for us
    using that by (induction us) (auto simp: one)
  from this [of "Terms d"] have "accepted_count uid (d\<lparr>AcceptedTerms := map ?row ts\<rparr>) = length (filter (\<lambda>t. t \<in> set ts) (Terms d))"
    by (simp add: accepted_count_def rows_def)
  also have "\<dots> = card (set ts)"
  proof -
    have "set (filter (\<lambda>t. t \<in> set ts) (Terms d)) = set ts"
      using assms(2) by auto
    with distinct_card [of "filter (\<lambda>t. t \<in> set ts) (Terms d)"] dist show ?thesis
      by simp
  qed
  also have "\<dots> = length ts"
    using assms(3) by (rule distinct_card)
  finally show ?thesis .
qed

text \<open>
  The first user who accepts the terms gets in: when nobody has accepted an older revision, and the
  user has accepted the terms that somebody has accepted, then the form of the terms, accepted,
  makes every later request of the user pass the check.
\<close>

theorem accepting_lets_in:
  assumes "rq_user rq = LoggedIn u" and "distinct (map tm_ID (Terms (the_db w)))" and "diffs (the_db w) = []"
    and "\<And>t. t \<in> set (Terms (the_db w)) \<Longrightarrow> t \<notin> set (unaccepted (the_db w)) \<Longrightarrow>
      \<exists>a \<in> set (AcceptedTerms (the_db w)). at_UsersID a = u_ID u \<and> at_TermsID a = tm_ID t \<and> tm_Revision t \<le> at_Revision a"
    and "rq_user rq' = LoggedIn u" and "w' = snd (terms_of_service_post cfg rq True w)"
  shows "check_terms_of_service rq' m w' = m w'"
proof -
  let ?d = "the_db w" and ?new = "unaccepted (the_db w)"
  let ?rows = "map (\<lambda>t. \<lparr>at_UsersID = u_ID u, at_TermsID = tm_ID t, at_Revision = tm_Revision t\<rparr>) ?new"
  have "terms_of_service_post cfg rq True w = (Inr (Redirect ''/''), w\<lparr>the_db := ?d\<lparr>AcceptedTerms := AcceptedTerms ?d @ ?rows\<rparr>\<rparr>)"
    unfolding terms_of_service_post_def requires_auth_def assms(1) requester.case
    by (rule run_eqI) (simp add: accept_terms_def wp_simps assms(3))
  then have w': "the_db w' = ?d\<lparr>AcceptedTerms := AcceptedTerms ?d @ ?rows\<rparr>"
    using assms(6) by simp
  have dist: "distinct (Terms ?d)"
    using assms(2) by (simp add: distinct_map)
  let ?p = "\<lambda>t a. at_UsersID a = u_ID u \<and> at_TermsID a = tm_ID t \<and> tm_Revision t \<le> at_Revision a"
  have "length (filter (\<lambda>t. t \<notin> set ?new) ts) \<le> length (concat (map (\<lambda>t. filter (?p t) (AcceptedTerms ?d)) ts))"
    if "set ts \<subseteq> set (Terms ?d)" for ts
    using that
  proof (induction ts)
    case (Cons t ts)
    have "0 < length (filter (?p t) (AcceptedTerms ?d))" if "t \<notin> set ?new"
      using assms(4) [OF _ that] Cons.prems by (auto simp: filter_empty_conv)
    with Cons show ?case
      by (cases "t \<in> set ?new") (auto simp del: length_greater_0_conv)
  qed simp
  from this [of "Terms ?d"] have old: "length (filter (\<lambda>t. t \<notin> set ?new) (Terms ?d)) \<le> accepted_count (u_ID u) ?d"
    by (simp add: accepted_count_def)
  have "accepted_count (u_ID u) (?d\<lparr>AcceptedTerms := ?rows\<rparr>) = length ?new"
    using accepted_count_new [OF assms(2), of ?new "u_ID u"] dist by (simp add: unaccepted_def)
  moreover have "length ?new + length (filter (\<lambda>t. t \<notin> set ?new) (Terms ?d)) = length (Terms ?d)"
    using sum_length_filter_compl [of "\<lambda>t. \<not> list_ex (\<lambda>a. at_TermsID a = tm_ID t) (AcceptedTerms ?d)" "Terms ?d"]
    by (simp add: unaccepted_def cong: filter_cong)
  ultimately have "\<not> terms_outstanding (u_ID u) (the_db w')"
    using old by (simp add: terms_outstanding_def w' accepted_count_append)
  then show ?thesis
    by (simp add: check_terms_of_service_def terms_middleware_def assms(5) query_def gets_def andthen_def)
qed

text \<open>
  C19. The others stay out: once somebody has accepted every term in its current revision, a user who has
  not is sent to \<open>/tos\<close> by every other page, \<open>/tos\<close> sends the user back to \<open>/\<close> without showing any term,
  and sending the form of the terms changes nothing.
\<close>

theorem others_locked_out:
  assumes "rq_user rq = LoggedIn u"
    and "\<And>t. t \<in> set (Terms (the_db w)) \<Longrightarrow> \<exists>a \<in> set (AcceptedTerms (the_db w)). at_TermsID a = tm_ID t"
    and "\<And>t a. t \<in> set (Terms (the_db w)) \<Longrightarrow> a \<in> set (AcceptedTerms (the_db w)) \<Longrightarrow> at_TermsID a = tm_ID t \<Longrightarrow> tm_Revision t \<le> at_Revision a"
    and "terms_outstanding (u_ID u) (the_db w)"
  shows "(rq_path rq \<noteq> ''/tos'' \<longrightarrow> check_terms_of_service rq m w = (Inr (Redirect ''/tos''), w))
    \<and> terms_of_service cfg rq w = (Inr (Redirect ''/''), w)
    \<and> terms_of_service_post cfg rq accept w = (Inr (Redirect ''/''), w)"
proof -
  have none: "diffs (the_db w) = []" "unaccepted (the_db w) = []"
    using assms(2,3) by (auto simp: diffs_def unaccepted_def filter_empty_conv list_ex_iff linorder_not_less)
  then have "terms_of_service cfg rq w = (Inr (Redirect ''/''), w)"
    unfolding terms_of_service_def requires_auth_def assms(1) requester.case
    by (intro run_eqI) (simp add: sorted_terms_def render_terms_of_service_def wp_simps)
  moreover have "terms_of_service_post cfg rq accept w = (Inr (Redirect ''/''), w)"
    unfolding terms_of_service_post_def requires_auth_def assms(1) requester.case
    by (rule run_eqI) (simp add: none accept_terms_def sorted_terms_def render_terms_of_service_def wp_simps)
  ultimately show ?thesis
    using assms(4) by (simp add: check_terms_of_service_def terms_middleware_def assms(1) query_def gets_def andthen_def ret_def)
qed

definition demo_terms :: world where
  "demo_terms = demo_world\<lparr>the_db := demo_db\<lparr>Terms := [\<lparr>tm_ID = 1, tm_Description = ''rules'', tm_URL = ''x'', tm_Revision = 2\<rparr>]\<rparr>\<rparr>"

theorem accepting_lets_in_witness:
  "check_terms_of_service (demo_form demo_alice) login_get (snd (terms_of_service_post default_config (demo_form demo_alice) True demo_terms))
    = login_get (snd (terms_of_service_post default_config (demo_form demo_alice) True demo_terms))"
proof -
  have d: "rq_user (demo_form demo_alice) = LoggedIn demo_alice" "distinct (map tm_ID (Terms (the_db demo_terms)))"
    "diffs (the_db demo_terms) = []" "unaccepted (the_db demo_terms) = Terms (the_db demo_terms)"
    by (code_simp+)
  show ?thesis
    by (rule accepting_lets_in [OF d(1-3) _ d(1) refl]) (simp add: d(4))
qed

theorem others_locked_out_witness:
  "terms_of_service_post default_config (demo_form demo_bob) True
     (snd (terms_of_service_post default_config (demo_form demo_alice) True demo_terms))
   = (Inr (Redirect ''/''), snd (terms_of_service_post default_config (demo_form demo_alice) True demo_terms))"
proof -
  let ?w = "snd (terms_of_service_post default_config (demo_form demo_alice) True demo_terms)"
  have d: "rq_user (demo_form demo_bob) = LoggedIn demo_bob" "terms_outstanding (u_ID demo_bob) (the_db ?w)"
    "Terms (the_db ?w) = [\<lparr>tm_ID = 1, tm_Description = ''rules'', tm_URL = ''x'', tm_Revision = 2\<rparr>]"
    "AcceptedTerms (the_db ?w) = [\<lparr>at_UsersID = 1, at_TermsID = 1, at_Revision = 2\<rparr>]"
    by (code_simp+)
  from others_locked_out [OF d(1) _ _ d(2), where cfg = default_config and accept = True and m = login_get] show ?thesis
    by (simp add: d(3,4))
qed

end
