(* ===== verification/Git_Auth.thy ===== *)
theory Git_Auth
  imports Git_Serve
begin

text \<open>
  Which user an SSH key signs in: \<open>aurweb/git/auth.py\<close>, the \<open>AuthorizedKeysCommand\<close> of the SSH
  server. It prints a line for the server's list of authorized keys that runs \<open>aurweb/git/serve.py\<close>
  for the owner of the key.
\<close>

section \<open>The command for a key\<close>

text \<open>
  The section \<open>auth\<close> of the configuration: \<open>username-regex\<close> as the predicate that \<open>re.match\<close> decides,
  the command of the SSH interface and the options of the line. The list \<open>valid-keytypes\<close> is that of
  the account options.
\<close>

record auth_options =
  auth_username_regex :: "string \<Rightarrow> bool"
  git_serve_cmd :: string
  ssh_options :: string

text \<open>\<open>command.replace(...)\<close> puts a backslash before every double quote.\<close>

definition escape_dquotes :: "string \<Rightarrow> string" where
  "escape_dquotes s = replace_char (CHR 0x22) [CHR 0x5C, CHR 0x22] s"

definition env_words :: "(string \<times> string) list \<Rightarrow> string" where
  "env_words env_vars = concat (map (\<lambda>(key, var). key @ ''='' @ shlex_quote var @ '' '') env_vars)"

definition format_command :: "(string \<times> string) list \<Rightarrow> string \<Rightarrow> string \<Rightarrow> string \<Rightarrow> string" where
  "format_command env_vars command ssh_opts ssh_key =
     ''command='' @ [CHR 0x22] @ escape_dquotes (env_words env_vars @ shlex_quote command)
     @ [CHR 0x22] @ '','' @ ssh_opts @ '' '' @ ssh_key"

text \<open>The rows of the query: every pair of an active user with a password and that key.\<close>

definition may_sign_in :: "users_row \<Rightarrow> bool" where
  "may_sign_in u \<longleftrightarrow> \<not> u_Suspended u \<and> u_Passwd u \<noteq> []"

definition auth_rows :: "string \<Rightarrow> db \<Rightarrow> (string \<times> nat) list" where
  "auth_rows key d = concat (map (\<lambda>u. map (\<lambda>_. (u_Username u, u_AccountTypeID u))
     (filter (\<lambda>k. sk_UserID k = u_ID u \<and> sk_PubKey k = key \<and> may_sign_in u) (SSHPubKeys d))) (Users d))"

definition auth_env :: "string \<Rightarrow> nat \<Rightarrow> (string \<times> string) list" where
  "auth_env user account_type =
     [(''AUR_USER'', user), (''AUR_PRIVILEGED'', if account_type > 1 then ''1'' else ''0'')]"

definition argument :: "string list \<Rightarrow> nat \<Rightarrow> string aur" where
  "argument argv i = the_or Py_IndexError (if i < length argv then Some (argv ! i) else None)"

definition git_auth :: "config \<Rightarrow> auth_options \<Rightarrow> string list \<Rightarrow> unit aur" where
  "git_auth cfg opts argv =
     andthen (argument argv 1) (\<lambda>keytype. andthen (argument argv 2) (\<lambda>keytext.
     seqp (guard (keytype \<in> set (valid_keytypes (accounts cfg))) (SystemExit 1))
     (andthen (query (auth_rows (keytype @ '' '' @ keytext))) (\<lambda>rows. case rows of
        [(user, account_type)] \<Rightarrow>
          seqp (guard (auth_username_regex opts user) (SystemExit 1))
          (print (format_command (auth_env user account_type) (git_serve_cmd opts)
             (ssh_options opts) (keytype @ '' '' @ keytext)))
      | _ \<Rightarrow> throw (SystemExit 1)))))"

section \<open>What the SSH server and the shell read\<close>

text \<open>
  The SSH server takes a backslash before a double quote out of a quoted option
  (\<open>AUTHORIZED_KEYS FILE FORMAT\<close> in its manual), and the shell splits the command into words.
\<close>

fun dequote :: "string \<Rightarrow> string" where
  "dequote [] = []"
| "dequote [c] = [c]"
| "dequote (c # d # s) = (if c = CHR 0x5C \<and> d = CHR 0x22 then CHR 0x22 # dequote s else c # dequote (d # s))"

lemma escape_dquotes_simps [simp]:
  "escape_dquotes [] = []"
  "escape_dquotes (c # s) = (if c = CHR 0x22 then [CHR 0x5C, CHR 0x22] else [c]) @ escape_dquotes s"
  by (simp_all add: escape_dquotes_def replace_char_def)

lemma hd_escape_dquotes: "escape_dquotes s = d # t \<Longrightarrow> d \<noteq> CHR 0x22"
  by (cases s) (auto split: if_splits)

lemma dequote_Cons: "(c = CHR 0x5C \<Longrightarrow> s \<noteq> [] \<Longrightarrow> hd s \<noteq> CHR 0x22) \<Longrightarrow> dequote (c # s) = c # dequote s"
  by (cases s) auto

lemma dequote_escape [simp]: "dequote (escape_dquotes s) = s"
proof (induction s)
  case (Cons c s)
  have "hd (escape_dquotes s) \<noteq> CHR 0x22" if "escape_dquotes s \<noteq> []"
    using that hd_escape_dquotes by (cases "escape_dquotes s") auto
  with Cons.IH show ?case
    by (auto simp: dequote_Cons)
qed simp

text \<open>A quoted value behind a plain prefix is still one word.\<close>

lemma shlex_prefixed_word:
  assumes "list_all shlex_safe (c # p)"
  shows "shlex_go Space [] False ((c # p) @ shlex_quote s @ r)
    = (if list_all shlex_safe s \<and> s \<noteq> [] then shlex_go Word (c # p @ s) False r
       else shlex_go Word (c # p @ s) True r)"
proof -
  have "shlex_go Space [] False ((c # p) @ shlex_quote s @ r) = shlex_go Word (c # p) False (shlex_quote s @ r)"
    using assms shlex_safe_plain [of c] by (simp add: shlex_word_safe)
  also have "\<dots> = (if list_all shlex_safe s \<and> s \<noteq> [] then shlex_go Word (c # p @ s) False r
       else shlex_go Word (c # p @ s) True r)"
  proof (cases "s \<noteq> [] \<and> list_all shlex_safe s")
    case True
    then show ?thesis
      by (simp add: shlex_quote_def shlex_word_safe)
  next
    case False
    then show ?thesis
      using shlex_squote_body [of "c # p" False s r]
      by (auto simp: shlex_quote_def shlex_space_def)
  qed
  finally show ?thesis .
qed

lemma shlex_env_word:
  assumes "list_all shlex_safe (c # p)"
  shows "shlex_split ((c # p) @ shlex_quote s @ '' '' @ r)
    = map_option (\<lambda>ws. (c # p @ s) # ws) (shlex_split r)"
  unfolding shlex_split_def shlex_prefixed_word [OF assms]
  by (simp add: emit_def shlex_space_def append_single)

lemma words_of_command:
  "shlex_split (env_words (auth_env user account_type) @ shlex_quote cmd)
   = Some [''AUR_USER='' @ user, ''AUR_PRIVILEGED='' @ (if account_type > 1 then ''1'' else ''0''), cmd]"
proof -
  have safe: "list_all shlex_safe ''AUR_USER=''" "list_all shlex_safe ''AUR_PRIVILEGED=''"
    by code_simp+
  show ?thesis
    using shlex_env_word [OF safe(1), of user
        "''AUR_PRIVILEGED='' @ shlex_quote (if account_type > 1 then ''1'' else ''0'') @ '' '' @ shlex_quote cmd"]
      shlex_env_word [OF safe(2), of "if account_type > 1 then ''1'' else ''0''" "shlex_quote cmd"]
      shlex_quoting.split_last [of cmd]
    by (simp add: env_words_def auth_env_def)
qed

section \<open>Whose key it is\<close>

lemma concat_single_unique:
  "concat (map g us) = [r] \<Longrightarrow> u \<in> set us \<Longrightarrow> v \<in> set us \<Longrightarrow> g u \<noteq> [] \<Longrightarrow> g v \<noteq> [] \<Longrightarrow> u = v"
  by (induction us) (auto simp: append_eq_Cons_conv)

definition owns_key :: "string \<Rightarrow> db \<Rightarrow> users_row \<Rightarrow> bool" where
  "owns_key key d u \<longleftrightarrow> u \<in> set (Users d) \<and> may_sign_in u
     \<and> (\<exists>k \<in> set (SSHPubKeys d). sk_UserID k = u_ID u \<and> sk_PubKey k = key)"

lemma auth_rows_single:
  assumes "auth_rows key d = [(user, account_type)]"
  obtains u where "owns_key key d u" "u_Username u = user" "u_AccountTypeID u = account_type"
    "\<And>v. owns_key key d v \<Longrightarrow> v = u"
proof -
  from assms have "(user, account_type) \<in> set (auth_rows key d)"
    by simp
  then obtain u where u: "owns_key key d u" "u_Username u = user" "u_AccountTypeID u = account_type"
    by (auto simp: auth_rows_def owns_key_def)
  moreover have "v = u" if "owns_key key d v" for v
    by (rule concat_single_unique [OF assms [unfolded auth_rows_def]])
      (use that u in \<open>auto simp: owns_key_def filter_empty_conv\<close>)
  ultimately show thesis
    using that by blast
qed

lemma wp_argument [wp_simps]:
  "wp (argument argv i) Q E w = (if i < length argv then Q (argv ! i) w else E Py_IndexError w)"
  by (simp add: argument_def wp_simps)

lemma git_auth_ok:
  assumes "git_auth cfg opts argv w = (Inr (), w')"
  obtains user account_type where
    "2 < length argv" "argv ! 1 \<in> set (valid_keytypes (accounts cfg))"
    "auth_rows (argv ! 1 @ '' '' @ argv ! 2) (the_db w) = [(user, account_type)]"
    "auth_username_regex opts user"
    "w' = w\<lparr>stdout := stdout w @ [format_command (auth_env user account_type) (git_serve_cmd opts)
       (ssh_options opts) (argv ! 1 @ '' '' @ argv ! 2)]\<rparr>"
proof -
  have "wp (git_auth cfg opts argv) (\<lambda>_ w'. \<exists>user account_type. 2 < length argv
      \<and> argv ! 1 \<in> set (valid_keytypes (accounts cfg))
      \<and> auth_rows (argv ! 1 @ '' '' @ argv ! 2) (the_db w) = [(user, account_type)]
      \<and> auth_username_regex opts user
      \<and> w' = w\<lparr>stdout := stdout w @ [format_command (auth_env user account_type) (git_serve_cmd opts)
         (ssh_options opts) (argv ! 1 @ '' '' @ argv ! 2)]\<rparr>) (\<lambda>_ _. True) w"
    unfolding git_auth_def
    by (auto simp: wp_simps split: list.split prod.split)
  with assms show thesis
    using that by (auto simp: wp_def)
qed


definition demo_auth :: auth_options where
  "demo_auth = \<lparr>auth_username_regex = (\<lambda>_. True), git_serve_cmd = ''/srv/git serve'', ssh_options = ''no-pty''\<rparr>"

definition demo_key :: world where
  "demo_key = demo_world\<lparr>the_db := demo_db\<lparr>Users := map (\<lambda>u. u\<lparr>u_Passwd := ''x''\<rparr>) (Users demo_db),
     SSHPubKeys := [\<lparr>sk_UserID = 1, sk_Fingerprint = ''f'', sk_PubKey = ''ssh-rsa AAAA''\<rparr>]\<rparr>\<rparr>"


end
