(* ===== verification/Git_Update.thy ===== *)
theory Git_Update
  imports Git_Auth Validators "HOL-Library.AList"
begin

text \<open>
  The update hook of the package repositories, \<open>aurweb/git/update_legacy.py\<close> (the default) and
  \<open>aurweb/git/update.py\<close> (with the option \<open>alpm-parser\<close>), on \<open>aurweb/git/update_common.py\<close>: it
  decides whether a push is accepted and stores the package metadata of the pushed \<open>.SRCINFO\<close>.

  Git objects are data: a tree is the list of its entries, each with its name and its ID. What the hook
  asks of libgit2 (a commit by its ID, the commits reachable from one and not from another, the entry of
  a tree under a path) is given with the repository; what it asks of the parsers of \<open>.SRCINFO\<close> is given
  by \<open>update_options\<close>.
\<close>

section \<open>Repositories\<close>

datatype git_object =
    Blob (object_name: string) (object_id: string) (blob_data: string)
  | Tree (object_name: string) (object_id: string) (entries: "git_object list")
  | Gitlink (object_name: string) (object_id: string)

record commit =
  c_id :: string
  c_tree :: "git_object list"
  c_path :: "string \<Rightarrow> git_object option"

text \<open>
  \<open>repo_walk new (Some old)\<close> are the commits a walker from \<open>new\<close> that hides \<open>old\<close> visits, in its order; None
  is the exception for an ID the repository does not have.
\<close>

record repository =
  repo_commit :: "string \<Rightarrow> commit option"
  repo_walk :: "string \<Rightarrow> string option \<Rightarrow> commit list option"

definition in_tree :: "string \<Rightarrow> commit \<Rightarrow> bool" where
  "in_tree path c \<longleftrightarrow> c_path c path \<noteq> None"

fun children :: "git_object \<Rightarrow> git_object list aur" where
  "children (Tree _ _ es) = ret es"
| "children _ = throw Py_TypeError"

fun is_blob :: "git_object \<Rightarrow> bool" where
  "is_blob (Blob _ _ _) = True"
| "is_blob _ = False"

fun is_tree :: "git_object \<Rightarrow> bool" where
  "is_tree (Tree _ _ _) = True"
| "is_tree _ = False"

text \<open>\<open>repo[entry.id].data\<close>: a tree has no data, and the commit of a submodule is not in the repository.\<close>

fun object_data :: "git_object \<Rightarrow> string aur" where
  "object_data (Blob _ _ s) = ret s"
| "object_data (Tree _ _ _) = throw Py_AttributeError"
| "object_data (Gitlink _ _) = throw Py_KeyError"

section \<open>The common part of the hooks\<close>

text \<open>
  \<open>size_humanize\<close>: the number is \<open>num / den\<close> with \<open>den\<close> a power of 1024; \<open>{:.2f}\<close> rounds half to even.
  Divisions by powers of two are exact in floating point for all sizes below \<open>2 ^ 53\<close>.
\<close>

definition round_half_even :: "int \<Rightarrow> int \<Rightarrow> int" where
  "round_half_even n d = (let q = n div d; r = n mod d in
     if 2 * r < d \<or> (2 * r = d \<and> even q) then q else q + 1)"

definition two_decimals :: "int \<Rightarrow> int \<Rightarrow> string" where
  "two_decimals num den = (let q = round_half_even (\<bar>num\<bar> * 100) den in
     (if num < 0 then ''-'' else []) @ str_int (q div 100) @ ''.''
     @ str_int (q mod 100 div 10) @ str_int (q mod 10))"

fun humanize_from :: "string list \<Rightarrow> int \<Rightarrow> int \<Rightarrow> string" where
  "humanize_from [] num den = two_decimals num den @ ''YiB''"
| "humanize_from (u # us) num den =
     (if \<bar>num\<bar> < 2048 * den
      then (if den = 1 then str_int num else two_decimals num den) @ u
      else humanize_from us num (den * 1024))"

definition size_humanize :: "int \<Rightarrow> string" where
  "size_humanize num =
     humanize_from [''B'', ''KiB'', ''MiB'', ''GiB'', ''TiB'', ''PiB'', ''EiB'', ''ZiB''] num 1"

text \<open>
  The hook has one connection to the database, on which it commits by hand: what it has not
  committed when it ends or raises is lost.
\<close>

definition commit_now :: "unit aur" where
  "commit_now = modify (\<lambda>w. w\<lparr>committed := the_db w\<rparr>)"

definition connection :: "'a aur \<Rightarrow> 'a aur" where
  "connection m w = (case m (w\<lparr>committed := the_db w\<rparr>) of (r, w') \<Rightarrow> (r, w'\<lparr>the_db := committed w'\<rparr>))"

definition hook_die :: "string \<Rightarrow> 'a aur" where
  "hook_die msg = seqp (write_err (''error: '' @ msg @ [nl])) (throw (SystemExit 1))"

definition hook_warn :: "string \<Rightarrow> unit aur" where
  "hook_warn msg = write_err (''warning: '' @ msg @ [nl])"

definition die_commit :: "string \<Rightarrow> string \<Rightarrow> 'a aur" where
  "die_commit msg commit =
     seqp (write_err (''error: The following error occurred when parsing commit'' @ [nl]))
     (seqp (write_err (''error: '' @ commit @ '':'' @ [nl]))
     (seqp (write_err (''error: '' @ msg @ [nl]))
     (throw (SystemExit 1))))"

definition require :: "bool \<Rightarrow> string \<Rightarrow> commit \<Rightarrow> unit aur" where
  "require ok msg c = (if ok then ret () else die_commit msg (c_id c))"

definition validate_blob_size :: "config \<Rightarrow> git_object \<Rightarrow> commit \<Rightarrow> unit aur" where
  "validate_blob_size cfg obj c =
     require (\<not> (is_blob obj \<and> int (length (blob_data obj)) > max_blob_size (limits cfg)))
       (''maximum blob size ('' @ size_humanize (max_blob_size (limits cfg)) @ '') exceeded'') c"

text \<open>An INSERT of a package base that a unique index may refuse; the name is the row's.\<close>

definition new_pkgbase :: "string \<Rightarrow> nat \<Rightarrow> int \<Rightarrow> db \<Rightarrow> packagebases_row" where
  "new_pkgbase pkgbase userid ts d = packagebases_default\<lparr>pb_ID := next_id (map pb_ID (PackageBases d)),
     pb_Name := pkgbase, pb_SubmittedTS := ts, pb_ModifiedTS := ts, pb_SubmitterUID := Some userid,
     pb_MaintainerUID := Some userid\<rparr>"

definition notify_row :: "nat \<Rightarrow> nat \<Rightarrow> packagenotifications_row" where
  "notify_row i userid = \<lparr>pn_PackageBaseID = i, pn_UserID = userid\<rparr>"

definition has_notification :: "nat \<Rightarrow> nat \<Rightarrow> db \<Rightarrow> bool" where
  "has_notification i userid d \<longleftrightarrow>
     list_ex (\<lambda>n. pn_PackageBaseID n = i \<and> pn_UserID n = userid) (PackageNotifications d)"

definition insert_notification :: "nat \<Rightarrow> nat \<Rightarrow> unit aur" where
  "insert_notification i userid = insert_unless (has_notification i userid)
     (\<lambda>d. d\<lparr>PackageNotifications := PackageNotifications d @ [notify_row i userid]\<rparr>)"

definition create_pkgbase :: "string \<Rightarrow> string \<Rightarrow> nat aur" where
  "create_pkgbase pkgbase user =
     andthen (fetch_userid user) (\<lambda>userid. andthen utcnow (\<lambda>ts.
     andthen (query (\<lambda>d. pb_ID (new_pkgbase pkgbase userid ts d))) (\<lambda>i.
     seqp (insert_unless (\<lambda>d. list_ex (\<lambda>b. pb_Name b = pkgbase) (PackageBases d))
       (\<lambda>d. d\<lparr>PackageBases := PackageBases d @ [new_pkgbase pkgbase userid ts d]\<rparr>))
     (seqp (insert_notification i userid)
     (seqp commit_now (ret i))))))"

definition update_notify :: "string \<Rightarrow> nat \<Rightarrow> unit aur" where
  "update_notify user pkgbase_id = andthen (fetch_userid user) (\<lambda>userid.
     send (UpdateNotification userid pkgbase_id))"

section \<open>The metadata of a package base\<close>

text \<open>
  What \<open>srcinfo.parse\<close> and \<open>srcinfo.utils\<close> give for a \<open>.SRCINFO\<close>: the name of the package base (None when the
  key is missing) and, per package name, the dictionary of \<open>get_merged_package\<close>, whose values are strings
  for some fields and lists of strings for the others.
\<close>

record pkginfo =
  pi_text :: "string \<Rightarrow> string option"
  pi_list :: "string \<Rightarrow> string list option"

record srcinfo =
  si_pkgbase :: "string option"
  si_packages :: "(string \<times> pkginfo) list"

text \<open>
  The parsers, with the errors they report (line and messages), \<open>bytes.decode()\<close> (None where it raises) and
  the lists of license identifiers and exceptions of the system.
\<close>

record update_options =
  parse_srcinfo :: "string \<Rightarrow> srcinfo \<times> (nat \<times> string list) list"
  decode_utf8 :: "string \<Rightarrow> string option"
  spdx_names :: "string list"

definition field_list :: "pkginfo \<Rightarrow> string \<Rightarrow> string list" where
  "field_list p field = (case pi_list p field of None \<Rightarrow> [] | Some vs \<Rightarrow> vs)"

text \<open>None is the \<open>KeyError\<close> of a package without \<open>arch\<close>.\<close>

definition extract_arch_fields :: "pkginfo \<Rightarrow> string \<Rightarrow> (string \<times> string option) list option" where
  "extract_arch_fields p field = map_option (\<lambda>arches.
     map (\<lambda>v. (v, None)) (field_list p field)
     @ concat (map (\<lambda>a. map (\<lambda>v. (v, Some a)) (field_list p (field @ ''_'' @ a))) arches)) (pi_list p ''arch'')"

text \<open>\<open>s.partition(sep)\<close> without the separator: what is before its first occurrence, and what is behind.\<close>

fun partition_at :: "string \<Rightarrow> string \<Rightarrow> string \<times> string" where
  "partition_at sep [] = ([], [])"
| "partition_at sep (c # s) = (if startswith (c # s) sep then ([], drop (length sep) (c # s))
     else (let (b, a) = partition_at sep s in (c # b, a)))"

text \<open>\<open>re.sub(r"(<|=|>).*", "", s)\<close>: every match runs to the end of its line.\<close>

definition is_comparison :: "char \<Rightarrow> bool" where
  "is_comparison c \<longleftrightarrow> c = CHR ''<'' \<or> c = CHR ''='' \<or> c = CHR ''>''"

function cut_comparisons :: "string \<Rightarrow> string" where
  "cut_comparisons [] = []"
| "cut_comparisons (c # s) = (if is_comparison c then cut_comparisons (dropWhile (\<lambda>x. x \<noteq> nl) s)
     else c # cut_comparisons s)"
  by pat_completeness auto
termination
  by (relation "measure length") (auto simp: le_imp_less_Suc length_dropWhile_le)

definition parse_dep :: "string \<Rightarrow> string \<times> string \<times> string" where
  "parse_dep depstring = (let (dep, desc) = partition_at '': '' depstring;
       depname = cut_comparisons dep in (depname, desc, drop (length depname) dep))"

text \<open>
  A dependency is its name, the comparison with a version and the description, and nothing is lost.
\<close>

lemma partition_at_append:
  "partition_at sep s = (b, a) \<Longrightarrow> sep \<noteq> [] \<Longrightarrow> s = b @ sep @ a \<or> s = b \<and> a = []"
proof (induction sep s arbitrary: b a rule: partition_at.induct)
  case (2 sep c s)
  then show ?case
    by (cases "partition_at sep s") (auto dest!: startswithD split: if_splits)
qed simp

lemma cut_comparisons_line:
  "nl \<notin> set s \<Longrightarrow> cut_comparisons s = takeWhile (\<lambda>c. \<not> is_comparison c) s"
proof (induction s rule: cut_comparisons.induct)
  case (2 c s)
  have "dropWhile (\<lambda>x. x \<noteq> nl) s = []"
    using 2 by (auto simp: dropWhile_eq_Nil_conv)
  with 2 show ?case
    by (auto simp del: dropWhile_eq_Nil_conv)
qed simp

lemma parse_dep_parts:
  assumes "parse_dep s = (depname, desc, depcond)" and "nl \<notin> set s"
  shows "s = depname @ depcond @ '': '' @ desc \<or> s = depname @ depcond \<and> desc = []"
    and "list_all (\<lambda>c. \<not> is_comparison c) depname"
    and "depcond = [] \<or> is_comparison (hd depcond)"
proof -
  obtain dep d where p: "partition_at '': '' s = (dep, d)"
    by (cases "partition_at '': '' s")
  from partition_at_append [OF p] have s: "s = dep @ '': '' @ d \<or> s = dep \<and> d = []"
    by simp
  with assms(2) have "nl \<notin> set dep"
    by auto
  note cut = cut_comparisons_line [OF this]
  have parts: "depname = takeWhile (\<lambda>c. \<not> is_comparison c) dep" "desc = d"
    "depcond = dropWhile (\<lambda>c. \<not> is_comparison c) dep"
    using assms(1) unfolding parse_dep_def Let_def p prod.case cut
    by (auto simp: dropWhile_eq_drop)
  have "depname @ depcond = dep"
    by (simp add: parts)
  with s show "s = depname @ depcond @ '': '' @ desc \<or> s = depname @ depcond \<and> desc = []"
    unfolding parts(2) by (metis append.assoc)
  show "list_all (\<lambda>c. \<not> is_comparison c) depname"
    unfolding parts(1) by (auto simp: list_all_iff dest: set_takeWhileD)
  show "depcond = [] \<or> is_comparison (hd depcond)"
    unfolding parts(3) using hd_dropWhile [of "\<lambda>c. \<not> is_comparison c" dep] by auto
qed

definition pkginfo_version :: "pkginfo \<Rightarrow> string aur" where
  "pkginfo_version p =
     andthen (case pi_text p ''epoch'' of None \<Rightarrow> ret 0 | Some e \<Rightarrow> the_or Py_ValueError (py_int 10 e)) (\<lambda>epoch.
     andthen (the_or Py_KeyError (pi_text p ''pkgver'')) (\<lambda>pkgver.
     andthen (the_or Py_KeyError (pi_text p ''pkgrel'')) (\<lambda>pkgrel.
     ret ((if epoch > 0 then str_int epoch @ '':'' else []) @ pkgver @ ''-'' @ pkgrel))))"

text \<open>\<open>str.isdigit\<close> for ASCII.\<close>

definition isdigit :: "string \<Rightarrow> bool" where
  "isdigit s \<longleftrightarrow> s \<noteq> [] \<and> list_all is_digit s"

section \<open>What a push must satisfy\<close>

definition text_field :: "pkginfo \<Rightarrow> string \<Rightarrow> string" where
  "text_field p field = (case pi_text p field of None \<Rightarrow> [] | Some s \<Rightarrow> s)"

definition validate_source :: "commit \<Rightarrow> string \<Rightarrow> unit aur" where
  "validate_source c fname =
     seqp (require (length fname \<le> 8000) (''source entry too long: '' @ fname) c)
     (require (contains ''://'' fname \<or> contains ''lp:'' fname \<or> in_tree fname c)
       (''missing source file: '' @ fname) c)"

text \<open>\<open>validate_metadata\<close> of the legacy hook; the checks of one package are \<open>validate_package\<close>.\<close>

definition validate_package :: "pkginfo \<Rightarrow> commit \<Rightarrow> unit aur" where
  "validate_package p c =
     seqp (for_each [''pkgver'', ''pkgrel'', ''pkgname''] (\<lambda>field.
       require (pi_text p field \<noteq> None) (''missing mandatory field: '' @ field) c))
     (seqp (require (pi_text p ''epoch'' \<noteq> None \<longrightarrow> isdigit (text_field p ''epoch''))
       (''invalid epoch: '' @ text_field p ''epoch'') c)
     (seqp (require (pkgname_regex (text_field p ''pkgname''))
       (''invalid package name: '' @ text_field p ''pkgname'') c)
     (seqp (for_each [(''pkgname'', 255), (''pkgdesc'', 255), (''url'', 8000)] (\<lambda>(field, limit).
       require (int (length (text_field p field)) \<le> limit)
         (field @ '' field too long: '' @ text_field p field) c))
     (seqp (for_each [''install'', ''changelog''] (\<lambda>field.
       require (pi_text p field \<noteq> None \<longrightarrow> in_tree (text_field p field) c)
         (''missing '' @ field @ '' file: '' @ text_field p field) c))
     (andthen (the_or Py_KeyError (extract_arch_fields p ''source'')) (\<lambda>infos.
       for_each infos (\<lambda>(fname, _). validate_source c fname)))))))"

definition validate_metadata :: "config \<Rightarrow> srcinfo \<Rightarrow> commit \<Rightarrow> unit aur" where
  "validate_metadata cfg m c = (case si_pkgbase m of
     None \<Rightarrow> die_commit ''invalid .SRCINFO, does not contain a pkgbase (is the file empty?)'' (c_id c)
   | Some pkgbase \<Rightarrow>
       seqp (require (repo_regex cfg pkgbase) (''invalid pkgbase: '' @ pkgbase) c)
       (seqp (require (si_packages m \<noteq> []) ''missing pkgname entry'' c)
       (for_each (set_iter_str cfg (map fst (si_packages m))) (\<lambda>pkgname.
         andthen (the_or Py_KeyError (map_of (si_packages m) pkgname)) (\<lambda>p. validate_package p c)))))"

text \<open>Reading the \<open>.SRCINFO\<close> of the pushed head; every error of the parser is shown.\<close>

definition show_parse_errors :: "commit \<Rightarrow> (nat \<times> string list) list \<Rightarrow> 'a aur" where
  "show_parse_errors c errors =
     seqp (write_err (''error: The following errors occurred when parsing .SRCINFO in commit'' @ [nl]))
     (seqp (write_err (''error: '' @ c_id c @ '':'' @ [nl]))
     (seqp (for_each errors (\<lambda>(line, errs). for_each errs (\<lambda>err.
       write_err (''error: line '' @ str_nat line @ '': '' @ err @ [nl]))))
     (throw (SystemExit 1))))"

definition read_srcinfo :: "config \<Rightarrow> update_options \<Rightarrow> commit \<Rightarrow> string \<Rightarrow> srcinfo aur" where
  "read_srcinfo cfg opts c raw =
     andthen (the_or Py_ValueError (decode_utf8 opts raw)) (\<lambda>text.
     case parse_srcinfo opts text of (m, errors) \<Rightarrow>
       if errors \<noteq> [] then show_parse_errors c errors
       else seqp (validate_metadata cfg m c) (ret m))"

definition validate_root :: "config \<Rightarrow> commit \<Rightarrow> unit aur" where
  "validate_root cfg c = for_each (c_tree c) (\<lambda>obj.
     seqp (require (\<not> (is_tree obj \<and> object_name obj \<notin> set [''keys'', ''LICENSES'']))
       ''the repository must not contain subdirectories'' c)
     (validate_blob_size cfg obj c))"

definition validate_keys :: "config \<Rightarrow> commit \<Rightarrow> unit aur" where
  "validate_keys cfg c = (case c_path c ''keys'' of None \<Rightarrow> ret () | Some keys \<Rightarrow>
     andthen (children keys) (\<lambda>objs.
     seqp (for_each objs (\<lambda>obj. require (is_tree obj \<and> object_name obj = ''pgp'')
       ''the keys/ subdir may only contain a pgp/ directory'' c))
     (case c_path c ''keys/pgp'' of None \<Rightarrow> ret () | Some pgp \<Rightarrow>
       andthen (children pgp) (\<lambda>objs. for_each objs (\<lambda>obj.
         seqp (require (is_blob obj \<and> endswith (object_name obj) ''.asc'')
           ''the subdir may only contain .asc (PGP pub key) files'' c)
         (validate_blob_size cfg obj c))))))"

text \<open>\<open>os.path.splitext(name)[0]\<close> of a name without slashes: leading dots belong to the root.\<close>

definition splitext_root :: "string \<Rightarrow> string" where
  "splitext_root name = (case dropWhile (\<lambda>c. c \<noteq> CHR ''.'') (rev name) of
     [] \<Rightarrow> name
   | _ # r \<Rightarrow> if list_all (\<lambda>c. c = CHR ''.'') r then name else rev r)"

definition validate_licenses :: "update_options \<Rightarrow> commit \<Rightarrow> unit aur" where
  "validate_licenses opts c = (case c_path c ''LICENSES'' of None \<Rightarrow> ret () | Some licenses \<Rightarrow>
     andthen (children licenses) (\<lambda>objs. for_each objs (\<lambda>obj.
       seqp (require (is_blob obj \<and> (endswith (object_name obj) ''.md'' \<or> endswith (object_name obj) ''.txt''))
         ''the subdir may only contain files ending in .md or .txt'' c)
       (require (splitext_root (object_name obj) \<in> set (spdx_names opts)
           \<or> startswith (splitext_root (object_name obj)) ''LicenseRef-'')
         ''files in this subdir must either be named after an acceptable SPDX license or start with `LicenseRef-`'' c))))"

definition validate_commit :: "config \<Rightarrow> (commit \<Rightarrow> unit aur) \<Rightarrow> commit \<Rightarrow> unit aur" where
  "validate_commit cfg check_licenses c =
     seqp (require (in_tree ''PKGBUILD'' c) ''missing PKGBUILD'' c)
     (seqp (validate_root cfg c) (seqp (validate_keys cfg c) (check_licenses c)))"

section \<open>Storing the metadata\<close>

text \<open>
  The start of \<open>save_metadata\<close>: the row of the package base is updated, an orphan gets a maintainer, and
  the packages go with everything that hangs on them. Gives the IDs of the package base and the user, and
  whether the package base was an orphan.
\<close>

definition touch_pkgbase :: "nat \<Rightarrow> int \<Rightarrow> packagebases_row \<Rightarrow> packagebases_row" where
  "touch_pkgbase userid ts b = b\<lparr>pb_ModifiedTS := ts, pb_PackagerUID := Some userid, pb_OutOfDateTS := None\<rparr>"

definition adopt_orphan :: "nat \<Rightarrow> packagebases_row \<Rightarrow> packagebases_row" where
  "adopt_orphan userid b = (if pb_MaintainerUID b = None then b\<lparr>pb_MaintainerUID := Some userid\<rparr> else b)"

definition begin_update :: "string \<Rightarrow> string \<Rightarrow> (nat \<times> nat \<times> bool) aur" where
  "begin_update pkgbase user =
     andthen (query (\<lambda>d. List.find (\<lambda>b. pb_Name b = pkgbase) (PackageBases d))) (\<lambda>row.
     andthen (the_or Py_TypeError row) (\<lambda>b.
     andthen (fetch_userid user) (\<lambda>userid. andthen utcnow (\<lambda>ts.
     seqp (execute (\<lambda>d. d\<lparr>PackageBases := update_where (\<lambda>x. pb_ID x = pb_ID b) (touch_pkgbase userid ts)
       (PackageBases d)\<rparr>))
     (seqp (execute (\<lambda>d. d\<lparr>PackageBases := update_where (\<lambda>x. pb_ID x = pb_ID b) (adopt_orphan userid)
       (PackageBases d)\<rparr>))
     (seqp (execute (delete_packages (\<lambda>k. pk_PackageBaseID k = pb_ID b)))
     (ret (pb_ID b, userid, pb_MaintainerUID b = None \<or> pb_MaintainerUID b = Some 0))))))))"

definition new_package :: "nat \<Rightarrow> string \<Rightarrow> string \<Rightarrow> string option \<Rightarrow> string option \<Rightarrow> db \<Rightarrow> packages_row" where
  "new_package i name ver desc url d = \<lparr>pk_ID = next_id (map pk_ID (Packages d)), pk_PackageBaseID = i,
     pk_Name = name, pk_Version = ver, pk_Description = desc, pk_URL = url\<rparr>"

definition insert_package :: "nat \<Rightarrow> string \<Rightarrow> string \<Rightarrow> string option \<Rightarrow> string option \<Rightarrow> nat aur" where
  "insert_package i name ver desc url =
     andthen (query (\<lambda>d. pk_ID (new_package i name ver desc url d))) (\<lambda>pkgid.
     seqp (insert_unless (\<lambda>d. list_ex (\<lambda>k. pk_Name k = name) (Packages d))
       (\<lambda>d. d\<lparr>Packages := Packages d @ [new_package i name ver desc url d]\<rparr>))
     (seqp commit_now (ret pkgid)))"

definition insert_source :: "nat \<Rightarrow> string \<times> string option \<Rightarrow> unit aur" where
  "insert_source pkgid = (\<lambda>(value, arch). execute (\<lambda>d. d\<lparr>PackageSources := PackageSources d @
     [\<lparr>sr_PackageID = pkgid, sr_Source = value, sr_SourceArch = arch\<rparr>]\<rparr>))"

text \<open>A dependency or relation to store: name, description, condition and architecture.\<close>

type_synonym dep_entry = "string \<times> string \<times> string \<times> string option"

definition insert_depend :: "nat \<Rightarrow> nat \<Rightarrow> dep_entry \<Rightarrow> unit aur" where
  "insert_depend pkgid deptypeid = (\<lambda>(depname, desc, depcond, arch). execute (\<lambda>d. d\<lparr>PackageDepends :=
     PackageDepends d @ [\<lparr>pd_PackageID = pkgid, pd_DepTypeID = deptypeid, pd_DepName = depname,
       pd_DepDesc = Some desc, pd_DepCondition = Some depcond, pd_DepArch = arch\<rparr>]\<rparr>))"

definition insert_relation :: "nat \<Rightarrow> nat \<Rightarrow> dep_entry \<Rightarrow> unit aur" where
  "insert_relation pkgid reltypeid = (\<lambda>(relname, _, relcond, arch). execute (\<lambda>d. d\<lparr>PackageRelations :=
     PackageRelations d @ [\<lparr>rl_PackageID = pkgid, rl_RelTypeID = reltypeid, rl_RelName = relname,
       rl_RelCondition = Some relcond, rl_RelArch = arch\<rparr>]\<rparr>))"

definition dependency_type :: "string \<Rightarrow> db \<Rightarrow> nat option" where
  "dependency_type name d = map_option dt_ID (List.find (\<lambda>t. dt_Name t = name) (DependencyTypes d))"

definition relation_type :: "string \<Rightarrow> db \<Rightarrow> nat option" where
  "relation_type name d = map_option rt_ID (List.find (\<lambda>t. rt_Name t = name) (RelationTypes d))"

definition insert_depends :: "nat \<Rightarrow> string \<times> dep_entry list option \<Rightarrow> unit aur" where
  "insert_depends pkgid = (\<lambda>(deptype, infos).
     andthen (query (dependency_type deptype)) (\<lambda>t. andthen (the_or Py_TypeError t) (\<lambda>deptypeid.
     andthen (the_or Py_KeyError infos) (\<lambda>rows. for_each rows (insert_depend pkgid deptypeid)))))"

definition insert_relations :: "nat \<Rightarrow> string \<times> dep_entry list option \<Rightarrow> unit aur" where
  "insert_relations pkgid = (\<lambda>(reltype, infos).
     andthen (query (relation_type reltype)) (\<lambda>t. andthen (the_or Py_TypeError t) (\<lambda>reltypeid.
     andthen (the_or Py_KeyError infos) (\<lambda>rows. for_each rows (insert_relation pkgid reltypeid)))))"

text \<open>A license or group that is new is inserted and committed; its name is looked up first.\<close>

definition license_id :: "string \<Rightarrow> nat aur" where
  "license_id license =
     andthen (query (\<lambda>d. List.find (\<lambda>l. li_Name l = license) (Licenses d))) (\<lambda>row. case row of
       Some l \<Rightarrow> ret (li_ID l)
     | None \<Rightarrow> andthen (query (\<lambda>d. next_id (map li_ID (Licenses d)))) (\<lambda>i.
         seqp (execute (\<lambda>d. d\<lparr>Licenses := Licenses d @ [\<lparr>li_ID = i, li_Name = license\<rparr>]\<rparr>))
         (seqp commit_now (ret i))))"

definition group_id :: "string \<Rightarrow> nat aur" where
  "group_id gname =
     andthen (query (\<lambda>d. List.find (\<lambda>g. gr_Name g = gname) (Groups d))) (\<lambda>row. case row of
       Some g \<Rightarrow> ret (gr_ID g)
     | None \<Rightarrow> andthen (query (\<lambda>d. next_id (map gr_ID (Groups d)))) (\<lambda>i.
         seqp (execute (\<lambda>d. d\<lparr>Groups := Groups d @ [\<lparr>gr_ID = i, gr_Name = gname\<rparr>]\<rparr>))
         (seqp commit_now (ret i))))"

definition insert_license :: "nat \<Rightarrow> string \<Rightarrow> unit aur" where
  "insert_license pkgid license = andthen (license_id license) (\<lambda>i.
     insert_unless (\<lambda>d. list_ex (\<lambda>r. pl_PackageID r = pkgid \<and> pl_LicenseID r = i) (PackageLicenses d))
       (\<lambda>d. d\<lparr>PackageLicenses := PackageLicenses d @ [\<lparr>pl_PackageID = pkgid, pl_LicenseID = i\<rparr>]\<rparr>))"

definition insert_group :: "nat \<Rightarrow> string \<Rightarrow> unit aur" where
  "insert_group pkgid gname = andthen (group_id gname) (\<lambda>i.
     insert_unless (\<lambda>d. list_ex (\<lambda>r. pg_PackageID r = pkgid \<and> pg_GroupID r = i) (PackageGroups d))
       (\<lambda>d. d\<lparr>PackageGroups := PackageGroups d @ [\<lparr>pg_PackageID = pkgid, pg_GroupID = i\<rparr>]\<rparr>))"

text \<open>One package of the legacy hook.\<close>

definition dep_entries :: "pkginfo \<Rightarrow> string \<Rightarrow> dep_entry list option" where
  "dep_entries p field = map_option (map (\<lambda>(value, arch). case parse_dep value of
     (depname, desc, depcond) \<Rightarrow> (depname, desc, depcond, arch))) (extract_arch_fields p field)"

definition legacy_save_package :: "nat \<Rightarrow> pkginfo \<Rightarrow> unit aur" where
  "legacy_save_package i p =
     andthen (pkginfo_version p) (\<lambda>ver.
     andthen (the_or Py_KeyError (pi_text p ''pkgname'')) (\<lambda>pkgname.
     andthen (insert_package i pkgname ver (pi_text p ''pkgdesc'') (pi_text p ''url'')) (\<lambda>pkgid.
     andthen (the_or Py_KeyError (extract_arch_fields p ''source'')) (\<lambda>infos.
     seqp (for_each infos (insert_source pkgid))
     (seqp (for_each (map (\<lambda>t. (t, dep_entries p t)) [''depends'', ''makedepends'', ''checkdepends'', ''optdepends''])
       (insert_depends pkgid))
     (seqp (for_each (map (\<lambda>t. (t, dep_entries p t)) [''conflicts'', ''provides'', ''replaces''])
       (insert_relations pkgid))
     (seqp (for_each (field_list p ''license'') (insert_license pkgid))
     (for_each (field_list p ''groups'') (insert_group pkgid)))))))))"

text \<open>The end of \<open>save_metadata\<close>: whoever adopts an orphan by a push is notified of it from then on.\<close>

definition end_update :: "nat \<Rightarrow> nat \<Rightarrow> bool \<Rightarrow> unit aur" where
  "end_update i userid was_orphan =
     seqp (whenp was_orphan (andthen (query (has_notification i userid)) (\<lambda>there.
       whenp (\<not> there) (insert_notification i userid))))
     commit_now"

definition legacy_save_metadata :: "srcinfo \<Rightarrow> string \<Rightarrow> unit aur" where
  "legacy_save_metadata m user =
     andthen (the_or Py_KeyError (si_pkgbase m)) (\<lambda>pkgbase.
     andthen (begin_update pkgbase user) (\<lambda>(i, userid, was_orphan).
     seqp (for_each (si_packages m) (\<lambda>(_, p). legacy_save_package i p))
     (end_update i userid was_orphan)))"

section \<open>The hook\<close>

text \<open>
  The two hooks differ in the parser and in what they do with its result. The environment gives the user
  and the package base (\<open>aurweb/git/serve.py\<close> sets them) and whether the user is privileged.
\<close>

record 'm backend =
  read_metadata :: "commit \<Rightarrow> string \<Rightarrow> 'm aur"
  check_licenses :: "commit \<Rightarrow> unit aur"
  base_name :: "'m \<Rightarrow> string"
  package_names :: "'m \<Rightarrow> string list"
  save_metadata :: "'m \<Rightarrow> string \<Rightarrow> unit aur"

record hook_env =
  env_user :: string
  env_pkgbase :: string
  env_privileged :: "string option"
  env_overwrite :: "string option"

definition privileged :: "hook_env \<Rightarrow> bool" where
  "privileged env \<longleftrightarrow> env_privileged env = Some ''1''"

definition allow_overwrite :: "hook_env \<Rightarrow> bool" where
  "allow_overwrite env \<longleftrightarrow> env_overwrite env = Some ''1'' \<and> privileged env"

definition warn_or_die :: "hook_env \<Rightarrow> string \<Rightarrow> unit aur" where
  "warn_or_die env msg = (if privileged env then hook_warn msg else hook_die msg)"

definition zero_sha :: string where
  "zero_sha = replicate 40 (CHR ''0'')"

definition pushed_range :: "hook_env \<Rightarrow> string list \<Rightarrow> (string \<times> string \<times> string) aur" where
  "pushed_range env argv =
     (if length argv = 2 \<and> argv ! 1 = ''restore''
      then andthen (gets references) (\<lambda>refs. case map_of refs (''refs/heads/'' @ env_pkgbase env) of
             None \<Rightarrow> hook_die (argv ! 1 @ '': repository not found: '' @ env_pkgbase env)
           | Some sha1 \<Rightarrow> ret (''refs/heads/master'', sha1, sha1))
      else if length argv = 4 then ret (argv ! 1, argv ! 2, argv ! 3)
      else hook_die ''invalid arguments'')"

definition deny_non_fast_forward :: "repository \<Rightarrow> hook_env \<Rightarrow> string \<Rightarrow> string \<Rightarrow> unit aur" where
  "deny_non_fast_forward repo env sha1_old sha1_new =
     whenp (sha1_old \<noteq> zero_sha \<and> \<not> allow_overwrite env)
       (andthen (the_or Py_KeyError (repo_walk repo sha1_old (Some sha1_new))) (\<lambda>lost.
        whenp (lost \<noteq> []) (hook_die ''denying non-fast-forward (you should pull first)'')))"

definition tree_entry :: "commit \<Rightarrow> string \<Rightarrow> git_object aur" where
  "tree_entry c path = the_or Py_KeyError (c_path c path)"

definition warn_unchanged :: "repository \<Rightarrow> string \<Rightarrow> string \<Rightarrow> unit aur" where
  "warn_unchanged repo sha1_old sha1_new = whenp (sha1_old \<noteq> zero_sha \<and> sha1_old \<noteq> sha1_new)
     (andthen (the_or Py_KeyError (repo_commit repo sha1_old)) (\<lambda>old.
      andthen (tree_entry old ''.SRCINFO'') (\<lambda>old_srcinfo.
      andthen (the_or Py_KeyError (repo_commit repo sha1_new)) (\<lambda>new.
      andthen (tree_entry new ''.SRCINFO'') (\<lambda>new_srcinfo.
      whenp (object_id old_srcinfo = object_id new_srcinfo)
        (hook_warn ''.SRCINFO unchanged. The package database will not be updated!''))))))"

text \<open>The commits of the push: the head's \<open>.SRCINFO\<close> is read and validated, then every new commit.\<close>

definition validate_push :: "config \<Rightarrow> 'm backend \<Rightarrow> repository \<Rightarrow> string \<Rightarrow> string \<Rightarrow> 'm aur" where
  "validate_push cfg be repo sha1_old sha1_new =
     andthen (the_or Py_KeyError (repo_walk repo sha1_new (if sha1_old = zero_sha then None else Some sha1_old)))
       (\<lambda>walker.
     andthen (the_or Py_KeyError (repo_commit repo sha1_new)) (\<lambda>head_commit.
     seqp (require (in_tree ''.SRCINFO'' head_commit) ''missing .SRCINFO'' head_commit)
     (andthen (tree_entry head_commit ''.SRCINFO'') (\<lambda>entry. andthen (object_data entry) (\<lambda>metadata_raw.
      andthen (read_metadata be head_commit metadata_raw) (\<lambda>metadata.
      seqp (for_each walker (validate_commit cfg (check_licenses be)))
      (seqp (warn_unchanged repo sha1_old sha1_new) (ret metadata))))))))"

definition base_id :: "string \<Rightarrow> db \<Rightarrow> nat" where
  "base_id pkgbase d = (case List.find (\<lambda>b. pb_Name b = pkgbase) (PackageBases d) of
     None \<Rightarrow> 0 | Some b \<Rightarrow> pb_ID b)"

definition official_repo :: "string \<Rightarrow> db \<Rightarrow> string option" where
  "official_repo pkgname d = map_of (rev (map (\<lambda>r. (op_Name r, op_Repo r)) (OfficialProviders d))) pkgname"

definition check_package_name :: "hook_env \<Rightarrow> nat \<Rightarrow> string \<Rightarrow> unit aur" where
  "check_package_name env pkgbase_id pkgname =
     andthen (query PackageBlacklist) (\<lambda>blacklist.
     seqp (whenp (pkgname \<in> set blacklist) (warn_or_die env (''package is blacklisted: '' @ pkgname)))
     (andthen (query (official_repo pkgname)) (\<lambda>provider.
     seqp (case provider of None \<Rightarrow> ret () | Some repo \<Rightarrow>
       warn_or_die env (''package already provided by ['' @ repo @ '']: '' @ pkgname))
     (andthen (query (\<lambda>d. count_where (\<lambda>k. pk_Name k = pkgname \<and> pk_PackageBaseID k \<noteq> pkgbase_id) (Packages d)))
       (\<lambda>n. whenp (n > 0) (hook_die (''cannot overwrite package: '' @ pkgname)))))))"

definition check_names :: "'m backend \<Rightarrow> hook_env \<Rightarrow> 'm \<Rightarrow> nat aur" where
  "check_names be env metadata = (let pkgbase = base_name be metadata in
     seqp (whenp (pkgbase \<noteq> env_pkgbase env)
       (hook_die (''invalid pkgbase: '' @ pkgbase @ '', expected '' @ env_pkgbase env)))
     (andthen (query (base_id pkgbase)) (\<lambda>pkgbase_id.
     andthen (query PackageBlacklist) (\<lambda>blacklist.
     seqp (whenp (pkgbase \<in> set blacklist) (warn_or_die env (''pkgbase is blacklisted: '' @ pkgbase)))
     (seqp (for_each (package_names be metadata) (check_package_name env pkgbase_id))
     (ret pkgbase_id))))))"

definition create_reference :: "string \<Rightarrow> string \<Rightarrow> unit aur" where
  "create_reference name sha1 = modify (\<lambda>w. w\<lparr>references := AList.update name sha1 (references w)\<rparr>)"

definition store_push :: "'m backend \<Rightarrow> hook_env \<Rightarrow> string \<Rightarrow> 'm \<Rightarrow> nat \<Rightarrow> unit aur" where
  "store_push be env sha1_new metadata known = (let pkgbase = base_name be metadata in
     andthen (if known = 0 then create_pkgbase pkgbase (env_user env) else ret known) (\<lambda>pkgbase_id.
     seqp (save_metadata be metadata (env_user env))
     (seqp (create_reference (''refs/heads/'' @ pkgbase) sha1_new)
     (seqp (create_reference (''refs/namespaces/'' @ pkgbase @ ''/HEAD'') sha1_new)
     (update_notify (env_user env) pkgbase_id)))))"

definition hook_main :: "config \<Rightarrow> 'm backend \<Rightarrow> repository \<Rightarrow> hook_env \<Rightarrow> string list \<Rightarrow> unit aur" where
  "hook_main cfg be repo env argv =
     andthen (pushed_range env argv) (\<lambda>(refname, sha1_old, sha1_new).
     seqp (whenp (refname \<noteq> ''refs/heads/master'')
       (hook_die ''pushing to a branch other than master is restricted''))
     (connection (
       seqp (deny_non_fast_forward repo env sha1_old sha1_new)
       (andthen (validate_push cfg be repo sha1_old sha1_new) (\<lambda>metadata.
       andthen (check_names be env metadata) (\<lambda>pkgbase_id.
       store_push be env sha1_new metadata pkgbase_id))))))"

definition legacy_backend :: "config \<Rightarrow> update_options \<Rightarrow> srcinfo backend" where
  "legacy_backend cfg opts = \<lparr>read_metadata = read_srcinfo cfg opts, check_licenses = validate_licenses opts,
     base_name = (\<lambda>m. the (si_pkgbase m)), package_names = (\<lambda>m. map (\<lambda>(_, p). text_field p ''pkgname'') (si_packages m)),
     save_metadata = legacy_save_metadata\<rparr>"

definition legacy_main :: "config \<Rightarrow> update_options \<Rightarrow> repository \<Rightarrow> hook_env \<Rightarrow> string list \<Rightarrow> unit aur" where
  "legacy_main cfg opts = hook_main cfg (legacy_backend cfg opts)"

end
