(* ===== verification/Git_Push.thy ===== *)
theory Git_Push
  imports Git_Update "HOL-Library.Sublist"
begin

text \<open>
  What a push does to the database, whichever way the hook ends: the constraints, the tables that belong
  to other package bases, and the maintainers. The laws a parser's backend has to satisfy are the locale
  \<open>metadata_backend\<close>; both hooks are instances of it.
\<close>

named_theorems push_intros

section \<open>The part of a package base\<close>

definition bases_named :: "string \<Rightarrow> db \<Rightarrow> nat set" where
  "bases_named p d = pb_ID ` {b \<in> set (PackageBases d). pb_Name b = p}"

definition packages_in :: "nat set \<Rightarrow> db \<Rightarrow> nat set" where
  "packages_in bs d = pk_ID ` {k \<in> set (Packages d). pk_PackageBaseID k \<in> bs}"

definition without :: "nat set \<Rightarrow> nat set \<Rightarrow> db \<Rightarrow> db" where
  "without bs ks d = d\<lparr>
     PackageBases := filter (\<lambda>b. pb_ID b \<notin> bs) (PackageBases d),
     Packages := filter (\<lambda>k. pk_PackageBaseID k \<notin> bs) (Packages d),
     PackageLicenses := filter (\<lambda>r. pl_PackageID r \<notin> ks) (PackageLicenses d),
     PackageGroups := filter (\<lambda>r. pg_PackageID r \<notin> ks) (PackageGroups d),
     PackageDepends := filter (\<lambda>r. pd_PackageID r \<notin> ks) (PackageDepends d),
     PackageRelations := filter (\<lambda>r. rl_PackageID r \<notin> ks) (PackageRelations d),
     PackageSources := filter (\<lambda>r. sr_PackageID r \<notin> ks) (PackageSources d),
     PackageNotifications := filter (\<lambda>n. pn_PackageBaseID n \<notin> bs) (PackageNotifications d),
     Licenses := [], Groups := []\<rparr>"

text \<open>
  \<open>outside p d\<close>: the database without the package base \<open>p\<close>, its packages and its notifications. Names of
  licenses and groups are shared by all packages and only ever added.
\<close>

definition outside :: "string \<Rightarrow> db \<Rightarrow> db" where
  "outside p d = without (bases_named p d) (packages_in (bases_named p d) d) d"

text \<open>The foreign keys and unique indexes of what hangs on the packages.\<close>

definition packages_ok :: "db \<Rightarrow> bool" where
  "packages_ok d \<longleftrightarrow>
     (\<forall>r \<in> set (PackageLicenses d). pl_PackageID r \<in> package_ids d \<and> pl_LicenseID r \<in> li_ID ` set (Licenses d))
   \<and> (\<forall>r \<in> set (PackageGroups d). pg_PackageID r \<in> package_ids d \<and> pg_GroupID r \<in> gr_ID ` set (Groups d))
   \<and> (\<forall>r \<in> set (PackageDepends d). pd_PackageID r \<in> package_ids d \<and> pd_DepTypeID r \<in> dt_ID ` set (DependencyTypes d))
   \<and> (\<forall>r \<in> set (PackageRelations d). rl_PackageID r \<in> package_ids d \<and> rl_RelTypeID r \<in> rt_ID ` set (RelationTypes d))
   \<and> (\<forall>r \<in> set (PackageSources d). sr_PackageID r \<in> package_ids d)
   \<and> distinct (map li_ID (Licenses d)) \<and> distinct (map li_Name (Licenses d))
   \<and> distinct (map gr_ID (Groups d)) \<and> distinct (map gr_Name (Groups d))
   \<and> distinct (map (\<lambda>r. (pl_PackageID r, pl_LicenseID r)) (PackageLicenses d))
   \<and> distinct (map (\<lambda>r. (pg_PackageID r, pg_GroupID r)) (PackageGroups d))"

definition pusher_id :: "string \<Rightarrow> db \<Rightarrow> nat option" where
  "pusher_id user d = map_option u_ID (List.find (\<lambda>u. u_Username u = user) (Users d))"

text \<open>Who may have become maintainer: the pusher, of a new package base or of an orphan.\<close>

definition maintainer_after :: "string \<Rightarrow> string \<Rightarrow> db \<Rightarrow> db \<Rightarrow> bool" where
  "maintainer_after p user d0 d \<longleftrightarrow>
     (\<forall>b0 \<in> set (PackageBases d0). pb_Name b0 = p \<longrightarrow> (\<exists>b \<in> set (PackageBases d). pb_ID b = pb_ID b0 \<and> pb_Name b = p
        \<and> (pb_MaintainerUID b = pb_MaintainerUID b0
           \<or> pb_MaintainerUID b0 = None \<and> pb_MaintainerUID b = pusher_id user d0)))
   \<and> (\<forall>b \<in> set (PackageBases d). pb_Name b = p \<longrightarrow> (\<exists>b0 \<in> set (PackageBases d0). pb_ID b0 = pb_ID b \<and> pb_Name b0 = p)
        \<or> (\<forall>b0 \<in> set (PackageBases d0). pb_Name b0 \<noteq> p) \<and> pb_MaintainerUID b = pusher_id user d0)"

definition push_step :: "string \<Rightarrow> string \<Rightarrow> db \<Rightarrow> db \<Rightarrow> bool" where
  "push_step p user d0 d \<longleftrightarrow> db_ok d \<and> packages_ok d \<and> outside p d = outside p d0
     \<and> prefix (Licenses d0) (Licenses d) \<and> prefix (Groups d0) (Groups d) \<and> maintainer_after p user d0 d"

lemma push_step_refl: "db_ok d \<Longrightarrow> packages_ok d \<Longrightarrow> push_step p user d d"
  by (auto simp: push_step_def maintainer_after_def)

lemma outside_tables [simp]:
  "Users (outside p d) = Users d" "DependencyTypes (outside p d) = DependencyTypes d"
  "RelationTypes (outside p d) = RelationTypes d" "PackageVotes (outside p d) = PackageVotes d"
  by (simp_all add: outside_def without_def)

lemma push_step_Users: "push_step p user d0 d \<Longrightarrow> Users d = Users d0"
  unfolding push_step_def by (metis outside_tables(1))

lemma pusher_id_push: "push_step p user d0 d \<Longrightarrow> pusher_id user d = pusher_id user d0"
  by (simp add: pusher_id_def push_step_Users)

lemma pusher_id_id: "pusher_id user d = Some i \<Longrightarrow> i \<in> user_ids d"
  by (auto simp: pusher_id_def user_ids_def find_Some_iff)

lemma push_stepI:
  assumes "push_step p user d0 d" and "outside p d' = outside p d" and "db_ok d'"
    and "packages_ok d \<Longrightarrow> packages_ok d'" and "PackageBases d' = PackageBases d"
    and "prefix (Licenses d) (Licenses d')" and "prefix (Groups d) (Groups d')"
  shows "push_step p user d0 d'"
  using assms(1,3,4,5) prefix_order.trans [OF _ assms(6), of "Licenses d0"]
    prefix_order.trans [OF _ assms(7), of "Groups d0"]
  by (simp add: push_step_def maintainer_after_def assms(2))

lemma push_stepD:
  assumes "push_step p user d0 d"
  shows "db_ok d" and "wf_db d" and "packages_ok d"
  using assms by (simp_all add: push_step_def db_ok_def)

section \<open>The statements of a push\<close>

text \<open>Statements on the tables of packages, for a package of the package base.\<close>

lemma outside_sources:
  "sr_PackageID r \<in> packages_in (bases_named p d) d \<Longrightarrow>
   outside p (d\<lparr>PackageSources := PackageSources d @ [r]\<rparr>) = outside p d"
  by (simp add: outside_def without_def bases_named_def packages_in_def)

lemma packages_in_ids: "i \<in> packages_in bs d \<Longrightarrow> i \<in> package_ids d"
  by (auto simp: packages_in_def package_ids_def)

lemma db_ok_cong:
  assumes "db_ok d" and "wf_db d \<Longrightarrow> wf_db d'" and "PackageVotes d' = PackageVotes d"
    and "PackageBases d' = PackageBases d"
  shows "db_ok d'"
  using assms votes_ok_cong [of d d'] by (simp add: db_ok_def)

lemma wf_packages_tables [simp]:
  "wf_db (d\<lparr>PackageSources := x1\<rparr>) = wf_db d" "wf_db (d\<lparr>PackageDepends := x2\<rparr>) = wf_db d"
  "wf_db (d\<lparr>PackageRelations := x3\<rparr>) = wf_db d" "wf_db (d\<lparr>PackageLicenses := x4\<rparr>) = wf_db d"
  "wf_db (d\<lparr>PackageGroups := x5\<rparr>) = wf_db d" "wf_db (d\<lparr>Licenses := x6\<rparr>) = wf_db d"
  "wf_db (d\<lparr>Groups := x7\<rparr>) = wf_db d"
  by (simp_all add: wf_db_def unique_ok_def refs_ok_def user_ids_def base_ids_def)

lemma db_ok_packages_tables [simp]:
  "db_ok (d\<lparr>PackageSources := x1\<rparr>) = db_ok d" "db_ok (d\<lparr>PackageDepends := x2\<rparr>) = db_ok d"
  "db_ok (d\<lparr>PackageRelations := x3\<rparr>) = db_ok d" "db_ok (d\<lparr>PackageLicenses := x4\<rparr>) = db_ok d"
  "db_ok (d\<lparr>PackageGroups := x5\<rparr>) = db_ok d" "db_ok (d\<lparr>Licenses := x6\<rparr>) = db_ok d"
  "db_ok (d\<lparr>Groups := x7\<rparr>) = db_ok d"
  by (simp_all add: db_ok_def votes_ok_def votes_of_def)

lemma push_insert_source [push_intros]:
  assumes "push_step p user d0 d" and "sr_PackageID r \<in> packages_in (bases_named p d) d"
  shows "push_step p user d0 (d\<lparr>PackageSources := PackageSources d @ [r]\<rparr>)"
  using assms packages_in_ids [OF assms(2)]
  by (auto simp: push_step_def outside_sources packages_ok_def package_ids_def maintainer_after_def)

lemma push_insert_depend [push_intros]:
  assumes "push_step p user d0 d" and "pd_PackageID r \<in> packages_in (bases_named p d) d"
    and "pd_DepTypeID r \<in> dt_ID ` set (DependencyTypes d)"
  shows "push_step p user d0 (d\<lparr>PackageDepends := PackageDepends d @ [r]\<rparr>)"
proof -
  have "outside p (d\<lparr>PackageDepends := PackageDepends d @ [r]\<rparr>) = outside p d"
    using assms(2) by (simp add: outside_def without_def bases_named_def packages_in_def)
  then show ?thesis
    by (rule push_stepI [OF assms(1)])
      (use assms packages_in_ids [OF assms(2)] in \<open>auto simp: packages_ok_def package_ids_def push_stepD\<close>)
qed

lemma push_insert_relation [push_intros]:
  assumes "push_step p user d0 d" and "rl_PackageID r \<in> packages_in (bases_named p d) d"
    and "rl_RelTypeID r \<in> rt_ID ` set (RelationTypes d)"
  shows "push_step p user d0 (d\<lparr>PackageRelations := PackageRelations d @ [r]\<rparr>)"
proof -
  have "outside p (d\<lparr>PackageRelations := PackageRelations d @ [r]\<rparr>) = outside p d"
    using assms(2) by (simp add: outside_def without_def bases_named_def packages_in_def)
  then show ?thesis
    by (rule push_stepI [OF assms(1)])
      (use assms packages_in_ids [OF assms(2)] in \<open>auto simp: packages_ok_def package_ids_def push_stepD\<close>)
qed

lemma push_insert_package_license [push_intros]:
  assumes "push_step p user d0 d" and "pl_PackageID r \<in> packages_in (bases_named p d) d"
    and "pl_LicenseID r \<in> li_ID ` set (Licenses d)"
    and "\<And>x. x \<in> set (PackageLicenses d) \<Longrightarrow> \<not> (pl_PackageID x = pl_PackageID r \<and> pl_LicenseID x = pl_LicenseID r)"
  shows "push_step p user d0 (d\<lparr>PackageLicenses := PackageLicenses d @ [r]\<rparr>)"
proof -
  have "outside p (d\<lparr>PackageLicenses := PackageLicenses d @ [r]\<rparr>) = outside p d"
    using assms(2) by (simp add: outside_def without_def bases_named_def packages_in_def)
  then show ?thesis
    by (rule push_stepI [OF assms(1)])
      (use assms packages_in_ids [OF assms(2)] in \<open>auto simp: packages_ok_def package_ids_def push_stepD\<close>)
qed

lemma push_insert_package_group [push_intros]:
  assumes "push_step p user d0 d" and "pg_PackageID r \<in> packages_in (bases_named p d) d"
    and "pg_GroupID r \<in> gr_ID ` set (Groups d)"
    and "\<And>x. x \<in> set (PackageGroups d) \<Longrightarrow> \<not> (pg_PackageID x = pg_PackageID r \<and> pg_GroupID x = pg_GroupID r)"
  shows "push_step p user d0 (d\<lparr>PackageGroups := PackageGroups d @ [r]\<rparr>)"
proof -
  have "outside p (d\<lparr>PackageGroups := PackageGroups d @ [r]\<rparr>) = outside p d"
    using assms(2) by (simp add: outside_def without_def bases_named_def packages_in_def)
  then show ?thesis
    by (rule push_stepI [OF assms(1)])
      (use assms packages_in_ids [OF assms(2)] in \<open>auto simp: packages_ok_def package_ids_def push_stepD\<close>)
qed

lemma push_insert_license_name [push_intros]:
  assumes "push_step p user d0 d" and "li_ID l \<notin> li_ID ` set (Licenses d)" and "li_Name l \<notin> li_Name ` set (Licenses d)"
  shows "push_step p user d0 (d\<lparr>Licenses := Licenses d @ [l]\<rparr>)"
proof -
  have "outside p (d\<lparr>Licenses := Licenses d @ [l]\<rparr>) = outside p d"
    by (simp add: outside_def without_def bases_named_def packages_in_def)
  then show ?thesis
    by (rule push_stepI [OF assms(1)])
      (use assms in \<open>auto simp: packages_ok_def package_ids_def push_stepD\<close>)
qed

lemma push_insert_group_name [push_intros]:
  assumes "push_step p user d0 d" and "gr_ID l \<notin> gr_ID ` set (Groups d)" and "gr_Name l \<notin> gr_Name ` set (Groups d)"
  shows "push_step p user d0 (d\<lparr>Groups := Groups d @ [l]\<rparr>)"
proof -
  have "outside p (d\<lparr>Groups := Groups d @ [l]\<rparr>) = outside p d"
    by (simp add: outside_def without_def bases_named_def packages_in_def)
  then show ?thesis
    by (rule push_stepI [OF assms(1)])
      (use assms in \<open>auto simp: packages_ok_def package_ids_def push_stepD\<close>)
qed

lemma push_insert_notification [push_intros]:
  assumes "push_step p user d0 d" and "pn_PackageBaseID n \<in> bases_named p d" and "pn_UserID n \<in> user_ids d"
    and "\<And>x. x \<in> set (PackageNotifications d) \<Longrightarrow> \<not> (pn_UserID x = pn_UserID n \<and> pn_PackageBaseID x = pn_PackageBaseID n)"
  shows "push_step p user d0 (d\<lparr>PackageNotifications := PackageNotifications d @ [n]\<rparr>)"
proof -
  have "outside p (d\<lparr>PackageNotifications := PackageNotifications d @ [n]\<rparr>) = outside p d"
    using assms(2) by (simp add: outside_def without_def bases_named_def packages_in_def)
  moreover have "db_ok (d\<lparr>PackageNotifications := PackageNotifications d @ [n]\<rparr>)"
    by (rule db_ok_cong [OF push_stepD(1) [OF assms(1)]])
      (use assms in \<open>auto simp: bases_named_def base_ids_def intro!: wf_PackageNotifications_insert\<close>)
  ultimately show ?thesis
    by (rule push_stepI [OF assms(1)])
      (auto simp: packages_ok_def package_ids_def)
qed

text \<open>A new package of the package base.\<close>

lemma wf_Packages_insert:
  assumes "wf_db d" and "pk_ID k \<notin> package_ids d" and "pk_Name k \<notin> pk_Name ` set (Packages d)"
    and "pk_PackageBaseID k \<in> base_ids d"
  shows "wf_db (d\<lparr>Packages := Packages d @ [k]\<rparr>)"
  using assms by (simp add: wf_db_def unique_ok_def refs_ok_def user_ids_def base_ids_def package_ids_def)

lemma filter_insert_id:
  "i \<notin> f ` set xs \<Longrightarrow> filter (\<lambda>r. f r \<noteq> i \<and> f r \<notin> A) xs = filter (\<lambda>r. f r \<notin> A) xs"
  by (rule filter_cong) auto

lemma packages_in_insert:
  "pk_PackageBaseID k \<in> bs \<Longrightarrow>
   packages_in bs (d\<lparr>Packages := Packages d @ [k]\<rparr>) = insert (pk_ID k) (packages_in bs d)"
  by (auto simp: packages_in_def)

lemma bases_named_Packages [simp]: "bases_named p (d\<lparr>Packages := x\<rparr>) = bases_named p d"
  by (simp add: bases_named_def)

lemma push_insert_package [push_intros]:
  assumes "push_step p user d0 d" and "pk_PackageBaseID k \<in> bases_named p d" and "pk_ID k \<notin> package_ids d"
    and "pk_Name k \<notin> pk_Name ` set (Packages d)"
  shows "push_step p user d0 (d\<lparr>Packages := Packages d @ [k]\<rparr>)"
proof -
  have "pk_ID k \<notin> pl_PackageID ` set (PackageLicenses d)" "pk_ID k \<notin> pg_PackageID ` set (PackageGroups d)"
    "pk_ID k \<notin> pd_PackageID ` set (PackageDepends d)" "pk_ID k \<notin> rl_PackageID ` set (PackageRelations d)"
    "pk_ID k \<notin> sr_PackageID ` set (PackageSources d)"
    using assms(3) push_stepD(3) [OF assms(1)] by (auto simp: packages_ok_def)
  then have "outside p (d\<lparr>Packages := Packages d @ [k]\<rparr>) = outside p d"
    using assms(2)
    by (simp only: outside_def bases_named_Packages packages_in_insert)
      (simp add: without_def filter_insert_id)
  moreover have "db_ok (d\<lparr>Packages := Packages d @ [k]\<rparr>)"
    by (rule db_ok_cong [OF push_stepD(1) [OF assms(1)]])
      (use assms in \<open>auto simp: bases_named_def base_ids_def intro!: wf_Packages_insert\<close>)
  ultimately show ?thesis
    by (rule push_stepI [OF assms(1)])
      (auto simp: packages_ok_def package_ids_def)
qed

text \<open>The packages of the package base go.\<close>

lemma filter_gone:
  "gone \<subseteq> A \<Longrightarrow> filter (\<lambda>r. f r \<notin> A - gone) (delete_where (\<lambda>r. f r \<in> gone) xs) = filter (\<lambda>r. f r \<notin> A) xs"
  by (auto simp: delete_where_def intro: filter_cong)

lemma push_delete_packages [push_intros]:
  assumes "push_step p user d0 d" and "i \<in> bases_named p d"
  shows "push_step p user d0 (delete_packages (\<lambda>k. pk_PackageBaseID k = i) d)"
proof -
  let ?q = "\<lambda>k. pk_PackageBaseID k = i"
  let ?gone = "pk_ID ` {k \<in> set (Packages d). ?q k}"
  let ?d = "delete_packages ?q d"
  let ?bs = "bases_named p d"
  have wf: "wf_db d" and ok: "packages_ok d"
    using push_stepD [OF assms(1)] by simp_all
  then have uniq: "distinct (map pk_ID (Packages d))"
    by (simp add: wf_db_def unique_ok_def)
  have bs: "bases_named p ?d = ?bs"
    by (simp add: bases_named_def delete_packages_def Let_def)
  have sub: "?gone \<subseteq> packages_in ?bs d"
    using assms(2) by (auto simp: packages_in_def)
  have ks: "packages_in ?bs ?d = packages_in ?bs d - ?gone"
    using distinct_map_inj [OF uniq]
    by (auto simp: packages_in_def delete_packages_def Let_def delete_where_def)
  have rows: "filter (\<lambda>k. pk_PackageBaseID k \<notin> ?bs) (delete_where ?q (Packages d))
      = filter (\<lambda>k. pk_PackageBaseID k \<notin> ?bs) (Packages d)"
    using assms(2) by (auto simp: delete_where_def intro!: filter_cong)
  have "outside p ?d = outside p d"
    unfolding outside_def bs ks unfolding without_def
    by (simp add: delete_packages_def Let_def filter_gone [OF sub, simplified] rows)
  moreover have "db_ok ?d"
    by (rule db_ok_cong [OF push_stepD(1) [OF assms(1)]])
      (erule delete_packages_wf, simp_all add: delete_packages_def Let_def)
  moreover have "packages_ok ?d"
    using ok by (auto simp: packages_ok_def delete_packages_def Let_def delete_where_def package_ids_def
        distinct_map_filter intro: image_rest)
  ultimately show ?thesis
    by (rule push_stepI [OF assms(1)]) (auto simp: delete_packages_def Let_def)
qed

lemma bases_named_keys:
  "bases_named p d = fst ` {x \<in> set (map (\<lambda>b. (pb_ID b, pb_Name b)) (PackageBases d)). snd x = p}"
  by (auto simp: bases_named_def image_iff)

text \<open>The row of the package base is updated; an orphan may get the pusher as maintainer.\<close>

lemma push_update_base [push_intros]:
  assumes step: "push_step p user d0 d" and i: "i \<in> bases_named p d"
    and keys: "\<And>b. pb_ID (f b) = pb_ID b" "\<And>b. pb_Name (f b) = pb_Name b" "\<And>b. pb_NumVotes (f b) = pb_NumVotes b"
    and refs: "\<And>b. (pb_FlaggerUID (f b) = pb_FlaggerUID b) \<and> (pb_SubmitterUID (f b) = pb_SubmitterUID b)
      \<and> (pb_PackagerUID (f b) = pb_PackagerUID b \<or> refers (pb_PackagerUID (f b)) (user_ids d))"
    and maint: "\<And>b. pb_MaintainerUID (f b) = pb_MaintainerUID b
      \<or> pb_MaintainerUID b = None \<and> pb_MaintainerUID (f b) = pusher_id user d"
  shows "push_step p user d0 (d\<lparr>PackageBases := update_where (\<lambda>b. pb_ID b = i) f (PackageBases d)\<rparr>)"
    (is "push_step p user d0 ?d")
proof -
  note ok = push_stepD [OF step]
  have named: "pb_Name b = p" if "b \<in> set (PackageBases d)" "pb_ID b = i" for b
    using i that base_id_unique [OF ok(2)] by (auto simp: bases_named_def)
  have bs: "bases_named p ?d = bases_named p d"
    by (simp add: bases_named_keys map_update_where_same keys del: set_map)
  have ks: "packages_in bs ?d = packages_in bs d" for bs
    by (simp add: packages_in_def)
  have others: "filter (\<lambda>b. pb_ID b \<notin> bases_named p d) (update_where (\<lambda>b. pb_ID b = i) f (PackageBases d))
      = filter (\<lambda>b. pb_ID b \<notin> bases_named p d) (PackageBases d)"
    using i keys by (auto simp: update_where_def filter_map comp_def if_distrib cong: if_cong
        intro!: map_idI filter_cong)
  have out: "outside p ?d = outside p d"
    unfolding outside_def bs ks unfolding without_def by (simp add: others)
  have user: "refers (pusher_id user d) (user_ids d)"
    using pusher_id_id [of user d] by (cases "pusher_id user d") auto
  have "db_ok_on (user_ids d) (base_ids d) ?d"
  proof (rule ok_PackageBases_update [OF db_ok_on_self [OF ok(1)]])
    show "(pb_MaintainerUID (f b) = pb_MaintainerUID b \<or> refers (pb_MaintainerUID (f b)) (user_ids d))
      \<and> (pb_FlaggerUID (f b) = pb_FlaggerUID b \<or> refers (pb_FlaggerUID (f b)) (user_ids d))
      \<and> (pb_SubmitterUID (f b) = pb_SubmitterUID b \<or> refers (pb_SubmitterUID (f b)) (user_ids d))
      \<and> (pb_PackagerUID (f b) = pb_PackagerUID b \<or> refers (pb_PackagerUID (f b)) (user_ids d))" for b
      using refs [of b] maint [of b] user by auto
  qed (simp_all add: keys)
  then have db: "db_ok ?d"
    by (rule db_ok_onD)
  have "packages_ok ?d"
    using ok(3) by (simp add: packages_ok_def package_ids_def)
  moreover have "maintainer_after p user d0 ?d"
    unfolding maintainer_after_def
  proof (intro conjI ballI impI)
    fix b0
    assume "b0 \<in> set (PackageBases d0)" "pb_Name b0 = p"
    then obtain b where b: "b \<in> set (PackageBases d)" "pb_ID b = pb_ID b0" "pb_Name b = p"
      and m: "pb_MaintainerUID b = pb_MaintainerUID b0
        \<or> pb_MaintainerUID b0 = None \<and> pb_MaintainerUID b = pusher_id user d0"
      using step unfolding push_step_def maintainer_after_def by blast
    let ?b = "if pb_ID b = i then f b else b"
    have "?b \<in> set (PackageBases ?d)"
      using b(1) by (simp add: update_where_def)
    moreover have "pb_MaintainerUID ?b = pb_MaintainerUID b0
        \<or> pb_MaintainerUID b0 = None \<and> pb_MaintainerUID ?b = pusher_id user d0"
      using m maint [of b] pusher_id_push [OF step] by auto
    ultimately show "\<exists>b \<in> set (PackageBases ?d). pb_ID b = pb_ID b0 \<and> pb_Name b = p
        \<and> (pb_MaintainerUID b = pb_MaintainerUID b0
           \<or> pb_MaintainerUID b0 = None \<and> pb_MaintainerUID b = pusher_id user d0)"
      using b keys by (intro bexI [of _ ?b]) auto
  next
    fix b
    assume b: "b \<in> set (PackageBases ?d)" "pb_Name b = p"
    then obtain c where c: "c \<in> set (PackageBases d)" "b = (if pb_ID c = i then f c else c)"
      by (auto simp: update_where_def)
    with b(2) keys have "pb_Name c = p"
      by (auto split: if_splits)
    with c(1) step have "(\<exists>b0 \<in> set (PackageBases d0). pb_ID b0 = pb_ID c \<and> pb_Name b0 = p)
        \<or> (\<forall>b0 \<in> set (PackageBases d0). pb_Name b0 \<noteq> p) \<and> pb_MaintainerUID c = pusher_id user d0"
      unfolding push_step_def maintainer_after_def by blast
    then show "(\<exists>b0 \<in> set (PackageBases d0). pb_ID b0 = pb_ID b \<and> pb_Name b0 = p)
        \<or> (\<forall>b0 \<in> set (PackageBases d0). pb_Name b0 \<noteq> p) \<and> pb_MaintainerUID b = pusher_id user d0"
      using c(2) keys maint [of c] pusher_id_push [OF step] by auto
  qed
  ultimately show ?thesis
    using step db out by (simp add: push_step_def)
qed

text \<open>A new package base, which nothing refers to yet.\<close>

lemma refers_insert: "refers x A \<Longrightarrow> refers x (insert i A)"
  by (auto simp: refers_def split: option.splits)

lemma wf_PackageBases_insert:
  assumes "wf_db d" and "pb_ID b \<notin> base_ids d" and "pb_Name b \<notin> pb_Name ` set (PackageBases d)"
    and "refers (pb_MaintainerUID b) (user_ids d)" and "refers (pb_FlaggerUID b) (user_ids d)"
    and "refers (pb_SubmitterUID b) (user_ids d)" and "refers (pb_PackagerUID b) (user_ids d)"
  shows "wf_db (d\<lparr>PackageBases := PackageBases d @ [b]\<rparr>)"
  using assms unfolding wf_db_def unique_ok_def refs_ok_def user_ids_def base_ids_def
  by (simp add: refers_insert)

lemma push_insert_base [push_intros]:
  assumes step: "push_step p user d0 d" and "pb_ID b \<notin> base_ids d" and "pb_Name b = p"
    and "p \<notin> pb_Name ` set (PackageBases d)" and "pb_MaintainerUID b = pusher_id user d"
    and "refers (pb_SubmitterUID b) (user_ids d)" and "pb_FlaggerUID b = None" and "pb_PackagerUID b = None"
    and "pb_NumVotes b = 0"
  shows "push_step p user d0 (d\<lparr>PackageBases := PackageBases d @ [b]\<rparr>)" (is "push_step p user d0 ?d")
proof -
  note ok = push_stepD [OF step]
  have bs: "bases_named p ?d = {pb_ID b}" "bases_named p d = {}"
    using assms(3,4) by (auto simp: bases_named_def image_iff)
  have fresh: "pb_ID b \<notin> pk_PackageBaseID ` set (Packages d)" "pb_ID b \<notin> pn_PackageBaseID ` set (PackageNotifications d)"
    "pb_ID b \<notin> pv_PackageBaseID ` set (PackageVotes d)" "pb_ID b \<notin> pb_ID ` set (PackageBases d)"
    using ok(2) assms(2) by (auto simp: wf_db_def refs_ok_def base_ids_def)
  have all: "filter (\<lambda>x. g x \<noteq> pb_ID b) xs = xs" if "pb_ID b \<notin> g ` set xs" for g and xs :: "'x list"
    using that by (auto simp: filter_id_conv image_iff)
  have ks: "packages_in {pb_ID b} ?d = {}" "packages_in {} d = {}"
    using fresh(1) by (auto simp: packages_in_def image_iff)
  have out: "outside p ?d = outside p d"
    unfolding outside_def bs ks unfolding without_def by (simp add: all fresh)
  have user: "refers (pb_MaintainerUID b) (user_ids d)"
    using pusher_id_id [of user d] assms(5) by (cases "pusher_id user d") auto
  have "wf_db ?d"
    using ok(2) assms(2-) user by (intro wf_PackageBases_insert) auto
  moreover have "votes_ok ?d"
    using ok(1) fresh(3) assms(9)
    by (auto simp: db_ok_def votes_ok_def votes_of_def count_where_def filter_empty_conv image_iff)
  moreover have "packages_ok ?d"
    using ok(3) by (simp add: packages_ok_def package_ids_def)
  moreover have "maintainer_after p user d0 ?d"
    using step assms(4,5) pusher_id_push [OF step] unfolding push_step_def maintainer_after_def
    by (auto simp: image_iff) metis
  ultimately show ?thesis
    using step out by (simp add: push_step_def db_ok_def)
qed

section \<open>The programs of a push\<close>

text \<open>
  What holds all along a push, of the tables as they are and as they were last committed: only the
  package base has changed. \<open>own_base i\<close> adds that \<open>i\<close> is its ID, \<open>own i k\<close> that \<open>k\<close> is a package of it.
\<close>

definition pushing :: "string \<Rightarrow> string \<Rightarrow> db \<Rightarrow> world \<Rightarrow> bool" where
  "pushing p user d0 w \<longleftrightarrow> push_step p user d0 (the_db w) \<and> push_step p user d0 (committed w)"

definition own_base :: "string \<Rightarrow> string \<Rightarrow> db \<Rightarrow> nat \<Rightarrow> world \<Rightarrow> bool" where
  "own_base p user d0 i w \<longleftrightarrow> pushing p user d0 w \<and> i \<in> bases_named p (the_db w)"

definition own :: "string \<Rightarrow> string \<Rightarrow> db \<Rightarrow> nat \<Rightarrow> nat \<Rightarrow> world \<Rightarrow> bool" where
  "own p user d0 i k w \<longleftrightarrow> own_base p user d0 i w \<and> k \<in> packages_in (bases_named p (the_db w)) (the_db w)"

lemma keeps_execute:
  "(\<And>w. I w \<Longrightarrow> I (w\<lparr>the_db := f (the_db w)\<rparr>)) \<Longrightarrow> keeps I (execute f)"
  by (simp add: keeps_def execute_def modify_def)

lemma wp_commit_now [wp_simps]: "wp commit_now Q E w = Q () (w\<lparr>committed := the_db w\<rparr>)"
  by (simp add: commit_now_def wp_simps)

lemma keeps_commit_now [keeps_intros]:
  "keeps (pushing p user d0) commit_now" "keeps (own_base p user d0 i) commit_now"
  "keeps (own p user d0 i k) commit_now"
  by (rule keepsI, simp add: wp_simps own_def own_base_def pushing_def)+

lemma named_tables [simp]:
  "bases_named p (d\<lparr>PackageSources := x\<rparr>) = bases_named p d" "packages_in bs (d\<lparr>PackageSources := x\<rparr>) = packages_in bs d"
  "bases_named p (d\<lparr>PackageDepends := x2\<rparr>) = bases_named p d" "packages_in bs (d\<lparr>PackageDepends := x2\<rparr>) = packages_in bs d"
  "bases_named p (d\<lparr>PackageRelations := x3\<rparr>) = bases_named p d" "packages_in bs (d\<lparr>PackageRelations := x3\<rparr>) = packages_in bs d"
  "bases_named p (d\<lparr>PackageLicenses := x4\<rparr>) = bases_named p d" "packages_in bs (d\<lparr>PackageLicenses := x4\<rparr>) = packages_in bs d"
  "bases_named p (d\<lparr>PackageGroups := x5\<rparr>) = bases_named p d" "packages_in bs (d\<lparr>PackageGroups := x5\<rparr>) = packages_in bs d"
  "bases_named p (d\<lparr>Licenses := x6\<rparr>) = bases_named p d" "packages_in bs (d\<lparr>Licenses := x6\<rparr>) = packages_in bs d"
  "bases_named p (d\<lparr>Groups := x7\<rparr>) = bases_named p d" "packages_in bs (d\<lparr>Groups := x7\<rparr>) = packages_in bs d"
  "bases_named p (d\<lparr>PackageNotifications := x8\<rparr>) = bases_named p d"
  "packages_in bs (d\<lparr>PackageNotifications := x8\<rparr>) = packages_in bs d"
  by (simp_all add: bases_named_def packages_in_def)

lemma keeps_insert_source: "keeps (own p user d0 i k) (insert_source k x)"
  unfolding insert_source_def
  by (cases x) (auto simp: own_def own_base_def pushing_def intro!: keeps_execute push_insert_source)

lemma dependency_type_in: "dependency_type name d = Some t \<Longrightarrow> t \<in> dt_ID ` set (DependencyTypes d)"
  by (auto simp: dependency_type_def find_Some_iff)

lemma relation_type_in: "relation_type name d = Some t \<Longrightarrow> t \<in> rt_ID ` set (RelationTypes d)"
  by (auto simp: relation_type_def find_Some_iff)

lemma keeps_insert_depends: "keeps (own p user d0 i k) (insert_depends k x)"
proof (rule keepsI)
  fix w
  assume own: "own p user d0 i k w"
  have step: "wp (insert_depend k t r) (\<lambda>_ w. own p user d0 i k w \<and> t \<in> dt_ID ` set (DependencyTypes (the_db w)))
      (\<lambda>_. own p user d0 i k) w"
    if "own p user d0 i k w \<and> t \<in> dt_ID ` set (DependencyTypes (the_db w))" for t r w
    using that by (cases r) (auto simp: insert_depend_def wp_simps own_def own_base_def pushing_def
        intro!: push_insert_depend)
  obtain deptype infos where x: "x = (deptype, infos)"
    by (cases x)
  have "wp (for_each rows (insert_depend k t)) (\<lambda>_. own p user d0 i k) (\<lambda>_. own p user d0 i k) w"
    if "dependency_type deptype (the_db w) = Some t" for t rows
    by (rule wp_mono, rule wp_for_each_inv [where I = "\<lambda>w. own p user d0 i k w
        \<and> t \<in> dt_ID ` set (DependencyTypes (the_db w))"], rule step)
      (use own dependency_type_in [OF that] in auto)
  then show "wp (insert_depends k x) (\<lambda>_. own p user d0 i k) (\<lambda>_. own p user d0 i k) w"
    using own by (auto simp: insert_depends_def x wp_simps split: option.split)
qed

lemma keeps_insert_relations: "keeps (own p user d0 i k) (insert_relations k x)"
proof (rule keepsI)
  fix w
  assume own: "own p user d0 i k w"
  have step: "wp (insert_relation k t r) (\<lambda>_ w. own p user d0 i k w \<and> t \<in> rt_ID ` set (RelationTypes (the_db w)))
      (\<lambda>_. own p user d0 i k) w"
    if "own p user d0 i k w \<and> t \<in> rt_ID ` set (RelationTypes (the_db w))" for t r w
    using that by (cases r) (auto simp: insert_relation_def wp_simps own_def own_base_def pushing_def
        intro!: push_insert_relation)
  obtain reltype infos where x: "x = (reltype, infos)"
    by (cases x)
  have "wp (for_each rows (insert_relation k t)) (\<lambda>_. own p user d0 i k) (\<lambda>_. own p user d0 i k) w"
    if "relation_type reltype (the_db w) = Some t" for t rows
    by (rule wp_mono, rule wp_for_each_inv [where I = "\<lambda>w. own p user d0 i k w
        \<and> t \<in> rt_ID ` set (RelationTypes (the_db w))"], rule step)
      (use own relation_type_in [OF that] in auto)
  then show "wp (insert_relations k x) (\<lambda>_. own p user d0 i k) (\<lambda>_. own p user d0 i k) w"
    using own by (auto simp: insert_relations_def x wp_simps split: option.split)
qed

lemma keeps_insert_license: "keeps (own p user d0 i k) (insert_license k x)"
proof (rule keepsI)
  fix w
  assume own: "own p user d0 i k w"
  have "wp (license_id x) (\<lambda>l w. own p user d0 i k w \<and> l \<in> li_ID ` set (Licenses (the_db w)))
      (\<lambda>_. own p user d0 i k) w"
    using own next_id_fresh [of "map li_ID (Licenses (the_db w))"]
    by (auto simp: license_id_def wp_simps own_def own_base_def pushing_def find_Some_iff find_None_iff
        intro!: push_insert_license_name split: option.split)
  then show "wp (insert_license k x) (\<lambda>_. own p user d0 i k) (\<lambda>_. own p user d0 i k) w"
    unfolding insert_license_def wp_andthen
    by (rule wp_mono) (auto simp: wp_simps own_def own_base_def pushing_def list_ex_iff
        intro!: push_insert_package_license)
qed

lemma keeps_insert_group: "keeps (own p user d0 i k) (insert_group k x)"
proof (rule keepsI)
  fix w
  assume own: "own p user d0 i k w"
  have "wp (group_id x) (\<lambda>l w. own p user d0 i k w \<and> l \<in> gr_ID ` set (Groups (the_db w)))
      (\<lambda>_. own p user d0 i k) w"
    using own next_id_fresh [of "map gr_ID (Groups (the_db w))"]
    by (auto simp: group_id_def wp_simps own_def own_base_def pushing_def find_Some_iff find_None_iff
        intro!: push_insert_group_name split: option.split)
  then show "wp (insert_group k x) (\<lambda>_. own p user d0 i k) (\<lambda>_. own p user d0 i k) w"
    unfolding insert_group_def wp_andthen
    by (rule wp_mono) (auto simp: wp_simps own_def own_base_def pushing_def list_ex_iff
        intro!: push_insert_package_group)
qed

lemma own_base_commit: "own_base p user d0 i w \<Longrightarrow> own_base p user d0 i (w\<lparr>committed := the_db w\<rparr>)"
  by (simp add: own_base_def pushing_def)

lemma wp_insert_package:
  assumes "own_base p user d0 i w"
  shows "wp (insert_package i name ver desc url) (\<lambda>k. own p user d0 i k) (\<lambda>_. own_base p user d0 i) w"
proof -
  let ?k = "new_package i name ver desc url (the_db w)"
  have i: "i \<in> bases_named p (the_db w)" and step: "push_step p user d0 (the_db w)"
    and com: "push_step p user d0 (committed w)"
    using assms by (auto simp: own_base_def pushing_def)
  have "push_step p user d0 (the_db w\<lparr>Packages := Packages (the_db w) @ [?k]\<rparr>)"
    if "name \<notin> pk_Name ` set (Packages (the_db w))"
    by (rule push_insert_package [OF step])
      (use i that next_id_fresh [of "map pk_ID (Packages (the_db w))"] in \<open>simp_all add: new_package_def package_ids_def\<close>)
  then have ok: "\<forall>k\<in>set (Packages (the_db w)). pk_Name k \<noteq> name \<Longrightarrow>
      push_step p user d0 (the_db w\<lparr>Packages := Packages (the_db w) @ [?k]\<rparr>)"
    by (auto simp: image_iff)
  show ?thesis
    unfolding insert_package_def
    by (simp add: wp_simps list_ex_iff own_def own_base_def pushing_def com step i ok packages_in_insert
        new_package_def del: append.simps)
      (use ok i in \<open>auto simp: packages_in_def new_package_def\<close>)
qed

lemma own_own_base: "own p user d0 i k w \<Longrightarrow> own_base p user d0 i w"
  by (simp add: own_def)

text \<open>A package and what hangs on it, as both hooks store it.\<close>

lemma keeps_store_package:
  assumes "\<And>k. keeps (own p user d0 i k) (f k)"
  shows "keeps (own_base p user d0 i) (andthen (insert_package i name ver desc url) f)"
proof (rule keepsI)
  fix w
  assume "own_base p user d0 i w"
  then show "wp (andthen (insert_package i name ver desc url) f) (\<lambda>_. own_base p user d0 i) (\<lambda>_. own_base p user d0 i) w"
    unfolding wp_andthen
    by (rule wp_mono [OF wp_insert_package])
      (auto intro: wp_mono [OF keeps_wp [OF assms]] dest: own_own_base)
qed

lemma keeps_pkginfo_version [keeps_intros]: "keeps I (pkginfo_version p)"
  unfolding pkginfo_version_def by (intro keeps_intros)

lemma keeps_legacy_package: "keeps (own_base p user d0 i) (legacy_save_package i q)"
  unfolding legacy_save_package_def
  by (intro keeps_intros keeps_store_package keeps_insert_source keeps_insert_depends keeps_insert_relations
      keeps_insert_license keeps_insert_group)

lemma fetch_userid_id:
  "wp (fetch_userid user) Q E w = (case pusher_id user (the_db w) of None \<Rightarrow> E Py_TypeError w | Some i \<Rightarrow> Q i w)"
  by (simp add: fetch_userid_def pusher_id_def wp_simps)

lemma wp_begin_update:
  assumes "pushing p user d0 w"
  shows "wp (begin_update p user) (\<lambda>(i, userid, _) w'. own_base p user d0 i w' \<and> pusher_id user (the_db w') = Some userid)
     (\<lambda>_. pushing p user d0) w"
proof -
  let ?d = "the_db w"
  have step: "push_step p user d0 ?d" and com: "push_step p user d0 (committed w)"
    using assms by (simp_all add: pushing_def)
  have "pushing p user d0 w3 \<and> pb_ID b \<in> bases_named p (the_db w3) \<and> pusher_id user (the_db w3) = Some userid"
    if b: "List.find (\<lambda>b. pb_Name b = p) (PackageBases ?d) = Some b" and u: "pusher_id user ?d = Some userid"
      and w3: "w3 = w\<lparr>the_db := delete_packages (\<lambda>k. pk_PackageBaseID k = pb_ID b)
        (?d\<lparr>PackageBases := update_where (\<lambda>x. pb_ID x = pb_ID b) (adopt_orphan userid)
          (update_where (\<lambda>x. pb_ID x = pb_ID b) (touch_pkgbase userid (now w)) (PackageBases ?d))\<rparr>)\<rparr>"
    for b userid w3
  proof -
    have i: "pb_ID b \<in> bases_named p ?d"
      using b by (auto simp: bases_named_def find_Some_iff)
    let ?d1 = "?d\<lparr>PackageBases := update_where (\<lambda>x. pb_ID x = pb_ID b) (touch_pkgbase userid (now w)) (PackageBases ?d)\<rparr>"
    let ?d2 = "?d1\<lparr>PackageBases := update_where (\<lambda>x. pb_ID x = pb_ID b) (adopt_orphan userid) (PackageBases ?d1)\<rparr>"
    have s1: "push_step p user d0 ?d1"
      by (rule push_update_base [OF step i]) (simp_all add: touch_pkgbase_def pusher_id_id [OF u])
    have i1: "pb_ID b \<in> bases_named p ?d1"
      using i by (simp add: bases_named_keys map_update_where_same touch_pkgbase_def del: set_map)
    have u1: "pusher_id user ?d1 = Some userid"
      using u by (simp add: pusher_id_def)
    have s2: "push_step p user d0 ?d2"
      by (rule push_update_base [OF s1 i1]) (simp_all add: adopt_orphan_def u1)
    have i2: "pb_ID b \<in> bases_named p ?d2"
      using i1 by (simp add: bases_named_keys map_update_where_same adopt_orphan_def del: set_map)
    have "push_step p user d0 (delete_packages (\<lambda>k. pk_PackageBaseID k = pb_ID b) ?d2)"
      by (rule push_delete_packages [OF s2 i2])
    moreover have "pb_ID b \<in> bases_named p (delete_packages (\<lambda>k. pk_PackageBaseID k = pb_ID b) ?d2)"
      using i2 by (simp add: bases_named_def delete_packages_def Let_def)
    ultimately show ?thesis
      using com u by (simp add: w3 pushing_def pusher_id_def delete_packages_def Let_def)
  qed
  then show ?thesis
    using assms unfolding begin_update_def
    by (auto simp: wp_simps fetch_userid_id own_base_def split: option.split)
qed

lemma wp_insert_notification:
  assumes "pushing p user d0 w" and "i \<in> bases_named p (the_db w)" and "pusher_id user (the_db w) = Some userid"
  shows "wp (insert_notification i userid) (\<lambda>_. own_base p user d0 i) (\<lambda>_. pushing p user d0) w"
  using assms unfolding insert_notification_def
  by (auto simp: wp_simps own_base_def pushing_def has_notification_def list_ex_iff notify_row_def pusher_id_id
      intro!: push_insert_notification)

lemma wp_end_update:
  assumes "own_base p user d0 i w" and "pusher_id user (the_db w) = Some userid"
  shows "wp (end_update i userid was_orphan) (\<lambda>_. pushing p user d0) (\<lambda>_. pushing p user d0) w"
proof -
  have "pushing p user d0 (w'\<lparr>committed := the_db w'\<rparr>)" if "pushing p user d0 w'" for w'
    using that by (simp add: pushing_def)
  moreover have "wp (insert_notification i userid) (\<lambda>_. own_base p user d0 i) (\<lambda>_. pushing p user d0) w"
    by (rule wp_insert_notification) (use assms in \<open>auto simp: own_base_def\<close>)
  ultimately show ?thesis
    using assms(1) unfolding end_update_def
    by (auto simp: wp_simps own_base_def elim: wp_mono)
qed

lemma wp_create_pkgbase:
  assumes "pushing p user d0 w"
  shows "wp (create_pkgbase p user) (\<lambda>i. own_base p user d0 i) (\<lambda>_. pushing p user d0) w"
proof -
  let ?d = "the_db w"
  have step: "push_step p user d0 ?d" and com: "push_step p user d0 (committed w)"
    using assms by (simp_all add: pushing_def)
  have new: "wp (seqp (insert_notification (pb_ID b) userid) (seqp commit_now (ret (pb_ID b))))
      (\<lambda>i. own_base p user d0 i) (\<lambda>_. pushing p user d0) (w\<lparr>the_db := ?d\<lparr>PackageBases := PackageBases ?d @ [b]\<rparr>\<rparr>)"
    if u: "pusher_id user ?d = Some userid" and b: "b = new_pkgbase p userid (now w) ?d"
      and new: "\<not> list_ex (\<lambda>b. pb_Name b = p) (PackageBases ?d)" for userid b
  proof -
    have s1: "push_step p user d0 (?d\<lparr>PackageBases := PackageBases ?d @ [b]\<rparr>)"
      by (rule push_insert_base [OF step])
        (use u new next_id_fresh [of "map pb_ID (PackageBases ?d)"] pusher_id_id [OF u]
         in \<open>auto simp: b new_pkgbase_def packagebases_default_def base_ids_def list_ex_iff\<close>)
    have "pb_Name b = p"
      by (simp add: b new_pkgbase_def)
    then have i: "pb_ID b \<in> bases_named p (the_db (w\<lparr>the_db := ?d\<lparr>PackageBases := PackageBases ?d @ [b]\<rparr>\<rparr>))"
      by (auto simp: bases_named_def)
    have "wp (insert_notification (pb_ID b) userid) (\<lambda>_. own_base p user d0 (pb_ID b)) (\<lambda>_. pushing p user d0)
        (w\<lparr>the_db := ?d\<lparr>PackageBases := PackageBases ?d @ [b]\<rparr>\<rparr>)"
      by (rule wp_insert_notification [OF _ i]) (use s1 com u in \<open>simp_all add: pushing_def pusher_id_def\<close>)
    then show ?thesis
      unfolding wp_seqp by (rule wp_mono) (auto simp: wp_simps pushing_def own_base_def)
  qed
  show ?thesis
  proof (cases "pusher_id user ?d")
    case None
    with assms show ?thesis
      by (simp only: create_pkgbase_def wp_andthen fetch_userid_id option.case)
  next
    case (Some userid)
    show ?thesis
      unfolding create_pkgbase_def wp_andthen fetch_userid_id Some option.case wp_utcnow wp_query
        wp_seqp [of "insert_unless c f" for c f] wp_insert_unless
      using assms new [OF Some refl] by auto
  qed
qed

text \<open>Programs that never call \<open>exit\<close>.\<close>

definition no_exit :: "'a aur \<Rightarrow> bool" where
  "no_exit m \<longleftrightarrow> (\<forall>w. wp m (\<lambda>_ _. True) (\<lambda>e _. \<forall>n. e \<noteq> SystemExit n) w)"

named_theorems exit_intros

lemma no_exit_basic [exit_intros]:
  "no_exit (ret x)" "no_exit (gets f)" "no_exit (query g)" "no_exit (execute h)" "no_exit (send n)" "no_exit utcnow"
  "no_exit (insert_unless c h)" "no_exit commit_now" "(\<And>n. e \<noteq> SystemExit n) \<Longrightarrow> no_exit (throw e)"
  "(\<And>n. e \<noteq> SystemExit n) \<Longrightarrow> no_exit (the_or e y)" "no_exit (modify k)"
  by (auto simp: no_exit_def wp_simps split: option.split)

lemma no_exit_andthen [exit_intros]: "no_exit m \<Longrightarrow> (\<And>x. no_exit (f x)) \<Longrightarrow> no_exit (andthen m f)"
  unfolding no_exit_def wp_andthen by (blast intro: wp_mono)

lemma no_exit_seqp [exit_intros]: "no_exit m \<Longrightarrow> no_exit n \<Longrightarrow> no_exit (seqp m n)"
  by (simp add: seqp_def exit_intros)

lemma no_exit_whenp [exit_intros]: "no_exit m \<Longrightarrow> no_exit (whenp c m)"
  by (simp add: whenp_def exit_intros)

lemma no_exit_if [exit_intros]: "no_exit m \<Longrightarrow> no_exit n \<Longrightarrow> no_exit (if c then m else n)"
  by simp

lemma no_exit_case_option [exit_intros]:
  "no_exit m \<Longrightarrow> (\<And>x. no_exit (f x)) \<Longrightarrow> no_exit (case y of None \<Rightarrow> m | Some x \<Rightarrow> f x)"
  by (cases y) simp_all

lemma no_exit_case_prod [exit_intros]: "(\<And>a b. no_exit (f a b)) \<Longrightarrow> no_exit (case x of (a, b) \<Rightarrow> f a b)"
  by (cases x) simp

lemma no_exit_for_each [exit_intros]: "(\<And>x. no_exit (f x)) \<Longrightarrow> no_exit (for_each xs f)"
  by (induction xs) (simp_all add: exit_intros)

lemma no_exit_package_rows [exit_intros]:
  "no_exit (insert_source k s)" "no_exit (insert_depends k x)" "no_exit (insert_relations k x)"
  "no_exit (insert_license k l)" "no_exit (insert_group k l)" "no_exit (insert_package i name ver desc url)"
  "no_exit (begin_update p user)" "no_exit (end_update i userid was)" "no_exit (fetch_userid user)"
  "no_exit (create_pkgbase p user)"
  unfolding insert_source_def insert_depends_def insert_depend_def insert_relations_def insert_relation_def
    insert_license_def license_id_def insert_group_def group_id_def insert_package_def begin_update_def
    end_update_def insert_notification_def fetch_userid_def create_pkgbase_def
  by (intro exit_intros; simp)+

lemma no_exit_legacy_package [exit_intros]: "no_exit (legacy_save_package i q)"
  unfolding legacy_save_package_def pkginfo_version_def by (intro exit_intros; simp)

section \<open>The laws of a backend\<close>

text \<open>\<open>quiet m\<close>: \<open>m\<close> changes nothing but the error output.\<close>

definition same_but_err :: "world \<Rightarrow> world \<Rightarrow> bool" where
  "same_but_err w w' \<longleftrightarrow> (\<exists>s. w' = w\<lparr>stderr := stderr w @ s\<rparr>)"

definition quiet :: "'a aur \<Rightarrow> bool" where
  "quiet m \<longleftrightarrow> (\<forall>w. keeps (same_but_err w) m)"

named_theorems quiet_intros

lemma same_but_err_refl: "same_but_err w w"
  unfolding same_but_err_def by (rule exI [of _ "[]"]) simp

lemma same_but_err_append: "same_but_err w0 w \<Longrightarrow> same_but_err w0 (w\<lparr>stderr := stderr w @ s\<rparr>)"
  unfolding same_but_err_def by auto

lemma wp_hook_die: "wp (hook_die msg) Q E w = E (SystemExit 1) (w\<lparr>stderr := stderr w @ [''error: '' @ msg @ [nl]]\<rparr>)"
  by (simp only: hook_die_def wp_simps)

lemma quiet_write_err [quiet_intros]: "quiet (write_err s)"
  unfolding quiet_def keeps_def write_err_def modify_def same_but_err_def by auto

lemma quiet_query [quiet_intros]: "quiet (query f)"
  by (simp add: quiet_def keeps_intros)

lemma quiet_ret [quiet_intros]: "quiet (ret x)"
  by (simp add: quiet_def keeps_intros)

lemma quiet_throw [quiet_intros]: "quiet (throw e)"
  by (simp add: quiet_def keeps_intros)

lemma quiet_gets [quiet_intros]: "quiet (gets f)"
  by (simp add: quiet_def keeps_intros)

lemma quiet_the_or [quiet_intros]: "quiet (the_or e x)"
  by (simp add: quiet_def keeps_intros)

lemma quiet_andthen [quiet_intros]: "quiet m \<Longrightarrow> (\<And>x. quiet (f x)) \<Longrightarrow> quiet (andthen m f)"
  by (simp add: quiet_def keeps_intros)

lemma quiet_seqp [quiet_intros]: "quiet m \<Longrightarrow> quiet n \<Longrightarrow> quiet (seqp m n)"
  by (simp add: quiet_def keeps_intros)

lemma quiet_whenp [quiet_intros]: "quiet m \<Longrightarrow> quiet (whenp c m)"
  by (simp add: quiet_def keeps_intros)

lemma quiet_if [quiet_intros]: "quiet m \<Longrightarrow> quiet n \<Longrightarrow> quiet (if c then m else n)"
  by simp

lemma quiet_case_option [quiet_intros]:
  "quiet m \<Longrightarrow> (\<And>x. quiet (f x)) \<Longrightarrow> quiet (case y of None \<Rightarrow> m | Some x \<Rightarrow> f x)"
  by (cases y) simp_all

lemma quiet_for_each [quiet_intros]: "(\<And>x. quiet (f x)) \<Longrightarrow> quiet (for_each xs f)"
  by (simp add: quiet_def keeps_intros)

lemma quiet_case_prod [quiet_intros]: "(\<And>a b. quiet (f a b)) \<Longrightarrow> quiet (case x of (a, b) \<Rightarrow> f a b)"
  by (cases x) simp

lemma quiet_messages [quiet_intros]:
  "quiet (hook_die msg)" "quiet (hook_warn msg)" "quiet (die_commit msg c)" "quiet (require ok msg cm)"
  "quiet (warn_or_die env msg)"
  unfolding hook_die_def hook_warn_def die_commit_def require_def warn_or_die_def
  by (intro quiet_intros)+

lemma quiet_children [quiet_intros]: "quiet (children obj)"
  by (cases obj) (simp_all add: quiet_intros)

lemma quiet_object_data [quiet_intros]: "quiet (object_data obj)"
  by (cases obj) (simp_all add: quiet_intros)

lemma quiet_wp: "quiet m \<Longrightarrow> same_but_err w0 w \<Longrightarrow> wp m (\<lambda>_. same_but_err w0) (\<lambda>_. same_but_err w0) w"
  unfolding quiet_def by (blast intro: keeps_wp)

lemma same_but_err_db: "same_but_err w w' \<Longrightarrow> the_db w' = the_db w \<and> committed w' = committed w
    \<and> references w' = references w \<and> sent w' = sent w \<and> now w' = now w"
  by (auto simp: same_but_err_def)

lemma pushing_quiet: "pushing p user d0 w \<Longrightarrow> quiet m \<Longrightarrow> wp m (\<lambda>_. pushing p user d0) (\<lambda>_. pushing p user d0) w"
  by (rule wp_mono [OF quiet_wp [OF _ same_but_err_refl]]) (auto dest: same_but_err_db simp: pushing_def)

lemma wp_quiet:
  assumes "quiet m" and "same_but_err w0 w" and "\<And>x w'. same_but_err w0 w' \<Longrightarrow> Q x w'"
    and "\<And>e w'. same_but_err w0 w' \<Longrightarrow> E e w'"
  shows "wp m Q E w"
  using quiet_wp [OF assms(1,2)] by (rule wp_mono) (use assms(3,4) in auto)

text \<open>\<open>untouched w w'\<close>: of what the site stores and sends, nothing has changed.\<close>

definition untouched :: "world \<Rightarrow> world \<Rightarrow> bool" where
  "untouched w w' \<longleftrightarrow> (\<exists>s c. w' = w\<lparr>stderr := stderr w @ s, committed := c\<rparr>)"

lemma untouchedI: "w' = w\<lparr>stderr := stderr w @ s, committed := c\<rparr> \<Longrightarrow> untouched w w'"
  unfolding untouched_def by (rule exI, rule exI)

lemma same_untouched: "same_but_err w w' \<Longrightarrow> untouched w w'"
  unfolding same_but_err_def by (elim exE, rule untouchedI [where c = "committed w"]) (cases w, simp)

lemma committed_stderr: "w\<lparr>committed := c, stderr := s\<rparr> = w\<lparr>stderr := s, committed := c\<rparr>"
  by (cases w) simp

lemma wp_connection:
  "wp (connection m) Q E w = wp m (\<lambda>x w'. Q x (w'\<lparr>the_db := committed w'\<rparr>))
     (\<lambda>e w'. E e (w'\<lparr>the_db := committed w'\<rparr>)) (w\<lparr>committed := the_db w\<rparr>)"
  by (auto simp: wp_def connection_def split: prod.splits sum.splits)

text \<open>
  The interface of a backend: reading and checking change nothing, and storing the metadata changes only
  the package base the metadata names and does not exit.
\<close>

locale metadata_backend =
  fixes be :: "'m backend"
  assumes read_quiet: "quiet (read_metadata be c raw)"
    and licenses_quiet: "quiet (check_licenses be c)"
    and save_pushing: "base_name be m = p \<Longrightarrow> pushing p user d0 w \<Longrightarrow>
      wp (save_metadata be m user) (\<lambda>_. pushing p user d0) (\<lambda>_. pushing p user d0) w"
    and save_no_exit: "no_exit (save_metadata be m user)"
begin

lemma validate_quiet: "quiet (validate_push cfg be repo sha1_old sha1_new)"
  unfolding validate_push_def validate_commit_def validate_root_def validate_keys_def validate_blob_size_def
    warn_unchanged_def tree_entry_def
  by (intro quiet_intros read_quiet licenses_quiet)

lemma names_quiet: "quiet (check_names be env m)"
  unfolding check_names_def check_package_name_def Let_def by (intro quiet_intros)

lemma check_names_base:
  assumes "same_but_err w0 w"
  shows "wp (check_names be env m) (\<lambda>_ w'. same_but_err w0 w' \<and> base_name be m = env_pkgbase env) (\<lambda>_. same_but_err w0) w"
proof (cases "base_name be m = env_pkgbase env")
  case True
  then show ?thesis
    using quiet_wp [OF names_quiet assms] by simp
next
  case False
  then show ?thesis
    unfolding check_names_def Let_def wp_seqp wp_whenp wp_hook_die
    by (simp only: if_True not_False_eq_True same_but_err_append assms)
qed

lemma store_pushing:
  assumes "pushing p user d0 w" and "base_name be m = p" and "env_user env = user"
  shows "wp (store_push be env sha1 m known) (\<lambda>_. pushing p user d0) (\<lambda>_. pushing p user d0) w"
proof -
  have rest: "keeps (pushing p user d0) (seqp (create_reference n1 sha1) (seqp (create_reference n2 sha1)
      (update_notify user i)))" for n1 n2 i
    unfolding create_reference_def update_notify_def fetch_userid_def send_def
    by (intro keeps_intros) (auto simp: pushing_def)
  have stored: "wp (seqp (save_metadata be m user) (seqp (create_reference n1 sha1) (seqp (create_reference n2 sha1)
      (update_notify user i)))) (\<lambda>_. pushing p user d0) (\<lambda>_. pushing p user d0) w'"
    if "pushing p user d0 w'" for w' n1 n2 i
    unfolding wp_seqp [of "save_metadata be m user"]
    by (rule wp_mono [OF save_pushing [OF assms(2) that]]) (use keeps_wp [OF rest] in auto)
  have "wp (if known = 0 then create_pkgbase p user else ret known) (\<lambda>_. pushing p user d0) (\<lambda>_. pushing p user d0) w"
    using assms(1) wp_mono [OF wp_create_pkgbase [OF assms(1)], of "\<lambda>_. pushing p user d0" "\<lambda>_. pushing p user d0"]
    by (auto simp: wp_ret own_base_def)
  then show ?thesis
    unfolding store_push_def Let_def wp_andthen assms(2,3)
    by (rule wp_mono) (rule stored, assumption+)
qed

text \<open>A run of the hook, up to the point where the package base is stored.\<close>

lemma hook_steps:
  assumes stored: "\<And>m known sha1 w'. untouched w w' \<Longrightarrow> committed w' = the_db w \<Longrightarrow> base_name be m = env_pkgbase env \<Longrightarrow>
      wp (store_push be env sha1 m known) (\<lambda>_ w'. Q (w'\<lparr>the_db := committed w'\<rparr>))
        (\<lambda>e w'. E e (w'\<lparr>the_db := committed w'\<rparr>)) w'"
    and stopped: "\<And>e w'. untouched w w' \<Longrightarrow> E e w'"
  shows "wp (hook_main cfg be repo env argv) (\<lambda>_. Q) E w"
proof -
  have range: "quiet (pushed_range env argv)"
    unfolding pushed_range_def by (intro quiet_intros)
  have body: "wp (seqp (deny_non_fast_forward repo env sha1_old sha1_new)
       (andthen (validate_push cfg be repo sha1_old sha1_new) (\<lambda>metadata.
       andthen (check_names be env metadata) (\<lambda>pkgbase_id.
       store_push be env sha1_new metadata pkgbase_id))))
       (\<lambda>_ w'. Q (w'\<lparr>the_db := committed w'\<rparr>)) (\<lambda>e w'. E e (w'\<lparr>the_db := committed w'\<rparr>)) w2"
    if w1: "same_but_err w w1" and w2: "w2 = w1\<lparr>committed := the_db w1\<rparr>" for w1 w2 sha1_old sha1_new
  proof -
    have inside: "untouched w w' \<and> committed w' = the_db w" if w': "same_but_err w2 w'" for w'
    proof -
      from w1 obtain t where t: "w1 = w\<lparr>stderr := stderr w @ t\<rparr>"
        unfolding same_but_err_def ..
      from w' obtain s where "w' = w2\<lparr>stderr := stderr w2 @ s\<rparr>"
        unfolding same_but_err_def ..
      then have "w' = w\<lparr>stderr := stderr w @ (t @ s), committed := the_db w\<rparr>"
        by (simp add: w2 t committed_stderr)
      then show ?thesis
        by (auto intro: untouchedI)
    qed
    have stop: "E e (w'\<lparr>the_db := committed w'\<rparr>)" if w': "same_but_err w2 w'" for e w'
    proof -
      have "the_db w' = the_db w"
        using inside [OF w'] unfolding untouched_def by auto
      then have "w'\<lparr>the_db := committed w'\<rparr> = w'"
        using inside [OF w'] by (cases w') simp
      then show ?thesis
        using stopped inside [OF w'] by simp
    qed
    have deny: "quiet (deny_non_fast_forward repo env sha1_old sha1_new)"
      unfolding deny_non_fast_forward_def by (intro quiet_intros)
    show ?thesis
      unfolding wp_seqp wp_andthen
    proof (rule wp_quiet [OF deny same_but_err_refl _ stop])
      fix w3 assume w3: "same_but_err w2 w3"
      show "wp (validate_push cfg be repo sha1_old sha1_new) (\<lambda>m. wp (check_names be env m)
          (\<lambda>i. wp (store_push be env sha1_new m i) (\<lambda>_ w'. Q (w'\<lparr>the_db := committed w'\<rparr>))
            (\<lambda>e w'. E e (w'\<lparr>the_db := committed w'\<rparr>))) (\<lambda>e w'. E e (w'\<lparr>the_db := committed w'\<rparr>)))
          (\<lambda>e w'. E e (w'\<lparr>the_db := committed w'\<rparr>)) w3"
      proof (rule wp_quiet [OF validate_quiet w3 _ stop])
        fix m w4 assume "same_but_err w2 w4"
        then show "wp (check_names be env m)
            (\<lambda>i. wp (store_push be env sha1_new m i) (\<lambda>_ w'. Q (w'\<lparr>the_db := committed w'\<rparr>))
              (\<lambda>e w'. E e (w'\<lparr>the_db := committed w'\<rparr>))) (\<lambda>e w'. E e (w'\<lparr>the_db := committed w'\<rparr>)) w4"
          by (rule wp_mono [OF check_names_base]) (use inside stored stop in auto)
      qed
    qed
  qed
  have die: "quiet (whenp c (hook_die msg))" for c msg
    by (intro quiet_intros)
  have same: "E e w'" if "same_but_err w w'" for e w'
    by (rule stopped) (rule same_untouched [OF that])
  show ?thesis
    unfolding hook_main_def wp_andthen
  proof (rule wp_quiet [OF range same_but_err_refl _ same])
    fix x :: "string \<times> string \<times> string" and w1 assume w1: "same_but_err w w1"
    obtain refname sha1_old sha1_new where x: "x = (refname, sha1_old, sha1_new)"
      by (cases x)
    show "wp (case x of (refname, sha1_old, sha1_new) \<Rightarrow>
        seqp (whenp (refname \<noteq> ''refs/heads/master'') (hook_die ''pushing to a branch other than master is restricted''))
          (connection (seqp (deny_non_fast_forward repo env sha1_old sha1_new)
            (andthen (validate_push cfg be repo sha1_old sha1_new) (\<lambda>metadata.
              andthen (check_names be env metadata) (\<lambda>pkgbase_id.
                store_push be env sha1_new metadata pkgbase_id)))))) (\<lambda>_. Q) E w1"
      unfolding x prod.case wp_seqp [of "whenp c m" for c m]
      by (rule wp_quiet [OF die w1 _ same], unfold wp_connection) (rule body, assumption, rule refl)
  qed
qed

lemma hook_confined:
  assumes "db_ok (the_db w)" and "packages_ok (the_db w)"
  shows "push_step (env_pkgbase env) (env_user env) (the_db w) (the_db (snd (hook_main cfg be repo env argv w)))"
proof -
  let ?P = "push_step (env_pkgbase env) (env_user env) (the_db w)"
  have start: "?P (the_db w)"
    by (rule push_step_refl [OF assms])
  have "wp (hook_main cfg be repo env argv) (\<lambda>_ w'. ?P (the_db w')) (\<lambda>_ w'. ?P (the_db w')) w"
  proof (rule hook_steps)
    fix m known sha1 w'
    assume u: "untouched w w'" and c: "committed w' = the_db w" and b: "base_name be m = env_pkgbase env"
    have "pushing (env_pkgbase env) (env_user env) (the_db w) w'"
      using u c start by (auto simp: pushing_def untouched_def)
    then show "wp (store_push be env sha1 m known) (\<lambda>_ w'. ?P (the_db (w'\<lparr>the_db := committed w'\<rparr>)))
        (\<lambda>_ w'. ?P (the_db (w'\<lparr>the_db := committed w'\<rparr>))) w'"
      by (rule wp_mono [OF store_pushing]) (use b in \<open>auto simp: pushing_def\<close>)
  next
    fix w'
    assume "untouched w w'"
    then show "?P (the_db w')"
      using start by (auto simp: untouched_def)
  qed
  then show ?thesis
    by (rule snd_wp [THEN iffD2])
qed

text \<open>Whoever is told that the push failed has changed nothing.\<close>

lemma hook_refused:
  assumes "hook_main cfg be repo env argv w = (Inl (SystemExit n), w')"
  shows "untouched w w'"
proof -
  have exit: "no_exit (store_push be env sha1 m known)" for sha1 m known
    unfolding store_push_def Let_def create_reference_def update_notify_def
    by (intro exit_intros save_no_exit)
  have "wp (hook_main cfg be repo env argv) (\<lambda>_ _. True) (\<lambda>e w'. (\<exists>n. e = SystemExit n) \<longrightarrow> untouched w w') w"
  proof (rule hook_steps)
    show "wp (store_push be env sha1 m known) (\<lambda>_ _. True)
        (\<lambda>e w'. (\<exists>n. e = SystemExit n) \<longrightarrow> untouched w (w'\<lparr>the_db := committed w'\<rparr>)) w'" for m known sha1 w'
      by (rule wp_mono [OF exit [unfolded no_exit_def, THEN spec]]) auto
  qed simp
  with assms show ?thesis
    by (simp add: wp_def)
qed

end

section \<open>The legacy hook\<close>

lemma legacy_read_quiet: "quiet (read_srcinfo cfg opts c raw)"
  unfolding read_srcinfo_def show_parse_errors_def validate_metadata_def validate_package_def validate_source_def
  by (intro quiet_intros)

lemma legacy_licenses_quiet: "quiet (validate_licenses opts c)"
  unfolding validate_licenses_def by (intro quiet_intros)

text \<open>Storing the metadata, for a backend that stores packages one by one.\<close>

lemma wp_store_packages:
  assumes "\<And>i q. keeps (own_base p user d0 i) (f i q)" and "pushing p user d0 w"
  shows "wp (andthen (begin_update p user) (\<lambda>(i, userid, was_orphan).
       seqp (for_each qs (f i)) (end_update i userid was_orphan)))
     (\<lambda>_. pushing p user d0) (\<lambda>_. pushing p user d0) w"
proof -
  have rest: "wp (seqp (for_each qs (f i)) (end_update i userid orphan)) (\<lambda>_. pushing p user d0) (\<lambda>_. pushing p user d0) w'"
    if "own_base p user d0 i w'" "pusher_id user (the_db w') = Some userid" for i userid orphan w'
  proof -
    have users: "pusher_id user (the_db w2) = pusher_id user (the_db w')" if "own_base p user d0 i w2" for w2
      using that \<open>own_base p user d0 i w'\<close> pusher_id_push by (auto simp: own_base_def pushing_def)
    show ?thesis
      unfolding wp_seqp
      by (rule wp_mono [OF keeps_wp [OF keeps_for_each [OF assms(1)] that(1)]])
        (use users that(2) wp_end_update in \<open>auto simp: own_base_def\<close>)
  qed
  show ?thesis
    unfolding wp_andthen
    by (rule wp_mono [OF wp_begin_update [OF assms(2)]]) (auto intro: rest)
qed

interpretation legacy: metadata_backend "legacy_backend cfg opts" for cfg opts
proof
  show "quiet (read_metadata (legacy_backend cfg opts) c raw)" for c raw
    by (simp add: legacy_backend_def legacy_read_quiet)
  show "quiet (check_licenses (legacy_backend cfg opts) c)" for c
    by (simp add: legacy_backend_def legacy_licenses_quiet)
  show "no_exit (save_metadata (legacy_backend cfg opts) m user)" for m user
    unfolding legacy_backend_def backend.simps legacy_save_metadata_def by (intro exit_intros; simp)
  fix m :: srcinfo and p user :: string and d0 :: db and w :: world
  assume "base_name (legacy_backend cfg opts) m = p" and w: "pushing p user d0 w"
  then have p: "si_pkgbase m = Some q \<Longrightarrow> q = p" for q
    by (simp add: legacy_backend_def)
  have keeps: "keeps (own_base p user d0 i) (case x of (_, q) \<Rightarrow> legacy_save_package i q)" for i and x :: "string \<times> pkginfo"
    by (cases x) (simp add: keeps_legacy_package)
  show "wp (save_metadata (legacy_backend cfg opts) m user) (\<lambda>_. pushing p user d0) (\<lambda>_. pushing p user d0) w"
    unfolding legacy_backend_def backend.simps legacy_save_metadata_def
    using wp_store_packages [OF keeps w] w p
    by (cases "si_pkgbase m") (auto simp: wp_the_or wp_andthen [of "the_or e x" for e x])
qed

end
