(* ===== verification/Git_Update_Alpm.thy ===== *)
theory Git_Update_Alpm
  imports Git_Push
begin

text \<open>
  The update hook on the ALPM parser, \<open>aurweb/git/update.py\<close>: the second backend of \<open>hook_main\<close>. The
  parser, what it merges for a package and an architecture, and the run of \<open>pkgctl\<close> are given.
\<close>

section \<open>Relations\<close>

text \<open>The relations of \<open>alpm.alpm_types\<close>, with the attributes the hook reads.\<close>

datatype relation =
    PackageRelation string "string option"
  | OptionalDependency string "string option" "string option"
  | SonameV1 (sv1_name: string) (sv1_version: "string option") (sv1_soname: "string option") (sv1_elf: "int option")
  | SonameV2 string string

fun sql_rel_name :: "relation \<Rightarrow> string" where
  "sql_rel_name (PackageRelation name _) = name"
| "sql_rel_name (OptionalDependency name _ _) = name"
| "sql_rel_name (SonameV1 name _ _ _) = name"
| "sql_rel_name (SonameV2 pre soname) = pre @ '':'' @ soname"

fun sql_rel_description :: "relation \<Rightarrow> string" where
  "sql_rel_description (OptionalDependency _ _ (Some description)) = description"
| "sql_rel_description _ = []"

fun sql_rel_requirement :: "relation \<Rightarrow> string" where
  "sql_rel_requirement (PackageRelation _ (Some req)) = req"
| "sql_rel_requirement (OptionalDependency _ (Some req) _) = req"
| "sql_rel_requirement (SonameV1 _ version soname elf) =
     (let elf_arch = (case elf of None \<Rightarrow> [] | Some n \<Rightarrow> ''-'' @ str_int n) in
      case soname of Some s \<Rightarrow> ''='' @ s @ elf_arch
      | None \<Rightarrow> (case version of Some v \<Rightarrow> ''='' @ v @ elf_arch | None \<Rightarrow> []))"
| "sql_rel_requirement _ = []"

definition any_arch :: string where
  "any_arch = ''any''"

definition sql_architecture :: "string \<Rightarrow> string option" where
  "sql_architecture arch = (if arch = any_arch then None else Some arch)"

section \<open>Metadata\<close>

text \<open>\<open>MergedPackage(arch, base, package)\<close> of the library, and the metadata of a \<open>.SRCINFO\<close>.\<close>

record merged_package =
  mp_name :: string
  mp_description :: "string option"
  mp_url :: "string option"
  mp_install :: "string option"
  mp_changelog :: "string option"
  mp_sources :: "string list"
  mp_dependencies :: "relation list"
  mp_make_dependencies :: "relation list"
  mp_check_dependencies :: "relation list"
  mp_optional_dependencies :: "relation list"
  mp_conflicts :: "relation list"
  mp_provides :: "relation list"
  mp_replaces :: "relation list"
  mp_licenses :: "string list"
  mp_groups :: "string list"

record alpm_srcinfo =
  ai_base :: string
  ai_version :: string
  ai_architectures :: "string list"
  ai_packages :: "(string \<times> (string \<Rightarrow> merged_package)) list"

datatype pkgctl_result = Compliant | Executable_Not_Found | Check_Failed | Timeout_Expired

record alpm_options =
  source_info_from_str :: "string \<Rightarrow> string + alpm_srcinfo"
  alpm_decode :: "string \<Rightarrow> string option"
  license_check_timeout :: "int option"
  pkgctl_executable :: "string option"
  run_pkgctl :: "commit \<Rightarrow> pkgctl_result"

text \<open>\<open>s.replace(t, "")\<close>.\<close>

function remove_all :: "string \<Rightarrow> string \<Rightarrow> string" where
  "remove_all t [] = []"
| "remove_all t (c # s) = (if t \<noteq> [] \<and> startswith (c # s) t then remove_all t (drop (length t) (c # s))
     else c # remove_all t s)"
  by pat_completeness auto
termination
  by (relation "measure (\<lambda>(_, s). length s)") auto

text \<open>\<open>str\<close> of an attribute that may be missing.\<close>

definition str_option :: "string option \<Rightarrow> string" where
  "str_option x = (case x of None \<Rightarrow> ''None'' | Some s \<Rightarrow> s)"

definition alpm_validate_package :: "alpm_srcinfo \<Rightarrow> commit \<Rightarrow> (string \<Rightarrow> merged_package) \<Rightarrow> unit aur" where
  "alpm_validate_package m c merged = (let p = merged any_arch in
     seqp (for_each [(''pkgname'', 255, mp_name p), (''pkgdesc'', 255, str_option (mp_description p)),
         (''url'', 8000, str_option (mp_url p))] (\<lambda>(field, limit, value).
       require (int (length value) \<le> limit) (field @ '' field too long: '' @ value) c))
     (seqp (for_each [(''install'', mp_install p), (''changelog'', mp_changelog p)] (\<lambda>(field, value).
       case value of None \<Rightarrow> ret ()
       | Some f \<Rightarrow> require (in_tree f c) (''missing '' @ field @ '' file: '' @ f) c))
     (for_each (ai_architectures m) (\<lambda>arch. for_each (mp_sources (merged arch)) (validate_source c)))))"

definition alpm_validate_metadata :: "alpm_srcinfo \<Rightarrow> commit \<Rightarrow> unit aur" where
  "alpm_validate_metadata m c = for_each (ai_packages m) (\<lambda>(_, merged). alpm_validate_package m c merged)"

definition alpm_read :: "alpm_options \<Rightarrow> commit \<Rightarrow> string \<Rightarrow> alpm_srcinfo aur" where
  "alpm_read opts c raw =
     andthen (the_or Py_ValueError (alpm_decode opts raw)) (\<lambda>text.
     case source_info_from_str opts text of
       Inl err \<Rightarrow> die_commit (remove_all ''alpm_srcinfo.SourceInfoError: '' err) (c_id c)
     | Inr m \<Rightarrow> seqp (alpm_validate_metadata m c) (ret m))"

definition alpm_licenses :: "alpm_options \<Rightarrow> commit \<Rightarrow> unit aur" where
  "alpm_licenses opts c = (case c_path c ''LICENSES'' of None \<Rightarrow> ret () | Some licenses \<Rightarrow>
     andthen (children licenses) (\<lambda>objs.
     seqp (for_each objs (\<lambda>obj. require (is_blob obj) ''the subdir may only contain files'' c))
     (case license_check_timeout opts of None \<Rightarrow> hook_die ''license_check_timeout needs to be configured''
      | Some timeout \<Rightarrow> (case pkgctl_executable opts of None \<Rightarrow> hook_die ''pkgctl_executable needs to be configured''
        | Some pkgctl \<Rightarrow> (case run_pkgctl opts c of
            Compliant \<Rightarrow> ret ()
          | Executable_Not_Found \<Rightarrow> hook_die (''Executable not found: '' @ pkgctl)
          | Check_Failed \<Rightarrow> die_commit ''License compliance check failed'' (c_id c)
          | Timeout_Expired \<Rightarrow> die_commit (''License compliance check did not complete within ''
              @ str_int timeout @ '' seconds'') (c_id c))))))"

section \<open>Storing the metadata\<close>

definition alpm_entries :: "string \<Rightarrow> relation list \<Rightarrow> dep_entry list" where
  "alpm_entries arch rels = map (\<lambda>r. (sql_rel_name r, sql_rel_description r, sql_rel_requirement r,
     sql_architecture arch)) rels"

text \<open>What one architecture contributes, and then licenses and groups of the last architecture.\<close>

definition alpm_save_arch :: "nat \<Rightarrow> string \<Rightarrow> merged_package \<Rightarrow> unit aur" where
  "alpm_save_arch pkgid arch p =
     seqp (for_each (mp_sources p) (\<lambda>s. insert_source pkgid (s, sql_architecture arch)))
     (seqp (for_each [(''depends'', Some (alpm_entries arch (mp_dependencies p))),
         (''makedepends'', Some (alpm_entries arch (mp_make_dependencies p))),
         (''checkdepends'', Some (alpm_entries arch (mp_check_dependencies p))),
         (''optdepends'', Some (alpm_entries arch (mp_optional_dependencies p)))] (insert_depends pkgid))
     (for_each [(''conflicts'', Some (alpm_entries arch (mp_conflicts p))),
         (''provides'', Some (alpm_entries arch (mp_provides p))),
         (''replaces'', Some (alpm_entries arch (mp_replaces p)))] (insert_relations pkgid)))"

definition alpm_save_package :: "alpm_srcinfo \<Rightarrow> nat \<Rightarrow> (string \<Rightarrow> merged_package) \<Rightarrow> unit aur" where
  "alpm_save_package m i merged = (let p = merged any_arch;
       l = merged (if ai_architectures m = [] then any_arch else last (ai_architectures m)) in
     andthen (insert_package i (mp_name p) (ai_version m) (mp_description p) (Some (str_option (mp_url p)))) (\<lambda>pkgid.
     seqp (for_each (ai_architectures m) (\<lambda>arch. alpm_save_arch pkgid arch (merged arch)))
     (seqp (for_each (mp_licenses l) (insert_license pkgid))
     (for_each (mp_groups l) (insert_group pkgid)))))"

definition alpm_save_metadata :: "alpm_srcinfo \<Rightarrow> string \<Rightarrow> unit aur" where
  "alpm_save_metadata m user =
     andthen (begin_update (ai_base m) user) (\<lambda>(i, userid, was_orphan).
     seqp (for_each (ai_packages m) (\<lambda>(_, merged). alpm_save_package m i merged))
     (end_update i userid was_orphan))"

definition alpm_backend :: "alpm_options \<Rightarrow> alpm_srcinfo backend" where
  "alpm_backend opts = \<lparr>read_metadata = alpm_read opts, check_licenses = alpm_licenses opts,
     base_name = ai_base, package_names = (\<lambda>m. map fst (ai_packages m)), save_metadata = alpm_save_metadata\<rparr>"

definition alpm_main :: "config \<Rightarrow> alpm_options \<Rightarrow> repository \<Rightarrow> hook_env \<Rightarrow> string list \<Rightarrow> unit aur" where
  "alpm_main cfg opts = hook_main cfg (alpm_backend opts)"

definition cli_main :: "bool \<Rightarrow> config \<Rightarrow> update_options \<Rightarrow> alpm_options \<Rightarrow> repository \<Rightarrow> hook_env \<Rightarrow> string list \<Rightarrow> unit aur" where
  "cli_main alpm_parser cfg legacy alpm repo env argv =
     (if alpm_parser then alpm_main cfg alpm repo env argv else legacy_main cfg legacy repo env argv)"

section \<open>The laws of the backend\<close>

lemma quiet_case_sum: "(\<And>x. quiet (f x)) \<Longrightarrow> (\<And>y. quiet (g y)) \<Longrightarrow> quiet (case z of Inl x \<Rightarrow> f x | Inr y \<Rightarrow> g y)"
  by (cases z) simp_all

lemma alpm_read_quiet: "quiet (alpm_read opts c raw)"
  unfolding alpm_read_def alpm_validate_metadata_def alpm_validate_package_def Let_def validate_source_def
  by (intro quiet_intros quiet_case_sum)

lemma quiet_case_pkgctl:
  "quiet a \<Longrightarrow> quiet b \<Longrightarrow> quiet c \<Longrightarrow> quiet d \<Longrightarrow>
   quiet (case r of Compliant \<Rightarrow> a | Executable_Not_Found \<Rightarrow> b | Check_Failed \<Rightarrow> c | Timeout_Expired \<Rightarrow> d)"
  by (cases r) simp_all

lemma alpm_licenses_quiet: "quiet (alpm_licenses opts c)"
  unfolding alpm_licenses_def by (intro quiet_intros quiet_case_pkgctl)

lemma no_exit_alpm_package: "no_exit (alpm_save_package m i merged)"
  unfolding alpm_save_package_def alpm_save_arch_def Let_def by (intro exit_intros)

lemma keeps_alpm_package: "keeps (own_base p user d0 i) (alpm_save_package m i merged)"
  unfolding alpm_save_package_def alpm_save_arch_def Let_def
  by (intro keeps_store_package keeps_intros keeps_insert_source keeps_insert_depends keeps_insert_relations
      keeps_insert_license keeps_insert_group)

interpretation alpm: metadata_backend "alpm_backend opts" for opts
proof
  show "quiet (read_metadata (alpm_backend opts) c raw)" for c raw
    by (simp add: alpm_backend_def alpm_read_quiet)
  show "quiet (check_licenses (alpm_backend opts) c)" for c
    by (simp add: alpm_backend_def alpm_licenses_quiet)
  show "no_exit (save_metadata (alpm_backend opts) m user)" for m user
    unfolding alpm_backend_def backend.simps alpm_save_metadata_def
    by (intro exit_intros no_exit_alpm_package)
  fix m :: alpm_srcinfo and p user :: string and d0 :: db and w :: world
  assume p: "base_name (alpm_backend opts) m = p" and w: "pushing p user d0 w"
  have keeps: "keeps (own_base p user d0 i) (case x of (_, merged) \<Rightarrow> alpm_save_package m i merged)"
    for i and x :: "string \<times> (string \<Rightarrow> merged_package)"
    by (cases x) (simp add: keeps_alpm_package)
  show "wp (save_metadata (alpm_backend opts) m user) (\<lambda>_. pushing p user d0) (\<lambda>_. pushing p user d0) w"
    using wp_store_packages [OF keeps w] p
    by (simp add: alpm_backend_def alpm_save_metadata_def)
qed

end
