(* ===== verification/Git_Stored.thy ===== *)
theory Git_Stored
  imports Git_Update_Alpm
begin

text \<open>
  What a successful push leaves in the database: the packages of the package base are those of the pushed
  \<open>.SRCINFO\<close>, in its order, each with exactly its sources, dependencies, relations, licenses and groups.
\<close>

section \<open>What hangs on a package\<close>

record listing =
  l_sources :: "(string \<times> string option) list"
  l_depends :: "(nat \<times> string \<times> string option \<times> string option \<times> string option) list"
  l_relations :: "(nat \<times> string \<times> string option \<times> string option) list"
  l_licenses :: "string option list"
  l_groups :: "string option list"

definition license_name :: "db \<Rightarrow> nat \<Rightarrow> string option" where
  "license_name d i = map_option li_Name (List.find (\<lambda>l. li_ID l = i) (Licenses d))"

definition group_name :: "db \<Rightarrow> nat \<Rightarrow> string option" where
  "group_name d i = map_option gr_Name (List.find (\<lambda>g. gr_ID g = i) (Groups d))"

definition listing_of :: "nat \<Rightarrow> db \<Rightarrow> listing" where
  "listing_of k d = \<lparr>
     l_sources = map (\<lambda>r. (sr_Source r, sr_SourceArch r)) (filter (\<lambda>r. sr_PackageID r = k) (PackageSources d)),
     l_depends = map (\<lambda>r. (pd_DepTypeID r, pd_DepName r, pd_DepDesc r, pd_DepCondition r, pd_DepArch r))
       (filter (\<lambda>r. pd_PackageID r = k) (PackageDepends d)),
     l_relations = map (\<lambda>r. (rl_RelTypeID r, rl_RelName r, rl_RelCondition r, rl_RelArch r))
       (filter (\<lambda>r. rl_PackageID r = k) (PackageRelations d)),
     l_licenses = map (\<lambda>r. license_name d (pl_LicenseID r)) (filter (\<lambda>r. pl_PackageID r = k) (PackageLicenses d)),
     l_groups = map (\<lambda>r. group_name d (pg_GroupID r)) (filter (\<lambda>r. pg_PackageID r = k) (PackageGroups d))\<rparr>"

definition empty_listing :: listing where
  "empty_listing = \<lparr>l_sources = [], l_depends = [], l_relations = [], l_licenses = [], l_groups = []\<rparr>"

definition depend_rows :: "db \<Rightarrow> string \<Rightarrow> dep_entry list
    \<Rightarrow> (nat \<times> string \<times> string option \<times> string option \<times> string option) list" where
  "depend_rows d t rows = map (\<lambda>(n, ds, c, a). (the (dependency_type t d), n, Some ds, Some c, a)) rows"

definition relation_rows :: "db \<Rightarrow> string \<Rightarrow> dep_entry list
    \<Rightarrow> (nat \<times> string \<times> string option \<times> string option) list" where
  "relation_rows d t rows = map (\<lambda>(n, _, c, a). (the (relation_type t d), n, Some c, a)) rows"

text \<open>What the metadata of a package says, for the legacy hook.\<close>

definition expected_listing :: "db \<Rightarrow> pkginfo \<Rightarrow> listing" where
  "expected_listing d p = \<lparr>
     l_sources = the (extract_arch_fields p ''source''),
     l_depends = concat (map (\<lambda>t. depend_rows d t (the (dep_entries p t)))
       [''depends'', ''makedepends'', ''checkdepends'', ''optdepends'']),
     l_relations = concat (map (\<lambda>t. relation_rows d t (the (dep_entries p t)))
       [''conflicts'', ''provides'', ''replaces'']),
     l_licenses = map Some (field_list p ''license''),
     l_groups = map Some (field_list p ''groups'')\<rparr>"

lemma find_append_list:
  "List.find p (xs @ ys) = (case List.find p xs of None \<Rightarrow> List.find p ys | Some x \<Rightarrow> Some x)"
  by (induction xs) simp_all

lemma find_fresh_id: "List.find (\<lambda>x. f x = next_id (map f xs)) xs = None"
  using next_id_fresh [of "map f xs"] unfolding find_None_iff by (metis image_eqI set_map)

section \<open>Programs that work on one package\<close>

text \<open>
  \<open>does k f m\<close>: when \<open>m\<close> succeeds, it has changed the listing of package \<open>k\<close> by \<open>f\<close>, and no other listing,
  package or package base.
\<close>

definition step_on :: "nat \<Rightarrow> (listing \<Rightarrow> listing) \<Rightarrow> world \<Rightarrow> world \<Rightarrow> bool" where
  "step_on k f w w' \<longleftrightarrow> listing_of k (the_db w') = f (listing_of k (the_db w))
     \<and> (\<forall>k' \<in> package_ids (the_db w). k' \<noteq> k \<longrightarrow> listing_of k' (the_db w') = listing_of k' (the_db w))
     \<and> Packages (the_db w') = Packages (the_db w) \<and> PackageBases (the_db w') = PackageBases (the_db w)
     \<and> references w' = references w \<and> sent w' = sent w \<and> now w' = now w"

definition does :: "string \<Rightarrow> string \<Rightarrow> db \<Rightarrow> nat \<Rightarrow> nat \<Rightarrow> (listing \<Rightarrow> listing) \<Rightarrow> unit aur \<Rightarrow> bool" where
  "does p user d0 i k f m \<longleftrightarrow> (\<forall>w. own p user d0 i k w \<longrightarrow>
     wp m (\<lambda>_ w'. own p user d0 i k w' \<and> step_on k f w w') (\<lambda>_ _. True) w)"

named_theorems does_intros

lemma step_on_trans: "step_on k f w w1 \<Longrightarrow> step_on k g w1 w2 \<Longrightarrow> step_on k (\<lambda>x. g (f x)) w w2"
  by (auto simp: step_on_def package_ids_def)

lemma does_seqp [does_intros]:
  assumes "does p user d0 i k f m" and "does p user d0 i k g n"
  shows "does p user d0 i k (\<lambda>x. g (f x)) (seqp m n)"
  unfolding does_def wp_seqp
proof (intro allI impI)
  fix w
  assume "own p user d0 i k w"
  with assms(1) have "wp m (\<lambda>_ w'. own p user d0 i k w' \<and> step_on k f w w') (\<lambda>_ _. True) w"
    by (simp add: does_def)
  then show "wp m (\<lambda>_. wp n (\<lambda>_ w'. own p user d0 i k w' \<and> step_on k (\<lambda>x. g (f x)) w w') (\<lambda>_ _. True)) (\<lambda>_ _. True) w"
  proof (rule wp_mono)
    fix w1
    assume w1: "own p user d0 i k w1 \<and> step_on k f w w1"
    with assms(2) have "wp n (\<lambda>_ w'. own p user d0 i k w' \<and> step_on k g w1 w') (\<lambda>_ _. True) w1"
      by (simp add: does_def)
    then show "wp n (\<lambda>_ w'. own p user d0 i k w' \<and> step_on k (\<lambda>x. g (f x)) w w') (\<lambda>_ _. True) w1"
      by (rule wp_mono) (use w1 step_on_trans in blast)+
  qed simp
qed

lemma does_ret: "does p user d0 i k (\<lambda>x. x) (ret ())"
  by (simp add: does_def wp_ret step_on_def)

lemma does_for_each [does_intros]:
  "(\<And>x. x \<in> set xs \<Longrightarrow> does p user d0 i k (f x) (m x)) \<Longrightarrow> does p user d0 i k (fold f xs) (for_each xs m)"
proof (induction xs)
  case Nil
  then show ?case using does_ret by (simp add: id_def)
next
  case (Cons x xs)
  then have "does p user d0 i k (\<lambda>l. fold f xs (f x l)) (seqp (m x) (for_each xs m))"
    by (intro does_seqp) simp_all
  then show ?case
    by (simp add: comp_def)
qed

lemma does_from:
  assumes "keeps (own p user d0 i k) m"
    and "\<And>w. own p user d0 i k w \<Longrightarrow> wp m (\<lambda>_. step_on k f w) (\<lambda>_ _. True) w"
  shows "does p user d0 i k f m"
  unfolding does_def
proof (intro allI impI)
  fix w
  assume own: "own p user d0 i k w"
  have "wp m (\<lambda>x w'. own p user d0 i k w' \<and> step_on k f w w') (\<lambda>e w'. own p user d0 i k w' \<and> True) w"
    unfolding wp_conj using keeps_wp [OF assms(1) own] assms(2) [OF own] by simp
  then show "wp m (\<lambda>_ w'. own p user d0 i k w' \<and> step_on k f w w') (\<lambda>_ _. True) w"
    by (rule wp_mono) simp_all
qed

lemma does_insert_source [does_intros]:
  "does p user d0 i k (\<lambda>l. l\<lparr>l_sources := l_sources l @ [x]\<rparr>) (insert_source k x)"
  by (rule does_from [OF keeps_insert_source], cases x)
    (simp add: insert_source_def wp_simps step_on_def listing_of_def license_name_def group_name_def)

text \<open>The types of dependencies and relations never change.\<close>

lemma own_types:
  assumes "own p user d0 i k w"
  shows "dependency_type t (the_db w) = dependency_type t d0" and "relation_type t (the_db w) = relation_type t d0"
proof -
  have out: "outside p (the_db w) = outside p d0"
    using assms by (simp add: own_def own_base_def pushing_def push_step_def)
  show "dependency_type t (the_db w) = dependency_type t d0"
    using arg_cong [OF out, of DependencyTypes] by (simp add: dependency_type_def)
  show "relation_type t (the_db w) = relation_type t d0"
    using arg_cong [OF out, of RelationTypes] by (simp add: relation_type_def)
qed

lemma wp_insert_depend:
  "wp (insert_depend k t (n, ds, c, a)) Q E w = Q () (w\<lparr>the_db := the_db w\<lparr>PackageDepends := PackageDepends (the_db w)
     @ [\<lparr>pd_PackageID = k, pd_DepTypeID = t, pd_DepName = n, pd_DepDesc = Some ds, pd_DepCondition = Some c,
        pd_DepArch = a\<rparr>]\<rparr>\<rparr>)"
  by (simp add: insert_depend_def wp_simps)

lemma step_on_depends:
  "wp (for_each rows (insert_depend k t)) (\<lambda>_. step_on k (\<lambda>l. l\<lparr>l_depends := l_depends l
     @ map (\<lambda>(n, ds, c, a). (t, n, Some ds, Some c, a)) rows\<rparr>) w) (\<lambda>_ _. True) w"
proof (induction rows arbitrary: w)
  case Nil
  then show ?case by (simp add: wp_simps step_on_def)
next
  case (Cons r rows)
  obtain n ds c a where r: "r = (n, ds, c, a)"
    by (cases r)
  let ?w = "w\<lparr>the_db := the_db w\<lparr>PackageDepends := PackageDepends (the_db w)
     @ [\<lparr>pd_PackageID = k, pd_DepTypeID = t, pd_DepName = n, pd_DepDesc = Some ds, pd_DepCondition = Some c,
        pd_DepArch = a\<rparr>]\<rparr>\<rparr>"
  have first: "step_on k (\<lambda>l. l\<lparr>l_depends := l_depends l @ [(t, n, Some ds, Some c, a)]\<rparr>) w ?w"
    by (simp add: step_on_def listing_of_def license_name_def group_name_def)
  show ?case
    unfolding wp_for_each_Cons r wp_insert_depend
    by (rule wp_mono [OF Cons.IH [of ?w]]) (use step_on_trans [OF first] in fastforce)+
qed

lemma does_insert_depends [does_intros]:
  "does p user d0 i k (\<lambda>l. l\<lparr>l_depends := l_depends l @ depend_rows d0 t (the infos)\<rparr>) (insert_depends k (t, infos))"
proof (rule does_from [OF keeps_insert_depends])
  fix w
  assume own: "own p user d0 i k w"
  show "wp (insert_depends k (t, infos)) (\<lambda>_. step_on k (\<lambda>l. l\<lparr>l_depends := l_depends l
      @ depend_rows d0 t (the infos)\<rparr>) w) (\<lambda>_ _. True) w"
    using step_on_depends [of "the infos" k "the (dependency_type t d0)" w]
    by (cases "dependency_type t d0"; cases infos)
      (simp_all add: insert_depends_def wp_andthen wp_query wp_the_or own_types(1) [OF own] depend_rows_def)
qed

lemma wp_insert_relation:
  "wp (insert_relation k t (n, ds, c, a)) Q E w = Q () (w\<lparr>the_db := the_db w\<lparr>PackageRelations := PackageRelations (the_db w)
     @ [\<lparr>rl_PackageID = k, rl_RelTypeID = t, rl_RelName = n, rl_RelCondition = Some c, rl_RelArch = a\<rparr>]\<rparr>\<rparr>)"
  by (simp add: insert_relation_def wp_simps)

lemma step_on_relations:
  "wp (for_each rows (insert_relation k t)) (\<lambda>_. step_on k (\<lambda>l. l\<lparr>l_relations := l_relations l
     @ map (\<lambda>(n, _, c, a). (t, n, Some c, a)) rows\<rparr>) w) (\<lambda>_ _. True) w"
proof (induction rows arbitrary: w)
  case Nil
  then show ?case by (simp add: wp_simps step_on_def)
next
  case (Cons r rows)
  obtain n ds c a where r: "r = (n, ds, c, a)"
    by (cases r)
  let ?w = "w\<lparr>the_db := the_db w\<lparr>PackageRelations := PackageRelations (the_db w)
     @ [\<lparr>rl_PackageID = k, rl_RelTypeID = t, rl_RelName = n, rl_RelCondition = Some c, rl_RelArch = a\<rparr>]\<rparr>\<rparr>"
  have first: "step_on k (\<lambda>l. l\<lparr>l_relations := l_relations l @ [(t, n, Some c, a)]\<rparr>) w ?w"
    by (simp add: step_on_def listing_of_def license_name_def group_name_def)
  show ?case
    unfolding wp_for_each_Cons r wp_insert_relation
    by (rule wp_mono [OF Cons.IH [of ?w]]) (use step_on_trans [OF first] in fastforce)+
qed

lemma does_insert_relations [does_intros]:
  "does p user d0 i k (\<lambda>l. l\<lparr>l_relations := l_relations l @ relation_rows d0 t (the infos)\<rparr>) (insert_relations k (t, infos))"
proof (rule does_from [OF keeps_insert_relations])
  fix w
  assume own: "own p user d0 i k w"
  show "wp (insert_relations k (t, infos)) (\<lambda>_. step_on k (\<lambda>l. l\<lparr>l_relations := l_relations l
      @ relation_rows d0 t (the infos)\<rparr>) w) (\<lambda>_ _. True) w"
    using step_on_relations [of "the infos" k "the (relation_type t d0)" w]
    by (cases "relation_type t d0"; cases infos)
      (simp_all add: insert_relations_def wp_andthen wp_query wp_the_or own_types(2) [OF own] relation_rows_def)
qed

text \<open>A license: its row is found or appended under a new ID, which no package refers to yet.\<close>

lemma license_name_append:
  "x \<in> li_ID ` set (Licenses d) \<Longrightarrow> license_name (d\<lparr>Licenses := Licenses d @ [l]\<rparr>) x = license_name d x"
  by (force simp: license_name_def find_append_list find_None_iff split: option.split)

lemma group_name_append:
  "x \<in> gr_ID ` set (Groups d) \<Longrightarrow> group_name (d\<lparr>Groups := Groups d @ [l]\<rparr>) x = group_name d x"
  by (force simp: group_name_def find_append_list find_None_iff split: option.split)

lemma listing_new_license:
  "packages_ok d \<Longrightarrow> listing_of k (d\<lparr>Licenses := Licenses d @ [l]\<rparr>) = listing_of k d"
  by (auto simp: listing_of_def packages_ok_def license_name_append group_name_def)

lemma listing_new_group:
  "packages_ok d \<Longrightarrow> listing_of k (d\<lparr>Groups := Groups d @ [l]\<rparr>) = listing_of k d"
  by (auto simp: listing_of_def packages_ok_def group_name_append license_name_def)

lemma wp_license_id:
  assumes "packages_ok (the_db w)"
  shows "wp (license_id x) (\<lambda>l w'. step_on k (\<lambda>l. l) w w' \<and> license_name (the_db w') l = Some x) (\<lambda>_ _. True) w"
proof (cases "List.find (\<lambda>l. li_Name l = x) (Licenses (the_db w))")
  case None
  note fresh = find_fresh_id [of li_ID "Licenses (the_db w)"]
  show ?thesis
    using None assms fresh
    by (simp add: license_id_def wp_simps step_on_def listing_new_license license_name_def find_append_list)
next
  case (Some l)
  then have l: "l \<in> set (Licenses (the_db w))" "li_Name l = x"
    by (auto simp: find_Some_iff)
  have "distinct (map li_ID (Licenses (the_db w)))"
    using assms by (simp add: packages_ok_def)
  from find_key [OF this l(1)] show ?thesis
    using Some l(2) by (simp add: license_id_def wp_simps step_on_def license_name_def)
qed

lemma wp_group_id:
  assumes "packages_ok (the_db w)"
  shows "wp (group_id x) (\<lambda>l w'. step_on k (\<lambda>l. l) w w' \<and> group_name (the_db w') l = Some x) (\<lambda>_ _. True) w"
proof (cases "List.find (\<lambda>l. gr_Name l = x) (Groups (the_db w))")
  case None
  note fresh = find_fresh_id [of gr_ID "Groups (the_db w)"]
  show ?thesis
    using None assms fresh
    by (simp add: group_id_def wp_simps step_on_def listing_new_group group_name_def find_append_list)
next
  case (Some l)
  then have l: "l \<in> set (Groups (the_db w))" "gr_Name l = x"
    by (auto simp: find_Some_iff)
  have "distinct (map gr_ID (Groups (the_db w)))"
    using assms by (simp add: packages_ok_def)
  from find_key [OF this l(1)] show ?thesis
    using Some l(2) by (simp add: group_id_def wp_simps step_on_def group_name_def)
qed

lemma own_packages_ok: "own p user d0 i k w \<Longrightarrow> packages_ok (the_db w)"
  by (simp add: own_def own_base_def pushing_def push_step_def)

lemma does_insert_license [does_intros]:
  "does p user d0 i k (\<lambda>l. l\<lparr>l_licenses := l_licenses l @ [Some x]\<rparr>) (insert_license k x)"
proof (rule does_from [OF keeps_insert_license])
  fix w
  assume own: "own p user d0 i k w"
  show "wp (insert_license k x) (\<lambda>_. step_on k (\<lambda>l. l\<lparr>l_licenses := l_licenses l @ [Some x]\<rparr>) w) (\<lambda>_ _. True) w"
    unfolding insert_license_def wp_andthen
    by (rule wp_mono [OF wp_license_id [OF own_packages_ok [OF own], of x k]])
      (auto simp: wp_simps step_on_def listing_of_def license_name_def group_name_def)
qed

lemma does_insert_group [does_intros]:
  "does p user d0 i k (\<lambda>l. l\<lparr>l_groups := l_groups l @ [Some x]\<rparr>) (insert_group k x)"
proof (rule does_from [OF keeps_insert_group])
  fix w
  assume own: "own p user d0 i k w"
  show "wp (insert_group k x) (\<lambda>_. step_on k (\<lambda>l. l\<lparr>l_groups := l_groups l @ [Some x]\<rparr>) w) (\<lambda>_ _. True) w"
    unfolding insert_group_def wp_andthen
    by (rule wp_mono [OF wp_group_id [OF own_packages_ok [OF own], of x k]])
      (auto simp: wp_simps step_on_def listing_of_def license_name_def group_name_def)
qed

section \<open>The packages of the legacy hook\<close>

definition epoch_of :: "pkginfo \<Rightarrow> int option" where
  "epoch_of q = (case pi_text q ''epoch'' of None \<Rightarrow> Some 0 | Some e \<Rightarrow> py_int 10 e)"

definition version_of :: "pkginfo \<Rightarrow> string option" where
  "version_of q = (case (epoch_of q, pi_text q ''pkgver'', pi_text q ''pkgrel'') of
     (Some epoch, Some pkgver, Some pkgrel) \<Rightarrow>
       Some ((if epoch > 0 then str_int epoch @ '':'' else []) @ pkgver @ ''-'' @ pkgrel)
   | _ \<Rightarrow> None)"

definition package_fields :: "pkginfo \<Rightarrow> packages_row \<Rightarrow> bool" where
  "package_fields q row \<longleftrightarrow> pi_text q ''pkgname'' = Some (pk_Name row) \<and> version_of q = Some (pk_Version row)
     \<and> pk_Description row = pi_text q ''pkgdesc'' \<and> pk_URL row = pi_text q ''url''"

text \<open>\<open>adds_packages\<close>: rows are appended to the table of packages, with what hangs on them; the rest is as it was.\<close>

definition adds_packages :: "db \<Rightarrow> nat \<Rightarrow> pkginfo list \<Rightarrow> world \<Rightarrow> world \<Rightarrow> bool" where
  "adds_packages d0 i qs w w' \<longleftrightarrow> (\<exists>rows. Packages (the_db w') = Packages (the_db w) @ rows
     \<and> list_all2 (\<lambda>q row. package_fields q row \<and> pk_PackageBaseID row = i
          \<and> listing_of (pk_ID row) (the_db w') = expected_listing d0 q) qs rows
     \<and> (\<forall>k \<in> package_ids (the_db w). listing_of k (the_db w') = listing_of k (the_db w))
     \<and> PackageBases (the_db w') = PackageBases (the_db w)
     \<and> references w' = references w \<and> sent w' = sent w \<and> now w' = now w)"

lemma wp_pkginfo_version:
  assumes "\<And>v. version_of q = Some v \<Longrightarrow> Q v w"
  shows "wp (pkginfo_version q) Q (\<lambda>_ _. True) w"
proof -
  have epoch: "(case pi_text q ''epoch'' of None \<Rightarrow> ret 0 | Some e \<Rightarrow> the_or Py_ValueError (py_int 10 e))
      = the_or Py_ValueError (epoch_of q)"
    by (simp add: epoch_of_def the_or_def split: option.split)
  show ?thesis
    unfolding pkginfo_version_def epoch
    by (cases "epoch_of q"; cases "pi_text q ''pkgver''"; cases "pi_text q ''pkgrel''")
      (simp_all only: wp_andthen wp_the_or wp_ret option.case, rule assms, simp only: version_of_def option.case prod.case)
qed

lemma fold_sources: "fold (\<lambda>x l. l\<lparr>l_sources := l_sources l @ [x]\<rparr>) xs l = l\<lparr>l_sources := l_sources l @ xs\<rparr>"
  by (induction xs arbitrary: l) simp_all

lemma fold_licenses: "fold (\<lambda>x l. l\<lparr>l_licenses := l_licenses l @ [f x]\<rparr>) xs l = l\<lparr>l_licenses := l_licenses l @ map f xs\<rparr>"
  by (induction xs arbitrary: l) simp_all

lemma fold_groups: "fold (\<lambda>x l. l\<lparr>l_groups := l_groups l @ [f x]\<rparr>) xs l = l\<lparr>l_groups := l_groups l @ map f xs\<rparr>"
  by (induction xs arbitrary: l) simp_all

lemma fold_depends: "fold (\<lambda>x l. l\<lparr>l_depends := l_depends l @ f x\<rparr>) xs l = l\<lparr>l_depends := l_depends l @ concat (map f xs)\<rparr>"
  by (induction xs arbitrary: l) simp_all

lemma fold_relations: "fold (\<lambda>x l. l\<lparr>l_relations := l_relations l @ f x\<rparr>) xs l = l\<lparr>l_relations := l_relations l @ concat (map f xs)\<rparr>"
  by (induction xs arbitrary: l) simp_all

lemmas listing_folds = fold_sources fold_licenses fold_groups fold_depends fold_relations

lemma does_for_types:
  assumes "\<And>t. does p user d0 i k (f t) (m (t, g t))"
  shows "does p user d0 i k (fold f ts) (for_each (map (\<lambda>t. (t, g t)) ts) m)"
proof (induction ts)
  case Nil
  then show ?case using does_ret by (simp add: id_def)
next
  case (Cons t ts)
  from does_seqp [OF assms [of t] Cons] show ?case
    by (simp add: comp_def)
qed

definition legacy_rows :: "nat \<Rightarrow> pkginfo \<Rightarrow> (string \<times> string option) list \<Rightarrow> unit aur" where
  "legacy_rows pkgid p infos =
     seqp (for_each infos (insert_source pkgid))
     (seqp (for_each (map (\<lambda>t. (t, dep_entries p t)) [''depends'', ''makedepends'', ''checkdepends'', ''optdepends''])
       (insert_depends pkgid))
     (seqp (for_each (map (\<lambda>t. (t, dep_entries p t)) [''conflicts'', ''provides'', ''replaces''])
       (insert_relations pkgid))
     (seqp (for_each (field_list p ''license'') (insert_license pkgid))
     (for_each (field_list p ''groups'') (insert_group pkgid)))))"

definition add_listing :: "listing \<Rightarrow> listing \<Rightarrow> listing" where
  "add_listing a b = \<lparr>l_sources = l_sources a @ l_sources b, l_depends = l_depends a @ l_depends b,
     l_relations = l_relations a @ l_relations b, l_licenses = l_licenses a @ l_licenses b,
     l_groups = l_groups a @ l_groups b\<rparr>"

lemma does_legacy_rows:
  assumes "extract_arch_fields q ''source'' = Some infos"
  shows "does p user d0 i k (\<lambda>l. add_listing l (expected_listing d0 q)) (legacy_rows k q infos)"
proof -
  have "does p user d0 i k (\<lambda>l.
      fold (\<lambda>x l. l\<lparr>l_groups := l_groups l @ [Some x]\<rparr>) (field_list q ''groups'')
      (fold (\<lambda>x l. l\<lparr>l_licenses := l_licenses l @ [Some x]\<rparr>) (field_list q ''license'')
      (fold (\<lambda>t l. l\<lparr>l_relations := l_relations l @ relation_rows d0 t (the (dep_entries q t))\<rparr>)
        [''conflicts'', ''provides'', ''replaces'']
      (fold (\<lambda>t l. l\<lparr>l_depends := l_depends l @ depend_rows d0 t (the (dep_entries q t))\<rparr>)
        [''depends'', ''makedepends'', ''checkdepends'', ''optdepends'']
      (fold (\<lambda>x l. l\<lparr>l_sources := l_sources l @ [x]\<rparr>) infos l))))) (legacy_rows k q infos)"
    unfolding legacy_rows_def by (intro does_intros does_for_types)
  moreover have "(\<lambda>l. fold (\<lambda>x l. l\<lparr>l_groups := l_groups l @ [Some x]\<rparr>) (field_list q ''groups'')
      (fold (\<lambda>x l. l\<lparr>l_licenses := l_licenses l @ [Some x]\<rparr>) (field_list q ''license'')
      (fold (\<lambda>t l. l\<lparr>l_relations := l_relations l @ relation_rows d0 t (the (dep_entries q t))\<rparr>)
        [''conflicts'', ''provides'', ''replaces'']
      (fold (\<lambda>t l. l\<lparr>l_depends := l_depends l @ depend_rows d0 t (the (dep_entries q t))\<rparr>)
        [''depends'', ''makedepends'', ''checkdepends'', ''optdepends'']
      (fold (\<lambda>x l. l\<lparr>l_sources := l_sources l @ [x]\<rparr>) infos l))))) = (\<lambda>l. add_listing l (expected_listing d0 q))"
    unfolding listing_folds expected_listing_def add_listing_def assms by (rule ext) simp
  ultimately show ?thesis
    by simp
qed

lemma listing_fresh:
  assumes "packages_ok d" and "k \<notin> package_ids d"
  shows "listing_of k d = empty_listing"
  using assms by (auto simp: packages_ok_def listing_of_def empty_listing_def filter_empty_conv)

lemma listing_Packages: "listing_of k (d\<lparr>Packages := x\<rparr>) = listing_of k d"
  by (simp add: listing_of_def license_name_def group_name_def)

lemma wp_insert_package_exactly:
  "wp (insert_package i name ver desc url) (\<lambda>k w'. k = next_id (map pk_ID (Packages (the_db w)))
      \<and> w' = w\<lparr>the_db := the_db w\<lparr>Packages := Packages (the_db w) @ [new_package i name ver desc url (the_db w)]\<rparr>,
           committed := the_db w\<lparr>Packages := Packages (the_db w) @ [new_package i name ver desc url (the_db w)]\<rparr>\<rparr>)
     (\<lambda>_ _. True) w"
  by (simp add: insert_package_def wp_simps new_package_def)

lemma legacy_package_rows:
  "legacy_save_package i q = andthen (pkginfo_version q) (\<lambda>ver. andthen (the_or Py_KeyError (pi_text q ''pkgname'')) (\<lambda>pkgname.
     andthen (insert_package i pkgname ver (pi_text q ''pkgdesc'') (pi_text q ''url'')) (\<lambda>pkgid.
     andthen (the_or Py_KeyError (extract_arch_fields q ''source'')) (legacy_rows pkgid q))))"
  unfolding legacy_save_package_def legacy_rows_def by (rule refl)

lemma wp_legacy_package:
  assumes own: "own_base p user d0 i w"
  shows "wp (legacy_save_package i q) (\<lambda>_ w'. own_base p user d0 i w' \<and> adds_packages d0 i [q] w w') (\<lambda>_ _. True) w"
  unfolding legacy_package_rows wp_andthen
proof (rule wp_pkginfo_version)
  fix ver
  assume ver: "version_of q = Some ver"
  show "wp (the_or Py_KeyError (pi_text q ''pkgname'')) (\<lambda>pkgname.
      wp (insert_package i pkgname ver (pi_text q ''pkgdesc'') (pi_text q ''url'')) (\<lambda>pkgid.
        wp (the_or Py_KeyError (extract_arch_fields q ''source'')) (\<lambda>infos.
          wp (legacy_rows pkgid q infos) (\<lambda>_ w'. own_base p user d0 i w' \<and> adds_packages d0 i [q] w w') (\<lambda>_ _. True))
          (\<lambda>_ _. True)) (\<lambda>_ _. True)) (\<lambda>_ _. True) w"
    unfolding wp_the_or
  proof (cases "pi_text q ''pkgname''"; simp only: option.case)
    fix name
    assume name: "pi_text q ''pkgname'' = Some name"
    let ?row = "new_package i name ver (pi_text q ''pkgdesc'') (pi_text q ''url'') (the_db w)"
    show "wp (insert_package i name ver (pi_text q ''pkgdesc'') (pi_text q ''url'')) (\<lambda>k w1. case extract_arch_fields q ''source'' of
        None \<Rightarrow> True
      | Some infos \<Rightarrow> wp (legacy_rows k q infos) (\<lambda>_ w'. own_base p user d0 i w' \<and> adds_packages d0 i [q] w w') (\<lambda>_ _. True) w1)
      (\<lambda>_ _. True) w"
    proof (rule wp_mono [OF wp_conj [THEN iffD2, OF conjI [OF wp_insert_package [OF own] wp_insert_package_exactly]]])
      fix k w1
      assume k: "own p user d0 i k w1 \<and> k = next_id (map pk_ID (Packages (the_db w)))
        \<and> w1 = w\<lparr>the_db := the_db w\<lparr>Packages := Packages (the_db w) @ [?row]\<rparr>,
           committed := the_db w\<lparr>Packages := Packages (the_db w) @ [?row]\<rparr>\<rparr>"
      have ok: "packages_ok (the_db w)"
        using own by (simp add: own_base_def pushing_def push_step_def)
      have fresh: "k \<notin> package_ids (the_db w)"
        using k next_id_fresh [of "map pk_ID (Packages (the_db w))"] by (simp add: package_ids_def)
      have row: "pk_ID ?row = k" "pk_PackageBaseID ?row = i" "package_fields q ?row"
        using k ver name by (simp_all add: new_package_def package_fields_def)
      have before: "listing_of k' (the_db w1) = listing_of k' (the_db w)" for k'
        using k by (simp add: listing_Packages)
      show "case extract_arch_fields q ''source'' of None \<Rightarrow> True
        | Some infos \<Rightarrow> wp (legacy_rows k q infos) (\<lambda>_ w'. own_base p user d0 i w' \<and> adds_packages d0 i [q] w w') (\<lambda>_ _. True) w1"
      proof (cases "extract_arch_fields q ''source''")
        case (Some infos)
        have "wp (legacy_rows k q infos) (\<lambda>_ w'. own p user d0 i k w'
            \<and> step_on k (\<lambda>l. add_listing l (expected_listing d0 q)) w1 w') (\<lambda>_ _. True) w1"
          using does_legacy_rows [OF Some] k unfolding does_def by blast
        then have "wp (legacy_rows k q infos) (\<lambda>_ w'. own_base p user d0 i w' \<and> adds_packages d0 i [q] w w') (\<lambda>_ _. True) w1"
        proof (rule wp_mono)
          fix w'
          assume w': "own p user d0 i k w' \<and> step_on k (\<lambda>l. add_listing l (expected_listing d0 q)) w1 w'"
          have "adds_packages d0 i [q] w w'"
            unfolding adds_packages_def
          proof (intro exI [of _ "[?row]"] conjI ballI)
            show "Packages (the_db w') = Packages (the_db w) @ [?row]"
              using w' k by (simp add: step_on_def)
            show "list_all2 (\<lambda>q row. package_fields q row \<and> pk_PackageBaseID row = i
                \<and> listing_of (pk_ID row) (the_db w') = expected_listing d0 q) [q] [?row]"
              using w' row before [of k] listing_fresh [OF ok fresh]
              by (simp add: step_on_def add_listing_def empty_listing_def expected_listing_def)
            fix k'
            assume k': "k' \<in> package_ids (the_db w)"
            have "k' \<noteq> k"
              using k' fresh by blast
            moreover have "k' \<in> package_ids (the_db w1)"
              using k k' by (simp add: package_ids_def)
            ultimately show "listing_of k' (the_db w') = listing_of k' (the_db w)"
              using w' before [of k'] by (simp add: step_on_def)
          qed (use w' k in \<open>simp_all add: step_on_def\<close>)
          then show "own_base p user d0 i w' \<and> adds_packages d0 i [q] w w'"
            using w' by (simp add: own_def)
        qed simp
        with Some show ?thesis
          by simp
      qed simp
    qed simp
  qed
qed

text \<open>All packages, one after another.\<close>

lemma adds_packages_ids:
  "adds_packages d0 i qs w w' \<Longrightarrow> package_ids (the_db w) \<subseteq> package_ids (the_db w')"
  by (auto simp: adds_packages_def package_ids_def)

lemma adds_packages_trans:
  assumes "adds_packages d0 i qs w w1" and "adds_packages d0 i qs' w1 w2"
  shows "adds_packages d0 i (qs @ qs') w w2"
proof -
  from assms(1) obtain rows where r: "Packages (the_db w1) = Packages (the_db w) @ rows"
    "list_all2 (\<lambda>q row. package_fields q row \<and> pk_PackageBaseID row = i
       \<and> listing_of (pk_ID row) (the_db w1) = expected_listing d0 q) qs rows"
    "\<forall>k \<in> package_ids (the_db w). listing_of k (the_db w1) = listing_of k (the_db w)"
    "PackageBases (the_db w1) = PackageBases (the_db w)" "references w1 = references w" "sent w1 = sent w" "now w1 = now w"
    unfolding adds_packages_def by blast
  from assms(2) obtain rows' where r': "Packages (the_db w2) = Packages (the_db w1) @ rows'"
    "list_all2 (\<lambda>q row. package_fields q row \<and> pk_PackageBaseID row = i
       \<and> listing_of (pk_ID row) (the_db w2) = expected_listing d0 q) qs' rows'"
    "\<forall>k \<in> package_ids (the_db w1). listing_of k (the_db w2) = listing_of k (the_db w1)"
    "PackageBases (the_db w2) = PackageBases (the_db w1)" "references w2 = references w1" "sent w2 = sent w1" "now w2 = now w1"
    unfolding adds_packages_def by blast
  have first: "list_all2 (\<lambda>q row. package_fields q row \<and> pk_PackageBaseID row = i
       \<and> listing_of (pk_ID row) (the_db w2) = expected_listing d0 q) qs rows"
  proof (rule list.rel_mono_strong [OF r(2)])
    fix q row
    assume "row \<in> set rows" and "package_fields q row \<and> pk_PackageBaseID row = i
       \<and> listing_of (pk_ID row) (the_db w1) = expected_listing d0 q"
    moreover from this have "pk_ID row \<in> package_ids (the_db w1)"
      by (simp add: package_ids_def r(1))
    ultimately show "package_fields q row \<and> pk_PackageBaseID row = i
       \<and> listing_of (pk_ID row) (the_db w2) = expected_listing d0 q"
      using r'(3) by simp
  qed
  have kept: "\<forall>k \<in> package_ids (the_db w). listing_of k (the_db w2) = listing_of k (the_db w)"
    using r(3) r'(3) adds_packages_ids [OF assms(1)] by auto
  show ?thesis
    unfolding adds_packages_def
    by (rule exI [of _ "rows @ rows'"])
      (use r r' kept list_all2_appendI [OF first r'(2)] in simp)
qed

lemma adds_packages_none: "adds_packages d0 i [] w w"
  by (simp add: adds_packages_def)

lemma wp_legacy_packages:
  assumes "own_base p user d0 i w"
  shows "wp (for_each qs (\<lambda>(_, q). legacy_save_package i q))
    (\<lambda>_ w'. own_base p user d0 i w' \<and> adds_packages d0 i (map snd qs) w w') (\<lambda>_ _. True) w"
  using assms
proof (induction qs arbitrary: w)
  case Nil
  then show ?case by (simp add: wp_simps adds_packages_none)
next
  case (Cons x qs)
  obtain n q where x: "x = (n, q)"
    by (cases x)
  show ?case
    unfolding wp_for_each_Cons x prod.case
  proof (rule wp_mono [OF wp_legacy_package [OF Cons.prems, of q]])
    fix w1
    assume w1: "own_base p user d0 i w1 \<and> adds_packages d0 i [q] w w1"
    show "wp (for_each qs (\<lambda>(_, q). legacy_save_package i q))
        (\<lambda>_ w'. own_base p user d0 i w' \<and> adds_packages d0 i (map snd ((n, q) # qs)) w w') (\<lambda>_ _. True) w1"
      by (rule wp_mono [OF Cons.IH [of w1]]) (use w1 adds_packages_trans [of d0 i "[q]" w w1] in auto)
  qed simp
qed

section \<open>What an accepted push has passed\<close>

text \<open>The rules for a commit, without the program that checks them.\<close>

definition small_enough :: "config \<Rightarrow> git_object \<Rightarrow> bool" where
  "small_enough cfg obj \<longleftrightarrow> (is_blob obj \<longrightarrow> int (length (blob_data obj)) \<le> max_blob_size (limits cfg))"

definition commit_ok :: "config \<Rightarrow> commit \<Rightarrow> bool" where
  "commit_ok cfg c \<longleftrightarrow> in_tree ''PKGBUILD'' c
     \<and> (\<forall>obj \<in> set (c_tree c). small_enough cfg obj
          \<and> (is_tree obj \<longrightarrow> object_name obj = ''keys'' \<or> object_name obj = ''LICENSES''))
     \<and> (\<forall>keys. c_path c ''keys'' = Some keys \<longrightarrow> is_tree keys
          \<and> (\<forall>obj \<in> set (entries keys). is_tree obj \<and> object_name obj = ''pgp'')
          \<and> (\<forall>pgp. c_path c ''keys/pgp'' = Some pgp \<longrightarrow> is_tree pgp
               \<and> (\<forall>obj \<in> set (entries pgp). is_blob obj \<and> endswith (object_name obj) ''.asc'' \<and> small_enough cfg obj)))"

definition name_allowed :: "hook_env \<Rightarrow> db \<Rightarrow> string \<Rightarrow> bool" where
  "name_allowed env d n \<longleftrightarrow> privileged env \<or> n \<notin> set (PackageBlacklist d)"

definition not_official :: "hook_env \<Rightarrow> db \<Rightarrow> string \<Rightarrow> bool" where
  "not_official env d n \<longleftrightarrow> privileged env \<or> n \<notin> op_Name ` set (OfficialProviders d)"

text \<open>Runs that succeed, step by step.\<close>

lemma andthen_Inr: "andthen m f w = (Inr y, w') \<longleftrightarrow> (\<exists>x w1. m w = (Inr x, w1) \<and> f x w1 = (Inr y, w'))"
  by (auto simp: andthen_def split: prod.splits sum.splits)

lemma seqp_Inr: "seqp m n w = (Inr y, w') \<longleftrightarrow> (\<exists>x w1. m w = (Inr x, w1) \<and> n w1 = (Inr y, w'))"
  by (simp add: seqp_def andthen_Inr)

lemma ret_Inr: "ret x w = (Inr y, w') \<longleftrightarrow> x = y \<and> w' = w"
  by (auto simp: ret_def)

lemma the_or_Inr: "the_or e x w = (Inr y, w') \<longleftrightarrow> x = Some y \<and> w' = w"
  by (cases x) (auto simp: the_or_def ret_def throw_def)

lemma query_Inr: "query f w = (Inr y, w') \<longleftrightarrow> y = f (the_db w) \<and> w' = w"
  by (auto simp: query_def gets_def)

lemma whenp_Inr: "whenp c m w = (Inr y, w') \<longleftrightarrow> (if c then m w = (Inr y, w') else w' = w)"
  by (auto simp: whenp_def ret_def)

lemma hook_die_Inr: "hook_die msg w = (Inr y, w') \<longleftrightarrow> False"
  by (simp add: hook_die_def seqp_Inr throw_def)

lemma whenp_die: "whenp c (hook_die msg) w = (Inr y, w') \<longleftrightarrow> \<not> c \<and> w' = w"
  by (auto simp: whenp_Inr hook_die_Inr)

lemma require_Inr: "require ok msg c w = (Inr y, w') \<longleftrightarrow> ok \<and> w' = w"
  by (auto simp: require_def die_commit_def seqp_Inr throw_def ret_def)

lemma for_each_Inr:
  "for_each xs f w = (Inr y, w') \<Longrightarrow> x \<in> set xs \<Longrightarrow> \<exists>w1 w2. f x w1 = (Inr (), w2)"
  by (induction xs arbitrary: w) (auto simp: seqp_Inr)

lemma for_each_inv_Inr:
  assumes "for_each xs f w = (Inr z, w')" and "x \<in> set xs" and "I w"
    and "\<And>x w1 w2. f x w1 = (Inr (), w2) \<Longrightarrow> I w1 \<Longrightarrow> I w2"
  shows "\<exists>w1 w2. I w1 \<and> f x w1 = (Inr (), w2)"
  using assms(1,2,3)
proof (induction xs arbitrary: w)
  case (Cons y ys)
  then obtain w1 where w1: "f y w = (Inr (), w1)" "for_each ys f w1 = (Inr z, w')"
    by (auto simp: seqp_Inr)
  show ?case
  proof (cases "x = y")
    case True
    then show ?thesis using w1 Cons.prems(3) by blast
  next
    case False
    then show ?thesis using Cons.IH [OF w1(2)] Cons.prems assms(4) [OF w1(1)] by simp
  qed
qed simp

lemmas run_Inr = andthen_Inr seqp_Inr ret_Inr the_or_Inr query_Inr whenp_Inr hook_die_Inr require_Inr

lemma children_Inr: "children obj w = (Inr es, w') \<longleftrightarrow> is_tree obj \<and> es = entries obj \<and> w' = w"
  by (cases obj) (auto simp: ret_def throw_def)

lemma object_data_Inr: "object_data obj w = (Inr s, w') \<longleftrightarrow> is_blob obj \<and> s = blob_data obj \<and> w' = w"
  by (cases obj) (auto simp: ret_def throw_def)

lemma validate_blob_size_Inr: "validate_blob_size cfg obj c w = (Inr y, w') \<longleftrightarrow> small_enough cfg obj \<and> w' = w"
  by (auto simp: validate_blob_size_def require_Inr small_enough_def)

lemma validate_root_ok:
  assumes "validate_root cfg c w = (Inr y, w')" and "obj \<in> set (c_tree c)"
  shows "small_enough cfg obj" and "is_tree obj \<Longrightarrow> object_name obj = ''keys'' \<or> object_name obj = ''LICENSES''"
proof -
  from for_each_Inr [OF assms(1) [unfolded validate_root_def] assms(2)]
  have "\<not> (is_tree obj \<and> object_name obj \<notin> set [''keys'', ''LICENSES'']) \<and> small_enough cfg obj"
    unfolding run_Inr validate_blob_size_Inr by blast
  then show "small_enough cfg obj" and "is_tree obj \<Longrightarrow> object_name obj = ''keys'' \<or> object_name obj = ''LICENSES''"
    by auto
qed

lemma validate_keys_ok:
  assumes "validate_keys cfg c w = (Inr y, w')" and "c_path c ''keys'' = Some keys"
  shows "is_tree keys" and "\<forall>obj \<in> set (entries keys). is_tree obj \<and> object_name obj = ''pgp''"
    and "\<forall>pgp. c_path c ''keys/pgp'' = Some pgp \<longrightarrow> is_tree pgp
       \<and> (\<forall>obj \<in> set (entries pgp). is_blob obj \<and> endswith (object_name obj) ''.asc'' \<and> small_enough cfg obj)"
proof -
  from assms obtain w1 w2 z where k: "is_tree keys"
    and dirs: "for_each (entries keys) (\<lambda>obj. require (is_tree obj \<and> object_name obj = ''pgp'')
       ''the keys/ subdir may only contain a pgp/ directory'' c) w1 = (Inr z, w2)"
    and rest: "(case c_path c ''keys/pgp'' of None \<Rightarrow> ret () | Some pgp \<Rightarrow>
       andthen (children pgp) (\<lambda>objs. for_each objs (\<lambda>obj.
         seqp (require (is_blob obj \<and> endswith (object_name obj) ''.asc'')
           ''the subdir may only contain .asc (PGP pub key) files'' c)
         (validate_blob_size cfg obj c)))) w2 = (Inr y, w')"
    unfolding validate_keys_def by (auto simp only: option.case run_Inr children_Inr)
  show "is_tree keys"
    by (rule k)
  show "\<forall>obj \<in> set (entries keys). is_tree obj \<and> object_name obj = ''pgp''"
    using for_each_Inr [OF dirs] unfolding run_Inr by blast
  show "\<forall>pgp. c_path c ''keys/pgp'' = Some pgp \<longrightarrow> is_tree pgp
       \<and> (\<forall>obj \<in> set (entries pgp). is_blob obj \<and> endswith (object_name obj) ''.asc'' \<and> small_enough cfg obj)"
  proof (intro allI impI)
    fix pgp
    assume pgp: "c_path c ''keys/pgp'' = Some pgp"
    with rest have t: "is_tree pgp" and loop: "for_each (entries pgp) (\<lambda>obj.
         seqp (require (is_blob obj \<and> endswith (object_name obj) ''.asc'')
           ''the subdir may only contain .asc (PGP pub key) files'' c)
         (validate_blob_size cfg obj c)) w2 = (Inr y, w')"
      by (auto simp only: option.case run_Inr children_Inr)
    show "is_tree pgp \<and> (\<forall>obj \<in> set (entries pgp). is_blob obj \<and> endswith (object_name obj) ''.asc'' \<and> small_enough cfg obj)"
      using t for_each_Inr [OF loop] unfolding run_Inr validate_blob_size_Inr by blast
  qed
qed

lemma validate_commit_ok:
  assumes "validate_commit cfg licenses c w = (Inr y, w')"
  shows "commit_ok cfg c"
proof -
  from assms obtain w1 w2 w3 z z' where pkgbuild: "in_tree ''PKGBUILD'' c"
    and root: "validate_root cfg c w1 = (Inr z, w2)" and keys: "validate_keys cfg c w2 = (Inr z', w3)"
    unfolding validate_commit_def run_Inr by blast
  from pkgbuild show ?thesis
    unfolding commit_ok_def using validate_root_ok [OF root] validate_keys_ok [OF keys] by blast
qed

lemma quiet_run: "quiet m \<Longrightarrow> m w = (r, w1) \<Longrightarrow> same_but_err w w1"
  unfolding quiet_def keeps_def using same_but_err_refl by (metis snd_conv)

lemma same_but_err_trans: "same_but_err w w1 \<Longrightarrow> same_but_err w1 w2 \<Longrightarrow> same_but_err w w2"
  unfolding same_but_err_def by auto

lemma connection_Inr:
  "connection m w = (Inr y, w') \<longleftrightarrow> (\<exists>w2. m (w\<lparr>committed := the_db w\<rparr>) = (Inr y, w2) \<and> w' = w2\<lparr>the_db := committed w2\<rparr>)"
  by (auto simp: connection_def split: prod.splits)

lemma warn_or_die_Inr: "warn_or_die env msg w = (Inr y, w') \<Longrightarrow> privileged env"
  by (auto simp: warn_or_die_def hook_die_Inr split: if_splits)

lemma check_package_name_ok:
  assumes "check_package_name env known n w = (Inr y, w')"
  shows "name_allowed env (the_db w) n" and "not_official env (the_db w) n"
    and "\<forall>k \<in> set (Packages (the_db w)). pk_Name k = n \<longrightarrow> pk_PackageBaseID k = known"
proof -
  from assms obtain w1 w2 z z' where black: "whenp (n \<in> set (PackageBlacklist (the_db w)))
        (warn_or_die env (''package is blacklisted: '' @ n)) w = (Inr z, w1)"
    and official: "(case official_repo n (the_db w1) of None \<Rightarrow> ret () | Some repo \<Rightarrow>
        warn_or_die env (''package already provided by ['' @ repo @ '']: '' @ n)) w1 = (Inr z', w2)"
    and none: "\<not> count_where (\<lambda>k. pk_Name k = n \<and> pk_PackageBaseID k \<noteq> known) (Packages (the_db w2)) > 0"
    unfolding check_package_name_def andthen_Inr seqp_Inr query_Inr whenp_die by blast
  have w1: "the_db w1 = the_db w"
    using quiet_run [OF quiet_whenp [OF quiet_messages(5)] black] by (simp add: same_but_err_db)
  have "quiet (case r of None \<Rightarrow> ret () | Some repo \<Rightarrow> warn_or_die env (''package already provided by ['' @ repo @ '']: '' @ n))" for r
    by (intro quiet_intros)
  from quiet_run [OF this official] have w2: "the_db w2 = the_db w"
    using w1 by (simp add: same_but_err_db)
  show "name_allowed env (the_db w) n"
    using black warn_or_die_Inr unfolding name_allowed_def whenp_Inr by (auto split: if_splits)
  show "not_official env (the_db w) n"
  proof (cases "official_repo n (the_db w)")
    case None
    then show ?thesis
      by (auto simp: official_repo_def map_of_eq_None_iff not_official_def image_iff)
  next
    case (Some repo)
    with official w1 show ?thesis
      by (auto simp: not_official_def dest: warn_or_die_Inr)
  qed
  show "\<forall>k \<in> set (Packages (the_db w)). pk_Name k = n \<longrightarrow> pk_PackageBaseID k = known"
    using none by (auto simp: w2 count_where_def filter_empty_conv)
qed

context metadata_backend
begin

lemma check_names_ok:
  assumes "check_names be env m w = (Inr known, w')"
  shows "base_name be m = env_pkgbase env" and "known = base_id (env_pkgbase env) (the_db w)"
    and "name_allowed env (the_db w) (env_pkgbase env)"
    and "\<forall>n \<in> set (package_names be m). name_allowed env (the_db w) n \<and> not_official env (the_db w) n
       \<and> (\<forall>k \<in> set (Packages (the_db w)). pk_Name k = n \<longrightarrow> pk_PackageBaseID k = known)"
proof -
  from assms obtain w1 z z' where b: "base_name be m = env_pkgbase env"
    and known: "known = base_id (base_name be m) (the_db w)"
    and black: "whenp (base_name be m \<in> set (PackageBlacklist (the_db w)))
        (warn_or_die env (''pkgbase is blacklisted: '' @ base_name be m)) w = (Inr z, w1)"
    and loop: "for_each (package_names be m) (check_package_name env known) w1 = (Inr z', w')"
    unfolding check_names_def Let_def andthen_Inr seqp_Inr query_Inr whenp_die ret_Inr by blast
  show "base_name be m = env_pkgbase env" and "known = base_id (env_pkgbase env) (the_db w)"
    using b known by simp_all
  show "name_allowed env (the_db w) (env_pkgbase env)"
    using black warn_or_die_Inr b unfolding name_allowed_def whenp_Inr by (auto split: if_splits)
  have w1: "the_db w1 = the_db w"
    using quiet_run [OF quiet_whenp [OF quiet_messages(5)] black] by (simp add: same_but_err_db)
  have quiet: "quiet (check_package_name env known n)" for n
    unfolding check_package_name_def by (intro quiet_intros)
  show "\<forall>n \<in> set (package_names be m). name_allowed env (the_db w) n \<and> not_official env (the_db w) n
       \<and> (\<forall>k \<in> set (Packages (the_db w)). pk_Name k = n \<longrightarrow> pk_PackageBaseID k = known)"
  proof
    fix n
    assume n: "n \<in> set (package_names be m)"
    have same: "the_db v2 = the_db w" if "check_package_name env known x v1 = (Inr (), v2)" "the_db v1 = the_db w" for x v1 v2
      using same_but_err_db [OF quiet_run [OF quiet that(1)]] that(2) by simp
    have "\<exists>w2 w3. the_db w2 = the_db w \<and> check_package_name env known n w2 = (Inr (), w3)"
      by (rule for_each_inv_Inr [OF loop n]) (simp_all add: w1 same)
    then obtain w2 w3 where "the_db w2 = the_db w" "check_package_name env known n w2 = (Inr (), w3)"
      by blast
    with check_package_name_ok [of env known n w2 "()" w3]
    show "name_allowed env (the_db w) n \<and> not_official env (the_db w) n
       \<and> (\<forall>k \<in> set (Packages (the_db w)). pk_Name k = n \<longrightarrow> pk_PackageBaseID k = known)"
      by simp
  qed
qed

lemma hook_success:
  assumes "hook_main cfg be repo env argv w = (Inr (), w')"
  obtains sha1_old sha1_new commits head entry raw m known w1 w2 wa wb where
    "pushed_range env argv w = (Inr (''refs/heads/master'', sha1_old, sha1_new), w)"
    "sha1_old \<noteq> zero_sha \<Longrightarrow> \<not> allow_overwrite env \<Longrightarrow> repo_walk repo sha1_old (Some sha1_new) = Some []"
    "repo_walk repo sha1_new (if sha1_old = zero_sha then None else Some sha1_old) = Some commits"
    "\<forall>c \<in> set commits. commit_ok cfg c"
    "repo_commit repo sha1_new = Some head" "c_path head ''.SRCINFO'' = Some entry" "blob_data entry = raw"
    "read_metadata be head raw wa = (Inr m, wb)"
    "check_names be env m w1 = (Inr known, w2)"
    "untouched w w1" "untouched w w2" "committed w2 = the_db w" 
    "\<exists>w3. store_push be env sha1_new m known w2 = (Inr (), w3) \<and> w' = w3\<lparr>the_db := committed w3\<rparr>"
proof -
  have walk: "quiet (deny_non_fast_forward repo env sha1_old sha1_new)" for sha1_old sha1_new
    unfolding deny_non_fast_forward_def by (intro quiet_intros)
  from assms obtain refname sha1_old sha1_new wx w2 where
    range: "pushed_range env argv w = (Inr (refname, sha1_old, sha1_new), wx)"
    and master: "refname = ''refs/heads/master''"
    and conn: "(seqp (deny_non_fast_forward repo env sha1_old sha1_new)
       (andthen (validate_push cfg be repo sha1_old sha1_new) (\<lambda>metadata.
       andthen (check_names be env metadata) (\<lambda>pkgbase_id.
       store_push be env sha1_new metadata pkgbase_id)))) (wx\<lparr>committed := the_db wx\<rparr>) = (Inr (), w2)"
    and w': "w' = w2\<lparr>the_db := committed w2\<rparr>"
    unfolding hook_main_def andthen_Inr [of "pushed_range env argv"] by (auto simp: seqp_Inr whenp_die connection_Inr)
  have wx: "wx = w"
    using range by (auto simp: pushed_range_def andthen_Inr hook_die_Inr ret_Inr gets_def split: if_splits option.splits)
  let ?w0 = "w\<lparr>committed := the_db w\<rparr>"
  from conn obtain z wd m wv known wn where
    deny: "deny_non_fast_forward repo env sha1_old sha1_new ?w0 = (Inr z, wd)"
    and valid: "validate_push cfg be repo sha1_old sha1_new wd = (Inr m, wv)"
    and names: "check_names be env m wv = (Inr known, wn)"
    and store: "store_push be env sha1_new m known wn = (Inr (), w2)"
    unfolding wx seqp_Inr andthen_Inr by blast
  have d: "same_but_err ?w0 wd"
    by (rule quiet_run [OF walk deny])
  have v: "same_but_err ?w0 wv"
    by (rule same_but_err_trans [OF d quiet_run [OF validate_quiet valid]])
  have n: "same_but_err ?w0 wn"
    by (rule same_but_err_trans [OF v quiet_run [OF names_quiet names]])
  have un: "untouched w x" if "same_but_err ?w0 x" for x
  proof -
    from that obtain s where "x = ?w0\<lparr>stderr := stderr ?w0 @ s\<rparr>"
      unfolding same_but_err_def ..
    then have "x = w\<lparr>stderr := stderr w @ s, committed := the_db w\<rparr>"
      by (simp add: committed_stderr)
    then show ?thesis
      by (rule untouchedI)
  qed
  have ff: "repo_walk repo sha1_old (Some sha1_new) = Some []" if "sha1_old \<noteq> zero_sha" "\<not> allow_overwrite env"
    using deny that by (auto simp: deny_non_fast_forward_def whenp_die whenp_Inr [of _ "andthen f g" for f g] andthen_Inr the_or_Inr)
  from valid obtain commits head entry raw wa wb wc y where
    commits: "repo_walk repo sha1_new (if sha1_old = zero_sha then None else Some sha1_old) = Some commits"
    and head: "repo_commit repo sha1_new = Some head" "c_path head ''.SRCINFO'' = Some entry"
    and raw: "object_data entry wa = (Inr raw, wa)"
    and read: "read_metadata be head raw wa = (Inr m, wb)"
    and loop: "for_each commits (validate_commit cfg (check_licenses be)) wb = (Inr y, wc)"
    unfolding validate_push_def tree_entry_def andthen_Inr seqp_Inr the_or_Inr require_Inr ret_Inr object_data_Inr
    by blast
  have "\<forall>c \<in> set commits. commit_ok cfg c"
    using for_each_Inr [OF loop] validate_commit_ok by blast
  moreover have "blob_data entry = raw"
    using raw by (simp add: object_data_Inr)
  ultimately show thesis
    using that [OF range [unfolded wx master] ff commits _ head _ read names un [OF v] un [OF n]] store w' same_but_err_db [OF n]
    by simp
qed

end

section \<open>What a push of the legacy hook leaves\<close>

lemma bases_named_row: "i \<in> bases_named p d \<Longrightarrow> \<exists>b \<in> set (PackageBases d). pb_ID b = i \<and> pb_Name b = p"
  by (auto simp: bases_named_def)

lemma bases_named_unique: "wf_db d \<Longrightarrow> i \<in> bases_named p d \<Longrightarrow> j \<in> bases_named p d \<Longrightarrow> i = j"
  using base_name_unique by (auto simp: bases_named_def)

lemma listing_other_tables [simp]:
  "listing_of k (d\<lparr>PackageNotifications := x\<rparr>) = listing_of k d"
  by (simp add: listing_of_def license_name_def group_name_def)

text \<open>The row of the package base after the first statements.\<close>

definition pushed_base :: "nat \<Rightarrow> int \<Rightarrow> packagebases_row \<Rightarrow> bool" where
  "pushed_base userid ts b \<longleftrightarrow> pb_PackagerUID b = Some userid \<and> pb_ModifiedTS b = ts \<and> pb_OutOfDateTS b = None
     \<and> pb_MaintainerUID b \<noteq> None"

lemma wp_begin_update_exactly:
  "wp (begin_update p user) (\<lambda>(i, userid, _) w'. (\<forall>k \<in> set (Packages (the_db w')). pk_PackageBaseID k \<noteq> i)
      \<and> (\<exists>b \<in> set (PackageBases (the_db w')). pb_ID b = i \<and> pb_Name b = p \<and> pushed_base userid (now w) b)
      \<and> references w' = references w \<and> sent w' = sent w \<and> now w' = now w) (\<lambda>_ _. True) w"
proof -
  have "\<exists>b' \<in> set (update_where (\<lambda>x. pb_ID x = pb_ID b) (adopt_orphan userid)
        (update_where (\<lambda>x. pb_ID x = pb_ID b) (touch_pkgbase userid t) (PackageBases d))).
      pb_ID b' = pb_ID b \<and> pb_Name b' = p \<and> pushed_base userid t b'"
    if "List.find (\<lambda>b. pb_Name b = p) (PackageBases d) = Some b" for b d userid t
    by (rule bexI [of _ "adopt_orphan userid (touch_pkgbase userid t b)"])
      (use find_SomeD [OF that] in \<open>auto simp: update_where_def adopt_orphan_def touch_pkgbase_def pushed_base_def
        image_iff intro!: bexI [of _ b]\<close>)
  then show ?thesis
    unfolding begin_update_def
    by (auto simp: wp_simps fetch_userid_id delete_packages_def Let_def delete_where_def split: option.split)
qed

lemma wp_end_update_exactly:
  "wp (end_update i userid was_orphan) (\<lambda>_ w'. (\<exists>ns. the_db w' = the_db w\<lparr>PackageNotifications := ns\<rparr>)
      \<and> committed w' = the_db w' \<and> references w' = references w \<and> sent w' = sent w \<and> now w' = now w) (\<lambda>_ _. True) w"
proof -
  have same: "\<exists>ns. d = d\<lparr>PackageNotifications := ns\<rparr>" for d :: db
    by (rule exI [of _ "PackageNotifications d"]) simp
  show ?thesis
    unfolding end_update_def insert_notification_def
    by (auto simp: wp_simps intro: same)
qed

text \<open>The whole of \<open>save_metadata\<close>.\<close>

definition metadata_stored :: "db \<Rightarrow> string \<Rightarrow> srcinfo \<Rightarrow> nat \<Rightarrow> int \<Rightarrow> db \<Rightarrow> bool" where
  "metadata_stored d0 p m userid ts d \<longleftrightarrow> (\<exists>b \<in> set (PackageBases d). pb_Name b = p \<and> pushed_base userid ts b
     \<and> list_all2 (\<lambda>q row. package_fields q row \<and> listing_of (pk_ID row) d = expected_listing d0 q)
         (map snd (si_packages m)) (filter (\<lambda>k. pk_PackageBaseID k = pb_ID b) (Packages d)))"

lemma wp_legacy_save:
  assumes push: "pushing p user d0 w" and p: "si_pkgbase m = Some p"
  shows "wp (legacy_save_metadata m user) (\<lambda>_ w'. pushing p user d0 w'
     \<and> (\<exists>userid. pusher_id user d0 = Some userid \<and> metadata_stored d0 p m userid (now w) (the_db w'))
     \<and> committed w' = the_db w' \<and> references w' = references w \<and> sent w' = sent w \<and> now w' = now w) (\<lambda>_ _. True) w"
proof -
  have "wp (legacy_save_metadata m user) (\<lambda>_ w'. (\<exists>userid. pusher_id user d0 = Some userid \<and> metadata_stored d0 p m userid (now w) (the_db w'))
     \<and> committed w' = the_db w' \<and> references w' = references w \<and> sent w' = sent w \<and> now w' = now w) (\<lambda>_ _. True) w"
    unfolding legacy_save_metadata_def p wp_andthen wp_the_or option.case
  proof (rule wp_mono [OF wp_conj [THEN iffD2, OF conjI [OF wp_begin_update [OF push] wp_begin_update_exactly]]])
    fix x :: "nat \<times> nat \<times> bool" and w1
    assume x1: "(case x of (i, userid, _) \<Rightarrow> \<lambda>w'. own_base p user d0 i w' \<and> pusher_id user (the_db w') = Some userid) w1
      \<and> (case x of (i, userid, _) \<Rightarrow> \<lambda>w'. (\<forall>k \<in> set (Packages (the_db w')). pk_PackageBaseID k \<noteq> i)
      \<and> (\<exists>b \<in> set (PackageBases (the_db w')). pb_ID b = i \<and> pb_Name b = p \<and> pushed_base userid (now w) b)
      \<and> references w' = references w \<and> sent w' = sent w \<and> now w' = now w) w1"
    obtain i userid orphan where x: "x = (i, userid, orphan)"
      by (cases x)
    have own: "own_base p user d0 i w1" and user: "pusher_id user d0 = Some userid"
      and none: "\<forall>k \<in> set (Packages (the_db w1)). pk_PackageBaseID k \<noteq> i"
      and frame: "references w1 = references w" "sent w1 = sent w" "now w1 = now w"
      using x1 pusher_id_push [of p user d0 "the_db w1"] by (auto simp: x own_base_def pushing_def)
    obtain b where b: "b \<in> set (PackageBases (the_db w1))" "pb_ID b = i" "pb_Name b = p" "pushed_base userid (now w) b"
      using x1 by (auto simp: x)
    show "wp (case x of (i, userid, was_orphan) \<Rightarrow> seqp (for_each (si_packages m) (\<lambda>(_, p). legacy_save_package i p))
        (end_update i userid was_orphan))
      (\<lambda>_ w'. (\<exists>userid. pusher_id user d0 = Some userid \<and> metadata_stored d0 p m userid (now w) (the_db w'))
         \<and> committed w' = the_db w' \<and> references w' = references w \<and> sent w' = sent w \<and> now w' = now w) (\<lambda>_ _. True) w1"
      unfolding x prod.case wp_seqp
    proof (rule wp_mono [OF wp_legacy_packages [OF own]])
      fix w2
      assume w2: "own_base p user d0 i w2 \<and> adds_packages d0 i (map snd (si_packages m)) w1 w2"
      then obtain rows where rows: "Packages (the_db w2) = Packages (the_db w1) @ rows"
        "list_all2 (\<lambda>q row. package_fields q row \<and> pk_PackageBaseID row = i
          \<and> listing_of (pk_ID row) (the_db w2) = expected_listing d0 q) (map snd (si_packages m)) rows"
        "PackageBases (the_db w2) = PackageBases (the_db w1)" "references w2 = references w1" "sent w2 = sent w1" "now w2 = now w1"
        unfolding adds_packages_def by blast
      have "\<forall>row \<in> set rows. pk_PackageBaseID row = i"
        using list_all2_in2 [OF rows(2)] by blast
      then have filter: "filter (\<lambda>k. pk_PackageBaseID k = i) (Packages (the_db w2)) = rows"
        using none by (simp add: rows(1))
      have "list_all2 (\<lambda>q row. package_fields q row \<and> listing_of (pk_ID row) (the_db w2) = expected_listing d0 q)
          (map snd (si_packages m)) rows"
        by (rule list.rel_mono_strong [OF rows(2)]) simp
      then have stored: "metadata_stored d0 p m userid (now w) (the_db w2\<lparr>PackageNotifications := ns\<rparr>)" for ns
        unfolding metadata_stored_def using b rows(3) filter by (intro bexI [of _ b]) simp_all
      show "wp (end_update i userid orphan)
        (\<lambda>_ w'. (\<exists>userid. pusher_id user d0 = Some userid \<and> metadata_stored d0 p m userid (now w) (the_db w'))
           \<and> committed w' = the_db w' \<and> references w' = references w \<and> sent w' = sent w \<and> now w' = now w) (\<lambda>_ _. True) w2"
        by (rule wp_mono [OF wp_end_update_exactly]) (use user stored rows(4-6) frame in auto)
    qed simp
  qed simp
  then have "wp (legacy_save_metadata m user) (\<lambda>_ w'. pushing p user d0 w' \<and> (\<exists>userid. pusher_id user d0 = Some userid \<and> metadata_stored d0 p m userid (now w) (the_db w'))
     \<and> committed w' = the_db w' \<and> references w' = references w \<and> sent w' = sent w \<and> now w' = now w) (\<lambda>_ w'. pushing p user d0 w' \<and> True) w"
    using legacy.save_pushing [of cfg opts m p user d0 w] push p
    unfolding wp_conj by (simp add: legacy_backend_def)
  then show ?thesis
    by (rule wp_mono) simp_all
qed

text \<open>The whole of what follows the checks.\<close>

abbreviation base_keys :: "db \<Rightarrow> (nat \<times> string) list" where
  "base_keys d \<equiv> map (\<lambda>b. (pb_ID b, pb_Name b)) (PackageBases d)"

lemma bases_named_same: "base_keys d = base_keys d' \<Longrightarrow> bases_named p d = bases_named p d'"
  unfolding bases_named_keys by simp

lemma keeps_base_keys:
  "keeps (db_inv (\<lambda>d. base_keys d = K)) (legacy_save_metadata m user)"
proof -
  have keys: "map (\<lambda>b. (pb_ID b, pb_Name b)) (update_where q f bs) = map (\<lambda>b. (pb_ID b, pb_Name b)) bs"
    if "\<And>b. pb_ID (f b) = pb_ID b \<and> pb_Name (f b) = pb_Name b" for q f bs
    using that by (simp add: map_update_where_same)
  have commit: "keeps (db_inv P) commit_now" for P
    by (simp add: keeps_def commit_now_def modify_def db_inv_def)
  have entry: "keeps (db_inv (\<lambda>d. base_keys d = K)) (insert_depend k t r)"
    "keeps (db_inv (\<lambda>d. base_keys d = K)) (insert_relation k t r)" for k t r
    by (cases r, simp add: insert_depend_def insert_relation_def keeps_intros)+
  have rows: "keeps (db_inv (\<lambda>d. base_keys d = K)) (insert_source k s)"
    "keeps (db_inv (\<lambda>d. base_keys d = K)) (insert_depends k x)"
    "keeps (db_inv (\<lambda>d. base_keys d = K)) (insert_relations k x)"
    "keeps (db_inv (\<lambda>d. base_keys d = K)) (insert_license k n)"
    "keeps (db_inv (\<lambda>d. base_keys d = K)) (insert_group k n)" for k s x n
    by (cases s; cases x; simp add: insert_source_def insert_depends_def insert_relations_def insert_license_def
        license_id_def insert_group_def group_id_def keeps_intros entry commit)+
  have package: "keeps (db_inv (\<lambda>d. base_keys d = K)) (legacy_save_package i q)" for i q
    unfolding legacy_save_package_def insert_package_def
    by (intro keeps_intros rows commit; simp)
  have first: "keeps (db_inv (\<lambda>d. base_keys d = K)) (begin_update q user)" for q
    unfolding begin_update_def fetch_userid_def
    by (intro keeps_intros) (simp_all add: keys touch_pkgbase_def adopt_orphan_def delete_packages_def Let_def)
  have last: "keeps (db_inv (\<lambda>d. base_keys d = K)) (end_update i u orphan)" for i u orphan
    unfolding end_update_def insert_notification_def by (intro keeps_intros commit; simp)
  have rest: "keeps (db_inv (\<lambda>d. base_keys d = K)) (case x of (i, userid, was_orphan) \<Rightarrow>
      seqp (for_each qs (\<lambda>(_, q). legacy_save_package i q)) (end_update i userid was_orphan))"
    for x :: "nat \<times> nat \<times> bool" and qs :: "(string \<times> pkginfo) list"
    by (cases x) (simp add: keeps_intros package last split: prod.split)
  show ?thesis
    unfolding legacy_save_metadata_def by (intro keeps_intros first rest)
qed

lemma base_id_named: "base_id p d \<noteq> 0 \<Longrightarrow> base_id p d \<in> bases_named p d"
  by (auto simp: base_id_def bases_named_def split: option.splits dest: find_SomeD)

definition same_outputs :: "world \<Rightarrow> world \<Rightarrow> bool" where
  "same_outputs w w' \<longleftrightarrow> references w' = references w \<and> sent w' = sent w \<and> now w' = now w"

lemma create_pkgbase_outputs: "keeps (same_outputs w0) (create_pkgbase p user)"
proof -
  have db: "keeps (same_outputs w0) (execute f)" "keeps (same_outputs w0) (insert_unless c f)"
    "keeps (same_outputs w0) commit_now" for f c
    by (auto intro!: keepsI simp: wp_simps same_outputs_def)
  show ?thesis
    unfolding create_pkgbase_def insert_notification_def fetch_userid_def by (intro keeps_intros db)
qed

lemma wp_update_notify:
  "wp (update_notify user i) Q E w = (case pusher_id user (the_db w) of None \<Rightarrow> E Py_TypeError w
     | Some userid \<Rightarrow> Q () (w\<lparr>sent := sent w @ [UpdateNotification userid i]\<rparr>))"
  by (simp add: update_notify_def wp_andthen fetch_userid_id wp_send split: option.split)

lemma wp_create_reference:
  "wp (create_reference n sha1) Q E w = Q () (w\<lparr>references := AList.update n sha1 (references w)\<rparr>)"
  by (simp add: create_reference_def wp_simps)

lemma heads_or_namespaces: "''refs/heads/'' @ p \<noteq> ''refs/namespaces/'' @ q"
  by simp

definition push_done :: "world \<Rightarrow> string \<Rightarrow> string \<Rightarrow> srcinfo \<Rightarrow> string \<Rightarrow> world \<Rightarrow> bool" where
  "push_done w p user m sha1 w' \<longleftrightarrow> (\<exists>userid i. pusher_id user (the_db w) = Some userid
     \<and> metadata_stored (the_db w) p m userid (now w) (the_db w') \<and> i \<in> bases_named p (the_db w')
     \<and> sent w' = sent w @ [UpdateNotification userid i]
     \<and> map_of (references w') (''refs/heads/'' @ p) = Some sha1)"

lemma wp_legacy_store:
  assumes push: "pushing p user (the_db w) w1" and p: "si_pkgbase m = Some p" and env: "env_user env = user"
    and known: "known \<noteq> 0 \<Longrightarrow> known \<in> bases_named p (the_db w1)" and out: "same_outputs w w1"
  shows "wp (store_push (legacy_backend cfg opts) env sha1 m known)
     (\<lambda>_ w'. push_done w p user m sha1 (w'\<lparr>the_db := committed w'\<rparr>)) (\<lambda>_ _. True) w1"
proof -
  let ?d = "the_db w"
  have name: "base_name (legacy_backend cfg opts) m = p"
    by (simp add: legacy_backend_def p)
  have save: "save_metadata (legacy_backend cfg opts) m user = legacy_save_metadata m user"
    by (simp add: legacy_backend_def)
  have "wp (if known = 0 then create_pkgbase p user else ret known)
      (\<lambda>i w'. own_base p user ?d i w' \<and> same_outputs w w') (\<lambda>_ w'. pushing p user ?d w' \<and> same_outputs w w') w1"
  proof (cases "known = 0")
    case True
    then show ?thesis
      using wp_conj [THEN iffD2, OF conjI [OF wp_create_pkgbase [OF push] keeps_wp [OF create_pkgbase_outputs out]]]
      by simp
  next
    case False
    then show ?thesis
      using known push out by (simp add: wp_ret own_base_def)
  qed
  then show ?thesis
    unfolding store_push_def Let_def name env save wp_andthen
  proof (rule wp_mono)
    fix i w2
    assume w2: "own_base p user ?d i w2 \<and> same_outputs w w2"
    then have push2: "pushing p user ?d w2"
      by (simp add: own_base_def)
    let ?K = "base_keys (the_db w2)"
    have keys: "wp (legacy_save_metadata m user) (\<lambda>_ w'. base_keys (the_db w') = ?K) (\<lambda>_ _. True) w2"
      by (rule wp_mono [OF keeps_wp [OF keeps_base_keys [of ?K]]]) (simp_all add: db_inv_def)
    have both: "wp (legacy_save_metadata m user) (\<lambda>_ w'. (pushing p user ?d w'
       \<and> (\<exists>userid. pusher_id user ?d = Some userid \<and> metadata_stored ?d p m userid (now w2) (the_db w'))
       \<and> committed w' = the_db w' \<and> references w' = references w2 \<and> sent w' = sent w2 \<and> now w' = now w2)
       \<and> base_keys (the_db w') = ?K) (\<lambda>_ _. True \<and> True) w2"
      unfolding wp_conj using wp_legacy_save [OF push2 p] keys by simp
    have last: "\<exists>userid. pusher_id user (the_db w3) = Some userid \<and> pusher_id user ?d = Some userid
        \<and> metadata_stored ?d p m userid (now w) (the_db w3) \<and> i \<in> bases_named p (the_db w3)
        \<and> committed w3 = the_db w3 \<and> sent w3 = sent w"
      if w3: "(pushing p user ?d w3
       \<and> (\<exists>userid. pusher_id user ?d = Some userid \<and> metadata_stored ?d p m userid (now w2) (the_db w3))
       \<and> committed w3 = the_db w3 \<and> references w3 = references w2 \<and> sent w3 = sent w2 \<and> now w3 = now w2)
       \<and> base_keys (the_db w3) = ?K" for w3
    proof -
      obtain userid where user: "pusher_id user ?d = Some userid" "metadata_stored ?d p m userid (now w) (the_db w3)"
        using w3 w2 by (auto simp: same_outputs_def)
      moreover have "pusher_id user (the_db w3) = Some userid"
        using w3 user pusher_id_push by (auto simp: pushing_def)
      moreover have "i \<in> bases_named p (the_db w3)"
        using w2 w3 bases_named_same [of "the_db w3" "the_db w2" p] by (simp add: own_base_def)
      ultimately show ?thesis
        using w3 w2 by (auto simp: same_outputs_def)
    qed
    show "wp (seqp (legacy_save_metadata m user) (seqp (create_reference (''refs/heads/'' @ p) sha1)
        (seqp (create_reference (''refs/namespaces/'' @ p @ ''/HEAD'') sha1) (update_notify user i))))
      (\<lambda>_ w'. push_done w p user m sha1 (w'\<lparr>the_db := committed w'\<rparr>)) (\<lambda>_ _. True) w2"
      unfolding wp_seqp wp_create_reference wp_update_notify
      by (rule wp_mono [OF both]) (use last in \<open>fastforce simp: push_done_def update_conv'\<close>)+
  qed simp
qed

end
