(* ===== verification/Git_Props.thy ===== *)
theory Git_Props
  imports Git_Stored
begin

text \<open>
  The properties of the update hook, on \<open>cli_main\<close> (either parser) and on \<open>legacy_main\<close>, and what a push does that
  fails half-way.
\<close>

section \<open>A push on the small site\<close>

definition demo_lookup :: "git_object list \<Rightarrow> string \<Rightarrow> git_object option" where
  "demo_lookup objs path = List.find (\<lambda>obj. object_name obj = path) objs"

definition demo_files :: "git_object list" where
  "demo_files = [Blob ''.SRCINFO'' ''s1'' ''info'', Blob ''PKGBUILD'' ''p1'' ''build'']"

definition demo_head :: commit where
  "demo_head = \<lparr>c_id = ''h1'', c_tree = demo_files, c_path = demo_lookup demo_files\<rparr>"

definition demo_commit :: "string \<Rightarrow> commit option" where
  "demo_commit sha1 = (if sha1 = ''h1'' then Some demo_head else None)"

definition demo_walk :: "string \<Rightarrow> string option \<Rightarrow> commit list option" where
  "demo_walk new old = (if new = ''h1'' then Some [demo_head] else None)"

definition demo_repo :: repository where
  "demo_repo = \<lparr>repo_commit = demo_commit, repo_walk = demo_walk\<rparr>"

definition demo_texts :: "string \<Rightarrow> string option" where
  "demo_texts = map_of [(''pkgname'', ''foo''), (''pkgver'', ''2''), (''pkgrel'', ''1'')]"

definition demo_lists :: "string list \<Rightarrow> string \<Rightarrow> string list option" where
  "demo_lists licenses = map_of [(''arch'', [''any'']), (''depends'', [''glibc>=2'']), (''license'', licenses)]"

definition demo_srcinfo :: "string list \<Rightarrow> srcinfo" where
  "demo_srcinfo licenses = \<lparr>si_pkgbase = Some ''foo'',
     si_packages = [(''foo'', \<lparr>pi_text = demo_texts, pi_list = demo_lists licenses\<rparr>)]\<rparr>"

definition demo_parse :: "string list \<Rightarrow> string \<Rightarrow> srcinfo \<times> (nat \<times> string list) list" where
  "demo_parse licenses text = (demo_srcinfo licenses, [])"

definition demo_options :: "string list \<Rightarrow> update_options" where
  "demo_options licenses = \<lparr>parse_srcinfo = demo_parse licenses, decode_utf8 = Some, spdx_names = []\<rparr>"

definition demo_alpm_parse :: "string \<Rightarrow> string + alpm_srcinfo" where
  "demo_alpm_parse text = Inl ''broken''"

definition demo_pkgctl :: "commit \<Rightarrow> pkgctl_result" where
  "demo_pkgctl c = Compliant"

definition demo_alpm :: alpm_options where
  "demo_alpm = \<lparr>source_info_from_str = demo_alpm_parse, alpm_decode = Some, license_check_timeout = None,
     pkgctl_executable = None, run_pkgctl = demo_pkgctl\<rparr>"

definition demo_env :: "string \<Rightarrow> hook_env" where
  "demo_env user = \<lparr>env_user = user, env_pkgbase = ''foo'', env_privileged = None, env_overwrite = None\<rparr>"

definition demo_site :: world where
  "demo_site = demo_world\<lparr>the_db := demo_db\<lparr>
     DependencyTypes := [\<lparr>dt_ID = 1, dt_Name = ''depends''\<rparr>, \<lparr>dt_ID = 2, dt_Name = ''makedepends''\<rparr>,
       \<lparr>dt_ID = 3, dt_Name = ''checkdepends''\<rparr>, \<lparr>dt_ID = 4, dt_Name = ''optdepends''\<rparr>],
     RelationTypes := [\<lparr>rt_ID = 1, rt_Name = ''conflicts''\<rparr>, \<lparr>rt_ID = 2, rt_Name = ''provides''\<rparr>,
       \<lparr>rt_ID = 3, rt_Name = ''replaces''\<rparr>]\<rparr>\<rparr>"

definition demo_argv :: "string list" where
  "demo_argv = [''update'', ''refs/heads/master'', zero_sha, ''h1'']"

definition demo_push :: "string list \<Rightarrow> string \<Rightarrow> world \<Rightarrow> (exn + unit) \<times> world" where
  "demo_push licenses user = cli_main False default_config (demo_options licenses) demo_alpm demo_repo
     (demo_env user) demo_argv"

lemma demo_site_ok: "db_ok (the_db demo_site)" "packages_ok (the_db demo_site)"
  by code_simp+

section \<open>The properties\<close>

lemma cli_main_cases:
  "cli_main alpm_parser cfg legacy alpm repo env argv =
     (if alpm_parser then hook_main cfg (alpm_backend alpm) repo env argv
      else hook_main cfg (legacy_backend cfg legacy) repo env argv)"
  by (simp add: cli_main_def alpm_main_def legacy_main_def fun_eq_iff)

text \<open>
  C21. However a run of the update hook ends, the database keeps its constraints and vote counters, and
  everything outside the package base of the push is as before: package bases, packages, dependencies,
  relations, sources, licenses and groups of packages, votes, comments, requests and users; names of licenses
  and groups are only added. The maintainer of an existing package base stays, except that the pusher becomes
  maintainer of an orphan; a new package base has the pusher as maintainer.
\<close>

theorem push_stays_in_its_base:
  assumes "db_ok (the_db w)" and "packages_ok (the_db w)"
  shows "let d = the_db w; d' = the_db (snd (cli_main alpm_parser cfg legacy alpm repo env argv w)); p = env_pkgbase env in
     db_ok d' \<and> packages_ok d' \<and> outside p d' = outside p d
     \<and> prefix (Licenses d) (Licenses d') \<and> prefix (Groups d) (Groups d')
     \<and> maintainer_after p (env_user env) d d'"
  using legacy.hook_confined [OF assms, of env cfg cfg legacy repo argv] alpm.hook_confined [OF assms, of env cfg alpm repo argv]
  by (simp add: cli_main_cases Let_def push_step_def)

theorem push_stays_in_its_base_witness:
  "outside ''foo'' (the_db (snd (demo_push [''MIT''] ''bob'' demo_site))) = outside ''foo'' (the_db demo_site)
   \<and> map pk_Version (Packages (the_db (snd (demo_push [''MIT''] ''bob'' demo_site)))) = [''2-1'']"
proof -
  have "env_pkgbase (demo_env ''bob'') = ''foo''"
    by (simp add: demo_env_def)
  with push_stays_in_its_base [OF demo_site_ok, of False default_config "demo_options [''MIT'']" demo_alpm demo_repo
      "demo_env ''bob''" demo_argv]
  have "outside ''foo'' (the_db (snd (demo_push [''MIT''] ''bob'' demo_site))) = outside ''foo'' (the_db demo_site)"
    unfolding demo_push_def Let_def by (simp only:)
  moreover have "map pk_Version (Packages (the_db (snd (demo_push [''MIT''] ''bob'' demo_site)))) = [''2-1'']"
    by code_simp
  ultimately show ?thesis
    by (rule conjI)
qed

text \<open>
  A push that the hook refuses leaves no trace: when it exits, the database, the references, the
  notifications and everything else are as before, and only messages have been written.
\<close>

theorem refused_push_leaves_no_trace:
  assumes "cli_main alpm_parser cfg legacy alpm repo env argv w = (Inl (SystemExit n), w')"
  shows "the_db w' = the_db w \<and> references w' = references w \<and> sent w' = sent w \<and> stdout w' = stdout w
     \<and> (\<exists>messages. stderr w' = stderr w @ messages)"
proof -
  have "untouched w w'"
    using assms legacy.hook_refused alpm.hook_refused by (auto simp: cli_main_cases split: if_splits)
  then show ?thesis
    unfolding untouched_def by auto
qed

theorem refused_push_leaves_no_trace_witness:
  "\<exists>w'. cli_main False default_config (demo_options []) demo_alpm demo_repo (demo_env ''bob'') [''update''] demo_site
       = (Inl (SystemExit 1), w')
     \<and> the_db w' = the_db demo_site"
proof -
  have "fst (cli_main False default_config (demo_options []) demo_alpm demo_repo (demo_env ''bob'') [''update''] demo_site)
      = Inl (SystemExit 1)"
    by code_simp
  then obtain w' where w': "cli_main False default_config (demo_options []) demo_alpm demo_repo (demo_env ''bob'')
      [''update''] demo_site = (Inl (SystemExit 1), w')"
    by (metis prod.collapse)
  from refused_push_leaves_no_trace [OF this] w' show ?thesis
    by blast
qed



lemma read_srcinfo_Inr:
  assumes "read_srcinfo cfg opts c raw w = (Inr m, w')"
  obtains content p where "decode_utf8 opts raw = Some content" "parse_srcinfo opts content = (m, [])" "si_pkgbase m = Some p"
proof -
  from assms obtain content where content: "decode_utf8 opts raw = Some content"
    and run: "(case parse_srcinfo opts content of (m, errors) \<Rightarrow> if errors \<noteq> [] then show_parse_errors c errors
        else seqp (validate_metadata cfg m c) (ret m)) w = (Inr m, w')"
    unfolding read_srcinfo_def andthen_Inr the_or_Inr by blast
  obtain m' errors where parse: "parse_srcinfo opts content = (m', errors)"
    by fastforce
  have none: "errors = []"
    using run unfolding parse by (auto simp: show_parse_errors_def seqp_Inr throw_def split: if_splits)
  then have "m' = m" and "\<exists>z w1. validate_metadata cfg m' c w = (Inr z, w1)"
    using run unfolding parse by (auto simp: seqp_Inr ret_Inr)
  moreover have "si_pkgbase m' \<noteq> None"
    using \<open>\<exists>z w1. validate_metadata cfg m' c w = (Inr z, w1)\<close>
    by (auto simp: validate_metadata_def die_commit_def seqp_Inr throw_def split: option.splits)
  ultimately show thesis
    using that content parse none by auto
qed

text \<open>
  C23. A successful push with the legacy hook stores what the pushed .SRCINFO says: the package base exists, was
  modified now by the pusher, is not flagged and has a maintainer; its packages are those of the .SRCINFO, in
  order, with version, description and URL, and exactly their sources, dependencies, relations, licenses and
  groups. The branch of the package base points to the pushed commit and one update notification is sent. None
  of the packages is blacklisted or official, unless the user is privileged.
\<close>

theorem push_stores_metadata:
  assumes run: "legacy_main cfg opts repo env argv w = (Inr (), w')"
    and db: "db_ok (the_db w)" and packages: "packages_ok (the_db w)"
  shows "\<exists>sha1_old sha1_new head entry content m.
     pushed_range env argv w = (Inr (''refs/heads/master'', sha1_old, sha1_new), w)
     \<and> repo_commit repo sha1_new = Some head \<and> c_path head ''.SRCINFO'' = Some entry
     \<and> decode_utf8 opts (blob_data entry) = Some content \<and> parse_srcinfo opts content = (m, [])
     \<and> push_done w (env_pkgbase env) (env_user env) m sha1_new w'
     \<and> (\<forall>q \<in> snd ` set (si_packages m). name_allowed env (the_db w) (text_field q ''pkgname'')
          \<and> not_official env (the_db w) (text_field q ''pkgname''))"
proof -
  let ?p = "env_pkgbase env"
  from run have "hook_main cfg (legacy_backend cfg opts) repo env argv w = (Inr (), w')"
    by (simp add: legacy_main_def)
  then obtain sha1_old sha1_new commits head entry raw m known w1 w2 wa wb w3 where
    range: "pushed_range env argv w = (Inr (''refs/heads/master'', sha1_old, sha1_new), w)"
    and head: "repo_commit repo sha1_new = Some head" "c_path head ''.SRCINFO'' = Some entry" "blob_data entry = raw"
    and read: "read_metadata (legacy_backend cfg opts) head raw wa = (Inr m, wb)"
    and names: "check_names (legacy_backend cfg opts) env m w1 = (Inr known, w2)"
    and un: "untouched w w1" "untouched w w2" "committed w2 = the_db w"
    and store: "store_push (legacy_backend cfg opts) env sha1_new m known w2 = (Inr (), w3)"
    and w': "w' = w3\<lparr>the_db := committed w3\<rparr>"
    using legacy.hook_success by metis
  from read have "read_srcinfo cfg opts head raw wa = (Inr m, wb)"
    by (simp add: legacy_backend_def)
  then obtain content q where content: "decode_utf8 opts raw = Some content" "parse_srcinfo opts content = (m, [])"
    and "si_pkgbase m = Some q"
    by (rule read_srcinfo_Inr)
  with legacy.check_names_ok(1,2) [OF names] un
  have base: "si_pkgbase m = Some ?p" and known: "known = base_id ?p (the_db w)" and db2: "the_db w2 = the_db w"
    by (auto simp: legacy_backend_def untouched_def)
  have "pushing ?p (env_user env) (the_db w) w2"
    using push_step_refl [OF db packages] un(3) by (simp add: pushing_def db2)
  moreover have "known \<in> bases_named ?p (the_db w2)" if "known \<noteq> 0"
    using that base_id_named by (simp add: known db2)
  moreover have "same_outputs w w2"
    using un(2) by (auto simp: untouched_def same_outputs_def)
  ultimately have "wp (store_push (legacy_backend cfg opts) env sha1_new m known)
      (\<lambda>_ w'. push_done w ?p (env_user env) m sha1_new (w'\<lparr>the_db := committed w'\<rparr>)) (\<lambda>_ _. True) w2"
    by (rule wp_legacy_store [OF _ base refl])
  then have "push_done w ?p (env_user env) m sha1_new w'"
    using store by (simp add: wp_def w')
  moreover have "\<forall>q \<in> snd ` set (si_packages m). name_allowed env (the_db w) (text_field q ''pkgname'')
          \<and> not_official env (the_db w) (text_field q ''pkgname'')"
    using legacy.check_names_ok(4) [OF names] un(1) by (auto simp: legacy_backend_def untouched_def)
  ultimately show ?thesis
    using range head content by blast
qed

theorem push_stores_metadata_witness:
  "\<exists>w'. legacy_main default_config (demo_options [''MIT'']) demo_repo (demo_env ''bob'') demo_argv demo_site = (Inr (), w')
     \<and> push_done demo_site ''foo'' ''bob'' (demo_srcinfo [''MIT'']) ''h1'' w'"
proof -
  have "fst (legacy_main default_config (demo_options [''MIT'']) demo_repo (demo_env ''bob'') demo_argv demo_site) = Inr ()"
    by code_simp
  then obtain w' where w': "legacy_main default_config (demo_options [''MIT'']) demo_repo (demo_env ''bob'') demo_argv demo_site
      = (Inr (), w')"
    by (metis prod.collapse)
  have range: "pushed_range (demo_env ''bob'') demo_argv demo_site
      = (Inr (''refs/heads/master'', zero_sha, ''h1''), demo_site)"
    by (simp add: pushed_range_def demo_argv_def ret_def)
  have "\<And>t. parse_srcinfo (demo_options [''MIT'']) t = (demo_srcinfo [''MIT''], [])"
    by (simp add: demo_options_def demo_parse_def)
  with push_stores_metadata [OF w' demo_site_ok]
  have "push_done demo_site (env_pkgbase (demo_env ''bob'')) (env_user (demo_env ''bob'')) (demo_srcinfo [''MIT'']) ''h1'' w'"
    unfolding range by auto
  with w' show ?thesis
    by (auto simp: demo_env_def)
qed

section \<open>A push that fails half-way\<close>

text \<open>
  A .SRCINFO that names a license twice breaks the primary key of \<open>PackageLicenses\<close>. By then the hook has removed
  the old package and committed the new row, so the exception leaves the package base with a package that has
  none of its licenses and whose version is not that of the branch, which was not moved.
\<close>

lemma duplicate_license_breaks_push:
  "case demo_push [''MIT'', ''MIT''] ''bob'' demo_site of (result, w) \<Rightarrow>
     result = Inl IntegrityError \<and> map pk_Version (Packages (the_db w)) = [''2-1'']
     \<and> PackageLicenses (the_db w) = [] \<and> references w = []"
  by code_simp

end
