(* ===== verification/Packages_Search.thy ===== *)
theory Packages_Search
  imports Account_Routes
begin

text \<open>
  The searches for packages of \<open>aurweb/packages/search.py\<close>: \<open>PackageSearch\<close> of the web site and \<open>RPCSearch\<close>
  of the RPC interface. A query is the list of the rows its joins and filters have left, so that a package
  that a join multiplies is there several times, as in SQL. Strings are compared exactly; the order of the
  rows is that of the tables until \<open>ORDER BY\<close> changes it.
\<close>

section \<open>Rows and joins\<close>

text \<open>A row of the query: the package with its package base, and what has been joined to it.\<close>

record joined =
  j_package :: packages_row
  j_base :: packagebases_row
  j_vote :: "packagevotes_row option"
  j_notify :: "packagenotifications_row option"
  j_user :: "users_row option"
  j_keyword :: "packagekeywords_row option"
  j_comaint :: "packagecomaintainers_row option"
  j_depend :: "packagedepends_row option"
  j_relation :: "packagerelations_row option"
  j_package_group :: "packagegroups_row option"
  j_group :: "groups_row option"

definition join_rows :: "bool \<Rightarrow> ('r \<Rightarrow> 't \<Rightarrow> bool) \<Rightarrow> ('t \<Rightarrow> 'r \<Rightarrow> 'r) \<Rightarrow> 't list \<Rightarrow> 'r list \<Rightarrow> 'r list" where
  "join_rows isouter on put ts rows = concat (map (\<lambda>r. case filter (on r) ts of
       [] \<Rightarrow> if isouter then [r] else []
     | ms \<Rightarrow> map (\<lambda>t. put t r) ms) rows)"

definition with_bases :: "db \<Rightarrow> packages_row \<Rightarrow> joined list" where
  "with_bases d p = map (\<lambda>b. \<lparr>j_package = p, j_base = b, j_vote = None, j_notify = None, j_user = None,
     j_keyword = None, j_comaint = None, j_depend = None, j_relation = None, j_package_group = None, j_group = None\<rparr>)
     (filter (\<lambda>b. pb_ID b = pk_PackageBaseID p) (PackageBases d))"

text \<open>\<open>GROUP BY\<close> a key keeps one row of each group.\<close>

fun group_by :: "('r \<Rightarrow> 'k) \<Rightarrow> 'r list \<Rightarrow> 'r list" where
  "group_by key [] = []"
| "group_by key (r # rs) = r # group_by key (filter (\<lambda>x. key x \<noteq> key r) rs)"

section \<open>PackageSearch\<close>

record search_state =
  ps_rows :: "joined list"
  ps_user :: "nat option"
  joined_user :: bool
  joined_keywords :: bool
  joined_comaint :: bool

definition where_rows :: "(joined \<Rightarrow> bool) \<Rightarrow> search_state \<Rightarrow> search_state" where
  "where_rows c s = s\<lparr>ps_rows := filter c (ps_rows s)\<rparr>"

text \<open>The user of a search is the one of the request, an anonymous one with ID 0.\<close>

definition package_search :: "db \<Rightarrow> nat option \<Rightarrow> search_state" where
  "package_search d user = (let rows = concat (map (with_bases d) (Packages d)) in
     \<lparr>ps_rows = (case user of None \<Rightarrow> rows | Some uid \<Rightarrow>
        join_rows True (\<lambda>r n. pn_PackageBaseID n = pb_ID (j_base r) \<and> pn_UserID n = uid) (\<lambda>n. j_notify_update (\<lambda>_. Some n)) (PackageNotifications d)
        (join_rows True (\<lambda>r v. pv_PackageBaseID v = pb_ID (j_base r) \<and> pv_UsersID v = uid) (\<lambda>v. j_vote_update (\<lambda>_. Some v)) (PackageVotes d) rows)),
      ps_user = user, joined_user = False, joined_keywords = False, joined_comaint = False\<rparr>)"

definition join_user :: "db \<Rightarrow> search_state \<Rightarrow> search_state" where
  "join_user d s = (if joined_user s then s else
     s\<lparr>ps_rows := join_rows True (\<lambda>r u. pb_MaintainerUID (j_base r) = Some (u_ID u)) (\<lambda>u. j_user_update (\<lambda>_. Some u))
         (Users d) (ps_rows s), joined_user := True\<rparr>)"

definition join_keywords :: "db \<Rightarrow> search_state \<Rightarrow> search_state" where
  "join_keywords d s = (if joined_keywords s then s else
     s\<lparr>ps_rows := join_rows False (\<lambda>r k. kw_PackageBaseID k = pb_ID (j_base r)) (\<lambda>k. j_keyword_update (\<lambda>_. Some k))
         (PackageKeywords d) (ps_rows s), joined_keywords := True\<rparr>)"

definition join_comaint :: "db \<Rightarrow> bool \<Rightarrow> search_state \<Rightarrow> search_state" where
  "join_comaint d isouter s = (if joined_comaint s then s else
     s\<lparr>ps_rows := join_rows isouter (\<lambda>r c. cm_PackageBaseID c = pb_ID (j_base r)) (\<lambda>c. j_comaint_update (\<lambda>_. Some c))
         (PackageComaintainers d) (ps_rows s), joined_comaint := True\<rparr>)"

text \<open>\<open>column.like(f"%{keywords}%")\<close>; a NULL is not like anything.\<close>

definition like_part :: "string \<Rightarrow> string \<Rightarrow> bool" where
  "like_part keywords value = sql_like (''%'' @ keywords @ ''%'') value"

definition null_like :: "string \<Rightarrow> string option \<Rightarrow> bool" where
  "null_like keywords value = (case value of None \<Rightarrow> False | Some v \<Rightarrow> like_part keywords v)"

text \<open>The ID of the user of that name, 0 where there is none.\<close>

definition uid_of :: "db \<Rightarrow> string \<Rightarrow> nat" where
  "uid_of d name = (case List.find (\<lambda>u. u_Username u = name) (Users d) of None \<Rightarrow> 0 | Some u \<Rightarrow> u_ID u)"

definition search_by_namedesc :: "db \<Rightarrow> string \<Rightarrow> search_state \<Rightarrow> search_state" where
  "search_by_namedesc d keywords s = where_rows (\<lambda>r. like_part keywords (pk_Name (j_package r))
     \<or> null_like keywords (pk_Description (j_package r))) (join_user d s)"

definition search_by_name :: "db \<Rightarrow> string \<Rightarrow> search_state \<Rightarrow> search_state" where
  "search_by_name d keywords s = where_rows (\<lambda>r. like_part keywords (pk_Name (j_package r))) (join_user d s)"

definition search_by_exact_name :: "db \<Rightarrow> string \<Rightarrow> search_state \<Rightarrow> search_state" where
  "search_by_exact_name d keywords s = where_rows (\<lambda>r. pk_Name (j_package r) = keywords) (join_user d s)"

definition search_by_pkgbase :: "db \<Rightarrow> string \<Rightarrow> search_state \<Rightarrow> search_state" where
  "search_by_pkgbase d keywords s = where_rows (\<lambda>r. like_part keywords (pb_Name (j_base r))) (join_user d s)"

definition search_by_exact_pkgbase :: "db \<Rightarrow> string \<Rightarrow> search_state \<Rightarrow> search_state" where
  "search_by_exact_pkgbase d keywords s = where_rows (\<lambda>r. pb_Name (j_base r) = keywords) (join_user d s)"

definition keyword_in :: "string list \<Rightarrow> joined \<Rightarrow> bool" where
  "keyword_in ks r = (case j_keyword r of None \<Rightarrow> False | Some k \<Rightarrow> kw_Keyword k \<in> set ks)"

definition search_by_keywords :: "db \<Rightarrow> string list \<Rightarrow> search_state \<Rightarrow> search_state" where
  "search_by_keywords d keywords s = (let s = where_rows (keyword_in (map lower keywords)) (join_keywords d (join_user d s))
     in s\<lparr>ps_rows := group_by (\<lambda>r. pk_Name (j_package r)) (ps_rows s)\<rparr>)"

definition search_by_maintainer :: "db \<Rightarrow> string \<Rightarrow> search_state \<Rightarrow> search_state" where
  "search_by_maintainer d keywords s = where_rows (\<lambda>r.
     if keywords \<noteq> [] then (case j_user r of None \<Rightarrow> False | Some u \<Rightarrow> u_Username u = keywords
       \<and> pb_MaintainerUID (j_base r) = Some (u_ID u))
     else pb_MaintainerUID (j_base r) = None) (join_user d s)"

definition comaint_is :: "nat \<Rightarrow> joined \<Rightarrow> bool" where
  "comaint_is uid r = (case j_comaint r of None \<Rightarrow> False | Some c \<Rightarrow> cm_UsersID c = uid)"

definition search_by_comaintainer :: "db \<Rightarrow> string \<Rightarrow> search_state \<Rightarrow> search_state" where
  "search_by_comaintainer d keywords s =
     where_rows (comaint_is (uid_of d keywords)) (join_comaint d False (join_user d s))"

definition search_by_co_or_maintainer :: "db \<Rightarrow> string \<Rightarrow> search_state \<Rightarrow> search_state" where
  "search_by_co_or_maintainer d keywords s = where_rows (\<lambda>r. comaint_is (uid_of d keywords) r
       \<or> (case j_user r of None \<Rightarrow> False | Some u \<Rightarrow> u_ID u = uid_of d keywords)) (join_comaint d True (join_user d s))"

definition search_by_submitter :: "db \<Rightarrow> string \<Rightarrow> search_state \<Rightarrow> search_state" where
  "search_by_submitter d keywords s =
     where_rows (\<lambda>r. pb_SubmitterUID (j_base r) = Some (uid_of d keywords)) (join_user d s)"

text \<open>
  The callbacks. A string that is searched for as keywords is taken as the set of its characters; the site
  calls \<open>search_by_keywords\<close> with a set of words.
\<close>

definition search_by_cb :: "db \<Rightarrow> (string \<times> (string \<Rightarrow> search_state \<Rightarrow> search_state)) list" where
  "search_by_cb d = [(''nd'', search_by_namedesc d), (''n'', search_by_name d), (''b'', search_by_pkgbase d),
     (''N'', search_by_exact_name d), (''B'', search_by_exact_pkgbase d),
     (''k'', \<lambda>s. search_by_keywords d (map (\<lambda>c. [c]) s)), (''m'', search_by_maintainer d),
     (''c'', search_by_comaintainer d), (''M'', search_by_co_or_maintainer d), (''s'', search_by_submitter d)]"

definition search_by :: "db \<Rightarrow> string \<Rightarrow> string \<Rightarrow> search_state \<Rightarrow> search_state" where
  "search_by d by keywords = (case map_of (search_by_cb d) by of
     Some callback \<Rightarrow> callback keywords | None \<Rightarrow> search_by_namedesc d keywords)"

section \<open>Sorting\<close>

definition in_order :: "string \<Rightarrow> joined list \<Rightarrow> joined list" where
  "in_order order rows = (if order = ''desc'' then rev rows else rows)"

definition package_codes :: "joined \<Rightarrow> nat list" where
  "package_codes r = char_codes (pk_Name (j_package r))"

definition base_codes :: "joined \<Rightarrow> nat list" where
  "base_codes r = char_codes (pb_Name (j_base r))"

text \<open>NULL sorts before every string.\<close>

definition maintainer_codes :: "joined \<Rightarrow> nat list" where
  "maintainer_codes r = (case j_user r of None \<Rightarrow> [] | Some u \<Rightarrow> 1 # char_codes (u_Username u))"

definition sort_by_voted :: "nat \<Rightarrow> joined \<Rightarrow> nat" where
  "sort_by_voted uid r = (case j_vote r of None \<Rightarrow> 0 | Some v \<Rightarrow> if pv_UsersID v = uid then 1 else 0)"

definition sort_by_notify :: "nat \<Rightarrow> joined \<Rightarrow> nat" where
  "sort_by_notify uid r = (case j_notify r of None \<Rightarrow> 0 | Some n \<Rightarrow> if pn_UserID n = uid then 1 else 0)"

definition sort_callback :: "string \<Rightarrow> nat \<Rightarrow> joined list \<Rightarrow> joined list" where
  "sort_callback sort_by uid rows =
     (if sort_by = ''n'' then sort_key package_codes rows
      else if sort_by = ''v'' then sort_key (\<lambda>r. pb_NumVotes (j_base r)) (sort_key base_codes rows)
      else if sort_by = ''w'' then sort_key (sort_by_voted uid) (sort_key package_codes rows)
      else if sort_by = ''o'' then sort_key (sort_by_notify uid) (sort_key package_codes rows)
      else if sort_by = ''m'' then sort_key maintainer_codes (sort_key package_codes rows)
      else if sort_by = ''l'' then sort_key (\<lambda>r. pb_ModifiedTS (j_base r)) (sort_key base_codes rows)
      else sort_key (\<lambda>r. pb_Popularity (j_base r)) (sort_key base_codes rows))"

definition full_sort_order :: "string option \<Rightarrow> string" where
  "full_sort_order so = (if so = Some ''a'' then ''asc'' else ''desc'')"

definition sort_by :: "string option \<Rightarrow> string option \<Rightarrow> nat \<Rightarrow> search_state \<Rightarrow> search_state" where
  "sort_by by so uid s = s\<lparr>ps_rows := in_order (full_sort_order so)
     (sort_callback (case by of None \<Rightarrow> ''p'' | Some b \<Rightarrow> b) uid (ps_rows s))\<rparr>"

section \<open>RPCSearch\<close>

definition DEPENDS_ID :: nat where "DEPENDS_ID = 1"
definition MAKEDEPENDS_ID :: nat where "MAKEDEPENDS_ID = 2"
definition CHECKDEPENDS_ID :: nat where "CHECKDEPENDS_ID = 3"
definition OPTDEPENDS_ID :: nat where "OPTDEPENDS_ID = 4"
definition CONFLICTS_ID :: nat where "CONFLICTS_ID = 1"
definition PROVIDES_ID :: nat where "PROVIDES_ID = 2"
definition REPLACES_ID :: nat where "REPLACES_ID = 3"

definition rpc_search :: "db \<Rightarrow> search_state" where
  "rpc_search d = join_user d (package_search d None)"

definition join_depends :: "db \<Rightarrow> nat \<Rightarrow> search_state \<Rightarrow> search_state" where
  "join_depends d dep_type_id s = where_rows (\<lambda>r. case j_depend r of None \<Rightarrow> False | Some x \<Rightarrow> pd_DepTypeID x = dep_type_id)
     (s\<lparr>ps_rows := join_rows False (\<lambda>r x. pd_PackageID x = pk_ID (j_package r)) (\<lambda>x. j_depend_update (\<lambda>_. Some x))
        (PackageDepends d) (ps_rows s)\<rparr>)"

definition join_relations :: "db \<Rightarrow> nat \<Rightarrow> search_state \<Rightarrow> search_state" where
  "join_relations d rel_type_id s = where_rows (\<lambda>r. case j_relation r of None \<Rightarrow> False | Some x \<Rightarrow> rl_RelTypeID x = rel_type_id)
     (s\<lparr>ps_rows := join_rows False (\<lambda>r x. rl_PackageID x = pk_ID (j_package r)) (\<lambda>x. j_relation_update (\<lambda>_. Some x))
        (PackageRelations d) (ps_rows s)\<rparr>)"

definition join_groups :: "db \<Rightarrow> search_state \<Rightarrow> search_state" where
  "join_groups d s = s\<lparr>ps_rows :=
     join_rows False (\<lambda>r g. map_option pg_GroupID (j_package_group r) = Some (gr_ID g)) (\<lambda>g. j_group_update (\<lambda>_. Some g)) (Groups d)
       (join_rows False (\<lambda>r x. pg_PackageID x = pk_ID (j_package r)) (\<lambda>x. j_package_group_update (\<lambda>_. Some x))
         (PackageGroups d) (ps_rows s))\<rparr>"

definition search_by_dependency :: "db \<Rightarrow> nat \<Rightarrow> string \<Rightarrow> search_state \<Rightarrow> search_state" where
  "search_by_dependency d t keywords s = where_rows (\<lambda>r. case j_depend r of None \<Rightarrow> False | Some x \<Rightarrow> pd_DepName x = keywords)
     (join_depends d t s)"

definition search_by_relation :: "db \<Rightarrow> nat \<Rightarrow> string \<Rightarrow> search_state \<Rightarrow> search_state" where
  "search_by_relation d t keywords s = where_rows (\<lambda>r. case j_relation r of None \<Rightarrow> False | Some x \<Rightarrow> rl_RelName x = keywords)
     (join_relations d t s)"

definition search_by_groups :: "db \<Rightarrow> string \<Rightarrow> search_state \<Rightarrow> search_state" where
  "search_by_groups d keywords s = where_rows (\<lambda>r. case j_group r of None \<Rightarrow> False | Some g \<Rightarrow> gr_Name g = keywords) (join_groups d s)"

definition rpc_search_by_keywords :: "db \<Rightarrow> string \<Rightarrow> search_state \<Rightarrow> search_state" where
  "rpc_search_by_keywords d keywords s = where_rows (keyword_in [keywords]) (join_keywords d s)"

definition rpc_search_by_cb :: "db \<Rightarrow> (string \<times> (string \<Rightarrow> search_state \<Rightarrow> search_state)) list" where
  "rpc_search_by_cb d = [(''nd'', search_by_namedesc d), (''n'', search_by_name d),
     (''k'', rpc_search_by_keywords d), (''m'', search_by_maintainer d),
     (''c'', search_by_comaintainer d), (''s'', search_by_submitter d),
     (''depends'', search_by_dependency d DEPENDS_ID), (''makedepends'', search_by_dependency d MAKEDEPENDS_ID),
     (''optdepends'', search_by_dependency d OPTDEPENDS_ID), (''checkdepends'', search_by_dependency d CHECKDEPENDS_ID),
     (''provides'', search_by_relation d PROVIDES_ID), (''conflicts'', search_by_relation d CONFLICTS_ID),
     (''replaces'', search_by_relation d REPLACES_ID), (''groups'', search_by_groups d)]"

text \<open>Calling a callback that does not exist is a \<open>TypeError\<close>, here None.\<close>

definition rpc_search_by :: "db \<Rightarrow> string \<Rightarrow> string \<Rightarrow> search_state \<Rightarrow> search_state option" where
  "rpc_search_by d by keywords s = map_option (\<lambda>callback. callback keywords s) (map_of (rpc_search_by_cb d) by)"

section \<open>What a search finds\<close>

text \<open>
  The specification: which packages a search is for. Names are looked up in the table of users; a search
  for an unknown user finds nothing.
\<close>

definition base_of :: "db \<Rightarrow> packages_row \<Rightarrow> packagebases_row \<Rightarrow> bool" where
  "base_of d p b \<longleftrightarrow> b \<in> set (PackageBases d) \<and> pb_ID b = pk_PackageBaseID p"

definition user_named_is :: "db \<Rightarrow> string \<Rightarrow> nat \<Rightarrow> bool" where
  "user_named_is d name i \<longleftrightarrow> (\<exists>u \<in> set (Users d). u_Username u = name \<and> u_ID u = i)"

definition depends_on :: "db \<Rightarrow> nat \<Rightarrow> string \<Rightarrow> packages_row \<Rightarrow> bool" where
  "depends_on d t n p \<longleftrightarrow> (\<exists>x \<in> set (PackageDepends d). pd_PackageID x = pk_ID p \<and> pd_DepTypeID x = t \<and> pd_DepName x = n)"

definition relates_to :: "db \<Rightarrow> nat \<Rightarrow> string \<Rightarrow> packages_row \<Rightarrow> bool" where
  "relates_to d t n p \<longleftrightarrow> (\<exists>x \<in> set (PackageRelations d). rl_PackageID x = pk_ID p \<and> rl_RelTypeID x = t \<and> rl_RelName x = n)"

definition maintained_by :: "db \<Rightarrow> string \<Rightarrow> packages_row \<Rightarrow> bool" where
  "maintained_by d name p \<longleftrightarrow> (\<exists>b i. base_of d p b \<and> pb_MaintainerUID b = Some i \<and> user_named_is d name i)"

definition comaintained_by :: "db \<Rightarrow> string \<Rightarrow> packages_row \<Rightarrow> bool" where
  "comaintained_by d name p \<longleftrightarrow> (\<exists>c \<in> set (PackageComaintainers d). cm_PackageBaseID c = pk_PackageBaseID p
     \<and> user_named_is d name (cm_UsersID c))"

definition has_keyword :: "db \<Rightarrow> string list \<Rightarrow> packages_row \<Rightarrow> bool" where
  "has_keyword d ks p \<longleftrightarrow> (\<exists>k \<in> set (PackageKeywords d). kw_PackageBaseID k = pk_PackageBaseID p \<and> kw_Keyword k \<in> set ks)"

definition in_group :: "db \<Rightarrow> string \<Rightarrow> packages_row \<Rightarrow> bool" where
  "in_group d name p \<longleftrightarrow> (\<exists>x \<in> set (PackageGroups d). pg_PackageID x = pk_ID p
     \<and> (\<exists>g \<in> set (Groups d). gr_ID g = pg_GroupID x \<and> gr_Name g = name))"

definition name_or_description :: "string \<Rightarrow> packages_row \<Rightarrow> bool" where
  "name_or_description kw p \<longleftrightarrow> like_part kw (pk_Name p) \<or> (\<exists>t. pk_Description p = Some t \<and> like_part kw t)"

definition submitted_by :: "db \<Rightarrow> string \<Rightarrow> packages_row \<Rightarrow> bool" where
  "submitted_by d name p \<longleftrightarrow> (\<exists>b i. base_of d p b \<and> pb_SubmitterUID b = Some i \<and> user_named_is d name i)"

definition orphaned :: "db \<Rightarrow> packages_row \<Rightarrow> bool" where
  "orphaned d p \<longleftrightarrow> (\<exists>b. base_of d p b \<and> pb_MaintainerUID b = None)"

definition web_spec :: "db \<Rightarrow> (string \<times> (string \<Rightarrow> packages_row \<Rightarrow> bool)) list" where
  "web_spec d = [(''nd'', name_or_description), (''n'', \<lambda>kw p. like_part kw (pk_Name p)),
     (''b'', \<lambda>kw p. \<exists>b. base_of d p b \<and> like_part kw (pb_Name b)), (''N'', \<lambda>kw p. pk_Name p = kw),
     (''B'', \<lambda>kw p. \<exists>b. base_of d p b \<and> pb_Name b = kw),
     (''m'', \<lambda>kw p. if kw = [] then orphaned d p else maintained_by d kw p),
     (''s'', submitted_by d)]"

definition rpc_spec :: "db \<Rightarrow> (string \<times> (string \<Rightarrow> packages_row \<Rightarrow> bool)) list" where
  "rpc_spec d = [(''nd'', name_or_description), (''n'', \<lambda>kw p. like_part kw (pk_Name p)),
     (''k'', \<lambda>kw. has_keyword d [kw]), (''m'', \<lambda>kw p. if kw = [] then orphaned d p else maintained_by d kw p),
     (''c'', comaintained_by d), (''s'', submitted_by d),
     (''depends'', depends_on d DEPENDS_ID), (''makedepends'', depends_on d MAKEDEPENDS_ID),
     (''optdepends'', depends_on d OPTDEPENDS_ID), (''checkdepends'', depends_on d CHECKDEPENDS_ID),
     (''provides'', relates_to d PROVIDES_ID), (''conflicts'', relates_to d CONFLICTS_ID),
     (''replaces'', relates_to d REPLACES_ID), (''groups'', in_group d)]"

text \<open>One row of each group.\<close>

lemma set_group_by: "set (group_by k rs) \<subseteq> set rs"
  by (induction k rs rule: group_by.induct) auto

lemma group_by_keys: "k ` set (group_by k rs) = k ` set rs"
proof (induction k rs rule: group_by.induct)
  case (2 k r rs)
  have "insert (k r) (k ` {x \<in> set rs. k x \<noteq> k r}) = insert (k r) (k ` set rs)"
    by auto
  with 2 show ?case by simp
qed simp

lemma group_by_distinct: "distinct (map k (group_by k rs))"
proof (induction k rs rule: group_by.induct)
  case (2 k r rs)
  have "k r \<notin> k ` set (group_by k (filter (\<lambda>x. k x \<noteq> k r) rs))"
    unfolding group_by_keys by auto
  with 2 show ?case by simp
qed simp

text \<open>Rows: which a join leaves, and how often.\<close>

lemma set_join_rows:
  "r' \<in> set (join_rows isouter on put ts rows) \<longleftrightarrow> (\<exists>r \<in> set rows. (\<exists>t \<in> set ts. on r t \<and> r' = put t r)
     \<or> isouter \<and> (\<forall>t \<in> set ts. \<not> on r t) \<and> r' = r)"
proof -
  have "r' \<in> set (case filter (on r) ts of [] \<Rightarrow> if isouter then [r] else [] | ms \<Rightarrow> map (\<lambda>t. put t r) ms)
      \<longleftrightarrow> (\<exists>t \<in> set ts. on r t \<and> r' = put t r) \<or> isouter \<and> (\<forall>t \<in> set ts. \<not> on r t) \<and> r' = r" for r
  proof (cases "filter (on r) ts")
    case Nil
    then have "\<forall>t \<in> set ts. \<not> on r t"
      by (simp add: filter_empty_conv)
    with Nil show ?thesis by auto
  next
    case (Cons m ms)
    then have "set (m # ms) = {t \<in> set ts. on r t}"
      by (metis set_filter)
    with Cons show ?thesis by auto
  qed
  then show ?thesis
    unfolding join_rows_def by (simp only: set_concat set_map) auto
qed

lemma join_rows_one:
  assumes "\<And>r. r \<in> set rows \<Longrightarrow> length (filter (on r) ts) \<le> 1" and "\<And>t r. f (put t r) = f r"
  shows "map f (join_rows True on put ts rows) = map f rows"
proof -
  have "map f (case filter (on r) ts of [] \<Rightarrow> if True then [r] else [] | ms \<Rightarrow> map (\<lambda>t. put t r) ms) = [f r]" if "r \<in> set rows" for r
    using assms(1) [OF that] by (cases "filter (on r) ts") (auto simp: assms(2))
  then have "map (\<lambda>r. map f (case filter (on r) ts of [] \<Rightarrow> if True then [r] else [] | ms \<Rightarrow> map (\<lambda>t. put t r) ms)) rows
      = map (\<lambda>r. [f r]) rows"
    by (simp only: map_eq_conv) blast
  then show ?thesis
    unfolding join_rows_def map_concat map_map comp_def by (simp only: concat_map_singleton)
qed

lemma one_of_key: "distinct (map key ts) \<Longrightarrow> (\<And>t. t \<in> set ts \<Longrightarrow> on t \<Longrightarrow> key t = k) \<Longrightarrow> length (filter on ts) \<le> 1"
proof (induction ts)
  case (Cons t ts)
  show ?case
  proof (cases "on t")
    case True
    then have "filter on ts = []"
      using Cons.prems by (force simp: filter_empty_conv)
    with True show ?thesis by simp
  qed (use Cons in simp)
qed simp

text \<open>
  A search stands for a predicate on packages when its rows are those packages, once each in the order of
  the table, each with its package base and, when joined, its maintainer.
\<close>

definition row_ok :: "db \<Rightarrow> bool \<Rightarrow> joined \<Rightarrow> bool" where
  "row_ok d ju r \<longleftrightarrow> j_package r \<in> set (Packages d) \<and> base_of d (j_package r) (j_base r)
     \<and> j_user r = (if ju then List.find (\<lambda>u. pb_MaintainerUID (j_base r) = Some (u_ID u)) (Users d) else None)"

definition stands_for :: "db \<Rightarrow> (packages_row \<Rightarrow> bool) \<Rightarrow> search_state \<Rightarrow> bool" where
  "stands_for d P s \<longleftrightarrow> (\<forall>r \<in> set (ps_rows s). row_ok d (joined_user s) r)
     \<and> map j_package (ps_rows s) = filter P (Packages d)"

lemma base_of_unique: "wf_db d \<Longrightarrow> base_of d p b \<Longrightarrow> base_of d p b' \<Longrightarrow> b = b'"
  using base_id_unique by (auto simp: base_of_def)

lemma with_bases_one:
  assumes "wf_db d" and "p \<in> set (Packages d)"
  shows "\<exists>r. with_bases d p = [r] \<and> j_package r = p \<and> base_of d p (j_base r) \<and> j_user r = None"
proof -
  have "distinct (map pb_ID (PackageBases d))" and "pk_PackageBaseID p \<in> pb_ID ` set (PackageBases d)"
    using assms by (auto simp: wf_db_def unique_ok_def refs_ok_def base_ids_def)
  moreover from this(2) obtain b where b: "b \<in> set (PackageBases d)" "pb_ID b = pk_PackageBaseID p"
    by (metis imageE)
  ultimately have "filter (\<lambda>x. pb_ID x = pk_PackageBaseID p) (PackageBases d) = [b]"
    using filter_one [of pb_ID "PackageBases d" b] by simp
  then show ?thesis
    using b by (simp add: with_bases_def base_of_def)
qed

lemma stands_for_all:
  assumes "wf_db d"
  shows "stands_for d (\<lambda>_. True) (package_search d user)"
proof -
  let ?rows = "concat (map (with_bases d) (Packages d))"
  have packages: "map j_package (concat (map (with_bases d) ps)) = ps" if "set ps \<subseteq> set (Packages d)" for ps
    using that
  proof (induction ps)
    case (Cons p ps)
    with with_bases_one [OF assms, of p] show ?case by auto
  qed simp
  have ok: "row_ok d False r" if "r \<in> set ?rows" for r
    using that with_bases_one [OF assms] by (fastforce simp: row_ok_def)
  show ?thesis
  proof (cases user)
    case None
    then show ?thesis
      using ok packages [of "Packages d"] by (simp add: stands_for_def package_search_def)
  next
    case (Some uid)
    let ?v = "join_rows True (\<lambda>r v. pv_PackageBaseID v = pb_ID (j_base r) \<and> pv_UsersID v = uid) (\<lambda>v. j_vote_update (\<lambda>_. Some v)) (PackageVotes d) ?rows"
    let ?n = "join_rows True (\<lambda>r n. pn_PackageBaseID n = pb_ID (j_base r) \<and> pn_UserID n = uid) (\<lambda>n. j_notify_update (\<lambda>_. Some n)) (PackageNotifications d) ?v"
    have "length (filter (\<lambda>v. pv_PackageBaseID v = pb_ID b \<and> pv_UsersID v = uid) (PackageVotes d)) \<le> 1" for b
      by (rule one_of_key [of "\<lambda>v. (pv_UsersID v, pv_PackageBaseID v)"]) (use assms in \<open>auto simp: wf_db_def unique_ok_def\<close>)
    then have "map j_package ?v = map j_package ?rows"
      by (intro join_rows_one) simp_all
    moreover have "length (filter (\<lambda>n. pn_PackageBaseID n = pb_ID b \<and> pn_UserID n = uid) (PackageNotifications d)) \<le> 1" for b
      by (rule one_of_key [of "\<lambda>n. (pn_UserID n, pn_PackageBaseID n)"]) (use assms in \<open>auto simp: wf_db_def unique_ok_def\<close>)
    then have "map j_package ?n = map j_package ?v"
      by (intro join_rows_one) simp_all
    ultimately have "map j_package ?n = Packages d"
      using packages [of "Packages d"] by simp
    moreover have "row_ok d False r" if "r \<in> set ?n" for r
      using that ok by (fastforce simp: set_join_rows row_ok_def)
    ultimately show ?thesis
      using Some by (simp add: stands_for_def package_search_def)
  qed
qed

lemma stands_for_join_user:
  assumes "wf_db d" and "stands_for d P s"
  shows "stands_for d P (join_user d s)" and "joined_user (join_user d s)"
proof -
  let ?on = "\<lambda>r u. pb_MaintainerUID (j_base r) = Some (u_ID u)"
  let ?rows = "join_rows True ?on (\<lambda>u. j_user_update (\<lambda>_. Some u)) (Users d) (ps_rows s)"
  have ids: "distinct (map u_ID (Users d))"
    using assms(1) by (simp add: wf_db_def unique_ok_def)
  show "stands_for d P (join_user d s)"
  proof (cases "joined_user s")
    case False
    have "length (filter (?on r) (Users d)) \<le> 1" for r
      by (rule one_of_key [of u_ID _ _ "the (pb_MaintainerUID (j_base r))"]) (use ids in auto)
    then have "map j_package ?rows = map j_package (ps_rows s)"
      by (intro join_rows_one) simp_all
    moreover have "row_ok d True r'" if "r' \<in> set ?rows" for r'
    proof -
      from that obtain r where r: "r \<in> set (ps_rows s)"
        and "(\<exists>u \<in> set (Users d). ?on r u \<and> r' = r\<lparr>j_user := Some u\<rparr>) \<or> (\<forall>u \<in> set (Users d). \<not> ?on r u) \<and> r' = r"
        unfolding set_join_rows by blast
      then show ?thesis
      proof (elim disjE bexE conjE)
        fix u
        assume u: "u \<in> set (Users d)" "?on r u" "r' = r\<lparr>j_user := Some u\<rparr>"
        have "?on r = (\<lambda>x. u_ID x = u_ID u)"
          using u(2) by auto
        then have "List.find (?on r) (Users d) = List.find (\<lambda>x. u_ID x = u_ID u) (Users d)"
          by (rule arg_cong [where f = "\<lambda>p. List.find p (Users d)"])
        also have "\<dots> = Some u"
          by (rule find_key [OF ids u(1)])
        finally have "List.find (?on r) (Users d) = Some u" .
        with assms(2) r u(3) show ?thesis
          by (auto simp: stands_for_def row_ok_def)
      next
        assume "\<forall>u \<in> set (Users d). \<not> ?on r u" "r' = r"
        then have "List.find (?on r) (Users d) = None"
          by (simp add: find_None_iff)
        with assms(2) r \<open>r' = r\<close> False show ?thesis
          by (auto simp: stands_for_def row_ok_def)
      qed
    qed
    ultimately show ?thesis
      using assms(2) False by (simp add: stands_for_def join_user_def)
  qed (use assms(2) in \<open>simp add: join_user_def\<close>)
  show "joined_user (join_user d s)"
    by (simp add: join_user_def)
qed

lemma stands_for_where:
  assumes "stands_for d P s" and "\<And>r. row_ok d (joined_user s) r \<Longrightarrow> c r = Q (j_package r)"
  shows "stands_for d (\<lambda>p. P p \<and> Q p) (where_rows c s)"
proof -
  have "filter c (ps_rows s) = filter (Q \<circ> j_package) (ps_rows s)"
    by (rule filter_cong) (use assms in \<open>auto simp: stands_for_def\<close>)
  then have "map j_package (filter c (ps_rows s)) = filter Q (map j_package (ps_rows s))"
    by (simp add: filter_map)
  then show ?thesis
    using assms(1) by (auto simp: stands_for_def where_rows_def conj_commute)
qed

lemma uid_of_is:
  assumes "wf_db d" and "0 \<notin> user_ids d" and "i \<in> user_ids d"
  shows "uid_of d name = i \<longleftrightarrow> user_named_is d name i"
proof (cases "List.find (\<lambda>u. u_Username u = name) (Users d)")
  case None
  then have "uid_of d name = 0"
    by (simp add: uid_of_def)
  with None show ?thesis
    using assms(2,3) by (auto simp: user_named_is_def find_None_iff intro: gr0I)
next
  case (Some u)
  with find_SomeD [OF Some] have u: "u \<in> set (Users d)" "u_Username u = name" "uid_of d name = u_ID u"
    by (simp_all add: uid_of_def)
  moreover have "v = u" if "v \<in> set (Users d)" "u_Username v = name" for v
    using assms(1) that u(1,2) by (auto simp: wf_db_def unique_ok_def distinct_map dest: inj_onD)
  ultimately show ?thesis
    unfolding user_named_is_def by metis
qed

lemma row_user:
  assumes "wf_db d" and "row_ok d True r"
  shows "(\<exists>u. j_user r = Some u \<and> Q u) \<longleftrightarrow> (\<exists>u \<in> set (Users d). pb_MaintainerUID (j_base r) = Some (u_ID u) \<and> Q u)"
proof -
  have f: "j_user r = List.find (\<lambda>u. pb_MaintainerUID (j_base r) = Some (u_ID u)) (Users d)"
    using assms(2) by (simp add: row_ok_def)
  have "u = v" if "u \<in> set (Users d)" "v \<in> set (Users d)" "u_ID u = u_ID v" for u v
    using assms(1) that by (auto simp: wf_db_def unique_ok_def distinct_map dest: inj_onD)
  note same = this
  show ?thesis
  proof (cases "j_user r")
    case None
    with f [symmetric] show ?thesis
      by (auto simp: find_None_iff)
  next
    case (Some v)
    then have "v \<in> set (Users d)" "pb_MaintainerUID (j_base r) = Some (u_ID v)"
      using find_SomeD [OF f [symmetric, unfolded Some]] by simp_all
    with Some same show ?thesis by auto
  qed
qed

lemma base_of_row: "wf_db d \<Longrightarrow> row_ok d ju r \<Longrightarrow> (\<exists>b. base_of d (j_package r) b \<and> Q b) \<longleftrightarrow> Q (j_base r)"
  using base_of_unique by (auto simp: row_ok_def)

lemma submitter_known: "wf_db d \<Longrightarrow> base_of d p b \<Longrightarrow> pb_SubmitterUID b = Some i \<Longrightarrow> i \<in> user_ids d"
  by (auto simp: wf_db_def refs_ok_def base_of_def refers_def)

lemma search_by_simps:
  "search_by d ''nd'' = search_by_namedesc d" "search_by d ''n'' = search_by_name d"
  "search_by d ''b'' = search_by_pkgbase d" "search_by d ''N'' = search_by_exact_name d"
  "search_by d ''B'' = search_by_exact_pkgbase d" "search_by d ''m'' = search_by_maintainer d"
  "search_by d ''c'' = search_by_comaintainer d" "search_by d ''M'' = search_by_co_or_maintainer d"
  "search_by d ''s'' = search_by_submitter d"
  by (simp_all add: search_by_def search_by_cb_def fun_eq_iff)

lemma stands_for_search_by:
  assumes wf: "wf_db d" and zero: "0 \<notin> user_ids d" and "stands_for d P s" and "map_of (web_spec d) by = Some Q"
  shows "stands_for d (\<lambda>p. P p \<and> Q kw p) (search_by d by kw s)"
proof -
  have s: "stands_for d P (join_user d s)" "joined_user (join_user d s)"
    using stands_for_join_user [OF assms(1,3)] by simp_all
  have step: "stands_for d (\<lambda>p. P p \<and> Q' p) (where_rows c (join_user d s))"
    if "\<And>r. row_ok d True r \<Longrightarrow> c r = Q' (j_package r)" for c Q'
    by (rule stands_for_where [OF s(1)]) (simp add: s(2) that)
  have maint: "(if kw \<noteq> [] then (case j_user r of None \<Rightarrow> False | Some u \<Rightarrow> u_Username u = kw
       \<and> pb_MaintainerUID (j_base r) = Some (u_ID u)) else pb_MaintainerUID (j_base r) = None)
     = (if kw = [] then orphaned d (j_package r) else maintained_by d kw (j_package r))" if "row_ok d True r" for r
  proof (cases "kw = []")
    case True
    then show ?thesis
      using base_of_row [OF wf that, of "\<lambda>b. pb_MaintainerUID b = None"] by (simp add: orphaned_def)
  next
    case False
    have "(case j_user r of None \<Rightarrow> False | Some u \<Rightarrow> u_Username u = kw \<and> pb_MaintainerUID (j_base r) = Some (u_ID u))
      \<longleftrightarrow> (\<exists>u. j_user r = Some u \<and> u_Username u = kw \<and> pb_MaintainerUID (j_base r) = Some (u_ID u))"
      by (simp split: option.split)
    also have "\<dots> \<longleftrightarrow> (\<exists>i. pb_MaintainerUID (j_base r) = Some i \<and> user_named_is d kw i)"
      by (simp add: row_user [OF wf that]) (auto simp: user_named_is_def)
    also have "\<dots> \<longleftrightarrow> maintained_by d kw (j_package r)"
      using base_of_row [OF wf that, of "\<lambda>b. \<exists>i. pb_MaintainerUID b = Some i \<and> user_named_is d kw i"]
      by (simp add: maintained_by_def)
    finally show ?thesis
      using False by simp
  qed
  have sub: "(pb_SubmitterUID (j_base r) = Some (uid_of d kw)) = submitted_by d kw (j_package r)" if r: "row_ok d True r" for r
  proof -
    have "(pb_SubmitterUID (j_base r) = Some (uid_of d kw)) = (\<exists>i. pb_SubmitterUID (j_base r) = Some i \<and> user_named_is d kw i)"
      using uid_of_is [OF wf zero] submitter_known [OF wf, of "j_package r" "j_base r"] r unfolding row_ok_def by metis
    then show ?thesis
      using base_of_row [OF wf r, of "\<lambda>b. \<exists>i. pb_SubmitterUID b = Some i \<and> user_named_is d kw i"]
      by (simp add: submitted_by_def)
  qed
  have nd: "(like_part kw (pk_Name p) \<or> null_like kw (pk_Description p)) = name_or_description kw p" for p
    by (simp add: name_or_description_def null_like_def split: option.split)
  have searches: "stands_for d (\<lambda>p. P p \<and> name_or_description kw p) (search_by_namedesc d kw s)"
    "stands_for d (\<lambda>p. P p \<and> like_part kw (pk_Name p)) (search_by_name d kw s)"
    "stands_for d (\<lambda>p. P p \<and> (\<exists>b. base_of d p b \<and> like_part kw (pb_Name b))) (search_by_pkgbase d kw s)"
    "stands_for d (\<lambda>p. P p \<and> pk_Name p = kw) (search_by_exact_name d kw s)"
    "stands_for d (\<lambda>p. P p \<and> (\<exists>b. base_of d p b \<and> pb_Name b = kw)) (search_by_exact_pkgbase d kw s)"
    "stands_for d (\<lambda>p. P p \<and> (if kw = [] then orphaned d p else maintained_by d kw p)) (search_by_maintainer d kw s)"
    "stands_for d (\<lambda>p. P p \<and> submitted_by d kw p) (search_by_submitter d kw s)"
    unfolding search_by_namedesc_def search_by_name_def search_by_pkgbase_def search_by_exact_name_def
      search_by_exact_pkgbase_def search_by_maintainer_def search_by_submitter_def
    by (rule step, simp only: nd base_of_row [OF wf] maint sub)+
  have "(by, Q) \<in> set (web_spec d)"
    using assms(4) by (rule map_of_SomeD)
  then show ?thesis
    unfolding web_spec_def list.set insert_iff empty_iff prod.inject
    by (elim disjE conjE) (simp_all only: search_by_simps searches)
qed

text \<open>A search for several words is for the packages that every word fits.\<close>

lemma stands_for_words:
  assumes "wf_db d" and "0 \<notin> user_ids d" and "map_of (web_spec d) by = Some Q" and "stands_for d P s"
  shows "stands_for d (\<lambda>p. P p \<and> (\<forall>kw \<in> set words. Q kw p)) (fold (search_by d by) words s)"
  using assms(4)
proof (induction words arbitrary: P s)
  case (Cons kw words)
  from Cons.IH [OF stands_for_search_by [OF assms(1,2) Cons.prems assms(3), of kw]] show ?case
    by (simp add: conj_assoc)
qed simp

lemma demo_zero: "0 \<notin> user_ids demo_db"
  by code_simp

text \<open>
  The search for packages somebody maintains or co-maintains joins the co-maintainers, so a package of
  the maintainer is listed and counted once for each of its co-maintainers.
\<close>

lemma co_or_maintainer_repeats:
  "map (pk_Name \<circ> j_package) (ps_rows (search_by demo_db ''M'' ''bob'' (package_search demo_db (Some 2)))) = [''foo'', ''foo'']"
  by code_simp

section \<open>What a search of the RPC interface finds\<close>

definition finds :: "db \<Rightarrow> (packages_row \<Rightarrow> bool) \<Rightarrow> search_state \<Rightarrow> bool" where
  "finds d P s \<longleftrightarrow> (\<forall>r \<in> set (ps_rows s). row_ok d True r) \<and> j_package ` set (ps_rows s) = {p \<in> set (Packages d). P p}"

lemma stands_for_finds:
  assumes "stands_for d P s" and "joined_user s"
  shows "finds d P s"
proof -
  have "set (map j_package (ps_rows s)) = set (filter P (Packages d))"
    using assms(1) by (simp only: stands_for_def)
  then show ?thesis
    using assms by (simp add: stands_for_def finds_def)
qed

lemma finds_joined:
  assumes "finds d P s"
    and rows: "\<And>r'. r' \<in> set (ps_rows s') \<longleftrightarrow> (\<exists>r \<in> set (ps_rows s). \<exists>t. T r t \<and> r' = put t r)"
    and put: "\<And>t r. j_package (put t r) = j_package r \<and> j_base (put t r) = j_base r \<and> j_user (put t r) = j_user r"
    and Q: "\<And>r. row_ok d True r \<Longrightarrow> (\<exists>t. T r t) = Q (j_package r)"
  shows "finds d (\<lambda>p. P p \<and> Q p) s'"
proof -
  have ok: "row_ok d True (put t r) = row_ok d True r" for t r
    by (simp add: row_ok_def put)
  have old: "\<forall>r \<in> set (ps_rows s). row_ok d True r" and ps: "j_package ` set (ps_rows s) = {p \<in> set (Packages d). P p}"
    using assms(1) by (simp_all add: finds_def)
  have "p \<in> j_package ` set (ps_rows s') \<longleftrightarrow> p \<in> {p \<in> set (Packages d). P p \<and> Q p}" for p
  proof -
    have "p \<in> j_package ` set (ps_rows s') \<longleftrightarrow> (\<exists>r \<in> set (ps_rows s). j_package r = p \<and> (\<exists>t. T r t))"
      unfolding image_iff Bex_def rows using put by metis
    also have "\<dots> \<longleftrightarrow> p \<in> j_package ` set (ps_rows s) \<and> Q p"
      using Q old by auto
    finally show ?thesis
      using ps by auto
  qed
  moreover have "\<forall>r \<in> set (ps_rows s'). row_ok d True r"
    using old by (auto simp: rows ok)
  ultimately show ?thesis
    by (auto simp: finds_def)
qed

lemma rpc_search_stands: "wf_db d \<Longrightarrow> stands_for d (\<lambda>_. True) (rpc_search d) \<and> joined_user (rpc_search d)"
  unfolding rpc_search_def using stands_for_join_user [OF _ stands_for_all] by blast

lemma same_join_user: "joined_user s \<Longrightarrow> join_user d s = s"
  by (simp add: join_user_def)

lemma rpc_search_flags: "joined_keywords (rpc_search d) = False" "joined_comaint (rpc_search d) = False"
  by (simp_all add: rpc_search_def join_user_def package_search_def Let_def)

lemma finds_joins:
  assumes "finds d (\<lambda>_. True) s"
  shows "finds d (depends_on d t kw) (search_by_dependency d t kw s)"
    and "finds d (relates_to d t kw) (search_by_relation d t kw s)"
    and "finds d (in_group d kw) (search_by_groups d kw s)"
    and "joined_keywords s = False \<Longrightarrow> finds d (has_keyword d [kw]) (rpc_search_by_keywords d kw s)"
    and "wf_db d \<Longrightarrow> 0 \<notin> user_ids d \<Longrightarrow> joined_user s \<Longrightarrow> joined_comaint s = False
      \<Longrightarrow> finds d (comaintained_by d kw) (search_by_comaintainer d kw s)"
proof -
  note join = finds_joined [OF assms, simplified simp_thms]
  show "finds d (depends_on d t kw) (search_by_dependency d t kw s)"
  proof (rule join [of _ "\<lambda>r x. x \<in> set (PackageDepends d) \<and> pd_PackageID x = pk_ID (j_package r) \<and> pd_DepTypeID x = t \<and> pd_DepName x = kw"
        "\<lambda>x. j_depend_update (\<lambda>_. Some x)"])
    show "r' \<in> set (ps_rows (search_by_dependency d t kw s)) \<longleftrightarrow> (\<exists>r \<in> set (ps_rows s). \<exists>x. (x \<in> set (PackageDepends d)
        \<and> pd_PackageID x = pk_ID (j_package r) \<and> pd_DepTypeID x = t \<and> pd_DepName x = kw) \<and> r' = r\<lparr>j_depend := Some x\<rparr>)" for r'
      by (auto simp: search_by_dependency_def join_depends_def where_rows_def set_join_rows; blast)
  qed (auto simp: depends_on_def)
  show "finds d (relates_to d t kw) (search_by_relation d t kw s)"
  proof (rule join [of _ "\<lambda>r x. x \<in> set (PackageRelations d) \<and> rl_PackageID x = pk_ID (j_package r) \<and> rl_RelTypeID x = t \<and> rl_RelName x = kw"
        "\<lambda>x. j_relation_update (\<lambda>_. Some x)"])
    show "r' \<in> set (ps_rows (search_by_relation d t kw s)) \<longleftrightarrow> (\<exists>r \<in> set (ps_rows s). \<exists>x. (x \<in> set (PackageRelations d)
        \<and> rl_PackageID x = pk_ID (j_package r) \<and> rl_RelTypeID x = t \<and> rl_RelName x = kw) \<and> r' = r\<lparr>j_relation := Some x\<rparr>)" for r'
      by (auto simp: search_by_relation_def join_relations_def where_rows_def set_join_rows; blast)
  qed (auto simp: relates_to_def)
  show "finds d (in_group d kw) (search_by_groups d kw s)"
  proof (rule join [of _ "\<lambda>r (x, g). x \<in> set (PackageGroups d) \<and> pg_PackageID x = pk_ID (j_package r) \<and> g \<in> set (Groups d)
        \<and> gr_ID g = pg_GroupID x \<and> gr_Name g = kw" "\<lambda>(x, g) r. r\<lparr>j_package_group := Some x, j_group := Some g\<rparr>"])
    show "r' \<in> set (ps_rows (search_by_groups d kw s)) \<longleftrightarrow> (\<exists>r \<in> set (ps_rows s). \<exists>y. (case y of (x, g) \<Rightarrow> x \<in> set (PackageGroups d)
        \<and> pg_PackageID x = pk_ID (j_package r) \<and> g \<in> set (Groups d) \<and> gr_ID g = pg_GroupID x \<and> gr_Name g = kw)
        \<and> r' = (case y of (x, g) \<Rightarrow> \<lambda>r. r\<lparr>j_package_group := Some x, j_group := Some g\<rparr>) r)" for r'
    proof -
      have "r' \<in> set (ps_rows (search_by_groups d kw s)) \<longleftrightarrow> (\<exists>r \<in> set (ps_rows s). \<exists>x g. x \<in> set (PackageGroups d)
        \<and> pg_PackageID x = pk_ID (j_package r) \<and> g \<in> set (Groups d) \<and> gr_ID g = pg_GroupID x \<and> gr_Name g = kw
        \<and> r' = r\<lparr>j_package_group := Some x, j_group := Some g\<rparr>)"
        (is "?found \<longleftrightarrow> ?spec")
      proof
        assume ?found
        then obtain r1 g where r1: "r1 \<in> set (join_rows False (\<lambda>r x. pg_PackageID x = pk_ID (j_package r))
            (\<lambda>x. j_package_group_update (\<lambda>_. Some x)) (PackageGroups d) (ps_rows s))"
          and g: "g \<in> set (Groups d)" "map_option pg_GroupID (j_package_group r1) = Some (gr_ID g)"
            "r' = r1\<lparr>j_group := Some g\<rparr>" "gr_Name g = kw"
          unfolding search_by_groups_def join_groups_def where_rows_def by (auto simp: set_join_rows [of _ _ _ _ "Groups d"])
        from r1 obtain r x where x: "r \<in> set (ps_rows s)" "x \<in> set (PackageGroups d)" "pg_PackageID x = pk_ID (j_package r)"
          "r1 = r\<lparr>j_package_group := Some x\<rparr>"
          by (auto simp: set_join_rows)
        show ?spec
          by (intro bexI [OF _ x(1)] exI [of _ x] exI [of _ g]) (use x g in simp)
      next
        assume ?spec
        then obtain r x g where x: "r \<in> set (ps_rows s)" "x \<in> set (PackageGroups d)" "pg_PackageID x = pk_ID (j_package r)"
          and g: "g \<in> set (Groups d)" "gr_ID g = pg_GroupID x" "gr_Name g = kw" "r' = r\<lparr>j_package_group := Some x, j_group := Some g\<rparr>"
          by blast
        have "r\<lparr>j_package_group := Some x\<rparr> \<in> set (join_rows False (\<lambda>r x. pg_PackageID x = pk_ID (j_package r))
            (\<lambda>x. j_package_group_update (\<lambda>_. Some x)) (PackageGroups d) (ps_rows s))"
          using x by (auto simp: set_join_rows)
        with g show ?found
          unfolding search_by_groups_def join_groups_def where_rows_def by (force simp: set_join_rows [of _ _ _ _ "Groups d"])
      qed
      then show ?thesis
        by (simp add: split_paired_Ex conj_assoc)
    qed
  qed (auto simp: in_group_def split: prod.split)
  show "finds d (has_keyword d [kw]) (rpc_search_by_keywords d kw s)" if "joined_keywords s = False"
  proof (rule join [of _ "\<lambda>r k. k \<in> set (PackageKeywords d) \<and> kw_PackageBaseID k = pb_ID (j_base r) \<and> kw_Keyword k = kw"
        "\<lambda>k. j_keyword_update (\<lambda>_. Some k)"])
    show "r' \<in> set (ps_rows (rpc_search_by_keywords d kw s)) \<longleftrightarrow> (\<exists>r \<in> set (ps_rows s). \<exists>k. (k \<in> set (PackageKeywords d)
        \<and> kw_PackageBaseID k = pb_ID (j_base r) \<and> kw_Keyword k = kw) \<and> r' = r\<lparr>j_keyword := Some k\<rparr>)" for r'
      using that by (auto simp: rpc_search_by_keywords_def join_keywords_def where_rows_def set_join_rows keyword_in_def; blast)
  qed (auto simp: has_keyword_def row_ok_def base_of_def)
  show "finds d (comaintained_by d kw) (search_by_comaintainer d kw s)"
    if wf: "wf_db d" and zero: "0 \<notin> user_ids d" and user: "joined_user s" and com: "joined_comaint s = False"
  proof (rule join [of _ "\<lambda>r c. c \<in> set (PackageComaintainers d) \<and> cm_PackageBaseID c = pb_ID (j_base r) \<and> cm_UsersID c = uid_of d kw"
        "\<lambda>c. j_comaint_update (\<lambda>_. Some c)"])
    show "r' \<in> set (ps_rows (search_by_comaintainer d kw s)) \<longleftrightarrow> (\<exists>r \<in> set (ps_rows s). \<exists>c. (c \<in> set (PackageComaintainers d)
        \<and> cm_PackageBaseID c = pb_ID (j_base r) \<and> cm_UsersID c = uid_of d kw) \<and> r' = r\<lparr>j_comaint := Some c\<rparr>)" for r'
      using com by (auto simp: search_by_comaintainer_def same_join_user [OF user] join_comaint_def where_rows_def set_join_rows comaint_is_def; blast)
    have "cm_UsersID c \<in> user_ids d" if "c \<in> set (PackageComaintainers d)" for c
      using wf that by (auto simp: wf_db_def refs_ok_def)
    then have "cm_UsersID c = uid_of d kw \<longleftrightarrow> user_named_is d kw (cm_UsersID c)" if "c \<in> set (PackageComaintainers d)" for c
      using uid_of_is [OF wf zero, of "cm_UsersID c" kw] that by auto
    then show "(\<exists>c. c \<in> set (PackageComaintainers d) \<and> cm_PackageBaseID c = pb_ID (j_base r) \<and> cm_UsersID c = uid_of d kw)
        = comaintained_by d kw (j_package r)" if "row_ok d True r" for r
      using that by (auto simp: comaintained_by_def row_ok_def base_of_def)
  qed simp
qed

lemma finds_rpc_search:
  assumes wf: "wf_db d" and zero: "0 \<notin> user_ids d" and spec: "map_of (rpc_spec d) by = Some Q"
    and run: "rpc_search_by d by kw (rpc_search d) = Some s"
  shows "finds d (Q kw) s"
proof -
  let ?s = "rpc_search d"
  have stands: "stands_for d (\<lambda>_. True) ?s" and user: "joined_user ?s"
    using rpc_search_stands [OF wf] by simp_all
  have all: "finds d (\<lambda>_. True) ?s"
    by (rule stands_for_finds [OF stands user])
  have simple: "finds d (Q' kw) (search_by d b kw ?s)" if "map_of (web_spec d) b = Some Q'" "joined_user (search_by d b kw ?s)" for b Q'
    using stands_for_finds [OF stands_for_search_by [OF wf zero stands that(1)] that(2)] by simp
  have ju: "joined_user (where_rows c s) = joined_user s" for c s
    by (simp add: where_rows_def)
  have specs: "map_of (web_spec d) ''nd'' = Some name_or_description"
    "map_of (web_spec d) ''n'' = Some (\<lambda>kw p. like_part kw (pk_Name p))"
    "map_of (web_spec d) ''m'' = Some (\<lambda>kw p. if kw = [] then orphaned d p else maintained_by d kw p)"
    "map_of (web_spec d) ''s'' = Some (submitted_by d)"
    by (simp_all add: web_spec_def)
  have users: "joined_user (search_by_namedesc d kw ?s)" "joined_user (search_by_name d kw ?s)"
    "joined_user (search_by_maintainer d kw ?s)" "joined_user (search_by_submitter d kw ?s)"
    unfolding search_by_namedesc_def search_by_name_def search_by_maintainer_def search_by_submitter_def ju same_join_user [OF user]
    by (rule user)+
  note plain = simple [OF specs(1), unfolded search_by_simps, OF users(1)] simple [OF specs(2), unfolded search_by_simps, OF users(2)]
    simple [OF specs(3), unfolded search_by_simps, OF users(3)] simple [OF specs(4), unfolded search_by_simps, OF users(4)]
  have "(by, Q) \<in> set (rpc_spec d)"
    using spec by (rule map_of_SomeD)
  moreover have "s = the (map_of (rpc_search_by_cb d) by) kw ?s"
    using run by (auto simp: rpc_search_by_def)
  ultimately show ?thesis
    unfolding rpc_spec_def list.set insert_iff empty_iff prod.inject
    by (elim disjE conjE) (simp_all add: rpc_search_by_cb_def plain finds_joins(1-3) [OF all]
        finds_joins(4) [OF all rpc_search_flags(1)] finds_joins(5) [OF all wf zero user rpc_search_flags(2)])
qed

end
