(* ===== verification/Rate_Limit.thy ===== *)
theory Rate_Limit
  imports Web
begin

text \<open>
  The rate limit of the RPC interface (\<open>aurweb/ratelimit.py\<close>), with the counters in Redis or in the table
  \<open>ApiRateLimit\<close>. Both implement one specification, a window of fixed length for each client; the interface
  \<open>fixed_window\<close> states what they share.
\<close>

section \<open>Redis\<close>

text \<open>A key with a time until which it is kept is gone afterwards. \<open>SET\<close> removes that time, \<open>INCR\<close> keeps it.\<close>

definition redis_value :: "string \<Rightarrow> world \<Rightarrow> int option" where
  "redis_value key w = (case redis w key of None \<Rightarrow> None
     | Some (v, keep) \<Rightarrow> (case keep of None \<Rightarrow> Some v | Some t \<Rightarrow> if t < now w then None else Some v))"

definition redis_get :: "string \<Rightarrow> int option aur" where
  "redis_get key = gets (redis_value key)"

definition redis_set :: "string \<Rightarrow> int \<Rightarrow> unit aur" where
  "redis_set key v = modify (\<lambda>w. w\<lparr>redis := (redis w)(key \<mapsto> (v, None))\<rparr>)"

definition redis_expire :: "string \<Rightarrow> int \<Rightarrow> unit aur" where
  "redis_expire key seconds = modify (\<lambda>w. case redis_value key w of None \<Rightarrow> w
     | Some v \<Rightarrow> w\<lparr>redis := (redis w)(key := if seconds \<le> 0 then None else Some (v, Some (now w + seconds)))\<rparr>)"

definition redis_incr :: "string \<Rightarrow> unit aur" where
  "redis_incr key = modify (\<lambda>w. w\<lparr>redis := (redis w)(key \<mapsto> (case redis_value key w of
     None \<Rightarrow> (1, None) | Some v \<Rightarrow> (v + 1, snd (the (redis w key)))))\<rparr>)"

section \<open>The two paths\<close>

definition window_key :: "string \<Rightarrow> string" where
  "window_key host = ''ratelimit-ws:'' @ host"

definition requests_key :: "string \<Rightarrow> string" where
  "requests_key host = ''ratelimit:'' @ host"

definition update_ratelimit_redis :: "config \<Rightarrow> string \<Rightarrow> int option aur" where
  "update_ratelimit_redis cfg host =
     andthen utcnow (\<lambda>ts. let time_to_delete = ts - window_length (limits cfg) in
     andthen (redis_get (window_key host)) (\<lambda>window.
     seqp (if window = None \<or> the window < time_to_delete
       then seqp (redis_set (window_key host) ts) (seqp (redis_expire (window_key host) (window_length (limits cfg)))
         (seqp (redis_set (requests_key host) 1) (redis_expire (requests_key host) (window_length (limits cfg)))))
       else redis_incr (requests_key host))
     (ret None)))"

definition create_or_count :: "string \<Rightarrow> int \<Rightarrow> apiratelimit_row list \<Rightarrow> apiratelimit_row list" where
  "create_or_count host ts rows = (if \<exists>r \<in> set rows. al_IP r = host
     then update_where (\<lambda>r. al_IP r = host) (\<lambda>r. r\<lparr>al_Requests := al_Requests r + 1\<rparr>) rows
     else rows @ [\<lparr>al_IP = host, al_Requests = 1, al_WindowStart = ts\<rparr>])"

definition requests_of :: "string \<Rightarrow> db \<Rightarrow> int option" where
  "requests_of host d = map_option al_Requests (List.find (\<lambda>r. al_IP r = host) (ApiRateLimit d))"

definition update_ratelimit_db :: "config \<Rightarrow> string \<Rightarrow> int option aur" where
  "update_ratelimit_db cfg host =
     andthen utcnow (\<lambda>ts. let time_to_delete = ts - window_length (limits cfg) in
     seqp (retry_deadlock (transaction (execute (\<lambda>d. d\<lparr>ApiRateLimit :=
       delete_where (\<lambda>r. al_WindowStart r < time_to_delete) (ApiRateLimit d)\<rparr>))))
     (seqp (retry_deadlock (transaction (execute (\<lambda>d. d\<lparr>ApiRateLimit := create_or_count host ts (ApiRateLimit d)\<rparr>))))
     (query (requests_of host))))"

definition update_ratelimit :: "config \<Rightarrow> bool \<Rightarrow> string \<Rightarrow> int option aur" where
  "update_ratelimit cfg cache host = (if cache then update_ratelimit_redis cfg host else update_ratelimit_db cfg host)"

text \<open>\<open>record.Requests\<close> fails where the path through Redis has returned no record.\<close>

definition check_ratelimit :: "config \<Rightarrow> bool \<Rightarrow> string \<Rightarrow> bool aur" where
  "check_ratelimit cfg cache host =
     andthen (update_ratelimit cfg cache host) (\<lambda>record.
     andthen (redis_get (requests_key host)) (\<lambda>requests.
     andthen (if \<not> cache \<or> requests = None then the_or Py_AttributeError record else ret (the requests)) (\<lambda>requests.
     ret (request_limit (limits cfg) < requests))))"

section \<open>The specification\<close>

text \<open>
  A window of a client starts with the first request after the last window's end and lasts \<open>length\<close>
  seconds; the request that is more than \<open>limit\<close> requests into a window is refused.
\<close>

type_synonym windows = "string \<Rightarrow> (int \<times> int) option"

definition open_windows :: "int \<Rightarrow> int \<Rightarrow> windows \<Rightarrow> windows" where
  "open_windows len t s = (\<lambda>h. case s h of None \<Rightarrow> None | Some (start, n) \<Rightarrow> if start + len < t then None else Some (start, n))"

definition count_request :: "int \<Rightarrow> string \<Rightarrow> windows \<Rightarrow> windows" where
  "count_request t h s = s(h \<mapsto> (case s h of None \<Rightarrow> (t, 1) | Some (start, n) \<Rightarrow> (start, n + 1)))"

text \<open>The answers to requests at given times from given clients: whether each is refused.\<close>

primrec refusals :: "int \<Rightarrow> int \<Rightarrow> (int \<times> string) list \<Rightarrow> windows \<Rightarrow> bool list" where
  "refusals len limit [] s = []"
| "refusals len limit (e # es) s = (let s' = count_request (fst e) (snd e) (open_windows len (fst e) s)
     in (limit < snd (the (s' (snd e)))) # refusals len limit es s')"

text \<open>How many requests of a client between two times are let through.\<close>

definition let_through :: "string \<Rightarrow> int \<Rightarrow> int \<Rightarrow> (int \<times> string) list \<Rightarrow> bool list \<Rightarrow> nat" where
  "let_through h t0 t1 es rs = length (filter (\<lambda>(e, r). \<not> r \<and> snd e = h \<and> t0 \<le> fst e \<and> fst e \<le> t1) (zip es rs))"

lemma let_through_Cons:
  "let_through h t0 t1 (e # es) (r # rs) = (if \<not> r \<and> snd e = h \<and> t0 \<le> fst e \<and> fst e \<le> t1 then 1 else 0) + let_through h t0 t1 es rs"
  by (simp add: let_through_def)

lemma refusals_length [simp]: "length (refusals len limit es s) = length es"
  by (induction es arbitrary: s) (simp_all add: Let_def)

lemma let_through_none: "\<forall>e \<in> set es. t1 < fst e \<Longrightarrow> let_through h t0 t1 es rs = 0"
  by (fastforce simp: let_through_def filter_empty_conv dest: set_zip_leftD)

definition after_request :: "int \<Rightarrow> int \<times> string \<Rightarrow> windows \<Rightarrow> windows" where
  "after_request len e s = count_request (fst e) (snd e) (open_windows len (fst e) s)"

lemma refusals_Cons: "refusals len limit (e # es) s =
    (limit < snd (the (after_request len e s (snd e)))) # refusals len limit es (after_request len e s)"
  by (simp add: after_request_def Let_def)

lemma after_request_at:
  "after_request len e s h = (if snd e = h
     then (case s h of Some (a, n) \<Rightarrow> if a + len < fst e then Some (fst e, 1) else Some (a, n + 1) | None \<Rightarrow> Some (fst e, 1))
     else (case s h of Some (a, n) \<Rightarrow> if a + len < fst e then None else Some (a, n) | None \<Rightarrow> None))"
  by (simp add: after_request_def count_request_def open_windows_def split: option.split prod.split)

text \<open>Within one window, within a stretch of its length, and in between.\<close>

lemma let_through_in_window:
  assumes "sorted (map fst es)" and "s h = Some (a, n)" and "t0 \<le> a"
  shows "let_through h t0 (t0 + len) es (refusals len limit es s) \<le> nat (limit - n)"
  using assms
proof (induction es arbitrary: s n)
  case (Cons e es)
  show ?case
  proof (cases "a + len < fst e")
    case True
    with Cons.prems have "\<forall>x \<in> set (e # es). t0 + len < fst x"
      by (auto simp: order_less_le_trans)
    from let_through_none [OF this] show ?thesis by (simp only:)
  next
    case False
    then have next': "after_request len e s h = Some (a, if snd e = h then n + 1 else n)"
      using Cons.prems by (simp add: after_request_at)
    have "let_through h t0 (t0 + len) es (refusals len limit es (after_request len e s)) \<le> nat (limit - (if snd e = h then n + 1 else n))"
      by (rule Cons.IH) (use Cons.prems next' in simp_all)
    with next' show ?thesis
      unfolding refusals_Cons let_through_Cons by (auto split: if_splits)
  qed
qed (simp add: let_through_def)

lemma let_through_from:
  assumes "sorted (map fst es)" and "\<forall>e \<in> set es. t0 \<le> fst e"
  shows "let_through h t0 (t0 + len) es (refusals len limit es s)
    \<le> (case s h of None \<Rightarrow> nat limit | Some (a, n) \<Rightarrow> nat (limit - n) + nat limit)"
  using assms
proof (induction es arbitrary: s)
  case (Cons e es)
  let ?s = "after_request len e s"
  have IH: "let_through h t0 (t0 + len) es (refusals len limit es ?s) \<le> (case ?s h of None \<Rightarrow> nat limit | Some (a, n) \<Rightarrow> nat (limit - n) + nat limit)"
    by (rule Cons.IH) (use Cons.prems in simp_all)
  have fresh: "let_through h t0 (t0 + len) es (refusals len limit es ?s) \<le> nat (limit - 1)" if "?s h = Some (fst e, 1)"
    by (rule let_through_in_window [where a = "fst e"]) (use Cons.prems that in auto)
  show ?case
    using IH fresh unfolding refusals_Cons let_through_Cons
    by (auto simp: after_request_at split: option.splits if_splits)
qed (simp add: let_through_def split: option.split)

lemma let_through_at_most:
  assumes "sorted (map fst es)" and "\<And>a n. s h = Some (a, n) \<Longrightarrow> 0 \<le> n"
  shows "let_through h t0 (t0 + len) es (refusals len limit es s) \<le> 2 * nat limit"
  using assms
proof (induction es arbitrary: s)
  case (Cons e es)
  show ?case
  proof (cases "t0 \<le> fst e")
    case True
    with Cons.prems have "\<forall>x \<in> set (e # es). t0 \<le> fst x"
      by auto
    from let_through_from [OF Cons.prems(1) this, of h len limit s] Cons.prems(2) show ?thesis
      by (auto split: option.splits)
  next
    case False
    have "let_through h t0 (t0 + len) es (refusals len limit es (after_request len e s)) \<le> 2 * nat limit"
      by (rule Cons.IH) (use Cons.prems in \<open>auto simp: after_request_at split: option.splits if_splits prod.splits\<close>)
    with False show ?thesis
      unfolding refusals_Cons let_through_Cons by simp
  qed
qed (simp add: let_through_def)

section \<open>The interface\<close>

primrec answers :: "('t \<Rightarrow> 'w \<Rightarrow> 'w) \<Rightarrow> ('h \<Rightarrow> 'w \<Rightarrow> 'r \<times> 'w) \<Rightarrow> ('t \<times> 'h) list \<Rightarrow> 'w \<Rightarrow> 'r list" where
  "answers tick check [] w = []"
| "answers tick check (e # es) w = (let w' = tick (fst e) w in
     fst (check (snd e) w') # answers tick check es (snd (check (snd e) w')))"

locale fixed_window =
  fixes len limit :: int
    and ok :: "'w \<Rightarrow> bool"
    and clock :: "'w \<Rightarrow> int"
    and windows :: "'w \<Rightarrow> windows"
    and tick :: "int \<Rightarrow> 'w \<Rightarrow> 'w"
    and check :: "string \<Rightarrow> 'w \<Rightarrow> ('e + bool) \<times> 'w"
  assumes ticks: "ok w \<Longrightarrow> clock w \<le> t \<Longrightarrow> ok (tick t w) \<and> clock (tick t w) = t
       \<and> windows (tick t w) = open_windows len t (windows w)"
    and checks: "ok w \<Longrightarrow> \<exists>w'. check h w = (Inr (limit < snd (the (count_request (clock w) h (windows w) h))), w')
       \<and> ok w' \<and> clock w' = clock w \<and> windows w' = count_request (clock w) h (windows w)"
    and counts: "ok w \<Longrightarrow> windows w h = Some (a, n) \<Longrightarrow> 0 \<le> n"
begin

lemma answers_refusals:
  "ok w \<Longrightarrow> sorted (clock w # map fst es) \<Longrightarrow> answers tick check es w = map Inr (refusals len limit es (windows w))"
proof (induction es arbitrary: w)
  case (Cons e es)
  let ?w = "tick (fst e) w"
  have t: "ok ?w" "clock ?w = fst e" "windows ?w = open_windows len (fst e) (windows w)"
    using ticks [of w "fst e"] Cons.prems by simp_all
  obtain w' where w': "check (snd e) ?w = (Inr (limit < snd (the (after_request len e (windows w) (snd e)))), w')"
    "ok w'" "clock w' = fst e" "windows w' = after_request len e (windows w)"
    using checks [OF t(1), of "snd e"] by (auto simp: t after_request_def)
  have "answers tick check es w' = map Inr (refusals len limit es (windows w'))"
    by (rule Cons.IH) (use w' Cons.prems in simp_all)
  then show ?case
    using w' by (simp add: refusals_Cons Let_def del: refusals.simps)
qed simp

lemma let_through:
  assumes "ok w" and "sorted (clock w # map fst es)"
  shows "\<exists>rs. answers tick check es w = map Inr rs \<and> let_through h t0 (t0 + len) es rs \<le> 2 * nat limit"
  using answers_refusals [OF assms] let_through_at_most [of es "windows w" h t0 len limit] assms counts
  by (intro exI [of _ "refusals len limit es (windows w)"]) auto

end

section \<open>The counters in Redis\<close>

definition tick :: "int \<Rightarrow> world \<Rightarrow> world" where
  "tick t w = w\<lparr>now := t\<rparr>"

definition redis_windows :: "world \<Rightarrow> windows" where
  "redis_windows w h = (case redis_value (window_key h) w of None \<Rightarrow> None
     | Some s \<Rightarrow> Some (s, the (redis_value (requests_key h) w)))"

definition redis_ok :: "config \<Rightarrow> world \<Rightarrow> bool" where
  "redis_ok cfg w \<longleftrightarrow> 0 < window_length (limits cfg)
     \<and> (\<forall>h s keep. redis w (window_key h) = Some (s, keep) \<longrightarrow> keep = Some (s + window_length (limits cfg))
          \<and> (\<exists>n \<ge> 0. redis w (requests_key h) = Some (n, Some (s + window_length (limits cfg)))))"

lemma keys_differ [simp]:
  "window_key h = window_key h' \<longleftrightarrow> h = h'" "requests_key h = requests_key h' \<longleftrightarrow> h = h'"
  "window_key h \<noteq> requests_key h'" "requests_key h' \<noteq> window_key h"
  by (simp_all add: window_key_def requests_key_def)

lemma redis_value_other:
  "key \<noteq> key' \<Longrightarrow> redis_value key (w\<lparr>redis := (redis w)(key' := x)\<rparr>) = redis_value key w"
  by (simp add: redis_value_def split: option.split prod.split)

lemma redis_value_set:
  "redis_value key (w\<lparr>redis := (redis w)(key \<mapsto> (v, Some t))\<rparr>) = (if t < now w then None else Some v)"
  by (simp add: redis_value_def)

lemma redis_open:
  assumes "redis_ok cfg w" and "redis_value (window_key h) w = Some s"
  shows "\<exists>n \<ge> 0. redis w (window_key h) = Some (s, Some (s + window_length (limits cfg)))
    \<and> redis w (requests_key h) = Some (n, Some (s + window_length (limits cfg))) \<and> now w \<le> s + window_length (limits cfg)"
  using assms by (fastforce simp: redis_ok_def redis_value_def split: option.splits if_splits)

lemma redis_windows_update:
  assumes "redis_value (window_key h) w = Some s" and "now w \<le> t"
  shows "redis_windows (w\<lparr>redis := (redis w)(requests_key h \<mapsto> (n, Some t))\<rparr>) = (redis_windows w)(h \<mapsto> (s, n))"
  using assms by (simp add: redis_windows_def redis_value_other redis_value_set fun_eq_iff cong: option.case_cong)

lemma redis_windows_open:
  assumes "now w \<le> t"
  shows "redis_windows (w\<lparr>redis := (redis w)(window_key h \<mapsto> (s, Some t), requests_key h \<mapsto> (n, Some t))\<rparr>)
     = (redis_windows w)(h \<mapsto> (s, n))"
proof -
  let ?w = "w\<lparr>redis := (redis w)(window_key h \<mapsto> (s, Some t))\<rparr>"
  have "redis_windows (?w\<lparr>redis := (redis ?w)(requests_key h \<mapsto> (n, Some t))\<rparr>) = (redis_windows ?w)(h \<mapsto> (s, n))"
    by (rule redis_windows_update) (use assms in \<open>simp_all add: redis_value_set\<close>)
  then show ?thesis
    by (simp add: redis_windows_def redis_value_other fun_eq_iff cong: option.case_cong)
qed

lemma redis_okD:
  "redis_ok cfg w \<Longrightarrow> redis w (window_key h) = Some (s, keep) \<Longrightarrow> keep = Some (s + window_length (limits cfg))
     \<and> (\<exists>n \<ge> 0. redis w (requests_key h) = Some (n, Some (s + window_length (limits cfg))))"
  unfolding redis_ok_def by blast

lemma redis_ok_count:
  assumes "redis_ok cfg w" and "redis w (window_key h) = Some (s, Some (s + window_length (limits cfg)))" and "0 \<le> n"
  shows "redis_ok cfg (w\<lparr>redis := (redis w)(requests_key h \<mapsto> (n, Some (s + window_length (limits cfg))))\<rparr>)"
  unfolding redis_ok_def
proof (intro conjI allI impI)
  show "0 < window_length (limits cfg)"
    using assms(1) by (simp add: redis_ok_def)
next
  fix h' s' keep
  assume "redis (w\<lparr>redis := (redis w)(requests_key h \<mapsto> (n, Some (s + window_length (limits cfg))))\<rparr>) (window_key h') = Some (s', keep)"
  then have old: "redis w (window_key h') = Some (s', keep)"
    by simp
  from redis_okD [OF assms(1) this] show "keep = Some (s' + window_length (limits cfg))"
    by blast
  show "\<exists>m \<ge> 0. redis (w\<lparr>redis := (redis w)(requests_key h \<mapsto> (n, Some (s + window_length (limits cfg))))\<rparr>) (requests_key h')
      = Some (m, Some (s' + window_length (limits cfg)))"
    using redis_okD [OF assms(1) old] assms(2,3) old by (cases "h' = h") simp_all
qed

lemma redis_counted:
  assumes ok: "redis_ok cfg w" and s: "redis_value (window_key h) w = Some s"
  shows "\<exists>n w'. redis_windows w h = Some (s, n) \<and> check_ratelimit cfg True h w = (Inr (request_limit (limits cfg) < n + 1), w')
     \<and> redis_ok cfg w' \<and> now w' = now w \<and> redis_windows w' = (redis_windows w)(h \<mapsto> (s, n + 1))"
proof -
  let ?len = "window_length (limits cfg)"
  obtain n where n: "0 \<le> n" "redis w (window_key h) = Some (s, Some (s + ?len))"
    "redis w (requests_key h) = Some (n, Some (s + ?len))" "now w \<le> s + ?len"
    using redis_open [OF ok s] by auto
  let ?r = "(redis w)(requests_key h \<mapsto> (n + 1, Some (s + ?len)))"
  have vals: "redis_value (requests_key h) w = Some n" "redis_value (requests_key h) (w\<lparr>redis := ?r\<rparr>) = Some (n + 1)"
    "redis_value (window_key h) (w\<lparr>redis := ?r\<rparr>) = Some s"
    using n by (simp_all add: redis_value_def)
  have "check_ratelimit cfg True h w = (Inr (request_limit (limits cfg) < n + 1), w\<lparr>redis := ?r\<rparr>)"
    by (rule run_eqI) (use n vals s in \<open>simp add: check_ratelimit_def update_ratelimit_def update_ratelimit_redis_def
        redis_get_def redis_incr_def wp_simps Let_def\<close>)
  moreover have "redis_ok cfg (w\<lparr>redis := ?r\<rparr>)"
    by (rule redis_ok_count [OF ok n(2)]) (use n(1) in simp)
  moreover have "redis_windows (w\<lparr>redis := ?r\<rparr>) = (redis_windows w)(h \<mapsto> (s, n + 1))"
    by (rule redis_windows_update [OF s n(4)])
  ultimately show ?thesis
    using s vals(1) by (intro exI [of _ n] exI [of _ "w\<lparr>redis := ?r\<rparr>"]) (simp add: redis_windows_def)
qed

lemma redis_started:
  assumes ok: "redis_ok cfg w" and none: "redis_value (window_key h) w = None"
  shows "\<exists>w'. check_ratelimit cfg True h w = (Inr (request_limit (limits cfg) < 1), w')
     \<and> redis_ok cfg w' \<and> now w' = now w \<and> redis_windows w' = (redis_windows w)(h \<mapsto> (now w, 1))"
proof -
  let ?len = "window_length (limits cfg)"
  let ?r = "(redis w)(window_key h \<mapsto> (now w, Some (now w + ?len)), requests_key h \<mapsto> (1, Some (now w + ?len)))"
  have len: "0 < ?len"
    using ok by (simp add: redis_ok_def)
  have "check_ratelimit cfg True h w = (Inr (request_limit (limits cfg) < 1), w\<lparr>redis := ?r\<rparr>)"
    by (rule run_eqI) (use len none in \<open>simp add: check_ratelimit_def update_ratelimit_def update_ratelimit_redis_def
        redis_get_def redis_set_def redis_expire_def redis_value_def wp_simps Let_def\<close>)
  moreover have "redis_ok cfg (w\<lparr>redis := ?r\<rparr>)"
    using ok by (auto simp: redis_ok_def)
  moreover have "redis_windows (w\<lparr>redis := ?r\<rparr>) = (redis_windows w)(h \<mapsto> (now w, 1))"
    by (rule redis_windows_open) (use len in simp)
  ultimately show ?thesis
    by (intro exI [of _ "w\<lparr>redis := ?r\<rparr>"]) simp
qed

lemma redis_ticks:
  assumes "redis_ok cfg w" and "now w \<le> t"
  shows "redis_ok cfg (tick t w) \<and> now (tick t w) = t
    \<and> redis_windows (tick t w) = open_windows (window_length (limits cfg)) t (redis_windows w)"
proof -
  have "redis_windows (tick t w) h = open_windows (window_length (limits cfg)) t (redis_windows w) h" for h
  proof (cases "redis_value (window_key h) w")
    case None
    then have "redis_value (window_key h) (tick t w) = None"
      using assms(2) by (auto simp: redis_value_def tick_def split: option.splits if_splits)
    with None show ?thesis
      by (simp add: redis_windows_def open_windows_def)
  next
    case (Some s)
    from redis_open [OF assms(1) this] show ?thesis
      by (auto simp: redis_windows_def open_windows_def redis_value_def tick_def)
  qed
  then have "redis_windows (tick t w) = open_windows (window_length (limits cfg)) t (redis_windows w)"
    by (rule ext)
  moreover have "redis_ok cfg (tick t w) = redis_ok cfg w"
    by (simp add: redis_ok_def tick_def)
  ultimately show ?thesis
    using assms(1) by (simp add: tick_def)
qed

interpretation redis_counters: fixed_window "window_length (limits cfg)" "request_limit (limits cfg)" "redis_ok cfg" now
  redis_windows tick "check_ratelimit cfg True" for cfg
proof
  show "redis_ok cfg (tick t w) \<and> now (tick t w) = t
      \<and> redis_windows (tick t w) = open_windows (window_length (limits cfg)) t (redis_windows w)"
    if "redis_ok cfg w" "now w \<le> t" for w t
    by (rule redis_ticks [OF that])
  show "\<exists>w'. check_ratelimit cfg True h w = (Inr (request_limit (limits cfg) < snd (the (count_request (now w) h (redis_windows w) h))), w')
      \<and> redis_ok cfg w' \<and> now w' = now w \<and> redis_windows w' = count_request (now w) h (redis_windows w)"
    if "redis_ok cfg w" for w h
  proof (cases "redis_value (window_key h) w")
    case None
    then show ?thesis
      using redis_started [OF that None] by (simp add: count_request_def redis_windows_def)
  next
    case (Some s)
    from redis_counted [OF that this] show ?thesis
      by (auto simp: count_request_def)
  qed
  show "0 \<le> n" if "redis_ok cfg w" "redis_windows w h = Some (a, n)" for w h a n
    using that redis_open [of cfg w h a] by (auto simp: redis_windows_def redis_value_def split: option.splits if_splits)
qed

section \<open>The counters in the database\<close>

definition table_windows :: "int \<Rightarrow> int \<Rightarrow> apiratelimit_row list \<Rightarrow> windows" where
  "table_windows len t rows h = (case List.find (\<lambda>r. al_IP r = h) rows of None \<Rightarrow> None
     | Some r \<Rightarrow> if al_WindowStart r < t - len then None else Some (al_WindowStart r, al_Requests r))"

definition db_windows :: "config \<Rightarrow> world \<Rightarrow> windows" where
  "db_windows cfg w = table_windows (window_length (limits cfg)) (now w) (ApiRateLimit (the_db w))"

definition table_ok :: "world \<Rightarrow> bool" where
  "table_ok w \<longleftrightarrow> distinct (map al_IP (ApiRateLimit (the_db w))) \<and> (\<forall>r \<in> set (ApiRateLimit (the_db w)). 0 \<le> al_Requests r)"

lemma find_delete_where:
  "distinct (map k rs) \<Longrightarrow> List.find (\<lambda>r. k r = i) (delete_where p rs)
     = (case List.find (\<lambda>r. k r = i) rs of None \<Rightarrow> None | Some r \<Rightarrow> if p r then None else Some r)"
proof (induction rs)
  case (Cons r rs)
  have "List.find (\<lambda>r. k r = i) rs = None" if "k r = i"
    using Cons.prems that by (auto simp: find_None_iff) (metis image_eqI)
  with Cons show ?case
    by (auto simp: delete_where_def split: option.split)
qed (simp add: delete_where_def)

lemma table_windows_delete:
  assumes "distinct (map al_IP rows)"
  shows "table_windows len t (delete_where (\<lambda>r. al_WindowStart r < t - len) rows) = table_windows len t rows"
  using find_delete_where [OF assms] by (auto simp: table_windows_def fun_eq_iff split: option.split)

lemma find_update_where:
  "(\<And>r. k (f r) = k r) \<Longrightarrow> List.find (\<lambda>r. k r = i) (update_where p f rs)
     = map_option (\<lambda>r. if p r then f r else r) (List.find (\<lambda>r. k r = i) rs)"
  by (induction rs) (auto simp: update_where_def)

lemma table_windows_count:
  assumes "\<forall>r \<in> set rows. t - len \<le> al_WindowStart r" and "0 \<le> len"
  shows "table_windows len t (create_or_count h t rows) = count_request t h (table_windows len t rows)"
    and "requests_of h (d\<lparr>ApiRateLimit := create_or_count h t rows\<rparr>)
      = Some (snd (the (count_request t h (table_windows len t rows) h)))"
proof -
  have find: "List.find (\<lambda>r. al_IP r = h') (create_or_count h t rows) = (if h' = h
      then Some (case List.find (\<lambda>r. al_IP r = h) rows of None \<Rightarrow> \<lparr>al_IP = h, al_Requests = 1, al_WindowStart = t\<rparr>
        | Some r \<Rightarrow> r\<lparr>al_Requests := al_Requests r + 1\<rparr>)
      else List.find (\<lambda>r. al_IP r = h') rows)" for h'
  proof (cases "\<exists>r \<in> set rows. al_IP r = h")
    case True
    then obtain r where r: "List.find (\<lambda>r. al_IP r = h) rows = Some r" "al_IP r = h"
      using find_SomeD by (metis (mono_tags, lifting) find_None_iff not_None_eq)
    have keep: "map_option (\<lambda>r. if al_IP r = h then r\<lparr>al_Requests := al_Requests r + 1\<rparr> else r) (List.find (\<lambda>r. al_IP r = h') rows)
        = List.find (\<lambda>r. al_IP r = h') rows" if "h' \<noteq> h"
      using that find_SomeD [of "\<lambda>r. al_IP r = h'" rows] by (cases "List.find (\<lambda>r. al_IP r = h') rows") auto
    from True keep r show ?thesis
      by (simp add: create_or_count_def find_update_where)
  next
    case False
    then have none: "List.find (\<lambda>r. al_IP r = h) rows = None"
      by (simp add: find_None_iff)
    have "List.find p (xs @ [x]) = (case List.find p xs of None \<Rightarrow> if p x then Some x else None | Some y \<Rightarrow> Some y)" for p and xs :: "apiratelimit_row list" and x
      by (induction xs) auto
    with False none show ?thesis
      by (auto simp: create_or_count_def split: option.split)
  qed
  have young: "\<not> al_WindowStart r < t - len" if "List.find p rows = Some r" for p r
    using find_SomeD [OF that] assms(1) by (auto simp: not_less)
  show "table_windows len t (create_or_count h t rows) = count_request t h (table_windows len t rows)"
    using assms(2) by (auto simp: table_windows_def count_request_def find young fun_eq_iff split: option.split)
  show "requests_of h (d\<lparr>ApiRateLimit := create_or_count h t rows\<rparr>)
      = Some (snd (the (count_request t h (table_windows len t rows) h)))"
    by (auto simp: requests_of_def table_windows_def count_request_def find young split: option.split)
qed

lemma wp_retry_execute: "wp (retry_deadlock (transaction (execute f))) Q E w = Q () (w\<lparr>the_db := f (the_db w)\<rparr>)"
  by (rule wp_retry_deadlock_ret) (simp add: wp_simps)

lemma db_run:
  assumes ok: "table_ok w" and len: "0 \<le> window_length (limits cfg)"
  shows "\<exists>w'. check_ratelimit cfg False h w
       = (Inr (request_limit (limits cfg) < snd (the (count_request (now w) h (db_windows cfg w) h))), w')
     \<and> table_ok w' \<and> now w' = now w \<and> db_windows cfg w' = count_request (now w) h (db_windows cfg w)"
proof -
  let ?len = "window_length (limits cfg)"
  let ?young = "delete_where (\<lambda>r. al_WindowStart r < now w - ?len) (ApiRateLimit (the_db w))"
  let ?rows = "create_or_count h (now w) ?young"
  let ?w = "w\<lparr>the_db := (the_db w)\<lparr>ApiRateLimit := ?rows\<rparr>\<rparr>"
  have young: "\<forall>r \<in> set ?young. now w - ?len \<le> al_WindowStart r"
    by (auto simp: delete_where_def)
  have same: "table_windows ?len (now w) ?young = db_windows cfg w"
    using ok by (simp add: db_windows_def table_ok_def table_windows_delete)
  have "requests_of h ((the_db w)\<lparr>ApiRateLimit := ?rows\<rparr>) = Some (snd (the (count_request (now w) h (db_windows cfg w) h)))"
    using table_windows_count(2) [OF young len] same by simp
  then have "check_ratelimit cfg False h w = (Inr (request_limit (limits cfg) < snd (the (count_request (now w) h (db_windows cfg w) h))), ?w)"
    by (intro run_eqI) (simp add: check_ratelimit_def update_ratelimit_def update_ratelimit_db_def redis_get_def wp_simps
        wp_retry_execute Let_def)
  moreover have "db_windows cfg ?w = count_request (now w) h (db_windows cfg w)"
    using table_windows_count(1) [OF young len] same by (simp add: db_windows_def)
  moreover have "table_ok ?w"
  proof -
    have "distinct (map al_IP ?young)" and "\<forall>r \<in> set ?young. 0 \<le> al_Requests r"
      using ok by (auto simp: table_ok_def delete_where_def distinct_map_filter)
    then show ?thesis
      by (auto simp: table_ok_def create_or_count_def map_update_where_same ball_update_where image_iff)
  qed
  ultimately show ?thesis
    by (intro exI [of _ ?w]) simp
qed

lemma db_ticks:
  assumes "table_ok w" and "now w \<le> t"
  shows "table_ok (tick t w) \<and> now (tick t w) = t \<and> db_windows cfg (tick t w) = open_windows (window_length (limits cfg)) t (db_windows cfg w)"
  using assms by (auto simp: table_ok_def tick_def db_windows_def table_windows_def open_windows_def fun_eq_iff split: option.split)

interpretation table_counters: fixed_window "window_length (limits cfg)" "request_limit (limits cfg)"
  "\<lambda>w. table_ok w \<and> 0 \<le> window_length (limits cfg)" now "db_windows cfg" tick "check_ratelimit cfg False" for cfg
proof
  fix w h
  assume w: "table_ok w \<and> 0 \<le> window_length (limits cfg)"
  show "(table_ok (tick t w) \<and> 0 \<le> window_length (limits cfg)) \<and> now (tick t w) = t
      \<and> db_windows cfg (tick t w) = open_windows (window_length (limits cfg)) t (db_windows cfg w)" if "now w \<le> t" for t
    using db_ticks [of w t cfg] w that by simp
  show "\<exists>w'. check_ratelimit cfg False h w = (Inr (request_limit (limits cfg) < snd (the (count_request (now w) h (db_windows cfg w) h))), w')
      \<and> (table_ok w' \<and> 0 \<le> window_length (limits cfg)) \<and> now w' = now w \<and> db_windows cfg w' = count_request (now w) h (db_windows cfg w)"
    using db_run [of w cfg h] w by blast
  show "0 \<le> n" if "db_windows cfg w h = Some (a, n)" for a n
    using w that by (auto simp: db_windows_def table_windows_def table_ok_def split: option.splits if_splits dest: find_SomeD)
qed

section \<open>The properties\<close>

definition limiter_ok :: "config \<Rightarrow> bool \<Rightarrow> world \<Rightarrow> bool" where
  "limiter_ok cfg cache w \<longleftrightarrow> (if cache then redis_ok cfg w else table_ok w \<and> 0 \<le> window_length (limits cfg))"



text \<open>Three requests with a limit of two: the third is refused, and the one after the window is not.\<close>

definition small_limits :: config where
  "small_limits = default_config\<lparr>limits := default_limits\<lparr>request_limit := 2, window_length := 60\<rparr>\<rparr>"

definition four_requests :: "(int \<times> string) list" where
  "four_requests = [(1000, ''10.0.0.1''), (1010, ''10.0.0.1''), (1060, ''10.0.0.1''), (1061, ''10.0.0.1'')]"

lemma demo_limiter: "limiter_ok small_limits True demo_world" "sorted (now demo_world # map fst four_requests)"
  by (simp_all add: limiter_ok_def redis_ok_def small_limits_def demo_world_def four_requests_def)

lemma demo_answers:
  "answers tick (check_ratelimit small_limits True) four_requests demo_world = map Inr [False, False, True, False]"
proof -
  have "redis_ok small_limits demo_world"
    using demo_limiter(1) by (simp add: limiter_ok_def)
  from redis_counters.answers_refusals [OF this demo_limiter(2)]
  have "answers tick (check_ratelimit small_limits True) four_requests demo_world
      = map Inr (refusals 60 2 four_requests (redis_windows demo_world))"
    by (simp add: small_limits_def)
  moreover have "redis_windows demo_world = (\<lambda>_. None)"
    by (simp add: redis_windows_def redis_value_def demo_world_def fun_eq_iff)
  moreover have "refusals 60 2 four_requests (\<lambda>_. None) = [False, False, True, False]"
    by (simp add: four_requests_def Let_def count_request_def open_windows_def)
  ultimately show ?thesis
    by (simp only:)
qed



end
