(* ===== verification/Rpc.thy ===== *)
theory Rpc
  imports Packages_Search Rate_Limit Pkgbase_Util "HOL-Library.AList"
begin

text \<open>
  The RPC interface: \<open>aurweb/rpc.py\<close> (class \<open>RPC\<close>). A result is what is turned into JSON. Popularities are real
  numbers, so that rounding errors of floating-point numbers do not occur.
\<close>

section \<open>Columns and their JSON\<close>

record rpc_package =
  rp_ID :: nat
  rp_Name :: string
  rp_Version :: string
  rp_Description :: "string option"
  rp_URL :: "string option"
  rp_PackageBaseID :: nat
  rp_base :: packagebases_row
  rp_Maintainer :: "string option"
  rp_Submitter :: "string option"

text \<open>The key \<open>Submitter\<close> may be absent (None).\<close>

record rpc_json =
  js_ID :: nat
  js_Name :: string
  js_PackageBaseID :: nat
  js_PackageBase :: string
  js_Maintainer :: "string option"
  js_Submitter :: "string option option"
  js_Version :: string
  js_Description :: "string option"
  js_URL :: "string option"
  js_URLPath :: string
  js_NumVotes :: nat
  js_Popularity :: real
  js_OutOfDate :: "int option"
  js_FirstSubmitted :: int
  js_LastModified :: int

text \<open>An info result also has lists of names under the type of the relation, and a number of requests.\<close>

datatype rpc_result = Search_Result rpc_json | Info_Result rpc_json "(string \<times> string list) list" nat

datatype rpc_data =
    Rpc_Error "int option" string
  | Rpc_Results "int option" string "rpc_result list"
  | Rpc_Names "string list"

definition EXPOSED_VERSIONS :: "int list" where
  "EXPOSED_VERSIONS = [5]"

definition EXPOSED_TYPES :: "string list" where
  "EXPOSED_TYPES = [''info'', ''multiinfo'', ''search'', ''msearch'', ''suggest'', ''suggest-pkgbase'']"

definition TYPE_ALIASES :: "(string \<times> string) list" where
  "TYPE_ALIASES = [(''info'', ''multiinfo'')]"

definition EXPOSED_BYS :: "string list" where
  "EXPOSED_BYS = [''name-desc'', ''name'', ''maintainer'', ''depends'', ''makedepends'', ''optdepends'', ''checkdepends'',
     ''provides'', ''conflicts'', ''replaces'', ''groups'', ''submitter'', ''keywords'', ''comaintainers'']"

definition BY_ALIASES :: "(string \<times> string) list" where
  "BY_ALIASES = [(''name-desc'', ''nd''), (''name'', ''n''), (''maintainer'', ''m''), (''submitter'', ''s''),
     (''keywords'', ''k''), (''comaintainers'', ''c'')]"

definition TYPE_MAPPING :: "(string \<times> string) list" where
  "TYPE_MAPPING = [(''depends'', ''Depends''), (''makedepends'', ''MakeDepends''), (''checkdepends'', ''CheckDepends''),
     (''optdepends'', ''OptDepends''), (''conflicts'', ''Conflicts''), (''provides'', ''Provides''), (''replaces'', ''Replaces'')]"

definition canonical :: "(string \<times> string) list \<Rightarrow> string \<Rightarrow> string" where
  "canonical m x = (case map_of m x of None \<Rightarrow> x | Some y \<Rightarrow> y)"

text \<open>\<open>number_format\<close> rounds to the nearest multiple of a millionth, half-way cases to the even one.\<close>

definition number_format6 :: "real \<Rightarrow> real" where
  "number_format6 x = (let y = x * 1000000; n = \<lfloor>y\<rfloor> in
     if y - of_int n < 1 / 2 \<or> (y - of_int n = 1 / 2 \<and> even n) then of_int n / 1000000 else of_int (n + 1) / 1000000)"

text \<open>\<open>options.snapshot_uri\<close>, given as what stands before and after its \<open>%s\<close>.\<close>

type_synonym snapshot_uri = "string \<times> string"

definition get_json_data :: "snapshot_uri \<Rightarrow> int \<Rightarrow> rpc_package \<Rightarrow> rpc_json" where
  "get_json_data uri ts p = \<lparr>js_ID = rp_ID p, js_Name = rp_Name p, js_PackageBaseID = rp_PackageBaseID p,
     js_PackageBase = pb_Name (rp_base p), js_Maintainer = rp_Maintainer p, js_Submitter = Some (rp_Submitter p),
     js_Version = rp_Version p, js_Description = rp_Description p, js_URL = rp_URL p,
     js_URLPath = fst uri @ pb_Name (rp_base p) @ snd uri, js_NumVotes = pb_NumVotes (rp_base p),
     js_Popularity = (let pop = popularity (rp_base p) ts in if pop = 0 then 0 else number_format6 pop),
     js_OutOfDate = pb_OutOfDateTS (rp_base p), js_FirstSubmitted = pb_SubmittedTS (rp_base p),
     js_LastModified = pb_ModifiedTS (rp_base p)\<rparr>"

text \<open>\<open>entities\<close>: the submitter is joined, and the rows are grouped by package.\<close>

definition username :: "db \<Rightarrow> nat option \<Rightarrow> string option" where
  "username d i = map_option u_Username (List.find (\<lambda>u. i = Some (u_ID u)) (Users d))"

definition entity :: "db \<Rightarrow> joined \<Rightarrow> rpc_package" where
  "entity d r = (let p = j_package r in \<lparr>rp_ID = pk_ID p, rp_Name = pk_Name p, rp_Version = pk_Version p,
     rp_Description = pk_Description p, rp_URL = pk_URL p, rp_PackageBaseID = pk_PackageBaseID p, rp_base = j_base r,
     rp_Maintainer = map_option u_Username (j_user r), rp_Submitter = username d (pb_SubmitterUID (j_base r))\<rparr>)"

definition entities :: "db \<Rightarrow> search_state \<Rightarrow> rpc_package list" where
  "entities d s = map (entity d) (group_by (\<lambda>r. pk_ID (j_package r)) (ps_rows s))"

section \<open>What belongs to a package\<close>

text \<open>The records (ID, Type, Name, Cond) of the subqueries, each without repetitions and in the order of the names.\<close>

type_synonym extra_record = "nat \<times> string \<times> string \<times> string option"

definition ordered :: "extra_record list \<Rightarrow> extra_record list" where
  "ordered rs = sort_key (\<lambda>(i, t, n, c). char_codes n) (remdups rs)"

definition depend_records :: "db \<Rightarrow> nat list \<Rightarrow> extra_record list" where
  "depend_records d ids = concat (map (\<lambda>x. map (\<lambda>t. (pd_PackageID x, dt_Name t, pd_DepName x, pd_DepCondition x))
     (filter (\<lambda>t. dt_ID t = pd_DepTypeID x) (DependencyTypes d))) (filter (\<lambda>x. pd_PackageID x \<in> set ids) (PackageDepends d)))"

definition relation_records :: "db \<Rightarrow> nat list \<Rightarrow> extra_record list" where
  "relation_records d ids = concat (map (\<lambda>x. map (\<lambda>t. (rl_PackageID x, rt_Name t, rl_RelName x, rl_RelCondition x))
     (filter (\<lambda>t. rt_ID t = rl_RelTypeID x) (RelationTypes d))) (filter (\<lambda>x. rl_PackageID x \<in> set ids) (PackageRelations d)))"

definition group_records :: "db \<Rightarrow> nat list \<Rightarrow> extra_record list" where
  "group_records d ids = concat (map (\<lambda>x. map (\<lambda>g. (pg_PackageID x, ''Groups'', gr_Name g, Some []))
     (filter (\<lambda>g. gr_ID g = pg_GroupID x) (Groups d))) (filter (\<lambda>x. pg_PackageID x \<in> set ids) (PackageGroups d)))"

definition license_records :: "db \<Rightarrow> nat list \<Rightarrow> extra_record list" where
  "license_records d ids = concat (map (\<lambda>x. map (\<lambda>l. (pl_PackageID x, ''License'', li_Name l, Some []))
     (filter (\<lambda>l. li_ID l = pl_LicenseID x) (Licenses d))) (filter (\<lambda>x. pl_PackageID x \<in> set ids) (PackageLicenses d)))"

definition keyword_records :: "db \<Rightarrow> nat list \<Rightarrow> extra_record list" where
  "keyword_records d ids = concat (map (\<lambda>k. map (\<lambda>p. (pk_ID p, ''Keywords'', kw_Keyword k, Some []))
     (filter (\<lambda>p. pk_PackageBaseID p = kw_PackageBaseID k \<and> pk_ID p \<in> set ids) (Packages d))) (PackageKeywords d))"

text \<open>The subquery for co-maintainers does not restrict the packages.\<close>

definition comaintainer_records :: "db \<Rightarrow> extra_record list" where
  "comaintainer_records d = concat (map (\<lambda>c. concat (map (\<lambda>u. map (\<lambda>p. (pk_ID p, ''CoMaintainers'', u_Username u, Some []))
     (filter (\<lambda>p. pk_PackageBaseID p = cm_PackageBaseID c) (Packages d)))
     (filter (\<lambda>u. u_ID u = cm_UsersID c) (Users d)))) (PackageComaintainers d))"

definition extra_records :: "db \<Rightarrow> nat list \<Rightarrow> extra_record list" where
  "extra_records d ids = concat (map ordered [depend_records d ids, relation_records d ids, group_records d ids,
     license_records d ids, keyword_records d ids, comaintainer_records d])"

definition with_cond :: "string \<Rightarrow> string option \<Rightarrow> string" where
  "with_cond name cond = (case cond of None \<Rightarrow> name | Some c \<Rightarrow> name @ c)"

definition append_name :: "string \<Rightarrow> string \<Rightarrow> (string \<times> string list) list \<Rightarrow> (string \<times> string list) list" where
  "append_name t n xs = AList.map_default t [n] (\<lambda>ns. ns @ [n]) xs"

definition extra_info :: "extra_record list \<Rightarrow> nat \<Rightarrow> (string \<times> string list) list" where
  "extra_info rs i = fold (\<lambda>(_, t, n, c). append_name (canonical TYPE_MAPPING t) (with_cond n c))
     (filter (\<lambda>r. fst r = i) rs) [(''License'', []), (''Keywords'', [])]"

definition open_requests :: "db \<Rightarrow> nat \<Rightarrow> nat" where
  "open_requests d i = length (concat (map (\<lambda>r. filter (\<lambda>p. pr_PackageBaseID r = Some (pk_PackageBaseID p) \<and> pk_ID p = i)
     (Packages d)) (filter (\<lambda>r. pr_Status r = PENDING_ID \<and> pr_ClosedTS r = None) (PackageRequests d))))"

definition get_info_json_data :: "snapshot_uri \<Rightarrow> int \<Rightarrow> db \<Rightarrow> extra_record list \<Rightarrow> rpc_package \<Rightarrow> rpc_result" where
  "get_info_json_data uri ts d rs p = Info_Result (get_json_data uri ts p) (extra_info rs (rp_ID p)) (open_requests d (rp_ID p))"

section \<open>The handlers\<close>

definition enforce_args :: "string list \<Rightarrow> unit aur" where
  "enforce_args args = whenp (args = []) (raise (RPCError ''No request type/data specified.''))"

definition too_many :: "config \<Rightarrow> 'a list \<Rightarrow> unit aur" where
  "too_many cfg rs = whenp (max_rpc_results (limits cfg) < int (length rs)) (raise (RPCError ''Too many package results.''))"

definition limit_results :: "config \<Rightarrow> 'a list \<Rightarrow> 'a list" where
  "limit_results cfg rs = take (nat (max_rpc_results (limits cfg) + 1)) rs"

definition handle_multiinfo :: "config \<Rightarrow> snapshot_uri \<Rightarrow> string list \<Rightarrow> rpc_result list aur" where
  "handle_multiinfo cfg uri args =
     seqp (enforce_args args)
     (andthen utcnow (\<lambda>ts.
     andthen (query (\<lambda>d. limit_results cfg (entities d (where_rows (\<lambda>r. pk_Name (j_package r) \<in> set args) (rpc_search d)))))
       (\<lambda>packages.
     seqp (too_many cfg packages)
     (query (\<lambda>d. map (get_info_json_data uri ts d (extra_records d (map rp_ID packages))) packages)))))"

definition search_rows :: "config \<Rightarrow> string \<Rightarrow> string \<Rightarrow> db \<Rightarrow> rpc_package list option" where
  "search_rows cfg by arg d = map_option (\<lambda>s. let rs = limit_results cfg (entities d s) in
       if by = ''provides'' then remdups (rs @ entities d (search_by_exact_name d arg (rpc_search d))) else rs)
     (rpc_search_by d by arg (rpc_search d))"

definition search_json :: "snapshot_uri \<Rightarrow> int \<Rightarrow> rpc_package \<Rightarrow> rpc_result" where
  "search_json uri ts p = Search_Result ((get_json_data uri ts p)\<lparr>js_Submitter := None\<rparr>)"

definition handle_search :: "config \<Rightarrow> snapshot_uri \<Rightarrow> string \<Rightarrow> string list \<Rightarrow> rpc_result list aur" where
  "handle_search cfg uri by args =
     seqp (whenp (by \<noteq> ''m'' \<and> args = []) (raise (RPCError ''No request type/data specified.'')))
     (let arg = (if args = [] then [] else hd args) in
     seqp (whenp (by \<noteq> ''m'' \<and> length arg < 2) (raise (RPCError ''Query arg too small.'')))
     (andthen utcnow (\<lambda>ts.
     andthen (query (search_rows cfg by arg)) (\<lambda>found.
     andthen (the_or Py_TypeError found) (\<lambda>results.
     seqp (too_many cfg results)
     (ret (map (search_json uri ts) results)))))))"

definition handle_msearch :: "config \<Rightarrow> snapshot_uri \<Rightarrow> string list \<Rightarrow> rpc_result list aur" where
  "handle_msearch cfg uri args = handle_search cfg uri ''m'' args"

definition suggestions :: "string \<Rightarrow> string list \<Rightarrow> string list" where
  "suggestions arg names = take 20 (sort_key char_codes (filter (sql_like (arg @ ''%'')) names))"

definition handle_suggest :: "string list \<Rightarrow> string list aur" where
  "handle_suggest args = (if args = [] then ret [] else
     query (\<lambda>d. suggestions (hd args) (map (\<lambda>r. pk_Name (j_package r)) (concat (map (with_bases d) (Packages d))))))"

definition handle_suggest_pkgbase :: "string list \<Rightarrow> string list aur" where
  "handle_suggest_pkgbase args = (if args = [] then ret [] else
     query (\<lambda>d. suggestions (hd args) (map pb_Name (PackageBases d))))"

definition verify_inputs :: "int option \<Rightarrow> string option \<Rightarrow> string \<Rightarrow> unit aur" where
  "verify_inputs version type by =
     seqp (whenp (version = None) (raise (RPCError ''Please specify an API version.'')))
     (seqp (whenp (the version \<notin> set EXPOSED_VERSIONS) (raise (RPCError ''Invalid version specified.'')))
     (seqp (whenp (by \<notin> set EXPOSED_BYS) (raise (RPCError ''Incorrect by field specified.'')))
     (seqp (whenp (type = None) (raise (RPCError ''No request type/data specified.'')))
     (whenp (the type \<notin> set EXPOSED_TYPES) (raise (RPCError ''Incorrect request type specified.''))))))"

text \<open>The callback of a type; a type without one would be an \<open>AttributeError\<close>.\<close>

definition handle_callback :: "config \<Rightarrow> snapshot_uri \<Rightarrow> int option \<Rightarrow> string \<Rightarrow> string \<Rightarrow> string list \<Rightarrow> rpc_data aur" where
  "handle_callback cfg uri version type by args =
     (if type = ''multiinfo'' then andthen (handle_multiinfo cfg uri args) (\<lambda>rs. ret (Rpc_Results version type rs))
      else if type = ''search'' then andthen (handle_search cfg uri by args) (\<lambda>rs. ret (Rpc_Results version type rs))
      else if type = ''msearch'' then andthen (handle_msearch cfg uri args) (\<lambda>rs. ret (Rpc_Results version type rs))
      else if type = ''suggest'' then andthen (handle_suggest args) (\<lambda>names. ret (Rpc_Names names))
      else if type = ''suggest-pkgbase'' then andthen (handle_suggest_pkgbase args) (\<lambda>names. ret (Rpc_Names names))
      else throw Py_AttributeError)"

definition or_error :: "int option \<Rightarrow> rpc_data aur \<Rightarrow> rpc_data aur" where
  "or_error version m = catch m (\<lambda>e. case e of Aurweb (RPCError msg) \<Rightarrow> ret (Rpc_Error version msg) | _ \<Rightarrow> throw e)"

definition handle :: "config \<Rightarrow> snapshot_uri \<Rightarrow> int option \<Rightarrow> string option \<Rightarrow> string \<Rightarrow> string list \<Rightarrow> rpc_data aur" where
  "handle cfg uri version type by args = (let type = map_option (canonical TYPE_ALIASES) type in
     or_error version (seqp (verify_inputs version type by)
       (handle_callback cfg uri version (the type) (canonical BY_ALIASES by) args)))"

section \<open>What the interface answers\<close>

text \<open>The data of a package, read from the tables.\<close>

definition base_row :: "db \<Rightarrow> packages_row \<Rightarrow> packagebases_row" where
  "base_row d p = the (List.find (\<lambda>b. pb_ID b = pk_PackageBaseID p) (PackageBases d))"

definition package_entity :: "db \<Rightarrow> packages_row \<Rightarrow> rpc_package" where
  "package_entity d p = \<lparr>rp_ID = pk_ID p, rp_Name = pk_Name p, rp_Version = pk_Version p,
     rp_Description = pk_Description p, rp_URL = pk_URL p, rp_PackageBaseID = pk_PackageBaseID p, rp_base = base_row d p,
     rp_Maintainer = username d (pb_MaintainerUID (base_row d p)), rp_Submitter = username d (pb_SubmitterUID (base_row d p))\<rparr>"

lemma base_row_of:
  assumes "wf_db d" and "base_of d p b"
  shows "base_row d p = b"
proof -
  have "distinct (map pb_ID (PackageBases d))"
    using assms(1) by (simp add: wf_db_def unique_ok_def)
  from find_key [OF this, of b] show ?thesis
    using assms(2) by (auto simp: base_row_def base_of_def)
qed

lemma entity_package:
  assumes "wf_db d" and "row_ok d True r"
  shows "entity d r = package_entity d (j_package r)"
proof -
  have "base_row d (j_package r) = j_base r"
    using assms base_row_of by (simp add: row_ok_def)
  then show ?thesis
    using assms(2) by (simp add: entity_def package_entity_def row_ok_def username_def Let_def)
qed

lemma package_id_inj: "wf_db d \<Longrightarrow> inj_on pk_ID (set (Packages d)) \<and> distinct (Packages d)"
  by (simp add: wf_db_def unique_ok_def distinct_map)

lemma entities_of:
  assumes "wf_db d" and "finds d P s"
  shows "\<exists>ps. entities d s = map (package_entity d) ps \<and> distinct ps \<and> set ps = {p \<in> set (Packages d). P p}"
proof -
  let ?key = "\<lambda>r. pk_ID (j_package r)"
  let ?rows = "group_by ?key (ps_rows s)"
  have ok: "\<forall>r \<in> set (ps_rows s). row_ok d True r" and ps: "j_package ` set (ps_rows s) = {p \<in> set (Packages d). P p}"
    using assms(2) by (simp_all add: finds_def)
  then have "entities d s = map (package_entity d) (map j_package ?rows)"
    using set_group_by [of ?key "ps_rows s"] entity_package [OF assms(1)] by (auto simp: entities_def)
  moreover have "distinct (map pk_ID (map j_package ?rows))"
    using group_by_distinct [of ?key "ps_rows s"] by (simp add: comp_def)
  then have "distinct (map j_package ?rows)"
    using distinct_map by blast
  moreover have "set (map j_package ?rows) = j_package ` set (ps_rows s)"
  proof -
    have "pk_ID ` set (map j_package ?rows) = pk_ID ` (j_package ` set (ps_rows s))"
      using group_by_keys [of ?key "ps_rows s"] by (simp add: image_image)
    moreover have "set (map j_package ?rows) \<subseteq> set (Packages d)" "j_package ` set (ps_rows s) \<subseteq> set (Packages d)"
      using ps set_group_by [of ?key "ps_rows s"] by auto
    ultimately show ?thesis
      using package_id_inj [OF assms(1)] by (metis inj_on_image_eq_iff)
  qed
  ultimately show ?thesis
    using ps by blast
qed

text \<open>When the packages stand in the order of the table, so do the entities.\<close>

lemma group_by_same: "distinct (map k rs) \<Longrightarrow> group_by k rs = rs"
proof (induction k rs rule: group_by.induct)
  case (2 k r rs)
  have "filter (\<lambda>x. k x \<noteq> k r) rs = rs"
    using 2(2) by (intro filter_True) (auto, metis image_eqI)
  with 2 show ?case by simp
qed simp

lemma entities_stands:
  assumes "wf_db d" and "stands_for d P s" and "joined_user s"
  shows "entities d s = map (package_entity d) (filter P (Packages d))"
proof -
  have rows: "map j_package (ps_rows s) = filter P (Packages d)" "\<forall>r \<in> set (ps_rows s). row_ok d True r"
    using assms(2,3) by (simp_all add: stands_for_def)
  have "map (\<lambda>r. pk_ID (j_package r)) (ps_rows s) = map pk_ID (filter P (Packages d))"
    using arg_cong [OF rows(1), of "map pk_ID"] by (simp add: comp_def)
  moreover have "distinct (map pk_ID (filter P (Packages d)))"
    using assms(1) by (simp add: wf_db_def unique_ok_def distinct_map_filter)
  ultimately have "group_by (\<lambda>r. pk_ID (j_package r)) (ps_rows s) = ps_rows s"
    by (intro group_by_same) simp
  then have "entities d s = map (package_entity d) (map j_package (ps_rows s))"
    using rows(2) entity_package [OF assms(1)] by (simp add: entities_def)
  then show ?thesis
    by (simp only: rows(1))
qed

text \<open>The limit: more results than it are refused, fewer are all there.\<close>

lemma limit_exceeded: "max_rpc_results (limits cfg) < int (length (limit_results cfg rs)) \<longleftrightarrow> max_rpc_results (limits cfg) < int (length rs)"
  by (auto simp: limit_results_def)

lemma limit_all: "int (length rs) \<le> max_rpc_results (limits cfg) \<Longrightarrow> limit_results cfg rs = rs"
  by (simp add: limit_results_def)

lemma remdups_map_inj: "inj_on f (set xs) \<Longrightarrow> remdups (map f xs) = map f (remdups xs)"
  by (induction xs) (auto simp: inj_on_def)

definition rpc_fits :: "db \<Rightarrow> string \<Rightarrow> string \<Rightarrow> packages_row \<Rightarrow> bool" where
  "rpc_fits d by arg p \<longleftrightarrow> (case map_of (rpc_spec d) by of None \<Rightarrow> False | Some Q \<Rightarrow> Q arg p) \<or> by = ''provides'' \<and> pk_Name p = arg"

lemma entity_inj: "wf_db d \<Longrightarrow> inj_on (package_entity d) (set (Packages d))"
  using package_id_inj [of d] by (auto simp: inj_on_def package_entity_def)

lemma search_rows_fit:
  assumes wf: "wf_db d" and zero: "0 \<notin> user_ids d" and spec: "map_of (rpc_spec d) by = Some Q"
    and s: "rpc_search_by d by arg (rpc_search d) = Some s"
  shows "\<exists>ps rs. search_rows cfg by arg d = Some rs \<and> distinct ps \<and> set ps = {p \<in> set (Packages d). rpc_fits d by arg p}
     \<and> (max_rpc_results (limits cfg) < int (length rs) \<longleftrightarrow> max_rpc_results (limits cfg) < int (length ps))
     \<and> (int (length ps) \<le> max_rpc_results (limits cfg) \<longrightarrow> rs = map (package_entity d) ps)"
proof -
  obtain ps where ps: "entities d s = map (package_entity d) ps" "distinct ps" "set ps = {p \<in> set (Packages d). Q arg p}"
    using entities_of [OF wf finds_rpc_search [OF wf zero spec s]] by blast
  show ?thesis
  proof (cases "by = ''provides''")
    case False
    have "search_rows cfg by arg d = Some (limit_results cfg (entities d s))"
      using s False by (simp add: search_rows_def)
    then show ?thesis
      using ps limit_exceeded [of cfg "entities d s"] limit_all [of "entities d s" cfg] False spec
      by (intro exI [of _ ps] exI [of _ "limit_results cfg (entities d s)"]) (simp add: rpc_fits_def)
  next
    case True
    let ?exact = "search_by_exact_name d arg (rpc_search d)"
    have "map_of (web_spec d) ''N'' = Some (\<lambda>kw p. pk_Name p = kw)"
      by (simp add: web_spec_def)
    from stands_for_search_by [OF wf zero conjunct1 [OF rpc_search_stands [OF wf]] this, of arg]
    have stands: "stands_for d (\<lambda>p. pk_Name p = arg) ?exact"
      by (simp add: search_by_simps)
    have user: "joined_user ?exact"
      using rpc_search_stands [OF wf] by (simp add: search_by_exact_name_def where_rows_def join_user_def)
    let ?es = "filter (\<lambda>p. pk_Name p = arg) (Packages d)" and ?lim = "limit_results cfg ps"
    have exact: "entities d ?exact = map (package_entity d) ?es"
      by (rule entities_stands [OF wf stands user])
    have lim: "limit_results cfg (entities d s) = map (package_entity d) ?lim"
      by (simp add: ps(1) limit_results_def take_map)
    have "set ?lim \<subseteq> set ps"
      by (simp add: limit_results_def set_take_subset)
    then have inj: "inj_on (package_entity d) (set (?lim @ ?es))"
      by (rule_tac inj_on_subset [OF entity_inj [OF wf]]) (use ps(3) in auto)
    let ?rs = "map (package_entity d) (remdups (?lim @ ?es))"
    have rows: "search_rows cfg by arg d = Some ?rs"
      using s True remdups_map_inj [OF inj] by (simp add: search_rows_def lim exact)
    let ?ps = "remdups (ps @ ?es)"
    have set: "set ?ps = {p \<in> set (Packages d). rpc_fits d by arg p}"
      using ps(3) spec True by (auto simp: rpc_fits_def)
    have full: "length ?ps = card (set (ps @ ?es))" "length ?rs = card (set (?lim @ ?es))"
      by (simp_all only: length_map length_remdups_card_conv)
    have same: "?lim = ps" if "int (length ps) \<le> max_rpc_results (limits cfg)"
      using that by (rule limit_all)
    have more: "max_rpc_results (limits cfg) < int (length ?rs)" "max_rpc_results (limits cfg) < int (length ?ps)"
      if "max_rpc_results (limits cfg) < int (length ps)"
    proof -
      have "distinct ?lim"
        using ps(2) by (simp add: limit_results_def)
      then have "length ?lim \<le> card (set (?lim @ ?es))" "length ps \<le> card (set (ps @ ?es))"
        using ps(2) by (simp_all add: distinct_card [symmetric] card_mono)
      moreover have "max_rpc_results (limits cfg) < int (length ?lim)"
        using that by (simp add: limit_exceeded)
      ultimately show "max_rpc_results (limits cfg) < int (length ?rs)" "max_rpc_results (limits cfg) < int (length ?ps)"
        using that unfolding full by linarith+
    qed
    have "max_rpc_results (limits cfg) < int (length ?rs) \<longleftrightarrow> max_rpc_results (limits cfg) < int (length ?ps)"
      using more same by (cases "max_rpc_results (limits cfg) < int (length ps)") simp_all
    moreover have "?rs = map (package_entity d) ?ps" if "int (length ?ps) \<le> max_rpc_results (limits cfg)"
      using that more(2) same by (metis linorder_not_less)
    ultimately show ?thesis
      using rows set by (intro exI [of _ ?ps] exI [of _ ?rs]) simp
  qed
qed

lemma exposed_known:
  assumes "by \<in> set EXPOSED_BYS"
  shows "\<exists>Q. map_of (rpc_spec d) (canonical BY_ALIASES by) = Some Q"
    and "rpc_search_by d (canonical BY_ALIASES by) arg s \<noteq> None"
    and "canonical BY_ALIASES by = ''m'' \<longleftrightarrow> by = ''maintainer''"
  using assms unfolding EXPOSED_BYS_def list.set insert_iff empty_iff
  by (elim disjE FalseE; simp add: canonical_def BY_ALIASES_def rpc_spec_def rpc_search_by_def rpc_search_by_cb_def)+

lemma verify_ok:
  assumes "type \<in> set EXPOSED_TYPES" and "by \<in> set EXPOSED_BYS"
  shows "wp (verify_inputs (Some 5) (Some type) by) Q E w = Q () w"
  using assms by (simp add: verify_inputs_def wp_simps EXPOSED_VERSIONS_def)

lemma wp_or_error_Some:
  assumes "wp m (\<lambda>x w'. Q x w') (\<lambda>e w'. \<exists>msg. e = Aurweb (RPCError msg) \<and> Q (Rpc_Error version msg) w') w"
  shows "wp (or_error version m) Q E w"
  unfolding or_error_def wp_catch by (rule wp_mono [OF assms]) (auto simp: wp_simps)

lemma exposed_search: "''search'' \<in> set EXPOSED_TYPES" "''multiinfo'' \<in> set EXPOSED_TYPES"
  "canonical TYPE_ALIASES ''search'' = ''search''" "canonical TYPE_ALIASES ''info'' = ''multiinfo''"
  by (simp_all add: EXPOSED_TYPES_def canonical_def TYPE_ALIASES_def)

text \<open>
  C29. A search of the RPC interface by any exposed field answers with exactly the packages that fit, each once,
  with the data of the package, its package base, its maintainer and without its submitter; when more packages
  fit than the limit allows, it answers with an error instead. Nothing changes.
\<close>

theorem rpc_search_exact:
  assumes wf: "wf_db (the_db w)" and zero: "0 \<notin> user_ids (the_db w)" and field: "by \<in> set EXPOSED_BYS"
    and args: "by = ''maintainer'' \<or> args \<noteq> [] \<and> 2 \<le> length (hd args)"
  shows "\<exists>ps. distinct ps \<and> set ps = {p \<in> set (Packages (the_db w)).
       rpc_fits (the_db w) (canonical BY_ALIASES by) (if args = [] then [] else hd args) p}
     \<and> handle cfg uri (Some 5) (Some ''search'') by args w = (Inr (if max_rpc_results (limits cfg) < int (length ps)
          then Rpc_Error (Some 5) ''Too many package results.''
          else Rpc_Results (Some 5) ''search'' (map (\<lambda>p. search_json uri (now w) (package_entity (the_db w) p)) ps)), w)"
proof -
  let ?by = "canonical BY_ALIASES by" and ?arg = "if args = [] then [] else hd args" and ?d = "the_db w"
  obtain Q where spec: "map_of (rpc_spec ?d) ?by = Some Q"
    using exposed_known(1) [OF field] by blast
  obtain s where s: "rpc_search_by ?d ?by ?arg (rpc_search ?d) = Some s"
    using exposed_known(2) [OF field, of ?d ?arg "rpc_search ?d"] by auto
  obtain ps rs where rows: "search_rows cfg ?by ?arg ?d = Some rs" and ps: "distinct ps" "set ps = {p \<in> set (Packages ?d). rpc_fits ?d ?by ?arg p}"
    and many: "max_rpc_results (limits cfg) < int (length rs) \<longleftrightarrow> max_rpc_results (limits cfg) < int (length ps)"
    and few: "int (length ps) \<le> max_rpc_results (limits cfg) \<longrightarrow> rs = map (package_entity ?d) ps"
    using search_rows_fit [OF wf zero spec s, of cfg] by blast
  have ok: "(?by \<noteq> ''m'' \<and> args = []) = False" "(?by \<noteq> ''m'' \<and> length ?arg < 2) = False"
    using args exposed_known(3) [OF field] by auto
  have "handle cfg uri (Some 5) (Some ''search'') by args w = (Inr (if max_rpc_results (limits cfg) < int (length ps)
      then Rpc_Error (Some 5) ''Too many package results.''
      else Rpc_Results (Some 5) ''search'' (map (\<lambda>p. search_json uri (now w) (package_entity ?d p)) ps)), w)"
  proof (rule run_eqI)
    show "wp (handle cfg uri (Some 5) (Some ''search'') by args)
      (\<lambda>x w'. Inr x = Inr (if max_rpc_results (limits cfg) < int (length ps)
        then Rpc_Error (Some 5) ''Too many package results.''
        else Rpc_Results (Some 5) ''search'' (map (\<lambda>p. search_json uri (now w) (package_entity ?d p)) ps)) \<and> w' = w) E w" for E
      unfolding handle_def Let_def option.map option.sel exposed_search
      apply (rule wp_or_error_Some)
      unfolding wp_seqp verify_ok [OF exposed_search(1) field] handle_callback_def handle_search_def Let_def
      using many few rows ok by (simp add: wp_simps too_many_def comp_def linorder_not_less)
  qed
  with ps show ?thesis
    by blast
qed

text \<open>What an info result lists under a type, and the pending requests of a package base.\<close>

definition related :: "db \<Rightarrow> packages_row \<Rightarrow> string \<Rightarrow> string set" where
  "related d p t =
     {with_cond (pd_DepName x) (pd_DepCondition x) |x y. x \<in> set (PackageDepends d) \<and> pd_PackageID x = pk_ID p
        \<and> y \<in> set (DependencyTypes d) \<and> dt_ID y = pd_DepTypeID x \<and> canonical TYPE_MAPPING (dt_Name y) = t}
   \<union> {with_cond (rl_RelName x) (rl_RelCondition x) |x y. x \<in> set (PackageRelations d) \<and> rl_PackageID x = pk_ID p
        \<and> y \<in> set (RelationTypes d) \<and> rt_ID y = rl_RelTypeID x \<and> canonical TYPE_MAPPING (rt_Name y) = t}
   \<union> {gr_Name g |x g. t = ''Groups'' \<and> x \<in> set (PackageGroups d) \<and> pg_PackageID x = pk_ID p \<and> g \<in> set (Groups d) \<and> gr_ID g = pg_GroupID x}
   \<union> {li_Name l |x l. t = ''License'' \<and> x \<in> set (PackageLicenses d) \<and> pl_PackageID x = pk_ID p \<and> l \<in> set (Licenses d) \<and> li_ID l = pl_LicenseID x}
   \<union> {kw_Keyword k |k. t = ''Keywords'' \<and> k \<in> set (PackageKeywords d) \<and> kw_PackageBaseID k = pk_PackageBaseID p}
   \<union> {u_Username u |c u. t = ''CoMaintainers'' \<and> c \<in> set (PackageComaintainers d) \<and> cm_PackageBaseID c = pk_PackageBaseID p
        \<and> u \<in> set (Users d) \<and> u_ID u = cm_UsersID c}"

definition pending_requests :: "db \<Rightarrow> packages_row \<Rightarrow> nat" where
  "pending_requests d p = count_where (\<lambda>r. pr_PackageBaseID r = Some (pk_PackageBaseID p) \<and> pr_Status r = PENDING_ID
     \<and> pr_ClosedTS r = None) (PackageRequests d)"

definition listed :: "(string \<times> string list) list \<Rightarrow> string \<Rightarrow> string set" where
  "listed xs t = (case map_of xs t of None \<Rightarrow> {} | Some ns \<Rightarrow> set ns)"

lemma listed_append_name: "listed (append_name t n xs) t' = listed xs t' \<union> (if t' = t then {n} else {})"
  by (induction xs) (auto simp: listed_def append_name_def split: option.split)

lemma listed_fold:
  "listed (fold (\<lambda>(_, t, n, c). append_name (canonical TYPE_MAPPING t) (with_cond n c)) rs xs) t
     = listed xs t \<union> {with_cond n c |i t' n c. (i, t', n, c) \<in> set rs \<and> canonical TYPE_MAPPING t' = t}"
proof (induction rs arbitrary: xs)
  case (Cons r rs)
  obtain i t' n c where r: "r = (i, t', n, c)"
    by (cases r) auto
  show ?case
    unfolding r by (simp add: Cons.IH listed_append_name) auto
qed simp

lemma listed_extra_info:
  "listed (extra_info rs i) t = {with_cond n c |t' n c. (i, t', n, c) \<in> set rs \<and> canonical TYPE_MAPPING t' = t}"
proof -
  have "listed [(''License'', []), (''Keywords'', [])] t = {}"
    by (simp add: listed_def)
  then show ?thesis
    unfolding extra_info_def listed_fold by auto
qed

lemma fixed_types: "canonical TYPE_MAPPING ''Groups'' = ''Groups''" "canonical TYPE_MAPPING ''License'' = ''License''"
  "canonical TYPE_MAPPING ''Keywords'' = ''Keywords''" "canonical TYPE_MAPPING ''CoMaintainers'' = ''CoMaintainers''"
  by (simp_all add: canonical_def TYPE_MAPPING_def)

lemma set_ordered [simp]: "set (ordered rs) = set rs"
  by (simp add: ordered_def)

lemma record_sets:
  "set (depend_records d ids) = {(pd_PackageID x, dt_Name y, pd_DepName x, pd_DepCondition x) |x y. x \<in> set (PackageDepends d)
     \<and> pd_PackageID x \<in> set ids \<and> y \<in> set (DependencyTypes d) \<and> dt_ID y = pd_DepTypeID x}"
  "set (relation_records d ids) = {(rl_PackageID x, rt_Name y, rl_RelName x, rl_RelCondition x) |x y. x \<in> set (PackageRelations d)
     \<and> rl_PackageID x \<in> set ids \<and> y \<in> set (RelationTypes d) \<and> rt_ID y = rl_RelTypeID x}"
  "set (group_records d ids) = {(pg_PackageID x, ''Groups'', gr_Name g, Some []) |x g. x \<in> set (PackageGroups d)
     \<and> pg_PackageID x \<in> set ids \<and> g \<in> set (Groups d) \<and> gr_ID g = pg_GroupID x}"
  "set (license_records d ids) = {(pl_PackageID x, ''License'', li_Name l, Some []) |x l. x \<in> set (PackageLicenses d)
     \<and> pl_PackageID x \<in> set ids \<and> l \<in> set (Licenses d) \<and> li_ID l = pl_LicenseID x}"
  "set (keyword_records d ids) = {(pk_ID p, ''Keywords'', kw_Keyword k, Some []) |k p. k \<in> set (PackageKeywords d)
     \<and> p \<in> set (Packages d) \<and> pk_PackageBaseID p = kw_PackageBaseID k \<and> pk_ID p \<in> set ids}"
  "set (comaintainer_records d) = {(pk_ID p, ''CoMaintainers'', u_Username u, Some []) |c u p. c \<in> set (PackageComaintainers d)
     \<and> u \<in> set (Users d) \<and> u_ID u = cm_UsersID c \<and> p \<in> set (Packages d) \<and> pk_PackageBaseID p = cm_PackageBaseID c}"
  by (auto simp: depend_records_def relation_records_def group_records_def license_records_def keyword_records_def
      comaintainer_records_def)

lemma select_records:
  "{with_cond n c |t' n c. (i, t', n, c) \<in> {(f x y, g x y, h x y, k x y) |x y. P x y} \<and> m t' = t}
     = {with_cond (h x y) (k x y) |x y. P x y \<and> f x y = i \<and> m (g x y) = t}"
  "{with_cond n c |t' n c. (i, t', n, c) \<in> {(f' z, g' x y z, h' x y z, k' x y z) |x y z. P' x y z} \<and> m t' = t}
     = {with_cond (h' x y z) (k' x y z) |x y z. P' x y z \<and> f' z = i \<and> m (g' x y z) = t}"
  by blast+

lemma select_fixed:
  "{with_cond n c |t' n c. (i, t', n, c) \<in> {(f q, ty, g x, Some []) |x q. P x q} \<and> m t' = t}
     = {with_cond (g x) (Some []) |x q. P x q \<and> f q = i \<and> m ty = t}"
  "{with_cond n c |t' n c. (i, t', n, c) \<in> {(f' q, ty, g' u, Some []) |k u q. P' k u q} \<and> m t' = t}
     = {with_cond (g' u) (Some []) |k u q. P' k u q \<and> f' q = i \<and> m ty = t}"
  by blast+

lemma of_the_one:
  assumes "p \<in> B" and one: "\<And>q. q \<in> B \<Longrightarrow> i q = i p \<Longrightarrow> q = p"
  shows "i p \<in> I \<Longrightarrow> {g k |k q. (k \<in> A \<and> q \<in> B \<and> h q = f k \<and> i q \<in> I) \<and> i q = i p \<and> ty = t}
      = {g k |k. t = ty \<and> k \<in> A \<and> f k = h p}"
    and "{g' u |k u q. (k \<in> A' \<and> u \<in> C \<and> n u = m k \<and> q \<in> B \<and> h q = f' k) \<and> i q = i p \<and> ty = t}
      = {g' u |k u. t = ty \<and> k \<in> A' \<and> f' k = h p \<and> u \<in> C \<and> n u = m k}"
  using assms(1) by (auto; metis one)+

lemma listed_related:
  assumes wf: "wf_db d" and p: "p \<in> set (Packages d)" "pk_ID p \<in> set ids"
  shows "listed (extra_info (extra_records d ids) (pk_ID p)) t = related d p t"
proof -
  let ?sel = "\<lambda>R. {with_cond n c |t' n c. (pk_ID p, t', n, c) \<in> R \<and> canonical TYPE_MAPPING t' = t}"
  have unique: "q = p" if "q \<in> set (Packages d)" "pk_ID q = pk_ID p" for q
    using package_id_inj [OF wf] that p(1) by (auto dest: inj_onD)
  have none: "with_cond n (Some []) = n" for n
    by (simp add: with_cond_def)
  have "?sel (set (depend_records d ids)) = {with_cond (pd_DepName x) (pd_DepCondition x) |x y. x \<in> set (PackageDepends d) \<and> pd_PackageID x = pk_ID p
        \<and> y \<in> set (DependencyTypes d) \<and> dt_ID y = pd_DepTypeID x \<and> canonical TYPE_MAPPING (dt_Name y) = t}"
    unfolding record_sets select_records fixed_types none using p unique by (auto; metis)
  moreover have "?sel (set (relation_records d ids)) = {with_cond (rl_RelName x) (rl_RelCondition x) |x y. x \<in> set (PackageRelations d) \<and> rl_PackageID x = pk_ID p
        \<and> y \<in> set (RelationTypes d) \<and> rt_ID y = rl_RelTypeID x \<and> canonical TYPE_MAPPING (rt_Name y) = t}"
    unfolding record_sets select_records fixed_types none using p unique by (auto; metis)
  moreover have "?sel (set (group_records d ids)) = {gr_Name g |x g. t = ''Groups'' \<and> x \<in> set (PackageGroups d) \<and> pg_PackageID x = pk_ID p
      \<and> g \<in> set (Groups d) \<and> gr_ID g = pg_GroupID x}"
    unfolding record_sets select_records fixed_types none using p unique by (auto; metis)
  moreover have "?sel (set (license_records d ids)) = {li_Name l |x l. t = ''License'' \<and> x \<in> set (PackageLicenses d) \<and> pl_PackageID x = pk_ID p
      \<and> l \<in> set (Licenses d) \<and> li_ID l = pl_LicenseID x}"
    unfolding record_sets select_records fixed_types none using p unique by (auto; metis)
  moreover have "?sel (set (keyword_records d ids)) = {kw_Keyword k |k. t = ''Keywords'' \<and> k \<in> set (PackageKeywords d) \<and> kw_PackageBaseID k = pk_PackageBaseID p}"
    unfolding record_sets select_fixed fixed_types none by (rule of_the_one(1) [of p "set (Packages d)" pk_ID, OF p(1) unique p(2)])
  moreover have "?sel (set (comaintainer_records d)) = {u_Username u |c u. t = ''CoMaintainers'' \<and> c \<in> set (PackageComaintainers d) \<and> cm_PackageBaseID c = pk_PackageBaseID p
        \<and> u \<in> set (Users d) \<and> u_ID u = cm_UsersID c}"
    unfolding record_sets select_fixed fixed_types none by (rule of_the_one(2) [where i = pk_ID and g' = u_Username and n = u_ID and m = cm_UsersID
        and f' = cm_PackageBaseID and h = pk_PackageBaseID, OF p(1) unique])
  moreover have "listed (extra_info (extra_records d ids) (pk_ID p)) t = ?sel (set (depend_records d ids)) \<union> ?sel (set (relation_records d ids))
      \<union> ?sel (set (group_records d ids)) \<union> ?sel (set (license_records d ids)) \<union> ?sel (set (keyword_records d ids)) \<union> ?sel (set (comaintainer_records d))"
  proof -
    have records: "set (extra_records d ids) = set (depend_records d ids) \<union> set (relation_records d ids) \<union> set (group_records d ids)
        \<union> set (license_records d ids) \<union> set (keyword_records d ids) \<union> set (comaintainer_records d)"
      by (simp add: extra_records_def Un_assoc)
    have split: "?sel (A \<union> B) = ?sel A \<union> ?sel B" for A B
      by blast
    show ?thesis
      unfolding listed_extra_info records split by (rule refl)
  qed
  ultimately show ?thesis
    unfolding related_def by (simp only:)
qed

lemma open_requests_pending:
  assumes "wf_db d" and "p \<in> set (Packages d)"
  shows "open_requests d (pk_ID p) = pending_requests d p"
proof -
  have one: "length (filter (\<lambda>q. pr_PackageBaseID r = Some (pk_PackageBaseID q) \<and> pk_ID q = pk_ID p) (Packages d))
      = (if pr_PackageBaseID r = Some (pk_PackageBaseID p) then 1 else 0)" for r
  proof -
    have "distinct (map pk_ID (Packages d))"
      using assms(1) by (simp add: wf_db_def unique_ok_def)
    from filter_one [OF this assms(2)]
    have "filter (\<lambda>q. pr_PackageBaseID r = Some (pk_PackageBaseID q)) (filter (\<lambda>q. pk_ID q = pk_ID p) (Packages d))
      = (if pr_PackageBaseID r = Some (pk_PackageBaseID p) then [p] else [])"
      by simp
    then show ?thesis
      by (simp add: filter_filter conj_commute split: if_splits)
  qed
  have all: "length (concat (map (\<lambda>r. filter (\<lambda>q. pr_PackageBaseID r = Some (pk_PackageBaseID q) \<and> pk_ID q = pk_ID p) (Packages d)) rs))
      = length (filter (\<lambda>r. pr_PackageBaseID r = Some (pk_PackageBaseID p)) rs)" for rs
    by (induction rs) (simp_all add: one)
  then show ?thesis
    unfolding open_requests_def pending_requests_def count_where_def all filter_filter by (simp add: conj_ac)
qed

text \<open>The rows of an info request: the packages of those names.\<close>

lemma info_rows:
  assumes "wf_db d"
  shows "entities d (where_rows (\<lambda>r. pk_Name (j_package r) \<in> set args) (rpc_search d))
     = map (package_entity d) (filter (\<lambda>p. pk_Name p \<in> set args) (Packages d))"
proof (rule entities_stands [OF assms])
  show "stands_for d (\<lambda>p. pk_Name p \<in> set args) (where_rows (\<lambda>r. pk_Name (j_package r) \<in> set args) (rpc_search d))"
    using stands_for_where [OF conjunct1 [OF rpc_search_stands [OF assms]], of "\<lambda>r. pk_Name (j_package r) \<in> set args" "\<lambda>p. pk_Name p \<in> set args"]
    by simp
  show "joined_user (where_rows (\<lambda>r. pk_Name (j_package r) \<in> set args) (rpc_search d))"
    using rpc_search_stands [OF assms] by (simp add: where_rows_def)
qed

text \<open>An info result for a package: its data, everything that belongs to it, and its pending requests.\<close>

definition info_of :: "snapshot_uri \<Rightarrow> int \<Rightarrow> db \<Rightarrow> packages_row \<Rightarrow> rpc_result \<Rightarrow> bool" where
  "info_of uri ts d p r \<longleftrightarrow> (\<exists>xs. r = Info_Result (get_json_data uri ts (package_entity d p)) xs (pending_requests d p)
     \<and> listed xs = related d p)"

text \<open>
  C30. An info request answers for each package that is named with its data, the exact sets of its dependencies,
  relations, groups, licenses, keywords and co-maintainers, and the number of its pending requests, each package
  once and in the order of the table; for more packages than the limit it answers with an error.
\<close>

theorem rpc_info_exact:
  assumes wf: "wf_db (the_db w)" and field: "by \<in> set EXPOSED_BYS" and args: "args \<noteq> []"
  shows "let found = filter (\<lambda>p. pk_Name p \<in> set args) (Packages (the_db w)) in
     \<exists>rs. list_all2 (info_of uri (now w) (the_db w)) found rs
     \<and> handle cfg uri (Some 5) (Some ''info'') by args w = (Inr (if max_rpc_results (limits cfg) < int (length found)
          then Rpc_Error (Some 5) ''Too many package results.'' else Rpc_Results (Some 5) ''multiinfo'' rs), w)"
proof -
  let ?d = "the_db w"
  let ?found = "filter (\<lambda>p. pk_Name p \<in> set args) (Packages ?d)"
  let ?rows = "map (package_entity ?d) ?found"
  let ?rs = "map (get_info_json_data uri (now w) ?d (extra_records ?d (map pk_ID ?found))) ?rows"
  have info: "info_of uri (now w) ?d p (get_info_json_data uri (now w) ?d (extra_records ?d (map pk_ID ?found)) (package_entity ?d p))"
    if "p \<in> set ?found" for p
    using that listed_related [OF wf, of p "map pk_ID ?found"] open_requests_pending [OF wf, of p]
    by (simp add: info_of_def get_info_json_data_def package_entity_def fun_eq_iff)
  then have "list_all2 (info_of uri (now w) ?d) ?found ?rs"
    by (simp add: list_all2_map2 list_all2_same del: set_filter)
  moreover have "handle cfg uri (Some 5) (Some ''info'') by args w = (Inr (if max_rpc_results (limits cfg) < int (length ?found)
      then Rpc_Error (Some 5) ''Too many package results.'' else Rpc_Results (Some 5) ''multiinfo'' ?rs), w)"
  proof (rule run_eqI)
    have many: "max_rpc_results (limits cfg) < int (length (limit_results cfg ?rows)) \<longleftrightarrow> max_rpc_results (limits cfg) < int (length ?found)"
      by (simp only: limit_exceeded length_map)
    have few: "limit_results cfg ?rows = ?rows" if "\<not> max_rpc_results (limits cfg) < int (length ?found)"
      using that by (intro limit_all) simp
    have ids: "map (rp_ID \<circ> package_entity ?d) ps = map pk_ID ps" for ps
      by (simp add: package_entity_def)
    show "wp (handle cfg uri (Some 5) (Some ''info'') by args) (\<lambda>x w'. Inr x = Inr (if max_rpc_results (limits cfg) < int (length ?found)
        then Rpc_Error (Some 5) ''Too many package results.'' else Rpc_Results (Some 5) ''multiinfo'' ?rs) \<and> w' = w) E w" for E
      unfolding handle_def Let_def option.map option.sel exposed_search
      apply (rule wp_or_error_Some)
      unfolding wp_seqp verify_ok [OF exposed_search(2) field] handle_callback_def handle_multiinfo_def enforce_args_def
        wp_if if_P [OF refl] wp_andthen wp_whenp wp_query wp_utcnow too_many_def info_rows [OF wf] many
      using few args by (simp add: wp_simps ids)
  qed
  ultimately show ?thesis
    unfolding Let_def by blast
qed

text \<open>Both on the demonstration site: a search by name, and a request for a package.\<close>

theorem rpc_search_exact_witness:
  "\<exists>ps. distinct ps \<and> set ps = {p \<in> set (Packages demo_db). rpc_fits demo_db ''n'' ''fo'' p}
     \<and> snd (handle default_config ([], []) (Some 5) (Some ''search'') ''name'' [''fo''] demo_world) = demo_world"
proof -
  have known: "''name'' \<in> set EXPOSED_BYS" "canonical BY_ALIASES ''name'' = ''n''"
    by (simp_all add: EXPOSED_BYS_def canonical_def BY_ALIASES_def)
  show ?thesis
    using rpc_search_exact [of demo_world "''name''" "[''fo'']" default_config "([], [])"] demo_wf demo_zero known by auto
qed

theorem rpc_info_exact_witness:
  "\<exists>rs. list_all2 (info_of ([], []) 1000 demo_db) (Packages demo_db) rs
     \<and> snd (handle default_config ([], []) (Some 5) (Some ''info'') ''name-desc'' [''foo''] demo_world) = demo_world"
proof -
  have known: "''name-desc'' \<in> set EXPOSED_BYS" "filter (\<lambda>p. pk_Name p \<in> set [''foo'']) (Packages demo_db) = Packages demo_db"
    by (simp_all add: EXPOSED_BYS_def demo_db_def)
  show ?thesis
    using rpc_info_exact [of demo_world "''name-desc''" "[''foo'']" "([], [])" default_config] demo_wf known(1)
    unfolding Let_def demo_the_db known(2) by auto
qed

end
