(* ===== verification/Rpc_Routes.thy ===== *)
theory Rpc_Routes
  imports Rpc Web
begin

text \<open>
  The routes of the RPC interface: \<open>aurweb/routers/rpc.py\<close>. How a result is written as JSON
  (\<open>orjson.dumps\<close>) and the MD5 digest are parameters of the model.
\<close>

section \<open>The query string\<close>

text \<open>
  \<open>urllib.parse.unquote\<close>: the escapes are decoded to bytes and these, as UTF-8, to characters. None
  stands for a text with a character beyond 0xFF or with bytes that are not UTF-8, of which the model has no strings.
\<close>

definition hex_value :: "char \<Rightarrow> nat option" where
  "hex_value c = (if is_digit c then Some (digit_val c)
     else if CHR ''a'' \<le> c \<and> c \<le> CHR ''f'' then Some (of_char c - 87)
     else if CHR ''A'' \<le> c \<and> c \<le> CHR ''F'' then Some (of_char c - 55)
     else None)"

fun unquote_to_bytes :: "string \<Rightarrow> nat list" where
  "unquote_to_bytes [] = []"
| "unquote_to_bytes (c # cs) =
     (case (c = CHR ''%'', cs) of
        (True, h # l # rest) \<Rightarrow> (case (hex_value h, hex_value l) of
            (Some x, Some y) \<Rightarrow> (16 * x + y) # unquote_to_bytes rest
          | _ \<Rightarrow> of_char c # unquote_to_bytes cs)
      | _ \<Rightarrow> of_char c # unquote_to_bytes cs)"

fun utf8_decode :: "nat list \<Rightarrow> string option" where
  "utf8_decode [] = Some []"
| "utf8_decode (b # bs) =
     (if b < 128 then map_option (\<lambda>s. char_of b # s) (utf8_decode bs)
      else (case bs of [] \<Rightarrow> None
        | c # cs \<Rightarrow> if (b = 194 \<or> b = 195) \<and> 128 \<le> c \<and> c < 192
            then map_option (\<lambda>s. char_of ((b - 192) * 64 + (c - 128)) # s) (utf8_decode cs) else None))"

text \<open>The raw query string is ASCII.\<close>

definition unquote :: "string \<Rightarrow> string option" where
  "unquote s = utf8_decode (unquote_to_bytes s)"

record http_request = request +
  rq_query :: string
  rq_if_none_match :: "string option"

text \<open>\<open>e.split("=", 1)\<close>.\<close>

definition split_once :: "char \<Rightarrow> string \<Rightarrow> string \<times> string" where
  "split_once c s = (takeWhile (\<lambda>x. x \<noteq> c) s, drop 1 (dropWhile (\<lambda>x. x \<noteq> c) s))"

text \<open>\<open>rq_query\<close> is the query string that \<open>unquote\<close> has decoded.\<close>

definition query_parts :: "string \<Rightarrow> (string \<times> string) list" where
  "query_parts q = map (split_once (CHR ''=''))
     (filter (\<lambda>e. startswith e ''arg='' \<or> startswith e ''arg[]='') (rev (split_on (CHR ''&'') q)))"

definition parse_args :: "string \<Rightarrow> string list" where
  "parse_args q = (let parts = query_parts q in
     if parts = [] then []
     else let last = fst (hd parts) in
       if last = ''arg'' then [snd (hd parts)]
       else map snd (takeWhile (\<lambda>(k, v). k = last) parts))"

section \<open>The request\<close>

definition jsonp_char :: "char \<Rightarrow> bool" where
  "jsonp_char c \<longleftrightarrow> is_alnum c \<or> c \<in> set ''()_.''"

definition JSONP_EXPR :: "string \<Rightarrow> bool" where
  "JSONP_EXPR = re_dollar (\<lambda>s. 1 \<le> length s \<and> length s \<le> 128 \<and> list_all jsonp_char s)"

text \<open>
  The answers: the documentation, data written as JSON with a status, a body with its content type and its ETag,
  and "not modified", with the same headers.
\<close>

datatype rpc_response =
    Rpc_Documentation
  | Rpc_Json nat rpc_data
  | Rpc_Content string string string
  | Rpc_Not_Modified string string

definition strip_quotes :: "string \<Rightarrow> string" where
  "strip_quotes s = (let p = (\<lambda>c. c \<in> set [CHR 0x09, CHR 0x0A, CHR 0x0D, CHR 0x22, CHR '' '']) in
     rev (dropWhile p (rev (dropWhile p s))))"

definition quoted :: "string \<Rightarrow> string" where
  "quoted s = CHR 0x22 # s @ [CHR 0x22]"

definition get_arguments :: "string \<Rightarrow> string option \<Rightarrow> string list \<Rightarrow> string list" where
  "get_arguments q arg args = (if q \<noteq> [] then parse_args q
     else (case arg of None \<Rightarrow> [] | Some a \<Rightarrow> if a = [] then [] else [a]) @ args)"

text \<open>The part after the data: its JSON, or the call of the callback with it.\<close>

definition rpc_respond :: "(rpc_data \<Rightarrow> string) \<Rightarrow> (string \<Rightarrow> string) \<Rightarrow> string option \<Rightarrow> string option \<Rightarrow> rpc_data \<Rightarrow> rpc_response" where
  "rpc_respond dumps md5 if_none_match callback data =
     (let content = dumps data; etag = md5 content;
          content_type = (if callback = None then ''application/json'' else ''text/javascript'') in
      case if_none_match of
        Some h \<Rightarrow> if h \<noteq> [] \<and> strip_quotes h = etag then Rpc_Not_Modified content_type (quoted etag)
          else Rpc_Content content_type (quoted etag) (case callback of None \<Rightarrow> content | Some c \<Rightarrow> ''/**/'' @ c @ ''('' @ content @ '')'')
      | None \<Rightarrow> Rpc_Content content_type (quoted etag) (case callback of None \<Rightarrow> content | Some c \<Rightarrow> ''/**/'' @ c @ ''('' @ content @ '')''))"

definition truthy :: "string option \<Rightarrow> string option" where
  "truthy s = (if s = Some [] then None else s)"

text \<open>The settings of the site that the interface uses.\<close>

record rpc_site =
  rs_config :: config
  rs_cache :: bool
  rs_uri :: snapshot_uri
  rs_dumps :: "rpc_data \<Rightarrow> string"
  rs_md5 :: "string \<Rightarrow> string"

definition rpc_request :: "rpc_site \<Rightarrow> http_request \<Rightarrow> int option \<Rightarrow> string option \<Rightarrow> string \<Rightarrow> string option \<Rightarrow> string list
    \<Rightarrow> string option \<Rightarrow> rpc_response aur" where
  "rpc_request S rq v type by arg args callback =
     andthen (check_ratelimit (rs_config S) (rs_cache S) (rq_ip rq)) (\<lambda>limited.
     if limited then ret (Rpc_Json 429 (Rpc_Error v ''Rate limit reached''))
     else (case truthy callback of
         Some c \<Rightarrow> if \<not> JSONP_EXPR c then ret (Rpc_Json 200 (Rpc_Error v ''Invalid callback name.''))
           else andthen (handle (rs_config S) (rs_uri S) v type by (get_arguments (rq_query rq) arg args)) (\<lambda>data.
             ret (rpc_respond (rs_dumps S) (rs_md5 S) (rq_if_none_match rq) (Some c) data))
       | None \<Rightarrow> andthen (handle (rs_config S) (rs_uri S) v type by (get_arguments (rq_query rq) arg args)) (\<lambda>data.
           ret (rpc_respond (rs_dumps S) (rs_md5 S) (rq_if_none_match rq) None data))))"

section \<open>The routes\<close>

definition RPC_SEARCH_BY :: string where
  "RPC_SEARCH_BY = ''name-desc''"

definition or_default :: "string option \<Rightarrow> string" where
  "or_default by = (case by of None \<Rightarrow> RPC_SEARCH_BY | Some b \<Rightarrow> b)"

definition rpc :: "rpc_site \<Rightarrow> http_request \<Rightarrow> int option \<Rightarrow> string option \<Rightarrow> string option \<Rightarrow> string option \<Rightarrow> string list
    \<Rightarrow> string option \<Rightarrow> rpc_response aur" where
  "rpc S rq v type by arg args callback =
     (if rq_query rq = [] then ret Rpc_Documentation else rpc_request S rq v type (or_default by) arg args callback)"

definition rpc_post :: "rpc_site \<Rightarrow> http_request \<Rightarrow> int option \<Rightarrow> string option \<Rightarrow> string option \<Rightarrow> string option \<Rightarrow> string list
    \<Rightarrow> string option \<Rightarrow> rpc_response aur" where
  "rpc_post S rq v type by arg args callback = rpc_request S rq v type (or_default by) arg args callback"

definition rpc_openapi_info :: "rpc_site \<Rightarrow> http_request \<Rightarrow> int \<Rightarrow> string \<Rightarrow> rpc_response aur" where
  "rpc_openapi_info S rq version name = rpc_request S rq (Some version) (Some ''info'') RPC_SEARCH_BY (Some name) [] None"

definition pop_first :: "string list \<Rightarrow> string option" where
  "pop_first args = (if args = [] then None else Some (hd args))"

definition rpc_openapi_multiinfo :: "rpc_site \<Rightarrow> http_request \<Rightarrow> int \<Rightarrow> string list \<Rightarrow> rpc_response aur" where
  "rpc_openapi_multiinfo S rq version args =
     rpc_request S rq (Some version) (Some ''info'') RPC_SEARCH_BY (pop_first args) (tl args) None"

text \<open>The values of a JSON body; of lists, those of strings.\<close>

datatype json = J_String string | J_Strings "string list" | J_Other

definition rpc_openapi_multiinfo_post :: "rpc_site \<Rightarrow> http_request \<Rightarrow> int \<Rightarrow> json option \<Rightarrow> rpc_response aur" where
  "rpc_openapi_multiinfo_post S rq version arg =
     (case (case arg of None \<Rightarrow> J_Strings [] | Some j \<Rightarrow> j) of
        J_Strings args \<Rightarrow> rpc_request S rq (Some version) (Some ''info'') RPC_SEARCH_BY (pop_first args) (tl args) None
      | _ \<Rightarrow> ret (Rpc_Json 400 (Rpc_Error (Some version) ''the 'arg' parameter must be of array type'')))"

definition rpc_openapi_search_arg :: "rpc_site \<Rightarrow> http_request \<Rightarrow> int \<Rightarrow> string \<Rightarrow> string option \<Rightarrow> rpc_response aur" where
  "rpc_openapi_search_arg S rq version arg by =
     rpc_request S rq (Some version) (Some ''search'') (or_default by) (Some arg) [] None"

definition rpc_openapi_search :: "rpc_site \<Rightarrow> http_request \<Rightarrow> int \<Rightarrow> string option \<Rightarrow> string option \<Rightarrow> rpc_response aur" where
  "rpc_openapi_search S rq version arg by =
     rpc_request S rq (Some version) (Some ''search'') (or_default by) (Some (case arg of None \<Rightarrow> [] | Some a \<Rightarrow> a)) [] None"

definition rpc_openapi_search_post :: "rpc_site \<Rightarrow> http_request \<Rightarrow> int \<Rightarrow> json option \<Rightarrow> json option \<Rightarrow> rpc_response aur" where
  "rpc_openapi_search_post S rq version by arg =
     (case (case by of None \<Rightarrow> J_String RPC_SEARCH_BY | Some j \<Rightarrow> j) of
        J_String b \<Rightarrow> (case (case arg of None \<Rightarrow> J_String [] | Some j \<Rightarrow> j) of
            J_String a \<Rightarrow> rpc_request S rq (Some version) (Some ''search'') b (Some a) [] None
          | _ \<Rightarrow> ret (Rpc_Json 400 (Rpc_Error (Some version) ''the 'arg' parameter must be of string type'')))
      | _ \<Rightarrow> ret (Rpc_Json 400 (Rpc_Error (Some version) ''the 'by' parameter must be of string type'')))"

definition rpc_openapi_suggest :: "rpc_site \<Rightarrow> http_request \<Rightarrow> int \<Rightarrow> string \<Rightarrow> rpc_response aur" where
  "rpc_openapi_suggest S rq version arg =
     rpc_request S rq (Some version) (Some ''suggest'') RPC_SEARCH_BY (Some arg) [] None"

section \<open>What is answered\<close>

text \<open>The interface reads the tables; only the counters of the rate limit change.\<close>

definition only_counters :: "world \<Rightarrow> world \<Rightarrow> bool" where
  "only_counters w w' \<longleftrightarrow> (\<exists>rows. the_db w' = (the_db w)\<lparr>ApiRateLimit := rows\<rparr>)"

lemma only_counters_refl: "only_counters w w"
  unfolding only_counters_def by (rule exI [of _ "ApiRateLimit (the_db w)"]) simp

lemma check_ratelimit_counts: "wp (check_ratelimit cfg cache host) (\<lambda>_. only_counters w) (\<lambda>_. only_counters w) w"
proof (cases cache)
  case True
  have "wp (update_ratelimit cfg cache host) (\<lambda>_ w'. the_db w' = the_db w) (\<lambda>_ _. False) w"
    using True by (auto simp: update_ratelimit_def update_ratelimit_redis_def redis_get_def redis_set_def redis_expire_def
        redis_incr_def wp_simps Let_def split: option.split)
  then have "wp (update_ratelimit cfg cache host) (\<lambda>_. only_counters w) (\<lambda>_. only_counters w) w"
    by (rule wp_mono) (simp_all add: only_counters_def, metis only_counters_def only_counters_refl)
  then show ?thesis
    unfolding check_ratelimit_def wp_andthen
    by (rule wp_mono) (auto simp: redis_get_def wp_simps split: option.split)
next
  case False
  have "wp (update_ratelimit cfg cache host) (\<lambda>_. only_counters w) (\<lambda>_. only_counters w) w"
    using False by (simp add: update_ratelimit_def update_ratelimit_db_def wp_simps wp_retry_execute Let_def only_counters_def, blast)
  then show ?thesis
    unfolding check_ratelimit_def wp_andthen
    by (rule wp_mono) (auto simp: redis_get_def wp_simps split: option.split)
qed

lemma handle_reads: "wp (handle cfg uri v type by args) (\<lambda>_ w'. w' = w) (\<lambda>_ w'. w' = w) w"
proof -
  have callback: "wp (handle_callback cfg uri v ty fld args) (\<lambda>_ w'. w' = w) (\<lambda>_ w'. w' = w) w" for ty fld
    unfolding handle_callback_def handle_multiinfo_def handle_search_def handle_msearch_def handle_suggest_def
      handle_suggest_pkgbase_def enforce_args_def too_many_def Let_def
    by (simp add: wp_simps split: option.split)
  have "wp (verify_inputs v ty by) (\<lambda>_ w'. w' = w) (\<lambda>_ w'. w' = w) w" for ty
    by (simp add: verify_inputs_def wp_simps)
  then have "wp (seqp (verify_inputs v ty by) (handle_callback cfg uri v (the ty) fld args)) (\<lambda>_ w'. w' = w) (\<lambda>_ w'. w' = w) w"
    for ty fld
    unfolding wp_seqp by (rule wp_mono) (use callback in auto)
  then show ?thesis
    unfolding handle_def Let_def or_error_def wp_catch
    by (rule wp_mono) (auto simp: wp_simps split: exn.split aurweb_exception.split)
qed

text \<open>The name of a callback: 1 to 128 characters, none of which can start another statement, and perhaps a newline.\<close>

definition callback_name :: "string \<Rightarrow> bool" where
  "callback_name c \<longleftrightarrow> (\<exists>b t. c = b @ t \<and> b \<noteq> [] \<and> length b \<le> 128 \<and> (\<forall>x \<in> set b. is_alnum x \<or> x \<in> set ''()_.'')
     \<and> (t = [] \<or> t = [nl]))"

lemma JSONP_callback_name:
  assumes "JSONP_EXPR c"
  shows "callback_name c"
proof -
  have name: "callback_name (b @ t)" if "1 \<le> length b" "length b \<le> 128" "list_all jsonp_char b" "t = [] \<or> t = [nl]" for b t
    unfolding callback_name_def by (rule exI [of _ b], rule exI [of _ t]) (use that in \<open>auto simp: list_all_iff jsonp_char_def\<close>)
  from assms consider "1 \<le> length c" "length c \<le> 128" "list_all jsonp_char c"
    | b where "c = b @ [nl]" "1 \<le> length b" "length b \<le> 128" "list_all jsonp_char b"
    unfolding JSONP_EXPR_def re_dollar_def by (metis append_butlast_last_id)
  then show ?thesis
    by cases (use name [of c "[]"] name in auto)
qed

text \<open>What may be answered with the data \<open>data\<close>; \<open>tag\<close> is the tag that the client holds.\<close>

definition held_tag :: "http_request \<Rightarrow> string option" where
  "held_tag rq = map_option strip_quotes (truthy (rq_if_none_match rq))"

definition answers_data :: "rpc_site \<Rightarrow> http_request \<Rightarrow> string option \<Rightarrow> rpc_data \<Rightarrow> rpc_response \<Rightarrow> bool" where
  "answers_data S rq callback data resp \<longleftrightarrow> (let content = rs_dumps S data; etag = rs_md5 S content in
     case resp of
       Rpc_Not_Modified ct tag \<Rightarrow> tag = quoted etag \<and> held_tag rq = Some etag
     | Rpc_Content ct tag body \<Rightarrow> tag = quoted etag \<and> held_tag rq \<noteq> Some etag \<and>
         (ct = ''application/json'' \<and> body = content \<or>
          ct = ''text/javascript'' \<and> (\<exists>c. callback = Some c \<and> callback_name c \<and> body = ''/**/'' @ c @ ''('' @ content @ '')''))
     | _ \<Rightarrow> False)"

lemma respond_answers:
  assumes "callback = None \<or> (\<exists>c. callback = Some c \<and> JSONP_EXPR c \<and> callback' = Some c)"
  shows "answers_data S rq callback' data (rpc_respond (rs_dumps S) (rs_md5 S) (rq_if_none_match rq) callback data)"
  using assms JSONP_callback_name
  by (auto simp: answers_data_def rpc_respond_def held_tag_def truthy_def Let_def split: option.split if_splits)

text \<open>
  C31. A request to the RPC interface changes nothing but the counters of the rate limit, and answers with an error
  for a client that is limited or a callback that is not a name, otherwise with what the interface answers to its
  arguments: as JSON, as the call of a callback whose name is made of harmless characters, or, if
  and only if the client holds the ETag of this answer, without a body.
\<close>

theorem rpc_request_answers:
  assumes run: "rpc_request S rq v ty fld arg args callback w = (Inr resp, w')"
  shows "only_counters w w' \<and>
    (resp = Rpc_Json 429 (Rpc_Error v ''Rate limit reached'') \<or> resp = Rpc_Json 200 (Rpc_Error v ''Invalid callback name.'') \<or>
     (\<exists>data. handle (rs_config S) (rs_uri S) v ty fld (get_arguments (rq_query rq) arg args) w' = (Inr data, w')
       \<and> answers_data S rq callback data resp))"
proof -
  let ?handle = "handle (rs_config S) (rs_uri S) v ty fld (get_arguments (rq_query rq) arg args)"
  let ?Q = "\<lambda>resp w'. only_counters w w' \<and>
    (resp = Rpc_Json 429 (Rpc_Error v ''Rate limit reached'') \<or> resp = Rpc_Json 200 (Rpc_Error v ''Invalid callback name.'') \<or>
     (\<exists>data. ?handle w' = (Inr data, w') \<and> answers_data S rq callback data resp))"
  have data: "wp (andthen ?handle (\<lambda>data. ret (rpc_respond (rs_dumps S) (rs_md5 S) (rq_if_none_match rq) c data))) ?Q (\<lambda>_ _. True) w1"
    if w1: "only_counters w w1" and c: "c = None \<or> (\<exists>c'. c = Some c' \<and> JSONP_EXPR c' \<and> callback = Some c')" for c w1
  proof (cases "?handle w1")
    case (Pair r w2)
    show ?thesis
    proof (cases r)
      case (Inr data)
      with Pair have run: "?handle w1 = (Inr data, w2)" by simp
      have "w2 = w1"
        using handle_reads [of "rs_config S" "rs_uri S" v ty fld _ w1] wp_of_Inr [where m = ?handle, OF run] by metis
      with run w1 respond_answers [OF c] show ?thesis
        by (simp only: wp_andthen wp_ret wp_of_Inr [where m = ?handle, OF run]) blast
    next
      case (Inl e)
      with Pair show ?thesis by (simp add: wp_andthen wp_of_Inl)
    qed
  qed
  have "wp (rpc_request S rq v ty fld arg args callback) ?Q (\<lambda>_ _. True) w"
    unfolding rpc_request_def wp_andthen
  proof (rule wp_mono [OF check_ratelimit_counts])
    fix limited w1
    assume w1: "only_counters w w1"
    have callback: "truthy callback = None \<or> truthy callback = callback"
      by (simp add: truthy_def)
    show "wp (if limited then ret (Rpc_Json 429 (Rpc_Error v ''Rate limit reached''))
       else (case truthy callback of
         Some c \<Rightarrow> if \<not> JSONP_EXPR c then ret (Rpc_Json 200 (Rpc_Error v ''Invalid callback name.''))
           else andthen ?handle (\<lambda>data. ret (rpc_respond (rs_dumps S) (rs_md5 S) (rq_if_none_match rq) (Some c) data))
       | None \<Rightarrow> andthen ?handle (\<lambda>data. ret (rpc_respond (rs_dumps S) (rs_md5 S) (rq_if_none_match rq) None data))))
       ?Q (\<lambda>_ _. True) w1"
    proof (cases "truthy callback")
      case None
      then show ?thesis
        using w1 data [OF w1 disjI1 [OF refl]] by (simp only: wp_if wp_ret option.case simp_thms if_True if_False split: if_split)
    next
      case (Some c)
      with callback have "callback = Some c" by simp
      with Some show ?thesis
        using w1 data [OF w1, of "Some c"] by (cases "JSONP_EXPR c") (simp_all only: wp_if wp_ret option.case option.inject
          simp_thms if_True if_False split: if_split)
    qed
  qed simp
  then show ?thesis
    by (simp only: wp_of_Inr [where m = "rpc_request S rq v ty fld arg args callback", OF run])
qed

text \<open>
  Two consequences of how the arguments are read. A route with the argument in its path ignores it as soon as the
  request has a query string; and an escaped ampersand ends an argument, because the query
  string is decoded before it is split.
\<close>

lemma path_argument_ignored:
  assumes "rq_query rq \<noteq> []"
  shows "rpc_openapi_search_arg S rq version arg fld = rpc_openapi_search_arg S rq version arg' fld"
proof -
  have "get_arguments (rq_query rq) (Some arg) [] = get_arguments (rq_query rq) (Some arg') []"
    using assms by (simp add: get_arguments_def)
  then show ?thesis
    by (simp only: rpc_openapi_search_arg_def rpc_request_def)
qed

lemma path_argument_lost: "parse_args ''by=maintainer'' = []"
  by code_simp

lemma escaped_ampersand: "map_option parse_args (unquote ''arg=salt%26pepper'') = Some [''salt'']"
  by code_simp

lemma last_arg_wins: "parse_args ''arg[]=a&arg=b&arg[]=c&arg[]=d'' = [''d'', ''c'']" "parse_args ''arg[]=a&arg=b'' = [''b'']"
  by code_simp+

definition plain_site :: rpc_site where
  "plain_site = \<lparr>rs_config = default_config, rs_cache = False, rs_uri = ([], []), rs_dumps = (\<lambda>_. ''{}''), rs_md5 = (\<lambda>_. ''d41d'')\<rparr>"

definition suggest_request :: http_request where
  "suggest_request = \<lparr>rq_user = AnonymousUser, rq_get = True, rq_path = ''/rpc'', rq_referer = None, rq_ip = ''10.0.0.1'',
     rq_query = ''v=5&type=suggest&arg=fo&callback=show'', rq_if_none_match = None\<rparr>"

definition suggest_route :: "rpc_response aur" where
  "suggest_route = rpc_request plain_site suggest_request (Some 5) (Some ''suggest'') ''name-desc'' (Some ''fo'') [] (Some ''show'')"

lemma suggest_answer: "fst (suggest_route demo_world) = Inr (Rpc_Content ''text/javascript'' (quoted ''d41d'') ''/**/show({})'')"
  by code_simp

theorem rpc_request_answers_witness:
  "only_counters demo_world (snd (suggest_route demo_world)) \<and>
   (\<exists>data. handle default_config ([], []) (Some 5) (Some ''suggest'') ''name-desc'' [''fo''] (snd (suggest_route demo_world))
      = (Inr data, snd (suggest_route demo_world)))"
proof -
  have run: "rpc_request plain_site suggest_request (Some 5) (Some ''suggest'') ''name-desc'' (Some ''fo'') [] (Some ''show'') demo_world
      = (Inr (Rpc_Content ''text/javascript'' (quoted ''d41d'') ''/**/show({})''), snd (suggest_route demo_world))"
    unfolding suggest_answer [symmetric] suggest_route_def by (rule prod.collapse [symmetric])
  have arguments: "get_arguments (rq_query suggest_request) (Some ''fo'') [] = [''fo'']" "rs_config plain_site = default_config"
    "rs_uri plain_site = ([], [])"
    by code_simp (simp_all add: plain_site_def)
  show ?thesis
    using rpc_request_answers [OF run] unfolding arguments by (simp only: rpc_response.distinct) blast
qed

end
