(* ===== verification/Package_Routes.thy ===== *)
theory Package_Routes
  imports Packages_Search Pkgbase_Actions
begin

text \<open>
  The list of packages and the actions on the packages selected in it, \<open>aurweb/routers/packages.py\<close>. The
  results of the queries are those of a site whose caches are empty.
\<close>

section \<open>The list\<close>

text \<open>The query parameters; a parameter that is not given is None, and so is a number that does not parse.\<close>

record packages_query =
  k_O :: "int option"
  k_PP :: "int option"
  k_SeB :: "string option"
  k_SB :: "string option"
  k_SO :: "string option"
  k_K :: "string option"
  k_outdated :: "string option"
  k_submit :: "string option"

definition given :: "string \<Rightarrow> string option \<Rightarrow> string" where
  "given dflt x = (case x of None \<Rightarrow> dflt | Some s \<Rightarrow> s)"

definition search_words :: "db \<Rightarrow> string \<Rightarrow> string \<Rightarrow> search_state \<Rightarrow> search_state" where
  "search_words d by keywords s =
     (if by \<in> {''m'', ''c'', ''M'', ''s''} then search_by d by (strip keywords) s
      else if by = ''k'' then search_by_keywords d (split_on (CHR '' '') keywords) s
      else fold (search_by d by) (split_on (CHR '' '') keywords) s)"

definition filter_outdated :: "string \<Rightarrow> search_state \<Rightarrow> search_state" where
  "filter_outdated flagged s = (if flagged = [] then s
     else if flagged = ''on'' then where_rows (\<lambda>r. pb_OutOfDateTS (j_base r) \<noteq> None) s
     else where_rows (\<lambda>r. pb_OutOfDateTS (j_base r) = None) s)"

definition filter_orphans :: "string \<Rightarrow> search_state \<Rightarrow> search_state" where
  "filter_orphans submit s = (if submit = ''Orphans'' then where_rows (\<lambda>r. pb_MaintainerUID (j_base r) = None) s else s)"

definition packages_search :: "packages_query \<Rightarrow> requester \<Rightarrow> db \<Rightarrow> search_state" where
  "packages_search q user d = filter_orphans (given ''Go'' (k_submit q)) (filter_outdated (given [] (k_outdated q))
     (search_words d (given ''nd'' (k_SeB q)) (given [] (k_K q)) (package_search d (Some (ru_ID user)))))"

text \<open>\<open>LIMIT\<close> and \<open>OFFSET\<close>; a negative limit is none.\<close>

definition limit_offset :: "int \<Rightarrow> nat \<Rightarrow> 'a list \<Rightarrow> 'a list" where
  "limit_offset n off xs = (if n < 0 then drop off xs else take (nat n) (drop off xs))"

record packages_page =
  pp_status :: nat
  pp_errors :: "string list"
  pp_success :: "string list"
  pp_O :: nat
  pp_PP :: int
  pp_count :: nat
  pp_packages :: "joined list"

definition packages_get :: "config \<Rightarrow> packages_query \<Rightarrow> requester \<Rightarrow> nat \<Rightarrow> string list \<Rightarrow> string list \<Rightarrow> packages_page aur" where
  "packages_get cfg q user status errors success =
     (let (off, per_page) = sanitize_params (k_O q) (k_PP q);
          per_page = min (int per_page) (max_search_results (limits cfg)) in
      query (\<lambda>d. let search = packages_search q user d in
        \<lparr>pp_status = status, pp_errors = errors, pp_success = success, pp_O = off, pp_PP = per_page,
          pp_count = length (ps_rows search),
          pp_packages = limit_offset per_page off (ps_rows (sort_by (k_SB q) (k_SO q) (ru_ID user) search))\<rparr>))"

definition packages :: "config \<Rightarrow> packages_query \<Rightarrow> requester \<Rightarrow> packages_page aur" where
  "packages cfg q user = packages_get cfg q user 200 [] []"

section \<open>Actions on selected packages\<close>

text \<open>
  The package bases of the packages are a set of objects, which is run through in an order that nothing fixes:
  \<open>arrange\<close>. Each package base comes once.
\<close>

type_synonym arrange = "packagebases_row list \<Rightarrow> packagebases_row list"

definition selected :: "nat list \<Rightarrow> db \<Rightarrow> packages_row list" where
  "selected ids d = filter (\<lambda>p. pk_ID p \<in> set ids) (Packages d)"

definition bases_of :: "packages_row list \<Rightarrow> db \<Rightarrow> packagebases_row list" where
  "bases_of ps d = remdups (concat (map (\<lambda>p. filter (\<lambda>b. pb_ID b = pk_PackageBaseID p) (PackageBases d)) ps))"

definition selected_bases :: "arrange \<Rightarrow> nat list \<Rightarrow> db \<Rightarrow> packagebases_row list" where
  "selected_bases arrange ids d = arrange (bases_of (selected ids d) d)"

definition packages_unflag :: "arrange \<Rightarrow> users_row \<Rightarrow> nat list \<Rightarrow> (bool \<times> string list) aur" where
  "packages_unflag arrange user ids =
     (if ids = [] then ret (False, [''You did not select any packages to unflag.''])
      else andthen (query (\<lambda>d. list_all (\<lambda>p. has_credential (LoggedIn user) PKGBASE_UNFLAG
             [flagger_of (pk_PackageBaseID p) d]) (selected ids d))) (\<lambda>has_cred.
        if \<not> has_cred then ret (False, [''You did not select any packages to unflag.''])
        else andthen (query (selected_bases arrange ids)) (\<lambda>bases.
          seqp (for_each bases (pkgbase_unflag_instance user))
            (ret (True, [''The selected packages have been unflagged.''])))))"

definition is_notified :: "users_row \<Rightarrow> packagebases_row \<Rightarrow> db \<Rightarrow> bool" where
  "is_notified user b d = list_ex (notification_of (u_ID user) (pb_ID b)) (PackageNotifications d)"

definition packages_notify :: "arrange \<Rightarrow> users_row \<Rightarrow> nat list \<Rightarrow> (bool \<times> string list) aur" where
  "packages_notify arrange user ids =
     (let error_tuple = (False, [''You did not select any packages to be is_notified about.'']) in
      if ids = [] then ret error_tuple
      else andthen (query (selected_bases arrange ids)) (\<lambda>bases.
        andthen (query (\<lambda>d. list_all (\<lambda>b. has_credential (LoggedIn user) PKGBASE_NOTIFY [] \<and> \<not> is_notified user b d) bases)) (\<lambda>ok.
        if \<not> ok then ret error_tuple
        else seqp (for_each bases (pkgbase_notify_instance user))
          (ret (True, [''The selected packages' notifications have been enabled.''])))))"

definition packages_unnotify :: "arrange \<Rightarrow> users_row \<Rightarrow> nat list \<Rightarrow> (bool \<times> string list) aur" where
  "packages_unnotify arrange user ids =
     (if ids = [] then ret (False, [''You did not select any packages for notification removal.''])
      else andthen (query (selected_bases arrange ids)) (\<lambda>bases.
        andthen (query (\<lambda>d. list_all (\<lambda>b. is_notified user b d) bases)) (\<lambda>ok.
        if \<not> ok then ret (False, [''A package you selected does not have notifications enabled.''])
        else seqp (for_each bases (pkgbase_unnotify_instance user))
          (ret (True, [''The selected packages' notifications have been removed.''])))))"

definition packages_adopt :: "config \<Rightarrow> arrange \<Rightarrow> users_row \<Rightarrow> nat list \<Rightarrow> bool \<Rightarrow> (bool \<times> string list) aur" where
  "packages_adopt cfg arrange user ids confirm =
     (if ids = [] then ret (False, [''You did not select any packages to adopt.''])
      else if \<not> confirm then ret (False, [''The selected packages have not been adopted, check the confirmation checkbox.''])
      else andthen (query (selected_bases arrange ids)) (\<lambda>bases.
        andthen (query (\<lambda>d. list_all (\<lambda>b. has_credential (LoggedIn user) PKGBASE_ADOPT [] \<or> maintainer_of (pb_ID b) d = None) bases)) (\<lambda>ok.
        if \<not> ok then ret (False, [''You are not allowed to adopt one of the packages you selected.''])
        else seqp (for_each bases (\<lambda>b. pkgbase_adopt_instance cfg user b None))
          (if has_credential (LoggedIn user) PKGBASE_ADOPT [] then ret (True, [''The selected packages have been adopted.''])
           else ret (True, [''Adoption requests have been filed for the selected packages.''])))))"

fun disown_all :: "config \<Rightarrow> users_row \<Rightarrow> packagebases_row list \<Rightarrow> string list aur" where
  "disown_all cfg user [] = ret []"
| "disown_all cfg user (b # bs) =
     andthen (catch (seqp (pkgbase_disown_instance cfg user b) (ret []))
       (\<lambda>e. case e of Aurweb (InvariantError msg) \<Rightarrow> ret [msg] | _ \<Rightarrow> throw e)) (\<lambda>errors.
     andthen (disown_all cfg user bs) (\<lambda>more. ret (errors @ more)))"

definition packages_disown :: "config \<Rightarrow> arrange \<Rightarrow> users_row \<Rightarrow> nat list \<Rightarrow> bool \<Rightarrow> (bool \<times> string list) aur" where
  "packages_disown cfg arrange user ids confirm =
     (if ids = [] then ret (False, [''You did not select any packages to disown.''])
      else if \<not> confirm then ret (False, [''The selected packages have not been disowned, check the confirmation checkbox.''])
      else andthen (query (selected_bases arrange ids)) (\<lambda>bases.
        andthen (query (\<lambda>d. list_all (\<lambda>b. has_credential (LoggedIn user) PKGBASE_DISOWN [maintainer_of (pb_ID b) d]) bases)) (\<lambda>ok.
        if \<not> ok then ret (False, [''You are not allowed to disown one of the packages you selected.''])
        else andthen (disown_all cfg user bases) (\<lambda>errors.
          ret (if errors \<noteq> [] then (False, errors) else (True, [''The selected packages have been disowned.'']))))))"

definition packages_delete :: "config \<Rightarrow> arrange \<Rightarrow> users_row \<Rightarrow> nat list \<Rightarrow> bool \<Rightarrow> (bool \<times> string list) aur" where
  "packages_delete cfg arrange user ids confirm =
     (if ids = [] then ret (False, [''You did not select any packages to delete.''])
      else if \<not> confirm then ret (False, [''The selected packages have not been deleted, check the confirmation checkbox.''])
      else if \<not> has_credential (LoggedIn user) PKGBASE_DELETE [] then
        ret (False, [''You do not have permission to delete packages.''])
      else andthen (query (selected ids)) (\<lambda>packages.
        if length packages \<noteq> length (remdups ids) then ret (False, [''One of the packages you selected does not exist.''])
        else andthen (query (selected_bases arrange ids)) (\<lambda>bases.
          andthen (collect bases (\<lambda>b. pkgbase_delete_instance cfg user b [])) (\<lambda>notifs.
          seqp (for_each (concat notifs) send)
            (ret (True, [''The selected packages have been deleted.'']))))))"

type_synonym package_action = "users_row \<Rightarrow> nat list \<Rightarrow> bool \<Rightarrow> (bool \<times> string list) aur"

definition PACKAGE_ACTIONS :: "config \<Rightarrow> arrange \<Rightarrow> (string \<times> package_action) list" where
  "PACKAGE_ACTIONS cfg arrange =
     [(''unflag'', \<lambda>user ids confirm. packages_unflag arrange user ids),
      (''notify'', \<lambda>user ids confirm. packages_notify arrange user ids),
      (''unnotify'', \<lambda>user ids confirm. packages_unnotify arrange user ids),
      (''adopt'', packages_adopt cfg arrange), (''disown'', packages_disown cfg arrange),
      (''delete'', packages_delete cfg arrange)]"

definition packages_post_page :: "config \<Rightarrow> arrange \<Rightarrow> packages_query \<Rightarrow> users_row \<Rightarrow> nat list \<Rightarrow> string \<Rightarrow> bool \<Rightarrow> packages_page aur" where
  "packages_post_page cfg arrange q user ids action confirm =
     (case map_of (PACKAGE_ACTIONS cfg arrange) action of
        None \<Rightarrow> packages_get cfg q (LoggedIn user) 400 [] []
      | Some callback \<Rightarrow> andthen (callback user ids confirm) (\<lambda>(success, messages).
          if \<not> success then packages_get cfg q (LoggedIn user) 400 messages []
          else packages_get cfg q (LoggedIn user) 200 [] messages))"

text \<open>The page as a response: its status and what it reports.\<close>

definition render_packages :: "packages_page \<Rightarrow> response" where
  "render_packages p = Page (pp_status p) ''packages/index.html'' (pp_errors p @ pp_success p)"

definition packages_post :: "config \<Rightarrow> arrange \<Rightarrow> packages_query \<Rightarrow> request \<Rightarrow> nat list \<Rightarrow> string \<Rightarrow> bool \<Rightarrow> response aur" where
  "packages_post cfg arrange q rq ids action confirm = requires_auth cfg rq (\<lambda>user.
     andthen (packages_post_page cfg arrange q user ids action confirm) (\<lambda>p. ret (render_packages p)))"

section \<open>What an action leaves alone\<close>

text \<open>
  What lies outside of a set \<open>S\<close> of package bases and a set \<open>P\<close> of packages: every table but that of the requests,
  without the rows that belong to them.
\<close>

definition outside :: "nat set \<Rightarrow> nat set \<Rightarrow> db \<Rightarrow> db" where
  "outside S P d = d\<lparr>PackageRequests := [],
     PackageBases := filter (\<lambda>b. pb_ID b \<notin> S) (PackageBases d),
     PackageKeywords := filter (\<lambda>k. kw_PackageBaseID k \<notin> S) (PackageKeywords d),
     Packages := filter (\<lambda>p. pk_PackageBaseID p \<notin> S) (Packages d),
     PackageLicenses := filter (\<lambda>x. pl_PackageID x \<notin> P) (PackageLicenses d),
     PackageGroups := filter (\<lambda>x. pg_PackageID x \<notin> P) (PackageGroups d),
     PackageDepends := filter (\<lambda>x. pd_PackageID x \<notin> P) (PackageDepends d),
     PackageRelations := filter (\<lambda>x. rl_PackageID x \<notin> P) (PackageRelations d),
     PackageSources := filter (\<lambda>x. sr_PackageID x \<notin> P) (PackageSources d),
     PackageVotes := filter (\<lambda>v. pv_PackageBaseID v \<notin> S) (PackageVotes d),
     PackageComments := filter (\<lambda>c. pc_PackageBaseID c \<notin> S) (PackageComments d),
     PackageComaintainers := filter (\<lambda>c. cm_PackageBaseID c \<notin> S) (PackageComaintainers d),
     PackageNotifications := filter (\<lambda>n. pn_PackageBaseID n \<notin> S) (PackageNotifications d)\<rparr>"

definition apart :: "nat set \<Rightarrow> nat set \<Rightarrow> db \<Rightarrow> db \<Rightarrow> bool" where
  "apart S P X d \<longleftrightarrow> outside S P d = X \<and> (\<forall>p \<in> set (Packages d). pk_PackageBaseID p \<in> S \<longrightarrow> pk_ID p \<in> P)"

lemma filter_update_where:
  "(\<And>x. c x \<Longrightarrow> \<not> keep x \<and> \<not> keep (f x)) \<Longrightarrow> filter keep (update_where c f xs) = filter keep xs"
  by (induction xs) (auto simp: update_where_def)

lemma filter_delete_where: "(\<And>x. x \<in> set xs \<Longrightarrow> c x \<Longrightarrow> \<not> keep x) \<Longrightarrow> filter keep (delete_where c xs) = filter keep xs"
  by (induction xs) (auto simp: delete_where_def)

lemma apart_requests [simp]: "apart S P X (d\<lparr>PackageRequests := rs\<rparr>) = apart S P X d"
  by (simp add: apart_def outside_def)

lemma apart_update_base:
  assumes "i \<in> S" and "\<And>b. pb_ID (f b) = pb_ID b"
  shows "keeps (db_inv (apart S P X)) (update_base i f)"
proof -
  have "filter (\<lambda>b. pb_ID b \<notin> S) (update_where (\<lambda>b. pb_ID b = i) f bs) = filter (\<lambda>b. pb_ID b \<notin> S) bs" for bs
    using assms by (intro filter_update_where) auto
  then show ?thesis
    unfolding update_base_def by (intro db_inv_execute) (simp add: apart_def outside_def)
qed

lemma apart_only_requests:
  assumes "\<And>Y. keeps (db_inv (\<lambda>d. d\<lparr>PackageRequests := []\<rparr> = Y)) m"
  shows "keeps (db_inv (apart S P X)) m"
proof -
  have "apart S P X (the_db (snd (m w)))" if "apart S P X (the_db w)" for w
  proof -
    have "(the_db (snd (m w)))\<lparr>PackageRequests := []\<rparr> = (the_db w)\<lparr>PackageRequests := []\<rparr>"
      using assms [of "(the_db w)\<lparr>PackageRequests := []\<rparr>"] by (simp add: keeps_def db_inv_def)
    then show ?thesis
      using that by (metis apart_requests)
  qed
  then show ?thesis
    by (simp add: keeps_def db_inv_def)
qed

text \<open>A query whose results have a property, wherever it runs.\<close>

lemma keeps_query_any: "(\<And>d. keeps P (f (g d))) \<Longrightarrow> keeps P (andthen (query g) f)"
  by (simp add: keeps_def andthen_def query_def gets_def)

lemma apart_comaints:
  assumes "\<And>cs. filter (\<lambda>c. cm_PackageBaseID c \<notin> S) (f cs) = filter (\<lambda>c. cm_PackageBaseID c \<notin> S) cs"
  shows "keeps (db_inv (apart S P X)) (execute (\<lambda>d. d\<lparr>PackageComaintainers := f (PackageComaintainers d)\<rparr>))"
  by (intro db_inv_execute) (simp add: apart_def outside_def assms)

lemma apart_remove_comaintainer:
  assumes "cm_PackageBaseID c \<in> S"
  shows "keeps (db_inv (apart S P X)) (remove_comaintainer c)"
proof -
  have rotate: "keeps (db_inv (apart S P X)) (rotate_comaintainers i)" if "i \<in> S" for i
  proof -
    have loop: "keeps (db_inv (apart S P X)) (for_each xs (\<lambda>(n, comaint). execute (\<lambda>d. d\<lparr>PackageComaintainers :=
       update_where (same_comaint comaint) (\<lambda>c. c\<lparr>cm_Priority := n + 1\<rparr>) (PackageComaintainers d)\<rparr>)))"
      if "\<forall>x \<in> set xs. cm_PackageBaseID (snd x) \<in> S" for xs
      using that
    proof (induction xs)
      case (Cons x xs)
      then show ?case
        by (cases x) (auto intro!: keeps_seqp apart_comaints filter_update_where simp: same_comaint_def)
    qed (simp add: keeps_ret)
    have "\<forall>x \<in> set (enumerate 0 (by_priority i d)). cm_PackageBaseID (snd x) \<in> S" for d
    proof
      fix x assume "x \<in> set (enumerate 0 (by_priority i d))"
      then have "snd x \<in> set (by_priority i d)"
        by (metis enumerate_eq_zip prod.collapse set_zip_rightD)
      with that show "cm_PackageBaseID (snd x) \<in> S"
        by (simp add: by_priority_def comaintainers_def)
    qed
    then show ?thesis
      unfolding rotate_comaintainers_def by (intro keeps_query_any loop)
  qed
  show ?thesis
    unfolding remove_comaintainer_def delete_comaint_def
    by (intro keeps_seqp rotate keeps_ret apart_comaints filter_delete_where) (use assms in \<open>auto simp: same_comaint_def\<close>)
qed

lemma apart_handle_request: "keeps (db_inv (apart S P X)) (handle_request cfg u t b target comments ids)"
  by (intro apart_only_requests requests_only)

lemma apart_disown:
  assumes "pb_ID b \<in> S"
  shows "keeps (db_inv (apart S P X)) (pkgbase_disown_instance cfg user b)"
proof -
  have priority: "cm_PackageBaseID c \<in> S" if "c \<in> set (comaintainers (pb_ID b) d)" for c d
    using that assms by (simp add: comaintainers_def)
  have as_maintainer: "keeps (db_inv (apart S P X)) (disown_as_maintainer (pb_ID b))"
    unfolding disown_as_maintainer_def
  proof (intro db_inv_transaction keeps_query_any)
    fix d
    show "keeps (db_inv (apart S P X)) (case by_priority (pb_ID b) d of
         [] \<Rightarrow> seqp (update_base (pb_ID b) (\<lambda>b. b\<lparr>pb_MaintainerUID := None\<rparr>)) (ret [])
       | c # _ \<Rightarrow> seqp (update_base (pb_ID b) (\<lambda>b. b\<lparr>pb_MaintainerUID := Some (cm_UsersID c)\<rparr>))
           (andthen (remove_comaintainer c) (\<lambda>n. ret [n])))"
    proof (cases "by_priority (pb_ID b) d")
      case Nil
      then show ?thesis
        using assms by (auto intro!: keeps_intros apart_update_base)
    next
      case (Cons c cs)
      then have "c \<in> set (comaintainers (pb_ID b) d)"
        by (metis by_priority_def list.set_intros(1) set_sort)
      with Cons assms show ?thesis
        by (auto intro!: keeps_intros apart_update_base apart_remove_comaintainer priority)
    qed
  qed
  have as_comaintainer: "keeps (db_inv (apart S P X)) (disown_as_comaintainer c)" if "cm_PackageBaseID c \<in> S" for c
    unfolding disown_as_comaintainer_def by (intro keeps_intros apart_remove_comaintainer that)
  have as_privileged: "keeps (db_inv (apart S P X)) (disown_as_privileged cfg user b)"
    unfolding disown_as_privileged_def delete_comaints_def
    by (intro keeps_andthen keeps_seqp keeps_ret db_inv_transaction apart_handle_request apart_update_base apart_comaints filter_delete_where)
      (use assms in auto)
  have "keeps (db_inv (apart S P X)) (retry_disown cfg user b)"
    unfolding retry_disown_def
  proof (intro keeps_retry_deadlock keeps_query_any keeps_if as_maintainer)
    fix d
    show "keeps (db_inv (apart S P X)) (case List.find (\<lambda>c. cm_UsersID c = u_ID user) (comaintainers (pb_ID b) d) of
        Some c \<Rightarrow> disown_as_comaintainer c
      | None \<Rightarrow> if has_credential (LoggedIn user) PKGBASE_DISOWN [] then disown_as_privileged cfg user b else ret [])"
      by (cases "List.find (\<lambda>c. cm_UsersID c = u_ID user) (comaintainers (pb_ID b) d)")
        (auto intro!: keeps_if as_privileged keeps_ret as_comaintainer priority dest: find_SomeD)
  qed
  then show ?thesis
    unfolding pkgbase_disown_instance_def by (intro keeps_intros)
qed

lemma apart_adopt:
  assumes "pb_ID b \<in> S"
  shows "keeps (db_inv (apart S P X)) (pkgbase_adopt_instance cfg user b r)"
  unfolding pkgbase_adopt_instance_def retry_adopt_def retry_request_adoption_def create_request_def Let_def split_beta
  by (intro keeps_if keeps_intros apart_update_base apart_handle_request) (use assms in simp_all)

lemma apart_unflag:
  assumes "pb_ID b \<in> S"
  shows "keeps (db_inv (apart S P X)) (pkgbase_unflag_instance user b)"
  unfolding pkgbase_unflag_instance_def retry_unflag_def by (intro keeps_intros apart_update_base) (use assms in simp_all)

lemma apart_notify:
  assumes "pb_ID b \<in> S"
  shows "keeps (db_inv (apart S P X)) (pkgbase_notify_instance user b)"
  unfolding pkgbase_notify_instance_def retry_notify_def
  by (intro keeps_intros) (use assms in \<open>auto simp: apart_def outside_def\<close>)

lemma apart_unnotify:
  assumes "pb_ID b \<in> S"
  shows "keeps (db_inv (apart S P X)) (pkgbase_unnotify_instance user b)"
proof -
  have "keeps (db_inv (apart S P X)) (retry_unnotify n)" if "pn_PackageBaseID n \<in> S" for n
  proof -
    have "filter (\<lambda>x. pn_PackageBaseID x \<notin> S) (delete_where (notification_of (pn_UserID n) (pn_PackageBaseID n)) ns)
        = filter (\<lambda>x. pn_PackageBaseID x \<notin> S) ns" for ns
      using that by (intro filter_delete_where) (simp add: notification_of_def)
    then show ?thesis
      unfolding retry_unnotify_def by (intro keeps_intros) (simp add: apart_def outside_def)
  qed
  then show ?thesis
    unfolding pkgbase_unnotify_instance_def
    using assms by (intro keeps_query_any) (auto intro!: keeps_intros split: option.split dest!: find_SomeD simp: notification_of_def)
qed

lemma apart_delete:
  assumes "pb_ID b \<in> S"
  shows "keeps (db_inv (apart S P X)) (pkgbase_delete_instance cfg user b comments)"
proof -
  have "apart S P X (delete_pkgbases (\<lambda>x. pb_ID x = pb_ID b) d)" if d: "apart S P X d" for d
  proof -
    let ?gone = "pb_ID ` {x \<in> set (PackageBases d). pb_ID x = pb_ID b}"
    let ?packages = "pk_ID ` {p \<in> set (Packages d). pk_PackageBaseID p \<in> ?gone}"
    have gone: "?gone \<subseteq> S"
      using assms by auto
    then have packages: "?packages \<subseteq> P"
      using d by (auto simp: apart_def)
    have keep: "filter (\<lambda>x. k x \<notin> S) (delete_where (\<lambda>x. k x \<in> ?gone) xs) = filter (\<lambda>x. k x \<notin> S) xs" for k :: "'x \<Rightarrow> nat" and xs
      using gone by (intro filter_delete_where) auto
    have keep_packages: "filter (\<lambda>x. k x \<notin> P) (delete_where (\<lambda>x. k x \<in> ?packages) xs) = filter (\<lambda>x. k x \<notin> P) xs"
      for k :: "'x \<Rightarrow> nat" and xs
      using packages by (intro filter_delete_where) auto
    have base: "filter (\<lambda>x. pb_ID x \<notin> S) (delete_where (\<lambda>x. pb_ID x = pb_ID b) xs) = filter (\<lambda>x. pb_ID x \<notin> S) xs" for xs
      using assms by (intro filter_delete_where) auto
    have "outside S P (delete_pkgbases (\<lambda>x. pb_ID x = pb_ID b) d) = outside S P d"
      by (simp add: outside_def delete_pkgbases_def delete_packages_def Let_def keep keep_packages base cong del: image_cong_simp)
    then show ?thesis
      using d by (simp add: apart_def delete_pkgbases_def delete_packages_def Let_def set_delete_where)
  qed
  then show ?thesis
    unfolding pkgbase_delete_instance_def retry_delete_def update_closure_comment_def
    by (intro keeps_andthen keeps_seqp keeps_ret keeps_retry_deadlock db_inv_transaction keeps_if keeps_throw db_inv_execute
        apart_handle_request) simp_all
qed

lemma keeps_for_each_in: "(\<And>x. x \<in> set xs \<Longrightarrow> keeps P (f x)) \<Longrightarrow> keeps P (for_each xs f)"
  by (induction xs) (auto intro!: keeps_intros)

lemma apart_disown_all: "(\<And>b. b \<in> set bs \<Longrightarrow> pb_ID b \<in> S) \<Longrightarrow> keeps (db_inv (apart S P X)) (disown_all cfg user bs)"
  by (induction bs) (auto intro!: keeps_intros apart_disown split: exn.split aurweb_exception.split)

text \<open>The package bases of the selected packages, and when the action on them is allowed.\<close>

definition chosen :: "nat list \<Rightarrow> db \<Rightarrow> packagebases_row list" where
  "chosen ids d = bases_of (selected ids d) d"

definition permitted :: "string \<Rightarrow> users_row \<Rightarrow> nat list \<Rightarrow> bool \<Rightarrow> db \<Rightarrow> bool" where
  "permitted action user ids confirm d \<longleftrightarrow> ids \<noteq> [] \<and> (let may = has_credential (LoggedIn user) in
     if action = ''unflag'' then \<forall>p \<in> set (selected ids d). may PKGBASE_UNFLAG [flagger_of (pk_PackageBaseID p) d]
     else if action = ''notify'' then \<forall>b \<in> set (chosen ids d). may PKGBASE_NOTIFY [] \<and> \<not> is_notified user b d
     else if action = ''unnotify'' then \<forall>b \<in> set (chosen ids d). is_notified user b d
     else confirm \<and> (if action = ''adopt'' then \<forall>b \<in> set (chosen ids d). may PKGBASE_ADOPT [] \<or> maintainer_of (pb_ID b) d = None
       else if action = ''disown'' then \<forall>b \<in> set (chosen ids d). may PKGBASE_DISOWN [maintainer_of (pb_ID b) d]
       else may PKGBASE_DELETE [] \<and> length (selected ids d) = length (remdups ids)))"

text \<open>
  The six actions: a check that changes nothing, and then a run over the chosen package bases, which keeps
  what the action on each of them keeps.
\<close>

definition keeps_each :: "config \<Rightarrow> users_row \<Rightarrow> (world \<Rightarrow> bool) \<Rightarrow> packagebases_row \<Rightarrow> bool" where
  "keeps_each cfg user I b \<longleftrightarrow> keeps I (pkgbase_unflag_instance user b) \<and> keeps I (pkgbase_notify_instance user b)
     \<and> keeps I (pkgbase_unnotify_instance user b) \<and> keeps I (pkgbase_adopt_instance cfg user b None)
     \<and> keeps I (pkgbase_disown_instance cfg user b) \<and> keeps I (pkgbase_delete_instance cfg user b [])"

lemma keeps_disown_all: "(\<And>b. b \<in> set bs \<Longrightarrow> keeps I (pkgbase_disown_instance cfg user b)) \<Longrightarrow> keeps I (disown_all cfg user bs)"
  by (induction bs) (auto intro!: keeps_intros split: exn.split aurweb_exception.split)

lemma action_cases:
  assumes "map_of (PACKAGE_ACTIONS cfg arrange) action = Some act"
  obtains "action = ''unflag''" "\<And>user ids confirm. act user ids confirm = packages_unflag arrange user ids"
    | "action = ''notify''" "\<And>user ids confirm. act user ids confirm = packages_notify arrange user ids"
    | "action = ''unnotify''" "\<And>user ids confirm. act user ids confirm = packages_unnotify arrange user ids"
    | "action = ''adopt''" "act = packages_adopt cfg arrange"
    | "action = ''disown''" "act = packages_disown cfg arrange"
    | "action = ''delete''" "act = packages_delete cfg arrange"
proof -
  from map_of_SomeD [OF assms] show thesis
    unfolding PACKAGE_ACTIONS_def list.set insert_iff empty_iff prod.inject
    by (elim disjE conjE FalseE) (rule that, assumption, simp only:)+
qed

lemma action_keeps:
  assumes arrange: "\<And>bs. set (arrange bs) = set bs" and act: "map_of (PACKAGE_ACTIONS cfg arrange) action = Some act"
    and each: "\<And>b. b \<in> set (chosen ids (the_db w)) \<Longrightarrow> keeps_each cfg user I b" and send: "\<And>n. keeps I (send n)" and I: "I w"
  shows "I (snd (act user ids confirm w))"
proof -
  let ?bs = "arrange (chosen ids (the_db w))"
  have bs: "selected_bases arrange ids (the_db w) = ?bs"
    by (simp add: selected_bases_def chosen_def)
  have each': "b \<in> set ?bs \<Longrightarrow> keeps_each cfg user I b" for b
    using each by (simp add: arrange)
  have loops: "keeps I (seqp (for_each ?bs (pkgbase_unflag_instance user)) (ret x))"
    "keeps I (seqp (for_each ?bs (pkgbase_notify_instance user)) (ret x))"
    "keeps I (seqp (for_each ?bs (pkgbase_unnotify_instance user)) (ret x))"
    "keeps I (seqp (for_each ?bs (\<lambda>b. pkgbase_adopt_instance cfg user b None)) (if c then ret x else ret y))"
    "keeps I (andthen (disown_all cfg user ?bs) (\<lambda>errors. ret (h errors)))"
    "keeps I (andthen (collect ?bs (\<lambda>b. pkgbase_delete_instance cfg user b [])) (\<lambda>notifs. seqp (for_each (concat notifs) send) (ret x)))"
    for x y :: "bool \<times> string list" and c and h :: "string list \<Rightarrow> bool \<times> string list"
    using each' send
    by (auto intro!: keeps_seqp keeps_andthen keeps_ret keeps_if keeps_for_each_in keeps_collect_in keeps_disown_all simp: keeps_each_def)
  note leaves = loops [THEN keeps_wp, OF I]
  note unfold_wp = wp_if wp_ret wp_andthen [of "query g" for g] wp_query bs Let_def
  have "wp (act user ids confirm) (\<lambda>_. I) (\<lambda>_. I) w"
    using act
  proof (cases rule: action_cases)
    case 1
    show ?thesis
      unfolding 1(2) packages_unflag_def unfold_wp using I leaves(1) by simp
  next
    case 2
    show ?thesis
      unfolding 2(2) packages_notify_def unfold_wp using I leaves(2) by simp
  next
    case 3
    show ?thesis
      unfolding 3(2) packages_unnotify_def unfold_wp using I leaves(3) by simp
  next
    case 4
    show ?thesis
      unfolding 4(2) packages_adopt_def unfold_wp using I leaves(4) by simp
  next
    case 5
    show ?thesis
      unfolding 5(2) packages_disown_def unfold_wp using I leaves(5) by simp
  next
    case 6
    show ?thesis
      unfolding 6(2) packages_delete_def unfold_wp using I leaves(6) by simp
  qed
  then show ?thesis
    by (simp only: snd_wp)
qed

lemma action_refused:
  assumes arrange: "\<And>bs. set (arrange bs) = set bs" and act: "map_of (PACKAGE_ACTIONS cfg arrange) action = Some act"
    and "\<not> permitted action user ids confirm (the_db w)"
  shows "\<exists>msgs. act user ids confirm w = (Inr (False, msgs), w)"
proof -
  have bs: "set (selected_bases arrange ids (the_db w)) = set (chosen ids (the_db w))"
    by (simp add: selected_bases_def chosen_def arrange)
  have "wp (act user ids confirm) (\<lambda>r w'. \<not> fst r \<and> w' = w) (\<lambda>_ _. False) w"
    using act
  proof (cases rule: action_cases)
    case 1
    have "ids = [] \<or> \<not> list_all (\<lambda>p. has_credential (LoggedIn user) PKGBASE_UNFLAG [flagger_of (pk_PackageBaseID p) (the_db w)]) (selected ids (the_db w))"
      using assms(3) unfolding 1(1) by (simp add: permitted_def Let_def list_all_iff bs)
    then show ?thesis
      unfolding 1(2) packages_unflag_def Let_def wp_if wp_ret wp_andthen wp_query by (elim disjE) simp_all
  next
    case 2
    have "ids = [] \<or> \<not> list_all (\<lambda>b. has_credential (LoggedIn user) PKGBASE_NOTIFY [] \<and> \<not> is_notified user b (the_db w)) (selected_bases arrange ids (the_db w))"
      using assms(3) unfolding 2(1) by (simp add: permitted_def Let_def list_all_iff bs)
    then show ?thesis
      unfolding 2(2) packages_notify_def Let_def wp_if wp_ret wp_andthen wp_query by (elim disjE) simp_all
  next
    case 3
    have "ids = [] \<or> \<not> list_all (\<lambda>b. is_notified user b (the_db w)) (selected_bases arrange ids (the_db w))"
      using assms(3) unfolding 3(1) by (simp add: permitted_def Let_def list_all_iff bs)
    then show ?thesis
      unfolding 3(2) packages_unnotify_def Let_def wp_if wp_ret wp_andthen wp_query by (elim disjE) simp_all
  next
    case 4
    have "ids = [] \<or> \<not> confirm \<or> \<not> list_all (\<lambda>b. has_credential (LoggedIn user) PKGBASE_ADOPT [] \<or> maintainer_of (pb_ID b) (the_db w) = None)
        (selected_bases arrange ids (the_db w))"
      using assms(3) unfolding 4(1) by (simp add: permitted_def Let_def list_all_iff bs)
    then show ?thesis
      unfolding 4(2) packages_adopt_def Let_def wp_if wp_ret wp_andthen wp_query by (elim disjE) simp_all
  next
    case 5
    have "ids = [] \<or> \<not> confirm \<or> \<not> list_all (\<lambda>b. has_credential (LoggedIn user) PKGBASE_DISOWN [maintainer_of (pb_ID b) (the_db w)])
        (selected_bases arrange ids (the_db w))"
      using assms(3) unfolding 5(1) by (simp add: permitted_def Let_def list_all_iff bs)
    then show ?thesis
      unfolding 5(2) packages_disown_def Let_def wp_if wp_ret wp_andthen wp_query by (elim disjE) simp_all
  next
    case 6
    have "ids = [] \<or> \<not> confirm \<or> \<not> has_credential (LoggedIn user) PKGBASE_DELETE [] \<or> length (selected ids (the_db w)) \<noteq> length (remdups ids)"
      using assms(3) unfolding 6(1) by (simp add: permitted_def Let_def list_all_iff bs)
    then show ?thesis
      unfolding 6(2) packages_delete_def Let_def wp_if wp_ret wp_andthen wp_query by (elim disjE) simp_all
  qed
  then show ?thesis
    by (cases "act user ids confirm w"; cases "fst (act user ids confirm w)") (auto simp: wp_def)
qed

text \<open>
  C25. An action on selected packages, however it ends, changes nothing outside of the package bases of these
  packages (and the requests); and when the user may not do it on every one of them, or has not selected
  anything or not confirmed it, it fails and changes nothing at all.
\<close>

theorem package_action_confined:
  assumes "\<And>bs. set (arrange bs) = set bs" and "map_of (PACKAGE_ACTIONS cfg arrange) action = Some act"
  shows "let d = the_db w; (r, w') = act user ids confirm w; S = pb_ID ` set (chosen ids d);
      P = pk_ID ` {p \<in> set (Packages d). pk_PackageBaseID p \<in> S} in
    outside S P (the_db w') = outside S P d
    \<and> (\<not> permitted action user ids confirm d \<longrightarrow> w' = w \<and> (\<exists>msgs. r = Inr (False, msgs)))"
proof -
  let ?d = "the_db w" and ?S = "pb_ID ` set (chosen ids (the_db w))"
  let ?P = "pk_ID ` {p \<in> set (Packages ?d). pk_PackageBaseID p \<in> ?S}"
  let ?I = "db_inv (apart ?S ?P (outside ?S ?P ?d))"
  have "?I (snd (act user ids confirm w))"
  proof (rule action_keeps [OF assms])
    show "keeps_each cfg user ?I b" if "b \<in> set (chosen ids ?d)" for b
    proof -
      from that have "pb_ID b \<in> ?S"
        by simp
      then show ?thesis
        unfolding keeps_each_def
        by (intro conjI apart_unflag apart_notify apart_unnotify apart_adopt apart_disown apart_delete)
    qed
    show "?I w"
      by (simp add: db_inv_def apart_def)
  qed (rule db_inv_send)
  then have "outside ?S ?P (the_db (snd (act user ids confirm w))) = outside ?S ?P ?d"
    by (simp only: db_inv_def apart_def)
  then show ?thesis
    using action_refused [OF assms, of user ids confirm w] by (auto simp: Let_def split: prod.split)
qed

text \<open>On the small site bob disowns foo, and somebody else who tries to delete it is refused.\<close>

theorem package_action_confined_witness:
  "outside {10} {20} (the_db (snd (packages_disown default_config id demo_bob [20] True demo_world))) = outside {10} {20} demo_db
    \<and> snd (packages_delete default_config id demo_bob [20] True demo_world) = demo_world"
proof -
  have d: "pb_ID ` set (chosen [20] demo_db) = {10}" "pk_ID ` {p \<in> set (Packages demo_db). pk_PackageBaseID p \<in> {10}} = {20}"
    "\<not> permitted ''delete'' demo_bob [20] True demo_db"
    by code_simp+
  have act: "map_of (PACKAGE_ACTIONS default_config id) ''disown'' = Some (packages_disown default_config id)"
    "map_of (PACKAGE_ACTIONS default_config id) ''delete'' = Some (packages_delete default_config id)"
    by (simp_all add: PACKAGE_ACTIONS_def)
  note package_action_confined [OF _ act(1), of demo_world demo_bob "[20]" True, simplified Let_def demo_the_db d]
    package_action_confined [OF _ act(2), of demo_world demo_bob "[20]" True, simplified Let_def demo_the_db d]
  then show ?thesis
    using d(3) by (simp add: split_beta)
qed

section \<open>What the list shows\<close>

text \<open>The packages that a query asks for; the words of a name of a user are one word.\<close>

definition query_words :: "packages_query \<Rightarrow> string list" where
  "query_words q = (if given ''nd'' (k_SeB q) \<in> {''m'', ''c'', ''M'', ''s''} then [strip (given [] (k_K q))]
     else split_on (CHR '' '') (given [] (k_K q)))"

definition fits_flags :: "packages_query \<Rightarrow> packagebases_row \<Rightarrow> bool" where
  "fits_flags q b \<longleftrightarrow> (given [] (k_outdated q) = [] \<or> (given [] (k_outdated q) = ''on'') = (pb_OutOfDateTS b \<noteq> None))
     \<and> (given ''Go'' (k_submit q) = ''Orphans'' \<longrightarrow> pb_MaintainerUID b = None)"

lemma stands_for_where_base:
  assumes wf: "wf_db d" and s: "stands_for d P s"
  shows "stands_for d (\<lambda>p. P p \<and> (\<exists>b. base_of d p b \<and> Q b)) (where_rows (\<lambda>r. Q (j_base r)) s)"
  by (rule stands_for_where [OF s]) (simp add: base_of_row [OF wf])

lemma stands_for_cong: "stands_for d P s \<Longrightarrow> (\<And>p. p \<in> set (Packages d) \<Longrightarrow> P p = P' p) \<Longrightarrow> stands_for d P' s"
  by (simp add: stands_for_def cong: filter_cong)

lemma packages_search_stands:
  assumes wf: "wf_db d" and zero: "0 \<notin> user_ids d" and Q: "map_of (web_spec d) (given ''nd'' (k_SeB q)) = Some Q"
  shows "stands_for d (\<lambda>p. (\<forall>kw \<in> set (query_words q). Q kw p) \<and> (\<exists>b. base_of d p b \<and> fits_flags q b)) (packages_search q user d)"
proof -
  let ?by = "given ''nd'' (k_SeB q)" and ?s = "package_search d (Some (ru_ID user))"
  have "(?by, Q) \<in> set (web_spec d)"
    by (rule map_of_SomeD [OF Q])
  then have "?by \<noteq> ''k''"
    by (auto simp: web_spec_def)
  then have "search_words d ?by (given [] (k_K q)) ?s = fold (search_by d ?by) (query_words q) ?s"
    by (simp add: search_words_def query_words_def)
  with stands_for_words [OF wf zero Q stands_for_all [OF wf]]
  have words: "stands_for d (\<lambda>p. \<forall>kw \<in> set (query_words q). Q kw p) (search_words d ?by (given [] (k_K q)) ?s)"
    by simp
  let ?out = "given [] (k_outdated q)" and ?fit = "\<lambda>p. \<forall>kw \<in> set (query_words q). Q kw p"
  have out: "stands_for d (\<lambda>p. ?fit p \<and> (\<exists>b. base_of d p b \<and> (?out = [] \<or> (?out = ''on'') = (pb_OutOfDateTS b \<noteq> None)))) (filter_outdated ?out
      (search_words d ?by (given [] (k_K q)) ?s))"
  proof -
    consider "?out = []" | "?out \<noteq> []" "?out = ''on''" | "?out \<noteq> []" "?out \<noteq> ''on''"
      by blast
    then show ?thesis
    proof cases
      case 1
      have "\<exists>b. base_of d p b" if "p \<in> set (Packages d)" for p
        using with_bases_one [OF wf that] by blast
      with 1 words show ?thesis
        by (auto simp: filter_outdated_def elim: stands_for_cong)
    qed (use stands_for_where_base [OF wf words, of "\<lambda>b. pb_OutOfDateTS b \<noteq> None"]
        stands_for_where_base [OF wf words, of "\<lambda>b. pb_OutOfDateTS b = None"] in \<open>simp_all add: filter_outdated_def\<close>)
  qed
  show ?thesis
  proof (cases "given ''Go'' (k_submit q) = ''Orphans''")
    case True
    have "stands_for d (\<lambda>p. (?fit p \<and> (\<exists>b. base_of d p b \<and> (?out = [] \<or> (?out = ''on'') = (pb_OutOfDateTS b \<noteq> None))))
       \<and> (\<exists>b. base_of d p b \<and> pb_MaintainerUID b = None)) (packages_search q user d)"
      using stands_for_where_base [OF wf out, of "\<lambda>b. pb_MaintainerUID b = None"] True
      by (simp add: packages_search_def filter_orphans_def)
    then show ?thesis
      by (rule stands_for_cong) (use True base_of_unique [OF wf] in \<open>auto simp: fits_flags_def\<close>)
  next
    case False
    then show ?thesis
      using out by (simp add: packages_search_def filter_orphans_def fits_flags_def)
  qed
qed

lemma mset_sort_by: "mset (ps_rows (sort_by sb so uid s)) = mset (ps_rows s)"
  by (simp add: sort_by_def in_order_def sort_callback_def)


definition plain_query :: packages_query where
  "plain_query = \<lparr>k_O = None, k_PP = None, k_SeB = Some ''N'', k_SB = Some ''n'', k_SO = Some ''a'', k_K = Some ''foo'',
     k_outdated = None, k_submit = None\<rparr>"


end
