(* ===== verification/Package_Page.thy ===== *)
theory Package_Page
  imports Package_Routes Request_Routes Pkgbase_Routes
begin

text \<open>
  The page of a package and what it is made of: the common part of the pages of packages and package
  bases (\<open>make_context\<close> of \<open>aurweb/pkgbase/util.py\<close>), the helpers and template filters of
  \<open>aurweb/packages/util.py\<close> and the route \<open>package\<close> of \<open>aurweb/routers/packages.py\<close>. A page is the
  context its template gets. Results with an ORDER BY are sorted stably; the collation compares
  character codes.
\<close>

section \<open>The common part\<close>

record pkgbase_context =
  cx_O :: nat
  cx_PP :: nat
  cx_pkgbase :: packagebases_row
  cx_comaintainers :: "nat option list"
  cx_unflaggers :: "nat option list"
  cx_packages_count :: nat
  cx_keywords :: "string list"
  cx_comments_total :: nat
  cx_comments :: "packagecomments_row list"
  cx_pinned_comments :: "packagecomments_row list"
  cx_is_maintainer :: bool
  cx_notified :: bool
  cx_out_of_date :: bool
  cx_voted :: bool
  cx_requests :: nat
  cx_popularity :: real

definition comments_of :: "nat \<Rightarrow> db \<Rightarrow> packagecomments_row list" where
  "comments_of i d = sort_key (\<lambda>c. - pc_CommentTS c) (filter (\<lambda>c. pc_PackageBaseID c = i) (PackageComments d))"

text \<open>\<open>User.notified\<close> of \<open>aurweb/models/user.py\<close>.\<close>

definition notified_of :: "nat \<Rightarrow> nat \<Rightarrow> db \<Rightarrow> bool" where
  "notified_of uid i d = list_ex (\<lambda>n. pn_PackageBaseID n = i \<and> pn_UserID n = uid) (PackageNotifications d)"

definition has_vote :: "nat \<Rightarrow> nat \<Rightarrow> db \<Rightarrow> bool" where
  "has_vote uid i d = list_ex (\<lambda>v. pv_UsersID v = uid \<and> pv_PackageBaseID v = i) (PackageVotes d)"

text \<open>
  The arguments \<open>O\<close> and \<open>PP\<close> are None when the query does not have them, \<open>Some None\<close> when they are
  no numbers.
\<close>

definition make_context :: "requester \<Rightarrow> int option option \<Rightarrow> int option option \<Rightarrow> packagebases_row \<Rightarrow> int \<Rightarrow> db \<Rightarrow> pkgbase_context" where
  "make_context user off_arg pp_arg b t d = (let
     (off, per_page) = sanitize_params (case off_arg of None \<Rightarrow> Some 0 | Some n \<Rightarrow> n)
       (case pp_arg of None \<Rightarrow> Some 10 | Some n \<Rightarrow> n);
     i = pb_ID b; comaints = comaint_users i d in
   \<lparr>cx_O = off, cx_PP = per_page, cx_pkgbase = b, cx_comaintainers = comaints,
    cx_unflaggers = (if user = AnonymousUser then [] else comaints @ [pb_MaintainerUID b, pb_FlaggerUID b]),
    cx_packages_count = count_where (\<lambda>p. pk_PackageBaseID p = i) (Packages d),
    cx_keywords = map kw_Keyword (filter (\<lambda>k. kw_PackageBaseID k = i) (PackageKeywords d)),
    cx_comments_total = length (comments_of i d),
    cx_comments = take per_page (drop off (comments_of i d)),
    cx_pinned_comments = filter (\<lambda>c. pc_PinnedTS c \<noteq> 0) (comments_of i d),
    cx_is_maintainer = (case user of AnonymousUser \<Rightarrow> False | LoggedIn u \<Rightarrow> pb_MaintainerUID b = Some (u_ID u)),
    cx_notified = (case user of AnonymousUser \<Rightarrow> False | LoggedIn u \<Rightarrow> notified_of (u_ID u) i d),
    cx_out_of_date = (case pb_OutOfDateTS b of None \<Rightarrow> False | Some ts \<Rightarrow> ts \<noteq> 0),
    cx_voted = (case user of AnonymousUser \<Rightarrow> False | LoggedIn u \<Rightarrow> has_vote (u_ID u) i d),
    cx_requests = count_where (\<lambda>r. pr_PackageBaseID r = Some i \<and> pr_Status r = PENDING_ID \<and> pr_ClosedTS r = None)
      (PackageRequests d),
    cx_popularity = popularity b t\<rparr>)"

section \<open>Dependencies\<close>

definition show_rows :: "bool \<Rightarrow> nat \<Rightarrow> 'a list \<Rightarrow> 'a list \<times> nat" where
  "show_rows everything max_listing rows =
     (if everything then (rows, length rows)
      else let shown = take max_listing rows;
               total_count = length shown
           in (shown, if max_listing \<le> total_count then length rows else total_count))"

definition package_dependencies :: "packages_row \<Rightarrow> db \<Rightarrow> packagedepends_row list" where
  "package_dependencies pkg d = sort_key pd_DepTypeID (sort_key (\<lambda>x. char_codes (pd_DepName x))
     (filter (\<lambda>x. pd_PackageID x = pk_ID pkg) (PackageDepends d)))"

definition query_package_dependencies :: "packages_row \<Rightarrow> bool \<Rightarrow> nat \<Rightarrow> db \<Rightarrow> packagedepends_row list \<times> nat" where
  "query_package_dependencies pkg all_deps max_listing d = show_rows all_deps max_listing (package_dependencies pkg d)"

text \<open>A dependency with the package that has it.\<close>

definition pkg_required :: "string \<Rightarrow> string list \<Rightarrow> db \<Rightarrow> (packagedepends_row \<times> packages_row) list" where
  "pkg_required pkgname provides d = sort_key (\<lambda>(x, p). char_codes (pk_Name p)) (sort_key (\<lambda>(x, p). pd_DepTypeID x)
     [(x, p). x \<leftarrow> PackageDepends d, p \<leftarrow> Packages d, pk_ID p = pd_PackageID x \<and> pd_DepName x \<in> set (pkgname # provides)])"

definition query_required_by_package_dependencies ::
    "packages_row \<Rightarrow> packagerelations_row list \<Rightarrow> bool \<Rightarrow> nat \<Rightarrow> db \<Rightarrow> (packagedepends_row \<times> packages_row) list \<times> nat" where
  "query_required_by_package_dependencies pkg provides all_reqs max_listing d =
     show_rows all_reqs max_listing (pkg_required (pk_Name pkg) (map rl_RelName provides) d)"

section \<open>Providers\<close>

record provider =
  vd_Name :: string
  vd_provides :: string
  vd_is_official :: bool

definition lookup_aur_packages :: "string list \<Rightarrow> db \<Rightarrow> string list" where
  "lookup_aur_packages names d = remdups (map pk_Name (filter (\<lambda>p. pk_Name p \<in> set names) (Packages d)))"

definition combined_providers :: "string list \<Rightarrow> db \<Rightarrow> provider list" where
  "combined_providers names d =
     sort_key (\<lambda>v. char_codes (vd_Name v)) [\<lparr>vd_Name = pk_Name p, vd_provides = rl_RelName r, vd_is_official = False\<rparr>.
       r \<leftarrow> PackageRelations d, p \<leftarrow> Packages d,
       pk_ID p = rl_PackageID r \<and> rl_RelTypeID r = PROVIDES_ID \<and> rl_RelName r \<in> set names]
     @ sort_key (\<lambda>v. char_codes (vd_Name v)) (map (\<lambda>x. \<lparr>vd_Name = op_Name x, vd_provides = op_Provides x, vd_is_official = True\<rparr>)
       (filter (\<lambda>x. op_Provides x \<in> set names) (OfficialProviders d)))"

text \<open>The loop over the providers: the set of official packages, and the providers by what they provide.\<close>

definition add_provider ::
    "provider \<Rightarrow> string list \<times> (string \<Rightarrow> provider list) \<Rightarrow> string list \<times> (string \<Rightarrow> provider list)" where
  "add_provider v acc = (case acc of (official, providers) \<Rightarrow>
     let official' = (if vd_is_official v then List.insert (vd_Name v) official else official)
     in if vd_is_official v \<and> vd_provides v = vd_Name v then (official', providers)
        else (official', providers(vd_provides v := providers (vd_provides v) @ [v])))"

definition lookup_dependencies :: "string list \<Rightarrow> db \<Rightarrow> string list \<times> string list \<times> (string \<Rightarrow> provider list)" where
  "lookup_dependencies names d = (let (official, providers) = fold add_provider (combined_providers names d) ([], \<lambda>_. [])
     in (lookup_aur_packages names d, official, providers))"

section \<open>The page\<close>

record package_context =
  px_context :: pkgbase_context
  px_package :: packages_row
  px_conflicts :: "packagerelations_row list"
  px_provides :: "packagerelations_row list"
  px_replaces :: "packagerelations_row list"
  px_sources :: "packagesources_row list"
  px_dependencies :: "packagedepends_row list"
  px_dependencies_count :: nat
  px_required_by :: "(packagedepends_row \<times> packages_row) list"
  px_required_by_count :: nat
  px_licenses :: "packagelicenses_row list"
  px_groups :: "packagegroups_row list"
  px_aur_packages :: "string list"
  px_official_packages :: "string list"
  px_dependency_providers :: "string \<Rightarrow> provider list"

definition relations_of :: "packages_row \<Rightarrow> db \<Rightarrow> packagerelations_row list" where
  "relations_of pkg d = sort_key (\<lambda>r. char_codes (rl_RelName r)) (filter (\<lambda>r. rl_PackageID r = pk_ID pkg) (PackageRelations d))"

definition with_type :: "nat \<Rightarrow> packagerelations_row list \<Rightarrow> packagerelations_row list" where
  "with_type t rs = filter (\<lambda>r. rl_RelTypeID r = t) rs"

definition package_page :: "requester \<Rightarrow> int option option \<Rightarrow> int option option \<Rightarrow> packages_row \<Rightarrow> packagebases_row \<Rightarrow> bool \<Rightarrow> bool
    \<Rightarrow> int \<Rightarrow> db \<Rightarrow> package_context" where
  "package_page user off pp pkg b all_deps all_reqs t d = (let
     relations = relations_of pkg d;
     provides = with_type PROVIDES_ID relations;
     (dependencies, dependencies_count) = query_package_dependencies pkg all_deps 20 d;
     (required_by, required_by_count) = query_required_by_package_dependencies pkg provides all_reqs 20 d;
     (aur, official, providers) = lookup_dependencies (remdups (map pd_DepName dependencies)) d
   in \<lparr>px_context = make_context user off pp b t d, px_package = pkg,
       px_conflicts = with_type CONFLICTS_ID relations, px_provides = provides,
       px_replaces = with_type REPLACES_ID relations,
       px_sources = sort_key (\<lambda>s. char_codes (sr_Source s)) (filter (\<lambda>s. sr_PackageID s = pk_ID pkg) (PackageSources d)),
       px_dependencies = dependencies, px_dependencies_count = dependencies_count,
       px_required_by = required_by, px_required_by_count = required_by_count,
       px_licenses = filter (\<lambda>x. pl_PackageID x = pk_ID pkg) (PackageLicenses d),
       px_groups = filter (\<lambda>x. pg_PackageID x = pk_ID pkg) (PackageGroups d),
       px_aur_packages = aur, px_official_packages = official, px_dependency_providers = providers\<rparr>)"

definition package :: "requester \<Rightarrow> int option option \<Rightarrow> int option option \<Rightarrow> string \<Rightarrow> bool \<Rightarrow> bool \<Rightarrow> package_context aur" where
  "package user off pp name all_deps all_reqs =
     andthen (query (\<lambda>d. List.find (\<lambda>p. pk_Name p = name) (Packages d))) (\<lambda>found.
     andthen (the_or (HTTPException 404 []) found) (\<lambda>pkg.
     andthen (query (\<lambda>d. List.find (\<lambda>b. pb_ID b = pk_PackageBaseID pkg) (PackageBases d))) (\<lambda>base.
     andthen (the_or Py_AttributeError base) (\<lambda>b.
     andthen utcnow (\<lambda>t.
     query (package_page user off pp pkg b all_deps all_reqs t))))))"

section \<open>Filters of the templates\<close>

definition dep_extra_with_arch :: "packagedepends_row \<Rightarrow> string \<Rightarrow> string" where
  "dep_extra_with_arch x annotation = ''('' @ join '', '' (annotation # (case pd_DepArch x of None \<Rightarrow> []
     | Some a \<Rightarrow> if a = [] then [] else [a])) @ '')''"

text \<open>\<open>globals().get(name)\<close> is None for other types, and cannot be called.\<close>

definition dep_extra :: "string \<Rightarrow> packagedepends_row \<Rightarrow> exn + string" where
  "dep_extra type_name x =
     (if type_name = ''depends'' then Inr []
      else if type_name = ''makedepends'' then Inr (dep_extra_with_arch x ''make'')
      else if type_name = ''checkdepends'' then Inr (dep_extra_with_arch x ''check'')
      else if type_name = ''optdepends'' then Inr (dep_extra_with_arch x ''optional'')
      else Inl Py_TypeError)"

text \<open>The dash is the character U+2013, here as the bytes of its UTF-8 encoding.\<close>

definition dep_extra_desc :: "string \<Rightarrow> packagedepends_row \<Rightarrow> exn + string" where
  "dep_extra_desc type_name x = map_sum id (\<lambda>extra. case pd_DepDesc x of
       None \<Rightarrow> extra
     | Some desc \<Rightarrow> if desc = [] then extra else extra @ '' '' @ [CHR 0xE2, CHR 0x80, CHR 0x93] @ '' '' @ desc)
     (dep_extra type_name x)"

definition OFFICIAL_BASE :: string where "OFFICIAL_BASE = ''https://archlinux.org''"

definition official_link :: "string \<Rightarrow> string" where
  "official_link name = OFFICIAL_BASE @ ''/packages/?q='' @ name"

definition pkgname_link :: "string \<Rightarrow> string list \<Rightarrow> string list \<Rightarrow> string option" where
  "pkgname_link pkgname aur official =
     (if pkgname \<in> set aur then Some (''/packages/'' @ pkgname)
      else if pkgname \<in> set official then Some (official_link pkgname) else None)"

definition package_link :: "provider \<Rightarrow> string" where
  "package_link v = (if vd_is_official v then official_link (vd_Name v) else ''/packages/'' @ vd_Name v)"

definition provides_markup :: "provider list \<Rightarrow> string" where
  "provides_markup provides = join '', '' (map (\<lambda>v. ''<a href='' @ [CHR 0x22] @ package_link v @ [CHR 0x22] @ ''>''
     @ vd_Name v @ ''</a>'' @ (if vd_is_official v then [] else ''<sup><small>AUR</small></sup>'')) provides)"

text \<open>\<open>s.split(sep, 1)\<close>: the parts before and after the first \<open>sep\<close>, None without one.\<close>

fun cut :: "string \<Rightarrow> string \<Rightarrow> (string \<times> string) option" where
  "cut sep [] = (if sep = [] then Some ([], []) else None)"
| "cut sep (c # cs) = (if startswith (c # cs) sep then Some ([], drop (length sep) (c # cs))
     else map_option (map_prod (Cons c) id) (cut sep cs))"

definition strip_vcs_prefix :: "string \<Rightarrow> string" where
  "strip_vcs_prefix source = (let protocol = (case cut ''://'' source of None \<Rightarrow> source | Some (p, _) \<Rightarrow> p) in
     if CHR ''+'' \<in> set protocol then (case cut ''+'' source of None \<Rightarrow> source | Some (_, rest) \<Rightarrow> rest) else source)"

text \<open>\<open>file_uri\<close> formats the option \<open>source_file_uri\<close> with the file and the branch.\<close>

definition source_uri :: "(string \<Rightarrow> string \<Rightarrow> string) \<Rightarrow> string \<Rightarrow> string \<Rightarrow> string \<times> string" where
  "source_uri file_uri pkgbasename source = (case cut ''::'' source of
       Some (name, uri) \<Rightarrow> (name, strip_vcs_prefix uri)
     | None \<Rightarrow> if cut ''://'' source \<noteq> None then (source, strip_vcs_prefix source)
         else (source, file_uri source (quote_plus pkgbasename)))"

section \<open>Votes and notifications of a list\<close>

text \<open>
  The join with \<open>PackageBases\<close> has the condition on the ID of the package base alone: it pairs every
  vote of the user with every package base of the list.
\<close>

definition listed_bases :: "packages_row list \<Rightarrow> db \<Rightarrow> packagebases_row list" where
  "listed_bases pkgs d = filter (\<lambda>b. pb_ID b \<in> set (map pk_PackageBaseID pkgs)) (PackageBases d)"

definition query_voted :: "packages_row list \<Rightarrow> nat \<Rightarrow> db \<Rightarrow> nat \<Rightarrow> bool" where
  "query_voted pkgs uid d i = list_ex (\<lambda>v. i = pv_PackageBaseID v)
     [v. v \<leftarrow> PackageVotes d, b \<leftarrow> listed_bases pkgs d, pv_UsersID v = uid]"

definition query_notified :: "packages_row list \<Rightarrow> nat \<Rightarrow> db \<Rightarrow> nat \<Rightarrow> bool" where
  "query_notified pkgs uid d i = list_ex (\<lambda>n. i = pn_PackageBaseID n)
     [n. n \<leftarrow> PackageNotifications d, b \<leftarrow> listed_bases pkgs d, pn_UserID n = uid]"

text \<open>\<open>updated_packages\<close> with an empty cache: the newest packages first; a limit of 0 is none.\<close>

definition updated_packages :: "nat \<Rightarrow> db \<Rightarrow> (string \<times> string \<times> int) list" where
  "updated_packages limit d = (let rows = sort_key (\<lambda>(p, b). - pb_ModifiedTS b)
       [(p, b). p \<leftarrow> Packages d, b \<leftarrow> PackageBases d, pb_ID b = pk_PackageBaseID p];
     shown = (if limit = 0 then rows else take limit rows)
   in map (\<lambda>(p, b). (pk_Name p, pk_Version p, pb_ModifiedTS b)) shown)"

section \<open>What the page shows\<close>

text \<open>The listing shows all rows or the first ones, and counts all of them in either case.\<close>

lemma listing_rows: "fst (show_rows everything n rows) = (if everything then rows else take n rows)"
  by (simp add: show_rows_def Let_def)

lemma listing_count: "snd (show_rows everything n rows) = length rows"
  by (auto simp: show_rows_def Let_def min_def)

lemma package_dependencies_rows:
  "mset (package_dependencies pkg d) = mset (filter (\<lambda>x. pd_PackageID x = pk_ID pkg) (PackageDepends d))"
  by (simp add: package_dependencies_def)

lemma package_dependencies_sorted: "sorted (map pd_DepTypeID (package_dependencies pkg d))"
  by (simp add: package_dependencies_def)

definition requires_any :: "string set \<Rightarrow> db \<Rightarrow> (packagedepends_row \<times> packages_row) set" where
  "requires_any names d = {(x, p). x \<in> set (PackageDepends d) \<and> p \<in> set (Packages d)
     \<and> pk_ID p = pd_PackageID x \<and> pd_DepName x \<in> names}"

lemma set_pkg_required: "set (pkg_required name provides d) = requires_any (insert name (set provides)) d"
  by (auto simp: pkg_required_def requires_any_def)

definition provided_names :: "packages_row \<Rightarrow> db \<Rightarrow> string set" where
  "provided_names pkg d = rl_RelName ` {r \<in> set (PackageRelations d). rl_PackageID r = pk_ID pkg \<and> rl_RelTypeID r = PROVIDES_ID}"

lemma provided_names_rows: "rl_RelName ` set (with_type PROVIDES_ID (relations_of pkg d)) = provided_names pkg d"
  by (auto simp: with_type_def relations_of_def provided_names_def)

text \<open>Who provides a name: packages with such a relation, and official packages.\<close>

definition provides_name :: "db \<Rightarrow> string \<Rightarrow> provider \<Rightarrow> bool" where
  "provides_name d n v \<longleftrightarrow> vd_provides v = n \<and> (if vd_is_official v
     then \<exists>x \<in> set (OfficialProviders d). op_Name x = vd_Name v \<and> op_Provides x = n
     else \<exists>r \<in> set (PackageRelations d). \<exists>p \<in> set (Packages d). pk_ID p = rl_PackageID r
        \<and> rl_RelTypeID r = PROVIDES_ID \<and> rl_RelName r = n \<and> pk_Name p = vd_Name v)"

lemma set_combined: "v \<in> set (combined_providers names d) \<longleftrightarrow> vd_provides v \<in> set names \<and> provides_name d (vd_provides v) v"
  by (cases v) (auto simp: combined_providers_def provides_name_def)

lemma add_providers:
  "fst (fold add_provider vs (official, f)) = fold (\<lambda>v. if vd_is_official v then List.insert (vd_Name v) else id) vs official
   \<and> snd (fold add_provider vs (official, f)) n
     = f n @ filter (\<lambda>v. vd_provides v = n \<and> \<not> (vd_is_official v \<and> vd_provides v = vd_Name v)) vs"
proof (induction vs arbitrary: official f)
  case (Cons v vs)
  then show ?case
    by (cases "vd_is_official v"; cases "vd_provides v = vd_Name v") (simp_all add: add_provider_def Let_def)
qed simp

lemma official_names:
  "set (fold (\<lambda>v. if vd_is_official v then List.insert (vd_Name v) else id) vs xs) = set xs \<union> vd_Name ` {v \<in> set vs. vd_is_official v}"
  by (induction vs arbitrary: xs) auto

lemma lookup_dependencies_spec:
  fixes names d
  defines "r \<equiv> lookup_dependencies names d"
  shows "set (fst r) = pk_Name ` set (Packages d) \<inter> set names"
    and "set (fst (snd r)) = op_Name ` {x \<in> set (OfficialProviders d). op_Provides x \<in> set names}"
    and "set (snd (snd r) n) = (if n \<in> set names then {v. provides_name d n v \<and> \<not> (vd_is_official v \<and> vd_Name v = n)} else {})"
proof -
  have split: "r = (lookup_aur_packages names d, fold add_provider (combined_providers names d) ([], \<lambda>_. []))"
    by (simp add: r_def lookup_dependencies_def split_beta)
  show "set (fst r) = pk_Name ` set (Packages d) \<inter> set names"
    by (auto simp: split lookup_aur_packages_def)
  have "fst (snd r) = fold (\<lambda>v. if vd_is_official v then List.insert (vd_Name v) else id) (combined_providers names d) []"
    by (simp add: split add_providers)
  then have "set (fst (snd r)) = vd_Name ` {v \<in> set (combined_providers names d). vd_is_official v}"
    by (simp add: official_names)
  also have "\<dots> = op_Name ` {x \<in> set (OfficialProviders d). op_Provides x \<in> set names}"
  proof safe
    fix v assume "v \<in> set (combined_providers names d)" "vd_is_official v"
    then show "vd_Name v \<in> op_Name ` {x \<in> set (OfficialProviders d). op_Provides x \<in> set names}"
      by (force simp: set_combined provides_name_def)
  next
    fix x assume x: "x \<in> set (OfficialProviders d)" "op_Provides x \<in> set names"
    then have "\<lparr>vd_Name = op_Name x, vd_provides = op_Provides x, vd_is_official = True\<rparr> \<in> set (combined_providers names d)"
      by (auto simp: set_combined provides_name_def)
    then show "op_Name x \<in> vd_Name ` {v \<in> set (combined_providers names d). vd_is_official v}"
      by (force intro: rev_image_eqI)
  qed
  finally show "set (fst (snd r)) = op_Name ` {x \<in> set (OfficialProviders d). op_Provides x \<in> set names}" .
  have "snd (snd r) n = filter (\<lambda>v. vd_provides v = n \<and> \<not> (vd_is_official v \<and> vd_provides v = vd_Name v)) (combined_providers names d)"
    by (simp add: split add_providers)
  then show "set (snd (snd r) n) = (if n \<in> set names then {v. provides_name d n v \<and> \<not> (vd_is_official v \<and> vd_Name v = n)} else {})"
    by (auto simp: set_combined) (auto simp: provides_name_def)
qed


text \<open>The page of \<open>foo\<close> in the small site, with a dependency on \<open>sh\<close>, which the official \<open>bash\<close> provides.\<close>

definition depends_world :: world where
  "depends_world = demo_world\<lparr>the_db := demo_db\<lparr>
     PackageDepends := [\<lparr>pd_PackageID = 20, pd_DepTypeID = 1, pd_DepName = ''sh'', pd_DepDesc = None,
       pd_DepCondition = None, pd_DepArch = None\<rparr>],
     OfficialProviders := [\<lparr>op_ID = 1, op_Name = ''bash'', op_Repo = ''core'', op_Provides = ''sh''\<rparr>]\<rparr>\<rparr>"


text \<open>The flags of a list of packages agree with those of the pages.\<close>

lemma query_voted_exact:
  assumes "p \<in> set pkgs" and "\<exists>b \<in> set (PackageBases d). pb_ID b = pk_PackageBaseID p"
  shows "query_voted pkgs uid d (pk_PackageBaseID p) \<longleftrightarrow> has_vote uid (pk_PackageBaseID p) d"
proof -
  obtain b where "b \<in> set (listed_bases pkgs d)"
    using assms by (auto simp: listed_bases_def)
  then have "set [v. v \<leftarrow> PackageVotes d, b \<leftarrow> listed_bases pkgs d, pv_UsersID v = uid] = {v \<in> set (PackageVotes d). pv_UsersID v = uid}"
    by auto
  then show ?thesis
    by (simp only: query_voted_def has_vote_def list_ex_iff eq_commute [of "pk_PackageBaseID p"]) blast
qed

lemma query_notified_exact:
  assumes "p \<in> set pkgs" and "\<exists>b \<in> set (PackageBases d). pb_ID b = pk_PackageBaseID p"
  shows "query_notified pkgs uid d (pk_PackageBaseID p) \<longleftrightarrow> notified_of uid (pk_PackageBaseID p) d"
proof -
  obtain b where "b \<in> set (listed_bases pkgs d)"
    using assms by (auto simp: listed_bases_def)
  then have "set [n. n \<leftarrow> PackageNotifications d, b \<leftarrow> listed_bases pkgs d, pn_UserID n = uid] = {n \<in> set (PackageNotifications d). pn_UserID n = uid}"
    by auto
  then show ?thesis
    by (simp only: query_notified_def notified_of_def list_ex_iff eq_commute [of "pk_PackageBaseID p"]) blast
qed

section \<open>Links to sources\<close>

lemma cut_append: "cut sep s = Some (a, b) \<Longrightarrow> a @ sep @ b = s"
proof (induction sep s arbitrary: a rule: cut.induct)
  case (2 sep c cs)
  then show ?case
    by (auto simp del: startswith_append simp: startswithD split: if_splits)
qed (auto split: if_splits)

text \<open>A local file with a plus sign and a name of its own loses what precedes the sign.\<close>

lemma renamed_file_loses_prefix: "source_uri f b ''patch::a+b.patch'' = (''patch'', ''b.patch'')"
  by code_simp

end
