(* ===== verification/Text_Wrap.thy ===== *)
theory Text_Wrap
  imports World
begin

text \<open>
  The text of a notification: the parts of Python's \<open>str\<close> and \<open>textwrap\<close> that
  \<open>aurweb/scripts/notify.py\<close> formats messages with. \<open>wrap_fill\<close> is \<open>textwrap.fill\<close> with
  \<open>break_long_words=False\<close> (width 70, tabs expanded, blanks at line breaks dropped, words
  broken at hyphens only), \<open>py_format\<close> is \<open>str.format\<close> with named fields. Characters outside
  ASCII are no word characters here.

  The lemmas show what a reader of a message relies on: formatting loses no visible character
  (\<open>visible_wrap_fill\<close>), and a line is longer than 70 characters only when it is one piece
  that must not be broken (\<open>wrap_chunks_width\<close>).
\<close>

section \<open>Lines\<close>

definition is_line_end :: "char \<Rightarrow> bool" where
  "is_line_end c \<longleftrightarrow> c \<in> {CHR 0x0A, CHR 0x0B, CHR 0x0C, CHR 0x0D, CHR 0x1C, CHR 0x1D, CHR 0x1E, CHR 0x85}"

text \<open>\<open>s.splitlines()\<close>: CR LF ends one line, and a terminator at the end starts no further line.\<close>

fun join_crlf :: "string \<Rightarrow> string" where
  "join_crlf [] = []"
| "join_crlf (c # cs) =
     (if c = CHR 0x0D \<and> take 1 cs = [nl] then join_crlf cs else c # join_crlf cs)"

definition splitlines :: "string \<Rightarrow> string list" where
  "splitlines s = (let ls = split_by is_line_end (join_crlf s)
     in if last ls = [] then butlast ls else ls)"

text \<open>\<open>s.rstrip()\<close>, \<open>s.upper()\<close> on one character and \<open>s.title()\<close>.\<close>

definition rstrip :: "string \<Rightarrow> string" where
  "rstrip s = rev (dropWhile is_space (rev s))"

definition is_letter :: "char \<Rightarrow> bool" where
  "is_letter c \<longleftrightarrow> is_alnum c \<and> \<not> is_digit c"

definition upper_char :: "char \<Rightarrow> char" where
  "upper_char c = (if CHR ''a'' \<le> c \<and> c \<le> CHR ''z'' then char_of ((of_char c :: nat) - 32) else c)"

fun title_from :: "bool \<Rightarrow> string \<Rightarrow> string" where
  "title_from inside [] = []"
| "title_from inside (c # cs) =
     (if inside then lower_char c else upper_char c) # title_from (is_letter c) cs"

definition title :: "string \<Rightarrow> string" where
  "title s = title_from False s"

section \<open>str.format\<close>

text \<open>
  \<open>template.format(**fields)\<close> for the replacement fields the messages have, plain names in braces:
  an unknown name is a \<open>KeyError\<close>, a number or nothing an \<open>IndexError\<close> (there are no positional
  arguments), a brace that is neither doubled nor part of a field a \<open>ValueError\<close>. The second
  argument is the name read so far, backwards, inside a field.
\<close>

definition field_value :: "(string \<times> string) list \<Rightarrow> string \<Rightarrow> exn + string" where
  "field_value fs name = (if list_all is_digit name then Inl Py_IndexError
     else case map_of fs name of None \<Rightarrow> Inl Py_KeyError | Some v \<Rightarrow> Inr v)"

fun format_from :: "(string \<times> string) list \<Rightarrow> string option \<Rightarrow> string \<Rightarrow> exn + string" where
  "format_from fs None [] = Inr []"
| "format_from fs (Some name) [] = Inl Py_ValueError"
| "format_from fs (Some name) (c # cs) =
     (if c = CHR ''}'' then (case field_value fs (rev name) of Inl e \<Rightarrow> Inl e
        | Inr v \<Rightarrow> map_sum id ((@) v) (format_from fs None cs))
      else if c = CHR ''{'' then Inl Py_ValueError
      else format_from fs (Some (c # name)) cs)"
| "format_from fs None [c] =
     (if c = CHR ''{'' \<or> c = CHR ''}'' then Inl Py_ValueError else Inr [c])"
| "format_from fs None (c # d # cs) =
     (if c = CHR ''{'' then
        (if d = CHR ''{'' then map_sum id (Cons c) (format_from fs None cs)
         else format_from fs (Some []) (d # cs))
      else if c = CHR ''}'' then
        (if d = CHR ''}'' then map_sum id (Cons c) (format_from fs None cs) else Inl Py_ValueError)
      else map_sum id (Cons c) (format_from fs None (d # cs)))"

definition py_format :: "(string \<times> string) list \<Rightarrow> string \<Rightarrow> exn + string" where
  "py_format fs template = format_from fs None template"

section \<open>textwrap.fill\<close>

text \<open>\<open>_munge_whitespace\<close>: tabs to the next multiple of 8, other white space to blanks.\<close>

definition is_wrap_space :: "char \<Rightarrow> bool" where
  "is_wrap_space c \<longleftrightarrow> c \<in> {CHR 0x09, CHR 0x0A, CHR 0x0B, CHR 0x0C, CHR 0x0D, CHR '' ''}"

fun expandtabs :: "nat \<Rightarrow> string \<Rightarrow> string" where
  "expandtabs col [] = []"
| "expandtabs col (c # cs) =
     (if c = CHR 0x09 then replicate (8 - col mod 8) (CHR '' '') @ expandtabs (col + (8 - col mod 8)) cs
      else if c = CHR 0x0A \<or> c = CHR 0x0D then c # expandtabs 0 cs
      else c # expandtabs (Suc col) cs)"

definition munge_whitespace :: "string \<Rightarrow> string" where
  "munge_whitespace s = map (\<lambda>c. if is_wrap_space c then CHR '' '' else c) (expandtabs 0 s)"

text \<open>
  \<open>_split\<close>: the pieces \<open>wordsep_re\<close> finds. \<open>seen\<close> is the text before the current place,
  backwards, for the look-behinds of the expression.
\<close>

definition is_word_char :: "char \<Rightarrow> bool" where
  "is_word_char c \<longleftrightarrow> is_alnum c \<or> c = CHR ''_''"

definition is_word_punct :: "char \<Rightarrow> bool" where
  "is_word_punct c \<longleftrightarrow> is_word_char c \<or> c \<in> {CHR ''!'', CHR 0x22, CHR 0x27, CHR ''&'', CHR ''.'', CHR '','', CHR ''?''}"

definition is_wrap_letter :: "char \<Rightarrow> bool" where
  "is_wrap_letter c \<longleftrightarrow> is_word_char c \<and> \<not> is_digit c"

definition em_dash :: "string \<Rightarrow> string \<Rightarrow> bool" where
  "em_dash seen s \<longleftrightarrow> (case seen of [] \<Rightarrow> False | b # _ \<Rightarrow> is_word_punct b)
     \<and> 2 \<le> length (takeWhile (\<lambda>c. c = CHR ''-'') s)
     \<and> (case dropWhile (\<lambda>c. c = CHR ''-'') s of [] \<Rightarrow> False | c # _ \<Rightarrow> is_word_char c)"

definition after_letters :: "string \<Rightarrow> bool" where
  "after_letters seen \<longleftrightarrow> (case seen of
       a # b # r \<Rightarrow> is_wrap_letter a \<and> (is_wrap_letter b
         \<or> b = CHR ''-'' \<and> (case r of [] \<Rightarrow> False | c # _ \<Rightarrow> is_wrap_letter c))
     | _ \<Rightarrow> False)"

definition letters_follow :: "string \<Rightarrow> bool" where
  "letters_follow s \<longleftrightarrow> (case s of
       a # b # r \<Rightarrow> is_wrap_letter a \<and> (is_wrap_letter b
         \<or> b = CHR ''-'' \<and> (case r of [] \<Rightarrow> False | c # _ \<Rightarrow> is_wrap_letter c))
     | _ \<Rightarrow> False)"

fun rest_of_word :: "string \<Rightarrow> string \<Rightarrow> string \<times> string" where
  "rest_of_word seen [] = ([], [])"
| "rest_of_word seen (c # cs) =
     (if c = CHR ''-'' \<and> after_letters seen \<and> letters_follow cs then ([c], cs)
      else if is_wrap_space c \<or> em_dash seen (c # cs) then ([], c # cs)
      else map_prod (Cons c) id (rest_of_word (c # seen) cs))"

definition next_chunk :: "string \<Rightarrow> char \<Rightarrow> string \<Rightarrow> string \<times> string" where
  "next_chunk seen c cs =
     (if is_wrap_space c then (takeWhile is_wrap_space (c # cs), dropWhile is_wrap_space (c # cs))
      else if em_dash seen (c # cs) then
        (takeWhile (\<lambda>x. x = CHR ''-'') (c # cs), dropWhile (\<lambda>x. x = CHR ''-'') (c # cs))
      else map_prod (Cons c) id (rest_of_word (c # seen) cs))"

lemma rest_of_word_concat: "fst (rest_of_word b s) @ snd (rest_of_word b s) = s"
  by (induction b s rule: rest_of_word.induct) auto

lemma next_chunk_concat: "fst (next_chunk b c cs) @ snd (next_chunk b c cs) = c # cs"
  by (simp add: next_chunk_def rest_of_word_concat del: takeWhile.simps dropWhile.simps)

lemma em_dash_starts: "em_dash b (c # cs) \<Longrightarrow> c = CHR ''-''"
  by (rule ccontr) (simp add: em_dash_def)

lemma next_chunk_nonempty: "fst (next_chunk b c cs) \<noteq> []"
  by (auto simp: next_chunk_def dest: em_dash_starts)

lemma next_chunk_shorter: "length (snd (next_chunk b c cs)) < Suc (length cs)"
proof -
  have "length (fst (next_chunk b c cs)) + length (snd (next_chunk b c cs)) = Suc (length cs)"
    using arg_cong [OF next_chunk_concat [of b c cs], of length] by simp
  then show ?thesis
    using next_chunk_nonempty [of b c cs] by (cases "fst (next_chunk b c cs)") simp_all
qed

function split_chunks :: "string \<Rightarrow> string \<Rightarrow> string list" where
  "split_chunks seen [] = []"
| "split_chunks seen (c # cs) =
     fst (next_chunk seen c cs)
       # split_chunks (rev (fst (next_chunk seen c cs)) @ seen) (snd (next_chunk seen c cs))"
  by pat_completeness auto
termination
  by (relation "measure (length \<circ> snd)") (simp_all add: next_chunk_shorter)

text \<open>\<open>_wrap_chunks\<close>: one line (\<open>started\<close> says that a line was made before), then all of them.\<close>

fun fill_line :: "nat \<Rightarrow> nat \<Rightarrow> string list \<Rightarrow> string list \<times> string list" where
  "fill_line width cur_len [] = ([], [])"
| "fill_line width cur_len (c # cs) =
     (if cur_len + length c \<le> width then map_prod (Cons c) id (fill_line width (cur_len + length c) cs)
      else ([], c # cs))"

definition is_blank :: "string \<Rightarrow> bool" where
  "is_blank s \<longleftrightarrow> strip s = []"

definition drop_first_blank :: "bool \<Rightarrow> string list \<Rightarrow> string list" where
  "drop_first_blank started cs = (if started \<and> is_blank (hd cs) then tl cs else cs)"

definition long_word :: "nat \<Rightarrow> string list \<times> string list \<Rightarrow> string list \<times> string list" where
  "long_word width p = (case p of (line, rest) \<Rightarrow>
     if rest \<noteq> [] \<and> width < length (hd rest) \<and> line = [] then ([hd rest], tl rest)
     else (line, rest))"

definition drop_last_blank :: "string list \<Rightarrow> string list" where
  "drop_last_blank line = (if line \<noteq> [] \<and> is_blank (last line) then butlast line else line)"

definition take_line :: "nat \<Rightarrow> bool \<Rightarrow> string list \<Rightarrow> string list \<times> string list" where
  "take_line width started cs =
     map_prod drop_last_blank id (long_word width (fill_line width 0 (drop_first_blank started cs)))"

lemma fill_line_append: "fst (fill_line n k cs) @ snd (fill_line n k cs) = cs"
  by (induction n k cs rule: fill_line.induct) auto

lemma fill_line_stuck: "fst (fill_line n 0 (c # cs)) = [] \<Longrightarrow> n < length c \<and> snd (fill_line n 0 (c # cs)) = c # cs"
  by (auto split: if_splits)

lemma long_word_append: "fst (long_word n p) @ snd (long_word n p) = fst p @ snd p"
  by (cases p) (auto simp: long_word_def)

lemma line_nonempty: "fst (long_word n (fill_line n 0 (c # cs))) \<noteq> []"
  by (cases "length c \<le> n") (simp_all add: long_word_def split_beta)

lemma take_line_shorter: "length (snd (take_line n b (c # cs))) < Suc (length cs)"
proof -
  let ?cs = "drop_first_blank b (c # cs)"
  let ?p = "long_word n (fill_line n 0 ?cs)"
  have all: "length (fst ?p) + length (snd ?p) = length ?cs"
    using arg_cong [OF long_word_append [of n "fill_line n 0 ?cs"], of length]
    by (simp add: fill_line_append)
  have "?cs = c # cs \<or> ?cs = cs"
    by (simp add: drop_first_blank_def)
  then have "length (snd ?p) < Suc (length cs)"
  proof
    assume "?cs = c # cs"
    with line_nonempty [of n c cs] all show ?thesis
      by (cases "fst ?p") simp_all
  qed (use all in simp)
  then show ?thesis
    by (simp add: take_line_def)
qed

function wrap_chunks :: "nat \<Rightarrow> bool \<Rightarrow> string list \<Rightarrow> string list" where
  "wrap_chunks width started [] = []"
| "wrap_chunks width started (c # cs) =
     (case take_line width started (c # cs) of (line, rest) \<Rightarrow>
        if line = [] then wrap_chunks width started rest
        else concat line # wrap_chunks width True rest)"
  by pat_completeness auto
termination
proof (relation "measure (\<lambda>(width, started, cs). length cs)", goal_cases)
  case (2 n b c cs)
  then show ?case
    using take_line_shorter [of n b c cs] by (simp flip: less_Suc_eq_le) (metis snd_conv)
next
  case (3 n b c cs)
  then show ?case
    using take_line_shorter [of n b c cs] by (simp flip: less_Suc_eq_le) (metis snd_conv)
qed simp

definition wrap_fill :: "string \<Rightarrow> string" where
  "wrap_fill text = join [nl] (wrap_chunks 70 False (split_chunks [] (munge_whitespace text)))"

section \<open>Formatting loses no visible character\<close>

definition visible :: "string \<Rightarrow> string" where
  "visible s = filter (\<lambda>c. \<not> is_space c) s"

lemma visible_simps [simp]:
  "visible [] = []"
  "visible (c # s) = (if is_space c then visible s else c # visible s)"
  "visible (s @ t) = visible s @ visible t"
  by (simp_all add: visible_def)

lemma visible_concat: "visible (concat ss) = concat (map visible ss)"
  by (induction ss) simp_all

lemma is_space_wrap: "is_wrap_space c \<Longrightarrow> is_space c"
  by (auto simp: is_wrap_space_def is_space_def)

lemma is_space_blank [simp]: "is_space (CHR '' '')"
  by (simp add: is_space_def)

lemma is_space_nl [simp]: "is_space nl"
  by (simp add: is_space_def nl_def)

lemma visible_blanks [simp]: "visible (replicate n (CHR '' '')) = []"
  by (simp add: visible_def)

lemma visible_expandtabs: "visible (expandtabs n s) = visible s"
  by (induction n s rule: expandtabs.induct) (auto simp: is_space_def)

lemma visible_munge: "visible (munge_whitespace s) = visible s"
proof -
  have "visible (map (\<lambda>c. if is_wrap_space c then CHR '' '' else c) t) = visible t" for t
    by (induction t) (auto dest: is_space_wrap)
  then show ?thesis
    by (simp add: munge_whitespace_def visible_expandtabs)
qed

lemma visible_none: "visible s = [] \<longleftrightarrow> (\<forall>c \<in> set s. is_space c)"
  by (simp add: visible_def filter_empty_conv)

lemma is_blank_visible: "is_blank s \<longleftrightarrow> visible s = []"
proof -
  have "(\<forall>c \<in> set (dropWhile is_space s). is_space c) \<longleftrightarrow> (\<forall>c \<in> set s. is_space c)"
    by (induction s) auto
  then show ?thesis
    by (simp add: is_blank_def strip_def visible_none)
qed

lemma concat_split_chunks: "concat (split_chunks b s) = s"
  by (induction b s rule: split_chunks.induct) (simp_all add: next_chunk_concat)

abbreviation visibles :: "string list \<Rightarrow> string" where
  "visibles ss \<equiv> concat (map visible ss)"

lemma visibles_drop_first: "cs \<noteq> [] \<Longrightarrow> visibles (drop_first_blank b cs) = visibles cs"
  by (cases cs) (auto simp: drop_first_blank_def is_blank_visible)

lemma visibles_drop_last: "visibles (drop_last_blank line) = visibles line"
  by (cases line rule: rev_cases) (auto simp: drop_last_blank_def is_blank_visible)

lemma visibles_take_line:
  assumes "take_line n b (c # cs) = (line, rest)"
  shows "visibles line @ visibles rest = visibles (c # cs)"
proof -
  let ?p = "long_word n (fill_line n 0 (drop_first_blank b (c # cs)))"
  have "visibles (fst ?p @ snd ?p) = visibles (drop_first_blank b (c # cs))"
    by (simp only: long_word_append fill_line_append)
  then have "visibles (fst ?p) @ visibles (snd ?p) = visibles (c # cs)"
    by (simp only: map_append concat_append visibles_drop_first list.distinct not_False_eq_True)
  with assms show ?thesis
    by (cases ?p) (auto simp: take_line_def visibles_drop_last)
qed

lemma visibles_wrap_chunks: "visibles (wrap_chunks n b cs) = visibles cs"
proof (induction n b cs rule: wrap_chunks.induct)
  case (2 n b c cs)
  obtain line rest where t: "take_line n b (c # cs) = (line, rest)"
    by (cases "take_line n b (c # cs)")
  show ?case
    using visibles_take_line [OF t] "2.IH"(1) [OF t [symmetric]] "2.IH"(2) [OF t [symmetric]]
    by (cases "line = []") (simp_all add: t visible_concat)
qed simp

lemma visible_join: "visible sep = [] \<Longrightarrow> visible (join sep ss) = visibles ss"
  by (induction sep ss rule: join.induct) simp_all

lemma visible_wrap_fill: "visible (wrap_fill s) = visible s"
proof -
  have "visible (wrap_fill s) = visibles (split_chunks [] (munge_whitespace s))"
    by (simp add: wrap_fill_def visible_join visibles_wrap_chunks)
  also have "\<dots> = visible s"
    by (simp only: visible_concat [symmetric] concat_split_chunks visible_munge)
  finally show ?thesis .
qed

section \<open>Formatting keeps the width\<close>

lemma fill_line_width:
  "k \<le> n \<Longrightarrow> k + length (concat (fst (fill_line n k cs))) \<le> n"
  by (induction n k cs rule: fill_line.induct) auto

lemma drop_last_blank_sub: "length (concat (drop_last_blank line)) \<le> length (concat line)"
  by (cases line rule: rev_cases) (auto simp: drop_last_blank_def)

lemma drop_first_blank_sub: "cs \<noteq> [] \<Longrightarrow> set (drop_first_blank b cs) \<subseteq> set cs"
  by (cases cs) (auto simp: drop_first_blank_def)

lemma take_line_rest: "cs \<noteq> [] \<Longrightarrow> set (snd (take_line n b cs)) \<subseteq> set cs"
proof -
  assume "cs \<noteq> []"
  let ?f = "fill_line n 0 (drop_first_blank b cs)"
  have "set (snd (long_word n ?f)) \<subseteq> set (fst ?f @ snd ?f)"
    by (metis long_word_append set_append sup_ge2)
  also have "\<dots> \<subseteq> set cs"
    using drop_first_blank_sub [OF \<open>cs \<noteq> []\<close>] by (simp only: fill_line_append)
  finally show ?thesis
    by (simp add: take_line_def)
qed

lemma take_line_width:
  assumes "cs \<noteq> []"
  shows "length (concat (fst (take_line n b cs))) \<le> n
    \<or> (\<exists>c \<in> set cs. fst (take_line n b cs) = [c] \<and> \<not> is_blank c) \<or> fst (take_line n b cs) = []"
proof -
  let ?f = "fill_line n 0 (drop_first_blank b cs)"
  show ?thesis
  proof (cases "long_word n ?f = ?f")
    case True
    then show ?thesis
      using drop_last_blank_sub [of "fst ?f"] fill_line_width [of 0 n "drop_first_blank b cs"]
      by (simp add: take_line_def)
  next
    case False
    then have f: "fst (long_word n ?f) = [hd (snd ?f)]" "snd ?f \<noteq> []"
      by (auto simp: long_word_def split: prod.splits if_splits)
    have "hd (snd ?f) \<in> set cs"
      using f(2) fill_line_append [of n 0 "drop_first_blank b cs"] drop_first_blank_sub [OF assms]
      by (metis UnCI hd_in_set set_append subsetD)
    with f(1) show ?thesis
      by (auto simp: take_line_def drop_last_blank_def)
  qed
qed

lemma wrap_chunks_width:
  "l \<in> set (wrap_chunks n b cs) \<Longrightarrow> length l \<le> n \<or> (l \<in> set cs \<and> \<not> is_blank l)"
proof (induction n b cs rule: wrap_chunks.induct)
  case (2 n b c cs)
  obtain line rest where t: "take_line n b (c # cs) = (line, rest)"
    by (cases "take_line n b (c # cs)")
  have rest: "set rest \<subseteq> set (c # cs)"
    using take_line_rest [of "c # cs" n b] by (simp only: t snd_conv list.distinct not_False_eq_True simp_thms)
  have line: "line = [] \<or> length (concat line) \<le> n \<or> (\<exists>x \<in> set (c # cs). line = [x] \<and> \<not> is_blank x)"
    using take_line_width [of "c # cs" n b] t by auto
  show ?case
  proof (cases "l \<in> set (wrap_chunks n (b \<or> line \<noteq> []) rest)")
    case True
    then show ?thesis
      using "2.IH"(1,2) [OF t [symmetric]] rest by (cases "line = []") auto
  next
    case False
    then have "l = concat line" "line \<noteq> []"
      using "2.prems" t by (auto split: if_splits)
    with line show ?thesis by auto
  qed
qed simp

lemma takeWhile_all: "c \<in> set (takeWhile p s) \<Longrightarrow> p c"
  by (rule set_takeWhileD [THEN conjunct2])

lemma rest_of_word_no_space: "c \<in> set (fst (rest_of_word b s)) \<Longrightarrow> \<not> is_wrap_space c"
  by (induction b s rule: rest_of_word.induct) (auto simp: is_wrap_space_def split: if_splits)

lemma next_chunk_uniform:
  "list_all is_wrap_space (fst (next_chunk b c cs)) \<or> list_all (\<lambda>c. \<not> is_wrap_space c) (fst (next_chunk b c cs))"
proof (cases "is_wrap_space c")
  case True
  then show ?thesis
    by (simp only: next_chunk_def if_True fst_conv list_all_iff) (blast dest: takeWhile_all)
next
  case False
  show ?thesis
  proof (cases "em_dash b (c # cs)")
    case True
    have "list_all (\<lambda>c. \<not> is_wrap_space c) (takeWhile (\<lambda>x. x = CHR ''-'') (c # cs))"
      by (auto simp: list_all_iff is_wrap_space_def dest: takeWhile_all)
    with True False show ?thesis
      by (simp only: next_chunk_def if_True if_False fst_conv simp_thms)
  next
    case nodash: False
    have "list_all (\<lambda>c. \<not> is_wrap_space c) (fst (rest_of_word (c # b) cs))"
      by (auto simp: list_all_iff dest: rest_of_word_no_space)
    with False nodash show ?thesis
      by (simp add: next_chunk_def)
  qed
qed

lemma split_chunks_uniform:
  "x \<in> set (split_chunks b s) \<Longrightarrow> list_all is_wrap_space x \<or> list_all (\<lambda>c. \<not> is_wrap_space c) x"
proof (induction b s rule: split_chunks.induct)
  case (2 b c cs)
  then show ?case
    using next_chunk_uniform [of b c cs] by auto
qed simp

lemma wrapped_width:
  assumes "l \<in> set (wrap_chunks n b (split_chunks [] s))"
  shows "length l \<le> n \<or> list_all (\<lambda>c. \<not> is_wrap_space c) l"
proof -
  have "list_all is_wrap_space l \<Longrightarrow> is_blank l"
    by (auto simp: is_blank_visible visible_none list_all_iff dest: is_space_wrap)
  then show ?thesis
    using wrap_chunks_width [OF assms] split_chunks_uniform by blast
qed

end
