(* ===== verification/Notify.thy ===== *)
theory Notify
  imports Text_Wrap Account_Routes
begin

text \<open>
  The messages aurweb sends (\<open>aurweb/scripts/notify.py\<close>). A constructor of a notification class
  reads the database and yields a \<open>letter\<close>, the answers of the object's methods (\<open>get_recipients\<close>,
  \<open>get_cc\<close>, \<open>get_bcc\<close>, \<open>get_subject\<close>, \<open>get_body\<close>, \<open>get_refs\<close>, \<open>get_headers\<close>); \<open>send_letter\<close> is
  \<open>Notification.send\<close>, one mail per recipient. Subject and body depend on the recipient's language
  and may raise, as \<open>str.format\<close> does on a translation with a wrong field.

  Parameters (record \<open>mailer\<close>): the options of the section \<open>notifications\<close>, the message catalogs of
  gettext, and for which mails the mail server or the \<open>sendmail\<close> program fails with an \<open>OSError\<close>.
  The wire format of a mail (MIME, encoded headers) is the \<open>email\<close> package's.
\<close>

section \<open>Mails\<close>

text \<open>
  \<open>ml_envelope\<close> holds the addresses the mail is handed to the transport for: the list \<open>deliver_to\<close>
  over SMTP, and with \<open>sendmail -t\<close>, which reads them from the headers, the addresses in To and Cc.
\<close>

record mail =
  ml_subject :: string
  ml_from :: string
  ml_reply_to :: string
  ml_to :: string
  ml_cc :: "string list"
  ml_reason :: string
  ml_date :: int
  ml_headers :: "(string \<times> string) list"
  ml_body :: string
  ml_envelope :: "string list"

record mailer =
  request_ml :: string
  mail_sender :: string
  mail_reply_to :: string
  use_sendmail :: bool
  catalog :: "string \<Rightarrow> string \<Rightarrow> string"
  transport_fails :: "mail \<Rightarrow> bool"

text \<open>\<open>aurweb.l10n.translator.translate(s, lang)\<close>: gettext with the catalog of the language.\<close>

definition translate :: "mailer \<Rightarrow> string \<Rightarrow> string \<Rightarrow> string" where
  "translate ml s lang = catalog ml lang s"

record letter =
  lt_reason :: string
  lt_recipients :: "(string \<times> string) list"
  lt_cc :: "string list"
  lt_bcc :: "string list"
  lt_subject :: "string \<Rightarrow> exn + string"
  lt_body :: "string \<Rightarrow> exn + string"
  lt_refs :: "string list"
  lt_headers :: "(string \<times> string) list"

definition bind_exn :: "exn + 'a \<Rightarrow> ('a \<Rightarrow> exn + 'b) \<Rightarrow> exn + 'b" where
  "bind_exn x f = (case x of Inl e \<Rightarrow> Inl e | Inr y \<Rightarrow> f y)"

definition headers_msgid :: "string \<Rightarrow> (string \<times> string) list" where
  "headers_msgid thread_id = [(''Message-ID'', thread_id)]"

definition headers_reply :: "string \<Rightarrow> (string \<times> string) list" where
  "headers_reply thread_id = [(''In-Reply-To'', thread_id), (''References'', thread_id)]"

text \<open>\<open>get_body_fmt\<close>: the wrapped lines of the body and the numbered references.\<close>

definition body_line :: "string \<Rightarrow> string" where
  "body_line line = (if line = ''--'' then ''--'' @ [nl] else wrap_fill line @ [nl])"

definition numbered_ref :: "nat \<times> string \<Rightarrow> string" where
  "numbered_ref p = (case p of (i, ref) \<Rightarrow> [nl] @ ''['' @ str_nat i @ ''] '' @ ref)"

definition format_body :: "string \<Rightarrow> string list \<Rightarrow> string" where
  "format_body body refs = rstrip (concat (map body_line (splitlines body))
     @ concat (map numbered_ref (enumerate 1 refs)))"

definition get_body_fmt :: "letter \<Rightarrow> string \<Rightarrow> exn + string" where
  "get_body_fmt l lang = bind_exn (lt_body l lang) (\<lambda>body. Inr (format_body body (lt_refs l)))"

text \<open>\<open>_send\<close>: the mail for one recipient, and the loop over them.\<close>

definition make_mail :: "mailer \<Rightarrow> int \<Rightarrow> letter \<Rightarrow> string \<times> string \<Rightarrow> exn + mail" where
  "make_mail ml t l recipient = (case recipient of (to, lang) \<Rightarrow>
     bind_exn (get_body_fmt l lang) (\<lambda>body.
     bind_exn (lt_subject l lang) (\<lambda>subject.
     Inr \<lparr>ml_subject = subject, ml_from = mail_sender ml, ml_reply_to = mail_reply_to ml, ml_to = to,
       ml_cc = lt_cc l, ml_reason = lt_reason l, ml_date = t, ml_headers = lt_headers l,
       ml_body = body,
       ml_envelope = (if use_sendmail ml then to # lt_cc l else to # lt_cc l @ lt_bcc l)\<rparr>)))"

datatype send_error = Exc exn | OSError

definition send_one :: "mailer \<Rightarrow> int \<Rightarrow> letter \<Rightarrow> string \<times> string \<Rightarrow> (send_error, unit, mail list) prog" where
  "send_one ml t l recipient = (case make_mail ml t l recipient of
       Inl e \<Rightarrow> throw (Exc e)
     | Inr m \<Rightarrow> if transport_fails ml m then throw OSError else modify (\<lambda>ms. ms @ [m]))"

definition send_all :: "mailer \<Rightarrow> int \<Rightarrow> letter \<Rightarrow> (send_error, unit, mail list) prog" where
  "send_all ml t l = for_each (lt_recipients l) (send_one ml t l)"

text \<open>\<open>send\<close> logs an \<open>OSError\<close> and returns.\<close>

definition send_letter :: "mailer \<Rightarrow> int \<Rightarrow> letter \<Rightarrow> (send_error, unit, mail list) prog" where
  "send_letter ml t l = catch (send_all ml t l) (\<lambda>e. if e = OSError then ret () else throw e)"

section \<open>The constructors\<close>

text \<open>\<open>db.query(...).first().Username\<close> and its kin: \<open>None\<close> has no attributes.\<close>

definition first_of :: "(db \<Rightarrow> 'r list) \<Rightarrow> ('r \<Rightarrow> bool) \<Rightarrow> 'r aur" where
  "first_of rows p = andthen (query (\<lambda>d. List.find p (rows d))) (the_or Py_AttributeError)"

definition user_name :: "nat \<Rightarrow> string aur" where
  "user_name uid = andthen (first_of Users (\<lambda>u. u_ID u = uid)) (\<lambda>u. ret (u_Username u))"

definition base_name :: "nat \<Rightarrow> string aur" where
  "base_name i = andthen (first_of PackageBases (\<lambda>b. pb_ID b = i)) (\<lambda>b. ret (pb_Name b))"

definition account_ref :: "config \<Rightarrow> string \<Rightarrow> string" where
  "account_ref cfg user = aur_location cfg @ ''/account/'' @ user @ ''/''"

definition pkgbase_ref :: "config \<Rightarrow> string \<Rightarrow> string" where
  "pkgbase_ref cfg pkgbase = aur_location cfg @ ''/pkgbase/'' @ pkgbase @ ''/''"

text \<open>The recipients of a message about an account: its address and its backup address, if it has one.\<close>

definition own_addresses :: "users_row \<Rightarrow> (string \<times> string) list" where
  "own_addresses u = (case u_BackupEmail u of None \<Rightarrow> [(u_Email u, u_LangPreference u)]
     | Some b \<Rightarrow> if b = [] then [(u_Email u, u_LangPreference u)]
         else [(u_Email u, u_LangPreference u), (b, u_LangPreference u)])"

definition unsuspended :: "nat \<Rightarrow> users_row aur" where
  "unsuspended uid = first_of Users (\<lambda>u. u_ID u = uid \<and> \<not> u_Suspended u)"

definition reset_refs :: "config \<Rightarrow> users_row \<Rightarrow> string list" where
  "reset_refs cfg u = [aur_location cfg @ ''/passreset/?resetkey='' @ u_ResetKey u]"

definition reset_key_letter :: "config \<Rightarrow> mailer \<Rightarrow> nat \<Rightarrow> letter aur" where
  "reset_key_letter cfg ml uid = andthen (unsuspended uid) (\<lambda>u. ret \<lparr>
     lt_reason = ''ResetKey'', lt_recipients = own_addresses u, lt_cc = [], lt_bcc = [],
     lt_subject = (\<lambda>lang. Inr (translate ml ''AUR Password Reset'' lang)),
     lt_body = (\<lambda>lang. py_format [(''user'', u_Username u)] (translate ml
       (''A password reset request was submitted for the account ''
        @ ''{user} associated with your email address. If you wish to ''
        @ ''reset your password follow the link [1] below, otherwise ''
        @ ''ignore this message and nothing will happen.'') lang)),
     lt_refs = reset_refs cfg u, lt_headers = []\<rparr>)"

definition welcome_letter :: "config \<Rightarrow> mailer \<Rightarrow> nat \<Rightarrow> letter aur" where
  "welcome_letter cfg ml uid = andthen (unsuspended uid) (\<lambda>u. ret \<lparr>
     lt_reason = ''Welcome'', lt_recipients = own_addresses u, lt_cc = [], lt_bcc = [],
     lt_subject = (\<lambda>lang. Inr (translate ml ''Welcome to the Arch User Repository'' lang)),
     lt_body = (\<lambda>lang. Inr (translate ml
       (''Welcome to the Arch User Repository! In order to set an ''
        @ ''initial password for your new account, please click the ''
        @ ''link [1] below. If the link does not work, try copying and ''
        @ ''pasting it into your browser.'') lang)),
     lt_refs = reset_refs cfg u, lt_headers = []\<rparr>)"

text \<open>
  \<open>self._token\<close> may be None; \<open>get_refs\<close> then raises a \<open>TypeError\<close> when the mail is built, after
  the body is.
\<close>

definition verify_refs :: "config \<Rightarrow> users_row \<Rightarrow> string list" where
  "verify_refs cfg u = (case u_EmailVerificationToken u of None \<Rightarrow> []
     | Some token \<Rightarrow> [aur_location cfg @ ''/account/verify/'' @ token])"

definition with_token :: "users_row \<Rightarrow> (exn + string) \<Rightarrow> exn + string" where
  "with_token u body = bind_exn body (\<lambda>b.
     if u_EmailVerificationToken u = None then Inl Py_TypeError else Inr b)"

definition verification_letter :: "config \<Rightarrow> mailer \<Rightarrow> nat \<Rightarrow> letter aur" where
  "verification_letter cfg ml uid = andthen (unsuspended uid) (\<lambda>u. ret \<lparr>
     lt_reason = ''Verification'', lt_recipients = own_addresses u, lt_cc = [], lt_bcc = [],
     lt_subject = (\<lambda>lang. Inr (translate ml ''AUR Email Verification'' lang)),
     lt_body = (\<lambda>lang. with_token u (py_format [(''user'', u_Username u)] (translate ml
       (''A verification request was submitted for the email address ''
        @ ''associated with the account {user}. To verify your address ''
        @ ''and enable pushing to the AUR, follow the link [1] below. ''
        @ ''If you did not request this, ignore this message.'') lang))),
     lt_refs = verify_refs cfg u, lt_headers = []\<rparr>)"

definition verification_reminder_letter :: "config \<Rightarrow> mailer \<Rightarrow> nat \<Rightarrow> int \<Rightarrow> letter aur" where
  "verification_reminder_letter cfg ml uid days_left = andthen (unsuspended uid) (\<lambda>u. ret \<lparr>
     lt_reason = ''VerificationReminder'', lt_recipients = own_addresses u, lt_cc = [], lt_bcc = [],
     lt_subject = (\<lambda>lang. Inr (translate ml ''AUR Account Pending Deletion'' lang)),
     lt_body = (\<lambda>lang. with_token u (py_format [(''user'', u_Username u), (''days'', str_int days_left)]
       (translate ml
       (''The email address for the account {user} has never been ''
        @ ''verified. The account will be deleted in {days} days unless ''
        @ ''you verify the address by following the link [1] below. ''
        @ ''If you no longer want this account, ignore this message and ''
        @ ''it will be deleted for you.'') lang))),
     lt_refs = verify_refs cfg u, lt_headers = []\<rparr>)"

subsection \<open>Messages to those who watch a package base\<close>

text \<open>
  \<open>db.query(User).join(PackageNotification).filter(...).with_entities(Email, LangPreference)
  .distinct()\<close>: the users who watch the package base, have the kind of message switched on, are not
  the acting user and are not suspended.
\<close>

definition notified_watchers :: "(users_row \<Rightarrow> bool) \<Rightarrow> nat \<Rightarrow> nat \<Rightarrow> db \<Rightarrow> (string \<times> string) list" where
  "notified_watchers flag uid pkgbase_id d = remdups (map (\<lambda>u. (u_Email u, u_LangPreference u))
     [u. u \<leftarrow> Users d, n \<leftarrow> PackageNotifications d, pn_UserID n = u_ID u
       \<and> flag u \<and> pn_UserID n \<noteq> uid \<and> pn_PackageBaseID n = pkgbase_id \<and> \<not> u_Suspended u])"

text \<open>The footer that tells how to switch the messages off, and the thread of a package base.\<close>

definition disable_label :: "mailer \<Rightarrow> string \<Rightarrow> string" where
  "disable_label ml lang = translate ml ''Disable notifications'' lang"

definition disable_footer :: "mailer \<Rightarrow> string \<Rightarrow> exn + string" where
  "disable_footer ml lang = py_format [(''label'', disable_label ml lang)] (translate ml
     (''If you no longer wish to receive notifications about this ''
      @ ''package, please go to the package page [2] and select ''
      @ [CHR 0x22] @ ''{label}'' @ [CHR 0x22] @ ''.'') lang)"

definition pkgbase_thread :: "string \<Rightarrow> string" where
  "pkgbase_thread pkgbase = ''<pkg-notifications-'' @ pkgbase @ ''@aur.archlinux.org>''"

definition comment_letter :: "config \<Rightarrow> mailer \<Rightarrow> nat \<Rightarrow> nat \<Rightarrow> nat \<Rightarrow> letter aur" where
  "comment_letter cfg ml uid pkgbase_id comment_id =
     andthen (user_name uid) (\<lambda>user.
     andthen (base_name pkgbase_id) (\<lambda>pkgbase.
     andthen (query (notified_watchers u_CommentNotify uid pkgbase_id)) (\<lambda>recipients.
     andthen (first_of PackageComments (\<lambda>c. pc_ID c = comment_id)) (\<lambda>c. ret \<lparr>
       lt_reason = ''Comment'', lt_recipients = recipients, lt_cc = [], lt_bcc = [],
       lt_subject = (\<lambda>lang. py_format [(''pkgbase'', pkgbase)]
         (translate ml ''AUR Comment for {pkgbase}'' lang)),
       lt_body = (\<lambda>lang.
         bind_exn (py_format [(''user'', user), (''pkgbase'', pkgbase)] (translate ml
           ''{user} [1] added the following comment to {pkgbase} [2]:'' lang)) (\<lambda>body.
         bind_exn (disable_footer ml lang) (\<lambda>footer.
         Inr (body @ [nl, nl] @ pc_Comments c @ [nl, nl] @ ''--'' @ [nl] @ footer)))),
       lt_refs = [account_ref cfg user, pkgbase_ref cfg pkgbase],
       lt_headers = headers_reply (pkgbase_thread pkgbase)\<rparr>))))"

definition update_letter :: "config \<Rightarrow> mailer \<Rightarrow> nat \<Rightarrow> nat \<Rightarrow> letter aur" where
  "update_letter cfg ml uid pkgbase_id =
     andthen (user_name uid) (\<lambda>user.
     andthen (base_name pkgbase_id) (\<lambda>pkgbase.
     andthen (query (notified_watchers u_UpdateNotify uid pkgbase_id)) (\<lambda>recipients. ret \<lparr>
       lt_reason = ''Update'', lt_recipients = recipients, lt_cc = [], lt_bcc = [],
       lt_subject = (\<lambda>lang. py_format [(''pkgbase'', pkgbase)]
         (translate ml ''AUR Package Update: {pkgbase}'' lang)),
       lt_body = (\<lambda>lang.
         bind_exn (py_format [(''user'', user), (''pkgbase'', pkgbase)] (translate ml
           ''{user} [1] pushed a new commit to {pkgbase} [2].'' lang)) (\<lambda>body.
         bind_exn (disable_footer ml lang) (\<lambda>footer.
         Inr (body @ [nl, nl] @ ''--'' @ [nl] @ footer)))),
       lt_refs = [account_ref cfg user, pkgbase_ref cfg pkgbase],
       lt_headers = headers_reply (pkgbase_thread pkgbase)\<rparr>)))"

text \<open>
  \<open>OwnershipEventNotification\<close> and its two subclasses; \<open>template\<close> is the message of the subclass. The
  constructor also reads the flagger's comment, which no method uses.
\<close>

definition ownership_letter :: "config \<Rightarrow> mailer \<Rightarrow> string \<Rightarrow> string \<Rightarrow> nat \<Rightarrow> nat \<Rightarrow> letter aur" where
  "ownership_letter cfg ml reason template uid pkgbase_id =
     andthen (user_name uid) (\<lambda>user.
     andthen (base_name pkgbase_id) (\<lambda>pkgbase.
     andthen (query (notified_watchers u_OwnershipNotify uid pkgbase_id)) (\<lambda>recipients.
     andthen (first_of PackageBases (\<lambda>b. pb_ID b = pkgbase_id)) (\<lambda>_. ret \<lparr>
       lt_reason = reason, lt_recipients = recipients, lt_cc = [], lt_bcc = [],
       lt_subject = (\<lambda>lang. py_format [(''pkgbase'', pkgbase)]
         (translate ml ''AUR Ownership Notification for {pkgbase}'' lang)),
       lt_body = (\<lambda>lang. py_format [(''pkgbase'', pkgbase), (''user'', user)] (translate ml template lang)),
       lt_refs = [pkgbase_ref cfg pkgbase, account_ref cfg user], lt_headers = []\<rparr>))))"

definition adopt_letter :: "config \<Rightarrow> mailer \<Rightarrow> nat \<Rightarrow> nat \<Rightarrow> letter aur" where
  "adopt_letter cfg ml = ownership_letter cfg ml ''Adopt'' ''The package {pkgbase} [1] was adopted by {user} [2].''"

definition disown_letter :: "config \<Rightarrow> mailer \<Rightarrow> nat \<Rightarrow> nat \<Rightarrow> letter aur" where
  "disown_letter cfg ml = ownership_letter cfg ml ''Disown'' ''The package {pkgbase} [1] was disowned by {user} [2].''"

text \<open>\<open>DeleteNotification\<close>: no switch, every watcher; \<open>new_id\<close> is the target of a merge.\<close>

definition delete_letter :: "config \<Rightarrow> mailer \<Rightarrow> nat \<Rightarrow> nat \<Rightarrow> nat option \<Rightarrow> letter aur" where
  "delete_letter cfg ml uid old_id new_id =
     andthen (user_name uid) (\<lambda>user.
     andthen (base_name old_id) (\<lambda>old.
     andthen (case new_id of None \<Rightarrow> ret None | Some i \<Rightarrow> andthen (base_name i) (\<lambda>n. ret (Some n))) (\<lambda>new.
     andthen (query (notified_watchers (\<lambda>_. True) uid old_id)) (\<lambda>recipients. ret \<lparr>
       lt_reason = ''Delete'', lt_recipients = recipients, lt_cc = [], lt_bcc = [],
       lt_subject = (\<lambda>lang. py_format [(''pkgbase'', old)]
         (translate ml ''AUR Package deleted: {pkgbase}'' lang)),
       lt_body = (\<lambda>lang. case new of
           Some n \<Rightarrow> if n \<noteq> [] then
             py_format [(''user'', user), (''old'', old), (''new'', n), (''label'', disable_label ml lang)]
               (translate ml (''{user} [1] merged {old} [2] into {new} [3].'' @ [nl, nl]
                 @ ''--'' @ [nl]
                 @ ''If you no longer wish receive notifications about the ''
                 @ ''new package, please go to [3] and click '' @ [CHR 0x22] @ ''{label}'' @ [CHR 0x22]
                 @ ''.'') lang)
             else py_format [(''user'', user), (''pkgbase'', old)]
               (translate ml (''{user} [1] deleted {pkgbase} [2].'' @ [nl, nl]
                 @ ''You will no longer receive notifications about this package.'') lang)
         | None \<Rightarrow> py_format [(''user'', user), (''pkgbase'', old)]
             (translate ml (''{user} [1] deleted {pkgbase} [2].'' @ [nl, nl]
               @ ''You will no longer receive notifications about this package.'') lang)),
       lt_refs = [account_ref cfg user, pkgbase_ref cfg old]
         @ (case new of None \<Rightarrow> [] | Some n \<Rightarrow> if n = [] then [] else [pkgbase_ref cfg n]),
       lt_headers = []\<rparr>))))"

subsection \<open>Messages to those who maintain a package base\<close>

text \<open>A left outer join: the matching rows, or NULL when there is none.\<close>

definition left_join :: "('a \<Rightarrow> 'b \<Rightarrow> bool) \<Rightarrow> 'b list \<Rightarrow> 'a \<Rightarrow> 'b option list" where
  "left_join on bs a = (if \<exists>b \<in> set bs. on a b then map Some (filter (on a) bs) else [None])"

definition row_is :: "('b \<Rightarrow> bool) \<Rightarrow> 'b option \<Rightarrow> bool" where
  "row_is p row = (case row of None \<Rightarrow> False | Some b \<Rightarrow> p b)"

definition maintaining :: "nat \<Rightarrow> db \<Rightarrow> (string \<times> string) list" where
  "maintaining pkgbase_id d = sort_key (\<lambda>r. char_codes (fst r)) (remdups
     (map (\<lambda>u. (u_Email u, u_LangPreference u))
       [u. u \<leftarrow> Users d,
           c \<leftarrow> left_join (\<lambda>u c. cm_UsersID c = u_ID u) (PackageComaintainers d) u,
           b \<leftarrow> PackageBases d,
           (pb_MaintainerUID b = Some (u_ID u) \<or> row_is (\<lambda>c. pb_ID b = cm_PackageBaseID c) c)
           \<and> pb_ID b = pkgbase_id \<and> \<not> u_Suspended u]))"

definition flag_letter :: "config \<Rightarrow> mailer \<Rightarrow> nat \<Rightarrow> nat \<Rightarrow> letter aur" where
  "flag_letter cfg ml uid pkgbase_id =
     andthen (user_name uid) (\<lambda>user.
     andthen (base_name pkgbase_id) (\<lambda>pkgbase.
     andthen (query (maintaining pkgbase_id)) (\<lambda>recipients.
     andthen (first_of PackageBases (\<lambda>b. pb_ID b = pkgbase_id)) (\<lambda>b. ret \<lparr>
       lt_reason = ''Flag'', lt_recipients = recipients, lt_cc = [], lt_bcc = [],
       lt_subject = (\<lambda>lang. py_format [(''pkgbase'', pkgbase)]
         (translate ml ''AUR Out-of-date Notification for {pkgbase}'' lang)),
       lt_body = (\<lambda>lang.
         bind_exn (py_format [(''pkgbase'', pkgbase), (''user'', user)] (translate ml
           ''Your package {pkgbase} [1] has been flagged out-of-date by {user} [2]:'' lang)) (\<lambda>body.
         Inr (body @ [nl, nl] @ pb_FlaggerComment b))),
       lt_refs = [pkgbase_ref cfg pkgbase, account_ref cfg user], lt_headers = []\<rparr>))))"

text \<open>\<open>ComaintainershipEventNotification\<close>: to the co-maintainer.\<close>

definition comaintainership_letter :: "config \<Rightarrow> mailer \<Rightarrow> string \<Rightarrow> string \<Rightarrow> nat \<Rightarrow> nat \<Rightarrow> letter aur" where
  "comaintainership_letter cfg ml reason template uid pkgbase_id =
     andthen (base_name pkgbase_id) (\<lambda>pkgbase.
     andthen (first_of Users (\<lambda>u. u_ID u = uid)) (\<lambda>u. ret \<lparr>
       lt_reason = reason, lt_recipients = [(u_Email u, u_LangPreference u)], lt_cc = [], lt_bcc = [],
       lt_subject = (\<lambda>lang. py_format [(''pkgbase'', pkgbase)]
         (translate ml ''AUR Co-Maintainer Notification for {pkgbase}'' lang)),
       lt_body = (\<lambda>lang. py_format [(''pkgbase'', pkgbase)] (translate ml template lang)),
       lt_refs = [pkgbase_ref cfg pkgbase], lt_headers = []\<rparr>))"

definition comaintainer_add_letter :: "config \<Rightarrow> mailer \<Rightarrow> nat \<Rightarrow> nat \<Rightarrow> letter aur" where
  "comaintainer_add_letter cfg ml = comaintainership_letter cfg ml ''ComaintainerAdd''
     ''You were added to the co-maintainer list of {pkgbase} [1].''"

definition comaintainer_remove_letter :: "config \<Rightarrow> mailer \<Rightarrow> nat \<Rightarrow> nat \<Rightarrow> letter aur" where
  "comaintainer_remove_letter cfg ml = comaintainership_letter cfg ml ''ComaintainerRemove''
     ''You were removed from the co-maintainer list of {pkgbase} [1].''"

subsection \<open>Messages to the mailing list\<close>

text \<open>
  Those a request concerns: its author, and the maintainer and the co-maintainers of its package
  base, with the flag that hides their addresses. Without a package base the join has no row.
\<close>

definition concerned :: "nat \<Rightarrow> db \<Rightarrow> (string \<times> bool) list" where
  "concerned reqid d = remdups (map (\<lambda>u. (u_Email u, u_HideEmail u))
     [u. r \<leftarrow> PackageRequests d,
         b \<leftarrow> PackageBases d,
         c \<leftarrow> left_join (\<lambda>r c. pr_PackageBaseID r = Some (cm_PackageBaseID c)) (PackageComaintainers d) r,
         u \<leftarrow> Users d,
         pr_PackageBaseID r = Some (pb_ID b)
         \<and> (pr_UsersID r = Some (u_ID u) \<or> pb_MaintainerUID b = Some (u_ID u)
            \<or> row_is (\<lambda>c. cm_UsersID c = u_ID u) c)
         \<and> pr_ID r = reqid \<and> \<not> u_Suspended u])"

definition shown_addresses :: "(string \<times> bool) list \<Rightarrow> string list" where
  "shown_addresses rows = map fst (filter (\<lambda>(email, hide). \<not> hide) rows)"

definition hidden_addresses :: "(string \<times> bool) list \<Rightarrow> string list" where
  "hidden_addresses rows = map fst (filter (\<lambda>(email, hide). hide) rows)"

definition request_thread :: "nat \<Rightarrow> string" where
  "request_thread reqid = ''<pkg-request-'' @ str_nat reqid @ ''@aur.archlinux.org>''"

definition request_open_letter ::
    "config \<Rightarrow> mailer \<Rightarrow> nat \<Rightarrow> nat \<Rightarrow> string \<Rightarrow> nat \<Rightarrow> string option \<Rightarrow> letter aur" where
  "request_open_letter cfg ml uid reqid reqtype pkgbase_id merge_into =
     andthen (user_name uid) (\<lambda>user.
     andthen (base_name pkgbase_id) (\<lambda>pkgbase.
     andthen (query (concerned reqid)) (\<lambda>rows.
     andthen (first_of PackageRequests (\<lambda>r. pr_ID r = reqid)) (\<lambda>r.
     let merge = (case merge_into of None \<Rightarrow> [] | Some m \<Rightarrow> m) in ret \<lparr>
       lt_reason = ''RequestOpen'', lt_recipients = [(request_ml ml, ''en'')],
       lt_cc = shown_addresses rows, lt_bcc = hidden_addresses rows,
       lt_subject = (\<lambda>lang. Inr (''[PRQ#'' @ str_nat reqid @ ''] '' @ title reqtype @ '' Request for '' @ pkgbase)),
       lt_body = (\<lambda>lang.
         if merge \<noteq> [] then Inr (user @ '' [1] filed a request to merge '' @ pkgbase @ '' [2] into ''
           @ merge @ '' [3]:'' @ [nl, nl] @ pr_Comments r)
         else if reqtype = [] then Inl Py_IndexError
         else Inr (user @ '' [1] filed '' @ (if hd reqtype \<in> set ''aeiou'' then ''an'' else ''a'') @ '' ''
           @ reqtype @ '' request for '' @ pkgbase @ '' [2]:'' @ [nl, nl] @ pr_Comments r)),
       lt_refs = [account_ref cfg user, pkgbase_ref cfg pkgbase]
         @ (if merge = [] then [] else [pkgbase_ref cfg merge]),
       lt_headers = headers_msgid (request_thread reqid)\<rparr>))))"

definition request_close_letter :: "config \<Rightarrow> mailer \<Rightarrow> nat \<Rightarrow> nat \<Rightarrow> string \<Rightarrow> letter aur" where
  "request_close_letter cfg ml uid reqid reason =
     andthen (query (\<lambda>d. List.find (\<lambda>u. u_ID u = uid) (Users d))) (\<lambda>found.
     let user = (case found of None \<Rightarrow> [] | Some u \<Rightarrow> u_Username u) in
     andthen (query (concerned reqid)) (\<lambda>rows.
     andthen (first_of PackageRequests (\<lambda>r. pr_ID r = reqid)) (\<lambda>r.
     andthen (first_of RequestTypes (\<lambda>t. qt_ID t = pr_ReqTypeID r)) (\<lambda>t. ret \<lparr>
       lt_reason = ''RequestClose'', lt_recipients = [(request_ml ml, ''en'')],
       lt_cc = shown_addresses rows, lt_bcc = hidden_addresses rows,
       lt_subject = (\<lambda>lang. Inr (''[PRQ#'' @ str_nat reqid @ ''] '' @ title (qt_Name t) @ '' Request for ''
         @ pr_PackageBaseName r @ '' '' @ title reason)),
       lt_body = (\<lambda>lang. Inr (
         (if user \<noteq> [] then ''Request #'' @ str_nat reqid @ '' has been '' @ reason @ '' by '' @ user @ '' [1]''
          else ''Request #'' @ str_nat reqid @ '' has been '' @ reason
            @ '' automatically by the Arch User Repository package request system'')
         @ (if strip (pr_ClosureComment r) = [] then ''.'' else '':'' @ [nl, nl] @ pr_ClosureComment r))),
       lt_refs = (if user \<noteq> [] then [account_ref cfg user] else []),
       lt_headers = headers_reply (request_thread reqid)\<rparr>))))"

definition vote_reminder_letter :: "config \<Rightarrow> mailer \<Rightarrow> nat \<Rightarrow> letter aur" where
  "vote_reminder_letter cfg ml vote_id =
     andthen (query (\<lambda>d. map (\<lambda>u. (u_Email u, u_LangPreference u)) (filter (\<lambda>u.
       u_AccountTypeID u \<in> {2, 4}
       \<and> u_ID u \<notin> set (map vt_UserID (filter (\<lambda>v. vt_VoteID v = vote_id) (Votes d)))
       \<and> \<not> u_Suspended u) (Users d)))) (\<lambda>recipients. ret \<lparr>
       lt_reason = ''VoteReminder'', lt_recipients = recipients, lt_cc = [], lt_bcc = [],
       lt_subject = (\<lambda>lang. py_format [(''id'', str_nat vote_id)]
         (translate ml ''Package Maintainer Vote Reminder: Proposal {id}'' lang)),
       lt_body = (\<lambda>lang. py_format [(''id'', str_nat vote_id)] (translate ml
         (''Please remember to cast your vote on proposal {id} [1]. ''
          @ ''The voting period ends in less than 48 hours.'') lang)),
       lt_refs = [aur_location cfg @ ''/package-maintainer/?id='' @ str_nat vote_id],
       lt_headers = []\<rparr>)"

section \<open>Sending a notification\<close>

text \<open>
  The letter of each class as the handlers build it. The no-op class of \<open>pkgbase/util.py\<close>, whose
  \<open>send\<close> does nothing, has no recipients here.
\<close>

definition no_letter :: letter where
  "no_letter = \<lparr>lt_reason = [], lt_recipients = [], lt_cc = [], lt_bcc = [],
     lt_subject = (\<lambda>lang. Inr []), lt_body = (\<lambda>lang. Inr []), lt_refs = [], lt_headers = []\<rparr>"

fun letter_of :: "config \<Rightarrow> mailer \<Rightarrow> notification \<Rightarrow> letter aur" where
  "letter_of cfg ml (ResetKeyNotification uid) = reset_key_letter cfg ml uid"
| "letter_of cfg ml (WelcomeNotification uid) = welcome_letter cfg ml uid"
| "letter_of cfg ml (VerificationNotification uid) = verification_letter cfg ml uid"
| "letter_of cfg ml (VerificationReminderNotification uid days) = verification_reminder_letter cfg ml uid days"
| "letter_of cfg ml (CommentNotification uid i c) = comment_letter cfg ml uid i c"
| "letter_of cfg ml (UpdateNotification uid i) = update_letter cfg ml uid i"
| "letter_of cfg ml (FlagNotification uid i) = flag_letter cfg ml uid i"
| "letter_of cfg ml (AdoptNotification uid i) = adopt_letter cfg ml uid i"
| "letter_of cfg ml (DisownNotification uid i) = disown_letter cfg ml uid i"
| "letter_of cfg ml (ComaintainerAddNotification uid i) = comaintainer_add_letter cfg ml uid i"
| "letter_of cfg ml (ComaintainerRemoveNotification uid i) = comaintainer_remove_letter cfg ml uid i"
| "letter_of cfg ml (DeleteNotification uid i) = delete_letter cfg ml uid i None"
| "letter_of cfg ml (RequestOpenNotification uid r t i m) = request_open_letter cfg ml uid r t i m"
| "letter_of cfg ml (RequestCloseNotification uid r reason) = request_close_letter cfg ml uid r reason"
| "letter_of cfg ml (VoteReminderNotification v) = vote_reminder_letter cfg ml v"
| "letter_of cfg ml NoopComaintainerNotification = ret no_letter"

text \<open>What a notification built and sent in world \<open>w\<close> hands to the transport.\<close>

definition post :: "config \<Rightarrow> mailer \<Rightarrow> notification \<Rightarrow> world \<Rightarrow> (send_error + unit) \<times> mail list" where
  "post cfg ml n w = (case letter_of cfg ml n w of (Inl e, _) \<Rightarrow> (Inl (Exc e), [])
     | (Inr l, _) \<Rightarrow> send_letter ml (now w) l [])"

text \<open>
  \<open>main\<close>: the class that \<open>action_map\<close> has for the action, built from the other arguments of the
  command line. Numbers are given in decimal; \<open>delete\<close> and \<open>request-open\<close> have an optional last one.
\<close>

definition merge_arg :: "string \<Rightarrow> nat option" where
  "merge_arg s = (if s = [] then None else Some (nat_of_digits s))"

definition build_action :: "config \<Rightarrow> mailer \<Rightarrow> string \<Rightarrow> string list \<Rightarrow> letter aur" where
  "build_action cfg ml action args =
     (let one = (\<lambda>f. case args of [a] \<Rightarrow> f (nat_of_digits a) | _ \<Rightarrow> throw Py_TypeError);
          two = (\<lambda>f. case args of [a, b] \<Rightarrow> f (nat_of_digits a) (nat_of_digits b) | _ \<Rightarrow> throw Py_TypeError)
      in if action = ''send-resetkey'' then one (reset_key_letter cfg ml)
      else if action = ''welcome'' then one (welcome_letter cfg ml)
      else if action = ''comment'' then (case args of
          [a, b, c] \<Rightarrow> comment_letter cfg ml (nat_of_digits a) (nat_of_digits b) (nat_of_digits c)
        | _ \<Rightarrow> throw Py_TypeError)
      else if action = ''update'' then two (update_letter cfg ml)
      else if action = ''flag'' then two (flag_letter cfg ml)
      else if action = ''adopt'' then two (adopt_letter cfg ml)
      else if action = ''disown'' then two (disown_letter cfg ml)
      else if action = ''comaintainer-add'' then two (comaintainer_add_letter cfg ml)
      else if action = ''comaintainer-remove'' then two (comaintainer_remove_letter cfg ml)
      else if action = ''delete'' then (case args of
          [a, b] \<Rightarrow> delete_letter cfg ml (nat_of_digits a) (nat_of_digits b) None
        | [a, b, c] \<Rightarrow> delete_letter cfg ml (nat_of_digits a) (nat_of_digits b) (merge_arg c)
        | _ \<Rightarrow> throw Py_TypeError)
      else if action = ''request-open'' then (case args of
          [a, b, t, i] \<Rightarrow> request_open_letter cfg ml (nat_of_digits a) (nat_of_digits b) t (nat_of_digits i) None
        | [a, b, t, i, m] \<Rightarrow>
            request_open_letter cfg ml (nat_of_digits a) (nat_of_digits b) t (nat_of_digits i) (Some m)
        | _ \<Rightarrow> throw Py_TypeError)
      else if action = ''request-close'' then (case args of
          [a, b, reason] \<Rightarrow> request_close_letter cfg ml (nat_of_digits a) (nat_of_digits b) reason
        | _ \<Rightarrow> throw Py_TypeError)
      else if action = ''vote-reminder'' then one (vote_reminder_letter cfg ml)
      else throw Py_KeyError)"

definition notify_main :: "config \<Rightarrow> mailer \<Rightarrow> string list \<Rightarrow> world \<Rightarrow> (send_error + unit) \<times> mail list" where
  "notify_main cfg ml argv w = (case argv of
       name # action # args \<Rightarrow> (case build_action cfg ml action args w of
           (Inl e, _) \<Rightarrow> (Inl (Exc e), [])
         | (Inr l, _) \<Rightarrow> send_letter ml (now w) l [])
     | _ \<Rightarrow> (Inl (Exc Py_IndexError), []))"

section \<open>Sending\<close>

lemma for_each_outcomes:
  assumes "\<And>x ms. f x ms = (case g x of Inl e \<Rightarrow> (Inl e, ms) | Inr m \<Rightarrow> (Inr (), ms @ [m]))"
    and "for_each xs f ms = (Inr (), ms')"
  shows "\<exists>sent. ms' = ms @ sent \<and> list_all2 (\<lambda>x m. g x = Inr m) xs sent"
  using assms(2)
proof (induction xs arbitrary: ms)
  case (Cons x xs)
  then obtain m where m: "g x = Inr m" and more: "for_each xs f (ms @ [m]) = (Inr (), ms')"
    using assms(1) [of x ms] by (cases "g x") (auto simp: seqp_def andthen_def)
  obtain sent where "ms' = (ms @ [m]) @ sent" "list_all2 (\<lambda>x m. g x = Inr m) xs sent"
    using Cons.IH [OF more] by blast
  with m show ?case
    by (intro exI [of _ "m # sent"]) simp
qed (simp add: ret_def)

text \<open>When every mail can be built, those before the first failure of the transport are sent.\<close>

lemma send_letter_prefix:
  assumes "list_all2 (\<lambda>r m. make_mail ml t l r = Inr m) (lt_recipients l) mails"
  shows "send_letter ml t l ms = (Inr (), ms @ takeWhile (\<lambda>m. \<not> transport_fails ml m) mails)"
proof -
  have "list_all2 (\<lambda>r m. make_mail ml t l r = Inr m) rs mails
    \<Longrightarrow> for_each rs (send_one ml t l) ms
      = (if \<exists>m \<in> set mails. transport_fails ml m then Inl OSError else Inr (),
         ms @ takeWhile (\<lambda>m. \<not> transport_fails ml m) mails)" for rs
    by (induction arbitrary: ms rule: list_all2_induct)
      (simp_all add: ret_def seqp_def andthen_def send_one_def throw_def modify_def)
  with assms show ?thesis
    by (simp add: send_letter_def send_all_def catch_def ret_def)
qed

lemma send_letter_sent:
  assumes "send_letter ml t l [] = (Inr (), mails)" and "\<And>m. \<not> transport_fails ml m"
  shows "list_all2 (\<lambda>r m. make_mail ml t l r = Inr m) (lt_recipients l) mails"
proof -
  let ?g = "\<lambda>r. case make_mail ml t l r of Inl e \<Rightarrow> Inl (Exc e) | Inr m \<Rightarrow> Inr m"
  have step: "send_one ml t l r ms = (case ?g r of Inl e \<Rightarrow> (Inl e, ms) | Inr m \<Rightarrow> (Inr (), ms @ [m]))" for r ms
    by (simp add: send_one_def assms(2) throw_def modify_def split: sum.splits)
  obtain r ms where run: "send_all ml t l [] = (r, ms)"
    by (cases "send_all ml t l []")
  have "r \<noteq> Inl OSError"
  proof -
    have "for_each rs (send_one ml t l) ms' \<noteq> (Inl OSError, ms)" for rs ms'
      by (induction rs arbitrary: ms')
        (auto simp: ret_def seqp_def andthen_def step split: sum.splits)
    with run show ?thesis by (auto simp: send_all_def)
  qed
  then have "for_each (lt_recipients l) (send_one ml t l) [] = (Inr (), mails)"
    using run assms(1) by (auto simp: send_letter_def send_all_def catch_def throw_def split: sum.splits if_splits)
  from for_each_outcomes [of "send_one ml t l" ?g, OF step this] show ?thesis
    by (auto elim!: list_all2_mono split: sum.splits)
qed

lemma make_mail_fields:
  assumes "make_mail ml t l r = Inr m"
  shows "ml_to m = fst r" and "ml_cc m = lt_cc l"
    and "ml_envelope m = (if use_sendmail ml then fst r # lt_cc l else fst r # lt_cc l @ lt_bcc l)"
  using assms by (auto simp: make_mail_def bind_exn_def split: prod.splits sum.splits)

lemma post_unfold:
  assumes "post cfg ml n w = (Inr (), mails)"
  obtains l w' where "letter_of cfg ml n w = (Inr l, w')" and "send_letter ml (now w) l [] = (Inr (), mails)"
  using assms by (auto simp: post_def split: prod.splits sum.splits)

text \<open>A letter whose texts can be made in the languages of its recipients is sent.\<close>

definition sendable :: "letter \<Rightarrow> bool" where
  "sendable l \<longleftrightarrow> list_all (\<lambda>(to, lang).
     (case lt_body l lang of Inl _ \<Rightarrow> False | Inr _ \<Rightarrow> True)
     \<and> (case lt_subject l lang of Inl _ \<Rightarrow> False | Inr _ \<Rightarrow> True)) (lt_recipients l)"

lemma sendable_built:
  assumes "sendable l"
  shows "\<exists>mails. list_all2 (\<lambda>r m. make_mail ml t l r = Inr m) (lt_recipients l) mails"
proof (rule list_all2_choice)
  fix r assume "r \<in> set (lt_recipients l)"
  moreover obtain to lang where "r = (to, lang)"
    by (cases r)
  ultimately have "case lt_body l lang of Inl _ \<Rightarrow> False | Inr _ \<Rightarrow> True"
      "case lt_subject l lang of Inl _ \<Rightarrow> False | Inr _ \<Rightarrow> True"
    using assms by (auto simp: sendable_def list_all_iff)
  then obtain body subject where "lt_body l lang = Inr body" "lt_subject l lang = Inr subject"
    by (cases "lt_body l lang"; cases "lt_subject l lang") simp_all
  then show "\<exists>m. make_mail ml t l r = Inr m"
    by (simp add: \<open>r = (to, lang)\<close> make_mail_def get_body_fmt_def bind_exn_def)
qed

lemma post_succeeds:
  assumes "case fst (letter_of cfg ml n w) of Inl _ \<Rightarrow> False | Inr l \<Rightarrow> sendable l"
    and "\<And>m. \<not> transport_fails ml m"
  shows "post cfg ml n w = (Inr (), snd (post cfg ml n w))"
proof -
  obtain l w' where l: "letter_of cfg ml n w = (Inr l, w')" and "sendable l"
    using assms(1) by (cases "letter_of cfg ml n w") (auto split: sum.splits)
  then obtain mails where "list_all2 (\<lambda>r m. make_mail ml (now w) l r = Inr m) (lt_recipients l) mails"
    using sendable_built by blast
  from send_letter_prefix [OF this] show ?thesis
    by (simp add: post_def l)
qed

section \<open>Who gets a mail\<close>

lemma wp_first_of [wp_simps]:
  "wp (first_of rows p) Q E w = (case List.find p (rows (the_db w)) of
     None \<Rightarrow> E Py_AttributeError w | Some r \<Rightarrow> Q r w)"
  by (simp add: first_of_def wp_simps)

text \<open>The classes of messages to watchers, with the switch, the acting user and the package base.\<close>

fun announcement :: "notification \<Rightarrow> ((users_row \<Rightarrow> bool) \<times> nat \<times> nat) option" where
  "announcement (CommentNotification uid i c) = Some (u_CommentNotify, uid, i)"
| "announcement (UpdateNotification uid i) = Some (u_UpdateNotify, uid, i)"
| "announcement (AdoptNotification uid i) = Some (u_OwnershipNotify, uid, i)"
| "announcement (DisownNotification uid i) = Some (u_OwnershipNotify, uid, i)"
| "announcement (DeleteNotification uid i) = Some (\<lambda>_. True, uid, i)"
| "announcement n = None"

lemma announcement_letter:
  assumes "announcement n = Some (flag, uid, i)"
  shows "wp (letter_of cfg ml n) (\<lambda>l _. lt_recipients l = notified_watchers flag uid i (the_db w) \<and> lt_cc l = [] \<and> lt_bcc l = [])
    (\<lambda>_ _. True) w"
  using assms
  by (cases n) (auto simp: comment_letter_def update_letter_def adopt_letter_def disown_letter_def
      ownership_letter_def delete_letter_def user_name_def base_name_def wp_simps split: option.splits)

definition watches :: "db \<Rightarrow> nat \<Rightarrow> users_row \<Rightarrow> bool" where
  "watches d i u \<longleftrightarrow> (\<exists>n \<in> set (PackageNotifications d). pn_UserID n = u_ID u \<and> pn_PackageBaseID n = i)"

definition told :: "(users_row \<Rightarrow> bool) \<Rightarrow> nat \<Rightarrow> nat \<Rightarrow> db \<Rightarrow> users_row set" where
  "told flag uid i d = {u \<in> set (Users d). watches d i u \<and> flag u \<and> u_ID u \<noteq> uid \<and> \<not> u_Suspended u}"

lemma set_watchers: "set (notified_watchers flag uid i d) = (\<lambda>u. (u_Email u, u_LangPreference u)) ` told flag uid i d"
proof -
  have "set [u. u \<leftarrow> Users d, n \<leftarrow> PackageNotifications d, pn_UserID n = u_ID u
      \<and> flag u \<and> pn_UserID n \<noteq> uid \<and> pn_PackageBaseID n = i \<and> \<not> u_Suspended u] = told flag uid i d"
    by (auto simp: watches_def told_def)
  then show ?thesis
    by (simp only: notified_watchers_def set_remdups set_map)
qed

lemma length_watchers: "length (notified_watchers flag uid i d) = card (set (notified_watchers flag uid i d))"
  by (rule distinct_card [symmetric]) (simp add: notified_watchers_def)

lemma sent_to:
  assumes "list_all2 (\<lambda>r m. make_mail ml t l r = Inr m) rs mails"
  shows "map ml_to mails = map fst rs"
  using assms by (induction rule: list_all2_induct) (simp_all add: make_mail_fields(1))

lemma sent_fields:
  assumes "list_all2 (\<lambda>r m. make_mail ml t l r = Inr m) rs mails" and "m \<in> set mails"
  shows "ml_cc m = lt_cc l"
    and "ml_envelope m = (if use_sendmail ml then ml_to m # lt_cc l else ml_to m # lt_cc l @ lt_bcc l)"
    and "\<exists>r \<in> set rs. ml_to m = fst r"
proof -
  obtain r where r: "r \<in> set rs" "make_mail ml t l r = Inr m"
    using list_all2_in2 [OF assms] by blast
  show "ml_cc m = lt_cc l"
    and "ml_envelope m = (if use_sendmail ml then ml_to m # lt_cc l else ml_to m # lt_cc l @ lt_bcc l)"
    using make_mail_fields [OF r(2)] by simp_all
  show "\<exists>r \<in> set rs. ml_to m = fst r"
    using r(1) make_mail_fields(1) [OF r(2)] by blast
qed

text \<open>
  C32. Who is told. When a comment, a push, an adoption, a disowning or a deletion is announced and the
  transport works, one mail goes out for each address and language of the users who watch the package
  base, have that kind of message switched on and are not suspended, the acting user excepted; each
  mail is handed to the transport for that address alone, and copies go to nobody.
\<close>

theorem announcement_reaches_watchers:
  assumes "announcement n = Some (flag, uid, i)"
    and "post cfg ml n w = (Inr (), mails)" and "\<And>m. \<not> transport_fails ml m"
  shows "ml_to ` set mails = u_Email ` told flag uid i (the_db w)
    \<and> length mails = card ((\<lambda>u. (u_Email u, u_LangPreference u)) ` told flag uid i (the_db w))
    \<and> (\<forall>m \<in> set mails. ml_envelope m = [ml_to m] \<and> ml_cc m = [])"
proof -
  obtain l w' where l: "letter_of cfg ml n w = (Inr l, w')" and sent: "send_letter ml (now w) l [] = (Inr (), mails)"
    using assms(2) by (rule post_unfold)
  have to: "lt_recipients l = notified_watchers flag uid i (the_db w)" and cc: "lt_cc l = []" "lt_bcc l = []"
    using wpI_Inr [OF announcement_letter [OF assms(1)] l] by simp_all
  have each: "list_all2 (\<lambda>r m. make_mail ml (now w) l r = Inr m) (lt_recipients l) mails"
    by (rule send_letter_sent [OF sent assms(3)])
  have "ml_to ` set mails = u_Email ` told flag uid i (the_db w)"
    using arg_cong [OF sent_to [OF each], of set] by (simp add: to set_watchers image_image)
  moreover have "length mails = card ((\<lambda>u. (u_Email u, u_LangPreference u)) ` told flag uid i (the_db w))"
    using list_all2_lengthD [OF each] by (simp add: to length_watchers set_watchers)
  moreover have "\<forall>m \<in> set mails. ml_envelope m = [ml_to m] \<and> ml_cc m = []"
    using sent_fields [OF each] cc by simp
  ultimately show ?thesis by blast
qed

text \<open>A mailer whose catalogs translate nothing and whose transport always works.\<close>

definition demo_mailer :: mailer where
  "demo_mailer = \<lparr>request_ml = ''aur-requests@lists.archlinux.org'', mail_sender = ''notify@aur.archlinux.org'',
     mail_reply_to = ''noreply@aur.archlinux.org'', use_sendmail = False,
     catalog = (\<lambda>lang s. s), transport_fails = (\<lambda>m. False)\<rparr>"

text \<open>In the small site bob watches \<open>foo\<close>, and alice adopts it.\<close>

theorem announcement_reaches_watchers_witness:
  "\<exists>mails. post default_config demo_mailer (AdoptNotification 1 10) demo_world = (Inr (), mails)
    \<and> ml_to ` set mails = u_Email ` told u_OwnershipNotify 1 10 demo_db"
proof -
  let ?p = "post default_config demo_mailer (AdoptNotification 1 10) demo_world"
  have run: "?p = (Inr (), snd ?p)"
    by (rule post_succeeds) (code_simp, simp add: demo_mailer_def)
  show ?thesis
    using announcement_reaches_watchers [OF announcement.simps(3) run] run
    by (auto simp: demo_mailer_def)
qed

text \<open>Those who maintain a package base.\<close>

definition maintains :: "db \<Rightarrow> nat \<Rightarrow> users_row \<Rightarrow> bool" where
  "maintains d i u \<longleftrightarrow> (\<exists>b \<in> set (PackageBases d). pb_ID b = i \<and> pb_MaintainerUID b = Some (u_ID u))
     \<or> (\<exists>c \<in> set (PackageComaintainers d). cm_PackageBaseID c = i \<and> cm_UsersID c = u_ID u)"

lemma left_join_None: "None \<in> set (left_join on bs a) \<longleftrightarrow> (\<forall>b \<in> set bs. \<not> on a b)"
  by (auto simp: left_join_def)

lemma left_join_Some: "Some b \<in> set (left_join on bs a) \<longleftrightarrow> b \<in> set bs \<and> on a b"
  by (auto simp: left_join_def)

lemma left_join_nonempty: "\<exists>x. x \<in> set (left_join on bs a)"
  by (auto simp: left_join_def)

lemma row_is_simps [simp]: "row_is p None = False" "row_is p (Some b) = p b"
  by (simp_all add: row_is_def)

lemma maintaining_joined:
  assumes "\<exists>b \<in> set (PackageBases d). pb_ID b = i"
  shows "(\<exists>c \<in> set (left_join (\<lambda>u c. cm_UsersID c = u_ID u) (PackageComaintainers d) u).
      \<exists>b \<in> set (PackageBases d). (pb_MaintainerUID b = Some (u_ID u)
        \<or> row_is (\<lambda>c. pb_ID b = cm_PackageBaseID c) c) \<and> pb_ID b = i) \<longleftrightarrow> maintains d i u"
    (is "?joined \<longleftrightarrow> _")
proof
  assume ?joined
  then obtain c b where c: "c \<in> set (left_join (\<lambda>u c. cm_UsersID c = u_ID u) (PackageComaintainers d) u)"
    and b: "b \<in> set (PackageBases d)" "pb_ID b = i"
    and on: "pb_MaintainerUID b = Some (u_ID u) \<or> row_is (\<lambda>c. pb_ID b = cm_PackageBaseID c) c"
    by blast
  show "maintains d i u"
  proof (cases c)
    case None
    with b on show ?thesis by (auto simp: maintains_def)
  next
    case (Some x)
    with c have "x \<in> set (PackageComaintainers d)" "cm_UsersID x = u_ID u"
      by (simp_all add: left_join_Some)
    with b on Some show ?thesis by (auto simp: maintains_def)
  qed
next
  assume "maintains d i u"
  then consider (m) b where "b \<in> set (PackageBases d)" "pb_ID b = i" "pb_MaintainerUID b = Some (u_ID u)"
    | (c) c where "c \<in> set (PackageComaintainers d)" "cm_PackageBaseID c = i" "cm_UsersID c = u_ID u"
    by (auto simp: maintains_def)
  then show ?joined
  proof cases
    case m
    then show ?thesis
      using left_join_nonempty [of "\<lambda>u c. cm_UsersID c = u_ID u" "PackageComaintainers d" u] by blast
  next
    case c
    obtain b where "b \<in> set (PackageBases d)" "pb_ID b = i"
      using assms by blast
    with c show ?thesis
      by (intro bexI [of _ "Some c"] bexI [of _ b]) (simp_all add: left_join_Some)
  qed
qed

lemma set_maintaining:
  assumes "\<exists>b \<in> set (PackageBases d). pb_ID b = i"
  shows "set (maintaining i d) = (\<lambda>u. (u_Email u, u_LangPreference u)) `
    {u \<in> set (Users d). maintains d i u \<and> \<not> u_Suspended u}"
proof -
  have "set [u. u \<leftarrow> Users d,
      c \<leftarrow> left_join (\<lambda>u c. cm_UsersID c = u_ID u) (PackageComaintainers d) u, b \<leftarrow> PackageBases d,
      (pb_MaintainerUID b = Some (u_ID u) \<or> row_is (\<lambda>c. pb_ID b = cm_PackageBaseID c) c)
      \<and> pb_ID b = i \<and> \<not> u_Suspended u]
    = {u \<in> set (Users d). (\<exists>c \<in> set (left_join (\<lambda>u c. cm_UsersID c = u_ID u) (PackageComaintainers d) u).
      \<exists>b \<in> set (PackageBases d). (pb_MaintainerUID b = Some (u_ID u)
        \<or> row_is (\<lambda>c. pb_ID b = cm_PackageBaseID c) c) \<and> pb_ID b = i) \<and> \<not> u_Suspended u}"
    by auto
  also have "\<dots> = {u \<in> set (Users d). maintains d i u \<and> \<not> u_Suspended u}"
    by (simp only: maintaining_joined [OF assms])
  finally show ?thesis
    by (simp only: maintaining_def set_sort set_remdups set_map)
qed

lemma flag_letter_recipients:
  "wp (flag_letter cfg ml uid i) (\<lambda>l _. lt_recipients l = maintaining i (the_db w) \<and> lt_cc l = [] \<and> lt_bcc l = []
     \<and> (\<exists>b \<in> set (PackageBases (the_db w)). pb_ID b = i)) (\<lambda>_ _. True) w"
  by (auto simp: flag_letter_def user_name_def base_name_def wp_simps split: option.splits dest: find_SomeD)

text \<open>
  C0. An out-of-date report goes to the maintainer and the co-maintainers of the package base, those
  who are not suspended, and to nobody else.
\<close>

theorem flag_reaches_maintainers:
  assumes "post cfg ml (FlagNotification uid i) w = (Inr (), mails)" and "\<And>m. \<not> transport_fails ml m"
  shows "ml_to ` set mails = u_Email ` {u \<in> set (Users (the_db w)). maintains (the_db w) i u \<and> \<not> u_Suspended u}
    \<and> (\<forall>m \<in> set mails. ml_envelope m = [ml_to m] \<and> ml_cc m = [])"
proof -
  obtain l w' where l: "flag_letter cfg ml uid i w = (Inr l, w')" and sent: "send_letter ml (now w) l [] = (Inr (), mails)"
    using assms(1) by (rule post_unfold) simp
  have to: "lt_recipients l = maintaining i (the_db w)" and cc: "lt_cc l = []" "lt_bcc l = []"
    and base: "\<exists>b \<in> set (PackageBases (the_db w)). pb_ID b = i"
    using wpI_Inr [OF flag_letter_recipients l] by simp_all
  have each: "list_all2 (\<lambda>r m. make_mail ml (now w) l r = Inr m) (lt_recipients l) mails"
    by (rule send_letter_sent [OF sent assms(2)])
  have "ml_to ` set mails = u_Email ` {u \<in> set (Users (the_db w)). maintains (the_db w) i u \<and> \<not> u_Suspended u}"
    using arg_cong [OF sent_to [OF each], of set] by (simp only: to set_map set_maintaining [OF base] image_image fst_conv)
  then show ?thesis
    using sent_fields [OF each] cc by simp
qed

theorem flag_reaches_maintainers_witness:
  "\<exists>mails. post default_config demo_mailer (FlagNotification 4 10) demo_world = (Inr (), mails)
    \<and> ml_to ` set mails = u_Email ` {u \<in> set (Users demo_db). maintains demo_db 10 u \<and> \<not> u_Suspended u}"
proof -
  let ?p = "post default_config demo_mailer (FlagNotification 4 10) demo_world"
  have run: "?p = (Inr (), snd ?p)"
    by (rule post_succeeds) (code_simp, simp add: demo_mailer_def)
  show ?thesis
    using flag_reaches_maintainers [OF run] run by (auto simp: demo_mailer_def)
qed

text \<open>The users a request concerns: its author and those who maintain its package base.\<close>

definition concerns :: "db \<Rightarrow> nat \<Rightarrow> users_row \<Rightarrow> bool" where
  "concerns d reqid u \<longleftrightarrow> (\<exists>r \<in> set (PackageRequests d). \<exists>b \<in> set (PackageBases d).
     pr_ID r = reqid \<and> pr_PackageBaseID r = Some (pb_ID b)
     \<and> (pr_UsersID r = Some (u_ID u) \<or> pb_MaintainerUID b = Some (u_ID u)
        \<or> (\<exists>c \<in> set (PackageComaintainers d). cm_PackageBaseID c = pb_ID b \<and> cm_UsersID c = u_ID u)))"

lemma concerned_joined:
  "(\<exists>r \<in> set (PackageRequests d). \<exists>b \<in> set (PackageBases d).
      \<exists>c \<in> set (left_join (\<lambda>r c. pr_PackageBaseID r = Some (cm_PackageBaseID c)) (PackageComaintainers d) r).
      pr_PackageBaseID r = Some (pb_ID b)
         \<and> (pr_UsersID r = Some (u_ID u) \<or> pb_MaintainerUID b = Some (u_ID u)
            \<or> row_is (\<lambda>c. cm_UsersID c = u_ID u) c)
         \<and> pr_ID r = reqid \<and> \<not> u_Suspended u)
   \<longleftrightarrow> concerns d reqid u \<and> \<not> u_Suspended u" (is "?joined \<longleftrightarrow> ?c")
proof
  assume ?joined
  then obtain r b c where r: "r \<in> set (PackageRequests d)" "b \<in> set (PackageBases d)"
      "pr_PackageBaseID r = Some (pb_ID b)" "pr_ID r = reqid" "\<not> u_Suspended u"
    and c: "c \<in> set (left_join (\<lambda>r c. pr_PackageBaseID r = Some (cm_PackageBaseID c)) (PackageComaintainers d) r)"
    and on: "pr_UsersID r = Some (u_ID u) \<or> pb_MaintainerUID b = Some (u_ID u) \<or> row_is (\<lambda>c. cm_UsersID c = u_ID u) c"
    by blast
  show ?c
  proof (cases c)
    case None
    with r on show ?thesis by (auto simp: concerns_def)
  next
    case (Some x)
    with c r(3) have "x \<in> set (PackageComaintainers d)" "cm_PackageBaseID x = pb_ID b"
      by (simp_all add: left_join_Some)
    with r on Some show ?thesis by (auto simp: concerns_def)
  qed
next
  assume ?c
  then obtain r b where r: "r \<in> set (PackageRequests d)" "b \<in> set (PackageBases d)"
      "pr_PackageBaseID r = Some (pb_ID b)" "pr_ID r = reqid" "\<not> u_Suspended u"
    and on: "pr_UsersID r = Some (u_ID u) \<or> pb_MaintainerUID b = Some (u_ID u)
      \<or> (\<exists>c \<in> set (PackageComaintainers d). cm_PackageBaseID c = pb_ID b \<and> cm_UsersID c = u_ID u)"
    by (auto simp: concerns_def)
  have "\<exists>c \<in> set (left_join (\<lambda>r c. pr_PackageBaseID r = Some (cm_PackageBaseID c)) (PackageComaintainers d) r).
      pr_UsersID r = Some (u_ID u) \<or> pb_MaintainerUID b = Some (u_ID u) \<or> row_is (\<lambda>c. cm_UsersID c = u_ID u) c"
  proof (cases "pr_UsersID r = Some (u_ID u) \<or> pb_MaintainerUID b = Some (u_ID u)")
    case True
    then show ?thesis
      using left_join_nonempty [of "\<lambda>r c. pr_PackageBaseID r = Some (cm_PackageBaseID c)" "PackageComaintainers d" r]
      by blast
  next
    case False
    with on obtain c where "c \<in> set (PackageComaintainers d)" "cm_PackageBaseID c = pb_ID b" "cm_UsersID c = u_ID u"
      by blast
    with r(3) show ?thesis
      by (intro bexI [of _ "Some c"]) (simp_all add: left_join_Some)
  qed
  with r show ?joined by blast
qed

lemma set_concerned:
  "set (concerned reqid d) = (\<lambda>u. (u_Email u, u_HideEmail u)) `
    {u \<in> set (Users d). concerns d reqid u \<and> \<not> u_Suspended u}"
proof -
  have "set [u. r \<leftarrow> PackageRequests d, b \<leftarrow> PackageBases d,
      c \<leftarrow> left_join (\<lambda>r c. pr_PackageBaseID r = Some (cm_PackageBaseID c)) (PackageComaintainers d) r,
      u \<leftarrow> Users d,
      pr_PackageBaseID r = Some (pb_ID b)
      \<and> (pr_UsersID r = Some (u_ID u) \<or> pb_MaintainerUID b = Some (u_ID u)
         \<or> row_is (\<lambda>c. cm_UsersID c = u_ID u) c)
      \<and> pr_ID r = reqid \<and> \<not> u_Suspended u]
    = {u \<in> set (Users d). \<exists>r \<in> set (PackageRequests d). \<exists>b \<in> set (PackageBases d).
      \<exists>c \<in> set (left_join (\<lambda>r c. pr_PackageBaseID r = Some (cm_PackageBaseID c)) (PackageComaintainers d) r).
      pr_PackageBaseID r = Some (pb_ID b)
         \<and> (pr_UsersID r = Some (u_ID u) \<or> pb_MaintainerUID b = Some (u_ID u)
            \<or> row_is (\<lambda>c. cm_UsersID c = u_ID u) c)
         \<and> pr_ID r = reqid \<and> \<not> u_Suspended u}"
    by auto
  also have "\<dots> = {u \<in> set (Users d). concerns d reqid u \<and> \<not> u_Suspended u}"
    by (simp only: concerned_joined)
  finally show ?thesis
    by (simp only: concerned_def set_remdups set_map)
qed

definition concerned_addresses :: "bool \<Rightarrow> nat \<Rightarrow> db \<Rightarrow> string set" where
  "concerned_addresses hide reqid d
     = u_Email ` {u \<in> set (Users d). concerns d reqid u \<and> \<not> u_Suspended u \<and> u_HideEmail u = hide}"

lemma set_shown: "set (shown_addresses (concerned reqid d)) = concerned_addresses False reqid d"
  by (force simp: shown_addresses_def set_concerned concerned_addresses_def)

lemma set_hidden: "set (hidden_addresses (concerned reqid d)) = concerned_addresses True reqid d"
  by (force simp: hidden_addresses_def set_concerned concerned_addresses_def)

fun about_request :: "notification \<Rightarrow> nat option" where
  "about_request (RequestOpenNotification uid r t i m) = Some r"
| "about_request (RequestCloseNotification uid r reason) = Some r"
| "about_request n = None"

lemma request_letter:
  assumes "about_request n = Some reqid"
  shows "wp (letter_of cfg ml n) (\<lambda>l _. lt_recipients l = [(request_ml ml, ''en'')]
      \<and> lt_cc l = shown_addresses (concerned reqid (the_db w))
      \<and> lt_bcc l = hidden_addresses (concerned reqid (the_db w))) (\<lambda>_ _. True) w"
  using assms
  by (cases n) (auto simp: request_open_letter_def request_close_letter_def user_name_def base_name_def
      wp_simps Let_def split: option.splits)

text \<open>
  C33. A request is announced by one mail to the public mailing list. Copies go to its author and to
  those who maintain its package base; the mail shows the addresses of those alone who do not hide
  theirs. Over SMTP the others get the mail as well; with \<open>sendmail -t\<close>, which reads the recipients
  off the headers, they do not.
\<close>

theorem request_mail_hides_addresses:
  assumes "about_request n = Some reqid"
    and "post cfg ml n w = (Inr (), mails)" and "\<And>m. \<not> transport_fails ml m"
  shows "\<exists>m. mails = [m] \<and> ml_to m = request_ml ml
    \<and> set (ml_cc m) = concerned_addresses False reqid (the_db w)
    \<and> set (ml_envelope m) = {request_ml ml} \<union> concerned_addresses False reqid (the_db w)
       \<union> (if use_sendmail ml then {} else concerned_addresses True reqid (the_db w))"
proof -
  obtain l w' where l: "letter_of cfg ml n w = (Inr l, w')" and sent: "send_letter ml (now w) l [] = (Inr (), mails)"
    using assms(2) by (rule post_unfold)
  have to: "lt_recipients l = [(request_ml ml, ''en'')]"
    and cc: "set (lt_cc l) = concerned_addresses False reqid (the_db w)"
      "set (lt_bcc l) = concerned_addresses True reqid (the_db w)"
    using wpI_Inr [OF request_letter [OF assms(1)] l] by (simp_all add: set_shown set_hidden)
  obtain m where m: "mails = [m]" and made: "make_mail ml (now w) l (request_ml ml, ''en'') = Inr m"
    using send_letter_sent [OF sent assms(3)] by (auto simp: to list_all2_Cons1)
  show ?thesis
    using make_mail_fields [OF made] cc by (intro exI [of _ m]) (simp add: m)
qed

text \<open>The small site with an orphan request of carol, who hides her address.\<close>

definition demo_request_world :: world where
  "demo_request_world = demo_world\<lparr>the_db := demo_db\<lparr>
     Users := map (\<lambda>u. u\<lparr>u_HideEmail := (u_ID u = 3)\<rparr>) (Users demo_db),
     PackageRequests := [\<lparr>pr_ID = 1, pr_ReqTypeID = 2, pr_PackageBaseID = Some 10, pr_PackageBaseName = ''foo'',
       pr_MergeBaseName = None, pr_UsersID = Some 3, pr_Comments = ''gone'', pr_ClosureComment = [],
       pr_RequestTS = 900, pr_ClosedTS = None, pr_ClosedUID = None, pr_Status = 0\<rparr>]\<rparr>\<rparr>"

theorem request_mail_hides_addresses_witness:
  "\<exists>m. post default_config demo_mailer (RequestOpenNotification 3 1 ''orphan'' 10 None) demo_request_world = (Inr (), [m])
    \<and> ''carol@example.org'' \<notin> set (ml_cc m) \<and> ''carol@example.org'' \<in> set (ml_envelope m)"
proof -
  let ?p = "post default_config demo_mailer (RequestOpenNotification 3 1 ''orphan'' 10 None) demo_request_world"
  have run: "?p = (Inr (), snd ?p)"
    by (rule post_succeeds) (code_simp, simp add: demo_mailer_def)
  obtain m where m: "snd ?p = [m]" and cc: "set (ml_cc m) = concerned_addresses False 1 (the_db demo_request_world)"
    and env: "set (ml_envelope m) \<supseteq> concerned_addresses True 1 (the_db demo_request_world)"
    using request_mail_hides_addresses [OF about_request.simps(1) run] by (auto simp: demo_mailer_def)
  have "''carol@example.org'' \<notin> concerned_addresses False 1 (the_db demo_request_world)"
    "''carol@example.org'' \<in> concerned_addresses True 1 (the_db demo_request_world)"
    by code_simp+
  with m cc env run show ?thesis
    by (intro exI [of _ m]) auto
qed

text \<open>
  A message that cannot be handed over ends the notification: when the texts can be made, the mails
  of the recipients before the first \<open>OSError\<close> are sent, those after it are not, and the
  caller does not learn of it.
\<close>

theorem first_failure_ends_notification:
  assumes "letter_of cfg ml n w = (Inr l, w')"
    and "list_all2 (\<lambda>r m. make_mail ml (now w) l r = Inr m) (lt_recipients l) mails"
  shows "post cfg ml n w = (Inr (), takeWhile (\<lambda>m. \<not> transport_fails ml m) mails)"
  using send_letter_prefix [OF assms(2), of "[]"] by (simp add: post_def assms(1))

text \<open>An out-of-date report when the mail server refuses bob's address: alice gets it, carol does not.\<close>

theorem first_failure_ends_notification_witness:
  "\<exists>m. post default_config (demo_mailer\<lparr>transport_fails := \<lambda>m. ml_to m = ''bob@example.org''\<rparr>)
     (FlagNotification 4 10) demo_world = (Inr (), [m]) \<and> ml_to m = ''alice@example.org''"
proof -
  let ?ml = "demo_mailer\<lparr>transport_fails := \<lambda>m. ml_to m = ''bob@example.org''\<rparr>"
  let ?n = "FlagNotification 4 10"
  have ok: "case fst (letter_of default_config ?ml ?n demo_world) of Inl _ \<Rightarrow> False | Inr l \<Rightarrow> sendable l
      \<and> map fst (lt_recipients l) = [''alice@example.org'', ''bob@example.org'', ''carol@example.org'']"
    by code_simp
  then obtain l w' where l: "letter_of default_config ?ml ?n demo_world = (Inr l, w')" and "sendable l"
    and to: "map fst (lt_recipients l) = [''alice@example.org'', ''bob@example.org'', ''carol@example.org'']"
    by (cases "letter_of default_config ?ml ?n demo_world") (simp split: sum.splits)
  then obtain mails where mails: "list_all2 (\<lambda>r m. make_mail ?ml (now demo_world) l r = Inr m) (lt_recipients l) mails"
    using sendable_built by blast
  with to have "map ml_to mails = [''alice@example.org'', ''bob@example.org'', ''carol@example.org'']"
    by (simp only: sent_to)
  then obtain m m' m'' where "mails = [m, m', m'']" "ml_to m = ''alice@example.org''" "ml_to m' = ''bob@example.org''"
    by (auto simp: map_eq_Cons_conv)
  then show ?thesis
    using first_failure_ends_notification [OF l mails] by simp
qed

section \<open>What a mail says\<close>

lemma visible_splitlines: "concat (map visible (splitlines s)) = visible s"
proof -
  have line_end: "is_line_end c \<Longrightarrow> is_space c" for c
    by (auto simp: is_line_end_def is_space_def)
  have crlf: "visible (join_crlf s) = visible s"
    by (induction s) (auto simp: is_space_def)
  have split: "concat (map visible (split_by is_line_end t)) = visible t" for t
    by (induction t) (auto split: list.splits dest: line_end)
  have "concat (map visible ls) = concat (map visible (if last ls = [] then butlast ls else ls))" if "ls \<noteq> []" for ls
    using that by (cases ls rule: rev_cases) simp_all
  from this [of "split_by is_line_end (join_crlf s)"] show ?thesis
    by (simp only: splitlines_def Let_def split crlf split_by_not_Nil not_False_eq_True)
qed

lemma visible_rstrip: "visible (rstrip s) = visible s"
proof -
  have "visible (rev (dropWhile is_space t)) = visible (rev t)" for t
    by (induction t) simp_all
  then show ?thesis
    by (metis rev_rev_ident rstrip_def)
qed

lemma visible_body_line: "visible (body_line line) = visible line"
  by (simp add: body_line_def visible_wrap_fill)

text \<open>
  Formatting a message loses none of its characters but white space: the mail shows the body and after it
  the numbered references, in this order.
\<close>

theorem mail_shows_whole_message:
  "visible (format_body body refs) = visible body @ concat (map (\<lambda>p. visible (numbered_ref p)) (enumerate 1 refs))"
  by (simp add: format_body_def visible_rstrip visible_concat visible_body_line visible_splitlines comp_def)

lemma own_address_set: "fst ` set (own_addresses u) = {u_Email u} \<union> (case u_BackupEmail u of None \<Rightarrow> {} | Some b \<Rightarrow> if b = [] then {} else {b})"
  by (auto simp: own_addresses_def split: option.splits)

lemma make_mail_body:
  assumes "make_mail ml t l r = Inr m"
  shows "\<exists>body. ml_body m = format_body body (lt_refs l)"
  using assms by (auto simp: make_mail_def get_body_fmt_def bind_exn_def split: prod.splits sum.splits)

text \<open>
  C34. The link that resets a password is sent to the addresses of its account alone, the main one and the
  backup address if there is one, and only while the account is not suspended; every mail ends in
  the link with the key the database has.
\<close>

theorem reset_link_goes_to_owner:
  assumes "post cfg ml (ResetKeyNotification uid) w = (Inr (), mails)" and "\<And>m. \<not> transport_fails ml m"
  shows "\<exists>u \<in> set (Users (the_db w)). u_ID u = uid \<and> \<not> u_Suspended u
    \<and> ml_to ` set mails = {u_Email u} \<union> (case u_BackupEmail u of None \<Rightarrow> {} | Some b \<Rightarrow> if b = [] then {} else {b})
    \<and> (\<forall>m \<in> set mails. ml_envelope m = [ml_to m] \<and> ml_cc m = []
        \<and> (\<exists>text. visible (ml_body m) = text @ visible (aur_location cfg @ ''/passreset/?resetkey='' @ u_ResetKey u)))"
proof -
  obtain l w' where l: "reset_key_letter cfg ml uid w = (Inr l, w')" and sent: "send_letter ml (now w) l [] = (Inr (), mails)"
    using assms(1) by (rule post_unfold) simp
  have "wp (reset_key_letter cfg ml uid) (\<lambda>l _. \<exists>u \<in> set (Users (the_db w)). u_ID u = uid \<and> \<not> u_Suspended u
      \<and> lt_recipients l = own_addresses u \<and> lt_cc l = [] \<and> lt_bcc l = [] \<and> lt_refs l = reset_refs cfg u) (\<lambda>_ _. True) w"
    by (auto simp: reset_key_letter_def unsuspended_def wp_simps split: option.splits dest: find_SomeD)
  from wpI_Inr [OF this l] obtain u where u: "u \<in> set (Users (the_db w))" "u_ID u = uid" "\<not> u_Suspended u"
    and to: "lt_recipients l = own_addresses u" and cc: "lt_cc l = []" "lt_bcc l = []" and refs: "lt_refs l = reset_refs cfg u"
    by blast
  have each: "list_all2 (\<lambda>r m. make_mail ml (now w) l r = Inr m) (lt_recipients l) mails"
    by (rule send_letter_sent [OF sent assms(2)])
  have addresses: "ml_to ` set mails = fst ` set (own_addresses u)"
    using arg_cong [OF sent_to [OF each], of set] by (simp add: to)
  have link: "\<exists>text. visible (ml_body m) = text @ visible (aur_location cfg @ ''/passreset/?resetkey='' @ u_ResetKey u)"
    if m: "m \<in> set mails" for m
  proof -
    obtain body where "ml_body m = format_body body (reset_refs cfg u)"
      using list_all2_in2 [OF each m] make_mail_body refs by metis
    then have "visible (ml_body m) = (visible body @ visible (''['' @ str_nat 1 @ ''] ''))
        @ visible (aur_location cfg @ ''/passreset/?resetkey='' @ u_ResetKey u)"
      by (simp add: format_body_def visible_rstrip visible_concat visible_body_line visible_splitlines comp_def
          reset_refs_def numbered_ref_def del: str_nat.simps)
    then show ?thesis by blast
  qed
  show ?thesis
    by (rule bexI [OF _ u(1)]) (use u addresses own_address_set sent_fields [OF each] cc link in simp)
qed

theorem reset_link_goes_to_owner_witness:
  "\<exists>mails. post default_config demo_mailer (ResetKeyNotification 2) demo_world = (Inr (), mails)
    \<and> ml_to ` set mails = {''bob@example.org''}"
proof -
  let ?p = "post default_config demo_mailer (ResetKeyNotification 2) demo_world"
  have run: "?p = (Inr (), snd ?p)"
    by (rule post_succeeds) (code_simp, simp add: demo_mailer_def)
  obtain u where "u \<in> set (Users (the_db demo_world))" "u_ID u = 2"
    and to: "ml_to ` set (snd ?p) = {u_Email u} \<union> (case u_BackupEmail u of None \<Rightarrow> {} | Some b \<Rightarrow> if b = [] then {} else {b})"
    using reset_link_goes_to_owner [OF run] by (auto simp: demo_mailer_def)
  then have "u_Email u = ''bob@example.org''" "u_BackupEmail u = None"
    by (auto simp: demo_db_def demo_user_def users_default_def)
  with run to show ?thesis
    by (intro exI [of _ "snd ?p"]) simp
qed

end
