(* ===== verification/Maintenance.thy ===== *)
theory Maintenance
  imports Notify Requests Account_Props
begin

text \<open>
  The scripts that maintain the database: \<open>accountmaint.py\<close> (warning and deleting accounts that never
  verified their address), \<open>requestmaint.py\<close> (rejecting adoption requests nobody acted on),
  \<open>usermaint.py\<close>, \<open>pkgmaint.py\<close> and \<open>votereminder.py\<close>, with \<open>users/content.py\<close>. The clock counts
  whole seconds; \<open>now\<close> of accountmaint is the same clock as that of \<open>time.utcnow()\<close>.
\<close>

section \<open>Accounts that never verified\<close>

text \<open>\<open>owns_content\<close>: the user's ID appears in one of \<open>CONTENT_COLUMNS\<close>.\<close>

definition owns_content :: "db \<Rightarrow> nat \<Rightarrow> bool" where
  "owns_content d i \<longleftrightarrow>
     (\<exists>c \<in> set (PackageComments d). Some i \<in> {pc_UsersID c, pc_EditedUsersID c, pc_DelUsersID c})
   \<or> (\<exists>b \<in> set (PackageBases d). Some i \<in> {pb_MaintainerUID b, pb_SubmitterUID b, pb_PackagerUID b, pb_FlaggerUID b})
   \<or> (\<exists>v \<in> set (PackageVotes d). pv_UsersID v = i)
   \<or> (\<exists>c \<in> set (PackageComaintainers d). cm_UsersID c = i)
   \<or> (\<exists>r \<in> set (PackageRequests d). Some i \<in> {pr_UsersID r, pr_ClosedUID r})
   \<or> (\<exists>n \<in> set (PackageNotifications d). pn_UserID n = i)
   \<or> (\<exists>v \<in> set (VoteInfo d). vi_SubmitterID v = i)
   \<or> (\<exists>v \<in> set (Votes d). vt_UserID v = i)"

definition BATCH_SIZE :: nat where "BATCH_SIZE = 500"

definition warning_window :: "config \<Rightarrow> int" where
  "warning_window cfg = email_verification_ttl (accounts cfg)"

definition lifetime :: "config \<Rightarrow> int" where
  "lifetime cfg = unverified_account_lifetime (limits cfg)"

definition warn_after :: "config \<Rightarrow> int" where
  "warn_after cfg = unverified_account_warning (limits cfg)"

definition doomed :: "config \<Rightarrow> int \<Rightarrow> db \<Rightarrow> users_row \<Rightarrow> bool" where
  "doomed cfg t d u \<longleftrightarrow> \<not> u_EmailVerified u \<and> u_AccountTypeID u = USER_ID
     \<and> u_LastLogin u < t - lifetime cfg \<and> u_LastSSHLogin u < t - lifetime cfg \<and> \<not> owns_content d (u_ID u)"

definition expiring :: "config \<Rightarrow> int \<Rightarrow> db \<Rightarrow> users_row list" where
  "expiring cfg t d = filter (\<lambda>u. doomed cfg t d u \<and> \<not> u_Suspended u
     \<and> u_RegistrationTS u < t - warn_after cfg
     \<and> u_RegistrationTS u \<ge> t - (warn_after cfg + warning_window cfg)
     \<and> (case u_EmailVerificationExpiry u of None \<Rightarrow> True | Some e \<Rightarrow> e \<le> t)) (Users d)"

definition expired :: "config \<Rightarrow> int \<Rightarrow> db \<Rightarrow> nat list" where
  "expired cfg t d = map u_ID (filter (\<lambda>u. doomed cfg t d u \<and> u_RegistrationTS u < t - lifetime cfg) (Users d))"

text \<open>\<open>round(a / b)\<close> for positive \<open>b\<close>: to the nearest integer, halves to the even one.\<close>

definition py_round_div :: "int \<Rightarrow> int \<Rightarrow> int" where
  "py_round_div a b = (if 2 * (a mod b) < b \<or> 2 * (a mod b) = b \<and> even (a div b) then a div b else a div b + 1)"

definition days_left :: "config \<Rightarrow> int" where
  "days_left cfg = max 1 (py_round_div (lifetime cfg - warn_after cfg) 86400)"

definition warn_accounts :: "config \<Rightarrow> bool \<Rightarrow> nat aur" where
  "warn_accounts cfg dry_run = andthen utcnow (\<lambda>t. andthen (query (expiring cfg t)) (\<lambda>users.
     if users = [] then ret 0
     else if dry_run then ret (length users)
     else seqp (transaction (for_each users (\<lambda>u. andthen (make_random_string cfg 32) (\<lambda>token.
            execute (\<lambda>d. d\<lparr>Users := update_where (\<lambda>x. u_ID x = u_ID u) (issue cfg token t) (Users d)\<rparr>)))))
       (seqp (for_each users (\<lambda>u. send (VerificationReminderNotification (u_ID u) (days_left cfg))))
       (ret (length users)))))"

text \<open>The slices of \<open>BATCH_SIZE\<close> IDs; every statement is a transaction of its own.\<close>

definition batches :: "nat list \<Rightarrow> nat list list" where
  "batches uids = map (\<lambda>k. take BATCH_SIZE (drop (k * BATCH_SIZE) uids))
     [0..<(length uids + BATCH_SIZE - 1) div BATCH_SIZE]"

definition delete_batch :: "nat list \<Rightarrow> nat aur" where
  "delete_batch batch = transaction (andthen (query (\<lambda>d. count_where (\<lambda>u. u_ID u \<in> set batch) (Users d))) (\<lambda>n.
     seqp (execute (delete_users (\<lambda>u. u_ID u \<in> set batch))) (ret n)))"

definition delete_expired :: "config \<Rightarrow> bool \<Rightarrow> nat aur" where
  "delete_expired cfg dry_run = andthen utcnow (\<lambda>t. andthen (query (expired cfg t)) (\<lambda>uids.
     if uids = [] then ret 0
     else if dry_run then ret (length uids)
     else andthen (collect (batches uids) delete_batch) (\<lambda>counts. ret (sum_list counts))))"

text \<open>\<open>check_config\<close> raises no \<open>ConfigError\<close>; \<open>main\<close> exits with 1 if it does.\<close>

definition config_ok :: "config \<Rightarrow> bool" where
  "config_ok cfg \<longleftrightarrow> warn_after cfg < lifetime cfg \<and> warning_window cfg < warn_after cfg"

definition accountmaint :: "config \<Rightarrow> bool \<Rightarrow> (nat \<times> nat) aur" where
  "accountmaint cfg dry_run = (if \<not> config_ok cfg then throw (SystemExit 1)
     else andthen (warn_accounts cfg dry_run) (\<lambda>warned. andthen (delete_expired cfg dry_run) (\<lambda>deleted. ret (warned, deleted))))"

section \<open>Adoption requests nobody acted on\<close>

definition idle_adoption :: "config \<Rightarrow> int \<Rightarrow> packagerequests_row \<Rightarrow> bool" where
  "idle_adoption cfg t r \<longleftrightarrow> pr_ReqTypeID r = ADOPTION_ID \<and> pr_Status r = PENDING_ID
     \<and> pr_RequestTS r < t - request_idle_time cfg"

definition reject_idle :: "int \<Rightarrow> packagerequests_row \<Rightarrow> packagerequests_row" where
  "reject_idle t r = r\<lparr>pr_Status := REJECTED_ID, pr_ClosedTS := Some t,
     pr_ClosureComment := ''[Autogenerated] Rejected adoption for '' @ pr_PackageBaseName r
       @ '': no Package Maintainer acted on this request in time.''\<rparr>"

text \<open>
  The notifications are built inside the transaction, and the session does not flush before a query: their
  constructors see the rows as they were. The changes are written when the transaction ends.
\<close>

definition reject_note :: "config \<Rightarrow> mailer \<Rightarrow> packagerequests_row \<Rightarrow> (notification \<times> letter) aur" where
  "reject_note cfg ml r = (let n = RequestCloseNotification 0 (pr_ID r) ''rejected''
     in andthen (letter_of cfg ml n) (\<lambda>l. ret (n, l)))"

definition requestmaint :: "config \<Rightarrow> mailer \<Rightarrow> (notification \<times> letter) list aur" where
  "requestmaint cfg ml = andthen utcnow (\<lambda>t. andthen (query (\<lambda>d. filter (idle_adoption cfg t) (PackageRequests d))) (\<lambda>idle.
     andthen (collect idle (reject_note cfg ml)) (\<lambda>notifs.
     seqp (for_each idle (\<lambda>r. execute (\<lambda>d. d\<lparr>PackageRequests :=
       update_where (\<lambda>x. pr_ID x = pr_ID r) (reject_idle t) (PackageRequests d)\<rparr>)))
     (ret notifs))))"

definition requestmaint_main :: "config \<Rightarrow> mailer \<Rightarrow> letter list aur" where
  "requestmaint_main cfg ml = andthen (transaction (requestmaint cfg ml)) (\<lambda>notifs.
     seqp (for_each notifs (\<lambda>p. send (fst p))) (ret (map snd notifs)))"

section \<open>The other scripts\<close>

definition usermaint :: "unit aur" where
  "usermaint = transaction (andthen utcnow (\<lambda>t. let limit_to = t - 86400 * 7 in
     seqp (execute (\<lambda>d. d\<lparr>Users := update_where (\<lambda>u. u_LastLogin u < limit_to)
        (\<lambda>u. u\<lparr>u_LastLoginIPAddress := None\<rparr>) (Users d)\<rparr>))
     (execute (\<lambda>d. d\<lparr>Users := update_where (\<lambda>u. u_LastSSHLogin u < limit_to)
        (\<lambda>u. u\<lparr>u_LastSSHLoginIPAddress := None\<rparr>) (Users d)\<rparr>))))"

text \<open>\<open>main\<close> of pkgmaint returns at once; \<open>_main\<close> would delete what was never pushed.\<close>

definition pkgmaint_inner :: "unit aur" where
  "pkgmaint_inner = andthen utcnow (\<lambda>t. execute (delete_pkgbases
     (\<lambda>b. pb_SubmittedTS b < t - 86400 \<and> pb_PackagerUID b = None)))"

definition pkgmaint :: "unit aur" where
  "pkgmaint = ret ()"

definition votereminder :: "int \<Rightarrow> int \<Rightarrow> unit aur" where
  "votereminder range_start range_end = andthen utcnow (\<lambda>t.
     andthen (query (\<lambda>d. filter (\<lambda>v. vi_End v \<ge> t + range_start \<and> vi_End v \<le> t + range_end) (VoteInfo d))) (\<lambda>vs.
     for_each vs (\<lambda>v. send (VoteReminderNotification (vi_ID v)))))"

section \<open>What accountmaint does\<close>

text \<open>Deleting users without content: their rows, keys, sessions and accepted terms, and nothing else.\<close>

definition delete_bare :: "nat set \<Rightarrow> db \<Rightarrow> db" where
  "delete_bare gone d = d\<lparr>Users := delete_where (\<lambda>u. u_ID u \<in> gone) (Users d),
     SSHPubKeys := delete_where (\<lambda>r. sk_UserID r \<in> gone) (SSHPubKeys d),
     Sessions := delete_where (\<lambda>r. ss_UsersID r \<in> gone) (Sessions d),
     AcceptedTerms := delete_where (\<lambda>r. at_UsersID r \<in> gone) (AcceptedTerms d)\<rparr>"

lemma null_if_other: "(\<And>i. i \<in> gone \<Longrightarrow> x \<noteq> Some i) \<Longrightarrow> null_if gone x = x"
  by (auto simp: null_if_def split: option.splits)

lemma delete_users_bare:
  assumes "gone \<subseteq> user_ids d" and "\<And>i. i \<in> gone \<Longrightarrow> \<not> owns_content d i"
  shows "delete_users (\<lambda>u. u_ID u \<in> gone) d = delete_bare gone d"
proof -
  have g: "u_ID ` {r \<in> set (Users d). u_ID r \<in> gone} = gone"
    using assms(1) by (auto simp: user_ids_def)
  have nulls: "null_if gone x = x" if "\<And>i. x = Some i \<Longrightarrow> owns_content d i" for x
    by (rule null_if_other) (use assms(2) that in blast)
  have in_base: "owns_content d i" if "b \<in> set (PackageBases d)"
      "Some i \<in> {pb_MaintainerUID b, pb_SubmitterUID b, pb_PackagerUID b, pb_FlaggerUID b}" for i b
    using that unfolding owns_content_def by blast
  have in_comment: "owns_content d i" if "c \<in> set (PackageComments d)"
      "Some i \<in> {pc_UsersID c, pc_EditedUsersID c, pc_DelUsersID c}" for i c
    using that unfolding owns_content_def by blast
  have in_request: "owns_content d i" if "r \<in> set (PackageRequests d)" "Some i \<in> {pr_UsersID r, pr_ClosedUID r}" for i r
    using that unfolding owns_content_def by blast
  have bases: "map (\<lambda>r. r\<lparr>pb_FlaggerUID := null_if gone (pb_FlaggerUID r),
      pb_SubmitterUID := null_if gone (pb_SubmitterUID r), pb_MaintainerUID := null_if gone (pb_MaintainerUID r),
      pb_PackagerUID := null_if gone (pb_PackagerUID r)\<rparr>) (PackageBases d) = PackageBases d"
    by (rule map_idI) (simp add: nulls in_base)
  have comments: "map (\<lambda>r. r\<lparr>pc_UsersID := null_if gone (pc_UsersID r), pc_EditedUsersID := null_if gone (pc_EditedUsersID r)\<rparr>)
      (delete_where (\<lambda>r. case pc_DelUsersID r of None \<Rightarrow> False | Some i \<Rightarrow> i \<in> gone) (PackageComments d)) = PackageComments d"
  proof -
    have "delete_where (\<lambda>r. case pc_DelUsersID r of None \<Rightarrow> False | Some i \<Rightarrow> i \<in> gone) (PackageComments d) = PackageComments d"
      by (rule delete_where_none) (use assms(2) in_comment in \<open>fastforce split: option.splits\<close>)
    moreover have "map (\<lambda>r. r\<lparr>pc_UsersID := null_if gone (pc_UsersID r), pc_EditedUsersID := null_if gone (pc_EditedUsersID r)\<rparr>)
      (PackageComments d) = PackageComments d"
      by (rule map_idI) (simp add: nulls in_comment)
    ultimately show ?thesis by simp
  qed
  have requests: "map (\<lambda>r. r\<lparr>pr_UsersID := null_if gone (pr_UsersID r), pr_ClosedUID := null_if gone (pr_ClosedUID r)\<rparr>)
      (PackageRequests d) = PackageRequests d"
    by (rule map_idI) (simp add: nulls in_request)
  have in_rows: "v \<in> set (PackageVotes d) \<Longrightarrow> owns_content d (pv_UsersID v)"
    "c \<in> set (PackageComaintainers d) \<Longrightarrow> owns_content d (cm_UsersID c)"
    "n \<in> set (PackageNotifications d) \<Longrightarrow> owns_content d (pn_UserID n)"
    "p \<in> set (VoteInfo d) \<Longrightarrow> owns_content d (vi_SubmitterID p)"
    "x \<in> set (Votes d) \<Longrightarrow> owns_content d (vt_UserID x)" for v c n p x
    unfolding owns_content_def by blast+
  have rows: "delete_where (\<lambda>r. pv_UsersID r \<in> gone) (PackageVotes d) = PackageVotes d"
    "delete_where (\<lambda>r. cm_UsersID r \<in> gone) (PackageComaintainers d) = PackageComaintainers d"
    "delete_where (\<lambda>r. pn_UserID r \<in> gone) (PackageNotifications d) = PackageNotifications d"
    "delete_where (\<lambda>r. vi_SubmitterID r \<in> gone) (VoteInfo d) = VoteInfo d"
    "delete_where (\<lambda>r. vt_UserID r \<in> gone) (Votes d) = Votes d"
    by (rule delete_where_none, use assms(2) in_rows in blast)+
  have none: "{v \<in> set (VoteInfo d). vi_SubmitterID v \<in> gone} = {}"
    using assms(2) in_rows(4) by blast
  show ?thesis
    by (simp add: delete_users_def delete_bare_def Let_def g bases comments requests rows none)
qed

lemma owns_content_bare [simp]: "owns_content (delete_bare gone d) i = owns_content d i"
  by (simp add: owns_content_def delete_bare_def)

lemma owns_content_Users [simp]: "owns_content (d\<lparr>Users := us\<rparr>) i = owns_content d i"
  by (simp add: owns_content_def)

lemma delete_where_twice: "delete_where p (delete_where q rs) = delete_where (\<lambda>r. q r \<or> p r) rs"
  by (simp add: delete_where_def conj_commute)

lemma delete_bare_twice: "delete_bare A (delete_bare B d) = delete_bare (B \<union> A) d"
  by (simp add: delete_bare_def delete_where_twice)

lemma delete_bare_none: "delete_bare {} d = d"
  by (simp add: delete_bare_def delete_where_def)

lemma user_ids_bare: "user_ids (delete_bare gone d) = user_ids d - gone"
  by (auto simp: user_ids_def delete_bare_def table_simps)

lemma distinct_bare: "distinct (map u_ID (Users d)) \<Longrightarrow> distinct (map u_ID (Users (delete_bare gone d)))"
  by (simp add: delete_bare_def distinct_map_delete_where)

lemma count_ids:
  assumes "distinct (map u_ID us)" and "distinct b" and "set b \<subseteq> u_ID ` set us"
  shows "count_where (\<lambda>u. u_ID u \<in> set b) us = length b"
proof -
  have "count_where (\<lambda>u. u_ID u \<in> set b) us = card (u_ID ` set (filter (\<lambda>u. u_ID u \<in> set b) us))"
    using distinct_card [OF distinct_map_filter [OF assms(1)]] by (simp add: count_where_def)
  also have "u_ID ` set (filter (\<lambda>u. u_ID u \<in> set b) us) = set b"
    using assms(3) by auto
  finally show ?thesis
    using distinct_card [OF assms(2)] by simp
qed

lemma run_delete_batches:
  assumes "distinct (concat bs)" and "set (concat bs) \<subseteq> user_ids (the_db w)"
    and "distinct (map u_ID (Users (the_db w)))" and "\<And>i. i \<in> set (concat bs) \<Longrightarrow> \<not> owns_content (the_db w) i"
  shows "collect bs delete_batch w
    = (Inr (map length bs), w\<lparr>the_db := delete_bare (set (concat bs)) (the_db w)\<rparr>)"
  using assms
proof (induction bs arbitrary: w)
  case Nil
  then show ?case by (simp add: ret_def delete_bare_none)
next
  case (Cons b bs)
  let ?w = "w\<lparr>the_db := delete_bare (set b) (the_db w)\<rparr>"
  have "delete_users (\<lambda>u. u_ID u \<in> set b) (the_db w) = delete_bare (set b) (the_db w)"
    by (rule delete_users_bare) (use Cons.prems in auto)
  moreover have "count_where (\<lambda>u. u_ID u \<in> set b) (Users (the_db w)) = length b"
    by (rule count_ids) (use Cons.prems in \<open>auto simp: user_ids_def\<close>)
  ultimately have one: "delete_batch b w = (Inr (length b), ?w)"
    by (intro run_eqI) (simp add: delete_batch_def wp_simps)
  have "collect bs delete_batch ?w = (Inr (map length bs), ?w\<lparr>the_db := delete_bare (set (concat bs)) (the_db ?w)\<rparr>)"
    by (rule Cons.IH) (use Cons.prems in \<open>auto simp: user_ids_bare distinct_bare\<close>)
  then show ?case
    by (simp add: andthen_def one ret_def delete_bare_twice)
qed

lemma concat_slices:
  assumes "0 < n"
  shows "concat (map (\<lambda>k. take n (drop (k * n) xs)) [0..<m]) = take (m * n) xs"
proof (induction m)
  case (Suc m)
  have "take (m * n) xs @ take n (drop (m * n) xs) = take (m * n + n) xs"
    by (simp add: take_add)
  with Suc show ?case by (simp add: add.commute)
qed simp

lemma concat_batches: "concat (batches uids) = uids"
proof -
  have "length uids \<le> (length uids + 500 - 1) div 500 * (500::nat)"
    by linarith
  then show ?thesis
    by (simp add: batches_def concat_slices BATCH_SIZE_def)
qed

lemma run_delete_expired:
  assumes "distinct (map u_ID (Users (the_db w)))"
  shows "delete_expired cfg dry w = (Inr (length (expired cfg (now w) (the_db w))),
    w\<lparr>the_db := delete_bare (if dry then {} else set (expired cfg (now w) (the_db w))) (the_db w)\<rparr>)"
proof -
  let ?uids = "expired cfg (now w) (the_db w)"
  have "distinct ?uids"
    unfolding expired_def by (rule distinct_map_filter [OF assms])
  moreover have "set ?uids \<subseteq> user_ids (the_db w)" "\<And>i. i \<in> set ?uids \<Longrightarrow> \<not> owns_content (the_db w) i"
    by (auto simp: expired_def user_ids_def doomed_def)
  ultimately have run: "collect (batches ?uids) delete_batch w
      = (Inr (map length (batches ?uids)), w\<lparr>the_db := delete_bare (set ?uids) (the_db w)\<rparr>)"
    using run_delete_batches [of "batches ?uids" w, unfolded concat_batches] assms by blast
  have "sum_list (map length (batches ?uids)) = length ?uids"
    by (metis concat_batches length_concat)
  then show ?thesis
    by (intro run_eqI) (simp add: delete_expired_def wp_simps delete_bare_none wp_def [of "collect _ _"] run)
qed

text \<open>The accounts that get a token, and those that keep theirs.\<close>

definition renewed :: "config \<Rightarrow> int \<Rightarrow> nat set \<Rightarrow> users_row \<Rightarrow> users_row \<Rightarrow> bool" where
  "renewed cfg t ids u v \<longleftrightarrow> (if u_ID u \<in> ids then \<exists>token. v = issue cfg token t u else v = u)"

lemma renewed_trans: "renewed cfg t A u v \<Longrightarrow> renewed cfg t B v x \<Longrightarrow> renewed cfg t (A \<union> B) u x"
  by (auto simp: renewed_def issue_def split: if_splits)

lemma list_all2_trans_on:
  "list_all2 P xs ys \<Longrightarrow> list_all2 Q ys zs \<Longrightarrow> (\<And>x y z. P x y \<Longrightarrow> Q y z \<Longrightarrow> R x z) \<Longrightarrow> list_all2 R xs zs"
  by (rule list_all2_trans [of P Q R])

lemma run_issue_loop:
  "\<exists>us k. for_each users (\<lambda>u. andthen (make_random_string cfg 32) (\<lambda>token.
       execute (\<lambda>d. d\<lparr>Users := update_where (\<lambda>x. u_ID x = u_ID u) (issue cfg token t) (Users d)\<rparr>))) w
    = (Inr (), w\<lparr>the_db := (the_db w)\<lparr>Users := us\<rparr>, draws := k\<rparr>)
    \<and> list_all2 (renewed cfg t (u_ID ` set users)) (Users (the_db w)) us"
proof (induction users arbitrary: w)
  case Nil
  show ?case
    by (rule exI [of _ "Users (the_db w)"], rule exI [of _ "draws w"])
      (simp add: ret_def renewed_def list_all2_same)
next
  case (Cons u users)
  let ?token = "random_string cfg (draws w) 32"
  let ?us = "update_where (\<lambda>x. u_ID x = u_ID u) (issue cfg ?token t) (Users (the_db w))"
  let ?w = "w\<lparr>draws := Suc (draws w), the_db := (the_db w)\<lparr>Users := ?us\<rparr>\<rparr>"
  have first: "list_all2 (renewed cfg t {u_ID u}) (Users (the_db w)) ?us"
    by (auto simp: update_where_def list_all2_conv_all_nth renewed_def)
  obtain us k where run: "for_each users (\<lambda>u. andthen (make_random_string cfg 32) (\<lambda>token.
       execute (\<lambda>d. d\<lparr>Users := update_where (\<lambda>x. u_ID x = u_ID u) (issue cfg token t) (Users d)\<rparr>))) ?w
    = (Inr (), ?w\<lparr>the_db := (the_db ?w)\<lparr>Users := us\<rparr>, draws := k\<rparr>)"
    and us: "list_all2 (renewed cfg t (u_ID ` set users)) (Users (the_db ?w)) us"
    using Cons.IH by blast
  have "list_all2 (renewed cfg t (u_ID ` set (u # users))) (Users (the_db w)) us"
    by (rule list_all2_trans_on [OF first]) (use us in simp, use renewed_trans in fastforce)
  moreover have "for_each (u # users) (\<lambda>u. andthen (make_random_string cfg 32) (\<lambda>token.
       execute (\<lambda>d. d\<lparr>Users := update_where (\<lambda>x. u_ID x = u_ID u) (issue cfg token t) (Users d)\<rparr>))) w
    = (Inr (), w\<lparr>the_db := (the_db w)\<lparr>Users := us\<rparr>, draws := k\<rparr>)"
    using run by (simp add: seqp_def andthen_def make_random_string_def execute_def modify_def)
  ultimately show ?case by blast
qed

lemma run_send_all:
  "(\<And>x. x \<in> set xs \<Longrightarrow> f x \<noteq> NoopComaintainerNotification) \<Longrightarrow>
   for_each xs (\<lambda>x. send (f x)) w = (Inr (), w\<lparr>sent := sent w @ map f xs\<rparr>)"
  by (induction xs arbitrary: w) (simp_all add: ret_def seqp_def andthen_def send_def modify_def)

definition reminders :: "config \<Rightarrow> users_row list \<Rightarrow> notification list" where
  "reminders cfg users = map (\<lambda>u. VerificationReminderNotification (u_ID u) (days_left cfg)) users"

lemma run_warn:
  "\<exists>us k. warn_accounts cfg dry w = (Inr (length (expiring cfg (now w) (the_db w))),
      w\<lparr>the_db := (the_db w)\<lparr>Users := us\<rparr>, draws := k,
        sent := sent w @ (if dry then [] else reminders cfg (expiring cfg (now w) (the_db w)))\<rparr>)
    \<and> list_all2 (renewed cfg (now w) (if dry then {} else u_ID ` set (expiring cfg (now w) (the_db w))))
        (Users (the_db w)) us"
proof (cases "expiring cfg (now w) (the_db w) = [] \<or> dry")
  case True
  then show ?thesis
    by (intro exI [of _ "Users (the_db w)"] exI [of _ "draws w"])
      (auto simp: warn_accounts_def andthen_def utcnow_def query_def gets_def ret_def reminders_def renewed_def list_all2_same)
next
  case False
  let ?users = "expiring cfg (now w) (the_db w)"
  obtain us k where run: "for_each ?users (\<lambda>u. andthen (make_random_string cfg 32) (\<lambda>token.
       execute (\<lambda>d. d\<lparr>Users := update_where (\<lambda>x. u_ID x = u_ID u) (issue cfg token (now w)) (Users d)\<rparr>))) w
    = (Inr (), w\<lparr>the_db := (the_db w)\<lparr>Users := us\<rparr>, draws := k\<rparr>)"
    and us: "list_all2 (renewed cfg (now w) (u_ID ` set ?users)) (Users (the_db w)) us"
    using run_issue_loop [of ?users cfg "now w" w] by blast
  have mails: "for_each ?users (\<lambda>u. send (VerificationReminderNotification (u_ID u) (days_left cfg))) w'
      = (Inr (), w'\<lparr>sent := sent w' @ reminders cfg ?users\<rparr>)" for w'
    unfolding reminders_def by (rule run_send_all) simp
  show ?thesis
    using False us
    by (intro exI [of _ us] exI [of _ k])
      (simp add: warn_accounts_def andthen_def seqp_def utcnow_def query_def gets_def transaction_def run mails ret_def)
qed

lemma expired_renewed:
  assumes "list_all2 (renewed cfg t ids) (Users d) us"
  shows "expired cfg t' (d\<lparr>Users := us\<rparr>) = expired cfg t' d"
proof -
  have "map u_ID (filter (\<lambda>u. doomed cfg t' d u \<and> u_RegistrationTS u < b) vs)
      = map u_ID (filter (\<lambda>u. doomed cfg t' d u \<and> u_RegistrationTS u < b) us)"
    if "list_all2 (renewed cfg t ids) us vs" for b us vs
    using that by (induction rule: list_all2_induct) (auto simp: renewed_def issue_def doomed_def split: if_splits)
  from this [OF assms] show ?thesis
    by (simp add: expired_def doomed_def)
qed

lemma renewed_ids: "list_all2 (renewed cfg t ids) us vs \<Longrightarrow> map u_ID vs = map u_ID us"
  by (induction rule: list_all2_induct) (auto simp: renewed_def issue_def split: if_splits)

lemma accountmaint_run:
  assumes "config_ok cfg" and "wf_db (the_db w)"
  shows "\<exists>us k. accountmaint cfg dry w
      = (Inr (length (expiring cfg (now w) (the_db w)), length (expired cfg (now w) (the_db w))),
         w\<lparr>the_db := delete_bare (if dry then {} else set (expired cfg (now w) (the_db w))) ((the_db w)\<lparr>Users := us\<rparr>),
           draws := k, sent := sent w @ (if dry then [] else reminders cfg (expiring cfg (now w) (the_db w)))\<rparr>)
    \<and> list_all2 (renewed cfg (now w) (if dry then {} else u_ID ` set (expiring cfg (now w) (the_db w))))
        (Users (the_db w)) us"
proof -
  let ?ids = "if dry then {} else u_ID ` set (expiring cfg (now w) (the_db w))"
  obtain us k where warned: "warn_accounts cfg dry w = (Inr (length (expiring cfg (now w) (the_db w))),
      w\<lparr>the_db := (the_db w)\<lparr>Users := us\<rparr>, draws := k,
        sent := sent w @ (if dry then [] else reminders cfg (expiring cfg (now w) (the_db w)))\<rparr>)" (is "_ = (_, ?w)")
    and us: "list_all2 (renewed cfg (now w) ?ids) (Users (the_db w)) us"
    using run_warn [of cfg dry w] by blast
  have same: "expired cfg (now w) ((the_db w)\<lparr>Users := us\<rparr>) = expired cfg (now w) (the_db w)"
    by (rule expired_renewed [OF us])
  have "distinct (map u_ID (Users (the_db ?w)))"
    using assms(2) renewed_ids [OF us] by (simp add: wf_db_def unique_ok_def)
  from run_delete_expired [OF this, of cfg dry] same
  have deleted: "delete_expired cfg dry ?w = (Inr (length (expired cfg (now w) (the_db w))),
      ?w\<lparr>the_db := delete_bare (if dry then {} else set (expired cfg (now w) (the_db w))) (the_db ?w)\<rparr>)"
    by simp
  show ?thesis
    using assms(1) us
    by (intro exI [of _ us] exI [of _ k] conjI) (simp_all add: accountmaint_def andthen_def warned deleted ret_def)
qed

text \<open>The small site with a newcomer who never verified the address.\<close>

definition newcomer :: users_row where
  "newcomer = users_default\<lparr>u_ID := 5, u_Username := ''newcomer'', u_Email := ''newcomer@example.org'',
     u_RegistrationTS := 9000000\<rparr>"

definition maint_world :: "users_row \<Rightarrow> int \<Rightarrow> world" where
  "maint_world u t = demo_world\<lparr>the_db := demo_db\<lparr>Users := Users demo_db @ [u]\<rparr>, now := t\<rparr>"

lemma now_maint_world [simp]: "now (maint_world u t) = t"
  by (simp add: maint_world_def)

lemma maint_world_db [simp]: "the_db (maint_world u t) = demo_db\<lparr>Users := Users demo_db @ [u]\<rparr>"
  by (simp add: maint_world_def)

lemma maint_world_wf: "wf_db (the_db (maint_world newcomer t))"
proof -
  have "wf_db (demo_db\<lparr>Users := Users demo_db @ [newcomer]\<rparr>)"
    by code_simp
  then show ?thesis by simp
qed

lemma default_config_ok: "config_ok default_config"
  by code_simp

lemma newcomer_warned: "map u_ID (expiring default_config 9650000 (the_db (maint_world newcomer 9650000))) = [5]"
  by code_simp

text \<open>
  C35. A run of accountmaint. It mails a reminder to each account of the warning band that holds no live token,
  after giving it a new one, and deletes each plain, unverified account that was registered and last
  used longer ago than the lifetime and owns no content; of the database it changes the tokens of the
  first, and the rows, keys, sessions and accepted terms of the second, and nothing else. A dry run
  reports the same numbers and changes nothing.
\<close>

theorem accountmaint_outcome:
  assumes "config_ok cfg" and "wf_db (the_db w)"
  shows "\<exists>us k. accountmaint cfg dry w
      = (Inr (length (expiring cfg (now w) (the_db w)), length (expired cfg (now w) (the_db w))),
         w\<lparr>the_db := delete_bare (if dry then {} else set (expired cfg (now w) (the_db w))) ((the_db w)\<lparr>Users := us\<rparr>),
           draws := k, sent := sent w @ (if dry then [] else reminders cfg (expiring cfg (now w) (the_db w)))\<rparr>)
    \<and> list_all2 (renewed cfg (now w) (if dry then {} else u_ID ` set (expiring cfg (now w) (the_db w))))
        (Users (the_db w)) us"
  by (rule accountmaint_run [OF assms])

theorem accountmaint_outcome_witness:
  "fst (accountmaint default_config False (maint_world newcomer 9650000)) = Inr (1, 1)"
proof -
  have "length (expiring default_config 9650000 (the_db (maint_world newcomer 9650000))) = 1"
    using arg_cong [OF newcomer_warned, of length] by simp
  moreover have "length (expired default_config 9650000 (the_db (maint_world newcomer 9650000))) = 1"
    by code_simp
  ultimately show ?thesis
    using accountmaint_outcome [OF default_config_ok maint_world_wf [of 9650000], of False]
    by (auto simp del: maint_world_db)
qed

lemma renewed_row:
  assumes "list_all2 (renewed cfg t ids) us vs" and "u \<in> set us"
  shows "\<exists>v \<in> set vs. renewed cfg t ids u v"
  using list_all2_in1 [OF assms] .

lemma renewed_back:
  assumes "list_all2 (renewed cfg t ids) us vs" and "v \<in> set vs"
  shows "\<exists>u \<in> set us. renewed cfg t ids u v"
  using list_all2_in2 [OF assms] .

text \<open>
  C0. Nobody is warned twice: an account that a run warns is in the warning band of no run that starts
  before the lifetime of its new token is over.
\<close>

theorem warned_once:
  assumes "accountmaint cfg False w = (Inr r, w')" and "wf_db (the_db w)"
    and "u \<in> set (expiring cfg (now w) (the_db w))" and "t < now w + warning_window cfg"
  shows "u_ID u \<notin> u_ID ` set (expiring cfg t (the_db w'))"
proof
  assume "u_ID u \<in> u_ID ` set (expiring cfg t (the_db w'))"
  then obtain v where v: "v \<in> set (Users (the_db w'))" "u_ID v = u_ID u"
    and dead: "case u_EmailVerificationExpiry v of None \<Rightarrow> True | Some e \<Rightarrow> e \<le> t"
    by (auto simp: expiring_def)
  have ok: "config_ok cfg"
    using assms(1) by (auto simp: accountmaint_def throw_def split: if_splits)
  obtain us where db: "Users (the_db w') = delete_where (\<lambda>u. u_ID u \<in> set (expired cfg (now w) (the_db w))) us"
    and us: "list_all2 (renewed cfg (now w) (u_ID ` set (expiring cfg (now w) (the_db w)))) (Users (the_db w)) us"
    using accountmaint_run [OF ok assms(2), of False] assms(1) by (auto simp: delete_bare_def)
  have "v \<in> set us"
    using v(1) db by (simp add: table_simps)
  from renewed_back [OF us this] v(2) assms(3) obtain token u' where "v = issue cfg token (now w) u'"
    by (auto simp: renewed_def issue_def split: if_splits)
  with dead assms(4) show False
    by (simp add: issue_def warning_window_def)
qed

theorem warned_once_witness:
  "\<exists>r w'. accountmaint default_config False (maint_world newcomer 9650000) = (Inr r, w')
    \<and> 5 \<notin> u_ID ` set (expiring default_config 9700000 (the_db w'))"
proof -
  obtain r w' where run: "accountmaint default_config False (maint_world newcomer 9650000) = (Inr r, w')"
    using accountmaint_run [OF default_config_ok maint_world_wf [of 9650000], of False] by blast
  obtain u where u: "u \<in> set (expiring default_config (now (maint_world newcomer 9650000)) (the_db (maint_world newcomer 9650000)))"
    and "u_ID u = 5"
    using newcomer_warned by (auto simp del: maint_world_db simp: map_eq_Cons_conv)
  then have "5 \<notin> u_ID ` set (expiring default_config 9700000 (the_db w'))"
    using warned_once [OF run maint_world_wf u, of 9700000]
    by (simp add: warning_window_def default_config_def default_accounts_def)
  with run show ?thesis by blast
qed

text \<open>The warning band of an account registered at \<open>r\<close>, and a schedule that cannot miss it.\<close>

definition in_band :: "config \<Rightarrow> int \<Rightarrow> int \<Rightarrow> bool" where
  "in_band cfg t r \<longleftrightarrow> r < t - warn_after cfg \<and> r \<ge> t - (warn_after cfg + warning_window cfg)"

lemma first_after:
  assumes "ts \<noteq> []" and "hd ts \<le> b" and "b < last ts"
  shows "\<exists>i. Suc i < length ts \<and> ts ! i \<le> b \<and> b < (ts ! Suc i :: int)"
  using assms
proof (induction ts)
  case (Cons t ts)
  then obtain u us where ts: "ts = u # us"
    by (cases ts) auto
  show ?case
  proof (cases "u \<le> b")
    case True
    with Cons ts obtain i where "Suc i < length ts" "ts ! i \<le> b" "b < ts ! Suc i"
      by auto
    then show ?thesis
      by (intro exI [of _ "Suc i"]) simp
  next
    case False
    with Cons ts show ?thesis
      by (intro exI [of _ 0]) simp
  qed
qed simp

lemma band_is_hit:
  assumes "ts \<noteq> []" and "hd ts \<le> r + warn_after cfg" and "r + warn_after cfg < last ts"
    and "\<And>i. Suc i < length ts \<Longrightarrow> ts ! Suc i \<le> ts ! i + warning_window cfg"
  shows "\<exists>i < length ts. in_band cfg (ts ! i) r"
proof -
  obtain i where i: "Suc i < length ts" "ts ! i \<le> r + warn_after cfg" "r + warn_after cfg < ts ! Suc i"
    using first_after [OF assms(1-3)] by blast
  with assms(4) [OF i(1)] show ?thesis
    by (intro exI [of _ "Suc i"]) (simp add: in_band_def)
qed

text \<open>The account \<open>i\<close>, registered at \<open>r\<close>, is not suspended and would be deleted in its time.\<close>

definition abandoned :: "config \<Rightarrow> nat \<Rightarrow> int \<Rightarrow> world \<Rightarrow> bool" where
  "abandoned cfg i r w \<longleftrightarrow> (\<exists>u \<in> set (Users (the_db w)). u_ID u = i \<and> u_RegistrationTS u = r
     \<and> doomed cfg (now w) (the_db w) u \<and> \<not> u_Suspended u)"

definition holds_token :: "nat \<Rightarrow> world \<Rightarrow> bool" where
  "holds_token i w \<longleftrightarrow> (\<exists>u \<in> set (Users (the_db w)). u_ID u = i
     \<and> (\<exists>e. u_EmailVerificationExpiry u = Some e \<and> now w < e))"

definition newly_sent :: "'a aur \<Rightarrow> world \<Rightarrow> notification list" where
  "newly_sent m w = drop (length (sent w)) (sent (snd (m w)))"

lemma band_reminds:
  assumes "config_ok cfg" and "wf_db (the_db w)" and "abandoned cfg i r w" and "in_band cfg (now w) r"
  shows "holds_token i w \<or> VerificationReminderNotification i (days_left cfg) \<in> set (newly_sent (accountmaint cfg False) w)"
proof (rule disjCI)
  assume dead: "VerificationReminderNotification i (days_left cfg) \<notin> set (newly_sent (accountmaint cfg False) w)"
  obtain u where u: "u \<in> set (Users (the_db w))" "u_ID u = i" "u_RegistrationTS u = r"
    "doomed cfg (now w) (the_db w) u" "\<not> u_Suspended u"
    using assms(3) by (auto simp: abandoned_def)
  have new: "newly_sent (accountmaint cfg False) w = reminders cfg (expiring cfg (now w) (the_db w))"
    using accountmaint_run [OF assms(1,2), of False] by (auto simp: newly_sent_def)
  have "u \<notin> set (expiring cfg (now w) (the_db w))"
  proof
    assume "u \<in> set (expiring cfg (now w) (the_db w))"
    then have "VerificationReminderNotification (u_ID u) (days_left cfg) \<in> set (reminders cfg (expiring cfg (now w) (the_db w)))"
      by (simp add: reminders_def)
    with dead u(2) show False
      by (simp add: new)
  qed
  with u assms(4) have "\<not> (case u_EmailVerificationExpiry u of None \<Rightarrow> True | Some e \<Rightarrow> e \<le> now w)"
    by (auto simp: expiring_def in_band_def)
  with u(1,2) show "holds_token i w"
    by (auto simp: holds_token_def split: option.splits)
qed



text \<open>
  The warning does not reach those who once signed in. With the shipped times, an account that has
  authenticated at or after its registration is never in the warning band: at that time its last login
  is younger than the lifetime. Once the login is older, the account is deleted all the same.
\<close>

theorem signed_in_never_warned:
  assumes "warn_after cfg + warning_window cfg \<le> lifetime cfg"
    and "u_RegistrationTS u \<le> u_LastLogin u \<or> u_RegistrationTS u \<le> u_LastSSHLogin u"
  shows "(\<forall>t. u \<notin> set (expiring cfg t d))
    \<and> (u \<in> set (Users d) \<and> \<not> u_EmailVerified u \<and> u_AccountTypeID u = USER_ID \<and> \<not> owns_content d (u_ID u)
       \<and> u_RegistrationTS u < t - lifetime cfg \<and> u_LastLogin u < t - lifetime cfg \<and> u_LastSSHLogin u < t - lifetime cfg
       \<longrightarrow> u_ID u \<in> set (expired cfg t d))"
proof -
  have "u \<notin> set (expiring cfg t d)" for t
    using assms by (auto simp: expiring_def doomed_def)
  then show ?thesis
    by (auto simp: expired_def doomed_def)
qed

theorem signed_in_never_warned_witness:
  "(\<forall>t. newcomer\<lparr>u_LastLogin := 9000100\<rparr> \<notin> set (expiring default_config t demo_db))
   \<and> 5 \<in> set (expired default_config 12000000 (demo_db\<lparr>Users := [newcomer\<lparr>u_LastLogin := 9000100\<rparr>]\<rparr>))"
proof -
  let ?u = "newcomer\<lparr>u_LastLogin := 9000100\<rparr>"
  have times: "warn_after default_config + warning_window default_config \<le> lifetime default_config"
    by (simp add: warn_after_def warning_window_def lifetime_def default_config_def default_limits_def default_accounts_def)
  have login: "u_RegistrationTS ?u \<le> u_LastLogin ?u \<or> u_RegistrationTS ?u \<le> u_LastSSHLogin ?u"
    by (simp add: newcomer_def)
  have content: "\<not> owns_content (demo_db\<lparr>Users := [?u]\<rparr>) 5"
    by code_simp
  have "u_ID ?u \<in> set (expired default_config 12000000 (demo_db\<lparr>Users := [?u]\<rparr>))"
    using signed_in_never_warned [OF times login, where t = 12000000 and d = "demo_db\<lparr>Users := [?u]\<rparr>"] content
    by (simp add: newcomer_def users_default_def lifetime_def default_config_def default_limits_def USER_ID_def)
  then show ?thesis
    using signed_in_never_warned [OF times login, where d = demo_db] by (simp add: newcomer_def)
qed

section \<open>What requestmaint does\<close>

definition automatic_text :: "packagerequests_row \<Rightarrow> string" where
  "automatic_text r = ''Request #'' @ str_nat (pr_ID r)
     @ '' has been rejected automatically by the Arch User Repository package request system''
     @ (if strip (pr_ClosureComment r) = [] then ''.'' else '':'' @ [nl, nl] @ pr_ClosureComment r)"

lemma run_close_letter:
  assumes "wf_db (the_db w)" and "r \<in> set (PackageRequests (the_db w))" and "0 \<notin> user_ids (the_db w)"
    and "\<exists>x \<in> set (RequestTypes (the_db w)). qt_ID x = pr_ReqTypeID r"
  shows "\<exists>l. letter_of cfg ml (RequestCloseNotification 0 (pr_ID r) ''rejected'') w = (Inr l, w)
    \<and> lt_body l ''en'' = Inr (automatic_text r)"
proof -
  have "distinct (map pr_ID (PackageRequests (the_db w)))"
    using assms(1) by (simp add: wf_db_def unique_ok_def)
  then have r: "List.find (\<lambda>s. pr_ID s = pr_ID r) (PackageRequests (the_db w)) = Some r"
    using assms(2) by (rule find_key)
  obtain x where x: "List.find (\<lambda>t. qt_ID t = pr_ReqTypeID r) (RequestTypes (the_db w)) = Some x"
    using assms(4) find_Some_iff_ex [of "\<lambda>t. qt_ID t = pr_ReqTypeID r"] by blast
  have nobody: "List.find (\<lambda>u. u_ID u = 0) (Users (the_db w)) = None"
    using assms(3) by (auto simp: find_None_iff user_ids_def)
  have "wp (request_close_letter cfg ml 0 (pr_ID r) ''rejected'')
      (\<lambda>l w'. w' = w \<and> lt_body l ''en'' = Inr (automatic_text r)) (\<lambda>_ _. False) w"
    by (simp only: request_close_letter_def wp_simps nobody option.case Let_def r x letter.simps automatic_text_def
        append_assoc append_Cons append_Nil if_False if_True simp_thms list.distinct not_False_eq_True HOL.refl)
  then show ?thesis
    by (cases "request_close_letter cfg ml 0 (pr_ID r) ''rejected'' w") (auto simp: wp_def split: sum.splits)
qed

lemma update_where_union:
  "(\<And>x. k (f x) = k x) \<Longrightarrow> (\<And>x. f (f x) = f x) \<Longrightarrow>
   update_where (\<lambda>x. k x \<in> B) f (update_where (\<lambda>x. k x = a) f rs) = update_where (\<lambda>x. k x \<in> insert a B) f rs"
  by (induction rs) (simp_all add: update_where_def)

lemma reject_idle_ID [simp]: "pr_ID (reject_idle t r) = pr_ID r"
  by (simp add: reject_idle_def)

lemma reject_idle_idem [simp]: "reject_idle t (reject_idle t r) = reject_idle t r"
  by (simp add: reject_idle_def)

lemma run_execute: "execute f w = (Inr (), w\<lparr>the_db := f (the_db w)\<rparr>)"
  by (simp add: execute_def modify_def)

lemma for_each_step: "f x w = (Inr (), w') \<Longrightarrow> for_each (x # xs) f w = for_each xs f w'"
  by (simp add: seqp_def andthen_def)

lemma run_reject_loop:
  "for_each idle (\<lambda>r. execute (\<lambda>d. d\<lparr>PackageRequests :=
       update_where (\<lambda>x. pr_ID x = pr_ID r) (reject_idle t) (PackageRequests d)\<rparr>)) w
   = (Inr (), w\<lparr>the_db := (the_db w)\<lparr>PackageRequests :=
       update_where (\<lambda>x. pr_ID x \<in> pr_ID ` set idle) (reject_idle t) (PackageRequests (the_db w))\<rparr>\<rparr>)"
proof (induction idle arbitrary: w)
  case Nil
  then show ?case by (simp add: ret_def update_where_def)
next
  case (Cons r idle)
  show ?case
    by (subst for_each_step, rule run_execute, subst Cons.IH) (simp add: update_where_union)
qed

lemma run_collect_letters:
  assumes "\<And>r. r \<in> set rs \<Longrightarrow> \<exists>l. f r w = (Inr l, w) \<and> P r l"
  shows "\<exists>ls. collect rs f w = (Inr ls, w) \<and> list_all2 P rs ls"
  using assms
proof (induction rs)
  case (Cons r rs)
  then obtain ls where "collect rs f w = (Inr ls, w)" "list_all2 P rs ls"
    by auto
  moreover obtain l where "f r w = (Inr l, w)" "P r l"
    using Cons.prems [of r] by auto
  ultimately show ?case
    by (intro exI [of _ "l # ls"]) (simp add: andthen_def ret_def)
qed (simp add: ret_def)

text \<open>
  A run of requestmaint rejects exactly the pending adoption requests older than the idle time, with the
  reason as closure comment, and notifies of each; nothing else changes. The mails do not say the
  reason: they are written from the closure comment the request had before.
\<close>

theorem requestmaint_outcome:
  assumes "wf_db (the_db w)" and "0 \<notin> user_ids (the_db w)"
    and "\<exists>x \<in> set (RequestTypes (the_db w)). qt_ID x = ADOPTION_ID"
  shows "\<exists>letters. requestmaint_main cfg ml w = (Inr letters, w\<lparr>
      the_db := (the_db w)\<lparr>PackageRequests :=
        update_where (idle_adoption cfg (now w)) (reject_idle (now w)) (PackageRequests (the_db w))\<rparr>,
      sent := sent w @ map (\<lambda>r. RequestCloseNotification 0 (pr_ID r) ''rejected'')
        (filter (idle_adoption cfg (now w)) (PackageRequests (the_db w)))\<rparr>)
    \<and> list_all2 (\<lambda>r l. lt_body l ''en'' = Inr (automatic_text r))
        (filter (idle_adoption cfg (now w)) (PackageRequests (the_db w))) letters"
proof -
  let ?idle = "filter (idle_adoption cfg (now w)) (PackageRequests (the_db w))"
  let ?n = "\<lambda>r. RequestCloseNotification 0 (pr_ID r) ''rejected''"
  let ?P = "\<lambda>r p. fst p = ?n r \<and> lt_body (snd p) ''en'' = Inr (automatic_text r)"
  have "\<exists>ps. collect ?idle (reject_note cfg ml) w = (Inr ps, w) \<and> list_all2 ?P ?idle ps"
  proof (rule run_collect_letters)
    fix r assume r: "r \<in> set ?idle"
    then have "\<exists>x \<in> set (RequestTypes (the_db w)). qt_ID x = pr_ReqTypeID r"
      using assms(3) by (simp add: idle_adoption_def)
    moreover have "r \<in> set (PackageRequests (the_db w))"
      using r by simp
    ultimately obtain l where "letter_of cfg ml (?n r) w = (Inr l, w)" "lt_body l ''en'' = Inr (automatic_text r)"
      using run_close_letter [OF assms(1) _ assms(2)] by blast
    then show "\<exists>p. reject_note cfg ml r w = (Inr p, w) \<and> ?P r p"
      by (intro exI [of _ "(?n r, l)"]) (simp add: reject_note_def Let_def andthen_def ret_def del: letter_of.simps)
  qed
  then obtain ps where ps: "collect ?idle (reject_note cfg ml) w = (Inr ps, w)"
    and each: "list_all2 ?P ?idle ps"
    by blast
  have "distinct (map pr_ID (PackageRequests (the_db w)))"
    using assms(1) by (simp add: wf_db_def unique_ok_def)
  then have "update_where (\<lambda>x. pr_ID x \<in> pr_ID ` set ?idle) (reject_idle (now w)) (PackageRequests (the_db w))
      = update_where (idle_adoption cfg (now w)) (reject_idle (now w)) (PackageRequests (the_db w))"
    unfolding update_where_def by (intro map_cong) (auto dest: distinct_map_inj)
  moreover have built: "map fst ps = map ?n ?idle"
    using each by (induction rule: list_all2_induct) simp_all
  moreover have "for_each ps (\<lambda>p. send (fst p)) w' = (Inr (), w'\<lparr>sent := sent w' @ map ?n ?idle\<rparr>)" for w'
  proof -
    have "fst p \<noteq> NoopComaintainerNotification" if "p \<in> set ps" for p
    proof -
      have "fst p \<in> set (map fst ps)"
        using that by simp
      then have "\<exists>r::packagerequests_row. fst p = ?n r"
        unfolding built set_map by (elim imageE) (rule exI)
      then show ?thesis by (elim exE) (simp only: notification.distinct not_False_eq_True)
    qed
    then show ?thesis
      using run_send_all [of ps fst w'] built by simp
  qed
  ultimately have "requestmaint_main cfg ml w = (Inr (map snd ps), w\<lparr>
      the_db := (the_db w)\<lparr>PackageRequests :=
        update_where (idle_adoption cfg (now w)) (reject_idle (now w)) (PackageRequests (the_db w))\<rparr>,
      sent := sent w @ map ?n ?idle\<rparr>)"
    by (simp add: requestmaint_main_def requestmaint_def andthen_def seqp_def transaction_def utcnow_def query_def gets_def
        ps run_reject_loop ret_def)
  moreover have "list_all2 (\<lambda>r l. lt_body l ''en'' = Inr (automatic_text r)) ?idle (map snd ps)"
    using each by (induction rule: list_all2_induct) simp_all
  ultimately show ?thesis by blast
qed

text \<open>The small site with an adoption request nobody acted on.\<close>

definition idle_request :: packagerequests_row where
  "idle_request = \<lparr>pr_ID = 1, pr_ReqTypeID = 4, pr_PackageBaseID = Some 11, pr_PackageBaseName = ''bar'',
     pr_MergeBaseName = None, pr_UsersID = Some 3, pr_Comments = ''mine'', pr_ClosureComment = [],
     pr_RequestTS = 0, pr_ClosedTS = None, pr_ClosedUID = None, pr_Status = 0\<rparr>"

definition idle_world :: world where
  "idle_world = demo_world\<lparr>the_db := demo_db\<lparr>PackageRequests := [idle_request]\<rparr>, now := 2000000\<rparr>"

theorem requestmaint_outcome_witness:
  "\<exists>l w. requestmaint_main default_config demo_mailer idle_world = (Inr [l], w)
    \<and> map pr_Status (PackageRequests (the_db w)) = [REJECTED_ID] \<and> lt_body l ''en'' = Inr (automatic_text idle_request)"
proof -
  have ok: "wf_db (the_db idle_world)" "0 \<notin> user_ids (the_db idle_world)"
      "\<exists>x \<in> set (RequestTypes (the_db idle_world)). qt_ID x = ADOPTION_ID"
    by code_simp+
  have idle: "PackageRequests (the_db idle_world) = [idle_request]" "idle_adoption default_config (now idle_world) idle_request"
    by (simp add: idle_world_def) code_simp
  show ?thesis
    using requestmaint_outcome [OF ok, of default_config demo_mailer]
    by (auto simp only: idle filter.simps if_True list_all2_Cons1 list_all2_Nil update_where_def list.map)
      (simp add: reject_idle_def)
qed

end
