(* ===== verification/Site.thy ===== *)
theory Site
  imports Service_Terms Rate_Limit Accounts Pkgbase_Routes
begin

text \<open>
  The application around the routes: \<open>aurweb/asgi.py\<close> with its exception handlers and middlewares, the choice of
  language and time zone (\<open>aurweb/l10n.py\<close>, \<open>aurweb/time.py\<close>) and the context every page is rendered with
  (\<open>aurweb/templates.py\<close>). The text of a traceback and its SHA1 digest are parameters; of a response the
  headers the middlewares set are modelled, and the issue that is filed about an unexpected exception.
\<close>

section \<open>Requests\<close>

text \<open>
  Beyond \<open>request\<close>: the parameters of the query string in their order, the cookie AURLANG, the form
  \<open>handle_form_exceptions\<close> has stored (None where the route has no such decorator), the nonce of the user object, and
  scheme and host of the URL.
\<close>

record web_request = request +
  wq_params :: "(string \<times> string) list"
  wq_lang :: "string option"
  wq_form :: "string option"
  wq_nonce :: string
  wq_base :: string

text \<open>\<open>QueryParams.get\<close> gives the last value of a name; \<open>items\<close> gives every name once, with its last value.\<close>

definition query_param :: "string \<Rightarrow> (string \<times> string) list \<Rightarrow> string option" where
  "query_param k ps = map_of (rev ps) k"

definition query_items :: "(string \<times> string) list \<Rightarrow> (string \<times> string) list" where
  "query_items ps = map (\<lambda>k. (k, the (query_param k ps))) (rev (remdups (rev (map fst ps))))"

lemma set_query_items: "set (query_items ps) = {(k, v). query_param k ps = Some v}"
proof (intro set_eqI iffI)
  fix x
  assume "x \<in> set (query_items ps)"
  then obtain k where k: "k \<in> fst ` set ps" "x = (k, the (query_param k ps))"
    by (auto simp: query_items_def)
  then have "query_param k ps \<noteq> None"
    by (simp add: query_param_def map_of_eq_None_iff)
  with k show "x \<in> {(k, v). query_param k ps = Some v}"
    by auto
next
  fix x
  assume "x \<in> {(k, v). query_param k ps = Some v}"
  then obtain k v where kv: "x = (k, v)" "query_param k ps = Some v"
    by auto
  then have "map_of (rev ps) k = Some v"
    by (simp add: query_param_def)
  then have "(k, v) \<in> set ps"
    using map_of_SomeD by fastforce
  then have "k \<in> set (rev (remdups (rev (map fst ps))))"
    by (force simp: image_iff)
  with kv show "x \<in> set (query_items ps)"
    unfolding query_items_def set_map by (metis (mono_tags, lifting) image_eqI option.sel)
qed

lemma distinct_query_items: "distinct (map fst (query_items ps))"
  by (simp add: query_items_def comp_def)

section \<open>Language and time zone\<close>

definition RIGHT_TO_LEFT_LANGUAGES :: "string list" where
  "RIGHT_TO_LEFT_LANGUAGES = [''he'', ''ar'']"

definition one_of_them :: "(string \<Rightarrow> bool) \<Rightarrow> string option \<Rightarrow> bool" where
  "one_of_them supported x \<longleftrightarrow> (case x of None \<Rightarrow> False | Some s \<Rightarrow> s \<noteq> [] \<and> supported s)"

definition supported_language :: "string \<Rightarrow> bool" where
  "supported_language l \<longleftrightarrow> l \<in> set SUPPORTED_LANGUAGES"

definition get_request_language :: "config \<Rightarrow> web_request \<Rightarrow> string" where
  "get_request_language cfg rq =
     (let request_lang = query_param ''language'' (wq_params rq) in
      if one_of_them supported_language request_lang then the request_lang
      else case rq_user rq of
        LoggedIn u \<Rightarrow> if supported_language (u_LangPreference u) then u_LangPreference u
          else if one_of_them supported_language (wq_lang rq) then the (wq_lang rq)
          else default_lang (accounts cfg)
      | AnonymousUser \<Rightarrow> if one_of_them supported_language (wq_lang rq) then the (wq_lang rq)
          else default_lang (accounts cfg))"

definition get_request_timezone :: "config \<Rightarrow> web_request \<Rightarrow> string" where
  "get_request_timezone cfg rq =
     (let request_tz = query_param ''timezone'' (wq_params rq) in
      if one_of_them (supported_timezone (accounts cfg)) request_tz then the request_tz
      else case rq_user rq of
        LoggedIn u \<Rightarrow> if supported_timezone (accounts cfg) (u_Timezone u) then u_Timezone u else default_timezone (accounts cfg)
      | AnonymousUser \<Rightarrow> default_timezone (accounts cfg))"

text \<open>Whatever a request asks for, a page is shown in a language and a time zone the site has.\<close>

lemma request_language_supported:
  assumes "supported_language (default_lang (accounts cfg))"
  shows "supported_language (get_request_language cfg rq)"
  using assms by (auto simp: get_request_language_def one_of_them_def Let_def split: requester.split option.split)

lemma request_timezone_supported:
  assumes "supported_timezone (accounts cfg) (default_timezone (accounts cfg))"
  shows "supported_timezone (accounts cfg) (get_request_timezone cfg rq)"
  using assms by (auto simp: get_request_timezone_def one_of_them_def Let_def split: requester.split option.split)

section \<open>The context of a page\<close>

record page_context =
  cx_language :: string
  cx_rtl :: bool
  cx_timezone :: string
  cx_title :: string
  cx_utcnow :: int
  cx_next :: string
  cx_commit_hash :: "string option"
  cx_max_chars_comment :: nat

definition CONTEXT_KEYS :: "string list" where
  "CONTEXT_KEYS = [''request'', ''commit_url'', ''commit_hash'', ''language'', ''languages'', ''rtl'', ''timezone'', ''timezones'',
     ''title'', ''now'', ''utcnow'', ''config'', ''creds'', ''next'', ''version'', ''max_chars_comment'']"

text \<open>\<open>commit_hash\<close> is the option \<open>devel.commit_hash\<close>.\<close>

definition template_context :: "config \<Rightarrow> string option \<Rightarrow> web_request \<Rightarrow> string \<Rightarrow> string option \<Rightarrow> int \<Rightarrow> page_context" where
  "template_context cfg commit_hash rq title next ts =
     (let language = get_request_language cfg rq in
      \<lparr>cx_language = language, cx_rtl = (language \<in> set RIGHT_TO_LEFT_LANGUAGES), cx_timezone = get_request_timezone cfg rq,
       cx_title = title, cx_utcnow = ts,
       cx_next = (case next of None \<Rightarrow> rq_path rq | Some n \<Rightarrow> if n = [] then rq_path rq else n),
       cx_commit_hash = map_option (take 7) commit_hash, cx_max_chars_comment = max_chars_comment cfg\<rparr>)"

text \<open>
  \<open>make_variable_context\<close>: what a request adds to the context, from its query or its form. The key \<open>q\<close> is
  overwritten with the query itself afterwards.
\<close>

definition make_variable_context :: "(string \<times> string) list \<Rightarrow> (string \<times> string) list" where
  "make_variable_context params = filter (\<lambda>(k, v). k \<notin> set CONTEXT_KEYS \<and> k \<noteq> ''q'') (query_items params)"

lemma variable_context_adds:
  "(k, v) \<in> set (make_variable_context params) \<longleftrightarrow> query_param k params = Some v \<and> k \<notin> set CONTEXT_KEYS \<and> k \<noteq> ''q''"
  unfolding make_variable_context_def set_filter mem_Collect_eq prod.case set_query_items by (rule refl)


section \<open>Responses and exception handlers\<close>

text \<open>
  An answer, the package base whose clone URLs a page shows, the security headers and the title of the issue that was
  filed.
\<close>

record web_response =
  wr_answer :: response
  wr_clone :: "string option"
  wr_headers :: "(string \<times> string) list"
  wr_issue :: "string option"

definition plain_answer :: "response \<Rightarrow> web_response" where
  "plain_answer r = \<lparr>wr_answer = r, wr_clone = None, wr_headers = [], wr_issue = None\<rparr>"

text \<open>The settings: the configuration, the text of a traceback, its digest, and where issues are filed.\<close>

record site =
  st_config :: config
  st_traceback :: "exn \<Rightarrow> string"
  st_sha1 :: "string \<Rightarrow> string"
  st_project :: string
  st_token :: string

text \<open>\<open>except Exception\<close> and \<open>except RuntimeError\<close>, for the exceptions of the model.\<close>

definition is_exception :: "exn \<Rightarrow> bool" where
  "is_exception e \<longleftrightarrow> (case e of SystemExit n \<Rightarrow> False | Divergence \<Rightarrow> False | _ \<Rightarrow> True)"

definition is_runtime_error :: "exn \<Rightarrow> bool" where
  "is_runtime_error e \<longleftrightarrow> e = Py_NotImplementedError"

definition error_or_result :: "web_response aur \<Rightarrow> web_response aur" where
  "error_or_result next = catch next (\<lambda>e. if is_runtime_error e then ret (plain_answer (Json 500)) else throw e)"

text \<open>
  The name in \<open>/name\<close> or \<open>/name.git\<close>: the non-greedy group of the regular expression leaves a final \<open>.git\<close> to the
  second group, unless there is nothing before it.
\<close>

definition group1 :: "string \<Rightarrow> bool" where
  "group1 s \<longleftrightarrow> (case s of [] \<Rightarrow> False | c # cs \<Rightarrow> is_lower_alnum c \<and> list_all is_pkgname_char cs)"

definition clone_name :: "string \<Rightarrow> string option" where
  "clone_name token = (let t = (if token \<noteq> [] \<and> last token = nl then butlast token else token) in
     if endswith t ''.git'' \<and> group1 (take (length t - 4) t) then Some (take (length t - 4) t)
     else if group1 t then Some t else None)"

definition error_template :: "nat \<Rightarrow> string" where
  "error_template status = (if status \<in> {404, 500, 503} then ''errors/'' @ str_nat status @ ''.html'' else ''errors/detail.html'')"

definition http_exception_handler :: "web_request \<Rightarrow> nat \<Rightarrow> string \<Rightarrow> web_response aur" where
  "http_exception_handler rq status detail =
     (let page = plain_answer (Page status (error_template status) [detail]);
          tokens = split_on (CHR ''/'') (rq_path rq) in
      if status \<noteq> 404 then ret page
      else if length tokens < 2 then throw Py_IndexError
      else case clone_name (tokens ! 1) of
        None \<Rightarrow> ret page
      | Some name \<Rightarrow> if length tokens \<noteq> 2 then ret page
          else catch (andthen (get_pkg_or_base name) (\<lambda>pkgbase. ret (page\<lparr>wr_clone := Some (pb_Name pkgbase)\<rparr>)))
            (\<lambda>e. case e of HTTPException s d \<Rightarrow> ret page | _ \<Rightarrow> throw e))"

text \<open>
  \<open>internal_server_error\<close>: a traceback that has not been seen for a day is noted in Redis and, when the site files
  issues, reported. The stored text is not modelled, its key is there with the value 1.
\<close>

definition traceback_key :: "site \<Rightarrow> exn \<Rightarrow> string" where
  "traceback_key S e = ''tb:'' @ st_sha1 S (st_traceback S e)"

definition internal_server_error :: "site \<Rightarrow> web_request \<Rightarrow> exn \<Rightarrow> web_response aur" where
  "internal_server_error S rq e =
     (let page = plain_answer (Page 500 ''errors/500.html'' []); key = traceback_key S e in
      andthen (redis_get key) (\<lambda>retval.
      if retval \<noteq> None then ret page
      else seqp (redis_set key 1)
        (seqp (redis_expire key 86400)
        (if st_project S = ''set-me'' \<or> st_token S = ''set-me'' then ret page
         else seqp (guard (rq_get rq \<or> wq_form rq \<noteq> None) Py_AttributeError)
           (ret (page\<lparr>wr_issue := Some (''Traceback ['' @ take 7 (st_sha1 S (st_traceback S e)) @ '']: ''
             @ wq_base rq @ rq_path rq)\<rparr>))))))"

section \<open>Middlewares\<close>

definition security_headers :: "string \<Rightarrow> (string \<times> string) list" where
  "security_headers nonce =
     [(''Content-Security-Policy'', ''default-src 'self'; script-src 'self' 'nonce-'' @ nonce @ [CHR 0x27]
         @ ''; style-src 'self' 'unsafe-inline'' @ [CHR 0x27]),
      (''X-Content-Type-Options'', ''nosniff''), (''Referrer-Policy'', ''same-origin''), (''X-Frame-Options'', ''SAMEORIGIN'')]"

definition add_security_headers :: "site \<Rightarrow> web_request \<Rightarrow> web_response aur \<Rightarrow> web_response aur" where
  "add_security_headers S rq call_next = catch
     (andthen (error_or_result call_next) (\<lambda>r. ret (r\<lparr>wr_headers := security_headers (wq_nonce rq)\<rparr>)))
     (\<lambda>e. if is_exception e then internal_server_error S rq e else throw e)"

definition id_redirect_target :: "string \<Rightarrow> string \<Rightarrow> (string \<times> string) list \<Rightarrow> string" where
  "id_redirect_target path i params =
     (let qs = map (\<lambda>(k, v). k @ ''='' @ quote_plus v) (filter (\<lambda>(k, v). k \<noteq> ''id'') (query_items params)) in
      rstrip_char (CHR ''/'') path @ ''/'' @ i @ (if qs = [] then [] else ''?'' @ join ''&'' qs))"

definition id_redirect_middleware :: "web_request \<Rightarrow> web_response aur \<Rightarrow> web_response aur" where
  "id_redirect_middleware rq call_next = (case query_param ''id'' (wq_params rq) of
     Some i \<Rightarrow> ret (plain_answer (Redirect (id_redirect_target (rq_path rq) i (wq_params rq))))
   | None \<Rightarrow> error_or_result call_next)"

text \<open>
  The application: the middleware that is added last is the outermost. Within all of them Starlette turns an
  \<open>HTTPException\<close> of the route into a response.
\<close>

definition exception_middleware :: "web_request \<Rightarrow> response aur \<Rightarrow> web_response aur" where
  "exception_middleware rq route = catch (andthen route (\<lambda>r. ret (plain_answer r)))
     (\<lambda>e. case e of HTTPException status detail \<Rightarrow> http_exception_handler rq status detail | _ \<Rightarrow> throw e)"

definition dispatch :: "site \<Rightarrow> web_request \<Rightarrow> response aur \<Rightarrow> web_response aur" where
  "dispatch S rq route = id_redirect_middleware rq (terms_middleware plain_answer (request.truncate rq)
     (error_or_result (add_security_headers S rq (exception_middleware rq route))))"

definition app :: "site \<Rightarrow> string option \<Rightarrow> string option \<Rightarrow> (web_request \<Rightarrow> response aur) \<Rightarrow> web_request \<Rightarrow> web_response aur" where
  "app S sid remember route rq = andthen (authenticate (st_config S) sid remember)
     (\<lambda>user. let rq = rq\<lparr>rq_user := user\<rparr> in dispatch S rq (route rq))"

section \<open>Every request is answered\<close>

text \<open>What the answer says of the way the route ended.\<close>

fun answers :: "string \<Rightarrow> exn + response \<Rightarrow> web_response \<Rightarrow> bool" where
  "answers nonce (Inr r) x \<longleftrightarrow> wr_answer x = r \<and> wr_headers x = security_headers nonce"
| "answers nonce (Inl e) x \<longleftrightarrow> (case e of
     HTTPException status detail \<Rightarrow> wr_answer x = Page status (error_template status) [detail] \<and> wr_headers x = security_headers nonce
   | Py_NotImplementedError \<Rightarrow> wr_answer x = Json 500 \<and> wr_headers x = security_headers nonce
   | _ \<Rightarrow> wr_answer x = Page 500 ''errors/500.html'' [])"

definition outcome_ok :: "exn + response \<Rightarrow> bool" where
  "outcome_ok r \<longleftrightarrow> (case r of Inr _ \<Rightarrow> True | Inl e \<Rightarrow> is_exception e)"

definition reports_ok :: "site \<Rightarrow> web_request \<Rightarrow> bool" where
  "reports_ok S rq \<longleftrightarrow> st_project S = ''set-me'' \<or> st_token S = ''set-me'' \<or> rq_get rq \<or> wq_form rq \<noteq> None"

lemma wp_redis_get [wp_simps]: "wp (redis_get k) Q E w = Q (redis_value k w) w"
  by (simp add: redis_get_def wp_simps)

lemma wp_internal_server_error:
  assumes "reports_ok S rq"
    and "\<And>x r. wr_answer x = Page 500 ''errors/500.html'' [] \<Longrightarrow> Q x (w\<lparr>redis := r\<rparr>)"
  shows "wp (internal_server_error S rq e) Q E w"
proof -
  have same: "w = w\<lparr>redis := redis w\<rparr>"
    by simp
  have expire: "wp (redis_expire k 86400) P F (w\<lparr>redis := r\<rparr>)" if "\<And>r'. P () (w\<lparr>redis := r'\<rparr>)" for k P F r
    using that by (auto simp: redis_expire_def wp_simps split: option.split)
  show ?thesis
    unfolding internal_server_error_def Let_def wp_andthen wp_redis_get wp_if wp_ret wp_seqp redis_set_def wp_modify
    using assms(1)
    by (auto simp: reports_ok_def wp_simps plain_answer_def intro!: expire assms(2) [of _ "redis w", simplified] assms(2))
qed

lemma wp_http_exception_handler:
  assumes "startswith (rq_path rq) ''/''"
    and "\<And>x. wr_answer x = Page s (error_template s) [d] \<Longrightarrow> Q x w"
  shows "wp (http_exception_handler rq s d) Q E w"
proof -
  have "Suc 0 \<le> length (split_by q xs)" for q xs
    by (simp add: Suc_le_eq)
  then have "length (split_on c p) \<ge> 2" if "startswith p [c]" for c p
    using that by (cases p) (auto simp: startswith_def split_on_def)
  then have "\<not> length (split_on (CHR ''/'') (rq_path rq)) < 2"
    using assms(1) by (simp add: not_less)
  then show ?thesis
    using assms(2) by (auto simp: http_exception_handler_def Let_def wp_simps get_pkg_or_base_def plain_answer_def split: option.split)
qed

lemma wp_exception_middleware:
  assumes "startswith (rq_path rq) ''/''" and "outcome_ok (fst (route w))"
    and "\<And>r. fst (route w) = Inr r \<Longrightarrow> Q (plain_answer r) (snd (route w))"
    and "\<And>x s d. fst (route w) = Inl (HTTPException s d) \<Longrightarrow> wr_answer x = Page s (error_template s) [d] \<Longrightarrow> Q x (snd (route w))"
    and "\<And>e. fst (route w) = Inl e \<Longrightarrow> \<forall>s d. e \<noteq> HTTPException s d \<Longrightarrow> is_exception e \<Longrightarrow> E e (snd (route w))"
  shows "wp (exception_middleware rq route) Q E w"
proof -
  obtain r w' where run: "route w = (r, w')"
    by (cases "route w")
  show ?thesis
  proof (cases r)
    case (Inr x)
    with run assms(3) show ?thesis
      by (simp add: exception_middleware_def wp_simps wp_of_Inr [where m = route])
  next
    case (Inl e)
    then have step: "wp (exception_middleware rq route) Q E w
        = wp (case e of HTTPException status detail \<Rightarrow> http_exception_handler rq status detail | _ \<Rightarrow> throw e) Q E w'"
      using run by (simp add: exception_middleware_def wp_simps wp_of_Inl [where m = route])
    show ?thesis
    proof (cases "\<exists>s d. e = HTTPException s d")
      case True
      then obtain s d where e: "e = HTTPException s d"
        by blast
      show ?thesis
        unfolding step e exn.case by (rule wp_http_exception_handler [OF assms(1)]) (use assms(4) run Inl e in auto)
    next
      case False
      then have "wp (case e of HTTPException status detail \<Rightarrow> http_exception_handler rq status detail | _ \<Rightarrow> throw e) Q E w' = E e w'"
        by (cases e) (simp_all add: wp_simps)
      with step False assms(2,5) run Inl show ?thesis
        by (simp add: outcome_ok_def)
    qed
  qed
qed

lemma wp_add_security_headers:
  assumes "startswith (rq_path rq) ''/''" and "outcome_ok (fst (route w))" and "reports_ok S rq"
    and Q: "\<And>x r. answers (wq_nonce rq) (fst (route w)) x \<Longrightarrow> Q x ((snd (route w))\<lparr>redis := r\<rparr>)"
  shows "wp (add_security_headers S rq (exception_middleware rq route)) Q E w"
proof -
  have Q': "Q x (snd (route w))" if "answers (wq_nonce rq) (fst (route w)) x" for x
    using Q [OF that, of "redis (snd (route w))"] by simp
  have error: "wp (internal_server_error S rq e) Q E (snd (route w))"
    if "fst (route w) = Inl e" "\<forall>s d. e \<noteq> HTTPException s d" "e \<noteq> Py_NotImplementedError" for e
    by (rule wp_internal_server_error [OF assms(3)], rule Q, unfold that(1))
      (use that(2,3) in \<open>auto split: exn.split\<close>)
  show ?thesis
    unfolding add_security_headers_def error_or_result_def wp_catch wp_andthen wp_if wp_ret wp_throw
    by (rule wp_exception_middleware [where route = route and w = w, OF assms(1,2)])
      (use Q' error in \<open>auto simp: is_runtime_error_def wp_ret_fun plain_answer_def wp_throw\<close>)
qed


definition demo_site :: site where
  "demo_site = \<lparr>st_config = default_config, st_traceback = (\<lambda>e. ''Traceback''), st_sha1 = (\<lambda>s. ''sha1'' @ s),
     st_project = ''set-me'', st_token = ''set-me''\<rparr>"

definition demo_get :: "string \<Rightarrow> web_request" where
  "demo_get path = \<lparr>rq_user = AnonymousUser, rq_get = True, rq_path = path, rq_referer = None, rq_ip = ''10.0.0.1'',
     wq_params = [], wq_lang = None, wq_form = None, wq_nonce = ''nonce'', wq_base = ''https://aur.archlinux.org''\<rparr>"


text \<open>An exception that has been reported is not reported again within a day, nor is its key touched.\<close>

lemma traceback_reported_once:
  assumes "internal_server_error S rq e w = (Inr x, w1)" and "redis w2 (traceback_key S e) = redis w1 (traceback_key S e)"
    and "now w \<le> now w2" and "now w2 \<le> now w + 86400" and "redis_value (traceback_key S e) w = None"
  shows "internal_server_error S rq' e w2 = (Inr (plain_answer (Page 500 ''errors/500.html'' [])), w2)"
proof -
  have "redis w1 (traceback_key S e) = Some (1, Some (now w + 86400))"
  proof -
    have "wp (internal_server_error S rq e) (\<lambda>_ w'. redis w' (traceback_key S e) = Some (1, Some (now w + 86400))) (\<lambda>_ _. True) w"
      using assms(5) by (simp add: internal_server_error_def Let_def wp_simps redis_set_def redis_expire_def redis_value_def)
    then show ?thesis
      using assms(1) by (simp add: wp_def)
  qed
  with assms(2-4) have "redis_value (traceback_key S e) w2 = Some 1"
    by (simp add: redis_value_def)
  then show ?thesis
    by (intro run_eqI) (simp add: internal_server_error_def Let_def wp_simps)
qed

text \<open>The target of the redirect is the path of the request, which may name another host.\<close>

lemma id_redirect_leaves_site: "id_redirect_target ''//evil.example/'' ''5'' [] = ''//evil.example/5''"
  by code_simp

end
