(* ===== verification/Sso.thy ===== *)
theory Sso
  imports Site
begin

text \<open>
  Signing in with the accounts of another service: \<open>aurweb/routers/sso.py\<close>. The OAuth library is a parameter: what it
  makes of a request is None where it raises an \<open>OAuthError\<close>, and otherwise the field \<open>sub\<close> of the token and the raw
  token, where they are present. Statements on a plain connection are committed one by one.
\<close>

section \<open>The routes\<close>

type_synonym oauth_result = "(string option \<times> string option) option"

text \<open>Where the provider sends the browser after the sign-in.\<close>

definition authenticate_url :: "config \<Rightarrow> string option \<Rightarrow> string" where
  "authenticate_url cfg redirect = aur_location cfg @ ''/sso/authenticate''
     @ (case redirect of None \<Rightarrow> [] | Some r \<Rightarrow> if r = [] then [] else ''?redirect='' @ quote_plus r)"

definition is_account_suspended :: "nat \<Rightarrow> db \<Rightarrow> bool" where
  "is_account_suspended uid d = (case List.find (\<lambda>u. u_ID u = uid) (Users d) of None \<Rightarrow> False | Some u \<Rightarrow> u_Suspended u)"

definition open_session :: "config \<Rightarrow> string \<Rightarrow> nat \<Rightarrow> string aur" where
  "open_session cfg ip uid = andthen (query (is_account_suspended uid)) (\<lambda>suspended.
     if suspended then throw (HTTPException 403 ''Account suspended'')
     else andthen (make_random_string cfg 32) (\<lambda>sid. andthen utcnow (\<lambda>ts.
       seqp (insert_unless (\<lambda>d. uid \<notin> user_ids d \<or> uid \<in> ss_UsersID ` set (Sessions d) \<or> sid \<in> sids d)
         (\<lambda>d. d\<lparr>Sessions := Sessions d @ [\<lparr>ss_UsersID = uid, ss_SessionID = sid, ss_LastUpdateTS = ts\<rparr>]\<rparr>))
       (seqp (execute (\<lambda>d. d\<lparr>Users := update_where (\<lambda>u. u_ID u = uid)
         (\<lambda>u. u\<lparr>u_LastLogin := ts, u_LastLoginIPAddress := Some ip\<rparr>) (Users d)\<rparr>))
       (ret sid)))))"

definition is_aur_url :: "config \<Rightarrow> string \<Rightarrow> bool" where
  "is_aur_url cfg url = startswith url (if endswith (aur_location cfg) ''/'' then aur_location cfg else aur_location cfg @ ''/'')"

definition after_sign_in :: "config \<Rightarrow> string option \<Rightarrow> string" where
  "after_sign_in cfg redirect = (case redirect of None \<Rightarrow> ''/''
     | Some r \<Rightarrow> if r \<noteq> [] \<and> is_aur_url cfg r then r else ''/'')"

text \<open>\<open>aurweb.util\<close> has no \<open>add_samesite_fields\<close>.\<close>

definition add_samesite_fields :: "response \<Rightarrow> response aur" where
  "add_samesite_fields r = throw Py_AttributeError"

definition accounts_of_sub :: "string \<Rightarrow> db \<Rightarrow> users_row list" where
  "accounts_of_sub sub d = filter (\<lambda>u. u_SSOAccountID u = Some sub) (Users d)"

definition sso_authenticate :: "config \<Rightarrow> string \<Rightarrow> string option \<Rightarrow> oauth_result \<Rightarrow> response aur" where
  "sso_authenticate cfg ip redirect oauth =
     andthen (query (is_banned ip)) (\<lambda>banned.
     if banned then throw (HTTPException 403 (''The login form is currently disabled for your IP address, ''
       @ ''probably due to sustained spam attacks. Sorry for the inconvenience.''))
     else case oauth of
       None \<Rightarrow> throw (HTTPException 400 ''Bad OAuth token. Please retry logging in from the start.'')
     | Some (sub, id_token) \<Rightarrow>
       (case sub of None \<Rightarrow> throw (HTTPException 400 ''JWT is missing its `sub` field.'')
        | Some s \<Rightarrow>
          if s = [] then throw (HTTPException 400 ''JWT is missing its `sub` field.'')
          else andthen (query (accounts_of_sub s)) (\<lambda>aur_accounts.
            case aur_accounts of
              [] \<Rightarrow> ret (Json 200)
            | u # us \<Rightarrow> if us \<noteq> [] then throw Py_Exception
                else andthen (open_session cfg ip (u_ID u)) (\<lambda>sid.
                  add_samesite_fields (SignedIn (after_sign_in cfg redirect) sid False)))))"

text \<open>The end of the session at the provider, whose address the library knows.\<close>

definition sso_logout :: "config \<Rightarrow> string \<Rightarrow> string option \<Rightarrow> response aur" where
  "sso_logout cfg end_session_endpoint id_token = ret (case id_token of
     None \<Rightarrow> Redirect ''/''
   | Some t \<Rightarrow> if t = [] then Redirect ''/''
       else SignedOut (end_session_endpoint @ ''?post_logout_redirect_uri='' @ quote_plus (aur_location cfg)
         @ ''&id_token_hint='' @ quote_plus t))"

section \<open>Nobody is signed in\<close>

text \<open>The state after a sign-in that fails at its last step.\<close>

definition half_signed_in :: "config \<Rightarrow> string \<Rightarrow> nat \<Rightarrow> world \<Rightarrow> world" where
  "half_signed_in cfg ip uid w = w\<lparr>draws := Suc (draws w), the_db := (the_db w)\<lparr>
     Sessions := Sessions (the_db w) @ [\<lparr>ss_UsersID = uid, ss_SessionID = random_string cfg (draws w) 32, ss_LastUpdateTS = now w\<rparr>],
     Users := update_where (\<lambda>u. u_ID u = uid) (\<lambda>u. u\<lparr>u_LastLogin := now w, u_LastLoginIPAddress := Some ip\<rparr>) (Users (the_db w))\<rparr>\<rparr>"

lemma wp_make_random_string [wp_simps]:
  "wp (make_random_string cfg n) Q E w = Q (random_string cfg (draws w) n) (w\<lparr>draws := Suc (draws w)\<rparr>)"
  by (simp add: wp_def make_random_string_def)

lemma wp_open_session:
  "wp (open_session cfg ip uid) Q E w =
     (if is_account_suspended uid (the_db w) then E (HTTPException 403 ''Account suspended'') w
      else if uid \<notin> user_ids (the_db w) \<or> uid \<in> ss_UsersID ` set (Sessions (the_db w))
          \<or> random_string cfg (draws w) 32 \<in> sids (the_db w)
        then E IntegrityError (w\<lparr>draws := Suc (draws w)\<rparr>)
      else Q (random_string cfg (draws w) 32) (half_signed_in cfg ip uid w))"
  by (simp add: open_session_def wp_simps half_signed_in_def)

text \<open>The account a sign-in opens a session for: the only one of a good token, neither suspended nor signed in.\<close>

definition sso_session :: "string \<Rightarrow> oauth_result \<Rightarrow> db \<Rightarrow> nat option" where
  "sso_session ip oauth d = (case oauth of
     Some (Some sub, tok) \<Rightarrow> (case accounts_of_sub sub d of
         [u] \<Rightarrow> if sub \<noteq> [] \<and> \<not> is_banned ip d \<and> \<not> u_Suspended u \<and> session_of (u_ID u) d = None then Some (u_ID u) else None
       | _ \<Rightarrow> None)
   | _ \<Rightarrow> None)"

lemma suspended_row:
  assumes "wf_db d" and "u \<in> set (Users d)"
  shows "is_account_suspended (u_ID u) d \<longleftrightarrow> u_Suspended u"
proof -
  have ids: "distinct (map u_ID (Users d))"
    using assms(1) by (simp add: wf_db_def unique_ok_def)
  obtain v where v: "List.find (\<lambda>x. u_ID x = u_ID u) (Users d) = Some v"
    using assms(2) find_None_iff [of "\<lambda>x. u_ID x = u_ID u" "Users d"] by fastforce
  then have "v = u"
    using find_SomeD [OF v] assms(2) distinct_map_inj [OF ids] by auto
  with v show ?thesis
    by (simp add: is_account_suspended_def)
qed


definition demo_sso :: world where
  "demo_sso = demo_world\<lparr>the_db := demo_db\<lparr>Users := map (\<lambda>u. if u_ID u = 3 then u\<lparr>u_SSOAccountID := Some ''carol-sso''\<rparr> else u) (Users demo_db)\<rparr>\<rparr>"


text \<open>After a sign-in the browser only goes to a page of the site.\<close>

lemma after_sign_in_stays: "after_sign_in cfg redirect = ''/'' \<or> startswith (after_sign_in cfg redirect) (aur_location cfg)"
proof -
  have "startswith url p" if "startswith url (p @ q)" for url p q :: string
  proof -
    have "take (length p) (take (length (p @ q)) url) = p"
      using that by (simp add: startswith_def)
    then show ?thesis
      by (simp add: startswith_def min_def)
  qed
  then have "is_aur_url cfg r \<Longrightarrow> startswith r (aur_location cfg)" for r
    by (simp add: is_aur_url_def split: if_splits)
  then show ?thesis
    by (cases redirect) (simp_all add: after_sign_in_def)
qed

end
