(* ===== verification/Home.thy ===== *)
theory Home
  imports Site Package_Page
begin

text \<open>
  The home page and what surrounds it: the counters of \<open>aurweb/statistics.py\<close> with the cache of \<open>aurweb/cache.py\<close>, the
  routes of \<open>aurweb/routers/html.py\<close> and the feeds of \<open>aurweb/routers/rss.py\<close>. Of the cache the counters are modelled,
  which are numbers; cached texts are parameters of the routes that use them.
\<close>

section \<open>Counters\<close>

definition db_count_cache :: "string \<Rightarrow> (db \<Rightarrow> nat) \<Rightarrow> int option \<Rightarrow> int aur" where
  "db_count_cache key f expire = andthen (redis_get key) (\<lambda>result. case result of
     Some n \<Rightarrow> ret n
   | None \<Rightarrow> andthen (query f) (\<lambda>n. seqp (redis_set key (int n))
       (seqp (case expire of None \<Rightarrow> ret () | Some e \<Rightarrow> whenp (e \<noteq> 0) (redis_expire key e)) (ret (int n)))))"

definition seven_days :: int where "seven_days = 86400 * 7"
definition one_hour :: int where "one_hour = 3600"
definition one_year :: int where "one_year = seven_days * 52"

definition age_when_modified :: "packagebases_row \<Rightarrow> int" where
  "age_when_modified b = pb_ModifiedTS b - pb_SubmittedTS b"

definition with_status :: "nat \<Rightarrow> db \<Rightarrow> nat" where
  "with_status s d = count_where (\<lambda>r. pr_Status r = s) (PackageRequests d)"

text \<open>The queries of \<open>Statistics.get_count\<close>, at the time of its constructor.\<close>

definition counter_queries :: "int \<Rightarrow> (string \<times> (db \<Rightarrow> nat)) list" where
  "counter_queries ts =
     [(''package_count'', \<lambda>d. length (PackageBases d)),
      (''orphan_count'', \<lambda>d. count_where (\<lambda>b. pb_MaintainerUID b = None) (PackageBases d)),
      (''seven_days_old_added'', \<lambda>d. count_where (\<lambda>b. pb_SubmittedTS b \<ge> ts - seven_days) (PackageBases d)),
      (''seven_days_old_updated'', \<lambda>d. count_where (\<lambda>b. age_when_modified b \<ge> one_hour \<and> pb_ModifiedTS b \<ge> ts - seven_days) (PackageBases d)),
      (''year_old_updated'', \<lambda>d. count_where (\<lambda>b. age_when_modified b \<ge> one_hour \<and> pb_ModifiedTS b \<ge> ts - one_year) (PackageBases d)),
      (''never_updated'', \<lambda>d. count_where (\<lambda>b. age_when_modified b < one_hour) (PackageBases d)),
      (''updated_packages'', \<lambda>d. count_where (\<lambda>b. age_when_modified b > one_hour \<and> pb_MaintainerUID b \<noteq> None) (PackageBases d)),
      (''user_count'', \<lambda>d. length (Users d)),
      (''package_maintainer_count'', \<lambda>d. count_where (\<lambda>u. u_AccountTypeID u \<in> {PACKAGE_MAINTAINER_ID, PACKAGE_MAINTAINER_AND_DEV_ID}) (Users d)),
      (''regular_user_count'', \<lambda>d. count_where (\<lambda>u. u_AccountTypeID u = USER_ID) (Users d)),
      (''total_requests'', \<lambda>d. length (PackageRequests d)),
      (''pending_requests'', with_status PENDING_ID), (''closed_requests'', with_status CLOSED_ID),
      (''accepted_requests'', with_status ACCEPTED_ID), (''rejected_requests'', with_status REJECTED_ID)]"

definition get_count :: "int option \<Rightarrow> int \<Rightarrow> string \<Rightarrow> int aur" where
  "get_count expire ts counter = (case map_of (counter_queries ts) counter of
     None \<Rightarrow> ret (-1) | Some f \<Rightarrow> db_count_cache counter f expire)"

definition HOMEPAGE_COUNTERS :: "string list" where
  "HOMEPAGE_COUNTERS = [''package_count'', ''orphan_count'', ''seven_days_old_added'', ''seven_days_old_updated'',
     ''year_old_updated'', ''never_updated'', ''user_count'', ''package_maintainer_count'']"

definition REQUEST_COUNTERS :: "string list" where
  "REQUEST_COUNTERS = [''total_requests'', ''pending_requests'', ''closed_requests'', ''accepted_requests'', ''rejected_requests'']"

definition PROMETHEUS_USER_COUNTERS :: "(string \<times> string) list" where
  "PROMETHEUS_USER_COUNTERS = [(''package_maintainer_count'', ''package_maintainer''), (''regular_user_count'', ''user'')]"

definition PROMETHEUS_PACKAGE_COUNTERS :: "(string \<times> string) list" where
  "PROMETHEUS_PACKAGE_COUNTERS = [(''orphan_count'', ''orphan''), (''never_updated'', ''not_updated''), (''updated_packages'', ''updated'')]"

definition get_counts :: "int option \<Rightarrow> string list \<Rightarrow> (string \<times> int) list aur" where
  "get_counts expire names = andthen utcnow (\<lambda>ts. collect names (\<lambda>c. andthen (get_count expire ts c) (\<lambda>n. ret (c, n))))"

definition get_homepage_counts :: "int option \<Rightarrow> (string \<times> int) list aur" where
  "get_homepage_counts expire = get_counts expire HOMEPAGE_COUNTERS"

definition get_request_counts :: "int option \<Rightarrow> (string \<times> int) list aur" where
  "get_request_counts expire = get_counts expire REQUEST_COUNTERS"

text \<open>The gauge of the requests counts them by type and status; the result of the query is not cached here.\<close>

definition request_metrics :: "db \<Rightarrow> ((string \<times> string option) \<times> nat) list" where
  "request_metrics d = (let rows = [(qt_Name t, pr_Status r). r \<leftarrow> PackageRequests d, t \<leftarrow> RequestTypes d, qt_ID t = pr_ReqTypeID r] in
     map (\<lambda>(name, s). ((name, status_display s), count_where (\<lambda>x. x = (name, s)) rows)) (remdups rows))"

record gauges =
  gg_users :: "(string \<times> int) list"
  gg_packages :: "(string \<times> int) list"
  gg_requests :: "((string \<times> string option) \<times> nat) list"

definition update_prometheus_metrics :: "int option \<Rightarrow> gauges aur" where
  "update_prometheus_metrics expire = andthen utcnow (\<lambda>ts.
     andthen (collect PROMETHEUS_USER_COUNTERS (\<lambda>(c, utype). andthen (get_count expire ts c) (\<lambda>n. ret (utype, n)))) (\<lambda>us.
     andthen (collect PROMETHEUS_PACKAGE_COUNTERS (\<lambda>(c, state). andthen (get_count expire ts c) (\<lambda>n. ret (state, n)))) (\<lambda>ps.
     andthen (query request_metrics) (\<lambda>rs. ret \<lparr>gg_users = us, gg_packages = ps, gg_requests = rs\<rparr>))))"

section \<open>Routes of the home page\<close>

text \<open>The answer and the language cookie it sets.\<close>

definition language :: "request \<Rightarrow> string \<Rightarrow> string \<Rightarrow> string option \<Rightarrow> (response \<times> string option) aur" where
  "language rq set_lang next q =
     (if next = [] then throw Py_IndexError
      else if hd next \<noteq> CHR ''/'' then ret (Plain 400 ''Invalid 'next' parameter.'', None)
      else let url = next @ (case q of None \<Rightarrow> [] | Some s \<Rightarrow> if s = [] then [] else ''?'' @ s) in
        case rq_user rq of
          LoggedIn u \<Rightarrow> seqp (transaction (execute (\<lambda>d. d\<lparr>Users := update_where (\<lambda>x. u_ID x = u_ID u)
              (\<lambda>x. x\<lparr>u_LangPreference := set_lang\<rparr>) (Users d)\<rparr>)))
            (ret (Redirect url, None))
        | AnonymousUser \<Rightarrow> ret (Redirect url, Some set_lang))"

definition favicon :: "response aur" where
  "favicon = ret (Redirect ''/static/images/favicon.ico'')"

definition raise_service_unavailable :: "response aur" where
  "raise_service_unavailable = throw (HTTPException 503 [])"

text \<open>The checksum of an archive, given the files of the directory of archives.\<close>

definition archive_sha256 :: "(string \<Rightarrow> string option) \<Rightarrow> string \<Rightarrow> response aur" where
  "archive_sha256 files archive = (case files (archive @ ''.sha256'') of
     None \<Rightarrow> throw (HTTPException 404 []) | Some hash_value \<Rightarrow> ret (Plain 200 hash_value))"

definition metrics :: "bool \<Rightarrow> (gauges \<Rightarrow> string) \<Rightarrow> int option \<Rightarrow> response aur" where
  "metrics enabled latest expire = (if \<not> enabled then ret (Plain 503 ''Prometheus metrics are not enabled.'')
     else andthen (update_prometheus_metrics expire) (\<lambda>g. ret (Plain 200 (latest g))))"

section \<open>The dashboard\<close>

text \<open>
  \<open>LIMIT\<close> counts the rows of a join; the ORM shows a package once, however many of them it is in.
\<close>

definition first_packages :: "nat \<Rightarrow> joined list \<Rightarrow> packages_row list" where
  "first_packages n rows = map j_package (group_by (\<lambda>r. pk_ID (j_package r)) (take n rows))"

definition descending :: "('r \<Rightarrow> 'k::linorder) \<Rightarrow> 'r list \<Rightarrow> 'r list" where
  "descending k rows = rev (sort_key k (rev rows))"

definition base_rows :: "db \<Rightarrow> joined list" where
  "base_rows d = concat (map (with_bases d) (Packages d))"

definition comaint_rows :: "db \<Rightarrow> bool \<Rightarrow> joined list" where
  "comaint_rows d isouter = join_rows isouter (\<lambda>r c. cm_PackageBaseID c = pb_ID (j_base r))
     (\<lambda>c. j_comaint_update (\<lambda>_. Some c)) (PackageComaintainers d) (base_rows d)"

text \<open>The packages with a row for every co-maintainer, joined with the users who maintain them in either role.\<close>

definition maintained_rows :: "db \<Rightarrow> nat \<Rightarrow> joined list" where
  "maintained_rows d uid = filter (\<lambda>r. map_option u_ID (j_user r) = Some uid)
     (join_rows False (\<lambda>r u. pb_MaintainerUID (j_base r) = Some (u_ID u) \<or> map_option cm_UsersID (j_comaint r) = Some (u_ID u))
        (\<lambda>u. j_user_update (\<lambda>_. Some u)) (Users d) (comaint_rows d True))"

definition flagged_rows :: "db \<Rightarrow> nat \<Rightarrow> joined list" where
  "flagged_rows d uid = descending (\<lambda>r. pb_ModifiedTS (j_base r)) (sort_key (\<lambda>r. char_codes (pk_Name (j_package r)))
     (filter (\<lambda>r. pb_OutOfDateTS (j_base r) \<noteq> None) (maintained_rows d uid)))"

definition newest_first :: "joined list \<Rightarrow> joined list" where
  "newest_first rows = descending (\<lambda>r. pb_ModifiedTS (j_base r)) (descending (\<lambda>r. char_codes (pk_Name (j_package r))) rows)"

definition own_rows :: "db \<Rightarrow> nat \<Rightarrow> joined list" where
  "own_rows d uid = newest_first (filter (\<lambda>r. pb_MaintainerUID (j_base r) = Some uid) (maintained_rows d uid))"

definition comaintained_rows :: "db \<Rightarrow> nat \<Rightarrow> joined list" where
  "comaintained_rows d uid = newest_first (filter (\<lambda>r. map_option cm_UsersID (j_comaint r) = Some uid) (comaint_rows d False))"

definition own_requests :: "db \<Rightarrow> nat \<Rightarrow> int \<Rightarrow> packagerequests_row list" where
  "own_requests d uid start = descending (\<lambda>r. if pr_Status r = PENDING_ID then 1 else 0 :: nat)
     (descending pr_RequestTS (filter (\<lambda>r. pr_UsersID r = Some uid \<and> pr_RequestTS r \<ge> start) (PackageRequests d)))"

record dashboard =
  dh_flagged :: "packages_row list"
  dh_requests :: "packagerequests_row list"
  dh_packages :: "packages_row list"
  dh_comaintained :: "packages_row list"
  dh_flagged_voted :: "nat \<Rightarrow> bool"
  dh_flagged_notified :: "nat \<Rightarrow> bool"
  dh_packages_voted :: "nat \<Rightarrow> bool"
  dh_packages_notified :: "nat \<Rightarrow> bool"
  dh_comaintained_voted :: "nat \<Rightarrow> bool"
  dh_comaintained_notified :: "nat \<Rightarrow> bool"

definition user_dashboard :: "config \<Rightarrow> nat \<Rightarrow> int \<Rightarrow> db \<Rightarrow> dashboard" where
  "user_dashboard cfg uid ts d =
     (let flagged = first_packages 50 (flagged_rows d uid);
          requests = take 50 (own_requests d uid (ts - request_archive_time (limits cfg)));
          owned = first_packages 50 (own_rows d uid);
          comaintained = first_packages 50 (comaintained_rows d uid) in
      \<lparr>dh_flagged = flagged, dh_requests = requests, dh_packages = owned, dh_comaintained = comaintained,
       dh_flagged_voted = query_voted flagged uid d, dh_flagged_notified = query_notified flagged uid d,
       dh_packages_voted = query_voted owned uid d, dh_packages_notified = query_notified owned uid d,
       dh_comaintained_voted = query_voted comaintained uid d, dh_comaintained_notified = query_notified comaintained uid d\<rparr>)"

record home_page =
  hm_counts :: "(string \<times> int) list"
  hm_updates :: "(string \<times> string \<times> int) list"
  hm_dashboard :: "dashboard option"

definition index :: "config \<Rightarrow> int option \<Rightarrow> requester \<Rightarrow> home_page aur" where
  "index cfg expire user = andthen (get_homepage_counts expire) (\<lambda>counts.
     andthen (query (updated_packages 15)) (\<lambda>updates.
     case user of
       AnonymousUser \<Rightarrow> ret \<lparr>hm_counts = counts, hm_updates = updates, hm_dashboard = None\<rparr>
     | LoggedIn u \<Rightarrow> andthen utcnow (\<lambda>ts. andthen (query (user_dashboard cfg (u_ID u) ts)) (\<lambda>D.
         ret \<lparr>hm_counts = counts, hm_updates = updates, hm_dashboard = Some D\<rparr>))))"

section \<open>Feeds\<close>

record feed_entry =
  fe_title :: string
  fe_link :: string
  fe_description :: string
  fe_timestamp :: int
  fe_guid :: string

definition str_int :: "int \<Rightarrow> string" where
  "str_int i = (if i < 0 then ''-'' @ str_nat (nat (- i)) else str_nat (nat i))"

text \<open>\<open>packages\<close>: the 100 newest by \<open>SubmittedTS\<close> for \<open>/rss/\<close>, by \<open>ModifiedTS\<close> for \<open>/rss/modified\<close>.\<close>

definition feed_packages :: "(packagebases_row \<Rightarrow> int) \<Rightarrow> db \<Rightarrow> (packages_row \<times> int) list" where
  "feed_packages stamp d = take 100 (descending snd
     [(p, stamp b). p \<leftarrow> Packages d, b \<leftarrow> PackageBases d, pb_ID b = pk_PackageBaseID p])"

definition make_rss_feed :: "string \<Rightarrow> (packages_row \<times> int) list \<Rightarrow> feed_entry list" where
  "make_rss_feed base pkgs = map (\<lambda>(pkg, ts). \<lparr>fe_title = pk_Name pkg, fe_link = base @ ''/packages/'' @ pk_Name pkg,
     fe_description = (case pk_Description pkg of None \<Rightarrow> [] | Some t \<Rightarrow> t), fe_timestamp = ts,
     fe_guid = pk_Name pkg @ ''-'' @ str_int ts\<rparr>) pkgs"

record feed_response =
  fd_status :: nat
  fd_body :: string
  fd_max_age :: "int option"
  fd_last_modified :: "int option"
  fd_etag :: "string option"

text \<open>\<open>add_cache_headers\<close>, with the MD5 digest as a parameter.\<close>

definition add_cache_headers :: "(string \<Rightarrow> string) \<Rightarrow> feed_response \<Rightarrow> int option \<Rightarrow> int \<Rightarrow> feed_response" where
  "add_cache_headers md5 r latest_timestamp cache_expire = r\<lparr>fd_max_age := Some cache_expire, fd_last_modified := latest_timestamp,
     fd_etag := (if fd_body r = [] then None else Some (CHR 0x22 # md5 (fd_body r) @ [CHR 0x22]))\<rparr>"

text \<open>
  Both routes: \<open>cached\<close> is the feed that the cache holds, if it does, and \<open>rss_str\<close> writes entries as XML.
\<close>

definition rss :: "(packagebases_row \<Rightarrow> int) \<Rightarrow> (feed_entry list \<Rightarrow> string) \<Rightarrow> (string \<Rightarrow> string) \<Rightarrow> int \<Rightarrow> string \<Rightarrow> string option
    \<Rightarrow> string option \<Rightarrow> db \<Rightarrow> feed_response" where
  "rss stamp rss_str md5 cache_expire base cached if_none_match d =
     (let pkgs = feed_packages stamp d;
          feed = (case cached of Some f \<Rightarrow> f | None \<Rightarrow> rss_str (make_rss_feed base pkgs));
          latest_timestamp = (if pkgs = [] then None else Some (snd (last pkgs)));
          response = add_cache_headers md5 \<lparr>fd_status = 200, fd_body = feed, fd_max_age = None, fd_last_modified = None, fd_etag = None\<rparr>
            latest_timestamp cache_expire in
      if if_none_match \<noteq> None \<and> if_none_match \<noteq> Some [] \<and> if_none_match = fd_etag response
      then \<lparr>fd_status = 304, fd_body = [], fd_max_age = None, fd_last_modified = None, fd_etag = None\<rparr>
      else response)"

section \<open>What the dashboard shows\<close>

lemma set_descending [simp]: "set (descending k rows) = set rows"
  by (simp add: descending_def)

lemma length_descending [simp]: "length (descending k rows) = length rows"
  by (simp add: descending_def)

lemma sorted_descending: "sorted_wrt (\<lambda>x y. k y \<le> k x) (descending k rows)"
proof -
  have "sorted_wrt (\<lambda>x y. k x \<le> k y) (sort_key k (rev rows))"
    using sorted_sort_key [of k "rev rows"] by (simp add: sorted_map)
  then show ?thesis
    by (simp add: descending_def sorted_wrt_rev)
qed

text \<open>A listing of at most \<open>n\<close> rows: every package of it fits, and all that fit are there when the join has no more rows.\<close>

definition lists_up_to :: "nat \<Rightarrow> nat \<Rightarrow> (packages_row \<Rightarrow> bool) \<Rightarrow> db \<Rightarrow> packages_row list \<Rightarrow> bool" where
  "lists_up_to n rows P d shown \<longleftrightarrow> distinct shown \<and> set shown \<subseteq> {p \<in> set (Packages d). P p}
     \<and> (rows \<le> n \<longrightarrow> set shown = {p \<in> set (Packages d). P p})"

lemma first_packages_lists:
  assumes "wf_db d" and rows: "\<And>p. (\<exists>r \<in> set rows. j_package r = p) \<longleftrightarrow> p \<in> set (Packages d) \<and> P p"
  shows "lists_up_to n (length rows) P d (first_packages n rows)"
proof -
  let ?key = "\<lambda>r. pk_ID (j_package r)" and ?g = "group_by (\<lambda>r. pk_ID (j_package r)) (take n rows)"
  have ids: "distinct (map pk_ID (Packages d))"
    using assms(1) by (simp add: wf_db_def unique_ok_def)
  have part: "set ?g \<subseteq> set rows"
    using set_group_by set_take_subset by fast
  then have packages: "j_package r \<in> set (Packages d) \<and> P (j_package r)" if "r \<in> set ?g" for r
    using rows that by blast
  have "distinct (map ?key ?g)" and keys: "?key ` set ?g = ?key ` set (take n rows)"
    using group_by_keys [of ?key "take n rows"] group_by_distinct [of ?key "take n rows"] by auto
  then have "distinct (map pk_ID (first_packages n rows))"
    by (simp add: first_packages_def comp_def)
  then have "distinct (first_packages n rows)"
    by (simp add: distinct_map)
  moreover have "set (first_packages n rows) \<subseteq> {p \<in> set (Packages d). P p}"
    using packages by (auto simp: first_packages_def)
  moreover have "p \<in> set (first_packages n rows)" if few: "length rows \<le> n" and p: "p \<in> set (Packages d)" "P p" for p
  proof -
    obtain r where r: "r \<in> set rows" "j_package r = p"
      using rows [of p] p by blast
    with few keys have "pk_ID p \<in> ?key ` set ?g"
      by force
    then obtain x where x: "x \<in> set ?g" "pk_ID (j_package x) = pk_ID p"
      by auto
    with packages [OF x(1)] p(1) have "j_package x = p"
      using distinct_map_inj [OF ids] by blast
    with x(1) show ?thesis
      by (auto simp: first_packages_def)
  qed
  ultimately show ?thesis
    unfolding lists_up_to_def by blast
qed

definition comaintains :: "db \<Rightarrow> nat \<Rightarrow> packages_row \<Rightarrow> bool" where
  "comaintains d uid p \<longleftrightarrow> (\<exists>c \<in> set (PackageComaintainers d). cm_PackageBaseID c = pk_PackageBaseID p \<and> cm_UsersID c = uid)"

lemma base_rows_iff: "(\<exists>r \<in> set (base_rows d). j_package r = p \<and> j_base r = b) \<longleftrightarrow> p \<in> set (Packages d) \<and> base_of d p b"
  by (auto simp: base_rows_def with_bases_def base_of_def)

lemma base_rows_plain: "r \<in> set (base_rows d) \<Longrightarrow> j_comaint r = None \<and> j_user r = None"
  by (auto simp: base_rows_def with_bases_def)

lemma ex_row_split: "(\<And>r. r \<in> S \<Longrightarrow> f r = v) \<Longrightarrow> (\<exists>r \<in> S. P r \<and> Q r \<and> (A \<or> B \<and> f r = c)) \<longleftrightarrow> (\<exists>r \<in> S. P r \<and> Q r) \<and> (A \<or> B \<and> v = c)"
  by auto

lemma comaint_rows_iff: "(\<exists>r \<in> set (comaint_rows d isouter). j_package r = p \<and> j_base r = b \<and> j_comaint r = c)
    \<longleftrightarrow> p \<in> set (Packages d) \<and> base_of d p b
      \<and> (case c of Some x \<Rightarrow> x \<in> set (PackageComaintainers d) \<and> cm_PackageBaseID x = pb_ID b
         | None \<Rightarrow> isouter \<and> (\<forall>x \<in> set (PackageComaintainers d). cm_PackageBaseID x \<noteq> pb_ID b))"
proof -
  have "(\<exists>r \<in> set (comaint_rows d isouter). j_package r = p \<and> j_base r = b \<and> j_comaint r = c)
    \<longleftrightarrow> (\<exists>r \<in> set (base_rows d). j_package r = p \<and> j_base r = b
        \<and> ((\<exists>x \<in> set (PackageComaintainers d). cm_PackageBaseID x = pb_ID b \<and> c = Some x)
          \<or> (isouter \<and> (\<forall>x \<in> set (PackageComaintainers d). cm_PackageBaseID x \<noteq> pb_ID b)) \<and> j_comaint r = c))"
    unfolding comaint_rows_def Bex_def set_join_rows
    by (auto 0 4)
  also have "\<dots> \<longleftrightarrow> (\<exists>r \<in> set (base_rows d). j_package r = p \<and> j_base r = b)
      \<and> ((\<exists>x \<in> set (PackageComaintainers d). cm_PackageBaseID x = pb_ID b \<and> c = Some x)
          \<or> (isouter \<and> (\<forall>x \<in> set (PackageComaintainers d). cm_PackageBaseID x \<noteq> pb_ID b)) \<and> None = c)"
    by (rule ex_row_split) (simp add: base_rows_plain)
  also have "\<dots> \<longleftrightarrow> p \<in> set (Packages d) \<and> base_of d p b
      \<and> (case c of Some x \<Rightarrow> x \<in> set (PackageComaintainers d) \<and> cm_PackageBaseID x = pb_ID b
         | None \<Rightarrow> isouter \<and> (\<forall>x \<in> set (PackageComaintainers d). cm_PackageBaseID x \<noteq> pb_ID b))"
    unfolding base_rows_iff by (cases c) auto
  finally show ?thesis .
qed

lemma maintained_rows_iff:
  assumes "uid \<in> user_ids d"
  shows "(\<exists>r \<in> set (maintained_rows d uid). j_package r = p \<and> j_base r = b)
    \<longleftrightarrow> p \<in> set (Packages d) \<and> base_of d p b \<and> (pb_MaintainerUID b = Some uid \<or> comaintains d uid p)"
proof -
  have "(\<exists>r \<in> set (maintained_rows d uid). j_package r = p \<and> j_base r = b)
    \<longleftrightarrow> (\<exists>r \<in> set (comaint_rows d True). j_package r = p \<and> j_base r = b
        \<and> (pb_MaintainerUID b = Some uid \<or> map_option cm_UsersID (j_comaint r) = Some uid))"
    using assms by (fastforce simp: maintained_rows_def set_join_rows user_ids_def)
  also have "\<dots> \<longleftrightarrow> (\<exists>c. (\<exists>r \<in> set (comaint_rows d True). j_package r = p \<and> j_base r = b \<and> j_comaint r = c)
        \<and> (pb_MaintainerUID b = Some uid \<or> map_option cm_UsersID c = Some uid))"
    by blast
  also have "\<dots> \<longleftrightarrow> p \<in> set (Packages d) \<and> base_of d p b \<and> (pb_MaintainerUID b = Some uid \<or> comaintains d uid p)"
    unfolding comaint_rows_iff by (auto simp: comaintains_def base_of_def split: option.split)
  finally show ?thesis .
qed

text \<open>The counters only touch the cache.\<close>

lemma get_count_run: "\<exists>n r. get_count expire ts c w = (Inr n, w\<lparr>redis := r\<rparr>)"
proof -
  have same: "\<exists>r. w = w\<lparr>redis := r\<rparr>"
    by (intro exI [of _ "redis w"]) simp
  have "wp (get_count expire ts c) (\<lambda>n w'. \<exists>r. w' = w\<lparr>redis := r\<rparr>) (\<lambda>_ _. False) w"
    using same by (auto simp: get_count_def db_count_cache_def wp_simps redis_set_def redis_expire_def
        split: option.split)
  then show ?thesis
    by (auto simp: wp_def split: prod.splits sum.splits)
qed

lemma collect_counts_run:
  "\<exists>ns r. collect names (\<lambda>c. andthen (get_count expire ts c) (\<lambda>n. ret (c, n))) w = (Inr ns, w\<lparr>redis := r\<rparr>) \<and> map fst ns = names"
proof (induction names arbitrary: w)
  case Nil
  then show ?case
    by (auto simp: ret_def intro: exI [of _ "redis w"])
next
  case (Cons c names)
  obtain n r where one: "get_count expire ts c w = (Inr n, w\<lparr>redis := r\<rparr>)"
    using get_count_run by blast
  obtain ns r' where rest: "collect names (\<lambda>c. andthen (get_count expire ts c) (\<lambda>n. ret (c, n))) (w\<lparr>redis := r\<rparr>)
      = (Inr ns, w\<lparr>redis := r'\<rparr>)" "map fst ns = names"
    using Cons [of "w\<lparr>redis := r\<rparr>"] by auto
  then show ?case
    by (intro exI [of _ "(c, n) # ns"] exI [of _ r'] conjI run_eqI)
      (simp_all add: wp_simps wp_of_Inr [where m = "get_count expire ts c" and w = w, OF one]
        wp_of_Inr [where m = "collect names (\<lambda>c. andthen (get_count expire ts c) (\<lambda>n. ret (c, n)))" and w = "w\<lparr>redis := r\<rparr>", OF rest(1)] rest(2))
qed

lemma homepage_counts_run:
  "\<exists>ns r. get_homepage_counts expire w = (Inr ns, w\<lparr>redis := r\<rparr>) \<and> map fst ns = HOMEPAGE_COUNTERS"
  using collect_counts_run [of HOMEPAGE_COUNTERS expire "now w" w]
  by (auto simp: get_homepage_counts_def get_counts_def andthen_def utcnow_def gets_def)

lemma index_run:
  "\<exists>ns r. index cfg expire (LoggedIn u) w = (Inr \<lparr>hm_counts = ns, hm_updates = updated_packages 15 (the_db w),
     hm_dashboard = Some (user_dashboard cfg (u_ID u) (now w) (the_db w))\<rparr>, w\<lparr>redis := r\<rparr>) \<and> map fst ns = HOMEPAGE_COUNTERS"
proof -
  obtain ns r where "get_homepage_counts expire w = (Inr ns, w\<lparr>redis := r\<rparr>)" "map fst ns = HOMEPAGE_COUNTERS"
    using homepage_counts_run by blast
  then show ?thesis
    by (intro exI [of _ ns] exI [of _ r]) (simp add: index_def andthen_def query_def utcnow_def gets_def ret_def)
qed

lemma flagged_lists:
  assumes "wf_db d" and "uid \<in> user_ids d"
  shows "lists_up_to n (length (flagged_rows d uid)) (\<lambda>p. \<exists>b. base_of d p b \<and> pb_OutOfDateTS b \<noteq> None
     \<and> (pb_MaintainerUID b = Some uid \<or> comaintains d uid p)) d (first_packages n (flagged_rows d uid))"
proof (rule first_packages_lists [OF assms(1)])
  fix p
  have "(\<exists>r \<in> set (flagged_rows d uid). j_package r = p)
      \<longleftrightarrow> (\<exists>b. (\<exists>r \<in> set (maintained_rows d uid). j_package r = p \<and> j_base r = b) \<and> pb_OutOfDateTS b \<noteq> None)"
    by (auto simp: flagged_rows_def)
  then show "(\<exists>r \<in> set (flagged_rows d uid). j_package r = p) \<longleftrightarrow> p \<in> set (Packages d) \<and> (\<exists>b. base_of d p b
      \<and> pb_OutOfDateTS b \<noteq> None \<and> (pb_MaintainerUID b = Some uid \<or> comaintains d uid p))"
    unfolding maintained_rows_iff [OF assms(2)] by blast
qed

lemma own_lists:
  assumes "wf_db d" and "uid \<in> user_ids d"
  shows "lists_up_to n (length (own_rows d uid)) (\<lambda>p. \<exists>b. base_of d p b \<and> pb_MaintainerUID b = Some uid) d
     (first_packages n (own_rows d uid))"
proof (rule first_packages_lists [OF assms(1)])
  fix p
  have "(\<exists>r \<in> set (own_rows d uid). j_package r = p)
      \<longleftrightarrow> (\<exists>b. (\<exists>r \<in> set (maintained_rows d uid). j_package r = p \<and> j_base r = b) \<and> pb_MaintainerUID b = Some uid)"
    by (auto simp: own_rows_def newest_first_def)
  then show "(\<exists>r \<in> set (own_rows d uid). j_package r = p)
      \<longleftrightarrow> p \<in> set (Packages d) \<and> (\<exists>b. base_of d p b \<and> pb_MaintainerUID b = Some uid)"
    unfolding maintained_rows_iff [OF assms(2)] by blast
qed

lemma comaintained_lists:
  assumes "wf_db d"
  shows "lists_up_to n (length (comaintained_rows d uid)) (comaintains d uid) d (first_packages n (comaintained_rows d uid))"
proof (rule first_packages_lists [OF assms])
  fix p
  have "(\<exists>r \<in> set (comaintained_rows d uid). j_package r = p)
      \<longleftrightarrow> (\<exists>b x. (\<exists>r \<in> set (comaint_rows d False). j_package r = p \<and> j_base r = b \<and> j_comaint r = Some x) \<and> cm_UsersID x = uid)"
    by (auto simp: comaintained_rows_def newest_first_def)
  also have "\<dots> \<longleftrightarrow> p \<in> set (Packages d) \<and> (\<exists>b. base_of d p b) \<and> comaintains d uid p"
    unfolding comaint_rows_iff by (auto simp: comaintains_def base_of_def, metis)
  also have "\<dots> \<longleftrightarrow> p \<in> set (Packages d) \<and> comaintains d uid p"
    using with_bases_one [OF assms] by blast
  finally show "(\<exists>r \<in> set (comaintained_rows d uid). j_package r = p) \<longleftrightarrow> p \<in> set (Packages d) \<and> comaintains d uid p" .
qed

text \<open>
  The home page of a user: their own requests of the archive time, pending ones first; the flagged packages they
  maintain in either role, the packages they maintain and those they co-maintain, each of them at most once and
  all of them when the joins have at most 50 rows. Nothing but the cache changes.
\<close>

theorem dashboard_exact:
  assumes "wf_db (the_db w)" and "u \<in> set (Users (the_db w))"
  shows "\<exists>ns D r. index cfg expire (LoggedIn u) w = (Inr \<lparr>hm_counts = ns, hm_updates = updated_packages 15 (the_db w),
        hm_dashboard = Some D\<rparr>, w\<lparr>redis := r\<rparr>) \<and> map fst ns = HOMEPAGE_COUNTERS
    \<and> lists_up_to 50 (length (flagged_rows (the_db w) (u_ID u))) (\<lambda>p. \<exists>b. base_of (the_db w) p b \<and> pb_OutOfDateTS b \<noteq> None
        \<and> (pb_MaintainerUID b = Some (u_ID u) \<or> comaintains (the_db w) (u_ID u) p)) (the_db w) (dh_flagged D)
    \<and> lists_up_to 50 (length (own_rows (the_db w) (u_ID u)))
        (\<lambda>p. \<exists>b. base_of (the_db w) p b \<and> pb_MaintainerUID b = Some (u_ID u)) (the_db w) (dh_packages D)
    \<and> lists_up_to 50 (length (comaintained_rows (the_db w) (u_ID u))) (comaintains (the_db w) (u_ID u)) (the_db w) (dh_comaintained D)
    \<and> (\<exists>rs. dh_requests D = take 50 rs \<and> set rs = {q \<in> set (PackageRequests (the_db w)). pr_UsersID q = Some (u_ID u)
          \<and> now w - request_archive_time (limits cfg) \<le> pr_RequestTS q}
        \<and> sorted_wrt (\<lambda>x y. pr_Status y = PENDING_ID \<longrightarrow> pr_Status x = PENDING_ID) rs)"
proof -
  let ?d = "the_db w" and ?uid = "u_ID u"
  let ?D = "user_dashboard cfg ?uid (now w) ?d" and ?rs = "own_requests ?d ?uid (now w - request_archive_time (limits cfg))"
  obtain ns r where run: "index cfg expire (LoggedIn u) w = (Inr \<lparr>hm_counts = ns, hm_updates = updated_packages 15 ?d,
      hm_dashboard = Some ?D\<rparr>, w\<lparr>redis := r\<rparr>)" "map fst ns = HOMEPAGE_COUNTERS"
    using index_run by blast
  have uid: "?uid \<in> user_ids ?d"
    using assms(2) by (simp add: user_ids_def)
  have fields: "dh_flagged ?D = first_packages 50 (flagged_rows ?d ?uid)" "dh_packages ?D = first_packages 50 (own_rows ?d ?uid)"
    "dh_comaintained ?D = first_packages 50 (comaintained_rows ?d ?uid)" "dh_requests ?D = take 50 ?rs"
    by (simp_all add: user_dashboard_def Let_def)
  have requests: "set ?rs = {q \<in> set (PackageRequests ?d). pr_UsersID q = Some ?uid \<and> now w - request_archive_time (limits cfg) \<le> pr_RequestTS q}"
    by (auto simp: own_requests_def)
  have pending: "sorted_wrt (\<lambda>x y. pr_Status y = PENDING_ID \<longrightarrow> pr_Status x = PENDING_ID) ?rs"
  proof -
    let ?k = "\<lambda>r. if pr_Status r = PENDING_ID then 1 else 0 :: nat"
    have "sorted_wrt (\<lambda>x y. ?k y \<le> ?k x) ?rs"
      unfolding own_requests_def by (rule sorted_descending)
    then show ?thesis
      by (rule sorted_wrt_mono_rel [rotated]) (simp split: if_splits)
  qed
  show ?thesis
    by (rule exI [of _ ns], rule exI [of _ ?D], rule exI [of _ r], intro conjI, unfold fields)
      (rule run flagged_lists [OF assms(1) uid] own_lists [OF assms(1) uid] comaintained_lists [OF assms(1)],
        (rule run flagged_lists [OF assms(1) uid] own_lists [OF assms(1) uid] comaintained_lists [OF assms(1)])+,
        intro exI [of _ ?rs] conjI refl requests pending)
qed

text \<open>A package that its maintainer shares with others has a row for each of them: it takes up more of the 50 rows.\<close>

lemma shared_packages_take_more_rows:
  "length (own_rows demo_db 2) = 2 \<and> length (first_packages 50 (own_rows demo_db 2)) = 1"
  by code_simp

theorem dashboard_exact_witness:
  "\<exists>ns D r. index default_config (Some 300) (LoggedIn demo_bob) demo_world = (Inr \<lparr>hm_counts = ns,
      hm_updates = updated_packages 15 demo_db, hm_dashboard = Some D\<rparr>, demo_world\<lparr>redis := r\<rparr>) \<and> set (dh_packages D) = set (Packages demo_db)"
proof -
  have bob: "demo_bob \<in> set (Users (the_db demo_world))" "u_ID demo_bob = 2"
    by code_simp+
  have rows: "length (own_rows demo_db 2) \<le> 50"
    by code_simp
  have "\<forall>p \<in> set (Packages demo_db). \<exists>b \<in> set (PackageBases demo_db). pb_ID b = pk_PackageBaseID p \<and> pb_MaintainerUID b = Some 2"
    by code_simp
  then have all: "{p \<in> set (Packages demo_db). \<exists>b. base_of demo_db p b \<and> pb_MaintainerUID b = Some 2} = set (Packages demo_db)"
    by (auto simp: base_of_def)
  show ?thesis
    using dashboard_exact [of demo_world demo_bob default_config "Some 300", unfolded demo_the_db bob(2) lists_up_to_def all, OF demo_wf]
      bob(1) rows by (simp only: demo_the_db) blast
qed

section \<open>Other properties\<close>

text \<open>Setting the language changes the preference of the own account alone, and the browser is sent to a path.\<close>

lemma language_outcome:
  assumes "language rq set_lang next q w = (Inr (r, cookie), w')"
  shows "((\<exists>n s. r = Plain n s) \<and> the_db w' = the_db w) \<or> (\<exists>t. r = Redirect (CHR ''/'' # t)
    \<and> the_db w' = (case rq_user rq of AnonymousUser \<Rightarrow> the_db w | LoggedIn u \<Rightarrow> (the_db w)\<lparr>Users :=
        update_where (\<lambda>x. u_ID x = u_ID u) (\<lambda>x. x\<lparr>u_LangPreference := set_lang\<rparr>) (Users (the_db w))\<rparr>))"
proof -
  have "wp (language rq set_lang next q) (\<lambda>(r, cookie) w'. ((\<exists>n s. r = Plain n s) \<and> the_db w' = the_db w) \<or> (\<exists>t. r = Redirect (CHR ''/'' # t)
    \<and> the_db w' = (case rq_user rq of AnonymousUser \<Rightarrow> the_db w | LoggedIn u \<Rightarrow> (the_db w)\<lparr>Users :=
        update_where (\<lambda>x. u_ID x = u_ID u) (\<lambda>x. x\<lparr>u_LangPreference := set_lang\<rparr>) (Users (the_db w))\<rparr>))) (\<lambda>_ _. True) w"
    by (cases "next"; cases "rq_user rq") (simp_all add: language_def wp_simps)
  with assms show ?thesis
    by (simp add: wp_def)
qed

text \<open>A path may yet name another host.\<close>

definition visitor :: request where
  "visitor = \<lparr>rq_user = AnonymousUser, rq_get = False, rq_path = ''/language'', rq_referer = None, rq_ip = ''10.0.0.1''\<rparr>"

lemma language_leaves_site:
  "fst (language visitor ''de'' ''//evil.example'' None w) = Inr (Redirect ''//evil.example'', Some ''de'')"
  by (simp add: language_def ret_def visitor_def)

text \<open>A package base modified exactly an hour after it was submitted counts neither as never updated nor as updated.\<close>

lemma one_hour_old:
  "map (\<lambda>c. the (map_of (counter_queries 0) c) (empty_db\<lparr>PackageBases :=
     [packagebases_default\<lparr>pb_SubmittedTS := 0, pb_ModifiedTS := 3600, pb_MaintainerUID := Some 1\<rparr>]\<rparr>))
     [''package_count'', ''never_updated'', ''updated_packages''] = [1, 0, 0]"
  by code_simp

text \<open>The requests by status are all requests.\<close>

lemma request_counts_add_up:
  assumes "\<forall>r \<in> set (PackageRequests d). pr_Status r \<in> {PENDING_ID, CLOSED_ID, ACCEPTED_ID, REJECTED_ID}"
  shows "with_status PENDING_ID d + with_status CLOSED_ID d + with_status ACCEPTED_ID d + with_status REJECTED_ID d = length (PackageRequests d)"
proof -
  have "count_where (\<lambda>r. pr_Status r = PENDING_ID) rs + count_where (\<lambda>r. pr_Status r = CLOSED_ID) rs
      + count_where (\<lambda>r. pr_Status r = ACCEPTED_ID) rs + count_where (\<lambda>r. pr_Status r = REJECTED_ID) rs = length rs"
    if "\<forall>r \<in> set rs. pr_Status r \<in> {PENDING_ID, CLOSED_ID, ACCEPTED_ID, REJECTED_ID}" for rs
    using that by (induction rs) (auto simp: count_where_def PENDING_ID_def CLOSED_ID_def ACCEPTED_ID_def REJECTED_ID_def)
  with assms show ?thesis
    by (simp add: with_status_def)
qed

text \<open>A feed is its packages with the newest first; the time it gives for its last change is the oldest of theirs.\<close>

lemma feed_newest_first: "sorted_wrt (\<lambda>x y. snd y \<le> snd x) (feed_packages stamp d)"
  unfolding feed_packages_def by (rule sorted_wrt_take [OF sorted_descending])

lemma feed_last_modified_oldest:
  assumes "fd_last_modified (rss stamp rss_str md5 e base cached None d) = Some t" and "x \<in> set (feed_packages stamp d)"
  shows "t \<le> snd x"
proof -
  let ?ps = "feed_packages stamp d"
  have t: "t = snd (last ?ps)" "?ps \<noteq> []"
    using assms by (auto simp: rss_def add_cache_headers_def Let_def split: if_splits)
  then have "sorted_wrt (\<lambda>x y. snd y \<le> snd x) (butlast ?ps @ [last ?ps])"
    using feed_newest_first by simp
  moreover have "x \<in> set (butlast ?ps @ [last ?ps])"
    using assms(2) t(2) by simp
  ultimately show ?thesis
    unfolding t(1) by (auto simp: sorted_wrt_append)
qed

end
