(* ===== verification/Archives.thy ===== *)
theory Archives
  imports Rpc
begin

text \<open>
  The archives of the database: \<open>aurweb/scripts/mkpkglists.py\<close>, the specifications of \<open>aurweb/archives/spec\<close> and
  \<open>aurweb/scripts/git_archive.py\<close>. How a value is written as JSON (\<open>orjson.dumps\<close>) and the SHA256 digest are parameters;
  compression and the renaming of temporary files are not modelled, the files are their contents.
\<close>

section \<open>mkpkglists\<close>

record archive_item =
  ai_ID :: nat
  ai_Name :: string
  ai_PackageBaseID :: nat
  ai_PackageBase :: string
  ai_Version :: string
  ai_Description :: "string option"
  ai_URL :: "string option"
  ai_NumVotes :: nat
  ai_Popularity :: real
  ai_OutOfDate :: "int option"
  ai_Maintainer :: "string option"
  ai_Submitter :: "string option"
  ai_FirstSubmitted :: int
  ai_LastModified :: int
  ai_URLPath :: string

text \<open>\<open>as_dict\<close> with the path of the snapshot that \<open>_main\<close> adds: the rows of the query, in the order of the names.\<close>

definition as_dict :: "snapshot_uri \<Rightarrow> db \<Rightarrow> packages_row \<times> packagebases_row \<Rightarrow> archive_item" where
  "as_dict uri d = (\<lambda>(p, b). \<lparr>ai_ID = pk_ID p, ai_Name = pk_Name p, ai_PackageBaseID = pb_ID b, ai_PackageBase = pb_Name b,
     ai_Version = pk_Version p, ai_Description = pk_Description p, ai_URL = pk_URL p, ai_NumVotes = pb_NumVotes b,
     ai_Popularity = pb_Popularity b, ai_OutOfDate = pb_OutOfDateTS b, ai_Maintainer = username d (pb_MaintainerUID b),
     ai_Submitter = username d (pb_SubmitterUID b), ai_FirstSubmitted = pb_SubmittedTS b, ai_LastModified = pb_ModifiedTS b,
     ai_URLPath = fst uri @ pk_Name p @ snd uri\<rparr>)"

definition archive_rows :: "db \<Rightarrow> (packages_row \<times> packagebases_row) list" where
  "archive_rows d = sort_key (\<lambda>(p, b). char_codes (pk_Name p))
     [(p, b). p \<leftarrow> Packages d, b \<leftarrow> PackageBases d, pb_ID b = pk_PackageBaseID p]"

text \<open>\<open>get_extended_fields\<close>, and the fields \<open>get_extended_dict\<close> collects for a package. The order of a part is that of its names.\<close>

definition by_name :: "extra_record list \<Rightarrow> extra_record list" where
  "by_name rs = sort_key (\<lambda>(i, t, n, c). char_codes n) rs"

definition get_extended_fields :: "db \<Rightarrow> extra_record list" where
  "get_extended_fields d = (let ids = map pk_ID (Packages d) in
     ordered (depend_records d ids) @ ordered (relation_records d ids) @ by_name (group_records d ids)
     @ by_name (license_records d ids) @ by_name (keyword_records d ids) @ ordered (comaintainer_records d))"

type_synonym extended = "(string \<times> string list) list"

definition get_extended_dict :: "extra_record list \<Rightarrow> nat \<Rightarrow> extended" where
  "get_extended_dict rs i = fold (\<lambda>(_, t, n, c). append_name (canonical TYPE_MAPPING t) (with_cond n c)) (filter (\<lambda>r. fst r = i) rs) []"

text \<open>A file of lines of JSON within brackets: every line but the last ends in a comma.\<close>

definition json_file :: "string list \<Rightarrow> string" where
  "json_file items = ''['' @ [nl] @ concat (map (\<lambda>(i, x). x @ (if i < length items - 1 then '','' else []) @ [nl]) (enumerate 0 items)) @ '']''"

definition lines_file :: "string list \<Rightarrow> string" where
  "lines_file names = concat (map (\<lambda>n. n @ [nl]) names)"

record archive_names =
  an_packages :: string
  an_meta :: string
  an_meta_ext :: string
  an_pkgbase :: string
  an_users :: string

record archive_site =
  az_names :: archive_names
  az_uri :: snapshot_uri
  az_dumps :: "archive_item \<times> extended \<Rightarrow> string"
  az_sha256 :: "string \<Rightarrow> string"

definition extended_items :: "archive_site \<Rightarrow> db \<Rightarrow> (archive_item \<times> extended) list" where
  "extended_items A d = (let rs = get_extended_fields d in
     map (\<lambda>x. (as_dict (az_uri A) d x, get_extended_dict rs (pk_ID (fst x)))) (archive_rows d))"

definition archives :: "archive_site \<Rightarrow> bool \<Rightarrow> db \<Rightarrow> (string \<times> string) list" where
  "archives A extended d =
     [(an_packages (az_names A), lines_file (map (\<lambda>x. pk_Name (fst x)) (archive_rows d))),
      (an_meta (az_names A), json_file (map (\<lambda>x. az_dumps A (as_dict (az_uri A) d x, [])) (archive_rows d))),
      (an_pkgbase (az_names A), lines_file (map pb_Name (PackageBases d))),
      (an_users (az_names A), lines_file (map u_Username (Users d)))]
     @ (if extended then [(an_meta_ext (az_names A), json_file (map (az_dumps A) (extended_items A d)))] else [])"

text \<open>The files that a run leaves: every archive, and its digest beside it. \<open>basename\<close> is the part after the last slash.\<close>

definition basename :: "string \<Rightarrow> string" where
  "basename p = last (split_on (CHR ''/'') p)"

definition mkpkglists :: "archive_site \<Rightarrow> bool \<Rightarrow> db \<Rightarrow> (string \<times> string) list" where
  "mkpkglists A extended d = concat (map (\<lambda>(dst, content).
     [(dst @ ''.sha256'', ''SHA256 ('' @ basename dst @ '') = '' @ az_sha256 A content), (dst, content)]) (archives A extended d))"

section \<open>Specifications of Git archives\<close>

text \<open>An output is a file of a repository; the writer of JSON sorts the keys of dictionaries.\<close>

record pkgbase_data =
  bd_ID :: nat
  bd_URLPath :: string
  bd_FirstSubmitted :: int
  bd_LastModified :: int
  bd_OutOfDate :: "int option"
  bd_Maintainer :: "string option"
  bd_Keywords :: "string list"
  bd_NumVotes :: nat
  bd_Popularity :: real
  bd_PopularityUpdated :: int

record pkgname_data =
  nd_Name :: string
  nd_PackageBase :: string
  nd_Submitter :: "string option"
  nd_Version :: string
  nd_Description :: "string option"
  nd_URL :: "string option"
  nd_extra :: extended
  nd_PendingRequests :: nat

text \<open>What is taken out of the RPC data of a package for its package base, and what is left.\<close>

definition base_data :: "rpc_json \<Rightarrow> extended \<Rightarrow> int \<Rightarrow> pkgbase_data" where
  "base_data js extra updated = \<lparr>bd_ID = js_PackageBaseID js, bd_URLPath = js_URLPath js, bd_FirstSubmitted = js_FirstSubmitted js,
     bd_LastModified = js_LastModified js, bd_OutOfDate = js_OutOfDate js, bd_Maintainer = js_Maintainer js,
     bd_Keywords = the (map_of extra ''Keywords''), bd_NumVotes = js_NumVotes js, bd_Popularity = js_Popularity js,
     bd_PopularityUpdated = updated\<rparr>"

definition name_data :: "rpc_json \<Rightarrow> extended \<Rightarrow> nat \<Rightarrow> pkgname_data" where
  "name_data js extra pending = \<lparr>nd_Name = js_Name js, nd_PackageBase = js_PackageBase js,
     nd_Submitter = (case js_Submitter js of None \<Rightarrow> None | Some s \<Rightarrow> s), nd_Version = js_Version js,
     nd_Description = js_Description js, nd_URL = js_URL js, nd_extra = filter (\<lambda>(k, v). k \<noteq> ''Keywords'') extra,
     nd_PendingRequests = pending\<rparr>"

definition metadata_loop :: "snapshot_uri \<Rightarrow> int \<Rightarrow> db \<Rightarrow> extra_record list \<Rightarrow> rpc_package
    \<Rightarrow> (string \<times> pkgbase_data) list \<times> (string \<times> pkgname_data) list \<Rightarrow> (string \<times> pkgbase_data) list \<times> (string \<times> pkgname_data) list" where
  "metadata_loop uri ts d rs package = (\<lambda>(pkgbases, pkgnames). case get_info_json_data uri ts d rs package of
     Info_Result js extra pending \<Rightarrow>
       (AList.update (js_PackageBase js) (base_data js extra (pb_PopularityUpdated (rp_base package))) pkgbases,
        AList.update (js_Name js) (name_data js extra pending) pkgnames)
   | Search_Result js \<Rightarrow> (pkgbases, pkgnames))"

definition metadata_spec :: "snapshot_uri \<Rightarrow> int \<Rightarrow> db \<Rightarrow> (string \<times> pkgbase_data) list \<times> (string \<times> pkgname_data) list" where
  "metadata_spec uri ts d = (let packages = entities d (join_user d (package_search d None)) in
     fold (metadata_loop uri ts d (extra_records d (map rp_ID packages))) packages ([], []))"

definition pkgbases_spec :: "db \<Rightarrow> string list" where
  "pkgbases_spec d = sort_key char_codes (map pb_Name (PackageBases d))"

definition pkgnames_spec :: "db \<Rightarrow> string list" where
  "pkgnames_spec d = sort_key char_codes [pk_Name p. p \<leftarrow> Packages d, b \<leftarrow> PackageBases d, pb_ID b = pk_PackageBaseID p]"

definition users_spec :: "db \<Rightarrow> string list" where
  "users_spec d = sort_key char_codes (map u_Username (Users d))"

section \<open>Repositories of archives\<close>

text \<open>A repository: the files of its working tree and the trees of its commits, newest first.\<close>

record repository =
  gt_files :: "(string \<times> string) list"
  gt_commits :: "(string \<times> string) list list"

definition head_tree :: "repository \<Rightarrow> (string \<times> string) list" where
  "head_tree r = (case gt_commits r of [] \<Rightarrow> [] | t # ts \<Rightarrow> t)"

text \<open>\<open>repo.status()\<close> shows a file that is new or changed, or that is gone.\<close>

definition has_changes :: "repository \<Rightarrow> bool" where
  "has_changes r \<longleftrightarrow> list_ex (\<lambda>k. map_of (gt_files r) k \<noteq> map_of (head_tree r) k) (map fst (gt_files r) @ map fst (head_tree r))"

definition update_repository :: "repository \<Rightarrow> repository" where
  "update_repository r = (if has_changes r then r\<lparr>gt_commits := gt_files r # gt_commits r\<rparr> else r)"

definition git_archive :: "(string \<times> string) list \<Rightarrow> repository \<Rightarrow> repository" where
  "git_archive outputs r = update_repository (r\<lparr>gt_files := fold (\<lambda>(filename, data). AList.update filename data) outputs (gt_files r)\<rparr>)"

section \<open>Reading the archives\<close>

text \<open>A reader of a file of lines, and of the lines of JSON between the brackets.\<close>

definition read_lines :: "string \<Rightarrow> string list" where
  "read_lines s = butlast (split_on nl s)"

definition read_json :: "string \<Rightarrow> string list" where
  "read_json s = (let ls = read_lines (butlast (drop 2 s)) in if ls = [] then [] else map butlast (butlast ls) @ [last ls])"

lemma split_on_line: "c \<notin> set l \<Longrightarrow> split_on c (l @ c # rest) = l # split_on c rest"
  by (induction l) (auto simp: split_on_def)

lemma read_lines_file: "\<forall>l \<in> set ls. nl \<notin> set l \<Longrightarrow> read_lines (lines_file ls) = ls"
proof -
  have "split_on nl (lines_file ls) = ls @ [[]]" if "\<forall>l \<in> set ls. nl \<notin> set l" for ls
    using that
  proof (induction ls)
    case Nil
    then show ?case by (simp add: lines_file_def split_on_def)
  next
    case (Cons l ls)
    then have "split_on nl (lines_file (l # ls)) = l # split_on nl (lines_file ls)"
      by (simp add: lines_file_def split_on_line)
    with Cons show ?case by simp
  qed
  then show "\<forall>l \<in> set ls. nl \<notin> set l \<Longrightarrow> ?thesis"
    by (simp add: read_lines_def)
qed

lemma read_json_file:
  assumes "\<forall>x \<in> set items. nl \<notin> set x"
  shows "read_json (json_file items) = items"
proof -
  let ?line = "\<lambda>(i, x). x @ (if i < length items - 1 then '','' else [])"
  let ?ls = "map ?line (enumerate 0 items)"
  have "json_file items = ''['' @ [nl] @ lines_file ?ls @ '']''"
    by (simp add: json_file_def lines_file_def comp_def case_prod_unfold)
  moreover have "read_lines (lines_file ?ls) = ?ls"
  proof (rule read_lines_file)
    show "\<forall>l \<in> set ?ls. nl \<notin> set l"
      using assms by (fastforce simp: in_set_enumerate_eq nl_def split: if_splits dest: nth_mem)
  qed
  ultimately have read: "read_json (json_file items) = (if ?ls = [] then [] else map butlast (butlast ?ls) @ [last ?ls])"
    by (simp add: read_json_def Let_def)
  show ?thesis
  proof (cases items rule: rev_cases)
    case Nil
    then show ?thesis
      unfolding read by simp
  next
    case (snoc xs x)
    have "map ?line (enumerate 0 xs) = map (\<lambda>y. y @ '','') (map snd (enumerate 0 xs))"
      unfolding map_map by (rule map_cong) (auto simp: snoc in_set_enumerate_eq)
    then have "?ls = map (\<lambda>y. y @ '','') xs @ [x]"
      by (simp add: snoc enumerate_append_eq)
    then show ?thesis
      unfolding read by (simp add: snoc comp_def)
  qed
qed

lemma concat_if_filter: "concat (map (\<lambda>x. if P x then [f x] else []) xs) = map f (filter P xs)"
  by (induction xs) auto

text \<open>Every package is in the archive once, with its package base, in the order of the names.\<close>

lemma archive_rows_exact:
  assumes "wf_db d"
  shows "mset (map fst (archive_rows d)) = mset (Packages d)" "sorted (map (\<lambda>x. char_codes (pk_Name (fst x))) (archive_rows d))"
    "\<forall>x \<in> set (archive_rows d). base_of d (fst x) (snd x)"
proof -
  let ?rows = "[(p, b). p \<leftarrow> Packages d, b \<leftarrow> PackageBases d, pb_ID b = pk_PackageBaseID p]"
  have "map fst [(p, b). p \<leftarrow> ps, b \<leftarrow> PackageBases d, pb_ID b = pk_PackageBaseID p] = ps" if "set ps \<subseteq> set (Packages d)" for ps
    using that
  proof (induction ps)
    case (Cons p ps)
    obtain r where "with_bases d p = [r]"
      using with_bases_one [OF assms, of p] Cons.prems by auto
    then have "length (filter (\<lambda>b. pb_ID b = pk_PackageBaseID p) (PackageBases d)) = 1"
      unfolding with_bases_def by (metis length_map length_Cons list.size(3) One_nat_def)
    then obtain b where "filter (\<lambda>b. pb_ID b = pk_PackageBaseID p) (PackageBases d) = [b]"
      by (metis One_nat_def length_0_conv length_Suc_conv)
    then have "concat (map (\<lambda>b. if pb_ID b = pk_PackageBaseID p then [(p, b)] else []) (PackageBases d)) = [(p, b)]"
      by (simp add: concat_if_filter)
    with Cons show ?case by simp
  qed simp
  then have fst: "map fst ?rows = Packages d"
    by simp
  show "mset (map fst (archive_rows d)) = mset (Packages d)"
    unfolding archive_rows_def mset_map mset_sort using fst by (metis mset_map)
  show "sorted (map (\<lambda>x. char_codes (pk_Name (fst x))) (archive_rows d))"
  proof -
    have "(\<lambda>(p :: packages_row, b :: packagebases_row). char_codes (pk_Name p)) = (\<lambda>x. char_codes (pk_Name (fst x)))"
      by (simp add: fun_eq_iff)
    then show ?thesis
      unfolding archive_rows_def by (simp only: sorted_sort_key)
  qed
  show "\<forall>x \<in> set (archive_rows d). base_of d (fst x) (snd x)"
    by (auto simp: archive_rows_def base_of_def)
qed

text \<open>The fields of the extended archive are those of the specification.\<close>

lemma extended_related:
  assumes "wf_db d" and "p \<in> set (Packages d)"
  shows "listed (get_extended_dict (get_extended_fields d) (pk_ID p)) t = related d p t"
proof -
  let ?ids = "map pk_ID (Packages d)"
  have same: "set (get_extended_fields d) = set (extra_records d ?ids)"
    by (simp add: get_extended_fields_def extra_records_def by_name_def Un_assoc Let_def)
  have "listed (get_extended_dict (get_extended_fields d) (pk_ID p)) t = listed (extra_info (extra_records d ?ids) (pk_ID p)) t"
    unfolding get_extended_dict_def listed_fold listed_extra_info same [symmetric] by (auto simp: listed_def)
  also have "\<dots> = related d p t"
    by (rule listed_related [OF assms]) (use assms(2) in simp)
  finally show ?thesis .
qed

lemma mkpkglists_has: "x \<in> set (archives A extended d) \<Longrightarrow> x \<in> set (mkpkglists A extended d)"
  by (cases x) (force simp: mkpkglists_def)

text \<open>The values that are written as JSON.\<close>

definition archived_values :: "archive_site \<Rightarrow> db \<Rightarrow> (archive_item \<times> extended) list" where
  "archived_values A d = map (\<lambda>x. (as_dict (az_uri A) d x, [])) (archive_rows d) @ extended_items A d"

text \<open>
  C40. The archives can be read back: when the JSON of a package is one line that decodes to it, a reader that takes
  the lines between the brackets and drops the commas after all but the last gets every package of the database exactly
  once, in the order of the names, from both JSON archives, and the extended one has with it exactly its relations,
  licenses, groups, keywords and co-maintainers; the list of names has the same packages in the same order.
\<close>

theorem archives_read_back:
  assumes "wf_db d" and "\<forall>x \<in> set (archived_values A d). loads (az_dumps A x) = Some x \<and> nl \<notin> set (az_dumps A x)"
    and "\<forall>p \<in> set (Packages d). nl \<notin> set (pk_Name p)"
  shows "\<exists>ps names meta ext. mset (map fst ps) = mset (Packages d) \<and> sorted (map (\<lambda>x. char_codes (pk_Name (fst x))) ps)
    \<and> (an_packages (az_names A), names) \<in> set (mkpkglists A True d) \<and> read_lines names = map (\<lambda>x. pk_Name (fst x)) ps
    \<and> (an_meta (az_names A), meta) \<in> set (mkpkglists A True d)
    \<and> map loads (read_json meta) = map (\<lambda>x. Some (as_dict (az_uri A) d x, [])) ps
    \<and> (an_meta_ext (az_names A), ext) \<in> set (mkpkglists A True d)
    \<and> map loads (read_json ext) = map (\<lambda>x. Some (as_dict (az_uri A) d x, get_extended_dict (get_extended_fields d) (pk_ID (fst x)))) ps
    \<and> (\<forall>x \<in> set ps. base_of d (fst x) (snd x)
        \<and> (\<forall>t. listed (get_extended_dict (get_extended_fields d) (pk_ID (fst x))) t = related d (fst x) t))"
proof -
  let ?ps = "archive_rows d"
  let ?names = "map (\<lambda>x. pk_Name (fst x)) ?ps" and ?meta = "map (\<lambda>x. az_dumps A (as_dict (az_uri A) d x, [])) ?ps"
    and ?ext = "map (az_dumps A) (extended_items A d)"
  have json: "read_json (json_file (map (az_dumps A) xs)) = map (az_dumps A) xs" "map loads (map (az_dumps A) xs) = map Some xs"
    if "set xs \<subseteq> set (archived_values A d)" for xs
  proof -
    have ok: "\<forall>x \<in> set xs. loads (az_dumps A x) = Some x \<and> nl \<notin> set (az_dumps A x)"
      using assms(2) that by blast
    show "read_json (json_file (map (az_dumps A) xs)) = map (az_dumps A) xs"
      by (rule read_json_file) (simp add: ok)
    show "map loads (map (az_dumps A) xs) = map Some xs"
      by (simp add: ok)
  qed
  have meta: "?meta = map (az_dumps A) (map (\<lambda>x. (as_dict (az_uri A) d x, [])) ?ps)"
    by simp
  have packages: "fst x \<in> set (Packages d)" if "x \<in> set ?ps" for x
    using archive_rows_exact(1) [OF assms(1)] that by (metis mset_eq_setD image_eqI set_map)
  show ?thesis
  proof (rule exI [of _ ?ps], rule exI [of _ "lines_file ?names"], rule exI [of _ "json_file ?meta"], rule exI [of _ "json_file ?ext"],
      intro conjI ballI allI)
    show "read_lines (lines_file ?names) = ?names"
      by (rule read_lines_file) (use packages assms(3) in auto)
    show "map loads (read_json (json_file ?meta)) = map (\<lambda>x. Some (as_dict (az_uri A) d x, [])) ?ps"
      unfolding meta by (subst json, simp add: archived_values_def, subst json) (simp_all add: archived_values_def comp_def)
    show "map loads (read_json (json_file ?ext))
        = map (\<lambda>x. Some (as_dict (az_uri A) d x, get_extended_dict (get_extended_fields d) (pk_ID (fst x)))) ?ps"
      by (subst json, simp add: archived_values_def, subst json) (simp_all add: archived_values_def extended_items_def Let_def comp_def)
    show "listed (get_extended_dict (get_extended_fields d) (pk_ID (fst x))) t = related d (fst x) t" if "x \<in> set ?ps" for x t
      using that by (rule extended_related [OF assms(1) packages])
    show "base_of d (fst x) (snd x)" if "x \<in> set ?ps" for x
      using archive_rows_exact(3) [OF assms(1)] that by blast
  qed (rule archive_rows_exact [OF assms(1)], simp_all add: archive_rows_exact(2) [OF assms(1)] mkpkglists_has archives_def)
qed

text \<open>A small archive: the JSON of a package is its number, and whether it has extended fields.\<close>

definition tiny_json :: "archive_item \<times> extended \<Rightarrow> string" where
  "tiny_json x = ''{'' @ str_nat (ai_ID (fst x)) @ (if snd x = [] then ''}'' else ''+}'')"

definition tiny_site :: archive_site where
  "tiny_site = \<lparr>az_names = \<lparr>an_packages = ''packages.gz'', an_meta = ''packages-meta-v1.json.gz'', an_meta_ext = ''packages-meta-ext-v1.json.gz'',
     an_pkgbase = ''pkgbase.gz'', an_users = ''users.gz''\<rparr>, az_uri = (''/snapshot/'', ''.tar.gz''), az_dumps = tiny_json, az_sha256 = (\<lambda>s. ''sha256'')\<rparr>"

lemma find_inverse: "distinct (map f xs) \<Longrightarrow> x \<in> set xs \<Longrightarrow> List.find (\<lambda>y. f y = f x) xs = Some x"
  by (induction xs) (auto simp: image_iff)

theorem archives_read_back_witness:
  "\<exists>names. (''packages.gz'', names) \<in> set (mkpkglists tiny_site True demo_db) \<and> read_lines names = [''foo'']"
proof -
  let ?vs = "archived_values tiny_site demo_db"
  let ?loads = "\<lambda>s. List.find (\<lambda>y. az_dumps tiny_site y = s) ?vs"
  have "distinct (map (az_dumps tiny_site) ?vs)"
    by code_simp
  moreover have "\<forall>s \<in> set (map (az_dumps tiny_site) ?vs). nl \<notin> set s"
    by code_simp
  ultimately have json: "\<forall>x \<in> set ?vs. ?loads (az_dumps tiny_site x) = Some x \<and> nl \<notin> set (az_dumps tiny_site x)"
    using find_inverse [of "az_dumps tiny_site" ?vs] by simp
  have one: "\<forall>p \<in> set (Packages demo_db). nl \<notin> set (pk_Name p)" "map pk_Name (Packages demo_db) = [''foo'']"
    by code_simp+
  obtain p where p: "Packages demo_db = [p]" "pk_Name p = ''foo''"
    using one(2) by (cases "Packages demo_db") auto
  show ?thesis
    using archives_read_back [OF demo_wf json one(1)]
  proof (elim exE conjE)
    fix ps names
    assume ps: "mset (map fst ps) = mset (Packages demo_db)" "(an_packages (az_names tiny_site), names) \<in> set (mkpkglists tiny_site True demo_db)"
      "read_lines names = map (\<lambda>x. pk_Name (fst x)) ps"
    from ps(1) have "mset (map fst ps) = mset [p]"
      by (simp only: p(1))
    then have "map fst ps = [p]"
      by (simp only: mset.simps mset_single_iff)
    then have "map (\<lambda>x. pk_Name (fst x)) ps = [''foo'']"
      using p(2) by auto
    with ps(2,3) show ?thesis
      by (intro exI [of _ names]) (simp add: tiny_site_def)
  qed
qed

section \<open>Repositories\<close>

text \<open>A second run with the same outputs commits nothing; after a run the newest commit has the working tree.\<close>

lemma map_of_writes: "map_of (fold (\<lambda>(k, v). AList.update k v) outs fs) = map_of fs ++ map_of (rev outs)"
  by (induction outs arbitrary: fs) (auto simp: update_conv' map_add_def fun_eq_iff split: option.split)

lemma no_changes: "\<not> has_changes r \<longleftrightarrow> map_of (gt_files r) = map_of (head_tree r)"
proof
  assume "\<not> has_changes r"
  then have in_one: "map_of (gt_files r) k = map_of (head_tree r) k" if "k \<in> fst ` set (gt_files r) \<union> fst ` set (head_tree r)" for k
    using that by (auto simp: has_changes_def list_ex_iff)
  have in_none: "map_of (gt_files r) k = map_of (head_tree r) k" if "k \<notin> fst ` set (gt_files r) \<union> fst ` set (head_tree r)" for k
    using that map_of_eq_None_iff [of "gt_files r" k] map_of_eq_None_iff [of "head_tree r" k] by simp
  show "map_of (gt_files r) = map_of (head_tree r)"
    using in_one in_none by (intro ext) metis
qed (simp add: has_changes_def list_ex_iff)

lemma committed_after: "map_of (head_tree (update_repository r)) = map_of (gt_files (update_repository r))"
  using no_changes [of r] by (auto simp: update_repository_def head_tree_def)

lemma git_archive_twice: "gt_commits (git_archive outs (git_archive outs r)) = gt_commits (git_archive outs r)"
proof -
  let ?r = "git_archive outs r" and ?put = "fold (\<lambda>(filename, data). AList.update filename data) outs"
  have files: "gt_files ?r = ?put (gt_files r)"
    by (simp add: git_archive_def update_repository_def)
  have "map_of (?put (gt_files ?r)) = map_of (gt_files ?r)"
    unfolding files map_of_writes by (simp add: fun_eq_iff map_add_def split: option.split)
  also have "\<dots> = map_of (head_tree ?r)"
    by (simp add: git_archive_def committed_after)
  finally have "\<not> has_changes (?r\<lparr>gt_files := ?put (gt_files ?r)\<rparr>)"
    by (simp add: no_changes head_tree_def)
  then show ?thesis
    unfolding git_archive_def [of outs ?r] update_repository_def by simp
qed

text \<open>The path of a snapshot: the archives name it after the package, the RPC interface after the package base.\<close>

lemma snapshot_of_package: "ai_URLPath (as_dict uri d (p, b)) = fst uri @ pk_Name p @ snd uri"
  by (simp add: as_dict_def)

end
