(* ===== verification/Scripts.thy ===== *)
theory Scripts
  imports Account_Routes
begin

text \<open>
  Two scripts that fill tables from outside: \<open>aurweb/scripts/aurblup.py\<close>, which copies the names that the official
  repositories provide into \<open>OfficialProviders\<close>, and \<open>aurweb/scripts/adduser.py\<close>, which adds an account. The packages
  of a repository are an argument of the model, as pyalpm reads them; so is the order in which Python iterates a set of
  pairs.
\<close>

section \<open>Official providers\<close>

record alpm_package =
  ap_name :: string
  ap_provides :: "string list"

record sync_db =
  sy_name :: string
  sy_pkgcache :: "alpm_package list"

text \<open>\<open>re.sub(r"(<|=|>).*", "", provision)\<close>; the dot does not match a newline.\<close>

function strip_version :: "string \<Rightarrow> string" where
  "strip_version [] = []"
| "strip_version (c # s) = (if c \<in> set ''<=>'' then strip_version (dropWhile (\<lambda>c. c \<noteq> CHR 0x0A) s) else c # strip_version s)"
  by pat_completeness auto

termination strip_version
  by (relation "measure length") (auto simp: le_imp_less_Suc length_dropWhile_le)

definition package_provides :: "alpm_package \<Rightarrow> (string \<times> string) list" where
  "package_provides p = (ap_name p, ap_name p) # map (\<lambda>s. (ap_name p, strip_version s)) (ap_provides p)"

text \<open>What the loop over the repositories puts into \<open>repomap\<close>, in its order; the set \<open>providers\<close> has the same keys.\<close>

definition repo_entries :: "sync_db list \<Rightarrow> ((string \<times> string) \<times> string) list" where
  "repo_entries repos = concat (map (\<lambda>r. concat (map (\<lambda>p. map (\<lambda>x. (x, sy_name r)) (package_provides p)) (sy_pkgcache r))) repos)"

definition repomap :: "sync_db list \<Rightarrow> string \<times> string \<Rightarrow> string option" where
  "repomap repos = map_of (rev (repo_entries repos))"

definition providers :: "sync_db list \<Rightarrow> (string \<times> string) list" where
  "providers repos = remdups (map fst (repo_entries repos))"

definition provider_key :: "officialproviders_row \<Rightarrow> string \<times> string" where
  "provider_key x = (op_Name x, op_Provides x)"

text \<open>The constructor of \<open>OfficialProvider\<close> refuses empty columns, the table a pair it has.\<close>

definition create_provider :: "string \<Rightarrow> string option \<Rightarrow> string \<Rightarrow> unit aur" where
  "create_provider name repo provides = (case repo of
     None \<Rightarrow> throw IntegrityError
   | Some r \<Rightarrow> if name = [] \<or> r = [] \<or> provides = [] then throw IntegrityError
       else insert_unless (\<lambda>d. (name, provides) \<in> provider_key ` set (OfficialProviders d))
         (\<lambda>d. d\<lparr>OfficialProviders := OfficialProviders d @
            [\<lparr>op_ID = next_id (map op_ID (OfficialProviders d)), op_Name = name, op_Repo = r, op_Provides = provides\<rparr>]\<rparr>))"

definition delete_provider :: "string \<times> string \<Rightarrow> unit aur" where
  "delete_provider x = execute (\<lambda>d. d\<lparr>OfficialProviders := delete_where (\<lambda>y. provider_key y = x) (OfficialProviders d)\<rparr>)"

text \<open>\<open>op.Repo\<close> may not be NULL.\<close>

definition move_provider :: "(string \<times> string \<Rightarrow> string option) \<Rightarrow> officialproviders_row \<Rightarrow> unit aur" where
  "move_provider repo x = (if repo (provider_key x) = Some (op_Repo x) then ret ()
     else andthen (the_or IntegrityError (repo (provider_key x))) (\<lambda>r. execute (\<lambda>d. d\<lparr>OfficialProviders :=
       update_where (\<lambda>y. op_ID y = op_ID x) (\<lambda>y. y\<lparr>op_Repo := r\<rparr>) (OfficialProviders d)\<rparr>)))"

text \<open>
  The statements in the order of the code. The session keeps them until the commit, so its last query also returns the
  rows that are about to be deleted and not those about to be added; deleting wins over a change of such a row, and the
  new rows have their repository.
\<close>

definition aurblup :: "((string \<times> string) list \<Rightarrow> (string \<times> string) list) \<Rightarrow> sync_db list \<Rightarrow> unit aur" where
  "aurblup iter repos = transaction (
     andthen (query (\<lambda>d. remdups (map provider_key (OfficialProviders d)))) (\<lambda>old_providers.
     seqp (for_each (iter (filter (\<lambda>x. x \<notin> set (providers repos)) old_providers)) delete_provider)
     (seqp (for_each (iter (filter (\<lambda>x. x \<notin> set old_providers) (providers repos)))
        (\<lambda>(name, provides). create_provider name (repomap repos (name, provides)) provides))
     (andthen (query OfficialProviders) (\<lambda>all_providers. for_each all_providers (move_provider (repomap repos)))))))"

section \<open>What the repositories provide\<close>

lemma strip_version_prefix:
  assumes "\<forall>c \<in> set s. c \<notin> set ''<=>''" and "op \<in> set ''<=>''" and "\<forall>c \<in> set v. c \<noteq> CHR 0x0A"
  shows "strip_version (s @ op # v) = s"
  using assms by (induction s) (auto simp: dropWhile_eq_Nil_conv [THEN iffD2])

lemma dom_repomap: "dom (repomap repos) = set (providers repos)"
  by (simp add: repomap_def providers_def dom_map_of_conv_image_fst)

lemma provided_iff:
  "(name, provides) \<in> set (providers repos) \<longleftrightarrow> (\<exists>r \<in> set repos. \<exists>p \<in> set (sy_pkgcache r).
     ap_name p = name \<and> (provides = name \<or> provides \<in> strip_version ` set (ap_provides p)))"
  by (auto simp: providers_def repo_entries_def package_provides_def image_iff)

lemma last_repo_wins:
  "repomap (repos @ [r]) x = (if x \<in> set (providers [r]) then Some (sy_name r) else repomap repos x)"
proof -
  have all: "\<forall>e \<in> set (repo_entries [r]). snd e = sy_name r"
    by (auto simp: repo_entries_def)
  have "map_of (rev es) x = (if x \<in> fst ` set es then Some n else None)" if "\<forall>e \<in> set es. snd e = n" for es :: "((string \<times> string) \<times> string) list" and n
    using that by (induction es) (auto simp: map_add_def split: option.split)
  from this [OF all] show ?thesis
    by (simp add: repomap_def repo_entries_def providers_def map_add_def split: option.split)
qed

text \<open>A pair that can become a row.\<close>

definition storable :: "(string \<times> string \<Rightarrow> string option) \<Rightarrow> string \<times> string \<Rightarrow> bool" where
  "storable repo x \<longleftrightarrow> fst x \<noteq> [] \<and> snd x \<noteq> [] \<and> (case repo x of None \<Rightarrow> False | Some r \<Rightarrow> r \<noteq> [])"

abbreviation provider_rows :: "world \<Rightarrow> officialproviders_row list" where
  "provider_rows w \<equiv> OfficialProviders (the_db w)"

abbreviation with_providers :: "world \<Rightarrow> officialproviders_row list \<Rightarrow> world" where
  "with_providers w rows \<equiv> w\<lparr>the_db := (the_db w)\<lparr>OfficialProviders := rows\<rparr>\<rparr>"

lemma wp_delete_providers:
  "wp (for_each xs delete_provider) Q E w = Q () (with_providers w (filter (\<lambda>y. provider_key y \<notin> set xs) (provider_rows w)))"
proof (induction xs arbitrary: w)
  case Nil
  then show ?case by (simp add: wp_simps)
next
  case (Cons x xs)
  show ?case
    unfolding wp_for_each_Cons delete_provider_def wp_execute
    by (subst Cons.IH [unfolded delete_provider_def]) (simp add: delete_where_def conj_commute)
qed

lemma wp_create_provider:
  assumes "x \<notin> provider_key ` set (provider_rows w)"
  shows "wp (create_provider (fst x) (repo x) (snd x)) Q E w = (if storable repo x
    then Q () (with_providers w (provider_rows w @ [\<lparr>op_ID = next_id (map op_ID (provider_rows w)), op_Name = fst x,
      op_Repo = the (repo x), op_Provides = snd x\<rparr>])) else E IntegrityError w)"
  using assms by (cases "repo x") (simp_all add: create_provider_def storable_def wp_throw wp_if wp_insert_unless)

lemma wp_create_providers:
  assumes "distinct xs" and "set xs \<inter> provider_key ` set (provider_rows w) = {}" and "distinct (map op_ID (provider_rows w))"
    and Q: "\<And>new. (\<forall>x \<in> set xs. storable repo x) \<Longrightarrow> map provider_key new = xs
      \<Longrightarrow> (\<forall>y \<in> set new. repo (provider_key y) = Some (op_Repo y)) \<Longrightarrow> distinct (map op_ID (provider_rows w @ new))
      \<Longrightarrow> Q () (with_providers w (provider_rows w @ new))"
    and E: "\<And>d. \<exists>x \<in> set xs. \<not> storable repo x \<Longrightarrow> E IntegrityError (w\<lparr>the_db := d\<rparr>)"
  shows "wp (for_each xs (\<lambda>(name, provides). create_provider name (repo (name, provides)) provides)) Q E w"
  using assms
proof (induction xs arbitrary: w)
  case Nil
  from Nil.prems(4) [of "[]"] Nil.prems(3) show ?case by (simp add: wp_simps)
next
  case (Cons x xs)
  let ?body = "\<lambda>(name, provides). create_provider name (repo (name, provides)) provides"
  let ?r = "\<lparr>op_ID = next_id (map op_ID (provider_rows w)), op_Name = fst x, op_Repo = the (repo x), op_Provides = snd x\<rparr>"
  have body: "?body x = create_provider (fst x) (repo x) (snd x)"
    by (simp add: case_prod_unfold)
  have key: "provider_key ?r = x"
    by (simp add: provider_key_def)
  have fresh: "x \<notin> provider_key ` set (provider_rows w)"
    using Cons.prems(2) by auto
  show ?case
  proof (cases "storable repo x")
    case False
    then have "E IntegrityError w"
      using Cons.prems(5) [of "the_db w"] by simp
    with False show ?thesis
      unfolding wp_for_each_Cons body wp_create_provider [OF fresh] by simp
  next
    case True
    then have repo: "repo x = Some (op_Repo ?r)"
      by (simp add: storable_def split: option.splits)
    have "wp (for_each xs ?body) Q E (with_providers w (provider_rows w @ [?r]))"
    proof (rule Cons.IH)
      fix new
      assume "\<forall>y \<in> set xs. storable repo y" "map provider_key new = xs"
        "\<forall>y \<in> set new. repo (provider_key y) = Some (op_Repo y)"
        "distinct (map op_ID (provider_rows (with_providers w (provider_rows w @ [?r])) @ new))"
      then show "Q () (with_providers (with_providers w (provider_rows w @ [?r]))
          (provider_rows (with_providers w (provider_rows w @ [?r])) @ new))"
        using Cons.prems(4) [of "?r # new"] True key repo by simp
    next
      fix d assume "\<exists>y \<in> set xs. \<not> storable repo y"
      then show "E IntegrityError (with_providers w (provider_rows w @ [?r])\<lparr>the_db := d\<rparr>)"
        using Cons.prems(5) [of d] by simp
    next
      show "distinct (map op_ID (provider_rows (with_providers w (provider_rows w @ [?r]))))"
        using Cons.prems(3) next_id_fresh [of "map op_ID (provider_rows w)"] by (simp add: set_map)
    qed (use Cons.prems(1,2) key in auto)
    with True show ?thesis
      unfolding wp_for_each_Cons body wp_create_provider [OF fresh] by simp
  qed
qed

lemma wp_move_providers:
  assumes "distinct (map op_ID xs)" and "set xs \<subseteq> set (provider_rows w)" and "distinct (map op_ID (provider_rows w))"
    and "\<forall>x \<in> set xs. repo (provider_key x) \<noteq> None"
  shows "wp (for_each xs (move_provider repo)) Q E w = Q () (with_providers w
    (map (\<lambda>y. if y \<in> set xs then y\<lparr>op_Repo := the (repo (provider_key y))\<rparr> else y) (provider_rows w)))"
  using assms
proof (induction xs arbitrary: w)
  case Nil
  then show ?case by (simp add: wp_simps)
next
  case (Cons x xs)
  let ?new = "\<lambda>y. y\<lparr>op_Repo := the (repo (provider_key y))\<rparr>"
  let ?w = "with_providers w (map (\<lambda>y. if y = x then ?new y else y) (provider_rows w))"
  have same: "op_ID y = op_ID x \<longleftrightarrow> y = x" if "y \<in> set (provider_rows w)" for y
    using that Cons.prems(2,3) by (auto simp: distinct_map dest: inj_onD)
  have move: "wp (move_provider repo x) Q E w = Q () ?w" for Q E
  proof (cases "repo (provider_key x) = Some (op_Repo x)")
    case True
    then have "map (\<lambda>y. if y = x then ?new y else y) (provider_rows w) = provider_rows w"
      by (intro map_idI) auto
    with True show ?thesis
      by (simp add: move_provider_def wp_simps)
  next
    case False
    obtain r where r: "repo (provider_key x) = Some r"
      using Cons.prems(4) by auto
    have "update_where (\<lambda>y. op_ID y = op_ID x) (\<lambda>y. y\<lparr>op_Repo := r\<rparr>) (provider_rows w)
      = map (\<lambda>y. if y = x then ?new y else y) (provider_rows w)"
      unfolding update_where_def by (rule map_cong [OF refl]) (simp add: same r)
    with False r show ?thesis
      by (simp add: move_provider_def wp_simps)
  qed
  have notin: "x \<notin> set xs" "?new x \<notin> set xs"
    using Cons.prems(1) by (auto simp: image_iff)
  have ids: "map (\<lambda>y. if y = x then op_ID x else op_ID y) (provider_rows w) = map op_ID (provider_rows w)"
    by (rule map_cong) auto
  have "wp (for_each xs (move_provider repo)) Q E ?w = Q () (with_providers ?w
    (map (\<lambda>y. if y \<in> set xs then ?new y else y) (provider_rows ?w)))"
    by (rule Cons.IH) (use Cons.prems notin in \<open>auto simp: image_iff comp_def if_distrib ids cong: if_cong\<close>)
  also have "map (\<lambda>y. if y \<in> set xs then ?new y else y) (provider_rows ?w)
    = map (\<lambda>y. if y \<in> set (x # xs) then ?new y else y) (provider_rows w)"
    using notin by auto
  finally show ?case
    unfolding wp_for_each_Cons move by simp
qed

section \<open>The table follows the repositories\<close>

text \<open>
  After a run the table holds what the repositories provide, each pair with the repository that comes last among those
  that provide it; pairs that stay keep their row. A run fails, and changes nothing, exactly if a pair that would have to be
  added has an empty part.
\<close>

theorem providers_follow_repositories:
  assumes "set_iteration iter"
    and "distinct (map op_ID (provider_rows w))" and "distinct (map provider_key (provider_rows w))"
  shows "if \<forall>x \<in> dom (repomap repos) - provider_key ` set (provider_rows w). storable (repomap repos) x
    then \<exists>rows. aurblup iter repos w = (Inr (), with_providers w rows) \<and> distinct (map op_ID rows)
      \<and> distinct (map provider_key rows) \<and> map_of (map (\<lambda>x. (provider_key x, op_Repo x)) rows) = repomap repos
      \<and> (\<forall>x \<in> set (provider_rows w). provider_key x \<in> dom (repomap repos)
          \<longrightarrow> (op_ID x, provider_key x) \<in> (\<lambda>y. (op_ID y, provider_key y)) ` set rows)
    else aurblup iter repos w = (Inl IntegrityError, w)"
proof -
  let ?repo = "repomap repos"
  let ?kept = "filter (\<lambda>x. provider_key x \<in> set (providers repos)) (provider_rows w)"
  let ?gone = "iter (filter (\<lambda>x. x \<notin> set (providers repos)) (remdups (map provider_key (provider_rows w))))"
  let ?add = "iter (filter (\<lambda>x. x \<notin> set (remdups (map provider_key (provider_rows w)))) (providers repos))"
  let ?set = "\<lambda>y. y\<lparr>op_Repo := the (?repo (provider_key y))\<rparr>"
  have iter: "set (iter xs) = set xs" "distinct (iter xs)" for xs
    using assms(1) by (simp_all add: set_iteration_def)
  have add: "set ?add = dom ?repo - provider_key ` set (provider_rows w)"
    unfolding iter dom_repomap by auto
  have kept: "filter (\<lambda>y. provider_key y \<notin> set ?gone) (provider_rows w) = ?kept"
    unfolding iter by (rule filter_cong) auto
  let ?Q = "\<lambda>_ w'. (\<forall>x \<in> set ?add. storable ?repo x) \<and> (\<exists>new. map provider_key new = ?add
      \<and> distinct (map op_ID (?kept @ new)) \<and> w' = with_providers w (map ?set (?kept @ new)))"
  let ?E = "\<lambda>e w'. e = IntegrityError \<and> w' = w \<and> (\<exists>x \<in> set ?add. \<not> storable ?repo x)"
  have wp: "wp (aurblup iter repos) ?Q ?E w"
    unfolding aurblup_def wp_transaction wp_andthen wp_query wp_seqp wp_delete_providers kept
  proof (rule wp_create_providers)
    fix new
    let ?w = "with_providers w ?kept"
    assume new: "\<forall>x \<in> set ?add. storable ?repo x" "map provider_key new = ?add" "distinct (map op_ID (provider_rows ?w @ new))"
    let ?w2 = "with_providers w (?kept @ new)"
    have w2: "with_providers ?w (provider_rows ?w @ new) = ?w2" and rows2: "provider_rows ?w2 = ?kept @ new"
      by simp_all
    have keys: "?repo (provider_key y) \<noteq> None" if "y \<in> set (?kept @ new)" for y
    proof -
      have "provider_key y \<in> dom ?repo"
        using that add arg_cong [OF new(2), of set] by (auto simp: dom_repomap)
      then show ?thesis by blast
    qed
    have "map (\<lambda>y. if y \<in> set (?kept @ new) then ?set y else y) (?kept @ new) = map ?set (?kept @ new)"
      by (rule map_cong [OF refl]) simp
    then have all: "with_providers ?w2 (map (\<lambda>y. if y \<in> set (?kept @ new) then ?set y else y) (provider_rows ?w2))
      = with_providers w (map ?set (?kept @ new))"
      by simp
    have move: "wp (for_each (?kept @ new) (move_provider ?repo)) Q E ?w2 = Q () (with_providers w (map ?set (?kept @ new)))" for Q E
      unfolding all [symmetric] by (rule wp_move_providers) (use new(3) keys in simp_all)
    show "wp (for_each (provider_rows (with_providers ?w (provider_rows ?w @ new))) (move_provider ?repo)) ?Q
      (\<lambda>e w'. ?E e (w'\<lparr>the_db := the_db w\<rparr>)) (with_providers ?w (provider_rows ?w @ new))"
      unfolding w2 rows2 move using new by (intro conjI exI [of _ new] refl) simp_all
  next
    fix d
    assume "\<exists>x \<in> set ?add. \<not> storable ?repo x"
    then show "?E IntegrityError ((with_providers w ?kept\<lparr>the_db := d\<rparr>)\<lparr>the_db := the_db w\<rparr>)"
      by simp
  next
    show "set ?add \<inter> provider_key ` set (provider_rows (with_providers w ?kept)) = {}"
      unfolding add by auto
  qed (use assms(2) iter in \<open>simp_all add: distinct_map_filter\<close>)
  show ?thesis
  proof (cases "aurblup iter repos w")
    case (Pair r w')
    then show ?thesis
    proof (cases r)
      case (Inl e)
      with Pair wp have e: "e = IntegrityError" "w' = w" and "\<exists>x \<in> set ?add. \<not> storable ?repo x"
        by (auto simp: wp_def)
      then have bad: "\<not> (\<forall>x \<in> dom ?repo - provider_key ` set (provider_rows w). storable ?repo x)"
        unfolding add by blast
      show ?thesis
        unfolding if_not_P [OF bad] Pair Inl e by (rule refl)
    next
      case (Inr u)
      with Pair wp obtain new where all: "\<forall>x \<in> set ?add. storable ?repo x" and new: "map provider_key new = ?add"
        "distinct (map op_ID (?kept @ new))" and w': "w' = with_providers w (map ?set (?kept @ new))"
        by (auto simp: wp_def)
      let ?rows = "map ?set (?kept @ new)"
      have keys: "map provider_key ?rows = map provider_key ?kept @ ?add"
        unfolding new(1) [symmetric] by (simp add: provider_key_def)
      have dom: "set (map provider_key ?rows) = dom ?repo"
        unfolding keys set_append add by (auto simp: dom_repomap)
      have good: "\<forall>x \<in> dom ?repo - provider_key ` set (provider_rows w). storable ?repo x"
        using all unfolding add .
      have "map (\<lambda>x. (provider_key x, op_Repo x)) ?rows = map (\<lambda>k. (k, the (?repo k))) (map provider_key ?rows)"
        by (simp add: provider_key_def)
      then have m1: "map_of (map (\<lambda>x. (provider_key x, op_Repo x)) ?rows) = ?repo"
        by (simp only: map_of_map_restrict dom) (auto simp: fun_eq_iff restrict_map_def dom_def)
      have m2: "distinct (map op_ID ?rows)"
        using new(2) by (simp add: comp_def)
      have m3: "distinct (map provider_key ?rows)"
        unfolding keys distinct_append add by (use assms(3) iter in \<open>auto simp: distinct_map_filter\<close>)
      have m4: "(op_ID x, provider_key x) \<in> (\<lambda>y. (op_ID y, provider_key y)) ` set ?rows"
        if "x \<in> set (provider_rows w)" "provider_key x \<in> dom ?repo" for x
      proof (rule image_eqI)
        show "?set x \<in> set ?rows"
          using that by (auto simp: dom_repomap)
      qed (simp add: provider_key_def)
      show ?thesis
        unfolding if_P [OF good] Pair Inr w'
        by (intro exI [of _ ?rows] conjI ballI impI m1 m2 m3 m4) simp_all
    qed
  qed
qed

section \<open>Adding an account\<close>

text \<open>The arguments of the command line; argparse admits the names of account types only.\<close>

record adduser_args =
  aa_username :: string
  aa_email :: string
  aa_password :: string
  aa_realname :: "string option"
  aa_ircnick :: "string option"
  aa_pgp_key :: "string option"
  aa_ssh_pubkey :: "string option"
  aa_type :: string

text \<open>A column that is given None gets its default, which is the empty string or NULL.\<close>

definition adduser_row :: "config \<Rightarrow> adduser_args \<Rightarrow> nat \<Rightarrow> nat \<Rightarrow> int \<Rightarrow> users_row" where
  "adduser_row cfg a i account_type ts = set_email cfg (aa_email a) (users_default\<lparr>u_ID := i, u_AccountTypeID := account_type,
     u_Username := aa_username a, u_Passwd := (if aa_password a = [] then [] else hashpw cfg (aa_password a)),
     u_RealName := (case aa_realname a of None \<Rightarrow> [] | Some s \<Rightarrow> s), u_IRCNick := (case aa_ircnick a of None \<Rightarrow> [] | Some s \<Rightarrow> s),
     u_PGPKey := aa_pgp_key a, u_RegistrationTS := ts\<rparr>)"

text \<open>The key without its host.\<close>

definition adduser_pubkey :: "string \<Rightarrow> string" where
  "adduser_pubkey s = join '' '' (take 2 (split_on (CHR '' '') (strip s)))"

text \<open>
  \<open>json\<close> is what \<open>user.json()\<close> writes. Without a row for the account type the column would get its default.
\<close>

definition adduser :: "config \<Rightarrow> (users_row \<Rightarrow> string) \<Rightarrow> adduser_args \<Rightarrow> nat aur" where
  "adduser cfg json a = andthen utcnow (\<lambda>ts.
     let account_type = (case map_of ACCOUNT_TYPE_ID (aa_type a) of None \<Rightarrow> USER_ID | Some i \<Rightarrow> i) in
     andthen (transaction (andthen (query (\<lambda>d. next_id (map u_ID (Users d)))) (\<lambda>i.
       let user = adduser_row cfg a i account_type ts in seqp (insert_user user) (ret user)))) (\<lambda>user.
     seqp (case aa_ssh_pubkey a of
         None \<Rightarrow> ret ()
       | Some key \<Rightarrow> whenp (key \<noteq> []) (transaction (
           andthen (the_or Py_ValueError (ssh_keygen (accounts cfg) (adduser_pubkey key))) (\<lambda>fingerprint.
           insert_ssh_keys [\<lparr>sk_UserID = u_ID user, sk_Fingerprint = fingerprint, sk_PubKey = adduser_pubkey key\<rparr>]))))
     (seqp (print (json user)) (ret 0))))"

text \<open>The script: the text of the traceback is an argument.\<close>

definition adduser_script :: "config \<Rightarrow> (users_row \<Rightarrow> string) \<Rightarrow> (exn \<Rightarrow> string) \<Rightarrow> adduser_args \<Rightarrow> nat aur" where
  "adduser_script cfg json traceback a = catch (adduser cfg json a) (\<lambda>e. seqp (write_err (traceback e)) (ret 1))"

text \<open>
  An account whose name or address is taken is refused and nothing is stored. With a key that ssh-keygen does not accept
  the script fails too, but the account is there: its transaction is over.
\<close>

lemma wp_insert_new_user:
  assumes "\<forall>v \<in> set (Users (the_db w)). u_Username v \<noteq> u_Username u \<and> u_Email v \<noteq> u_Email u
    \<and> (u_NormalizedEmail v = None \<or> u_NormalizedEmail v \<noteq> u_NormalizedEmail u)"
  shows "wp (insert_user u) Q E w = Q () (w\<lparr>the_db := (the_db w)\<lparr>Users := Users (the_db w) @ [u]\<rparr>\<rparr>)"
proof -
  have "\<not> list_ex (\<lambda>v. u_Username v = u_Username u \<or> u_Email v = u_Email u) (Users (the_db w))"
    "\<not> list_ex (\<lambda>v. u_NormalizedEmail v \<noteq> None \<and> u_NormalizedEmail v = u_NormalizedEmail u) (Users (the_db w))"
    using assms by (auto simp: list_ex_iff)
  then show ?thesis
    by (simp add: insert_user_def wp_simps)
qed

theorem rejected_key_leaves_account:
  assumes "map_of ACCOUNT_TYPE_ID (aa_type a) = Some t" and "aa_ssh_pubkey a = Some key" and "key \<noteq> []"
    and "ssh_keygen (accounts cfg) (adduser_pubkey key) = None"
    and "user = adduser_row cfg a (next_id (map u_ID (Users (the_db w)))) t (now w)"
    and "\<forall>v \<in> set (Users (the_db w)). u_Username v \<noteq> u_Username user \<and> u_Email v \<noteq> u_Email user
      \<and> (u_NormalizedEmail v = None \<or> u_NormalizedEmail v \<noteq> u_NormalizedEmail user)"
  shows "adduser_script cfg json traceback a w = (Inr 1, w\<lparr>the_db := (the_db w)\<lparr>Users := Users (the_db w) @ [user]\<rparr>,
    stderr := stderr w @ [traceback Py_ValueError]\<rparr>)"
  using wp_insert_new_user [OF assms(6)]
  by (intro run_eqI) (simp add: adduser_script_def adduser_def Let_def wp_simps assms(1-4) assms(5) [symmetric])

lemma adduser_refuses_taken_names:
  assumes "map_of ACCOUNT_TYPE_ID (aa_type a) = Some t"
    and "v \<in> set (Users (the_db w))" and "u_Username v = aa_username a"
  shows "adduser_script cfg json traceback a w = (Inr 1, w\<lparr>stderr := stderr w @ [traceback IntegrityError]\<rparr>)"
proof -
  have "u_Username (adduser_row cfg a i t ts) = aa_username a" for i ts
    by (simp add: adduser_row_def set_email_def)
  then have "list_ex (\<lambda>v. u_Username v = u_Username (adduser_row cfg a i t ts) \<or> u_Email v = u_Email (adduser_row cfg a i t ts))
      (Users (the_db w))" for i ts
    using assms(2,3) by (auto simp: list_ex_iff)
  then show ?thesis
    by (intro run_eqI) (simp add: adduser_script_def adduser_def insert_user_def Let_def wp_simps assms(1))
qed

end
