(* ===== verification/Spec2Isabelle.thy ===== *)
theory Spec2Isabelle
  imports Pkgbase_Outcomes Voting Account_Safety Service_Terms Git_Auth Git_Props Rpc_Routes Package_Page Maintenance
    Sso Home Archives Scripts
begin

text \<open>
  A verification library for aurweb, the web site and package repository of the Arch User Repository.

  \<^bold>\<open>The program.\<close> Users keep build recipes in package bases: a git repository each, with the packages, votes,
  comments, keywords, co-maintainers, notifications and requests that the database has of it. One database is reached by
  four kinds of entry points, and all of them are modelled on the same state:
  \<^item> the web application (\<open>aurweb/asgi.py\<close>, \<open>aurweb/routers\<close>), where a request passes the middlewares, is given the
    user of its session cookie and reaches a route, which checks credentials and calls the actions of \<open>aurweb/pkgbase\<close>,
    \<open>aurweb/packages\<close> and \<open>aurweb/users\<close>;
  \<^item> the SSH and git interface (\<open>aurweb/git\<close>): a key is looked up (\<open>auth.py\<close>), a command runs (\<open>serve.py\<close>), a push goes
    through the update hook (\<open>update.py\<close>, \<open>update_legacy.py\<close>);
  \<^item> the RPC interface (\<open>aurweb/rpc.py\<close>, \<open>aurweb/routers/rpc.py\<close>) with its rate limit;
  \<^item> the scripts that cron runs (\<open>aurweb/scripts\<close>), which also send all mail.

  \<^bold>\<open>The model.\<close> A handler is a program \<open>'a aur\<close>: a function from the \<open>world\<close> (database, clock, Redis, notifications sent,
  output, random draws) to an exception or a value and the world it leaves; what was done before an exception is kept,
  but for the database of a rolled back \<open>transaction\<close>. Tables are lists of rows in the order of insertion. Queries that
  leave the order open get the order of the table. What the code reads from its configuration and what it calls of third
  parties (password hash, parser of addresses, ssh-keygen, Markdown, git objects, the parsers of .SRCINFO, gettext, JSON,
  digests, the order of Python's sets) are fields of \<open>config\<close> or arguments; the laws the code needs of them are locales
  (\<open>set_iteration\<close>, \<open>password_hash\<close>, \<open>random_source\<close>) with an interpretation on concrete functions.

  \<^bold>\<open>The theories\<close>, in the order in which they build on each other:
  \<^item> \<open>Prelude\<close>: programs, weakest preconditions (\<open>wp_simps\<close>), invariants of programs (\<open>keeps_intros\<close>), tables, the locales
    \<open>system\<close> and \<open>table\<close>. \<open>Py_Strings\<close>: Python's string methods, \<open>shlex\<close>. \<open>Schema\<close>: \<open>aurweb/schema.py\<close>, every
    table with its constraints and ON DELETE clauses; the constraints are kept by the deletions and insertions. \<open>World\<close>:
    the world, \<open>aurweb/exceptions.py\<close>, \<open>aurweb/db.py\<close>, the configuration.
  \<^item> \<open>Creds\<close>: account types and credentials (\<open>aurweb/auth/creds.py\<close>). \<open>Web\<close>: sessions, sign-in and the guards of routes
    (\<open>aurweb/auth\<close>, \<open>aurweb/models/user.py\<close>, \<open>aurweb/routers/auth.py\<close>).
  \<^item> \<open>Git_Serve\<close>: \<open>aurweb/git/serve.py\<close>. \<open>Git_Auth\<close>: \<open>aurweb/git/auth.py\<close>. \<open>Git_Update\<close>, \<open>Git_Update_Alpm\<close>: the two
    update hooks on one body with two backends; \<open>Git_Push\<close>, \<open>Git_Stored\<close>, \<open>Git_Props\<close>: what a push may change, what it
    stores and the properties of the hook. The locale \<open>metadata_backend\<close> states what the body relies on.
  \<^item> \<open>Requests\<close>: \<open>aurweb/packages/requests.py\<close>. \<open>Pkgbase_Util\<close>: popularity, co-maintainers and their ranking
    (\<open>aurweb/pkgbase/util.py\<close>, \<open>aurweb/scripts/popupdate.py\<close>). \<open>Pkgbase_Actions\<close>, \<open>Pkgbase_Merge\<close>:
    \<open>aurweb/pkgbase/actions.py\<close>. \<open>Pkgbase_Routes\<close>: \<open>aurweb/routers/pkgbase.py\<close>; \<open>Pkgbase_Forms\<close>, \<open>Pkgbase_Outcomes\<close>: what all
    forms together keep and what single forms achieve.
  \<^item> \<open>Voting\<close>: \<open>aurweb/routers/package_maintainer.py\<close>, refined against a ballot box. \<open>Request_Routes\<close>:
    \<open>aurweb/routers/requests.py\<close>.
  \<^item> \<open>Validators\<close>: predicates of \<open>aurweb/util.py\<close> and the CAPTCHA. \<open>Accounts\<close>: \<open>aurweb/users\<close>. \<open>Account_Routes\<close>:
    \<open>aurweb/routers/accounts.py\<close>; \<open>Account_Props\<close>, \<open>Account_Safety\<close>: account types, addresses, verification and passwords
    under any sequence of account forms. \<open>Service_Terms\<close>: the terms of service.
  \<^item> \<open>Packages_Search\<close>: \<open>aurweb/packages/search.py\<close>. \<open>Package_Routes\<close>, \<open>Package_Page\<close>: \<open>aurweb/routers/packages.py\<close> and
    \<open>aurweb/packages/util.py\<close>. \<open>Rate_Limit\<close>: \<open>aurweb/ratelimit.py\<close>, both stores as instances of the locale
    \<open>fixed_window\<close>. \<open>Rpc\<close>, \<open>Rpc_Routes\<close>: the RPC interface.
  \<^item> \<open>Text_Wrap\<close>: \<open>textwrap\<close>. \<open>Notify\<close>: \<open>aurweb/scripts/notify.py\<close>. \<open>Maintenance\<close>: accountmaint, requestmaint, usermaint,
    pkgmaint, votereminder. \<open>Archives\<close>: mkpkglists and git_archive. \<open>Scripts\<close>: aurblup and adduser.
  \<^item> \<open>Site\<close>: middlewares, exception handlers, language and time zone (\<open>aurweb/asgi.py\<close>, \<open>aurweb/l10n.py\<close>). \<open>Sso\<close>:
    \<open>aurweb/routers/sso.py\<close>. \<open>Home\<close>: \<open>aurweb/routers/html.py\<close>, \<open>rss.py\<close> and \<open>aurweb/statistics.py\<close>.

  \<^bold>\<open>What is proved.\<close> The properties stand in the theories of the components they speak of, each after its lemmas:
  \<^item> constraints of the database and who may change what: the sessions of the SSH interface and pushes to a repository
    (\<open>Git_Serve\<close>, \<open>Git_Auth\<close>, \<open>Git_Props\<close>), all forms of a package base (\<open>Pkgbase_Forms\<close>), all account forms
    (\<open>Account_Safety\<close>), actions on a selection of packages (\<open>Package_Routes\<close>), what answers and mail show
    (\<open>Rpc_Routes\<close>, \<open>Notify\<close>), sign-in by another service (\<open>Sso\<close>);
  \<^item> the effect of an operation on every branch, errors included: closing requests, adopting, disowning, merging and
    deleting package bases, signing in, the pages of requests and packages, searches of the RPC interface, what a push
    stores, the mail an event causes, the deletion of accounts, the official providers;
  \<^item> agreement of two implementations (votes over SSH and the web, rate limits in Redis and in the table) or with a
    specification (proposals and a ballot box), bounds (majorities, rate limits), the round trip of the archives,
    termination of the draw of random strings, reminders that are sent in the end, an answer to every request;
  \<^item> defects, where the code has them: the terms of service after the first acceptance (\<open>Service_Terms\<close>), sign-in that
    fails after its session is stored (\<open>Sso\<close>), and the lemmas that the findings of the manifest name.

  \<^bold>\<open>Bounds.\<close> \<open>retry_deadlock\<close> runs its body at most eleven times, as the code does. Loops over rows, lines or characters
  are structural. The sign-in loop has the 36 rounds of the code; the search for a fresh random string may
  not end in principle and is \<open>first_free\<close>, a \<open>partial_function\<close> whose value None is the outcome
  \<open>Divergence\<close>; it ends when the random strings do not stay within a finite set (\<open>random_source\<close>). Integers are unbounded, as in
  Python; the widths of columns are not modelled. Real numbers stand for floating point in popularities, rationals in the
  quorum of a vote.

  \<^bold>\<open>Not modelled\<close>: the rendering of comments (subclasses of the Markdown parser; the HTML is a parameter), Jinja templates
  and their filters (of a page the status, the template and the errors or rows it shows are modelled), reading the
  configuration, connections, logging, metrics, migrations, the development server and the tests: they are calls of
  libraries or do not change what a handler answers or stores. Concurrency appears as the points where another process may
  have acted: the retry on a deadlock, unique indexes that refuse an insertion that a check had admitted, and sequences of
  commands in any order in the invariants; statements of two transactions are not interleaved.
\<close>

end
